(* ===== verification/Trading_Prelude.thy ===== *)
theory Trading_Prelude
  imports Main "HOL-Library.Monad_Syntax" "HOL-Library.AList"
begin

text \<open>
  Shared vocabulary of the development: identifiers and time stamps, the error monad in which
  fallible code is written, Python's truthiness on optional values, and the fact collections
  that the component theories extend.

  Identifiers (Python \<open>UUID\<close>) are natural numbers, points in time (aware \<open>datetime\<close> values)
  are integer microseconds since the epoch, so that comparison and subtraction are those of
  the program.  A fresh identifier (\<open>uuid4()\<close>) and the current time (\<open>datetime.now\<close>) are
  always arguments of the definition that uses them.
\<close>

type_synonym uuid = nat
type_synonym timestamp = int

definition seconds :: "int \<Rightarrow> timestamp" where "seconds n = n * 1000000"

named_theorems guard_simps \<open>definitions of validation guards, unfolded together\<close>
named_theorems step_defs \<open>definitions of the state-changing operations of a component\<close>

section \<open>Results of fallible operations\<close>

text \<open>\<open>Inl\<close> is a raised exception, \<open>Inr\<close> a returned value.\<close>

definition res_bind :: "'e + 'a \<Rightarrow> ('a \<Rightarrow> 'e + 'b) \<Rightarrow> 'e + 'b" where
  "res_bind m f = (case m of Inl e \<Rightarrow> Inl e | Inr a \<Rightarrow> f a)"

definition is_ok :: "'e + 'a \<Rightarrow> bool" where
  "is_ok r = (case r of Inl _ \<Rightarrow> False | Inr _ \<Rightarrow> True)"

lemma res_bind_simps [simp]:
  "res_bind (Inl e) f = Inl e"
  "res_bind (Inr a) f = f a"
  by (simp_all add: res_bind_def)

lemma is_ok_simps [simp]:
  "\<not> is_ok (Inl e)"
  "is_ok (Inr a)"
  by (simp_all add: is_ok_def)

lemma res_bind_Inr_iff:
  "res_bind m f = Inr b \<longleftrightarrow> (\<exists>a. m = Inr a \<and> f a = Inr b)"
  by (cases m) simp_all

lemma res_bind_Inl_iff:
  "res_bind m f = Inl e \<longleftrightarrow> m = Inl e \<or> (\<exists>a. m = Inr a \<and> f a = Inl e)"
  by (cases m) simp_all

lemma is_ok_iff: "is_ok r \<longleftrightarrow> (\<exists>a. r = Inr a)"
  by (cases r) simp_all

lemma is_ok_iff_not_Inl: "is_ok r \<longleftrightarrow> \<not> (\<exists>e. r = Inl e)"
  by (cases r) simp_all

lemma is_ok_res_bind: "is_ok (res_bind m f) \<longleftrightarrow> (\<exists>a. m = Inr a \<and> is_ok (f a))"
  by (cases m) simp_all

section \<open>Optional values\<close>

text \<open>
  \<open>x or y\<close> on an optional value whose present values may themselves be falsy (zero, the empty
  string): the predicate says which present values count as false.
\<close>

definition or_else :: "('a \<Rightarrow> bool) \<Rightarrow> 'a option \<Rightarrow> 'a option \<Rightarrow> 'a option" where
  "or_else falsy a b = (case a of None \<Rightarrow> b | Some x \<Rightarrow> if falsy x then b else Some x)"

lemma or_else_simps [simp]:
  "or_else falsy None b = b"
  "or_else falsy (Some x) b = (if falsy x then b else Some x)"
  by (simp_all add: or_else_def)

lemma or_else_SomeD: "or_else falsy a b = Some v \<Longrightarrow> a = Some v \<or> b = Some v"
  by (cases a) (auto split: if_splits)

section \<open>Lists\<close>

fun find_first :: "('a \<Rightarrow> bool) \<Rightarrow> 'a list \<Rightarrow> 'a option" where
  "find_first p [] = None"
| "find_first p (x # xs) = (if p x then Some x else find_first p xs)"

lemma find_first_SomeD: "find_first p xs = Some x \<Longrightarrow> x \<in> set xs \<and> p x"
  by (induction xs) (auto split: if_splits)

lemma find_first_None_iff: "find_first p xs = None \<longleftrightarrow> (\<forall>x \<in> set xs. \<not> p x)"
  by (induction xs) auto

text \<open>Association lists as insertion-ordered dictionaries: a new key goes to the end.\<close>

lemma update_new_key: "k \<notin> fst ` set s \<Longrightarrow> AList.update k v s = s @ [(k, v)]"
  by (induction s) auto

lemma in_set_updateD: "x \<in> set (AList.update k v s) \<Longrightarrow> x = (k, v) \<or> x \<in> set s"
  by (induction s) (auto split: if_splits)

lemma update_known_key: "map_of s k = Some w \<Longrightarrow> map fst (AList.update k v s) = map fst s"
  by (induction s) (auto split: if_splits)

text \<open>Dictionaries whose values know their key.\<close>

definition keyed :: "('v \<Rightarrow> 'k) \<Rightarrow> ('k \<times> 'v) list \<Rightarrow> bool" where
  "keyed key xs \<longleftrightarrow> distinct (map fst xs) \<and> (\<forall>(k, v) \<in> set xs. k = key v)"

lemma keyed_distinct:
  assumes "keyed key xs"
  shows "distinct (map key (map snd xs))"
proof -
  have "map (key \<circ> snd) xs = map fst xs" using assms by (auto simp: keyed_def)
  then have "map key (map snd xs) = map fst xs" by (simp only: map_map)
  with assms show ?thesis unfolding keyed_def by (simp only:)
qed

lemma keyed_map_of: "keyed key xs \<Longrightarrow> v \<in> snd ` set xs \<Longrightarrow> map_of xs (key v) = Some v"
  by (auto simp: keyed_def)

lemma keyed_update: "keyed key xs \<Longrightarrow> key v = k \<Longrightarrow> keyed key (AList.update k v xs)"
  by (auto simp: keyed_def distinct_update dest: in_set_updateD)

lemma distinct_map_filter: "distinct (map h xs) \<Longrightarrow> distinct (map h (filter P xs))"
  by (induction xs) auto

section \<open>Strings\<close>

text \<open>
  The string methods the services use, on ASCII text: \<open>str.strip()\<close>, \<open>str.lower()\<close>,
  \<open>str.upper()\<close> and \<open>str.replace(old, new)\<close> with a nonempty \<open>old\<close> (non-overlapping occurrences
  from the left).
\<close>

definition is_space_char :: "char \<Rightarrow> bool" where
  "is_space_char c \<longleftrightarrow> (of_char c :: nat) \<in> {9, 10, 11, 12, 13, 28, 29, 30, 31, 32}"

definition str_strip :: "string \<Rightarrow> string" where
  "str_strip s = rev (dropWhile is_space_char (rev (dropWhile is_space_char s)))"

lemma str_strip_Nil_iff: "str_strip s = [] \<longleftrightarrow> list_all is_space_char s"
proof -
  have "set s = set (takeWhile is_space_char s) \<union> set (dropWhile is_space_char s)"
    by (metis set_append takeWhile_dropWhile_id)
  then show ?thesis
    by (auto simp: str_strip_def list_all_iff dropWhile_eq_Nil_conv dest: set_takeWhileD)
qed

definition char_lower :: "char \<Rightarrow> char" where
  "char_lower c = (if (65::nat) \<le> of_char c \<and> of_char c \<le> (90::nat)
     then char_of (of_char c + 32 :: nat) else c)"

definition char_upper :: "char \<Rightarrow> char" where
  "char_upper c = (if (97::nat) \<le> of_char c \<and> of_char c \<le> (122::nat)
     then char_of (of_char c - 32 :: nat) else c)"

definition str_lower :: "string \<Rightarrow> string" where "str_lower s = map char_lower s"
definition str_upper :: "string \<Rightarrow> string" where "str_upper s = map char_upper s"

function str_replace :: "string \<Rightarrow> string \<Rightarrow> string \<Rightarrow> string" where
  "str_replace old new [] = []"
| "str_replace old new (c # cs) =
     (if old \<noteq> [] \<and> take (length old) (c # cs) = old
      then new @ str_replace old new (drop (length old - 1) cs)
      else c # str_replace old new cs)"
  by pat_completeness auto
termination by (relation "measure (\<lambda>(_, _, s). length s)") auto

text \<open>\<open>k in s\<close> on strings.\<close>

fun contains_text :: "string \<Rightarrow> string \<Rightarrow> bool" where
  "contains_text k [] \<longleftrightarrow> k = []"
| "contains_text k (c # s) \<longleftrightarrow> take (length k) (c # s) = k \<or> contains_text k s"

end
