(* ===== verification/Rounding.thy ===== *)
theory Rounding
  imports Complex_Main Trading_Prelude
begin

text \<open>
  Floating arithmetic of the Python runtime.  The program computes money and quantities with
  \<^verbatim>\<open>decimal.Decimal\<close> under the default context (28 significant digits, ties to even) and token
  accrual with binary64 floats.  Both are instances of one scheme: a result is the exact
  rational result rounded to the nearest value with \<open>p\<close> significant base-\<open>b\<close> digits and an
  exponent not below \<open>emin\<close>.  Values are rationals; infinities, NaN and the overflow traps are
  outside the model (every quantity of the program is far below \<open>10 ^ 999999\<close>).
\<close>

section \<open>Nearest integer, ties to even\<close>

definition round_even :: "rat \<Rightarrow> int" where
  "round_even x =
     (let f = \<lfloor>x\<rfloor>; r = x - of_int f
      in if r < 1 / 2 then f
         else if 1 / 2 < r then f + 1
         else if even f then f else f + 1)"

lemma round_even_of_int [simp]: "round_even (of_int n) = n"
  by (simp add: round_even_def)

lemma round_even_error: "\<bar>of_int (round_even x) - x\<bar> \<le> 1 / 2"
proof -
  have "of_int \<lfloor>x\<rfloor> \<le> x" "x < of_int \<lfloor>x\<rfloor> + 1"
    by linarith+
  then show ?thesis
    by (auto simp: round_even_def Let_def abs_le_iff)
qed

lemma round_even_bounds: "\<lfloor>x\<rfloor> \<le> round_even x" "round_even x \<le> \<lceil>x\<rceil>"
proof -
  show "\<lfloor>x\<rfloor> \<le> round_even x"
    by (simp add: round_even_def Let_def)
  show "round_even x \<le> \<lceil>x\<rceil>"
  proof (cases "x = of_int \<lfloor>x\<rfloor>")
    case True
    then have "round_even x = \<lfloor>x\<rfloor>"
      by (metis round_even_of_int)
    then show ?thesis by (simp add: floor_le_ceiling)
  next
    case False
    then have "\<lfloor>x\<rfloor> + 1 \<le> \<lceil>x\<rceil>" by linarith
    then show ?thesis by (simp add: round_even_def Let_def)
  qed
qed

lemma round_even_mono: "x \<le> y \<Longrightarrow> round_even x \<le> round_even y"
proof -
  assume xy: "x \<le> y"
  show ?thesis
  proof (cases "\<lfloor>x\<rfloor> = \<lfloor>y\<rfloor>")
    case True
    with xy show ?thesis by (auto simp: round_even_def Let_def)
  next
    case False
    with xy have "\<lfloor>x\<rfloor> + 1 \<le> \<lfloor>y\<rfloor>"
      using floor_mono [OF xy] by linarith
    moreover have "round_even x \<le> \<lfloor>x\<rfloor> + 1"
      by (simp add: round_even_def Let_def)
    ultimately show ?thesis
      using round_even_bounds(1) [of y] by linarith
  qed
qed

section \<open>Number of digits and the decimal exponent of a rational\<close>

fun ndigits :: "nat \<Rightarrow> nat \<Rightarrow> nat" where
  "ndigits b n = (if n = 0 \<or> b < 2 then 0 else Suc (ndigits b (n div b)))"

declare ndigits.simps [simp del]

lemma ndigits_le_iff:
  assumes "2 \<le> b"
  shows "ndigits b n \<le> k \<longleftrightarrow> n < b ^ k"
  using assms
proof (induction b n arbitrary: k rule: ndigits.induct)
  case (1 b n)
  show ?case
  proof (cases "n = 0")
    case True
    then show ?thesis using "1.prems" by (simp add: ndigits.simps [of b 0])
  next
    case False
    note eq = ndigits.simps [of b n]
    show ?thesis
    proof (cases k)
      case 0
      then show ?thesis using False "1.prems" by (simp add: eq)
    next
      case (Suc j)
      have "ndigits b (n div b) \<le> j \<longleftrightarrow> n div b < b ^ j"
        using "1.IH" False "1.prems" by simp
      also have "\<dots> \<longleftrightarrow> n < b ^ j * b"
        using "1.prems" by (simp add: div_less_iff_less_mult)
      finally show ?thesis
        using False "1.prems" Suc by (simp add: eq mult.commute)
    qed
  qed
qed

lemma ndigits_bounds:
  assumes b: "2 \<le> b" and n: "0 < n"
  shows "0 < ndigits b n" "b ^ (ndigits b n - 1) \<le> n" "n < b ^ ndigits b n"
proof -
  show d: "0 < ndigits b n"
    using b n by (simp add: ndigits.simps [of b n])
  then have "\<not> ndigits b n \<le> ndigits b n - 1" by simp
  then show "b ^ (ndigits b n - 1) \<le> n"
    unfolding ndigits_le_iff [OF b] by simp
  show "n < b ^ ndigits b n"
    using ndigits_le_iff [OF b] by blast
qed

text \<open>
  \<open>ilog b x\<close> is the exponent of the leading digit of a positive \<open>x\<close>: the \<open>k\<close> with
  \<open>b powi k \<le> x < b powi (k + 1)\<close>.
\<close>

definition ilog :: "nat \<Rightarrow> rat \<Rightarrow> int" where
  "ilog b x =
     (if 1 \<le> x then int (ndigits b (nat \<lfloor>x\<rfloor>)) - 1
      else - int (ndigits b (nat (\<lceil>1 / x\<rceil> - 1))))"

lemma ilog_ge_1:
  assumes b: "2 \<le> b" and x: "1 \<le> x"
  shows "of_nat b powi ilog b x \<le> x" "x < of_nat b powi (ilog b x + 1)"
proof -
  define n where "n = nat \<lfloor>x\<rfloor>"
  define d where "d = ndigits b n"
  have n: "of_nat n \<le> x" "x < of_nat n + 1" "0 < n"
    using x by (auto simp: n_def) linarith+
  have d0: "0 < d" and ge: "b ^ (d - 1) \<le> n" and lt: "n < b ^ d"
    unfolding d_def using ndigits_bounds [OF b n(3)] by blast+
  have il: "ilog b x = int (d - 1)"
    using x d0 by (simp add: ilog_def n_def [symmetric] d_def [symmetric] of_nat_diff)
  have "of_nat b ^ (d - 1) \<le> (of_nat n :: rat)"
    using of_nat_mono [OF ge, where 'a = rat] by simp
  moreover have "of_nat b powi ilog b x = (of_nat b :: rat) ^ (d - 1)"
    by (simp add: il)
  ultimately show "of_nat b powi ilog b x \<le> x"
    using n(1) by linarith
  have "Suc n \<le> b ^ d" using lt by simp
  then have "of_nat (Suc n) \<le> (of_nat (b ^ d) :: rat)"
    by (rule of_nat_mono)
  moreover have "ilog b x + 1 = int d"
    using il d0 by simp
  ultimately show "x < of_nat b powi (ilog b x + 1)"
    using n by simp
qed

lemma ilog_lt_1:
  assumes b: "2 \<le> b" and x: "0 < x" "x < 1"
  shows "of_nat b powi ilog b x \<le> x" "x < of_nat b powi (ilog b x + 1)"
proof -
  define y where "y = 1 / x"
  define n where "n = nat (\<lceil>y\<rceil> - 1)"
  define d where "d = ndigits b n"
  have y: "1 < y" "x = 1 / y" using x by (auto simp: y_def)
  then have c: "1 < \<lceil>y\<rceil>" by linarith
  have n: "of_nat n < y" "y \<le> of_nat n + 1" "0 < n"
    using c by (auto simp: n_def) linarith+
  have d0: "0 < d" and ge: "b ^ (d - 1) \<le> n" and lt: "n < b ^ d"
    unfolding d_def using ndigits_bounds [OF b n(3)] by blast+
  have "of_nat (Suc n) \<le> (of_nat (b ^ d) :: rat)"
    using lt by (intro of_nat_mono) simp
  with n have up: "y \<le> of_nat b ^ d" by simp
  have "of_nat b ^ (d - 1) \<le> (of_nat n :: rat)"
    using of_nat_mono [OF ge, where 'a = rat] by simp
  with n(1) have lo: "of_nat b ^ (d - 1) < y" by linarith
  have il: "ilog b x = - int d"
    using x by (simp add: ilog_def y_def [symmetric] n_def [symmetric] d_def [symmetric])
  have bpos: "(0::rat) < of_nat b ^ k" for k
    using b by simp
  have "of_nat b powi ilog b x = 1 / (of_nat b :: rat) ^ d"
    by (simp add: il power_int_minus inverse_eq_divide)
  also have "\<dots> \<le> 1 / y"
    using up y(1) by (intro divide_left_mono mult_pos_pos bpos) simp_all
  finally show "of_nat b powi ilog b x \<le> x" by (simp add: y(2))
  have "x < 1 / (of_nat b :: rat) ^ (d - 1)"
    unfolding y(2) using lo y(1) by (intro divide_strict_left_mono mult_pos_pos bpos) simp_all
  moreover have "ilog b x + 1 = - int (d - 1)"
    using il d0 by simp
  ultimately show "x < of_nat b powi (ilog b x + 1)"
    by (simp add: power_int_minus inverse_eq_divide)
qed

lemma ilog_bounds:
  assumes "2 \<le> b" and "0 < x"
  shows "of_nat b powi ilog b x \<le> x" "x < of_nat b powi (ilog b x + 1)"
  using ilog_ge_1 [OF assms(1)] ilog_lt_1 [OF assms] by (cases "1 \<le> x"; simp)+

section \<open>Rounding to a precision\<close>

text \<open>
  \<open>fexp b p emin x\<close> is the exponent of the unit in the last place of the result, clamped below
  at \<open>emin\<close> (gradual underflow); \<open>round_sig\<close> rounds the magnitude to a multiple of it.
\<close>

definition fexp :: "nat \<Rightarrow> nat \<Rightarrow> int \<Rightarrow> rat \<Rightarrow> int" where
  "fexp b p emin x = max emin (ilog b x - int p + 1)"

definition round_pos :: "nat \<Rightarrow> nat \<Rightarrow> int \<Rightarrow> rat \<Rightarrow> rat" where
  "round_pos b p emin x =
     (let u = of_nat b powi fexp b p emin x in of_int (round_even (x / u)) * u)"

definition round_sig :: "nat \<Rightarrow> nat \<Rightarrow> int \<Rightarrow> rat \<Rightarrow> rat" where
  "round_sig b p emin x =
     (if x = 0 then 0
      else if 0 < x then round_pos b p emin x
      else - round_pos b p emin (- x))"

lemma powi_pos: "2 \<le> b \<Longrightarrow> (0::rat) < of_nat b powi k"
  by (simp add: zero_less_power_int)

lemma powi_mono: "2 \<le> b \<Longrightarrow> j \<le> k \<Longrightarrow> (of_nat b :: rat) powi j \<le> of_nat b powi k"
  by (rule power_int_increasing) auto

lemma powi_less_cancel:
  assumes "2 \<le> b" and "(of_nat b :: rat) powi j < of_nat b powi k"
  shows "j < k"
  using assms powi_mono [of b k j] by (meson leD leI)

lemma powi_nat_diff_int:
  assumes "j \<le> k" and "2 \<le> b"
  shows "(of_nat b :: rat) powi k / of_nat b powi j = of_int (int b ^ nat (k - j))"
proof -
  have "(of_nat b :: rat) powi k = of_nat b powi j * of_nat b powi (k - j)"
    using assms(2) by (simp flip: power_int_add)
  moreover have "(of_nat b :: rat) powi (k - j) = of_nat b ^ nat (k - j)"
    using assms(1) by (simp add: power_int_def)
  ultimately show ?thesis
    using powi_pos [OF assms(2), of j] assms(2) by simp
qed

lemma ilog_mono:
  assumes b: "2 \<le> b" and x: "0 < x" and le: "x \<le> y"
  shows "ilog b x \<le> ilog b y"
proof -
  have "of_nat b powi ilog b x \<le> x" using ilog_bounds(1) [OF b x] .
  also have "x \<le> y" by (rule le)
  also have "y < of_nat b powi (ilog b y + 1)"
    using ilog_bounds(2) [OF b, of y] x le by simp
  finally have "ilog b x < ilog b y + 1"
    by (rule powi_less_cancel [OF b])
  then show ?thesis by simp
qed

lemma ilog_le_iff:
  assumes b: "2 \<le> b" and x: "0 < x"
  shows "ilog b x < k \<longleftrightarrow> x < of_nat b powi k"
proof
  assume "ilog b x < k"
  then have "of_nat b powi (ilog b x + 1) \<le> (of_nat b :: rat) powi k"
    by (intro powi_mono [OF b]) simp
  with ilog_bounds(2) [OF b x] show "x < of_nat b powi k" by simp
next
  assume "x < of_nat b powi k"
  with ilog_bounds(1) [OF b x] have "(of_nat b :: rat) powi ilog b x < of_nat b powi k"
    by simp
  then show "ilog b x < k" by (rule powi_less_cancel [OF b])
qed

text \<open>A value on the grid is a fixed point.\<close>

lemma round_pos_grid:
  assumes b: "2 \<le> b" and x: "x = of_int m * of_nat b powi e" and e: "fexp b p emin x \<le> e"
  shows "round_pos b p emin x = x"
proof -
  let ?f = "fexp b p emin x"
  have "x / of_nat b powi ?f = of_int (m * int b ^ nat (e - ?f))"
    using powi_nat_diff_int [OF e b] unfolding x
    by (metis of_int_mult times_divide_eq_right)
  then have "of_int (round_even (x / of_nat b powi ?f)) = x / of_nat b powi ?f"
    by (simp only: round_even_of_int)
  then show ?thesis
    using powi_pos [OF b, of ?f] b by (simp add: round_pos_def Let_def)
qed

text \<open>Representable magnitudes: a coefficient of at most \<open>p\<close> digits.\<close>

lemma round_pos_representable:
  assumes b: "2 \<le> b" and x: "x = of_int m * of_nat b powi e"
    and m: "0 < m" "m < int b ^ p" and e: "emin \<le> e"
  shows "round_pos b p emin x = x"
proof (rule round_pos_grid [OF b x])
  have pos: "0 < x" using x m powi_pos [OF b, of e] by simp
  have "(of_int m :: rat) < of_int (int b ^ p)"
    using m(2) by (simp only: of_int_less_iff)
  then have "(of_int m :: rat) < of_nat b powi int p" by simp
  then have "x < of_nat b powi int p * of_nat b powi e"
    using x powi_pos [OF b, of e] by simp
  also have "\<dots> = of_nat b powi (e + int p)"
    using b by (simp add: power_int_add)
  finally have "ilog b x < e + int p"
    using ilog_le_iff [OF b pos] by blast
  with e show "fexp b p emin x \<le> e" by (simp add: fexp_def)
qed

lemma round_pos_nonneg:
  assumes b: "2 \<le> b" and x: "0 < x"
  shows "0 \<le> round_pos b p emin x"
proof -
  let ?u = "(of_nat b :: rat) powi fexp b p emin x"
  have "0 \<le> x / ?u" using x powi_pos [OF b, of "fexp b p emin x"] by simp
  then have "round_even 0 \<le> round_even (x / ?u)" by (rule round_even_mono)
  then have "0 \<le> round_even (x / ?u)" by (simp add: round_even_def)
  then show ?thesis
    using powi_pos [OF b, of "fexp b p emin x"] by (simp add: round_pos_def Let_def)
qed

lemma round_pos_upper:
  assumes b: "2 \<le> b" and x: "0 < x" and p: "0 < p"
  shows "round_pos b p emin x \<le> of_nat b powi (fexp b p emin x + int p)"
proof -
  let ?f = "fexp b p emin x"
  let ?u = "(of_nat b :: rat) powi ?f"
  have u: "0 < ?u" by (rule powi_pos [OF b])
  have "x < of_nat b powi (ilog b x + 1)" by (rule ilog_bounds(2) [OF b x])
  also have "\<dots> \<le> of_nat b powi (?f + int p)"
    by (rule powi_mono [OF b]) (simp add: fexp_def)
  finally have "x / ?u \<le> of_nat b powi (?f + int p) / ?u"
    using u by (simp add: divide_right_mono)
  also have "\<dots> = of_int (int b ^ p)"
    using powi_nat_diff_int [of ?f "?f + int p" b] b by simp
  finally have "round_even (x / ?u) \<le> int b ^ p"
    using round_even_mono round_even_of_int by metis
  then have "of_int (round_even (x / ?u)) * ?u \<le> of_int (int b ^ p) * ?u"
    using u by (intro mult_right_mono) (simp_all only: of_int_le_iff less_imp_le)
  also have "\<dots> = of_nat b powi (?f + int p)"
    using b by (simp add: power_int_add)
  finally show ?thesis by (simp add: round_pos_def Let_def)
qed

lemma round_pos_lower:
  assumes b: "2 \<le> b" and x: "0 < x" and p: "0 < p"
    and unclamped: "fexp b p emin x = ilog b x - int p + 1"
  shows "of_nat b powi ilog b x \<le> round_pos b p emin x"
proof -
  let ?f = "fexp b p emin x"
  let ?u = "(of_nat b :: rat) powi ?f"
  have u: "0 < ?u" by (rule powi_pos [OF b])
  have "of_int (int b ^ (p - 1)) = of_nat b powi ilog b x / ?u"
    using powi_nat_diff_int [of ?f "ilog b x" b] b p unclamped
    by (simp add: nat_diff_distrib')
  also have "\<dots> \<le> x / ?u"
    using ilog_bounds(1) [OF b x] u by (simp add: divide_right_mono)
  finally have "int b ^ (p - 1) \<le> round_even (x / ?u)"
    using round_even_mono round_even_of_int by metis
  then have "of_int (int b ^ (p - 1)) * ?u \<le> of_int (round_even (x / ?u)) * ?u"
    using u by (intro mult_right_mono) (simp_all only: of_int_le_iff less_imp_le)
  moreover have "of_int (int b ^ (p - 1)) * ?u = of_nat b powi ilog b x"
    using b p unclamped by (simp add: power_int_add [symmetric] of_nat_diff flip: power_int_of_nat)
  ultimately show ?thesis by (simp add: round_pos_def Let_def)
qed

lemma round_pos_mono:
  assumes b: "2 \<le> b" and p: "0 < p" and x: "0 < x" and le: "x \<le> y"
  shows "round_pos b p emin x \<le> round_pos b p emin y"
proof -
  let ?f = "fexp b p emin x" and ?g = "fexp b p emin y"
  have y: "0 < y" using x le by simp
  have fg: "?f \<le> ?g"
    using ilog_mono [OF b x le] by (auto simp: fexp_def)
  show ?thesis
  proof (cases "?f = ?g")
    case True
    have u: "0 < (of_nat b :: rat) powi ?g" by (rule powi_pos [OF b])
    with le have "x / of_nat b powi ?g \<le> y / of_nat b powi ?g"
      by (simp add: divide_right_mono)
    then have "round_even (x / of_nat b powi ?g) \<le> round_even (y / of_nat b powi ?g)"
      by (rule round_even_mono)
    then show ?thesis
      using u True by (simp add: round_pos_def Let_def mult_right_mono)
  next
    case False
    with fg have lt: "?f < ?g" by simp
    then have g: "?g = ilog b y - int p + 1" by (auto simp: fexp_def split: if_splits)
    have "round_pos b p emin x \<le> of_nat b powi (?f + int p)"
      by (rule round_pos_upper [OF b x p])
    also have "\<dots> \<le> of_nat b powi ilog b y"
      using lt g by (intro powi_mono [OF b]) simp
    also have "\<dots> \<le> round_pos b p emin y"
      by (rule round_pos_lower [OF b y p g])
    finally show ?thesis .
  qed
qed

text \<open>The rounding error is at most half a unit in the last place.\<close>

lemma round_pos_error:
  assumes b: "2 \<le> b"
  shows "\<bar>round_pos b p emin x - x\<bar> \<le> of_nat b powi fexp b p emin x / 2"
proof -
  let ?u = "(of_nat b :: rat) powi fexp b p emin x"
  have u: "0 < ?u" by (rule powi_pos [OF b])
  have "round_pos b p emin x - x = (of_int (round_even (x / ?u)) - x / ?u) * ?u"
    using u b by (simp add: round_pos_def Let_def left_diff_distrib)
  then have "\<bar>round_pos b p emin x - x\<bar> = \<bar>of_int (round_even (x / ?u)) - x / ?u\<bar> * ?u"
    using u by (simp add: abs_mult)
  also have "\<dots> \<le> 1 / 2 * ?u"
    using round_even_error u by (intro mult_right_mono) auto
  finally show ?thesis by simp
qed

text \<open>
  A rounded magnitude is a coefficient of at most \<open>p\<close> digits times a unit not below the
  smallest one; hence rounding is idempotent and every result is a multiple of that unit.
\<close>

lemma round_pos_coeff:
  assumes b: "2 \<le> b" and x: "0 < x" and p: "0 < p"
  shows "\<exists>m e. round_pos b p emin x = of_int m * of_nat b powi e
              \<and> 0 \<le> m \<and> m < int b ^ p \<and> emin \<le> e"
proof -
  let ?f = "fexp b p emin x"
  let ?u = "(of_nat b :: rat) powi ?f"
  let ?k = "round_even (x / ?u)"
  have u: "0 < ?u" by (rule powi_pos [OF b])
  have eq: "round_pos b p emin x = of_int ?k * ?u" by (simp add: round_pos_def Let_def)
  have k0: "0 \<le> ?k"
    using round_pos_nonneg [OF b x, of p emin] u by (simp add: eq zero_le_mult_iff)
  have f: "emin \<le> ?f" by (simp add: fexp_def)
  have "of_int ?k * ?u \<le> of_int (int b ^ p) * ?u"
    using round_pos_upper [OF b x p, of emin] b by (simp add: eq power_int_add mult.commute)
  then have "(of_int ?k :: rat) \<le> of_int (int b ^ p)"
    using u by (simp only: mult_le_cancel_right_pos)
  then have kp: "?k \<le> int b ^ p" by (simp only: of_int_le_iff)
  show ?thesis
  proof (cases "?k = int b ^ p")
    case True
    have "of_int ?k * ?u = of_int (int b ^ (p - 1)) * of_nat b powi (?f + 1)"
      using True b p by (cases p) (simp_all add: power_int_add)
    moreover have "int b ^ (p - 1) < int b ^ p"
      using b p by (intro power_strict_increasing) simp_all
    ultimately show ?thesis
      using f unfolding eq by (metis add_increasing2 of_nat_0_le_iff of_nat_power zero_le_one)
  next
    case False
    with eq k0 kp f show ?thesis by (metis order_le_imp_less_or_eq)
  qed
qed

lemma round_sig_coeff:
  assumes b: "2 \<le> b" and p: "0 < p"
  shows "\<exists>m e. round_sig b p emin x = of_int m * of_nat b powi e
              \<and> \<bar>m\<bar> < int b ^ p \<and> emin \<le> e"
proof -
  consider "x = 0" | "0 < x" | "x < 0" by linarith
  then show ?thesis
  proof cases
    case 1
    then show ?thesis
      using b by (intro exI [of _ 0] exI [of _ emin]) (simp add: round_sig_def)
  next
    case 2
    then show ?thesis
      using round_pos_coeff [OF b 2 p, of emin] by (fastforce simp: round_sig_def)
  next
    case 3
    then obtain m e where me: "round_pos b p emin (- x) = of_int m * of_nat b powi e"
      "0 \<le> m" "m < int b ^ p" "emin \<le> e"
      using round_pos_coeff [OF b, of "- x" p emin] p by auto
    with 3 show ?thesis
      by (intro exI [of _ "- m"] exI [of _ e]) (simp add: round_sig_def)
  qed
qed

lemma round_sig_representable:
  assumes b: "2 \<le> b" and m: "\<bar>m\<bar> < int b ^ p" and e: "emin \<le> e"
  shows "round_sig b p emin (of_int m * of_nat b powi e) = of_int m * of_nat b powi e"
proof -
  let ?x = "(of_int m :: rat) * of_nat b powi e"
  have u: "0 < (of_nat b :: rat) powi e" by (rule powi_pos [OF b])
  consider "m = 0" | "0 < m" | "m < 0" by linarith
  then show ?thesis
  proof cases
    case 2
    then have "0 < ?x" using u by simp
    with 2 show ?thesis
      using round_pos_representable [OF b refl, of m p emin e] m e by (simp add: round_sig_def)
  next
    case 3
    then have "?x < 0" using u by (simp add: mult_neg_pos)
    with 3 show ?thesis
      using round_pos_representable [OF b refl, of "- m" p emin e] m e
      by (simp add: round_sig_def)
  qed (simp add: round_sig_def)
qed

lemma round_sig_idem:
  assumes b: "2 \<le> b" and p: "0 < p"
  shows "round_sig b p emin (round_sig b p emin x) = round_sig b p emin x"
  using round_sig_coeff [OF assms, of emin x] round_sig_representable [OF b] by metis

lemma round_sig_grid:
  assumes b: "2 \<le> b" and p: "0 < p"
  shows "\<exists>n. round_sig b p emin x = of_int n * of_nat b powi emin"
proof -
  obtain m e where me: "round_sig b p emin x = of_int m * of_nat b powi e" "emin \<le> e"
    using round_sig_coeff [OF assms, of emin x] by blast
  have "(of_nat b :: rat) powi e = of_int (int b ^ nat (e - emin)) * of_nat b powi emin"
    using powi_nat_diff_int [OF me(2) b] powi_pos [OF b, of emin]
    by (metis less_irrefl nonzero_divide_eq_eq)
  then have "round_sig b p emin x = of_int (m * int b ^ nat (e - emin)) * of_nat b powi emin"
    using me(1) by simp
  then show ?thesis by blast
qed

lemma round_sig_diff_pos:
  assumes b: "2 \<le> b" and p: "0 < p"
    and x: "round_sig b p emin x = x" and y: "round_sig b p emin y = y" and lt: "x < y"
  shows "0 < round_sig b p emin (y - x)"
proof -
  let ?u = "(of_nat b :: rat) powi emin"
  have u: "0 < ?u" by (rule powi_pos [OF b])
  obtain i j where ij: "x = of_int i * ?u" "y = of_int j * ?u"
    using round_sig_grid [OF b p, of emin x] round_sig_grid [OF b p, of emin y] x y by metis
  with lt u have "i + 1 \<le> j" by simp
  then have "(of_int 1 :: rat) \<le> of_int (j - i)" by (simp only: of_int_le_iff)
  then have "1 * ?u \<le> of_int (j - i) * ?u"
    using u by (intro mult_right_mono) simp_all
  then have le: "?u \<le> y - x" by (simp add: ij left_diff_distrib)
  have one: "1 < int b ^ p" using b p by simp
  then have "round_pos b p emin ?u = ?u"
    using round_pos_representable [OF b, of ?u 1 emin p emin] by simp
  then have "?u \<le> round_pos b p emin (y - x)"
    using round_pos_mono [OF b p u le, of emin] by simp
  with u lt show ?thesis by (simp add: round_sig_def)
qed

section \<open>The interface of a rounded arithmetic\<close>

text \<open>
  What the component proofs use of \<^verbatim>\<open>Decimal\<close> and of floats: rounding is monotone, odd and
  idempotent, and the difference of two distinct representable values never rounds to zero
  (gradual underflow).  A value is \<^emph>\<open>representable\<close> when it is its own rounding.
\<close>

locale rounded_arith =
  fixes rnd :: "rat \<Rightarrow> rat"
  assumes rnd_mono: "x \<le> y \<Longrightarrow> rnd x \<le> rnd y"
    and rnd_minus: "rnd (- x) = - rnd x"
    and rnd_one: "rnd 1 = 1"
    and rnd_idem: "rnd (rnd x) = rnd x"
    and rnd_diff_pos: "rnd x = x \<Longrightarrow> rnd y = y \<Longrightarrow> x < y \<Longrightarrow> 0 < rnd (y - x)"
begin

definition repr :: "rat \<Rightarrow> bool" where
  "repr x \<longleftrightarrow> rnd x = x"

lemma rnd_zero [simp]: "rnd 0 = 0"
  using rnd_minus [of 0] by simp

lemma repr_zero [simp]: "repr 0"
  by (simp add: repr_def)

lemma repr_one [simp]: "repr 1"
  by (simp add: repr_def rnd_one)

lemma repr_rnd [simp, intro]: "repr (rnd x)"
  by (simp add: repr_def rnd_idem)

lemma rnd_diff_eq_0_iff: "repr x \<Longrightarrow> repr y \<Longrightarrow> rnd (y - x) = 0 \<longleftrightarrow> x = y"
proof
  assume xy: "repr x" "repr y" and z: "rnd (y - x) = 0"
  have "rnd (x - y) = 0"
    using z rnd_minus [of "y - x"] by simp
  then show "x = y"
    using z rnd_diff_pos [of x y] rnd_diff_pos [of y x] xy
    by (cases x y rule: linorder_cases) (auto simp: repr_def)
qed simp

lemma rnd_nonneg: "0 \<le> x \<Longrightarrow> 0 \<le> rnd x"
  using rnd_mono [of 0 x] by simp

lemma rnd_nonpos: "x \<le> 0 \<Longrightarrow> rnd x \<le> 0"
  using rnd_mono [of x 0] by simp

lemma rnd_le_repr: "x \<le> y \<Longrightarrow> repr y \<Longrightarrow> rnd x \<le> y"
  using rnd_mono [of x y] by (simp add: repr_def)

lemma rnd_ge_repr: "x \<le> y \<Longrightarrow> repr x \<Longrightarrow> x \<le> rnd y"
  using rnd_mono [of x y] by (simp add: repr_def)

text \<open>A share of a representable nonnegative pool never exceeds the pool.\<close>

lemma share_bounds:
  assumes "0 \<le> a" "a \<le> b" "0 < b" "0 \<le> pool" "repr pool"
  shows "0 \<le> rnd (pool * rnd (a / b))" "rnd (pool * rnd (a / b)) \<le> pool"
proof -
  have q: "0 \<le> rnd (a / b)" "rnd (a / b) \<le> 1"
    using assms by (auto intro!: rnd_nonneg rnd_le_repr)
  with assms show "0 \<le> rnd (pool * rnd (a / b))"
    by (intro rnd_nonneg) simp
  have "pool * rnd (a / b) \<le> pool * 1"
    using q assms by (intro mult_left_mono) auto
  then show "rnd (pool * rnd (a / b)) \<le> pool"
    using assms by (intro rnd_le_repr) simp_all
qed

end

lemma rounded_arith_round_sig:
  assumes b: "2 \<le> b" and p: "0 < p" and emin: "emin \<le> 0"
  shows "rounded_arith (round_sig b p emin)"
proof
  fix x y :: rat
  assume le: "x \<le> y"
  have nn: "0 \<le> z \<Longrightarrow> 0 \<le> round_sig b p emin z" for z
    using round_pos_nonneg [OF b, of z] by (simp add: round_sig_def)
  have np: "z \<le> 0 \<Longrightarrow> round_sig b p emin z \<le> 0" for z
    using round_pos_nonneg [OF b, of "- z"] by (simp add: round_sig_def)
  consider "0 < x" | "y < 0" | "x \<le> 0" "0 \<le> y"
    by linarith
  then show "round_sig b p emin x \<le> round_sig b p emin y"
  proof cases
    case 1
    with le show ?thesis
      using round_pos_mono [OF b p, of x y] by (simp add: round_sig_def)
  next
    case 2
    with le show ?thesis
      using round_pos_mono [OF b p, of "- y" "- x"] by (simp add: round_sig_def)
  next
    case 3
    then show ?thesis using nn np by (meson order_trans)
  qed
next
  fix x :: rat
  show "round_sig b p emin (- x) = - round_sig b p emin x"
    by (simp add: round_sig_def)
next
  have "1 < int b ^ p" using b p by simp
  then have "round_pos b p emin 1 = 1"
    using round_pos_representable [OF b, of 1 1 0 p emin] emin by simp
  then show "round_sig b p emin 1 = 1" by (simp add: round_sig_def)
next
  fix x :: rat
  show "round_sig b p emin (round_sig b p emin x) = round_sig b p emin x"
    by (rule round_sig_idem [OF b p])
next
  fix x y :: rat
  assume "round_sig b p emin x = x" "round_sig b p emin y = y" "x < y"
  then show "0 < round_sig b p emin (y - x)"
    by (rule round_sig_diff_pos [OF b p])
qed

section \<open>Decimal arithmetic\<close>

text \<open>
  The default \<^verbatim>\<open>decimal\<close> context: precision 28, \<open>ROUND_HALF_EVEN\<close>, \<open>Etiny = -1000026\<close>.
  Comparison, \<open>min\<close>, \<open>max\<close> and \<open>to_integral_value\<close> are exact in Python and use the operations
  of \<^typ>\<open>rat\<close> directly.
\<close>

definition dround :: "rat \<Rightarrow> rat" where
  "dround = round_sig 10 28 (- 1000026)"

definition dadd :: "rat \<Rightarrow> rat \<Rightarrow> rat" where "dadd x y = dround (x + y)"
definition dsub :: "rat \<Rightarrow> rat \<Rightarrow> rat" where "dsub x y = dround (x - y)"
definition dmul :: "rat \<Rightarrow> rat \<Rightarrow> rat" where "dmul x y = dround (x * y)"
definition ddiv :: "rat \<Rightarrow> rat \<Rightarrow> rat" where "ddiv x y = dround (x / y)"

text \<open>\<open>to_integral_value(rounding=ROUND_DOWN)\<close> and \<open>int(...)\<close>: truncation toward zero.\<close>

definition trunc :: "rat \<Rightarrow> int" where
  "trunc x = (if 0 \<le> x then \<lfloor>x\<rfloor> else \<lceil>x\<rceil>)"

text \<open>The values a \<open>Decimal\<close> result can take.\<close>

definition is_dec :: "rat \<Rightarrow> bool" where
  "is_dec x \<longleftrightarrow> dround x = x"

interpretation dec: rounded_arith dround
  rewrites "rounded_arith.repr dround = is_dec"
proof -
  show arith: "rounded_arith dround"
    unfolding dround_def by (rule rounded_arith_round_sig) simp_all
  show "rounded_arith.repr dround = is_dec"
    by (intro ext) (simp add: rounded_arith.repr_def [OF arith] is_dec_def)
qed

lemma is_dec_ops [simp, intro]:
  "is_dec (dadd x y)" "is_dec (dsub x y)" "is_dec (dmul x y)" "is_dec (ddiv x y)"
  by (simp_all add: dadd_def dsub_def dmul_def ddiv_def)

lemma dadd_nonneg: "0 \<le> x \<Longrightarrow> 0 \<le> y \<Longrightarrow> 0 \<le> dadd x y"
  by (simp add: dadd_def dec.rnd_nonneg)

lemma dmul_nonneg: "0 \<le> x \<Longrightarrow> 0 \<le> y \<Longrightarrow> 0 \<le> dmul x y"
  by (simp add: dmul_def dec.rnd_nonneg)

lemma ddiv_nonneg: "0 \<le> x \<Longrightarrow> 0 \<le> y \<Longrightarrow> 0 \<le> ddiv x y"
  by (simp add: ddiv_def dec.rnd_nonneg)

lemma dsub_nonneg: "y \<le> x \<Longrightarrow> 0 \<le> dsub x y"
  by (simp add: dsub_def dec.rnd_nonneg)

lemma dsub_le: "is_dec x \<Longrightarrow> 0 \<le> y \<Longrightarrow> dsub x y \<le> x"
  by (simp add: dsub_def dec.rnd_le_repr)

lemma dadd_ge: "is_dec x \<Longrightarrow> 0 \<le> y \<Longrightarrow> x \<le> dadd x y"
  by (simp add: dadd_def dec.rnd_ge_repr)

lemma dsub_eq_0_iff: "is_dec x \<Longrightarrow> is_dec y \<Longrightarrow> dsub x y = 0 \<longleftrightarrow> x = y"
  using dec.rnd_diff_eq_0_iff [of y x] by (auto simp: dsub_def)

lemmas dec_nonneg = dadd_nonneg dmul_nonneg ddiv_nonneg dsub_nonneg

text \<open>Numbers with at most 28 significant digits and at most a million decimals are exact.\<close>

lemma dround_exact:
  assumes "\<bar>m\<bar> < 10 ^ 28" and "k \<le> 1000026"
  shows "dround (of_int m / 10 ^ k) = of_int m / 10 ^ k"
proof -
  have pos: "round_pos 10 28 (- 1000026) (of_int n / 10 ^ k) = of_int n / 10 ^ k"
    if "0 < n" "n < 10 ^ 28" for n
  proof (rule round_pos_representable)
    show "(of_int n :: rat) / 10 ^ k = of_int n * of_nat 10 powi (- int k)"
      by (simp add: power_int_minus divide_inverse)
  qed (use that assms(2) in simp_all)
  consider "m = 0" | "0 < m" | "m < 0" by linarith
  then show ?thesis
  proof cases
    case 2
    then have "0 < (of_int m / 10 ^ k :: rat)" by simp
    with 2 pos [of m] assms(1) show ?thesis by (simp add: dround_def round_sig_def)
  next
    case 3
    then have "(of_int m / 10 ^ k :: rat) < 0" by (simp add: divide_neg_pos)
    with 3 pos [of "- m"] assms(1) show ?thesis by (simp add: dround_def round_sig_def)
  qed simp
qed

lemma dround_int: "\<bar>m\<bar> < 10 ^ 28 \<Longrightarrow> dround (of_int m) = of_int m"
  using dround_exact [of m 0] by simp

lemma dround_numeral [simp]:
  "(numeral k :: int) < 10 ^ 28 \<Longrightarrow> dround (numeral k) = numeral k"
  "(numeral k :: int) < 10 ^ 28 \<Longrightarrow> dround (- numeral k) = - numeral k"
  using dround_int [of "numeral k"] dround_int [of "- numeral k"] by simp_all

lemma is_dec_simps [simp]:
  "is_dec 0" "is_dec 1"
  "(numeral k :: int) < 10 ^ 28 \<Longrightarrow> is_dec (numeral k)"
  by (simp_all add: is_dec_def dec.rnd_one)

lemmas dec_eval = dadd_def dsub_def dmul_def ddiv_def

text \<open>Share counts: whole numbers below \<open>10 ^ 28\<close> are exact, and so are their sums.\<close>

definition whole :: "rat \<Rightarrow> bool" where
  "whole x \<longleftrightarrow> of_int \<lfloor>x\<rfloor> = x"

lemma whole_iff: "whole x \<longleftrightarrow> (\<exists>n. x = of_int n)"
  by (auto simp: whole_def)

lemma whole_numeral [simp]: "whole 0" "whole 1" "whole (numeral k)"
  by (simp_all add: whole_def)

lemma whole_add [simp, intro]: "whole x \<Longrightarrow> whole y \<Longrightarrow> whole (x + y)"
  unfolding whole_iff by (metis of_int_add)

lemma whole_diff [simp, intro]: "whole x \<Longrightarrow> whole y \<Longrightarrow> whole (x - y)"
  unfolding whole_iff by (metis of_int_diff)

lemma whole_sum_list: "\<forall>x \<in> set xs. whole x \<Longrightarrow> whole (sum_list xs)"
  by (induction xs) auto

lemma dround_whole:
  assumes "whole q" "\<bar>q\<bar> < 10 ^ 28"
  shows "dround q = q"
proof -
  obtain n where n: "q = of_int n" using assms(1) by (auto simp: whole_iff)
  with assms(2) have "(of_int \<bar>n\<bar> :: rat) < of_int (10 ^ 28)" by simp
  then have "\<bar>n\<bar> < 10 ^ 28" by (simp only: of_int_less_iff)
  with n show ?thesis by (simp add: dround_int)
qed

lemma whole_is_dec: "whole q \<Longrightarrow> 0 \<le> q \<Longrightarrow> q < 10 ^ 28 \<Longrightarrow> is_dec q"
  by (simp add: is_dec_def dround_whole)

lemma foldl_dadd_whole:
  assumes "\<forall>x \<in> set xs. whole x \<and> 0 \<le> x" "whole a" "0 \<le> a" "a + sum_list xs < 10 ^ 28"
  shows "foldl dadd a xs = a + sum_list xs"
  using assms
proof (induction xs arbitrary: a)
  case (Cons x xs)
  have "0 \<le> sum_list xs" using Cons.prems(1) by (intro sum_list_nonneg) simp
  then have "dadd a x = a + x" using Cons.prems by (simp add: dadd_def dround_whole)
  with Cons.IH [of "a + x"] Cons.prems show ?case by (simp add: add.assoc)
qed simp

lemma trunc_nonneg: "0 \<le> x \<Longrightarrow> 0 \<le> trunc x"
  by (simp add: trunc_def)

lemma trunc_le: "0 \<le> x \<Longrightarrow> of_int (trunc x) \<le> x"
  by (simp add: trunc_def)

lemma trunc_mono: "x \<le> y \<Longrightarrow> trunc x \<le> trunc y"
proof -
  assume le: "x \<le> y"
  have "\<lceil>x\<rceil> \<le> 0" "0 \<le> \<lfloor>y\<rfloor>" if "x < 0" "0 \<le> y"
    using that by (auto simp: ceiling_le_iff)
  then have "\<lceil>x\<rceil> \<le> \<lfloor>y\<rfloor>" if "x < 0" "0 \<le> y"
    using that by (meson order_trans)
  then show ?thesis
    using le by (auto simp: trunc_def floor_mono ceiling_mono not_le)
qed

lemma trunc_of_int [simp]: "trunc (of_int n) = n"
  by (simp add: trunc_def)

text \<open>
  Truncating a rounded quotient is the exact integer quotient as long as the operands fit the
  precision: rounding never lifts a quotient to the next integer.
\<close>

lemma dround_quot_less:
  assumes c: "0 \<le> c" "c < 10 ^ 27" and p: "0 < p" "p < 10 ^ 28" and lt: "c < n * p"
  shows "dround (of_int c / of_int p) < of_int n"
proof (cases "c = 0")
  case True
  then show ?thesis using lt p by (simp add: zero_less_mult_iff)
next
  case False
  let ?x = "(of_int c :: rat) / of_int p"
  let ?u = "(of_nat 10 :: rat) powi fexp 10 28 (- 1000026) ?x"
  have x: "0 < ?x" using False c p by simp
  have c': "(of_int c :: rat) < 10 ^ 27" and p': "(of_int p :: rat) < 10 ^ 28"
    using c(2) p(2)
    by (metis of_int_less_iff of_int_numeral of_int_power)+
  have gap: "?x \<le> of_int n - 1 / of_int p"
  proof -
    have "c + 1 \<le> n * p" using lt by simp
    then have "(of_int c + 1 :: rat) \<le> of_int n * of_int p"
      by (metis of_int_1 of_int_add of_int_le_iff of_int_mult)
    then show ?thesis using p by (simp add: field_simps)
  qed
  have "?u / 2 < 1 / of_int p"
  proof (cases "1 \<le> ?x")
    case True
    then have il: "0 \<le> ilog 10 ?x"
      using ilog_le_iff [of 10 ?x 0] x by auto
    then have "?u = of_nat 10 powi (ilog 10 ?x - 27)"
      by (simp add: fexp_def max_def)
    also have "\<dots> = of_nat 10 powi ilog 10 ?x / 10 ^ 27"
      by (simp add: power_int_diff)
    also have "\<dots> \<le> ?x / 10 ^ 27"
      using ilog_bounds(1) [of 10 ?x] x by (intro divide_right_mono) simp_all
    finally have "?u \<le> (of_int c / 10 ^ 27) / of_int p" by simp
    also have "\<dots> < 2 / of_int p"
      using c' p by (intro divide_strict_right_mono) (simp_all add: pos_divide_less_eq)
    finally show ?thesis by simp
  next
    case False
    then have "ilog 10 ?x < 0" using ilog_le_iff [of 10 ?x 0] x by auto
    then have "fexp 10 28 (- 1000026) ?x \<le> - 28" by (simp add: fexp_def)
    then have "?u \<le> of_nat 10 powi (- 28)" by (rule powi_mono [rotated]) simp
    also have "\<dots> = 1 / 10 ^ 28" by (simp add: power_int_minus inverse_eq_divide)
    also have "\<dots> < 1 / of_int p"
      using p p' by (intro divide_strict_left_mono) simp_all
    also have "\<dots> < 2 / of_int p"
      using p by (intro divide_strict_right_mono) simp_all
    finally show ?thesis by simp
  qed
  then have "\<bar>dround ?x - ?x\<bar> < 1 / of_int p"
    using round_pos_error [of 10 28 "- 1000026" ?x] x p False
    by (simp add: dround_def round_sig_def)
  with gap show ?thesis by linarith
qed

lemma trunc_ddiv:
  assumes c: "0 \<le> c" "c < 10 ^ 27" and p: "0 < p" "p < 10 ^ 28"
    and x: "x = of_int c / s" and y: "y = of_int p / s" and s: "s \<noteq> 0"
  shows "trunc (ddiv x y) = c div p"
proof -
  have q: "x / y = of_int c / of_int p" using x y s by simp
  have nn: "0 \<le> ddiv x y"
    unfolding ddiv_def q using c p by (intro dec.rnd_nonneg) simp
  have "ddiv x y < of_int (c div p + 1)"
    unfolding ddiv_def q
  proof (rule dround_quot_less [OF c p])
    show "c < (c div p + 1) * p"
      using p pos_mod_bound [of p c] div_mult_mod_eq [of c p]
      unfolding distrib_right mult_1_left by linarith
  qed
  moreover have "of_int (c div p) \<le> ddiv x y"
  proof -
    have "c div p \<le> c div 1" using c p by (intro zdiv_mono2) simp_all
    then have "\<bar>c div p\<bar> < 10 ^ 28" using c p by (simp add: pos_imp_zdiv_nonneg_iff)
    then have "is_dec (of_int (c div p))" by (simp add: is_dec_def dround_int)
    moreover have "of_int (c div p) \<le> (of_int c / of_int p :: rat)"
      using p floor_divide_of_int_eq [of c p, where 'a = rat] of_int_floor_le by metis
    ultimately show ?thesis unfolding ddiv_def q by (rule dec.rnd_ge_repr [rotated])
  qed
  ultimately show ?thesis
    using nn by (simp add: trunc_def floor_eq_iff)
qed

section \<open>Binary floating point\<close>

text \<open>IEEE binary64: 53 significant bits, ties to even, gradual underflow at \<open>2 powi (-1074)\<close>.\<close>

definition fround :: "rat \<Rightarrow> rat" where
  "fround = round_sig 2 53 (- 1074)"

definition fadd :: "rat \<Rightarrow> rat \<Rightarrow> rat" where "fadd x y = fround (x + y)"
definition fsub :: "rat \<Rightarrow> rat \<Rightarrow> rat" where "fsub x y = fround (x - y)"
definition fmul :: "rat \<Rightarrow> rat \<Rightarrow> rat" where "fmul x y = fround (x * y)"
definition fdiv :: "rat \<Rightarrow> rat \<Rightarrow> rat" where "fdiv x y = fround (x / y)"

interpretation flt: rounded_arith fround
  unfolding fround_def by (rule rounded_arith_round_sig) simp_all

section \<open>Evaluation\<close>

text \<open>Integer forms of the definitions above, used when a closed instance is evaluated.\<close>

function ndigits_int :: "int \<Rightarrow> int \<Rightarrow> int" where
  "ndigits_int b n = (if n \<le> 0 \<or> b < 2 then 0 else 1 + ndigits_int b (n div b))"
  by pat_completeness auto
termination
  by (relation "measure (\<lambda>(b, n). nat n)") (auto simp: int_div_less_self)

declare ndigits_int.simps [simp del]

lemma ndigits_int_eq: "int (ndigits b (nat n)) = ndigits_int (int b) n"
proof (induction "int b" n rule: ndigits_int.induct)
  case (1 n)
  show ?case
  proof (cases "n \<le> 0 \<or> b < 2")
    case True
    then show ?thesis
      by (auto simp: ndigits.simps [of b "nat n"] ndigits_int.simps [of "int b" n])
  next
    case False
    then have "nat n div b = nat (n div int b)" by (simp add: nat_div_distrib)
    with False 1 show ?thesis
      by (simp add: ndigits.simps [of b "nat n"] ndigits_int.simps [of "int b" n])
  qed
qed

lemma ilog_code [code]:
  "ilog b x =
     (if 1 \<le> x then ndigits_int (int b) \<lfloor>x\<rfloor> - 1
      else - ndigits_int (int b) (\<lceil>1 / x\<rceil> - 1))"
  by (simp add: ilog_def ndigits_int_eq)

definition round_quot :: "int \<Rightarrow> int \<Rightarrow> int" where
  "round_quot n d =
     (let q = n div d; r = 2 * (n mod d)
      in if r < d then q else if d < r then q + 1 else if even q then q else q + 1)"

lemma round_even_quot:
  assumes "0 < d"
  shows "round_even (of_int n / of_int d) = round_quot n d"
proof -
  have f: "\<lfloor>of_int n / of_int d :: rat\<rfloor> = n div d" by (rule floor_divide_of_int_eq)
  have n: "(of_int n :: rat) = of_int (n div d) * of_int d + of_int (n mod d)"
    using div_mult_mod_eq [of n d] by (metis of_int_add of_int_mult)
  have r: "(of_int n :: rat) / of_int d - of_int (n div d) = of_int (n mod d) / of_int d"
    using assms by (subst n) (simp add: field_simps)
  have lt: "(of_int (n mod d) / of_int d :: rat) < 1 / 2 \<longleftrightarrow> 2 * (n mod d) < d"
    using assms by (simp add: pos_divide_less_eq) linarith
  have gt: "1 / 2 < (of_int (n mod d) / of_int d :: rat) \<longleftrightarrow> d < 2 * (n mod d)"
    using assms by (simp add: pos_less_divide_eq) linarith
  show ?thesis
    by (simp only: round_even_def round_quot_def Let_def f r lt gt)
qed

lemma round_pos_code [code]:
  "round_pos b p emin x =
     (let (n, d) = quotient_of x; e = fexp b p emin x
      in if b = 0 then (let u = of_nat b powi e in of_int (round_even (x / u)) * u)
         else if 0 \<le> e
         then of_int (round_quot n (d * int b ^ nat e) * int b ^ nat e)
         else of_int (round_quot (n * int b ^ nat (- e)) d) / of_int (int b ^ nat (- e)))"
proof -
  obtain n d where q: "quotient_of x = (n, d)" by (cases "quotient_of x")
  then have d: "0 < d" and x: "x = of_int n / of_int d"
    by (auto intro: quotient_of_denom_pos quotient_of_div)
  let ?e = "fexp b p emin x"
  show ?thesis
  proof (cases "b = 0")
    case True
    then show ?thesis by (simp add: q round_pos_def)
  next
    case b: False
    show ?thesis
    proof (cases "0 \<le> ?e")
      case True
      have u: "(of_nat b :: rat) powi ?e = of_int (int b ^ nat ?e)"
        using True by (simp add: power_int_def)
      have "x / of_int (int b ^ nat ?e) = of_int n / of_int (d * int b ^ nat ?e)"
        by (simp add: x)
      moreover have "0 < d * int b ^ nat ?e" using b d by simp
      ultimately show ?thesis
        using True b round_even_quot [of "d * int b ^ nat ?e" n]
        by (simp add: q round_pos_def Let_def u del: of_int_power)
    next
      case False
      have u: "(of_nat b :: rat) powi ?e = 1 / of_int (int b ^ nat (- ?e))"
        using False by (simp add: power_int_def inverse_eq_divide power_one_over)
      have "x / (1 / of_int (int b ^ nat (- ?e))) = of_int (n * int b ^ nat (- ?e)) / of_int d"
        by (simp add: x)
      then show ?thesis
        using False b d by (simp add: q round_pos_def Let_def u round_even_quot del: of_int_power of_int_mult)
    qed
  qed
qed

end
