(* ===== verification/Domain.thy ===== *)
theory Domain
  imports Rounding
begin

text \<open>
  The data model: the enumerations of \<^verbatim>\<open>domain/enums.py\<close>, the entities of
  \<^verbatim>\<open>domain/entities.py\<close> and the broker-facing values of \<^verbatim>\<open>domain/models.py\<close> that the modelled
  services read and write.  Every record field carries a prefix for its record, since HOL
  record fields share one name space; \<open>Decimal\<close> values are rationals (theory \<open>Rounding\<close>).
\<close>

section \<open>Enumerations\<close>

datatype order_side = BUY | SELL

datatype order_type = MARKET | LIMIT | STOP | STOP_LIMIT

datatype time_in_force = DAY | IOC | FOK

datatype order_status =
    DRAFT | VALIDATED | PENDING_SUBMIT | SUBMITTED | ACKNOWLEDGED | PARTIALLY_FILLED
  | FILLED | CANCEL_PENDING | CANCELLED | REJECTED | EXPIRED | RECONCILE_REQUIRED

datatype broker_error_type =
    AUTHENTICATION | AUTHORIZATION | RATE_LIMIT | NETWORK | NETWORK_ERROR | INVALID_REQUEST
  | UNSUPPORTED_CAPABILITY | ORDER_REJECTED | TEMPORARY_BROKER | DATA_UNAVAILABLE
  | API_ERROR | TIMEOUT

datatype event_source = INTERNAL | BROKER_REST | BROKER_WS | RECONCILIATION | OPERATOR

datatype fee_tax_source =
    REPORTED | ASSUMED_ZERO | CALCULATED_FROM_POLICY | POLICY_NOT_APPLICABLE
  | HISTORICAL_POLICY_ESTIMATE

datatype buy_fee_allocation_source =
    FULLY_CALCULATED | FULLY_ASSUMED_ZERO | PARTIALLY_ASSUMED_ZERO | HISTORICALLY_ESTIMATED

datatype environment = PAPER | LIVE | REAL

text \<open>The wire values of the string enums that the services compare or store as text.\<close>

fun side_value :: "order_side \<Rightarrow> string" where
  "side_value BUY = ''buy''"
| "side_value SELL = ''sell''"

fun status_value :: "order_status \<Rightarrow> string" where
  "status_value DRAFT = ''draft''"
| "status_value VALIDATED = ''validated''"
| "status_value PENDING_SUBMIT = ''pending_submit''"
| "status_value SUBMITTED = ''submitted''"
| "status_value ACKNOWLEDGED = ''acknowledged''"
| "status_value PARTIALLY_FILLED = ''partially_filled''"
| "status_value FILLED = ''filled''"
| "status_value CANCEL_PENDING = ''cancel_pending''"
| "status_value CANCELLED = ''cancelled''"
| "status_value REJECTED = ''rejected''"
| "status_value EXPIRED = ''expired''"
| "status_value RECONCILE_REQUIRED = ''reconcile_required''"

fun environment_value :: "environment \<Rightarrow> string" where
  "environment_value PAPER = ''paper''"
| "environment_value LIVE = ''live''"
| "environment_value REAL = ''real''"

section \<open>Cost basis and realized profit and loss\<close>

record cost_basis_state =
  cb_account_id :: uuid
  cb_instrument_id :: uuid
  cb_quantity :: rat
  cb_average_cost :: rat
  cb_last_applied_fill_event_id :: "uuid option"
  cb_last_applied_fill_timestamp :: "timestamp option"
  cb_recompute_required :: bool
  cb_recompute_reason :: "string option"
  cb_updated_at :: "timestamp option"
  cb_remaining_buy_fee_pool :: rat
  cb_buy_fee_pool_provenance :: buy_fee_allocation_source

record realized_pnl_event =
  pe_realized_pnl_event_id :: uuid
  pe_account_id :: uuid
  pe_instrument_id :: uuid
  pe_fill_event_id :: uuid
  pe_broker_order_id :: uuid
  pe_order_request_id :: uuid
  pe_sell_quantity :: rat
  pe_sell_price :: rat
  pe_avg_cost_basis_before :: rat
  pe_fee :: rat
  pe_tax :: rat
  pe_fee_tax_source :: fee_tax_source
  pe_realized_pnl_gross :: rat
  pe_realized_pnl_net :: rat
  pe_position_quantity_after :: rat
  pe_computation_run_id :: uuid
  pe_fill_timestamp :: timestamp
  pe_superseded_by_event_id :: "uuid option"
  pe_created_at :: "timestamp option"
  pe_allocated_buy_fee :: rat
  pe_buy_fee_allocation_source :: buy_fee_allocation_source

section \<open>Cumulative fill observations\<close>

record kis_fill_cumulative_state =
  ks_state_id :: uuid
  ks_account_id :: uuid
  ks_broker_name :: string
  ks_broker_native_order_id :: string
  ks_last_cumulative_filled_quantity :: rat
  ks_last_average_fill_price :: "rat option"
  ks_last_observed_at :: "timestamp option"
  ks_last_raw_field_fingerprint :: "string option"
  ks_created_at :: "timestamp option"
  ks_updated_at :: "timestamp option"

end
