(* ===== verification/Sizing.thy ===== *)
theory Sizing
  imports Domain
begin

text \<open>
  The deterministic sizing engine (\<^verbatim>\<open>services/sizing_engine.py\<close>): a base quantity from the
  decision and the position, then a pipeline of constraints, each of which may shrink the
  quantity and records a label.  The list of labels that the Python functions mutate is
  returned beside the quantity.
\<close>

section \<open>Inputs and result\<close>

text \<open>
  \<open>size_adjustment_factor\<close> is a float in the source and only its sign and the decimal value of
  its shortest representation (\<open>Decimal(str(f))\<close>) are used; the record holds that value.
\<close>

record sizing_hint =
  sh_size_mode :: string
  sh_size_adjustment_factor :: rat

record sizing_inputs =
  si_decision_type :: string
  si_side :: order_side
  si_requested_quantity :: rat
  si_requested_price :: "rat option"
  si_source_type :: "string option"
  si_reference_price :: "rat option"
  si_average_daily_volume_20d :: "rat option"
  si_accumulated_intraday_volume :: "rat option"
  si_accumulated_intraday_turnover :: "rat option"
  si_max_intraday_volume_participation_pct :: "rat option"
  si_max_intraday_turnover_participation_pct :: "rat option"
  si_max_average_daily_volume_participation_pct :: "rat option"
  si_sizing_hint :: sizing_hint
  si_current_position_qty :: "rat option"
  si_current_position_avg_price :: "rat option"
  si_available_cash :: "rat option"
  si_orderable_amount :: "rat option"
  si_nav :: "rat option"
  si_max_single_position_pct :: "rat option"
  si_min_cash_buffer_pct :: "rat option"
  si_max_order_value :: "rat option"
  si_min_order_qty :: "rat option"
  si_max_order_qty :: "rat option"
  si_lot_size :: "rat option"

record sizing_result =
  sr_quantity :: rat
  sr_max_order_value :: "rat option"
  sr_applied_constraints :: "string list"
  sr_skip_reason :: "string option"

section \<open>Base quantity\<close>

definition skip_decision_types :: "string list" where
  "skip_decision_types = [''HOLD'', ''WATCH'']"

definition allocation_pct :: rat where "allocation_pct = 2 / 10"
definition default_max_intraday_volume_participation_pct :: rat where
  "default_max_intraday_volume_participation_pct = 3"
definition default_max_intraday_turnover_participation_pct :: rat where
  "default_max_intraday_turnover_participation_pct = 5"
definition default_max_avg_daily_volume_participation_pct :: rat where
  "default_max_avg_daily_volume_participation_pct = 2"
definition default_held_reduce_fraction :: rat where
  "default_held_reduce_fraction = 25 / 100"

text \<open>\<open>x is not None and x > 0\<close>\<close>

definition positive :: "rat option \<Rightarrow> bool" where
  "positive x = (case x of Some v \<Rightarrow> 0 < v | None \<Rightarrow> False)"

text \<open>\<open>to_integral_value(rounding=ROUND_DOWN)\<close>\<close>

definition round_down :: "rat \<Rightarrow> rat" where
  "round_down x = of_int (trunc x)"

definition apply_ai_size_hint :: "rat \<Rightarrow> sizing_hint \<Rightarrow> rat" where
  "apply_ai_size_hint base_qty hint =
     (if sh_size_mode hint = ''increase'' \<and> 0 < sh_size_adjustment_factor hint
      then round_down (dmul base_qty (dadd 1 (sh_size_adjustment_factor hint)))
      else if sh_size_mode hint \<in> {''fractional_reduce'', ''reduce''}
              \<and> 0 < sh_size_adjustment_factor hint
      then round_down (dsub base_qty (dmul base_qty (sh_size_adjustment_factor hint)))
      else base_qty)"

definition resolve_buy_target_quantity :: "sizing_inputs \<Rightarrow> rat" where
  "resolve_buy_target_quantity i =
     (case or_else (\<lambda>x. x = 0) (si_requested_price i) (si_reference_price i) of
        None \<Rightarrow> si_requested_quantity i
      | Some effective_price \<Rightarrow>
          if effective_price \<le> 0 then si_requested_quantity i
          else
            (case (case si_orderable_amount i of
                     Some c \<Rightarrow> Some c
                   | None \<Rightarrow> si_available_cash i) of
               None \<Rightarrow> si_requested_quantity i
             | Some effective_cash \<Rightarrow>
                 if effective_cash \<le> 0 then si_requested_quantity i
                 else
                   (let target_notional = dmul effective_cash allocation_pct;
                        target_qty = trunc (ddiv target_notional effective_price)
                    in of_int (if target_qty < 1 then 1 else target_qty))))"

definition base_qty_new_entry :: "sizing_inputs \<Rightarrow> rat" where
  "base_qty_new_entry i = apply_ai_size_hint (si_requested_quantity i) (si_sizing_hint i)"

definition base_qty_reduce :: "sizing_inputs \<Rightarrow> rat" where
  "base_qty_reduce i =
     (case si_current_position_qty i of
        Some pos \<Rightarrow>
          if 0 < pos
          then
            (let hint = si_sizing_hint i;
                 base_qty =
                   (if sh_size_mode hint \<in> {''fractional_reduce'', ''reduce''}
                       \<and> 0 < sh_size_adjustment_factor hint
                    then
                      (let factor = max 0 (min 1 (sh_size_adjustment_factor hint));
                           base = round_down (dmul pos factor)
                       in if base \<le> 0 \<and> 0 < pos then 1 else base)
                    else if si_source_type i = Some ''held_position''
                            \<and> si_requested_quantity i \<le> 1
                    then
                      (let base = round_down (dmul pos default_held_reduce_fraction)
                       in if base \<le> 0 then 1 else base)
                    else si_requested_quantity i)
             in min base_qty pos)
          else si_requested_quantity i
      | None \<Rightarrow> si_requested_quantity i)"

definition base_qty_exit :: "sizing_inputs \<Rightarrow> rat" where
  "base_qty_exit i =
     (case si_current_position_qty i of
        Some pos \<Rightarrow> if 0 < pos then pos else si_requested_quantity i
      | None \<Rightarrow> si_requested_quantity i)"

definition resolve_base_quantity :: "sizing_inputs \<Rightarrow> rat" where
  "resolve_base_quantity i =
     (let dt = si_decision_type i; side = si_side i
      in if dt \<in> set skip_decision_types then 0
         else if side = BUY then resolve_buy_target_quantity i
         else if dt = ''REDUCE'' then base_qty_reduce i
         else if dt = ''EXIT'' then base_qty_exit i
         else if dt = ''SELL'' \<or> (dt = ''APPROVE'' \<and> side = SELL \<and> dt \<noteq> ''REDUCE'')
         then base_qty_exit i
         else base_qty_new_entry i)"

section \<open>Constraints\<close>

definition effective_price_of :: "rat option \<Rightarrow> rat option \<Rightarrow> rat option" where
  "effective_price_of price reference_price =
     (if positive price then price else reference_price)"

text \<open>The cash the constraint works with, once a source is chosen: the configured buffer and,
  for a market order priced from a reference quote, the five per cent slippage margin.\<close>

definition buffered_cash :: "rat \<Rightarrow> rat option \<Rightarrow> rat option \<Rightarrow> rat option \<Rightarrow> rat" where
  "buffered_cash cash min_cash_buffer_pct price reference_price =
     (let c1 = (case min_cash_buffer_pct of
                  Some b \<Rightarrow> if 0 < b then dmul cash (dsub 1 (ddiv b 100)) else cash
                | None \<Rightarrow> cash)
      in if price = None \<and> positive reference_price
         then round_down (dmul c1 (95 / 100)) else c1)"

definition apply_cash_constraint ::
  "rat \<Rightarrow> rat option \<Rightarrow> rat option \<Rightarrow> rat option \<Rightarrow> string list \<Rightarrow> rat option \<Rightarrow> rat option
   \<Rightarrow> rat \<times> string list" where
  "apply_cash_constraint qty price available_cash min_cash_buffer_pct constraints
       orderable_amount reference_price =
     (case effective_price_of price reference_price of
        None \<Rightarrow> (qty, constraints)
      | Some effective_price \<Rightarrow>
          if effective_price \<le> 0 then (qty, constraints)
          else if (case orderable_amount of Some a \<Rightarrow> a \<le> 0 | None \<Rightarrow> False)
          then (0, constraints @ [''orderable_amount_zero''])
          else
            (case (case orderable_amount of Some a \<Rightarrow> Some a | None \<Rightarrow> available_cash) of
               None \<Rightarrow> (qty, constraints)
             | Some cash \<Rightarrow>
                 (let effective_cash = buffered_cash cash min_cash_buffer_pct price reference_price;
                      max_qty_by_cash = round_down (ddiv effective_cash effective_price)
                  in if max_qty_by_cash < qty
                     then (max_qty_by_cash, constraints @ [''cash_limit''])
                     else (qty, constraints))))"

definition min_entry_value_for_new_position :: rat where
  "min_entry_value_for_new_position = 500000"

definition apply_concentration_constraint ::
  "rat \<Rightarrow> rat option \<Rightarrow> rat option \<Rightarrow> rat option \<Rightarrow> rat option \<Rightarrow> rat option \<Rightarrow> string list
   \<Rightarrow> rat option \<Rightarrow> rat \<times> string list" where
  "apply_concentration_constraint qty price current_position_qty current_position_avg_price nav
       max_single_position_pct constraints reference_price =
     (case (effective_price_of price reference_price, nav, max_single_position_pct) of
        (Some effective_price, Some nav', Some pct) \<Rightarrow>
          if nav' \<le> 0 \<or> pct \<le> 0 \<or> effective_price \<le> 0 then (qty, constraints)
          else
            (let max_position_value = ddiv (dmul nav' pct) 100;
                 current_value =
                   (case (current_position_qty, current_position_avg_price) of
                      (Some q, Some a) \<Rightarrow> dmul q a
                    | _ \<Rightarrow> 0);
                 remaining_capacity = dsub max_position_value current_value
             in if remaining_capacity \<le> 0
                then (0, constraints @ [''position_concentration''])
                else
                  (let max_additional_qty = round_down (ddiv remaining_capacity effective_price)
                   in if current_position_qty = None \<and> 0 < max_additional_qty
                         \<and> dmul qty effective_price < min_entry_value_for_new_position
                      then (0, constraints @ [''min_entry_threshold''])
                      else if max_additional_qty < qty
                      then (max_additional_qty, constraints @ [''position_concentration''])
                      else (qty, constraints)))
      | _ \<Rightarrow> (qty, constraints))"

definition apply_qty_bounds ::
  "rat \<Rightarrow> rat option \<Rightarrow> rat option \<Rightarrow> string list \<Rightarrow> rat \<times> string list" where
  "apply_qty_bounds qty max_order_qty min_order_qty constraints =
     (let (q, cs) =
        (case max_order_qty of
           Some m \<Rightarrow> if 0 < m \<and> m < qty then (m, constraints @ [''max_qty'']) else (qty, constraints)
         | None \<Rightarrow> (qty, constraints))
      in case min_order_qty of
           Some m \<Rightarrow> if 0 < m \<and> q < m then (0, cs @ [''min_qty'']) else (q, cs)
         | None \<Rightarrow> (q, cs))"

definition apply_max_order_value ::
  "rat \<Rightarrow> rat option \<Rightarrow> rat option \<Rightarrow> string list \<Rightarrow> rat option \<Rightarrow> rat \<times> string list" where
  "apply_max_order_value qty price max_order_value constraints reference_price =
     (case (max_order_value, effective_price_of price reference_price) of
        (Some v, Some effective_price) \<Rightarrow>
          if v \<le> 0 \<or> effective_price \<le> 0 then (qty, constraints)
          else if v < dmul effective_price qty
          then (round_down (ddiv v effective_price), constraints @ [''max_order_value''])
          else (qty, constraints)
      | _ \<Rightarrow> (qty, constraints))"

definition apply_lot_size :: "rat \<Rightarrow> rat option \<Rightarrow> rat" where
  "apply_lot_size qty lot_size =
     (case lot_size of
        Some l \<Rightarrow> if 0 < l then dmul (round_down (ddiv qty l)) l else qty
      | None \<Rightarrow> qty)"

text \<open>One participation cap: the candidate it adds and its label when it binds.\<close>

definition participation_cap :: "rat \<Rightarrow> rat option \<Rightarrow> string \<Rightarrow> rat list \<times> string list
    \<Rightarrow> rat list \<times> string list" where
  "participation_cap qty cap label acc =
     (case cap of
        None \<Rightarrow> acc
      | Some c \<Rightarrow> (fst acc @ [c], if c < qty then snd acc @ [label] else snd acc))"

definition select_cap :: "rat \<Rightarrow> rat list \<times> string list \<Rightarrow> rat \<times> string list" where
  "select_cap qty caps =
     (case fst caps of
        [] \<Rightarrow> (qty, snd caps)
      | c # rest \<Rightarrow>
          (let max_qty = foldl min c rest
           in if max_qty < qty then (max 0 max_qty, snd caps) else (qty, snd caps)))"

definition apply_liquidity_participation_constraint ::
  "rat \<Rightarrow> rat option \<Rightarrow> string list \<Rightarrow> rat option \<Rightarrow> rat option \<Rightarrow> rat option \<Rightarrow> rat option
   \<Rightarrow> rat option \<Rightarrow> rat option \<Rightarrow> rat option \<Rightarrow> rat \<times> string list" where
  "apply_liquidity_participation_constraint qty price constraints reference_price
       accumulated_intraday_volume accumulated_intraday_turnover average_daily_volume_20d
       max_intraday_volume_participation_pct max_intraday_turnover_participation_pct
       max_average_daily_volume_participation_pct =
     (let effective_price = effective_price_of price reference_price;
          volume_cap_pct = (case max_intraday_volume_participation_pct of
             Some p \<Rightarrow> p | None \<Rightarrow> default_max_intraday_volume_participation_pct);
          turnover_cap_pct = (case max_intraday_turnover_participation_pct of
             Some p \<Rightarrow> p | None \<Rightarrow> default_max_intraday_turnover_participation_pct);
          avg_daily_volume_cap_pct = (case max_average_daily_volume_participation_pct of
             Some p \<Rightarrow> p | None \<Rightarrow> default_max_avg_daily_volume_participation_pct);
          volume_cap =
            (case accumulated_intraday_volume of
               Some v \<Rightarrow> if 0 < v \<and> 0 < volume_cap_pct
                         then Some (round_down (ddiv (dmul v volume_cap_pct) 100)) else None
             | None \<Rightarrow> None);
          turnover_cap =
            (case (accumulated_intraday_turnover, effective_price) of
               (Some t, Some p) \<Rightarrow>
                  if 0 < t \<and> 0 < p \<and> 0 < turnover_cap_pct
                  then Some (round_down (ddiv (ddiv (dmul t turnover_cap_pct) 100) p)) else None
             | _ \<Rightarrow> None);
          daily_cap =
            (case average_daily_volume_20d of
               Some v \<Rightarrow> if 0 < v \<and> 0 < avg_daily_volume_cap_pct
                         then Some (round_down (ddiv (dmul v avg_daily_volume_cap_pct) 100)) else None
             | None \<Rightarrow> None);
          caps =
            participation_cap qty daily_cap ''average_daily_volume_participation_cap''
              (participation_cap qty turnover_cap ''intraday_turnover_participation_cap''
                (participation_cap qty volume_cap ''intraday_volume_participation_cap''
                  ([], constraints)))
      in select_cap qty caps)"

section \<open>The pipeline\<close>

definition rejected :: "string list \<Rightarrow> string \<Rightarrow> sizing_result" where
  "rejected constraints reason =
     \<lparr>sr_quantity = 0, sr_max_order_value = None, sr_applied_constraints = constraints,
      sr_skip_reason = Some reason\<rparr>"

text \<open>The constraint calls of \<open>calculate_sizing\<close>, each as a stage on the quantity and the labels.\<close>

definition value_step :: "sizing_inputs \<Rightarrow> rat \<times> string list \<Rightarrow> rat \<times> string list" where
  "value_step i qc =
     apply_max_order_value (fst qc) (si_requested_price i) (si_max_order_value i) (snd qc)
       (si_reference_price i)"

definition bounds_step :: "sizing_inputs \<Rightarrow> rat \<times> string list \<Rightarrow> rat \<times> string list" where
  "bounds_step i qc =
     apply_qty_bounds (fst qc) (si_max_order_qty i) (si_min_order_qty i) (snd qc)"

definition cash_step :: "sizing_inputs \<Rightarrow> rat \<times> string list \<Rightarrow> rat \<times> string list" where
  "cash_step i qc =
     (if si_side i = BUY
      then apply_cash_constraint (fst qc) (si_requested_price i) (si_available_cash i)
             (si_min_cash_buffer_pct i) (snd qc) (si_orderable_amount i) (si_reference_price i)
      else qc)"

definition concentration_step :: "sizing_inputs \<Rightarrow> rat \<times> string list \<Rightarrow> rat \<times> string list" where
  "concentration_step i qc =
     apply_concentration_constraint (fst qc) (si_requested_price i) (si_current_position_qty i)
       (si_current_position_avg_price i) (si_nav i) (si_max_single_position_pct i) (snd qc)
       (si_reference_price i)"

definition liquidity_step :: "sizing_inputs \<Rightarrow> rat \<times> string list \<Rightarrow> rat \<times> string list" where
  "liquidity_step i qc =
     (if si_side i = BUY
      then apply_liquidity_participation_constraint (fst qc) (si_requested_price i) (snd qc)
             (si_reference_price i) (si_accumulated_intraday_volume i)
             (si_accumulated_intraday_turnover i) (si_average_daily_volume_20d i)
             (si_max_intraday_volume_participation_pct i)
             (si_max_intraday_turnover_participation_pct i)
             (si_max_average_daily_volume_participation_pct i)
      else qc)"

definition calculate_sizing :: "sizing_inputs \<Rightarrow> sizing_result" where
  "calculate_sizing i =
     (let qty0 = resolve_base_quantity i
      in if qty0 \<le> 0 then rejected [] ''non_actionable_decision''
         else
           (let (qty2, cs2) = bounds_step i (value_step i (qty0, []))
            in if qty2 \<le> 0 then rejected cs2 ''below_min_qty''
               else
                 (let (qty5, cs5) =
                        liquidity_step i (concentration_step i (cash_step i (qty2, cs2)));
                      qty = apply_lot_size qty5 (si_lot_size i)
                  in if qty \<le> 0 then rejected cs5 ''zero_after_constraints''
                     else
                       (let effective_price =
                              (if si_requested_price i \<noteq> None then si_requested_price i
                               else si_reference_price i)
                        in \<lparr>sr_quantity = qty,
                            sr_max_order_value =
                              (case effective_price of
                                 Some p \<Rightarrow> if 0 < p \<and> 0 < qty then Some (dmul p qty) else None
                               | None \<Rightarrow> None),
                            sr_applied_constraints = cs5,
                            sr_skip_reason = None\<rparr>))))"

section \<open>The contract of a stage\<close>

text \<open>
  A stage never raises a quantity above what it was given (or above zero), turns share counts
  into share counts, only appends labels, and is the identity on the quantity when it appends
  none.  \<open>inputs_whole\<close> collects what the engine expects of its inputs: whole share counts and
  storable money amounts.
\<close>

definition opt_all :: "('a \<Rightarrow> bool) \<Rightarrow> 'a option \<Rightarrow> bool" where
  "opt_all p x = (case x of None \<Rightarrow> True | Some v \<Rightarrow> p v)"

definition inputs_whole :: "sizing_inputs \<Rightarrow> bool" where
  "inputs_whole i \<longleftrightarrow>
     whole (si_requested_quantity i)
     \<and> opt_all whole (si_current_position_qty i)
     \<and> opt_all whole (si_max_order_qty i)
     \<and> opt_all (\<lambda>l. whole l \<and> l < 10 ^ 28) (si_lot_size i)
     \<and> opt_all is_dec (si_max_order_value i)"

locale sizing_stage =
  fixes stage :: "sizing_inputs \<Rightarrow> rat \<times> string list \<Rightarrow> rat \<times> string list"
  assumes shrinks:
      "inputs_whole i \<Longrightarrow> whole q \<Longrightarrow> q < 10 ^ 27 \<Longrightarrow> fst (stage i (q, cs)) \<le> max 0 q"
    and keeps_whole: "inputs_whole i \<Longrightarrow> whole q \<Longrightarrow> whole (fst (stage i (q, cs)))"
    and labels: "\<exists>ls. snd (stage i (q, cs)) = cs @ ls"
    and unlabelled: "snd (stage i (q, cs)) = cs \<Longrightarrow> fst (stage i (q, cs)) = q"
begin

lemma shrinks_pair:
  "inputs_whole i \<Longrightarrow> whole (fst qc) \<Longrightarrow> fst qc < 10 ^ 27 \<Longrightarrow> fst (stage i qc) \<le> max 0 (fst qc)"
  using shrinks by (cases qc) simp

lemma keeps_whole_pair: "inputs_whole i \<Longrightarrow> whole (fst qc) \<Longrightarrow> whole (fst (stage i qc))"
  using keeps_whole by (cases qc) simp

lemma labels_pair: "\<exists>ls. snd (stage i qc) = snd qc @ ls"
  using labels by (cases qc) simp

lemma unlabelled_pair: "snd (stage i qc) = snd qc \<Longrightarrow> fst (stage i qc) = fst qc"
  using unlabelled by (cases qc) simp

lemma stays_small: "inputs_whole i \<Longrightarrow> whole (fst qc) \<Longrightarrow> fst qc < 10 ^ 27 \<Longrightarrow> fst (stage i qc) < 10 ^ 27"
  using shrinks_pair [of i qc] by (simp add: max_def split: if_splits)

end

text \<open>Stages compose.\<close>

lemma sizing_stage_comp:
  assumes f: "sizing_stage f" and g: "sizing_stage g"
  shows "sizing_stage (\<lambda>i qc. g i (f i qc))"
proof
  fix i q cs
  assume w: "inputs_whole i" "whole q"
  have fw: "whole (fst (f i (q, cs)))" by (rule sizing_stage.keeps_whole [OF f w])
  then show "whole (fst (g i (f i (q, cs))))"
    by (rule sizing_stage.keeps_whole_pair [OF g w(1)])
  assume q: "q < 10 ^ 27"
  have fq: "fst (f i (q, cs)) \<le> max 0 q" by (rule sizing_stage.shrinks [OF f w q])
  have "fst (f i (q, cs)) < 10 ^ 27"
    using sizing_stage.stays_small [OF f w(1), of "(q, cs)"] w(2) q by simp
  then have "fst (g i (f i (q, cs))) \<le> max 0 (fst (f i (q, cs)))"
    by (rule sizing_stage.shrinks_pair [OF g w(1) fw])
  with fq show "fst (g i (f i (q, cs))) \<le> max 0 q" by (simp add: max_def split: if_splits)
next
  fix i q cs
  obtain l1 where l1: "snd (f i (q, cs)) = cs @ l1"
    using sizing_stage.labels [OF f] by blast
  obtain l2 where l2: "snd (g i (f i (q, cs))) = snd (f i (q, cs)) @ l2"
    using sizing_stage.labels_pair [OF g] by blast
  from l1 l2 show "\<exists>ls. snd (g i (f i (q, cs))) = cs @ ls" by simp
  assume "snd (g i (f i (q, cs))) = cs"
  with l1 l2 have "snd (f i (q, cs)) = cs" "snd (g i (f i (q, cs))) = snd (f i (q, cs))"
    by simp_all
  then show "fst (g i (f i (q, cs))) = q"
    using sizing_stage.unlabelled [OF f] sizing_stage.unlabelled_pair [OF g] by metis
qed

section \<open>Arithmetic of the stages\<close>

lemma whole_round_down [simp]: "whole (round_down x)"
  by (auto simp: whole_iff round_down_def)

lemma round_down_le: "0 \<le> x \<Longrightarrow> round_down x \<le> x"
  by (simp add: round_down_def trunc_le)

lemma round_down_nonneg: "0 \<le> x \<Longrightarrow> 0 \<le> round_down x"
  using trunc_nonneg [of x] by (simp add: round_down_def)

text \<open>A binding order-value cap yields a smaller quantity.\<close>

lemma value_cap_shrinks:
  assumes q: "whole q" "q < 10 ^ 27" and v: "0 < v" "is_dec v" and p: "0 < p"
    and binds: "v < dmul p q"
  shows "round_down (ddiv v p) \<le> q"
proof -
  have "0 < dmul p q" using v(1) binds by simp
  then have q0: "0 \<le> q"
    using p dec.rnd_nonpos [of "p * q"] unfolding dmul_def
    by (meson leD leI less_imp_le mult_nonneg_nonpos)
  have "is_dec q" using whole_is_dec q q0 by simp
  have "v < p * q"
    using binds v(2) dec.rnd_le_repr [of "p * q" v] unfolding dmul_def by (meson leD leI)
  then have "v / p \<le> q" using p by (simp add: pos_divide_le_eq mult.commute)
  then have "ddiv v p \<le> q" unfolding ddiv_def using \<open>is_dec q\<close> by (rule dec.rnd_le_repr)
  moreover have "0 \<le> ddiv v p" using v p by (simp add: ddiv_nonneg)
  ultimately show ?thesis using round_down_le [of "ddiv v p"] by simp
qed

lemma lot_size_le:
  assumes q: "whole q" "0 \<le> q" "q < 10 ^ 27" and l: "opt_all (\<lambda>l. whole l \<and> l < 10 ^ 28) lot"
  shows "apply_lot_size q lot \<le> q" "whole (apply_lot_size q lot)"
proof -
  have "apply_lot_size q lot \<le> q \<and> whole (apply_lot_size q lot)"
  proof (cases "\<exists>l. lot = Some l \<and> 0 < l")
    case False
    then show ?thesis using q by (auto simp: apply_lot_size_def split: option.splits)
  next
    case True
    then obtain l where lot: "lot = Some l" "0 < l" by blast
    from q l lot obtain c m where cm: "q = of_int c" "l = of_int m"
      by (auto simp: whole_iff opt_all_def)
    have b: "0 \<le> c" "c < 10 ^ 27" "0 < m" "m < 10 ^ 28"
    proof -
      have "(of_int c :: rat) < of_int (10 ^ 27)" "(of_int m :: rat) < of_int (10 ^ 28)"
        using q(3) l lot cm by (simp_all add: opt_all_def)
      then show "c < 10 ^ 27" "m < 10 ^ 28" by (simp_all only: of_int_less_iff)
    qed (use q(2) lot cm in simp_all)
    have "trunc (ddiv q l) = c div m"
      using trunc_ddiv [OF b, of q 1 l] cm by simp
    moreover have le: "c div m * m \<le> c"
      using b(3) div_mult_mod_eq [of c m] pos_mod_sign [of m c] by linarith
    moreover have "dround (of_int (c div m * m)) = of_int (c div m * m)"
      using b le by (intro dround_int) (simp add: pos_imp_zdiv_nonneg_iff)
    ultimately have "apply_lot_size q lot = of_int (c div m * m)"
      using lot cm by (simp add: apply_lot_size_def round_down_def dmul_def)
    with le cm show ?thesis by (simp only: whole_iff of_int_le_iff) blast
  qed
  then show "apply_lot_size q lot \<le> q" "whole (apply_lot_size q lot)" by blast+
qed

section \<open>The five stages\<close>

interpretation value_stage: sizing_stage value_step
proof
  fix i q cs
  assume i: "inputs_whole i" and q: "whole q" "q < 10 ^ 27"
  have "opt_all is_dec (si_max_order_value i)" using i by (simp add: inputs_whole_def)
  then show "fst (value_step i (q, cs)) \<le> max 0 q"
    using value_cap_shrinks [OF q]
    by (auto simp: value_step_def apply_max_order_value_def opt_all_def not_le max.coboundedI2
        split: option.splits)
qed (auto simp: value_step_def apply_max_order_value_def split: option.splits if_splits)

interpretation bounds_stage: sizing_stage bounds_step
  by unfold_locales
     (auto simp: bounds_step_def apply_qty_bounds_def inputs_whole_def opt_all_def
       split: option.splits if_splits)

interpretation cash_stage: sizing_stage cash_step
  by unfold_locales
     (auto simp: cash_step_def apply_cash_constraint_def Let_def split: option.splits if_splits)

interpretation concentration_stage: sizing_stage concentration_step
  by unfold_locales
     (auto simp: concentration_step_def apply_concentration_constraint_def Let_def
       split: option.splits if_splits)

lemma foldl_min_le:
  fixes c :: rat
  shows "foldl min c cs \<le> c" "x \<in> set cs \<Longrightarrow> foldl min c cs \<le> x"
proof (induction cs arbitrary: c)
  case (Cons a cs)
  { case 1 show ?case using Cons(1) [of "min c a"] by simp }
  { case 2 then show ?case using Cons(1) [of "min c a"] Cons(2) [of "min c a"] by auto }
qed simp_all

lemma foldl_min_ge: "q \<le> c \<Longrightarrow> \<forall>x \<in> set cs. q \<le> x \<Longrightarrow> q \<le> foldl min (c :: rat) cs"
  by (induction cs arbitrary: c) auto

lemma foldl_min_in: "foldl min (c :: rat) cs \<in> insert c (set cs)"
  by (induction cs arbitrary: c) (auto simp: min_def split: if_splits)

text \<open>What the accumulation of participation caps keeps: labels only grow, and when none was
  added every candidate is at least the quantity.\<close>

lemma participation_cap_labels:
  "\<exists>ls. snd (participation_cap q cap l acc) = snd acc @ ls"
  by (auto simp: participation_cap_def split: option.splits)

lemma participation_cap_unlabelled:
  assumes "snd (participation_cap q cap l acc) = snd acc" and "\<forall>c \<in> set (fst acc). q \<le> c"
  shows "\<forall>c \<in> set (fst (participation_cap q cap l acc)). q \<le> c"
  using assms by (auto simp: participation_cap_def split: option.splits if_splits)

lemma participation_cap_whole:
  "opt_all whole cap \<Longrightarrow> list_all whole (fst acc) \<Longrightarrow>
   list_all whole (fst (participation_cap q cap l acc))"
  by (auto simp: participation_cap_def opt_all_def split: option.splits)

lemma select_cap_shrinks: "fst (select_cap q caps) \<le> max 0 q"
  by (auto simp: select_cap_def Let_def max_def split: list.splits)

lemma select_cap_whole:
  "list_all whole (fst caps) \<Longrightarrow> whole q \<Longrightarrow> whole (fst (select_cap q caps))"
  using foldl_min_in
  by (auto simp: select_cap_def Let_def list_all_iff max_def split: list.splits)

lemma select_cap_labels: "snd (select_cap q caps) = snd caps"
  by (auto simp: select_cap_def Let_def split: list.splits)

lemma select_cap_loose: "\<forall>c \<in> set (fst caps). q \<le> c \<Longrightarrow> fst (select_cap q caps) = q"
  using foldl_min_ge [of q]
  by (auto simp: select_cap_def Let_def not_less [symmetric] split: list.splits)

text \<open>Three caps in sequence, as the liquidity stage has them.\<close>

lemma three_caps:
  fixes q cs a b c la lb lc
  defines "r \<equiv> select_cap q (participation_cap q c lc (participation_cap q b lb
             (participation_cap q a la ([], cs))))"
  shows "\<exists>ls. snd r = cs @ ls" "snd r = cs \<Longrightarrow> fst r = q" "fst r \<le> max 0 q"
    "opt_all whole a \<Longrightarrow> opt_all whole b \<Longrightarrow> opt_all whole c \<Longrightarrow> whole q \<Longrightarrow> whole (fst r)"
proof -
  define r1 where "r1 = participation_cap q a la ([], cs)"
  define r2 where "r2 = participation_cap q b lb r1"
  define r3 where "r3 = participation_cap q c lc r2"
  have r: "r = select_cap q r3" by (simp add: r_def r1_def r2_def r3_def)
  obtain l1 l2 l3 where l: "snd r1 = cs @ l1" "snd r2 = snd r1 @ l2" "snd r3 = snd r2 @ l3"
    unfolding r1_def r2_def r3_def using participation_cap_labels by (metis snd_conv)
  then show "\<exists>ls. snd r = cs @ ls" by (simp add: r select_cap_labels)
  show "fst r \<le> max 0 q" by (simp add: r select_cap_shrinks)
  { assume "snd r = cs"
    with l have same: "snd r1 = cs" "snd r2 = snd r1" "snd r3 = snd r2"
      by (simp_all add: r select_cap_labels)
    have "\<forall>x \<in> set (fst r1). q \<le> x"
      using participation_cap_unlabelled [of q a la "([], cs)"] same(1) by (simp add: r1_def)
    then have "\<forall>x \<in> set (fst r2). q \<le> x"
      using participation_cap_unlabelled [of q b lb r1] same(2) by (simp add: r2_def)
    then have "\<forall>x \<in> set (fst r3). q \<le> x"
      using participation_cap_unlabelled [of q c lc r2] same(3) by (simp add: r3_def)
    then show "fst r = q" by (simp add: r select_cap_loose) }
  { assume w: "opt_all whole a" "opt_all whole b" "opt_all whole c" "whole q"
    then have "list_all whole (fst r3)"
      unfolding r1_def r2_def r3_def by (intro participation_cap_whole) simp_all
    with w show "whole (fst r)" by (simp add: r select_cap_whole) }
qed

interpretation liquidity_stage: sizing_stage liquidity_step
proof
  fix i q cs
  show "\<exists>ls. snd (liquidity_step i (q, cs)) = cs @ ls"
    unfolding liquidity_step_def apply_liquidity_participation_constraint_def Let_def
    by (cases "si_side i = BUY") (simp_all add: three_caps(1))
  show "snd (liquidity_step i (q, cs)) = cs \<Longrightarrow> fst (liquidity_step i (q, cs)) = q"
    unfolding liquidity_step_def apply_liquidity_participation_constraint_def Let_def
    by (simp add: three_caps(2) split: if_splits)
  show "fst (liquidity_step i (q, cs)) \<le> max 0 q"
    unfolding liquidity_step_def apply_liquidity_participation_constraint_def Let_def
    by (simp add: three_caps(3))
  assume "whole q"
  then show "whole (fst (liquidity_step i (q, cs)))"
    unfolding liquidity_step_def apply_liquidity_participation_constraint_def Let_def
    by (cases "si_side i = BUY")
       (simp_all, (rule three_caps(4); simp add: opt_all_def split: option.split)?)
qed

section \<open>The pipeline\<close>

definition sizing_before :: "sizing_inputs \<Rightarrow> rat \<times> string list \<Rightarrow> rat \<times> string list" where
  "sizing_before i qc = bounds_step i (value_step i qc)"

definition sizing_after_cash :: "sizing_inputs \<Rightarrow> rat \<times> string list \<Rightarrow> rat \<times> string list" where
  "sizing_after_cash i qc = liquidity_step i (concentration_step i qc)"

definition sizing_after :: "sizing_inputs \<Rightarrow> rat \<times> string list \<Rightarrow> rat \<times> string list" where
  "sizing_after i qc = sizing_after_cash i (cash_step i qc)"

interpretation before_stages: sizing_stage sizing_before
  using sizing_stage_comp [OF value_stage.sizing_stage_axioms bounds_stage.sizing_stage_axioms]
  by (simp add: sizing_before_def [abs_def])

interpretation after_cash_stages: sizing_stage sizing_after_cash
  using sizing_stage_comp [OF concentration_stage.sizing_stage_axioms
      liquidity_stage.sizing_stage_axioms]
  by (simp add: sizing_after_cash_def [abs_def])

interpretation after_stages: sizing_stage sizing_after
  using sizing_stage_comp [OF cash_stage.sizing_stage_axioms after_cash_stages.sizing_stage_axioms]
  by (simp add: sizing_after_def [abs_def])

text \<open>Every run ends in one of four ways.\<close>

lemma calculate_sizing_cases:
  obtains (non_actionable) "resolve_base_quantity i \<le> 0"
      "calculate_sizing i = rejected [] ''non_actionable_decision''"
  | (below_min) q cs where "0 < resolve_base_quantity i"
      "sizing_before i (resolve_base_quantity i, []) = (q, cs)" "q \<le> 0"
      "calculate_sizing i = rejected cs ''below_min_qty''"
  | (zero) q cs q' cs' where "0 < resolve_base_quantity i"
      "sizing_before i (resolve_base_quantity i, []) = (q, cs)" "0 < q"
      "sizing_after i (q, cs) = (q', cs')" "apply_lot_size q' (si_lot_size i) \<le> 0"
      "calculate_sizing i = rejected cs' ''zero_after_constraints''"
  | (sized) q cs q' cs' where "0 < resolve_base_quantity i"
      "sizing_before i (resolve_base_quantity i, []) = (q, cs)" "0 < q"
      "sizing_after i (q, cs) = (q', cs')" "0 < apply_lot_size q' (si_lot_size i)"
      "sr_quantity (calculate_sizing i) = apply_lot_size q' (si_lot_size i)"
      "sr_applied_constraints (calculate_sizing i) = cs'"
      "sr_skip_reason (calculate_sizing i) = None"
proof -
  obtain q cs where b: "sizing_before i (resolve_base_quantity i, []) = (q, cs)"
    by (cases "sizing_before i (resolve_base_quantity i, [])")
  obtain q' cs' where a: "sizing_after i (q, cs) = (q', cs')"
    by (cases "sizing_after i (q, cs)")
  note defs = calculate_sizing_def Let_def
    b [unfolded sizing_before_def] a [unfolded sizing_after_def sizing_after_cash_def]
  show thesis
  proof (cases "0 < resolve_base_quantity i")
    case False
    then show ?thesis by (intro non_actionable) (simp_all add: defs not_less)
  next
    case base: True
    show ?thesis
    proof (cases "0 < q")
      case False
      with base b show ?thesis by (intro below_min) (simp_all add: defs not_less)
    next
      case q: True
      show ?thesis
      proof (cases "0 < apply_lot_size q' (si_lot_size i)")
        case False
        with base b a q show ?thesis by (intro zero) (simp_all add: defs not_less)
      next
        case True
        with base b a q show ?thesis by (intro sized) (simp_all add: defs)
      qed
    qed
  qed
qed

lemma base_quantity_whole:
  assumes "inputs_whole i"
  shows "whole (resolve_base_quantity i)"
proof -
  have r: "whole (si_requested_quantity i)" and p: "opt_all whole (si_current_position_qty i)"
    using assms by (simp_all add: inputs_whole_def)
  have "whole (resolve_buy_target_quantity i)"
    using r by (auto simp: resolve_buy_target_quantity_def Let_def whole_iff split: option.splits)
  moreover have "whole (base_qty_exit i)"
    using r p by (auto simp: base_qty_exit_def opt_all_def split: option.splits)
  moreover have "whole (base_qty_reduce i)"
    using r p by (auto simp: base_qty_reduce_def opt_all_def Let_def min_def split: option.splits)
  moreover have "whole (base_qty_new_entry i)"
    using r by (auto simp: base_qty_new_entry_def apply_ai_size_hint_def)
  ultimately show ?thesis
    by (auto simp: resolve_base_quantity_def Let_def)
qed

text \<open>In a sized run the quantity only went down from stage to stage.\<close>

lemma sized_chain:
  assumes i: "inputs_whole i" and b: "resolve_base_quantity i < 10 ^ 27"
    and base: "0 < resolve_base_quantity i"
    and before: "sizing_before i (resolve_base_quantity i, []) = (q, cs)" "0 < q"
    and after: "sizing_after i (q, cs) = (q', cs')"
    and lot: "0 < apply_lot_size q' (si_lot_size i)"
  shows "q \<le> resolve_base_quantity i"
    "q \<le> fst (value_step i (resolve_base_quantity i, []))"
    "apply_lot_size q' (si_lot_size i) \<le> fst (cash_step i (q, cs))"
    "apply_lot_size q' (si_lot_size i) \<le> fst (concentration_step i (cash_step i (q, cs)))"
    "apply_lot_size q' (si_lot_size i) \<le> q"
proof -
  let ?b = "resolve_base_quantity i"
  let ?v = "value_step i (?b, [])" and ?c = "cash_step i (q, cs)"
  let ?k = "concentration_step i ?c"
  have bw: "whole ?b" by (rule base_quantity_whole [OF i])
  have v: "fst ?v \<le> ?b" "whole (fst ?v)"
    using value_stage.shrinks [OF i bw b, of "[]"] value_stage.keeps_whole [OF i bw, of "[]"] base
    by simp_all
  have q: "q = fst (bounds_step i ?v)" using before(1) by (simp add: sizing_before_def)
  have qv: "q \<le> max 0 (fst ?v)"
    unfolding q using bounds_stage.shrinks_pair [OF i v(2)] v(1) b by simp
  then show "q \<le> fst ?v" using before(2) by simp
  with v show qb: "q \<le> ?b" by simp
  have qw: "whole q" unfolding q by (rule bounds_stage.keeps_whole_pair [OF i v(2)])
  have q27: "q < 10 ^ 27" using qb b by simp
  have c: "whole (fst ?c)" "fst ?c \<le> max 0 q" "fst ?c < 10 ^ 27"
    using cash_stage.keeps_whole [OF i qw] cash_stage.shrinks [OF i qw q27]
      cash_stage.stays_small [OF i, of "(q, cs)"] qw q27 by simp_all
  have k: "whole (fst ?k)" "fst ?k \<le> max 0 (fst ?c)" "fst ?k < 10 ^ 27"
    using concentration_stage.keeps_whole_pair [OF i c(1)]
      concentration_stage.shrinks_pair [OF i c(1,3)]
      concentration_stage.stays_small [OF i c(1,3)] by simp_all
  have "(q', cs') = liquidity_step i ?k"
    using after by (simp add: sizing_after_def sizing_after_cash_def)
  then have q': "whole q'" "q' \<le> max 0 (fst ?k)" "q' < 10 ^ 27"
    using liquidity_stage.keeps_whole_pair [OF i k(1)] liquidity_stage.shrinks_pair [OF i k(1,3)]
      liquidity_stage.stays_small [OF i k(1,3)] by (metis fst_conv)+
  have l: "opt_all (\<lambda>l. whole l \<and> l < 10 ^ 28) (si_lot_size i)"
    using i by (simp add: inputs_whole_def)
  have pos: "0 < q'"
  proof (rule ccontr)
    assume "\<not> 0 < q'"
    then have "ddiv q' x \<le> 0" if "0 < x" for x
      using that unfolding ddiv_def by (intro dec.rnd_nonpos) (simp add: divide_nonpos_pos)
    then have "round_down (ddiv q' x) \<le> 0" if "0 < x" for x
      using trunc_mono [of "ddiv q' x" 0] that by (simp add: round_down_def trunc_def split: if_splits)
    then have "apply_lot_size q' (si_lot_size i) \<le> 0"
      using \<open>\<not> 0 < q'\<close>
      by (auto simp: apply_lot_size_def dmul_def mult_nonpos_nonneg
          intro!: dec.rnd_nonpos split: option.splits)
    with lot show False by simp
  qed
  have "apply_lot_size q' (si_lot_size i) \<le> q'"
    using lot_size_le [OF q'(1) _ q'(3) l] pos by simp
  with q'(2) pos k(2) c(2) before(2) lot
  show "apply_lot_size q' (si_lot_size i) \<le> fst ?k"
    "apply_lot_size q' (si_lot_size i) \<le> fst ?c"
    "apply_lot_size q' (si_lot_size i) \<le> q"
    by (simp_all add: max_def split: if_splits)
qed

text \<open>Truncating a quotient of amounts on a common grid gives a quantity that fits.\<close>

lemma quotient_fits:
  assumes F: "0 < F" "F \<le> round_down (ddiv e p)"
    and e: "e = of_int c / 10 ^ k" "c < 10 ^ 27" and p: "p = of_int m / 10 ^ k" "0 < m" "m < 10 ^ 28"
  shows "F * p \<le> e"
proof -
  have c0: "0 \<le> c"
  proof (rule ccontr)
    assume "\<not> 0 \<le> c"
    then have "ddiv e p \<le> 0"
      unfolding ddiv_def e p using p(2)
      by (intro dec.rnd_nonpos) (simp add: divide_nonpos_pos)
    then have "round_down (ddiv e p) \<le> 0"
      using trunc_mono [of "ddiv e p" 0] by (simp add: round_down_def trunc_def split: if_splits)
    with F show False by simp
  qed
  have "round_down (ddiv e p) = of_int (c div m)"
    using trunc_ddiv [OF c0 e(2) p(2,3) e(1) p(1)] by (simp add: round_down_def)
  with F have "F * p \<le> of_int (c div m) * p"
    using p by (intro mult_right_mono) simp_all
  also have "\<dots> = of_int (c div m * m) / 10 ^ k" by (simp add: p)
  also have "\<dots> \<le> of_int c / 10 ^ k"
  proof (intro divide_right_mono)
    have "c div m * m \<le> c"
      using p(2) div_mult_mod_eq [of c m] pos_mod_sign [of m c] by linarith
    then show "(of_int (c div m * m) :: rat) \<le> of_int c" by (simp only: of_int_le_iff)
  qed simp
  finally show ?thesis by (simp add: e)
qed

section \<open>Properties\<close>

definition ex_inputs :: sizing_inputs where
  "ex_inputs =
     \<lparr>si_decision_type = ''BUY'', si_side = BUY, si_requested_quantity = 1,
      si_requested_price = Some 100000, si_source_type = Some ''core'',
      si_reference_price = None, si_average_daily_volume_20d = None,
      si_accumulated_intraday_volume = Some 200, si_accumulated_intraday_turnover = None,
      si_max_intraday_volume_participation_pct = None,
      si_max_intraday_turnover_participation_pct = None,
      si_max_average_daily_volume_participation_pct = None,
      si_sizing_hint = \<lparr>sh_size_mode = ''no_change'', sh_size_adjustment_factor = 0\<rparr>,
      si_current_position_qty = None, si_current_position_avg_price = None,
      si_available_cash = Some 9000000, si_orderable_amount = Some 10000000,
      si_nav = Some 15000000, si_max_single_position_pct = Some 10,
      si_min_cash_buffer_pct = Some 5, si_max_order_value = Some 1800000,
      si_min_order_qty = Some 10, si_max_order_qty = Some 50, si_lot_size = Some 5\<rparr>"

definition ex_sell_inputs :: sizing_inputs where
  "ex_sell_inputs = ex_inputs\<lparr>si_decision_type := ''REDUCE'', si_side := SELL,
     si_current_position_qty := Some 37, si_requested_quantity := 60,
     si_min_order_qty := None, si_max_order_value := None, si_nav := None\<rparr>"

lemma ex_inputs_whole: "inputs_whole ex_inputs" "inputs_whole ex_sell_inputs"
  by (simp_all add: inputs_whole_def opt_all_def ex_inputs_def ex_sell_inputs_def)

text \<open>Every sizing result is well formed: the quantity is never negative, and it is zero
  exactly when a skip reason explains the rejection.\<close>

theorem sizing_result_well_formed:
  "0 \<le> sr_quantity (calculate_sizing i)
   \<and> (sr_quantity (calculate_sizing i) = 0 \<longleftrightarrow> sr_skip_reason (calculate_sizing i) \<noteq> None)"
  by (cases i rule: calculate_sizing_cases) (auto simp: rejected_def)

text \<open>C36. No constraint enlarges an order: the final quantity never exceeds the base quantity that
  the decision and the position gave, although the lot and cap quotients are rounded.\<close>

theorem sizing_never_enlarges:
  assumes "inputs_whole i" and "resolve_base_quantity i < 10 ^ 27"
  shows "sr_quantity (calculate_sizing i) \<le> max 0 (resolve_base_quantity i)"
proof (cases i rule: calculate_sizing_cases)
  case (sized q cs q' cs')
  then show ?thesis using sized_chain(1,5) [OF assms sized(1-5)] by simp
qed (simp_all add: rejected_def)

theorem sizing_never_enlarges_witness:
  "sr_quantity (calculate_sizing ex_inputs) \<le> 20"
proof -
  have "resolve_base_quantity ex_inputs = 20" by code_simp
  then show ?thesis using sizing_never_enlarges [OF ex_inputs_whole(1)] by simp
qed

text \<open>A risk-reducing sell never sells more than the position: for REDUCE, EXIT, SELL and APPROVE
  decisions on the sell side with a known position the quantity is at most that position.\<close>

theorem sell_within_position:
  assumes "inputs_whole i" and "si_side i = SELL"
    and "si_decision_type i \<in> {''REDUCE'', ''EXIT'', ''SELL'', ''APPROVE''}"
    and "si_current_position_qty i = Some pos" and "0 < pos" and "pos < 10 ^ 27"
  shows "sr_quantity (calculate_sizing i) \<le> pos"
proof -
  have "resolve_base_quantity i \<le> pos"
    using assms(2-5)
    by (auto simp: resolve_base_quantity_def skip_decision_types_def Let_def base_qty_reduce_def
        base_qty_exit_def)
  moreover from this assms(6) have "resolve_base_quantity i < 10 ^ 27" by simp
  note bound = this
  have "sr_quantity (calculate_sizing i) \<le> max 0 (resolve_base_quantity i)"
  proof (cases i rule: calculate_sizing_cases)
    case (sized q cs q' cs')
    then show ?thesis using sized_chain(1,5) [OF assms(1) bound sized(1-5)] by simp
  qed (simp_all add: rejected_def)
  ultimately show ?thesis using assms(5) by simp
qed

theorem sell_within_position_witness:
  "sr_quantity (calculate_sizing ex_sell_inputs) \<le> 37"
  by (rule sell_within_position [OF ex_inputs_whole(2)])
     (simp_all add: ex_sell_inputs_def)

text \<open>C7. A buy fits the cash: when a positive price and a cash source are known and the amounts
  are multiples of \<open>10 powi (-k)\<close> within the decimal precision, quantity times price is at most
  the cash after buffer and slippage margin, although the quotient was rounded.\<close>

theorem buy_within_cash:
  assumes "inputs_whole i" and "resolve_base_quantity i < 10 ^ 27" and "si_side i = BUY"
    and "effective_price_of (si_requested_price i) (si_reference_price i) = Some p"
    and "(case si_orderable_amount i of Some a \<Rightarrow> Some a | None \<Rightarrow> si_available_cash i) = Some cash"
    and "sr_skip_reason (calculate_sizing i) = None"
    and "p = of_int m / 10 ^ k" and "0 < m" and "m < 10 ^ 28"
    and "buffered_cash cash (si_min_cash_buffer_pct i) (si_requested_price i) (si_reference_price i)
           = of_int c / 10 ^ k" and "c < 10 ^ 27"
  shows "sr_quantity (calculate_sizing i) * p
         \<le> buffered_cash cash (si_min_cash_buffer_pct i) (si_requested_price i) (si_reference_price i)"
proof (cases i rule: calculate_sizing_cases)
  case (sized q cs q' cs')
  have p: "0 < p" using assms(7,8) by simp
  let ?e = "buffered_cash cash (si_min_cash_buffer_pct i) (si_requested_price i) (si_reference_price i)"
  have le: "sr_quantity (calculate_sizing i) \<le> fst (cash_step i (q, cs))"
    using sized_chain(3) [OF assms(1,2) sized(1-5)] sized(6) by simp
  have pos: "0 < sr_quantity (calculate_sizing i)" using sized(5,6) by simp
  have "fst (cash_step i (q, cs)) \<le> round_down (ddiv ?e p) \<or> fst (cash_step i (q, cs)) = 0"
    using assms(3-5) p
    by (auto simp: cash_step_def apply_cash_constraint_def Let_def split: option.splits if_splits)
  with le pos have "sr_quantity (calculate_sizing i) \<le> round_down (ddiv ?e p)" by auto
  then show ?thesis by (rule quotient_fits [OF pos _ assms(10,11,7,8,9)])
qed (use assms(6) in \<open>simp_all add: rejected_def\<close>)

lemma ex_sized: "sr_skip_reason (calculate_sizing ex_inputs) = None
    \<and> sr_quantity (calculate_sizing ex_inputs) = 5"
  by code_simp

lemma ex_base: "resolve_base_quantity ex_inputs = 20"
  by code_simp

theorem buy_within_cash_witness:
  "sr_quantity (calculate_sizing ex_inputs) * 100000 \<le> 9500000"
proof -
  have b: "buffered_cash 10000000 (si_min_cash_buffer_pct ex_inputs)
      (si_requested_price ex_inputs) (si_reference_price ex_inputs) = 9500000"
    by code_simp
  have "sr_quantity (calculate_sizing ex_inputs) * 100000
      \<le> buffered_cash 10000000 (si_min_cash_buffer_pct ex_inputs)
          (si_requested_price ex_inputs) (si_reference_price ex_inputs)"
  proof (rule buy_within_cash [OF ex_inputs_whole(1), where m = 100000 and k = 0 and c = 9500000])
    show "resolve_base_quantity ex_inputs < 10 ^ 27" by (simp add: ex_base)
    show "sr_skip_reason (calculate_sizing ex_inputs) = None" using ex_sized by blast
    show "buffered_cash 10000000 (si_min_cash_buffer_pct ex_inputs)
        (si_requested_price ex_inputs) (si_reference_price ex_inputs) = of_int 9500000 / 10 ^ 0"
      using b by simp
  qed (simp_all add: ex_inputs_def effective_price_of_def positive_def)
  then show ?thesis by (simp only: b)
qed

text \<open>C27. A buy respects the concentration limit: with NAV, limit and price known, the value of
  the order fits into what the limit leaves above the current position value.\<close>

theorem order_within_concentration_limit:
  assumes "inputs_whole i" and "resolve_base_quantity i < 10 ^ 27"
    and "effective_price_of (si_requested_price i) (si_reference_price i) = Some p"
    and "si_nav i = Some nav" and "0 < nav"
    and "si_max_single_position_pct i = Some pct" and "0 < pct"
    and "remaining = dsub (ddiv (dmul nav pct) 100)
           (case (si_current_position_qty i, si_current_position_avg_price i) of
              (Some q, Some a) \<Rightarrow> dmul q a | _ \<Rightarrow> 0)"
    and "sr_skip_reason (calculate_sizing i) = None"
    and "p = of_int m / 10 ^ k" and "0 < m" and "m < 10 ^ 28"
    and "remaining = of_int c / 10 ^ k" and "c < 10 ^ 27"
  shows "sr_quantity (calculate_sizing i) * p \<le> remaining"
proof (cases i rule: calculate_sizing_cases)
  case (sized q cs q' cs')
  have p: "0 < p" using assms(10,11) by simp
  let ?k = "concentration_step i (cash_step i (q, cs))"
  have le: "sr_quantity (calculate_sizing i) \<le> fst ?k"
    using sized_chain(4) [OF assms(1,2) sized(1-5)] sized(6) by simp
  have pos: "0 < sr_quantity (calculate_sizing i)" using sized(5,6) by simp
  have "fst ?k \<le> round_down (ddiv remaining p) \<or> fst ?k = 0"
    unfolding assms(8) using assms(3-7) p
    by (auto simp: concentration_step_def apply_concentration_constraint_def Let_def
        split: if_splits)
  with le pos have "sr_quantity (calculate_sizing i) \<le> round_down (ddiv remaining p)" by auto
  then show ?thesis by (rule quotient_fits [OF pos _ assms(13,14,10,11,12)])
qed (use assms(9) in \<open>simp_all add: rejected_def\<close>)

theorem order_within_concentration_limit_witness:
  "sr_quantity (calculate_sizing ex_inputs) * 100000 \<le> 1500000"
proof (rule order_within_concentration_limit
    [OF ex_inputs_whole(1), where m = 100000 and k = 0 and c = 1500000 and nav = 15000000 and pct = 10])
  show "resolve_base_quantity ex_inputs < 10 ^ 27" by (simp add: ex_base)
  show "sr_skip_reason (calculate_sizing ex_inputs) = None" using ex_sized by blast
qed (simp_all add: ex_inputs_def effective_price_of_def positive_def dec_eval)

text \<open>Labels are faithful: if a sized order carries no constraint label and no lot size is set,
  its quantity is exactly the base quantity.\<close>

theorem unlabelled_order_is_unchanged:
  assumes "sr_skip_reason (calculate_sizing i) = None"
    and "sr_applied_constraints (calculate_sizing i) = []" and "si_lot_size i = None"
  shows "sr_quantity (calculate_sizing i) = resolve_base_quantity i"
proof (cases i rule: calculate_sizing_cases)
  case (sized q cs q' cs')
  have "cs' = []" using sized(7) assms(2) by simp
  moreover obtain ls where "snd (sizing_after i (q, cs)) = cs @ ls"
    using after_stages.labels by blast
  ultimately have "cs = []" using sized(4) by simp
  with sized \<open>cs' = []\<close> have "q' = q" using after_stages.unlabelled [of i q "[]"] by simp
  moreover have "q = resolve_base_quantity i"
    using before_stages.unlabelled [of i "resolve_base_quantity i" "[]"] sized(2) \<open>cs = []\<close> by simp
  ultimately show ?thesis using sized(6) assms(3) by (simp add: apply_lot_size_def)
qed (use assms in \<open>simp_all add: rejected_def\<close>)

definition ex_exit_inputs :: sizing_inputs where
  "ex_exit_inputs = ex_sell_inputs\<lparr>si_decision_type := ''EXIT'', si_lot_size := None,
     si_max_order_qty := None\<rparr>"

theorem unlabelled_order_is_unchanged_witness:
  "sr_quantity (calculate_sizing ex_exit_inputs) = 37"
proof -
  have "sr_skip_reason (calculate_sizing ex_exit_inputs) = None"
    and "sr_applied_constraints (calculate_sizing ex_exit_inputs) = []"
    and "si_lot_size ex_exit_inputs = None"
    and "resolve_base_quantity ex_exit_inputs = 37"
    by code_simp+
  then show ?thesis using unlabelled_order_is_unchanged [of ex_exit_inputs] by simp
qed

text \<open>The minimum order quantity is checked before the cash, concentration, liquidity and lot
  constraints and not again: there are inputs whose accepted order is below the configured
  minimum.\<close>

theorem min_order_qty_not_enforced_on_result:
  "\<exists>i m. si_min_order_qty i = Some m \<and> sr_skip_reason (calculate_sizing i) = None
     \<and> 0 < sr_quantity (calculate_sizing i) \<and> sr_quantity (calculate_sizing i) < m"
proof (intro exI conjI)
  show "si_min_order_qty ex_inputs = Some 10" by (simp add: ex_inputs_def)
  show "sr_skip_reason (calculate_sizing ex_inputs) = None" using ex_sized by blast
qed (simp_all add: ex_sized)

text \<open>The concentration limit also stops sales: while the position is worth at least the
  single-position limit, every sell is rejected, an EXIT or a REDUCE included, so the position
  that breaks the limit cannot be brought back under it.\<close>

theorem overweight_position_is_not_sold:
  assumes "si_side i = SELL"
    and "effective_price_of (si_requested_price i) (si_reference_price i) = Some p" and "0 < p"
    and "si_nav i = Some nav" and "0 < nav"
    and "si_max_single_position_pct i = Some pct" and "0 < pct"
    and "si_current_position_qty i = Some q" and "si_current_position_avg_price i = Some a"
    and "ddiv (dmul nav pct) 100 \<le> dmul q a"
  shows "sr_quantity (calculate_sizing i) = 0"
proof (cases i rule: calculate_sizing_cases)
  case (sized q1 cs q' cs')
  have "dsub (ddiv (dmul nav pct) 100) (dmul q a) \<le> 0"
    using assms(10) unfolding dsub_def by (intro dec.rnd_nonpos) simp
  then have "fst (concentration_step i (cash_step i (q1, cs))) = 0"
    using assms by (simp add: concentration_step_def apply_concentration_constraint_def Let_def)
  then have "q' = 0"
    using sized(4) assms(1)
    by (metis fst_conv liquidity_step_def order_side.distinct(1) sizing_after_cash_def sizing_after_def)
  then show ?thesis
    using sized(5)
    by (simp add: apply_lot_size_def ddiv_def dmul_def round_down_def trunc_def
        split: option.splits if_splits)
qed (simp_all add: rejected_def)

theorem overweight_position_is_not_sold_witness:
  "sr_quantity (calculate_sizing (ex_inputs\<lparr>si_decision_type := ''EXIT'', si_side := SELL,
     si_current_position_qty := Some 20, si_current_position_avg_price := Some 90000\<rparr>)) = 0"
  by (rule overweight_position_is_not_sold [where nav = 15000000 and pct = 10 and p = 100000
        and q = 20 and a = 90000])
     (simp_all add: ex_inputs_def effective_price_of_def positive_def dec_eval)

end
