(* ===== verification/Incremental_Fill.thy ===== *)
theory Incremental_Fill
  imports Domain
begin

text \<open>
  Turning cumulative fill observations of the broker into incremental fills
  (\<^verbatim>\<open>services/kis_fill_incremental_resolver.py\<close>) over the keyed store of the last observation
  (\<^verbatim>\<open>InMemoryKisFillCumulativeStateRepository\<close> of \<^verbatim>\<open>repositories/memory.py\<close>).  The resolver sees
  the store only through the interface \<open>fill_state_repo\<close>: its lemmas are proved there once and
  reach the program's store by interpretation.
\<close>

section \<open>Decisions\<close>

datatype incremental_fill_decision_kind = NO_NEW_FILL | NEW_FILL | ANOMALY

record incremental_fill_decision =
  fd_kind :: incremental_fill_decision_kind
  fd_delta_quantity :: "rat option"
  fd_inferred_price :: "rat option"
  fd_anomaly_reason :: "string option"

definition no_new_fill :: incremental_fill_decision where
  "no_new_fill = \<lparr>fd_kind = NO_NEW_FILL, fd_delta_quantity = None, fd_inferred_price = None,
     fd_anomaly_reason = None\<rparr>"

definition new_fill :: "rat \<Rightarrow> rat \<Rightarrow> incremental_fill_decision" where
  "new_fill delta_quantity inferred_price =
     \<lparr>fd_kind = NEW_FILL, fd_delta_quantity = Some delta_quantity,
      fd_inferred_price = Some inferred_price, fd_anomaly_reason = None\<rparr>"

definition anomaly :: "string \<Rightarrow> incremental_fill_decision" where
  "anomaly reason = \<lparr>fd_kind = ANOMALY, fd_delta_quantity = None, fd_inferred_price = None,
     fd_anomaly_reason = Some reason\<rparr>"

definition infer_delta_price :: "rat \<Rightarrow> rat option \<Rightarrow> rat \<Rightarrow> rat option \<Rightarrow> rat option" where
  "infer_delta_price current_qty current_avg prior_qty prior_avg =
     (case current_avg of
        None \<Rightarrow> None
      | Some avg \<Rightarrow>
          (let delta_qty = dsub current_qty prior_qty
           in if delta_qty \<le> 0 then None
              else if prior_qty = 0 then Some avg
              else
                (case prior_avg of
                   None \<Rightarrow> Some avg
                 | Some pavg \<Rightarrow>
                     (let numerator = dsub (dmul avg current_qty) (dmul pavg prior_qty)
                      in if numerator < 0 then None else Some (ddiv numerator delta_qty)))))"

section \<open>The store of last observations\<close>

type_synonym fill_key = "uuid \<times> string \<times> string"
type_synonym fill_state_store = "fill_key \<rightharpoonup> kis_fill_cumulative_state"

definition fill_state_key :: "kis_fill_cumulative_state \<Rightarrow> fill_key" where
  "fill_state_key st = (ks_account_id st, ks_broker_name st, ks_broker_native_order_id st)"

definition fill_state_get :: "fill_state_store \<Rightarrow> fill_key \<Rightarrow> kis_fill_cumulative_state option" where
  "fill_state_get items key = items key"

definition fill_state_upsert ::
  "kis_fill_cumulative_state \<Rightarrow> fill_state_store \<Rightarrow> fill_state_store" where
  "fill_state_upsert st items =
     (let key = fill_state_key st
      in case items key of
           Some existing \<Rightarrow>
             items(key \<mapsto> existing
               \<lparr>ks_last_cumulative_filled_quantity := ks_last_cumulative_filled_quantity st,
                ks_last_average_fill_price := ks_last_average_fill_price st,
                ks_last_observed_at := ks_last_observed_at st,
                ks_last_raw_field_fingerprint := ks_last_raw_field_fingerprint st,
                ks_updated_at := ks_updated_at st\<rparr>)
         | None \<Rightarrow> items(key \<mapsto> st))"

section \<open>The resolver\<close>

text \<open>
  One observation: the arguments of \<open>resolve_incremental_fill\<close> beside the order key.
  \<open>clock\<close> is the value of \<open>datetime.now\<close>, used when no observation time is given, \<open>fresh\<close> the
  value of \<open>uuid4()\<close>, used for a first observation.
\<close>

record fill_observation =
  ob_cumulative_quantity :: rat
  ob_average_price :: "rat option"
  ob_fingerprint :: "string option"
  ob_observed_at :: "timestamp option"
  ob_clock :: timestamp
  ob_fresh :: uuid

definition observed_state ::
  "fill_key \<Rightarrow> kis_fill_cumulative_state option \<Rightarrow> fill_observation \<Rightarrow> rat option
   \<Rightarrow> kis_fill_cumulative_state" where
  "observed_state key prior ob avg =
     \<lparr>ks_state_id = (case prior of Some p \<Rightarrow> ks_state_id p | None \<Rightarrow> ob_fresh ob),
      ks_account_id = fst key, ks_broker_name = fst (snd key),
      ks_broker_native_order_id = snd (snd key),
      ks_last_cumulative_filled_quantity = ob_cumulative_quantity ob,
      ks_last_average_fill_price = avg,
      ks_last_observed_at =
        Some (case ob_observed_at ob of Some t \<Rightarrow> t | None \<Rightarrow> ob_clock ob),
      ks_last_raw_field_fingerprint = ob_fingerprint ob,
      ks_created_at = None, ks_updated_at = None\<rparr>"

definition prior_quantity :: "kis_fill_cumulative_state option \<Rightarrow> rat" where
  "prior_quantity prior =
     (case prior of Some p \<Rightarrow> ks_last_cumulative_filled_quantity p | None \<Rightarrow> 0)"

definition prior_price :: "kis_fill_cumulative_state option \<Rightarrow> rat option" where
  "prior_price prior = (case prior of Some p \<Rightarrow> ks_last_average_fill_price p | None \<Rightarrow> None)"

text \<open>The resolver over any store, given by its two operations.\<close>

definition resolve_with ::
  "('s \<Rightarrow> fill_key \<Rightarrow> kis_fill_cumulative_state option)
   \<Rightarrow> (kis_fill_cumulative_state \<Rightarrow> 's \<Rightarrow> 's)
   \<Rightarrow> fill_key \<Rightarrow> fill_observation \<Rightarrow> 's \<Rightarrow> incremental_fill_decision \<times> 's" where
  "resolve_with get upsert key ob s =
     (let prior = get s key;
          delta_qty = dsub (ob_cumulative_quantity ob) (prior_quantity prior)
      in if delta_qty = 0
         then (no_new_fill,
               upsert (observed_state key prior ob
                 (or_else (\<lambda>x. x = 0) (ob_average_price ob) (prior_price prior))) s)
         else if delta_qty < 0 then (anomaly ''negative_delta'', s)
         else
           (case infer_delta_price (ob_cumulative_quantity ob) (ob_average_price ob)
                   (prior_quantity prior) (prior_price prior) of
              None \<Rightarrow> (anomaly ''unpriceable_delta'', s)
            | Some price \<Rightarrow>
                (new_fill delta_qty price,
                 upsert (observed_state key prior ob (ob_average_price ob)) s)))"

definition resolve_incremental_fill ::
  "fill_key \<Rightarrow> fill_observation \<Rightarrow> fill_state_store \<Rightarrow> incremental_fill_decision \<times> fill_state_store"
  where
  "resolve_incremental_fill = resolve_with fill_state_get fill_state_upsert"

text \<open>Successive polls of one order, as the sync loop issues them.\<close>

fun resolve_all_with ::
  "('s \<Rightarrow> fill_key \<Rightarrow> kis_fill_cumulative_state option)
   \<Rightarrow> (kis_fill_cumulative_state \<Rightarrow> 's \<Rightarrow> 's)
   \<Rightarrow> fill_key \<Rightarrow> fill_observation list \<Rightarrow> 's \<Rightarrow> incremental_fill_decision list \<times> 's" where
  "resolve_all_with get upsert key [] s = ([], s)"
| "resolve_all_with get upsert key (ob # obs) s =
     (let (d, s') = resolve_with get upsert key ob s;
          (ds, s'') = resolve_all_with get upsert key obs s'
      in (d # ds, s''))"

definition booked_quantity :: "incremental_fill_decision \<Rightarrow> rat" where
  "booked_quantity d = (case fd_delta_quantity d of Some q \<Rightarrow> q | None \<Rightarrow> 0)"

lemmas decision_defs = no_new_fill_def new_fill_def anomaly_def

section \<open>The interface of the store\<close>

text \<open>What the resolver relies on: an upsert is seen by a get of the same key with the observed
  quantity and price, and not by a get of another key.\<close>

locale fill_state_repo =
  fixes get :: "'s \<Rightarrow> fill_key \<Rightarrow> kis_fill_cumulative_state option"
    and upsert :: "kis_fill_cumulative_state \<Rightarrow> 's \<Rightarrow> 's"
  assumes get_upsert_same: "\<exists>st'. get (upsert st s) (fill_state_key st) = Some st'
        \<and> ks_last_cumulative_filled_quantity st' = ks_last_cumulative_filled_quantity st
        \<and> ks_last_average_fill_price st' = ks_last_average_fill_price st"
    and get_upsert_other: "key \<noteq> fill_state_key st \<Longrightarrow> get (upsert st s) key = get s key"
    and upsert_keeps_identity: "get s (fill_state_key st) = Some old \<Longrightarrow>
        \<exists>st'. get (upsert st s) (fill_state_key st) = Some st' \<and> ks_state_id st' = ks_state_id old"
begin

lemma key_observed_state [simp]: "fill_state_key (observed_state key prior ob avg) = key"
  by (simp add: fill_state_key_def observed_state_def)

lemma prior_quantity_upsert [simp]:
  "prior_quantity (get (upsert (observed_state key prior ob avg) s) key) = ob_cumulative_quantity ob"
proof -
  obtain st' where "get (upsert (observed_state key prior ob avg) s) key = Some st'"
    and "ks_last_cumulative_filled_quantity st' = ob_cumulative_quantity ob"
    using get_upsert_same [of "observed_state key prior ob avg" s, unfolded key_observed_state]
    by (auto simp: observed_state_def)
  then show ?thesis by (simp add: prior_quantity_def)
qed

lemma anomaly_keeps_store:
  "fd_kind (fst (resolve_with get upsert key ob s)) = ANOMALY
   \<Longrightarrow> snd (resolve_with get upsert key ob s) = s"
  by (auto simp: resolve_with_def Let_def decision_defs split: option.splits if_splits)

lemma accepted_records_observation:
  "fd_kind (fst (resolve_with get upsert key ob s)) \<noteq> ANOMALY
   \<Longrightarrow> prior_quantity (get (snd (resolve_with get upsert key ob s)) key) = ob_cumulative_quantity ob"
  by (auto simp: resolve_with_def Let_def decision_defs split: option.splits if_splits)

lemma other_orders_untouched:
  "key' \<noteq> key \<Longrightarrow> get (snd (resolve_with get upsert key ob s)) key' = get s key'"
  by (auto simp: resolve_with_def Let_def get_upsert_other split: option.splits)

lemma repeated_observation_books_nothing:
  assumes "fd_kind (fst (resolve_with get upsert key ob s)) \<noteq> ANOMALY"
  shows "\<forall>ob'. ob_cumulative_quantity ob' = ob_cumulative_quantity ob \<longrightarrow>
    fd_kind (fst (resolve_with get upsert key ob' (snd (resolve_with get upsert key ob s))))
      = NO_NEW_FILL"
  using accepted_records_observation [OF assms]
  by (simp add: resolve_with_def [of _ _ _ _ "snd _"] dsub_def no_new_fill_def Let_def)

lemma booked_positive:
  "fd_kind (fst (resolve_with get upsert key ob s)) = NEW_FILL \<Longrightarrow>
     0 < booked_quantity (fst (resolve_with get upsert key ob s))
     \<and> booked_quantity (fst (resolve_with get upsert key ob s))
         = dsub (ob_cumulative_quantity ob) (prior_quantity (get s key))"
  by (auto simp: resolve_with_def Let_def decision_defs booked_quantity_def
      split: option.splits if_splits)

lemma booked_nonneg: "0 \<le> booked_quantity (fst (resolve_with get upsert key ob s))"
  by (auto simp: resolve_with_def Let_def decision_defs booked_quantity_def
      split: option.splits if_splits)

text \<open>Share counts are exact, so what one poll books is what the store advances by.\<close>

lemma booked_is_advance:
  assumes "\<exists>n::int. prior_quantity (get s key) = of_int n \<and> 0 \<le> n \<and> n < 10 ^ 28"
    and "\<exists>n::int. ob_cumulative_quantity ob = of_int n \<and> 0 \<le> n \<and> n < 10 ^ 28"
  shows "prior_quantity (get (snd (resolve_with get upsert key ob s)) key)
         = prior_quantity (get s key) + booked_quantity (fst (resolve_with get upsert key ob s))"
proof -
  obtain n m :: int where n: "prior_quantity (get s key) = of_int n" "0 \<le> n" "n < 10 ^ 28"
    and m: "ob_cumulative_quantity ob = of_int m" "0 \<le> m" "m < 10 ^ 28"
    using assms by blast
  have "dround (of_int (m - n)) = of_int (m - n)" by (rule dround_int) (use n m in simp)
  then have "dsub (of_int m) (of_int n) = of_int m - of_int n" by (simp add: dsub_def)
  then show ?thesis
    by (auto simp: resolve_with_def Let_def n m decision_defs booked_quantity_def
        split: option.splits if_splits)
qed

lemma total_booked:
  assumes "\<exists>n::int. prior_quantity (get s key) = of_int n \<and> 0 \<le> n \<and> n < 10 ^ 28"
    and "\<forall>ob \<in> set obs. \<exists>n::int. ob_cumulative_quantity ob = of_int n \<and> 0 \<le> n \<and> n < 10 ^ 28"
  shows "prior_quantity (get (snd (resolve_all_with get upsert key obs s)) key)
         = prior_quantity (get s key)
           + sum_list (map booked_quantity (fst (resolve_all_with get upsert key obs s)))"
  using assms
proof (induction obs arbitrary: s)
  case (Cons ob obs)
  let ?s' = "snd (resolve_with get upsert key ob s)"
  have step: "prior_quantity (get ?s' key)
      = prior_quantity (get s key) + booked_quantity (fst (resolve_with get upsert key ob s))"
    using Cons.prems by (intro booked_is_advance) simp_all
  have "\<exists>n::int. prior_quantity (get ?s' key) = of_int n \<and> 0 \<le> n \<and> n < 10 ^ 28"
    using Cons.prems accepted_records_observation [of key ob s] anomaly_keeps_store [of key ob s]
    by (cases "fd_kind (fst (resolve_with get upsert key ob s)) = ANOMALY") simp_all
  then show ?case
    using Cons.IH [of ?s'] Cons.prems(2) step by (simp add: Let_def split_beta)
qed simp

end

interpretation fill_store: fill_state_repo fill_state_get fill_state_upsert
  by unfold_locales
     (auto simp: fill_state_get_def fill_state_upsert_def Let_def split: option.splits)

definition poll_order ::
  "fill_key \<Rightarrow> fill_observation list \<Rightarrow> fill_state_store
   \<Rightarrow> incremental_fill_decision list \<times> fill_state_store" where
  "poll_order = resolve_all_with fill_state_get fill_state_upsert"

section \<open>Properties\<close>

definition ex_observation :: "rat \<Rightarrow> rat \<Rightarrow> fill_observation" where
  "ex_observation qty avg = \<lparr>ob_cumulative_quantity = qty, ob_average_price = Some avg,
     ob_fingerprint = None, ob_observed_at = None, ob_clock = 0, ob_fresh = 7\<rparr>"

definition ex_fill_key :: fill_key where
  "ex_fill_key = (1, ''koreainvestment'', ''0000117057'')"

text \<open>C37. Incremental fills add up: whatever sequence of cumulative share counts the broker reports
  for an order, falling and unpriceable ones included, the quantities booked as new fills sum to
  the last accepted cumulative quantity, so no share is booked twice and none is lost.\<close>

theorem polls_book_the_cumulative_quantity:
  assumes "\<forall>ob \<in> set obs. \<exists>n::int. ob_cumulative_quantity ob = of_int n \<and> 0 \<le> n \<and> n < 10 ^ 28"
    and "items key = None"
  shows "sum_list (map booked_quantity (fst (poll_order key obs items)))
         = prior_quantity (snd (poll_order key obs items) key)"
  using fill_store.total_booked [OF _ assms(1), of items key] assms(2)
  by (simp add: poll_order_def fill_state_get_def prior_quantity_def exI [of _ "0::int"])

theorem polls_book_the_cumulative_quantity_witness:
  "sum_list (map booked_quantity (fst (poll_order ex_fill_key
     [ex_observation 3 100, ex_observation 2 100, ex_observation 10 107] Map.empty))) = 10"
proof -
  let ?obs = "[ex_observation 3 100, ex_observation 2 100, ex_observation 10 107]"
  have "prior_quantity (snd (poll_order ex_fill_key ?obs Map.empty) ex_fill_key) = 10"
    by (simp add: poll_order_def resolve_with_def fill_state_get_def fill_state_upsert_def
        ex_observation_def ex_fill_key_def Let_def decision_defs prior_quantity_def prior_price_def
        infer_delta_price_def observed_state_def fill_state_key_def dec_eval)
  moreover have "\<forall>ob \<in> set ?obs. \<exists>n::int. ob_cumulative_quantity ob = of_int n \<and> 0 \<le> n \<and> n < 10 ^ 28"
    by (auto simp: ex_observation_def intro: exI [of _ "3::int"] exI [of _ "2::int"]
        exI [of _ "10::int"])
  ultimately show ?thesis
    using polls_book_the_cumulative_quantity [of ?obs Map.empty ex_fill_key] by simp
qed

text \<open>One observation is safe: an anomaly leaves the store as it was, any other decision records
  the observed quantity under the order's key and nothing under any other key, only a new fill
  books a quantity and that quantity is positive, and seeing an accepted quantity again books
  nothing.\<close>

theorem resolve_is_safe:
  "(case resolve_incremental_fill key ob items of (d, items') \<Rightarrow>
      (if fd_kind d = ANOMALY then items' = items
       else prior_quantity (items' key) = ob_cumulative_quantity ob
            \<and> (\<forall>ob'. ob_cumulative_quantity ob' = ob_cumulative_quantity ob
                 \<longrightarrow> fd_kind (fst (resolve_incremental_fill key ob' items')) = NO_NEW_FILL))
      \<and> (\<forall>key'. key' \<noteq> key \<longrightarrow> items' key' = items key')
      \<and> (if fd_kind d = NEW_FILL then 0 < booked_quantity d else fd_delta_quantity d = None))"
proof -
  obtain d items' where r: "resolve_incremental_fill key ob items = (d, items')" by force
  have n: "fd_kind d \<noteq> NEW_FILL \<Longrightarrow> fd_delta_quantity d = None"
    using r by (auto simp: resolve_incremental_fill_def resolve_with_def Let_def decision_defs
        split: option.splits if_splits)
  note f = fill_store.anomaly_keeps_store [of key ob items]
    fill_store.accepted_records_observation [of key ob items]
    fill_store.repeated_observation_books_nothing [of key ob items]
    fill_store.other_orders_untouched [of _ key ob items]
    fill_store.booked_positive [of key ob items]
  show ?thesis
    using f [folded resolve_incremental_fill_def, unfolded r fst_conv snd_conv fill_state_get_def] n
    by (auto simp: r)
qed

theorem resolve_is_safe_witness:
  "fd_kind (fst (resolve_incremental_fill ex_fill_key (ex_observation 2 100)
      (snd (resolve_incremental_fill ex_fill_key (ex_observation 2 100) Map.empty)))) = NO_NEW_FILL"
  using resolve_is_safe [where key = ex_fill_key and ob = "ex_observation 2 100" and items = Map.empty]
  by (simp add: resolve_incremental_fill_def resolve_with_def fill_state_get_def
      fill_state_upsert_def ex_observation_def ex_fill_key_def Let_def decision_defs
      prior_quantity_def prior_price_def infer_delta_price_def observed_state_def
      fill_state_key_def dec_eval)

end
