(* ===== verification/Rate_Limit.thy ===== *)
theory Rate_Limit
  imports Domain
begin

text \<open>
  Rate limit budgets of the broker API (\<^verbatim>\<open>brokers/rate_limit.py\<close>,
  \<^verbatim>\<open>brokers/shared_budget.py\<close>): token buckets, the file-backed bucket that several processes
  share, the budget manager with its global tier and the held-position sell reserve, the
  waiting loops, the KIS profiles and the subscription budget.

  Token counts of an \<open>OperationBucket\<close> are unbounded integers, rates and fractional tokens
  binary64 values (theory \<open>Rounding\<close>).  Every reading of the clock is an argument.
\<close>

section \<open>Operation buckets\<close>

datatype bucket_type =
  AUTH_BUCKET | ORDER_BUCKET | INQUIRY_BUCKET | RECONCILIATION_BUCKET | MARKET_DATA_BUCKET
| REST_GLOBAL_BUCKET

fun bucket_value :: "bucket_type \<Rightarrow> string" where
  "bucket_value AUTH_BUCKET = ''auth''"
| "bucket_value ORDER_BUCKET = ''order''"
| "bucket_value INQUIRY_BUCKET = ''inquiry''"
| "bucket_value RECONCILIATION_BUCKET = ''reconciliation''"
| "bucket_value MARKET_DATA_BUCKET = ''market_data''"
| "bucket_value REST_GLOBAL_BUCKET = ''global''"

record operation_bucket =
  bk_bucket_type :: bucket_type
  bk_capacity :: int
  bk_refill_rate :: rat
  bk_remaining :: int
  bk_fractional_tokens :: rat
  bk_refill_at :: timestamp

text \<open>The constructor call with the default \<open>remaining\<close>, including \<open>__post_init__\<close>.\<close>

definition new_bucket :: "bucket_type \<Rightarrow> int \<Rightarrow> rat \<Rightarrow> timestamp \<Rightarrow> operation_bucket" where
  "new_bucket ty capacity rate now =
     \<lparr>bk_bucket_type = ty, bk_capacity = capacity, bk_refill_rate = rate,
      bk_remaining = capacity, bk_fractional_tokens = 0, bk_refill_at = now\<rparr>"

text \<open>\<open>timedelta.total_seconds()\<close> of a difference in microseconds.\<close>

definition total_seconds :: "int \<Rightarrow> rat" where
  "total_seconds us = fdiv (of_int us) 1000000"

definition refill :: "timestamp \<Rightarrow> operation_bucket \<Rightarrow> operation_bucket" where
  "refill now b =
     (let elapsed = total_seconds (now - bk_refill_at b)
      in if 0 < elapsed
         then
           (let accrued = fadd (bk_fractional_tokens b) (fmul elapsed (bk_refill_rate b));
                tokens_to_add = trunc accrued
            in b\<lparr>bk_fractional_tokens := fsub accrued (of_int tokens_to_add),
                 bk_remaining :=
                   (if 0 < tokens_to_add
                    then min (bk_capacity b) (bk_remaining b + tokens_to_add)
                    else bk_remaining b),
                 bk_refill_at := now\<rparr>)
         else b)"

definition bucket_try_consume ::
  "timestamp \<Rightarrow> int \<Rightarrow> operation_bucket \<Rightarrow> bool \<times> operation_bucket" where
  "bucket_try_consume now tokens b =
     (let b = refill now b
      in if tokens \<le> bk_remaining b
         then (True, b\<lparr>bk_remaining := bk_remaining b - tokens\<rparr>)
         else (False, b))"

definition bucket_release :: "timestamp \<Rightarrow> int \<Rightarrow> operation_bucket \<Rightarrow> operation_bucket" where
  "bucket_release now tokens b =
     (let b = refill now b
      in b\<lparr>bk_remaining := min (bk_capacity b) (bk_remaining b + tokens)\<rparr>)"

definition utilization :: "timestamp \<Rightarrow> operation_bucket \<Rightarrow> rat \<times> operation_bucket" where
  "utilization now b =
     (let b = refill now b
      in (if 0 < bk_capacity b then fdiv (of_int (bk_remaining b)) (of_int (bk_capacity b)) else 0, b))"

definition is_exhausted :: "timestamp \<Rightarrow> operation_bucket \<Rightarrow> bool \<times> operation_bucket" where
  "is_exhausted now b = (let b = refill now b in (bk_remaining b \<le> 0, b))"

section \<open>The bucket shared through a file\<close>

text \<open>
  The file holds the pair of floats that \<open>f"{current_tokens},{now}"\<close> writes (the shortest
  representation reads back as the same float), nothing yet, or something that cannot be opened
  or parsed; the last case fails open.
\<close>

datatype budget_file = File_Empty | File_Tokens rat rat | File_Broken

record file_bucket =
  fb_capacity :: rat
  fb_refill_rate :: rat
  fb_file :: budget_file

text \<open>The tokens and time read back; \<open>t0\<close> is the clock reading that stands in for a missing time.\<close>

definition file_read :: "rat \<Rightarrow> file_bucket \<Rightarrow> rat \<times> rat" where
  "file_read t0 b =
     (case fb_file b of File_Tokens tokens last_time \<Rightarrow> (tokens, last_time)
      | _ \<Rightarrow> (fb_capacity b, t0))"

definition file_refilled :: "rat \<Rightarrow> rat \<Rightarrow> file_bucket \<Rightarrow> rat" where
  "file_refilled t0 now b =
     (let (current_tokens, last_time) = file_read t0 b;
          elapsed = fsub now last_time
      in min (fb_capacity b) (fadd current_tokens (fmul elapsed (fb_refill_rate b))))"

definition consume_sync :: "rat \<Rightarrow> rat \<Rightarrow> rat \<Rightarrow> file_bucket \<Rightarrow> bool \<times> file_bucket" where
  "consume_sync t0 now tokens b =
     (if fb_file b = File_Broken then (True, b)
      else
        (let current_tokens = file_refilled t0 now b
         in if tokens \<le> current_tokens
            then (True, b\<lparr>fb_file := File_Tokens (fsub current_tokens tokens) now\<rparr>)
            else (False, b\<lparr>fb_file := File_Tokens current_tokens now\<rparr>)))"

definition release_sync :: "rat \<Rightarrow> rat \<Rightarrow> rat \<Rightarrow> file_bucket \<Rightarrow> file_bucket" where
  "release_sync t0 now tokens b =
     (if fb_file b = File_Broken then b
      else b\<lparr>fb_file := File_Tokens
               (min (fb_capacity b) (fadd (file_refilled t0 now b) tokens)) now\<rparr>)"

text \<open>The best-effort view for messages and monitoring.\<close>

definition file_remaining :: "rat \<Rightarrow> file_bucket \<Rightarrow> int" where
  "file_remaining now b =
     (case fb_file b of
        File_Tokens tokens last_time \<Rightarrow>
          (let elapsed = max 0 (fsub now last_time)
           in max 0 (trunc (min (fb_capacity b)
                (fadd tokens (fmul elapsed (fb_refill_rate b))))))
      | _ \<Rightarrow> trunc (fb_capacity b))"

definition file_utilization :: "rat \<Rightarrow> file_bucket \<Rightarrow> rat" where
  "file_utilization now b =
     (let cap = trunc (fb_capacity b)
      in if cap \<le> 0 then 0 else fdiv (of_int (file_remaining now b)) (of_int cap))"

section \<open>The budget manager\<close>

datatype global_bucket = In_Process operation_bucket | File_Backed file_bucket

record budget_manager =
  bm_session_id :: uuid
  bm_order :: operation_bucket
  bm_inquiry :: operation_bucket
  bm_reconciliation :: operation_bucket
  bm_market_data :: operation_bucket
  bm_auth :: operation_bucket
  bm_global_rest :: "global_bucket option"
  bm_inquiry_block_threshold :: rat
  bm_reconciliation_reserve_min :: rat
  bm_held_sell_reserve :: int
  bm_held_sell_reserve_capacity :: int

record budget_config =
  bc_order_capacity :: int
  bc_order_refill_rate :: rat
  bc_inquiry_capacity :: int
  bc_inquiry_refill_rate :: rat
  bc_reconciliation_capacity :: int
  bc_reconciliation_refill_rate :: rat
  bc_market_data_capacity :: int
  bc_market_data_refill_rate :: rat
  bc_auth_capacity :: int
  bc_auth_refill_rate :: rat
  bc_inquiry_block_threshold :: rat
  bc_reconciliation_reserve_min :: rat
  bc_global_rest_capacity :: int
  bc_global_rest_refill_rate :: rat
  bc_held_position_sell_reserve_capacity :: int

definition default_budget_config :: budget_config where
  "default_budget_config =
     \<lparr>bc_order_capacity = 30, bc_order_refill_rate = 2,
      bc_inquiry_capacity = 60, bc_inquiry_refill_rate = 5,
      bc_reconciliation_capacity = 20, bc_reconciliation_refill_rate = 1,
      bc_market_data_capacity = 100, bc_market_data_refill_rate = 10,
      bc_auth_capacity = 5, bc_auth_refill_rate = fround (1 / 10),
      bc_inquiry_block_threshold = fround (2 / 10), bc_reconciliation_reserve_min = 1 / 2,
      bc_global_rest_capacity = 0, bc_global_rest_refill_rate = 0,
      bc_held_position_sell_reserve_capacity = 1\<rparr>"

text \<open>\<open>RateLimitBudgetManager.__init__\<close>; one clock reading per bucket.\<close>

definition new_budget_manager ::
  "(nat \<Rightarrow> timestamp) \<Rightarrow> uuid \<Rightarrow> budget_config \<Rightarrow> budget_manager" where
  "new_budget_manager now session_id c =
     \<lparr>bm_session_id = session_id,
      bm_order = new_bucket ORDER_BUCKET (bc_order_capacity c) (bc_order_refill_rate c) (now 0),
      bm_inquiry = new_bucket INQUIRY_BUCKET (bc_inquiry_capacity c) (bc_inquiry_refill_rate c) (now 1),
      bm_reconciliation =
        new_bucket RECONCILIATION_BUCKET (bc_reconciliation_capacity c)
          (bc_reconciliation_refill_rate c) (now 2),
      bm_market_data =
        new_bucket MARKET_DATA_BUCKET (bc_market_data_capacity c) (bc_market_data_refill_rate c) (now 3),
      bm_auth = new_bucket AUTH_BUCKET (bc_auth_capacity c) (bc_auth_refill_rate c) (now 4),
      bm_global_rest =
        (if 0 < bc_global_rest_capacity c
         then Some (In_Process (new_bucket REST_GLOBAL_BUCKET (bc_global_rest_capacity c)
                (bc_global_rest_refill_rate c) (now 5)))
         else None),
      bm_inquiry_block_threshold = bc_inquiry_block_threshold c,
      bm_reconciliation_reserve_min = bc_reconciliation_reserve_min c,
      bm_held_sell_reserve = max 0 (bc_held_position_sell_reserve_capacity c),
      bm_held_sell_reserve_capacity = max 0 (bc_held_position_sell_reserve_capacity c)\<rparr>"

datatype budget_error =
    Budget_Exhausted string
  | Bucket_Key_Error bucket_type

text \<open>\<open>_bucket\<close>, as the reading of a field and the writing back of the mutated object.\<close>

fun bucket_of :: "bucket_type \<Rightarrow> budget_manager \<Rightarrow> operation_bucket option" where
  "bucket_of ORDER_BUCKET m = Some (bm_order m)"
| "bucket_of INQUIRY_BUCKET m = Some (bm_inquiry m)"
| "bucket_of RECONCILIATION_BUCKET m = Some (bm_reconciliation m)"
| "bucket_of MARKET_DATA_BUCKET m = Some (bm_market_data m)"
| "bucket_of AUTH_BUCKET m = Some (bm_auth m)"
| "bucket_of REST_GLOBAL_BUCKET m = None"

fun set_bucket :: "bucket_type \<Rightarrow> operation_bucket \<Rightarrow> budget_manager \<Rightarrow> budget_manager" where
  "set_bucket ORDER_BUCKET b m = m\<lparr>bm_order := b\<rparr>"
| "set_bucket INQUIRY_BUCKET b m = m\<lparr>bm_inquiry := b\<rparr>"
| "set_bucket RECONCILIATION_BUCKET b m = m\<lparr>bm_reconciliation := b\<rparr>"
| "set_bucket MARKET_DATA_BUCKET b m = m\<lparr>bm_market_data := b\<rparr>"
| "set_bucket AUTH_BUCKET b m = m\<lparr>bm_auth := b\<rparr>"
| "set_bucket REST_GLOBAL_BUCKET b m = m"

text \<open>
  A clock gives the readings of one call in program order: \<open>ck_now\<close> those of \<open>datetime.now\<close>,
  \<open>ck_time\<close> those of \<open>time.time\<close>.  The number is the place in the code where the clock is read.
\<close>

record clock =
  ck_now :: "nat \<Rightarrow> timestamp"
  ck_time :: "nat \<Rightarrow> rat"

definition global_try_consume ::
  "timestamp \<Rightarrow> rat \<Rightarrow> rat \<Rightarrow> int \<Rightarrow> global_bucket \<Rightarrow> bool \<times> global_bucket" where
  "global_try_consume now t0 t1 tokens g =
     (case g of
        In_Process b \<Rightarrow> map_prod id In_Process (bucket_try_consume now tokens b)
      | File_Backed b \<Rightarrow> map_prod id File_Backed (consume_sync t0 t1 (of_int tokens) b))"

definition global_release ::
  "timestamp \<Rightarrow> rat \<Rightarrow> rat \<Rightarrow> int \<Rightarrow> global_bucket \<Rightarrow> global_bucket" where
  "global_release now t0 t1 tokens g =
     (case g of
        In_Process b \<Rightarrow> In_Process (bucket_release now tokens b)
      | File_Backed b \<Rightarrow> File_Backed (release_sync t0 t1 (of_int tokens) b))"

definition try_consume ::
  "timestamp \<Rightarrow> bucket_type \<Rightarrow> int \<Rightarrow> budget_manager \<Rightarrow> (budget_error + bool) \<times> budget_manager" where
  "try_consume now ty tokens m =
     (case bucket_of ty m of
        None \<Rightarrow> (Inl (Bucket_Key_Error ty), m)
      | Some b \<Rightarrow>
          (let (ok, b') = bucket_try_consume now tokens b in (Inr ok, set_bucket ty b' m)))"

definition try_consume_held_sell_reserve :: "int \<Rightarrow> budget_manager \<Rightarrow> bool \<times> budget_manager" where
  "try_consume_held_sell_reserve tokens m =
     (if bm_held_sell_reserve_capacity m \<le> 0 then (False, m)
      else if tokens \<le> bm_held_sell_reserve m
      then (True, m\<lparr>bm_held_sell_reserve := bm_held_sell_reserve m - tokens\<rparr>)
      else (False, m))"

text \<open>\<open>t1\<close> is the reading inside \<open>order._refill()\<close>, \<open>t2\<close> the one after it.\<close>

definition refill_held_sell_reserve ::
  "timestamp \<Rightarrow> timestamp \<Rightarrow> budget_manager \<Rightarrow> budget_manager" where
  "refill_held_sell_reserve t1 t2 m =
     (if bm_held_sell_reserve_capacity m \<le> 0 then m
      else
        (let m = m\<lparr>bm_order := refill t1 (bm_order m)\<rparr>;
             elapsed = total_seconds (t2 - bk_refill_at (bm_order m))
         in if 0 < elapsed
            then
              (let ratio = fdiv (of_int (bm_held_sell_reserve_capacity m))
                             (of_int (max 1 (bk_capacity (bm_order m))));
                   tokens_to_add =
                     trunc (fmul (fmul elapsed (bk_refill_rate (bm_order m))) ratio)
               in if 0 < tokens_to_add
                  then m\<lparr>bm_held_sell_reserve :=
                           min (bm_held_sell_reserve_capacity m)
                             (bm_held_sell_reserve m + tokens_to_add)\<rparr>
                  else m)
            else m))"

text \<open>
  \<open>consume_or_raise\<close> in its three tiers.  The global tier returns whether it consumed; the sell
  lane returns whether it served the request; the last tier gives the global tokens back when
  the operation bucket is empty.
\<close>

definition global_tier ::
  "clock \<Rightarrow> int \<Rightarrow> bool \<Rightarrow> budget_manager \<Rightarrow> (budget_error + bool) \<times> budget_manager" where
  "global_tier ck tokens skip_global_rest m =
     (case bm_global_rest m of
        Some g \<Rightarrow>
          if skip_global_rest then (Inr False, m)
          else
            (let (ok, g') = global_try_consume (ck_now ck 0) (ck_time ck 0) (ck_time ck 1) tokens g;
                 m' = m\<lparr>bm_global_rest := Some g'\<rparr>
             in if ok then (Inr True, m') else (Inl (Budget_Exhausted ''global''), m'))
      | None \<Rightarrow> (Inr False, m))"

definition held_sell_tier :: "clock \<Rightarrow> int \<Rightarrow> budget_manager \<Rightarrow> bool \<times> budget_manager" where
  "held_sell_tier ck tokens m =
     try_consume_held_sell_reserve tokens (refill_held_sell_reserve (ck_now ck 1) (ck_now ck 2) m)"

definition operation_tier ::
  "clock \<Rightarrow> bucket_type \<Rightarrow> int \<Rightarrow> bool \<Rightarrow> budget_manager \<Rightarrow> (budget_error + unit) \<times> budget_manager" where
  "operation_tier ck ty tokens global_consumed m =
     (case try_consume (ck_now ck 3) ty tokens m of
        (Inl e, m') \<Rightarrow> (Inl e, m')
      | (Inr True, m') \<Rightarrow> (Inr (), m')
      | (Inr False, m') \<Rightarrow>
          (Inl (Budget_Exhausted (bucket_value ty)),
           if global_consumed
           then m'\<lparr>bm_global_rest :=
                    map_option (global_release (ck_now ck 4) (ck_time ck 2) (ck_time ck 3) tokens)
                      (bm_global_rest m')\<rparr>
           else m'))"

definition consume_or_raise ::
  "clock \<Rightarrow> bucket_type \<Rightarrow> int \<Rightarrow> bool \<Rightarrow> bool \<Rightarrow> budget_manager
   \<Rightarrow> (budget_error + unit) \<times> budget_manager" where
  "consume_or_raise ck ty tokens skip_global_rest held_position_sell m =
     (case global_tier ck tokens skip_global_rest m of
        (Inl e, m1) \<Rightarrow> (Inl e, m1)
      | (Inr global_consumed, m1) \<Rightarrow>
          if held_position_sell \<and> ty = ORDER_BUCKET
          then
            (let (served, m2) = held_sell_tier ck tokens m1
             in if served then (Inr (), m2) else operation_tier ck ty tokens global_consumed m2)
          else operation_tier ck ty tokens global_consumed m1)"

text \<open>What the REST client gives back for a request that failed after its tokens were taken (the \<open>finally\<close> block of
  \<open>_request\<close>).\<close>

definition release_request_tokens ::
  "clock \<Rightarrow> bucket_type \<Rightarrow> bool \<Rightarrow> budget_manager \<Rightarrow> (budget_error + unit) \<times> budget_manager" where
  "release_request_tokens ck ty skip_global_rest m =
     (case bucket_of ty m of
        None \<Rightarrow> (Inl (Bucket_Key_Error ty), m)
      | Some b \<Rightarrow>
          (let m = set_bucket ty (bucket_release (ck_now ck 0) 1 b) m
           in (Inr (), if skip_global_rest then m
                 else m\<lparr>bm_global_rest := map_option (global_release (ck_now ck 1) (ck_time ck 0) (ck_time ck 1) 1)
                          (bm_global_rest m)\<rparr>)))"

definition reserve_reconciliation :: "timestamp \<Rightarrow> int \<Rightarrow> budget_manager \<Rightarrow> bool \<times> budget_manager" where
  "reserve_reconciliation now tokens m =
     (let (ok, b) = bucket_try_consume now tokens (bm_reconciliation m)
      in (ok, m\<lparr>bm_reconciliation := b\<rparr>))"

definition reserve_reconciliation_or_raise ::
  "timestamp \<Rightarrow> int \<Rightarrow> budget_manager \<Rightarrow> (budget_error + unit) \<times> budget_manager" where
  "reserve_reconciliation_or_raise now tokens m =
     (let (ok, m') = reserve_reconciliation now tokens m
      in (if ok then Inr () else Inl (Budget_Exhausted (bucket_value RECONCILIATION_BUCKET)), m'))"

definition can_accept_new_entries ::
  "timestamp \<Rightarrow> timestamp \<Rightarrow> budget_manager \<Rightarrow> bool \<times> budget_manager" where
  "can_accept_new_entries t1 t2 m =
     (let (u, b) = utilization t1 (bm_inquiry m); m = m\<lparr>bm_inquiry := b\<rparr>
      in if u < bm_inquiry_block_threshold m then (False, m)
         else
           (let (v, b) = utilization t2 (bm_reconciliation m); m = m\<lparr>bm_reconciliation := b\<rparr>
            in (\<not> v < bm_reconciliation_reserve_min m, m)))"

text \<open>
  \<open>snapshot\<close> as a state change: reading the utilization of each bucket refills it, the file-backed
  bucket apart, and the last entry asks \<open>can_accept_new_entries\<close>.
\<close>

definition snapshot :: "(nat \<Rightarrow> timestamp) \<Rightarrow> budget_manager \<Rightarrow> budget_manager" where
  "snapshot now m =
     (let m = m\<lparr>bm_order := snd (utilization (now 0) (bm_order m)),
                bm_inquiry := snd (utilization (now 1) (bm_inquiry m)),
                bm_reconciliation := snd (utilization (now 2) (bm_reconciliation m)),
                bm_market_data := snd (utilization (now 3) (bm_market_data m)),
                bm_auth := snd (utilization (now 4) (bm_auth m)),
                bm_global_rest :=
                  (case bm_global_rest m of
                     Some (In_Process b) \<Rightarrow> Some (In_Process (snd (utilization (now 5) b)))
                   | g \<Rightarrow> g)\<rparr>
      in snd (can_accept_new_entries (now 6) (now 7) m))"

section \<open>Waiting for a budget\<close>

text \<open>\<open>timedelta(seconds=s)\<close> in microseconds, ties to even.\<close>

definition timedelta_seconds :: "rat \<Rightarrow> int" where
  "timedelta_seconds s = round_even (s * 1000000)"

definition poll_interval :: "rat \<Rightarrow> rat" where
  "poll_interval refill_rate =
     max (fround (5 / 100)) (min (1 / 2) (fdiv (1 / 2) (max refill_rate (fround (1 / 100)))))"

text \<open>
  The polling loops.  Poll \<open>i\<close> reads the clock at \<open>2 * i + 1\<close> (inside the bucket) and
  \<open>2 * i + 2\<close> (for the deadline); \<open>others i\<close> is what the other coroutines do to the manager
  while poll \<open>i\<close> sleeps.  No code removes the global bucket while a coroutine waits on it.
\<close>

partial_function (option) wait_global_loop ::
  "clock \<Rightarrow> (nat \<Rightarrow> budget_manager \<Rightarrow> budget_manager) \<Rightarrow> timestamp \<Rightarrow> int \<Rightarrow> nat \<Rightarrow> budget_manager
   \<Rightarrow> ((budget_error + unit) \<times> budget_manager) option" where
  "wait_global_loop ck others deadline tokens i m =
     (case bm_global_rest m of
        None \<Rightarrow> Some (Inr (), m)
      | Some g \<Rightarrow>
          (case global_try_consume (ck_now ck (2 * i + 1)) (ck_time ck (2 * i)) (ck_time ck (2 * i + 1))
                  tokens g of
             (ok, g') \<Rightarrow>
               if ok then Some (Inr (), m\<lparr>bm_global_rest := Some g'\<rparr>)
               else if deadline \<le> ck_now ck (2 * i + 2)
               then Some (Inl (Budget_Exhausted ''global''), m\<lparr>bm_global_rest := Some g'\<rparr>)
               else wait_global_loop ck others deadline tokens (Suc i)
                      (others i (m\<lparr>bm_global_rest := Some g'\<rparr>))))"

definition wait_until_global_rest_available ::
  "clock \<Rightarrow> (nat \<Rightarrow> budget_manager \<Rightarrow> budget_manager) \<Rightarrow> int \<Rightarrow> rat \<Rightarrow> budget_manager
   \<Rightarrow> ((budget_error + unit) \<times> budget_manager) option" where
  "wait_until_global_rest_available ck others tokens timeout m =
     (if bm_global_rest m = None then Some (Inr (), m)
      else wait_global_loop ck others (ck_now ck 0 + timedelta_seconds timeout) tokens 0 m)"

partial_function (option) wait_bucket_loop ::
  "clock \<Rightarrow> (nat \<Rightarrow> budget_manager \<Rightarrow> budget_manager) \<Rightarrow> timestamp \<Rightarrow> bucket_type \<Rightarrow> int \<Rightarrow> nat
   \<Rightarrow> budget_manager \<Rightarrow> ((budget_error + unit) \<times> budget_manager) option" where
  "wait_bucket_loop ck others deadline ty tokens i m =
     (case bucket_of ty m of
        None \<Rightarrow> Some (Inl (Bucket_Key_Error ty), m)
      | Some b \<Rightarrow>
          if tokens \<le> bk_remaining (refill (ck_now ck (2 * i + 1)) b)
          then Some (Inr (), set_bucket ty (refill (ck_now ck (2 * i + 1)) b) m)
          else if deadline \<le> ck_now ck (2 * i + 2)
          then Some (Inl (Budget_Exhausted (bucket_value ty)),
                     set_bucket ty (refill (ck_now ck (2 * i + 1)) b) m)
          else wait_bucket_loop ck others deadline ty tokens (Suc i)
                 (others i (set_bucket ty (refill (ck_now ck (2 * i + 1)) b) m)))"

definition wait_until_bucket_available ::
  "clock \<Rightarrow> (nat \<Rightarrow> budget_manager \<Rightarrow> budget_manager) \<Rightarrow> bucket_type \<Rightarrow> int \<Rightarrow> rat \<Rightarrow> budget_manager
   \<Rightarrow> ((budget_error + unit) \<times> budget_manager) option" where
  "wait_until_bucket_available ck others ty tokens timeout m =
     wait_bucket_loop ck others (ck_now ck 0 + timedelta_seconds timeout) ty tokens 0 m"

section \<open>KIS profiles\<close>

definition kis_env_is_paper :: "string \<Rightarrow> bool" where
  "kis_env_is_paper kis_env \<longleftrightarrow>
     str_replace ''real'' ''live'' (str_lower (str_strip kis_env)) = ''paper''"

definition paper_config :: "int \<Rightarrow> budget_config" where
  "paper_config total_rps = default_budget_config
     \<lparr>bc_auth_capacity := max 1 (total_rps * 1),
      bc_auth_refill_rate := fmul (fround (17 / 1000)) (of_int total_rps),
      bc_order_capacity := max 3 (total_rps * 3),
      bc_order_refill_rate := fmul 1 (of_int total_rps),
      bc_inquiry_capacity := max 1 (total_rps * 1),
      bc_inquiry_refill_rate := fmul (1 / 2) (of_int total_rps),
      bc_market_data_capacity := max 1 (total_rps * 1),
      bc_market_data_refill_rate := fmul (1 / 2) (of_int total_rps),
      bc_reconciliation_capacity := max 1 (10 * total_rps),
      bc_reconciliation_refill_rate := fmul 1 (of_int total_rps),
      bc_global_rest_capacity := total_rps,
      bc_global_rest_refill_rate := fmul 1 (of_int total_rps)\<rparr>"

definition live_config :: "int \<Rightarrow> budget_config" where
  "live_config total_rps =
     (let scale = fdiv (of_int total_rps) 15
      in default_budget_config
           \<lparr>bc_auth_capacity := max 1 (trunc (fmul 5 scale)),
            bc_auth_refill_rate := fmul (fround (1 / 10)) scale,
            bc_order_capacity := max 1 (trunc (fmul 5 scale)),
            bc_order_refill_rate := fmul 2 scale,
            bc_inquiry_capacity := max 1 (trunc (fmul 10 scale)),
            bc_inquiry_refill_rate := fmul 5 scale,
            bc_market_data_capacity := max 1 (trunc (fmul 20 scale)),
            bc_market_data_refill_rate := fmul 5 scale,
            bc_reconciliation_capacity := max 1 (trunc (fmul 5 scale)),
            bc_reconciliation_refill_rate := fmul 1 scale,
            bc_global_rest_capacity := total_rps,
            bc_global_rest_refill_rate := fmul 1 (of_int total_rps)\<rparr>)"

text \<open>\<open>shared\<close> is the state of the shared budget file when one is configured.\<close>

definition build_kis_budget_manager ::
  "(nat \<Rightarrow> timestamp) \<Rightarrow> uuid \<Rightarrow> string \<Rightarrow> int \<Rightarrow> int \<Rightarrow> budget_file option \<Rightarrow> budget_manager" where
  "build_kis_budget_manager now session_id kis_env real_rest_rps paper_rest_rps shared =
     (if kis_env_is_paper kis_env
      then
        (let total_rps = max 1 paper_rest_rps;
             manager = new_budget_manager now session_id (paper_config total_rps)
         in case shared of
              None \<Rightarrow> manager
            | Some file \<Rightarrow>
                manager\<lparr>bm_global_rest := Some (File_Backed
                  \<lparr>fb_capacity = of_int total_rps, fb_refill_rate = fmul 1 (of_int total_rps),
                   fb_file = file\<rparr>)\<rparr>)
      else new_budget_manager now session_id (live_config (max 1 real_rest_rps)))"

section \<open>Subscription budget\<close>

record subscription_budget =
  sb_max_subscriptions :: int
  sb_critical_limit :: int
  sb_optional_limit :: int
  sb_current_critical :: int
  sb_current_optional :: int

definition total_used :: "subscription_budget \<Rightarrow> int" where
  "total_used b = sb_current_critical b + sb_current_optional b"

definition can_subscribe_critical :: "subscription_budget \<Rightarrow> bool" where
  "can_subscribe_critical b \<longleftrightarrow>
     sb_current_critical b < sb_critical_limit b \<and> total_used b < sb_max_subscriptions b"

definition can_subscribe_optional :: "subscription_budget \<Rightarrow> bool" where
  "can_subscribe_optional b \<longleftrightarrow>
     sb_current_optional b < sb_optional_limit b \<and> total_used b < sb_max_subscriptions b"

definition subscribe_critical :: "subscription_budget \<Rightarrow> bool \<times> subscription_budget" where
  "subscribe_critical b =
     (if \<not> can_subscribe_critical b then (False, b)
      else (True, b\<lparr>sb_current_critical := sb_current_critical b + 1\<rparr>))"

definition subscribe_optional :: "subscription_budget \<Rightarrow> bool \<times> subscription_budget" where
  "subscribe_optional b =
     (if \<not> can_subscribe_optional b then (False, b)
      else (True, b\<lparr>sb_current_optional := sb_current_optional b + 1\<rparr>))"

definition unsubscribe :: "bool \<Rightarrow> bool \<Rightarrow> subscription_budget \<Rightarrow> subscription_budget" where
  "unsubscribe critical optional b =
     (let b = (if critical \<and> 0 < sb_current_critical b
               then b\<lparr>sb_current_critical := sb_current_critical b - 1\<rparr> else b)
      in if optional \<and> 0 < sb_current_optional b
         then b\<lparr>sb_current_optional := sb_current_optional b - 1\<rparr> else b)"

section \<open>Bucket lemmas\<close>

definition bucket_ok :: "operation_bucket \<Rightarrow> bool" where
  "bucket_ok b \<longleftrightarrow> 0 \<le> bk_remaining b \<and> bk_remaining b \<le> bk_capacity b
     \<and> 0 \<le> bk_refill_rate b \<and> 0 \<le> bk_fractional_tokens b"

lemma bucket_okD:
  "bucket_ok b \<Longrightarrow> 0 \<le> bk_remaining b"
  "bucket_ok b \<Longrightarrow> bk_remaining b \<le> bk_capacity b"
  by (simp_all add: bucket_ok_def)

lemma refill_fields [simp]:
  "bk_capacity (refill t b) = bk_capacity b"
  "bk_refill_rate (refill t b) = bk_refill_rate b"
  by (simp_all add: refill_def Let_def)

lemma refill_remaining_ge:
  "bk_remaining b \<le> bk_capacity b \<Longrightarrow> bk_remaining b \<le> bk_remaining (refill t b)"
  by (simp add: refill_def Let_def)

lemma refill_remaining_le:
  "bk_remaining b \<le> bk_capacity b \<Longrightarrow> bk_remaining (refill t b) \<le> bk_capacity b"
  by (simp add: refill_def Let_def)

lemma accrued_nonneg:
  "0 \<le> f \<Longrightarrow> 0 \<le> e \<Longrightarrow> 0 \<le> r \<Longrightarrow> 0 \<le> fadd f (fmul e r)"
  by (simp add: fadd_def fmul_def flt.rnd_nonneg)

lemma fractional_nonneg: "0 \<le> x \<Longrightarrow> 0 \<le> fsub x (of_int (trunc x))"
  using trunc_le [of x] by (simp add: fsub_def flt.rnd_nonneg)

lemma refill_ok [simp, intro]:
  assumes "bucket_ok b"
  shows "bucket_ok (refill t b)"
proof -
  have "0 \<le> bk_fractional_tokens (refill t b)"
    using assms
    by (auto simp: bucket_ok_def refill_def Let_def intro!: fractional_nonneg accrued_nonneg)
  then show ?thesis
    using assms refill_remaining_ge [of b t] refill_remaining_le [of b t]
    by (simp add: bucket_ok_def)
qed

lemma try_consume_ok:
  "bucket_ok b \<Longrightarrow> 0 \<le> k \<Longrightarrow> bucket_ok (snd (bucket_try_consume t k b))"
  using refill_ok [of b t] by (auto simp: bucket_try_consume_def Let_def bucket_ok_def)

lemma release_ok: "bucket_ok b \<Longrightarrow> 0 \<le> k \<Longrightarrow> bucket_ok (bucket_release t k b)"
  using refill_ok [of b t] by (auto simp: bucket_release_def Let_def bucket_ok_def)

lemma utilization_ok: "bucket_ok b \<Longrightarrow> bucket_ok (snd (utilization t b))"
  by (simp add: utilization_def Let_def)

lemma new_bucket_ok: "0 \<le> cap \<Longrightarrow> 0 \<le> rate \<Longrightarrow> bucket_ok (new_bucket ty cap rate now)"
  by (simp add: bucket_ok_def new_bucket_def)

lemma refused_consume:
  "bucket_try_consume t k b = (False, b') \<Longrightarrow> b' = refill t b \<and> bk_remaining b' < k"
  by (auto simp: bucket_try_consume_def Let_def split: if_splits)

lemma granted_consume:
  "bucket_try_consume t k b = (True, b') \<Longrightarrow>
     b' = (refill t b)\<lparr>bk_remaining := bk_remaining (refill t b) - k\<rparr> \<and> k \<le> bk_remaining (refill t b)"
  by (auto simp: bucket_try_consume_def Let_def split: if_splits)

text \<open>Giving tokens back makes a consume undone, refills in between included.\<close>

lemma release_undoes_consume:
  assumes "bk_remaining b \<le> bk_capacity b" and "0 \<le> k" and "bucket_try_consume t k b = (True, b')"
  shows "bucket_release t' k b' = refill t' (refill t b)"
proof -
  let ?c = "refill t b"
  have c: "bk_remaining ?c \<le> bk_capacity ?c" using assms(1) refill_remaining_le by simp
  have "b' = ?c\<lparr>bk_remaining := bk_remaining ?c - k\<rparr>" using granted_consume [OF assms(3)] by simp
  then show ?thesis using c assms(2) by (simp add: bucket_release_def refill_def [of t'] Let_def)
qed

section \<open>The interface of a token bucket\<close>

text \<open>
  What the budget tiers rely on: tokens stay between zero and the capacity as long as time does
  not run backwards, and a request above the capacity is never granted.  Both kinds of bucket
  provide it.
\<close>

datatype 't bucket_op = Take 't int | Give 't int

locale token_bucket =
  fixes take :: "'t \<Rightarrow> int \<Rightarrow> 'b \<Rightarrow> bool \<times> 'b"
    and give :: "'t \<Rightarrow> int \<Rightarrow> 'b \<Rightarrow> 'b"
    and level :: "'b \<Rightarrow> rat"
    and cap :: "'b \<Rightarrow> rat"
    and ok :: "'b \<Rightarrow> bool"
    and in_time :: "'t \<Rightarrow> 'b \<Rightarrow> bool"
  assumes level_bounds: "ok b \<Longrightarrow> 0 \<le> level b \<and> level b \<le> cap b"
    and take_ok: "ok b \<Longrightarrow> in_time t b \<Longrightarrow> 0 \<le> k \<Longrightarrow> ok (snd (take t k b))"
    and give_ok: "ok b \<Longrightarrow> in_time t b \<Longrightarrow> 0 \<le> k \<Longrightarrow> ok (give t k b)"
    and take_cap: "cap (snd (take t k b)) = cap b"
    and give_cap: "cap (give t k b) = cap b"
    and granted_fits: "ok b \<Longrightarrow> in_time t b \<Longrightarrow> fst (take t k b) \<Longrightarrow> of_int k \<le> cap b"
begin

fun run_op :: "'t bucket_op \<Rightarrow> 'b \<Rightarrow> 'b" where
  "run_op (Take t k) b = snd (take t k b)"
| "run_op (Give t k) b = give t k b"

fun valid_op :: "'t bucket_op \<Rightarrow> 'b \<Rightarrow> bool" where
  "valid_op (Take t k) b \<longleftrightarrow> in_time t b \<and> 0 \<le> k"
| "valid_op (Give t k) b \<longleftrightarrow> in_time t b \<and> 0 \<le> k"

fun run_ops :: "'t bucket_op list \<Rightarrow> 'b \<Rightarrow> 'b" where
  "run_ops [] b = b"
| "run_ops (x # xs) b = run_ops xs (run_op x b)"

fun valid_ops :: "'t bucket_op list \<Rightarrow> 'b \<Rightarrow> bool" where
  "valid_ops [] b = True"
| "valid_ops (x # xs) b \<longleftrightarrow> valid_op x b \<and> valid_ops xs (run_op x b)"

lemma run_op_ok: "ok b \<Longrightarrow> valid_op x b \<Longrightarrow> ok (run_op x b) \<and> cap (run_op x b) = cap b"
  by (cases x) (auto simp: take_ok give_ok take_cap give_cap)

lemma run_ops_ok: "ok b \<Longrightarrow> valid_ops xs b \<Longrightarrow> ok (run_ops xs b) \<and> cap (run_ops xs b) = cap b"
  by (induction xs arbitrary: b) (auto simp: run_op_ok)

lemma run_ops_level:
  "ok b \<Longrightarrow> valid_ops xs b \<Longrightarrow> 0 \<le> level (run_ops xs b) \<and> level (run_ops xs b) \<le> cap b"
  using run_ops_ok [of b xs] level_bounds [of "run_ops xs b"] by auto

end

interpretation op_bucket: token_bucket bucket_try_consume bucket_release
  "\<lambda>b. of_int (bk_remaining b)" "\<lambda>b. of_int (bk_capacity b)" bucket_ok "\<lambda>_ _. True"
proof
  fix b t k
  show "bucket_ok b \<Longrightarrow> 0 \<le> rat_of_int (bk_remaining b) \<and> rat_of_int (bk_remaining b) \<le> of_int (bk_capacity b)"
    by (simp add: bucket_ok_def)
  show "bucket_ok b \<Longrightarrow> fst (bucket_try_consume t k b) \<Longrightarrow> rat_of_int k \<le> of_int (bk_capacity b)"
    using refill_remaining_le [of b t]
    by (auto simp: bucket_try_consume_def Let_def bucket_ok_def split: if_splits)
qed (simp_all add: try_consume_ok release_ok, simp_all add: bucket_try_consume_def bucket_release_def Let_def)

text \<open>
  The file-backed bucket: its content must be readable, hold a float between zero and the
  capacity, and time must not be earlier than the stored time; the reading that replaces a
  missing time precedes the other.
\<close>

definition file_level :: "file_bucket \<Rightarrow> rat" where
  "file_level b = (case fb_file b of File_Tokens x _ \<Rightarrow> x | _ \<Rightarrow> fb_capacity b)"

definition file_ok :: "file_bucket \<Rightarrow> bool" where
  "file_ok b \<longleftrightarrow> fb_file b \<noteq> File_Broken \<and> 0 \<le> fb_refill_rate b
     \<and> fround (fb_capacity b) = fb_capacity b
     \<and> 0 \<le> file_level b \<and> file_level b \<le> fb_capacity b \<and> fround (file_level b) = file_level b"

definition file_in_time :: "rat \<times> rat \<Rightarrow> file_bucket \<Rightarrow> bool" where
  "file_in_time t b \<longleftrightarrow> snd (file_read (fst t) b) \<le> snd t"

definition file_take :: "rat \<times> rat \<Rightarrow> int \<Rightarrow> file_bucket \<Rightarrow> bool \<times> file_bucket" where
  "file_take t k b = consume_sync (fst t) (snd t) (of_int k) b"

definition file_give :: "rat \<times> rat \<Rightarrow> int \<Rightarrow> file_bucket \<Rightarrow> file_bucket" where
  "file_give t k b = release_sync (fst t) (snd t) (of_int k) b"

lemma file_refilled_bounds:
  assumes "file_ok b" and "file_in_time t b"
  shows "0 \<le> file_refilled (fst t) (snd t) b" "file_refilled (fst t) (snd t) b \<le> fb_capacity b"
    "fround (file_refilled (fst t) (snd t) b) = file_refilled (fst t) (snd t) b"
proof -
  obtain x l where r: "file_read (fst t) b = (x, l)" by force
  have x: "0 \<le> x" "l \<le> snd t" "0 \<le> fb_capacity b"
    using assms r by (auto simp: file_ok_def file_level_def file_read_def file_in_time_def
        split: budget_file.splits)
  have "0 \<le> fmul (fsub (snd t) l) (fb_refill_rate b)"
    using x assms(1) by (simp add: fmul_def fsub_def file_ok_def flt.rnd_nonneg)
  then have "0 \<le> fadd x (fmul (fsub (snd t) l) (fb_refill_rate b))"
    using x by (simp add: fadd_def flt.rnd_nonneg)
  then show "0 \<le> file_refilled (fst t) (snd t) b" "file_refilled (fst t) (snd t) b \<le> fb_capacity b"
    using x by (simp_all add: file_refilled_def r)
  show "fround (file_refilled (fst t) (snd t) b) = file_refilled (fst t) (snd t) b"
    using assms(1) by (simp add: file_refilled_def r min_def fadd_def flt.rnd_idem file_ok_def Let_def)
qed

interpretation shared_bucket: token_bucket file_take file_give file_level fb_capacity file_ok file_in_time
proof
  fix b t k
  show "file_ok b \<Longrightarrow> 0 \<le> file_level b \<and> file_level b \<le> fb_capacity b" by (simp add: file_ok_def)
  show "fb_capacity (snd (file_take t k b)) = fb_capacity b"
    by (simp add: file_take_def consume_sync_def Let_def)
  show "fb_capacity (file_give t k b) = fb_capacity b"
    by (simp add: file_give_def release_sync_def)
  assume b: "file_ok b" "file_in_time t b"
  note r = file_refilled_bounds [OF b]
  show "fst (file_take t k b) \<Longrightarrow> of_int k \<le> fb_capacity b"
    using b r by (auto simp: file_take_def consume_sync_def Let_def file_ok_def split: if_splits)
  assume k: "0 \<le> k"
  have "fsub x (of_int k) \<le> x" if "fround x = x" for x
    using that k unfolding fsub_def by (intro flt.rnd_le_repr) (simp_all add: flt.repr_def)
  then show "file_ok (snd (file_take t k b))"
    using b(1) r
    by (auto simp: file_take_def consume_sync_def Let_def file_ok_def file_level_def fsub_def
        flt.rnd_idem intro: flt.rnd_nonneg order_trans)
  have "0 \<le> fadd (file_refilled (fst t) (snd t) b) (of_int k)"
    using r k by (simp add: fadd_def flt.rnd_nonneg)
  then show "file_ok (file_give t k b)"
    using b(1) r
    by (auto simp: file_give_def release_sync_def file_ok_def file_level_def min_def fadd_def
        flt.rnd_idem)
qed

text \<open>Whole tokens come off and go back without rounding.\<close>

lemma fround_minus_int:
  assumes "fround x = x" "of_int k \<le> x" "0 \<le> k" "x < 2 ^ 53"
  shows "fround (x - of_int k) = x - of_int k"
proof -
  obtain m e where x: "x = of_int m * 2 powi e" "\<bar>m\<bar> < 2 ^ 53" "- 1074 \<le> e"
    using round_sig_coeff [of 2 53 "- 1074" x] assms(1) by (auto simp: fround_def)
  have x0: "0 \<le> x" using assms(2,3) by (meson of_int_0_le_iff order_trans)
  obtain m' e' where y: "x - of_int k = of_int m' * 2 powi e'" "\<bar>m'\<bar> < 2 ^ 53" "- 1074 \<le> e'"
  proof (cases "e \<le> 0")
    case True
    have p: "0 < (2 :: rat) powi e" by (simp add: zero_less_power_int)
    have "(2 :: rat) powi e * 2 ^ nat (- e) = 1"
      using True by (simp add: power_int_def flip: power_mult_distrib)
    then have "x - of_int k = (of_int m - of_int k * 2 ^ nat (- e)) * 2 powi e"
      by (simp add: x(1) left_diff_distrib mult.assoc mult.commute [of "2 ^ nat (- e)"])
    then have d: "x - of_int k = of_int (m - k * 2 ^ nat (- e)) * 2 powi e" by simp
    have "0 \<le> x - of_int k" using assms(2) by simp
    then have "(0 :: rat) \<le> of_int (m - k * 2 ^ nat (- e))"
      using p unfolding d by (simp add: zero_le_mult_iff)
    then have "0 \<le> m - k * 2 ^ nat (- e)" by (simp only: of_int_0_le_iff)
    moreover have "0 \<le> k * 2 ^ nat (- e)" using assms(3) by simp
    ultimately have "\<bar>m - k * 2 ^ nat (- e)\<bar> < 2 ^ 53" using x(2) by linarith
    with that d x(3) show thesis by blast
  next
    case False
    then have i: "x = of_int (m * 2 ^ nat e)" by (simp add: x(1) power_int_def)
    have "(of_int (m * 2 ^ nat e) :: rat) < of_int (2 ^ 53)" using assms(4) i by simp
    then have "m * 2 ^ nat e < 2 ^ 53" by (simp only: of_int_less_iff)
    moreover have "(of_int k :: rat) \<le> of_int (m * 2 ^ nat e)" using assms(2) i by simp
    then have "k \<le> m * 2 ^ nat e" by (simp only: of_int_le_iff)
    ultimately have "\<bar>m * 2 ^ nat e - k\<bar> < 2 ^ 53" using assms(3) by linarith
    moreover have "x - of_int k = of_int (m * 2 ^ nat e - k) * 2 powi 0" by (simp add: i)
    ultimately show thesis using that [of "m * 2 ^ nat e - k" 0] by simp
  qed
  show ?thesis unfolding y(1) using round_sig_representable [of 2 m' 53 "- 1074" e'] y(2,3) by (simp add: fround_def)
qed

lemma refilled_ge_level:
  assumes "file_ok b" "file_in_time t b"
  shows "file_level b \<le> file_refilled (fst t) (snd t) b"
proof -
  obtain x l where r: "file_read (fst t) b = (x, l)" by force
  have x: "x = file_level b" "l \<le> snd t"
    using assms r by (auto simp: file_ok_def file_level_def file_read_def file_in_time_def split: budget_file.splits)
  have "0 \<le> fmul (fsub (snd t) l) (fb_refill_rate b)"
    using x assms(1) by (simp add: fmul_def fsub_def file_ok_def flt.rnd_nonneg)
  then have "x \<le> fadd x (fmul (fsub (snd t) l) (fb_refill_rate b))"
    unfolding fadd_def using assms(1) x(1) by (intro flt.rnd_ge_repr) (simp_all add: flt.repr_def file_ok_def)
  then show ?thesis using assms(1) x(1) by (simp add: file_refilled_def r file_ok_def)
qed

text \<open>Giving tokens back to the file undoes a consume, rounding and refills in between included.\<close>

lemma file_release_undoes_consume:
  assumes "file_ok b" "file_in_time (t0, t1) b" "t1 \<le> t3" "0 \<le> k" "fb_capacity b < 2 ^ 53"
    and "consume_sync t0 t1 (of_int k) b = (True, b')"
  shows "file_level b \<le> file_level (release_sync t2 t3 (of_int k) b')"
proof -
  let ?x = "file_refilled t0 t1 b"
  note r = file_refilled_bounds [OF assms(1,2), simplified]
  have nb: "fb_file b \<noteq> File_Broken" using assms(1) by (simp add: file_ok_def)
  then have k: "of_int k \<le> ?x" and b': "b' = b\<lparr>fb_file := File_Tokens (fsub ?x (of_int k)) t1\<rparr>"
    using assms(6) by (auto simp: consume_sync_def Let_def split: if_splits)
  have x: "fround (?x - of_int k) = ?x - of_int k"
    using r(2,3) k assms(4,5) by (intro fround_minus_int) auto
  have ok: "file_ok b'"
    using shared_bucket.take_ok [OF assms(1,2,4)] assms(6) by (simp add: file_take_def)
  have "file_in_time (t2, t3) b'" using assms(3) by (simp add: b' file_in_time_def file_read_def)
  from refilled_ge_level [OF ok this]
  have "?x - of_int k \<le> file_refilled t2 t3 b'" by (simp add: b' file_level_def fsub_def x)
  then have "?x \<le> fadd (file_refilled t2 t3 b') (of_int k)"
    unfolding fadd_def using r(3) by (intro flt.rnd_ge_repr) (simp_all add: flt.repr_def)
  moreover have "file_level b \<le> ?x" using refilled_ge_level [OF assms(1,2)] by simp
  moreover have "file_level (release_sync t2 t3 (of_int k) b')
      = min (fb_capacity b) (fadd (file_refilled t2 t3 b') (of_int k))"
    by (simp add: release_sync_def b' file_level_def)
  ultimately show ?thesis using r(2) by simp
qed

section \<open>Manager lemmas\<close>

fun global_ok :: "global_bucket option \<Rightarrow> bool" where
  "global_ok (Some (In_Process b)) = bucket_ok b"
| "global_ok _ = True"

definition manager_ok :: "budget_manager \<Rightarrow> bool" where
  "manager_ok m \<longleftrightarrow> bucket_ok (bm_order m) \<and> bucket_ok (bm_inquiry m)
     \<and> bucket_ok (bm_reconciliation m) \<and> bucket_ok (bm_market_data m) \<and> bucket_ok (bm_auth m)
     \<and> global_ok (bm_global_rest m)
     \<and> 0 \<le> bm_held_sell_reserve m \<and> bm_held_sell_reserve m \<le> bm_held_sell_reserve_capacity m"

lemma bucket_of_set_bucket:
  "bucket_of ty (set_bucket ty' b m) =
     (if ty = ty' \<and> ty \<noteq> REST_GLOBAL_BUCKET then Some b else bucket_of ty m)"
  by (cases ty; cases ty') simp_all

lemma set_bucket_other [simp]:
  "bm_global_rest (set_bucket ty b m) = bm_global_rest m"
  "bm_held_sell_reserve (set_bucket ty b m) = bm_held_sell_reserve m"
  "bm_held_sell_reserve_capacity (set_bucket ty b m) = bm_held_sell_reserve_capacity m"
  by (cases ty; simp)+

lemma bucket_of_global_update [simp]: "bucket_of ty (m\<lparr>bm_global_rest := g\<rparr>) = bucket_of ty m"
  by (cases ty) simp_all

lemma bucket_of_reserve_update [simp]: "bucket_of ty (m\<lparr>bm_held_sell_reserve := n\<rparr>) = bucket_of ty m"
  by (cases ty) simp_all

lemma manager_ok_iff:
  "manager_ok m \<longleftrightarrow> (\<forall>ty b. bucket_of ty m = Some b \<longrightarrow> bucket_ok b) \<and> global_ok (bm_global_rest m)
     \<and> 0 \<le> bm_held_sell_reserve m \<and> bm_held_sell_reserve m \<le> bm_held_sell_reserve_capacity m"
proof -
  have "(\<forall>ty b. bucket_of ty m = Some b \<longrightarrow> bucket_ok b) \<longleftrightarrow>
      bucket_ok (bm_order m) \<and> bucket_ok (bm_inquiry m) \<and> bucket_ok (bm_reconciliation m)
      \<and> bucket_ok (bm_market_data m) \<and> bucket_ok (bm_auth m)"
  proof (intro iffI allI impI)
    assume a: "\<forall>ty b. bucket_of ty m = Some b \<longrightarrow> bucket_ok b"
    have "bucket_of ty m = Some b \<Longrightarrow> bucket_ok b" for ty b using a by blast
    from this [of ORDER_BUCKET] this [of INQUIRY_BUCKET] this [of RECONCILIATION_BUCKET]
      this [of MARKET_DATA_BUCKET] this [of AUTH_BUCKET]
    show "bucket_ok (bm_order m) \<and> bucket_ok (bm_inquiry m) \<and> bucket_ok (bm_reconciliation m)
      \<and> bucket_ok (bm_market_data m) \<and> bucket_ok (bm_auth m)" by simp
  next
    fix ty b
    assume "bucket_ok (bm_order m) \<and> bucket_ok (bm_inquiry m) \<and> bucket_ok (bm_reconciliation m)
      \<and> bucket_ok (bm_market_data m) \<and> bucket_ok (bm_auth m)" "bucket_of ty m = Some b"
    then show "bucket_ok b" by (cases ty) auto
  qed
  then show ?thesis by (auto simp: manager_ok_def)
qed

text \<open>What a step may do to one bucket, to the global tier and to the reserve.\<close>

lemma try_consume_cases:
  obtains "ty = REST_GLOBAL_BUCKET" "try_consume now ty k m = (Inl (Bucket_Key_Error ty), m)"
  | b ok b' where "bucket_of ty m = Some b" "bucket_try_consume now k b = (ok, b')"
      "ty \<noteq> REST_GLOBAL_BUCKET" "try_consume now ty k m = (Inr ok, set_bucket ty b' m)"
proof (cases "bucket_of ty m")
  case None
  then have "ty = REST_GLOBAL_BUCKET" by (cases ty) simp_all
  with None that(1) show ?thesis by (simp add: try_consume_def)
next
  case (Some b)
  then have "ty \<noteq> REST_GLOBAL_BUCKET" by auto
  with Some that(2) show ?thesis by (cases "bucket_try_consume now k b") (simp add: try_consume_def)
qed

lemma set_bucket_manager_ok: "manager_ok m \<Longrightarrow> bucket_ok b \<Longrightarrow> manager_ok (set_bucket ty b m)"
  unfolding manager_ok_iff by (auto simp: bucket_of_set_bucket split: if_splits)

lemma try_consume_manager_ok:
  assumes "manager_ok m" "0 \<le> k"
  shows "manager_ok (snd (try_consume now ty k m))"
proof (cases rule: try_consume_cases [of ty now k m])
  case (2 b ok b')
  then have "bucket_ok b" using assms(1) unfolding manager_ok_iff by blast
  then have "bucket_ok b'" using try_consume_ok [of b k now] 2 assms(2) by simp
  then show ?thesis using 2 set_bucket_manager_ok assms(1) by simp
qed (use assms in simp)

lemma global_update_manager_ok:
  "manager_ok m \<Longrightarrow> global_ok g \<Longrightarrow> manager_ok (m\<lparr>bm_global_rest := g\<rparr>)"
  by (simp add: manager_ok_def)

lemma global_try_consume_ok:
  "global_ok (Some g) \<Longrightarrow> 0 \<le> k \<Longrightarrow> global_ok (Some (snd (global_try_consume t a b k g)))"
  by (cases g) (simp_all add: global_try_consume_def try_consume_ok)

lemma global_release_ok:
  "global_ok (Some g) \<Longrightarrow> 0 \<le> k \<Longrightarrow> global_ok (Some (global_release t a b k g))"
  by (cases g) (simp_all add: global_release_def release_ok)

lemma global_tier_manager_ok:
  assumes "manager_ok m" "0 \<le> k"
  shows "manager_ok (snd (global_tier ck k skip m))"
proof (cases "bm_global_rest m")
  case (Some g)
  have "global_ok (Some g)" using assms(1) Some by (simp add: manager_ok_def)
  then show ?thesis
    using Some assms global_try_consume_ok [of g k]
    by (auto simp: global_tier_def Let_def split_beta intro!: global_update_manager_ok)
qed (use assms in \<open>simp add: global_tier_def\<close>)

lemma refill_reserve_manager_ok:
  assumes "manager_ok m"
  shows "manager_ok (refill_held_sell_reserve t1 t2 m)"
  using assms by (auto simp: refill_held_sell_reserve_def Let_def manager_ok_def)

lemma held_sell_tier_manager_ok:
  assumes "manager_ok m" "0 \<le> k"
  shows "manager_ok (snd (held_sell_tier ck k m))"
  using refill_reserve_manager_ok [OF assms(1), of "ck_now ck 1" "ck_now ck 2"] assms(2)
  by (auto simp: held_sell_tier_def try_consume_held_sell_reserve_def manager_ok_def Let_def)

lemma operation_tier_manager_ok:
  assumes "manager_ok m" "0 \<le> k"
  shows "manager_ok (snd (operation_tier ck ty k c m))"
proof -
  let ?m = "snd (try_consume (ck_now ck 3) ty k m)"
  have m: "manager_ok ?m" using try_consume_manager_ok [OF assms] .
  then have g: "global_ok (bm_global_rest ?m)" by (simp add: manager_ok_def)
  have "global_ok (map_option (global_release t a b k) (bm_global_rest ?m))" for t a b
    using g global_release_ok assms(2) by (cases "bm_global_rest ?m") simp_all
  then have "manager_ok (?m\<lparr>bm_global_rest :=
      map_option (global_release t a b k) (bm_global_rest ?m)\<rparr>)" for t a b
    using m by (intro global_update_manager_ok)
  with m show ?thesis
    by (auto simp: operation_tier_def split: prod.split sum.split bool.split)
qed

lemma consume_or_raise_manager_ok:
  assumes "manager_ok m" "0 \<le> k"
  shows "manager_ok (snd (consume_or_raise ck ty k skip held m))"
proof -
  let ?g = "global_tier ck k skip m"
  have g: "manager_ok (snd ?g)" using global_tier_manager_ok [OF assms] .
  have h: "manager_ok (snd (held_sell_tier ck k (snd ?g)))"
    using held_sell_tier_manager_ok [OF g assms(2)] .
  note o = operation_tier_manager_ok [OF g assms(2)] operation_tier_manager_ok [OF h assms(2)]
  show ?thesis
    using g h o by (auto simp: consume_or_raise_def Let_def split: prod.split sum.split)
qed

section \<open>Reachable managers\<close>

text \<open>One step of any coroutine on the manager: a call, or one poll of a waiting loop.\<close>

inductive budget_step :: "budget_manager \<Rightarrow> budget_manager \<Rightarrow> bool" where
  step_consume: "0 \<le> k \<Longrightarrow> budget_step m (snd (consume_or_raise ck ty k skip held m))"
| step_try: "0 \<le> k \<Longrightarrow> budget_step m (snd (try_consume now ty k m))"
| step_reserve: "0 \<le> k \<Longrightarrow> budget_step m (snd (reserve_reconciliation_or_raise now k m))"
| step_check: "budget_step m (snd (can_accept_new_entries t1 t2 m))"
| step_snapshot: "budget_step m (snapshot readings m)"
| step_poll_global: "bm_global_rest m = Some g \<Longrightarrow> 0 \<le> k \<Longrightarrow>
    budget_step m (m\<lparr>bm_global_rest := Some (snd (global_try_consume now t0 t1 k g))\<rparr>)"
| step_poll_bucket: "bucket_of ty m = Some b \<Longrightarrow> budget_step m (set_bucket ty (refill now b) m)"
| step_release: "budget_step m (snd (release_request_tokens ck ty skip m))"

lemma reserve_manager_ok:
  "manager_ok m \<Longrightarrow> 0 \<le> k \<Longrightarrow> manager_ok (snd (reserve_reconciliation_or_raise now k m))"
  using try_consume_ok [of "bm_reconciliation m" k now]
  by (simp add: reserve_reconciliation_or_raise_def reserve_reconciliation_def manager_ok_def split_beta)

lemma check_manager_ok: "manager_ok m \<Longrightarrow> manager_ok (snd (can_accept_new_entries t1 t2 m))"
  using utilization_ok [of "bm_reconciliation m" t2] utilization_ok [of "bm_inquiry m" t1]
  by (simp add: can_accept_new_entries_def manager_ok_def split_beta Let_def)

lemma snapshot_manager_ok: "manager_ok m \<Longrightarrow> manager_ok (snapshot now m)"
  unfolding snapshot_def Let_def
  by (rule check_manager_ok)
     (auto simp: manager_ok_def utilization_ok split: option.split global_bucket.split)

lemma release_request_manager_ok:
  assumes "manager_ok m"
  shows "manager_ok (snd (release_request_tokens ck ty skip m))"
proof (cases "bucket_of ty m")
  case (Some b)
  let ?m = "set_bucket ty (bucket_release (ck_now ck 0) 1 b) m"
  have "bucket_ok b" using assms Some unfolding manager_ok_iff by blast
  then have m: "manager_ok ?m" using assms by (intro set_bucket_manager_ok release_ok) simp_all
  then have "global_ok (map_option (global_release t u v 1) (bm_global_rest ?m))" for t u v
    using global_release_ok [of _ 1 t u v] by (cases "bm_global_rest ?m") (simp_all add: manager_ok_def)
  with m show ?thesis
    using Some by (simp add: release_request_tokens_def Let_def global_update_manager_ok)
qed (use assms in \<open>simp add: release_request_tokens_def\<close>)

lemma budget_step_manager_ok: "budget_step m m' \<Longrightarrow> manager_ok m \<Longrightarrow> manager_ok m'"
proof (induction rule: budget_step.induct)
  case (step_poll_global m g k now t0 t1)
  then have "global_ok (Some g)" by (simp add: manager_ok_def)
  with step_poll_global show ?case by (intro global_update_manager_ok global_try_consume_ok)
next
  case (step_poll_bucket ty m b now)
  then have "bucket_ok b" unfolding manager_ok_iff by blast
  with step_poll_bucket show ?case by (intro set_bucket_manager_ok refill_ok)
qed (simp_all add: consume_or_raise_manager_ok try_consume_manager_ok reserve_manager_ok check_manager_ok
    snapshot_manager_ok release_request_manager_ok)

definition config_ok :: "budget_config \<Rightarrow> bool" where
  "config_ok c \<longleftrightarrow> 0 \<le> bc_order_capacity c \<and> 0 \<le> bc_order_refill_rate c
     \<and> 0 \<le> bc_inquiry_capacity c \<and> 0 \<le> bc_inquiry_refill_rate c
     \<and> 0 \<le> bc_reconciliation_capacity c \<and> 0 \<le> bc_reconciliation_refill_rate c
     \<and> 0 \<le> bc_market_data_capacity c \<and> 0 \<le> bc_market_data_refill_rate c
     \<and> 0 \<le> bc_auth_capacity c \<and> 0 \<le> bc_auth_refill_rate c
     \<and> 0 \<le> bc_global_rest_refill_rate c"

lemma new_manager_ok: "config_ok c \<Longrightarrow> manager_ok (new_budget_manager now sid c)"
  by (simp add: manager_ok_def new_budget_manager_def config_ok_def new_bucket_ok)

lemma kis_config_ok:
  assumes "1 \<le> total_rps"
  shows "config_ok (paper_config total_rps)" "config_ok (live_config total_rps)"
proof -
  have "0 \<le> fdiv (of_int total_rps) 15"
    using assms by (simp add: fdiv_def flt.rnd_nonneg)
  then show "config_ok (paper_config total_rps)" "config_ok (live_config total_rps)"
    using assms
    by (simp_all add: config_ok_def paper_config_def live_config_def default_budget_config_def
        fmul_def flt.rnd_nonneg Let_def le_max_iff_disj)
qed

lemma kis_manager_ok: "manager_ok (build_kis_budget_manager now sid env real_rps paper_rps shared)"
proof -
  have "config_ok (paper_config (max 1 paper_rps))" "config_ok (live_config (max 1 real_rps))"
    by (simp_all add: kis_config_ok)
  then show ?thesis
    by (auto simp: build_kis_budget_manager_def Let_def new_manager_ok
        intro: global_update_manager_ok split: option.split)
qed

section \<open>Effects of a request\<close>

text \<open>A request leaves every bucket but its own as it was.\<close>

lemma global_tier_buckets: "bucket_of ty (snd (global_tier ck k skip m)) = bucket_of ty m"
  by (simp add: global_tier_def Let_def split_beta split: option.split)

lemma refill_reserve_buckets:
  "ty \<noteq> ORDER_BUCKET \<Longrightarrow> bucket_of ty (refill_held_sell_reserve t1 t2 m) = bucket_of ty m"
  by (cases ty) (simp_all add: refill_held_sell_reserve_def Let_def)

lemma held_sell_tier_buckets:
  "ty \<noteq> ORDER_BUCKET \<Longrightarrow> bucket_of ty (snd (held_sell_tier ck k m)) = bucket_of ty m"
  by (simp add: held_sell_tier_def try_consume_held_sell_reserve_def refill_reserve_buckets)

lemma try_consume_buckets:
  "ty' \<noteq> ty \<Longrightarrow> bucket_of ty' (snd (try_consume now ty k m)) = bucket_of ty' m"
  by (cases rule: try_consume_cases [of ty now k m]) (simp_all add: bucket_of_set_bucket)

lemma operation_tier_buckets:
  "bucket_of ty' (snd (operation_tier ck ty k c m)) = bucket_of ty' (snd (try_consume (ck_now ck 3) ty k m))"
  by (auto simp: operation_tier_def split: prod.split sum.split bool.split)

lemma consume_cases:
  obtains
    (global_refused) e m1 where "global_tier ck k skip m = (Inl e, m1)"
      "consume_or_raise ck ty k skip held m = (Inl e, m1)"
  | (from_reserve) c m1 m2 where "global_tier ck k skip m = (Inr c, m1)" "held" "ty = ORDER_BUCKET"
      "held_sell_tier ck k m1 = (True, m2)" "consume_or_raise ck ty k skip held m = (Inr (), m2)"
  | (after_reserve) c m1 m2 where "global_tier ck k skip m = (Inr c, m1)" "held" "ty = ORDER_BUCKET"
      "held_sell_tier ck k m1 = (False, m2)"
      "consume_or_raise ck ty k skip held m = operation_tier ck ty k c m2"
  | (direct) c m1 where "global_tier ck k skip m = (Inr c, m1)" "\<not> (held \<and> ty = ORDER_BUCKET)"
      "consume_or_raise ck ty k skip held m = operation_tier ck ty k c m1"
proof -
  obtain r m1 where g: "global_tier ck k skip m = (r, m1)" by force
  obtain s m2 where h: "held_sell_tier ck k m1 = (s, m2)" by force
  show ?thesis
  proof (cases r)
    case (Inl e)
    then show ?thesis using global_refused g by (simp add: consume_or_raise_def)
  next
    case (Inr c)
    show ?thesis
    proof (cases "held \<and> ty = ORDER_BUCKET")
      case True
      then show ?thesis
        using from_reserve [of c m1 m2] after_reserve [of c m1 m2] g h Inr
        by (cases s) (simp_all add: consume_or_raise_def)
    qed (use direct [of c m1] g Inr in \<open>auto simp: consume_or_raise_def\<close>)
  qed
qed

lemma consume_or_raise_buckets:
  assumes "ty' \<noteq> ty"
  shows "bucket_of ty' (snd (consume_or_raise ck ty k skip held m)) = bucket_of ty' m"
proof -
  have o: "bucket_of ty' (snd (operation_tier ck ty k c m)) = bucket_of ty' m" for c m
    using try_consume_buckets [OF assms] by (simp add: operation_tier_buckets)
  note g = global_tier_buckets [of ty' ck k skip m]
  show ?thesis
  proof (cases rule: consume_cases [of ck k skip m ty held])
    case (from_reserve c m1 m2)
    then show ?thesis using held_sell_tier_buckets [of ty' ck k m1] g assms by simp
  next
    case (after_reserve c m1 m2)
    then show ?thesis using held_sell_tier_buckets [of ty' ck k m1] g o assms by simp
  qed (use g o in simp_all)
qed

text \<open>A refused request leaves every pool at least as full as it was.\<close>

fun global_level :: "global_bucket \<Rightarrow> rat" where
  "global_level (In_Process b) = of_int (bk_remaining b)"
| "global_level (File_Backed f) = file_level f"

definition pools_le :: "budget_manager \<Rightarrow> budget_manager \<Rightarrow> bool" where
  "pools_le m m' \<longleftrightarrow>
     bm_held_sell_reserve m \<le> bm_held_sell_reserve m'
     \<and> (\<forall>ty b b'. bucket_of ty m = Some b \<longrightarrow> bucket_of ty m' = Some b'
          \<longrightarrow> bk_remaining b \<le> bk_remaining b')
     \<and> (\<forall>g. bm_global_rest m = Some g \<longrightarrow>
          (\<exists>g'. bm_global_rest m' = Some g' \<and> global_level g \<le> global_level g'))"

text \<open>The shared file, when there is one, cannot be read or holds a sane number of tokens, and the clock does not
  run backwards during the request.\<close>

definition file_in_order :: "clock \<Rightarrow> budget_manager \<Rightarrow> bool" where
  "file_in_order ck m \<longleftrightarrow> (\<forall>f. bm_global_rest m = Some (File_Backed f) \<longrightarrow>
     fb_file f = File_Broken
     \<or> file_ok f \<and> fb_capacity f < 2 ^ 53 \<and> file_in_time (ck_time ck 0, ck_time ck 1) f \<and> ck_time ck 1 \<le> ck_time ck 3)"

lemma reserve_refill_le:
  assumes "manager_ok m"
  shows "bm_held_sell_reserve m \<le> bm_held_sell_reserve (refill_held_sell_reserve t1 t2 m)"
    and "bm_global_rest (refill_held_sell_reserve t1 t2 m) = bm_global_rest m"
    and "bk_remaining (bm_order m) \<le> bk_remaining (bm_order (refill_held_sell_reserve t1 t2 m))"
  using assms refill_remaining_ge [of "bm_order m" t1]
  by (auto simp: refill_held_sell_reserve_def Let_def manager_ok_def bucket_ok_def)

lemma held_tier_refused:
  assumes "manager_ok m" and "held_sell_tier ck k m = (False, m')"
  shows "m' = refill_held_sell_reserve (ck_now ck 1) (ck_now ck 2) m"
  using assms(2) by (auto simp: held_sell_tier_def try_consume_held_sell_reserve_def split: if_splits)

lemma operation_tier_refused:
  assumes "operation_tier ck ty k c m = (Inl e, m')" and "ty \<noteq> REST_GLOBAL_BUCKET"
  obtains b where "bucket_of ty m = Some b" "bucket_of ty m' = Some (refill (ck_now ck 3) b)"
    "bm_held_sell_reserve m' = bm_held_sell_reserve m"
    "bm_global_rest m' = (if c then map_option
       (global_release (ck_now ck 4) (ck_time ck 2) (ck_time ck 3) k) (bm_global_rest m)
       else bm_global_rest m)"
    "e = Budget_Exhausted (bucket_value ty)"
proof (cases rule: try_consume_cases [of ty "ck_now ck 3" k m])
  case (2 b ok b')
  then have "\<not> ok" using assms(1) by (auto simp: operation_tier_def)
  then have "b' = refill (ck_now ck 3) b" using 2 refused_consume [of "ck_now ck 3" k b b'] by simp
  then show ?thesis
    using that [of b] 2 \<open>\<not> ok\<close> assms(1)
    by (auto simp: operation_tier_def bucket_of_set_bucket)
qed (use assms in simp)

lemma global_release_undoes_consume:
  assumes "global_ok (Some g)" "0 \<le> k" "global_try_consume (ck_now ck 0) (ck_time ck 0) (ck_time ck 1) k g = (True, g1)"
    and "file_in_order ck m" "bm_global_rest m = Some g"
  shows "global_level g \<le> global_level (global_release t (ck_time ck 2) (ck_time ck 3) k g1)"
proof (cases g)
  case (In_Process b)
  then have b: "bk_remaining b \<le> bk_capacity b" using assms(1) by (simp add: bucket_ok_def)
  obtain b1 where b1: "bucket_try_consume (ck_now ck 0) k b = (True, b1)" "g1 = In_Process b1"
    using assms(3) In_Process
    by (cases "bucket_try_consume (ck_now ck 0) k b") (auto simp: global_try_consume_def)
  have "bk_remaining b \<le> bk_remaining (refill t (refill (ck_now ck 0) b))"
    using refill_remaining_ge [OF b, of "ck_now ck 0"] refill_remaining_le [OF b, of "ck_now ck 0"]
      refill_remaining_ge [of "refill (ck_now ck 0) b" t] by simp
  then show ?thesis
    using release_undoes_consume [OF b assms(2) b1(1), of t] by (simp add: In_Process b1(2) global_release_def)
next
  case (File_Backed f)
  obtain f1 where f1: "consume_sync (ck_time ck 0) (ck_time ck 1) (of_int k) f = (True, f1)" "g1 = File_Backed f1"
    using assms(3) File_Backed
    by (cases "consume_sync (ck_time ck 0) (ck_time ck 1) (of_int k) f") (auto simp: global_try_consume_def)
  show ?thesis
  proof (cases "fb_file f = File_Broken")
    case True
    then show ?thesis using f1 by (simp add: File_Backed global_release_def consume_sync_def release_sync_def)
  next
    case False
    then show ?thesis
      using assms(2,4,5) f1 file_release_undoes_consume [OF _ _ _ assms(2) _ f1(1)]
      by (simp add: File_Backed global_release_def file_in_order_def)
  qed
qed

lemma global_tier_granted:
  assumes "global_tier ck k skip m = (Inr c, m1)" and "bm_global_rest m = Some g"
    and "manager_ok m" and "0 \<le> k" and "file_in_order ck m"
  shows "\<exists>g'. (if c then map_option (global_release t (ck_time ck 2) (ck_time ck 3) k) (bm_global_rest m1)
      else bm_global_rest m1) = Some g' \<and> global_level g \<le> global_level g'"
proof -
  have "global_ok (Some g)" using assms(2,3) by (simp add: manager_ok_def)
  moreover have "skip \<and> \<not> c \<and> m1 = m \<or> \<not> skip \<and> c \<and> (\<exists>g1.
      global_try_consume (ck_now ck 0) (ck_time ck 0) (ck_time ck 1) k g = (True, g1) \<and> bm_global_rest m1 = Some g1)"
    using assms(1,2)
    by (cases "global_try_consume (ck_now ck 0) (ck_time ck 0) (ck_time ck 1) k g")
       (auto simp: global_tier_def Let_def split: if_splits)
  ultimately show ?thesis using global_release_undoes_consume [OF _ assms(4) _ assms(5,2)] assms(2) by auto
qed

lemma global_tier_reserve:
  "bm_held_sell_reserve (snd (global_tier ck k skip m)) = bm_held_sell_reserve m"
  by (simp add: global_tier_def Let_def split_beta split: option.split)

lemma global_tier_refused:
  assumes "global_tier ck k skip m = (Inl e, m1)" and "manager_ok m" and "file_in_order ck m"
  shows "pools_le m m1"
proof -
  obtain g g' where g: "bm_global_rest m = Some g" "m1 = m\<lparr>bm_global_rest := Some g'\<rparr>"
    "global_try_consume (ck_now ck 0) (ck_time ck 0) (ck_time ck 1) k g = (False, g')"
    using assms(1) by (auto simp: global_tier_def Let_def split: option.splits if_splits prod.splits)
  have "global_level g \<le> global_level g'"
  proof (cases g)
    case (In_Process b)
    then obtain b' where "g' = In_Process b'" "b' = refill (ck_now ck 0) b"
      using g(3) refused_consume [of "ck_now ck 0" k b]
      by (auto simp: global_try_consume_def map_prod_def split: prod.splits)
    then show ?thesis
      using g In_Process assms(2) refill_remaining_ge [of b "ck_now ck 0"]
      by (auto simp: manager_ok_def bucket_ok_def)
  next
    case (File_Backed f)
    then have "fb_file f \<noteq> File_Broken" "g' = File_Backed (f\<lparr>fb_file :=
        File_Tokens (file_refilled (ck_time ck 0) (ck_time ck 1) f) (ck_time ck 1)\<rparr>)"
      using g(3) by (auto simp: global_try_consume_def consume_sync_def Let_def split: if_splits)
    then show ?thesis
      using File_Backed g(1) assms(3) refilled_ge_level [of f "(ck_time ck 0, ck_time ck 1)"]
      by (auto simp: file_in_order_def file_level_def)
  qed
  then show ?thesis using g by (auto simp: pools_le_def)
qed

lemma refused_keeps_pools:
  assumes ok: "manager_ok m" and k: "0 \<le> k" and ty: "ty \<noteq> REST_GLOBAL_BUCKET" and files: "file_in_order ck m"
    and r: "consume_or_raise ck ty k skip held m = (Inl e, m')"
  shows "pools_le m m'"
proof -
  have op: "pools_le m m'"
    if g: "global_tier ck k skip m = (Inr c, m1)" and o: "operation_tier ck ty k c m2 = (Inl e, m')"
      and m2: "bm_global_rest m2 = bm_global_rest m1" "bm_held_sell_reserve m \<le> bm_held_sell_reserve m2"
      and b2: "\<And>b b2. bucket_of ty m = Some b \<Longrightarrow> bucket_of ty m2 = Some b2
        \<Longrightarrow> bk_remaining b \<le> bk_remaining b2 \<and> bk_remaining b2 \<le> bk_capacity b2" for c m1 m2
  proof -
    obtain b where b: "bucket_of ty m2 = Some b" "bucket_of ty m' = Some (refill (ck_now ck 3) b)"
      "bm_held_sell_reserve m' = bm_held_sell_reserve m2"
      "bm_global_rest m' = (if c then map_option
         (global_release (ck_now ck 4) (ck_time ck 2) (ck_time ck 3) k) (bm_global_rest m2)
         else bm_global_rest m2)"
      by (rule operation_tier_refused [OF o ty])
    have "bk_remaining x \<le> bk_remaining x'" if "bucket_of ty' m = Some x" "bucket_of ty' m' = Some x'"
      for ty' x x'
    proof (cases "ty' = ty")
      case True
      then show ?thesis using that b2 b(1,2) refill_remaining_ge [of b "ck_now ck 3"] by fastforce
    next
      case False
      then show ?thesis using that consume_or_raise_buckets [of ty' ty ck k skip held m] r by simp
    qed
    moreover have "\<exists>g'. bm_global_rest m' = Some g' \<and> global_level x \<le> global_level g'"
      if "bm_global_rest m = Some x" for x
      using global_tier_granted [OF g that ok k files] unfolding b(4) m2(1) .
    ultimately show ?thesis using b(3) m2(2) unfolding pools_le_def by auto
  qed
  have ok_b: "\<And>b. bucket_of ty m = Some b \<Longrightarrow> bk_remaining b \<le> bk_capacity b"
    using ok unfolding manager_ok_iff bucket_ok_def by blast
  show ?thesis
  proof (cases rule: consume_cases [of ck k skip m ty held])
    case (global_refused e m1)
    then show ?thesis using global_tier_refused ok files r by simp
  next
    case (direct c m1)
    then show ?thesis
      using op [of c m1 m1] r global_tier_reserve [of ck k skip m] global_tier_buckets [of ty ck k skip m] ok_b
      by simp
  next
    case (after_reserve c m1 m2)
    have ok1: "manager_ok m1" using global_tier_manager_ok [OF ok k, of ck skip] after_reserve(1) by simp
    have m2: "m2 = refill_held_sell_reserve (ck_now ck 1) (ck_now ck 2) m1"
      using held_tier_refused [OF ok1 after_reserve(4)] .
    then have ok2: "bk_remaining (bm_order m2) \<le> bk_capacity (bm_order m2)"
      using refill_reserve_manager_ok [OF ok1] by (simp add: manager_ok_def bucket_ok_def)
    show ?thesis
      using op [of c m1 m2] r after_reserve reserve_refill_le [OF ok1] m2 ok2
        global_tier_reserve [of ck k skip m] global_tier_buckets [of ty ck k skip m]
      by (metis bucket_of.simps(1) option.inject snd_conv)
  qed (use r in simp)
qed

section \<open>Waiting ends\<close>

lemma poll_interval_pos: "0 < poll_interval r"
proof -
  have "0 < fround (5 / 100)" by code_simp
  then show ?thesis by (simp add: poll_interval_def less_max_iff_disj)
qed

lemma wait_global_loop_returns:
  assumes "\<And>i. ck_now ck (2 * i + 2) < ck_now ck (2 * Suc i + 2)"
    and "deadline \<le> ck_now ck (2 * i + 2) + int n"
  shows "\<exists>r. wait_global_loop ck others deadline k i m = Some r"
  using assms(2)
proof (induction n arbitrary: i m)
  case 0
  then show ?case
    by (subst wait_global_loop.simps) (auto split: option.split prod.split)
next
  case (Suc n)
  have "\<exists>r. wait_global_loop ck others deadline k (Suc i) m' = Some r" for m'
    using Suc.IH [of "Suc i"] Suc.prems assms(1) [of i] by simp
  then show ?case
    by (subst wait_global_loop.simps) (auto split: option.split prod.split)
qed

lemma wait_bucket_loop_returns:
  assumes "\<And>i. ck_now ck (2 * i + 2) < ck_now ck (2 * Suc i + 2)"
    and "deadline \<le> ck_now ck (2 * i + 2) + int n"
  shows "\<exists>r. wait_bucket_loop ck others deadline ty k i m = Some r"
  using assms(2)
proof (induction n arbitrary: i m)
  case 0
  then show ?case by (subst wait_bucket_loop.simps) (auto split: option.split)
next
  case (Suc n)
  have "\<exists>r. wait_bucket_loop ck others deadline ty k (Suc i) m' = Some r" for m'
    using Suc.IH [of "Suc i"] Suc.prems assms(1) [of i] by simp
  then show ?case by (subst wait_bucket_loop.simps) (auto split: option.split)
qed

text \<open>A sleep takes at least the poll interval, and the clock does not run backwards.\<close>

definition sleeps_at_least :: "rat \<Rightarrow> clock \<Rightarrow> bool" where
  "sleeps_at_least rate ck \<longleftrightarrow> (\<forall>i. ck_now ck (2 * i + 1) \<le> ck_now ck (2 * i + 2)
     \<and> poll_interval rate * 1000000 \<le> of_int (ck_now ck (2 * i + 3) - ck_now ck (2 * i + 2)))"

lemma sleeps_progress:
  assumes "sleeps_at_least rate ck"
  shows "ck_now ck (2 * i + 2) < ck_now ck (2 * Suc i + 2)"
proof -
  have "0 < poll_interval rate * 1000000" using poll_interval_pos by simp
  also have "\<dots> \<le> of_int (ck_now ck (2 * i + 3) - ck_now ck (2 * i + 2))"
    using assms unfolding sleeps_at_least_def by blast
  finally have "ck_now ck (2 * i + 2) < ck_now ck (2 * i + 3)" by simp
  also have "2 * i + 3 = 2 * Suc i + 1" by simp
  also have "ck_now ck (2 * Suc i + 1) \<le> ck_now ck (2 * Suc i + 2)"
    using assms unfolding sleeps_at_least_def by blast
  finally show ?thesis .
qed

section \<open>Properties\<close>

definition ex_clock :: clock where
  "ex_clock = \<lparr>ck_now = (\<lambda>_. 0), ck_time = (\<lambda>_. 0)\<rparr>"

definition ex_manager :: budget_manager where
  "ex_manager = new_budget_manager (\<lambda>_. 0) 1 default_budget_config"

text \<open>A manager whose processes share a file.\<close>

definition ex_shared_manager :: budget_manager where
  "ex_shared_manager = (build_kis_budget_manager (\<lambda>_. 0) 1 ''paper'' 18 3 None)\<lparr>bm_global_rest :=
     Some (File_Backed \<lparr>fb_capacity = 5, fb_refill_rate = 1, fb_file = File_Tokens 4 0\<rparr>)\<rparr>"

lemma ex_file_float: "fround 5 = 5" "fround 4 = 4"
  by code_simp+

text \<open>C16. No schedule breaks the budgets: from a manager built for any KIS environment and any
  configured rates, whatever interleaving of requests, releases, reservations, checks and polls runs, every
  bucket and the in-process global bucket stay between zero and their capacity, and so does the
  held-position sell reserve.\<close>

theorem budgets_stay_bounded:
  assumes "budget_step\<^sup>*\<^sup>* (build_kis_budget_manager now sid env real_rps paper_rps shared) m"
  shows "manager_ok m"
  using assms
  by (induction rule: rtranclp_induct) (auto intro: kis_manager_ok budget_step_manager_ok)

theorem budgets_stay_bounded_witness:
  "manager_ok (snd (consume_or_raise ex_clock ORDER_BUCKET 2 False True
     (build_kis_budget_manager (\<lambda>_. 0) 1 ''paper'' 18 3 None)))"
  by (rule budgets_stay_bounded, rule r_into_rtranclp, rule step_consume) simp

text \<open>Budgets are separate: a request charges at most its own operation bucket, so whatever is
  requested from the other buckets, the reconciliation reserve is exactly as it was.\<close>

theorem request_touches_only_its_bucket:
  assumes "ty' \<noteq> ty"
  shows "bucket_of ty' (snd (consume_or_raise ck ty k skip held m)) = bucket_of ty' m"
  using assms by (rule consume_or_raise_buckets)

theorem request_touches_only_its_bucket_witness:
  "bucket_of RECONCILIATION_BUCKET (snd (consume_or_raise ex_clock ORDER_BUCKET 1 False True ex_manager))
   = bucket_of RECONCILIATION_BUCKET ex_manager"
  by (rule request_touches_only_its_bucket) simp

text \<open>C31. A refused request costs nothing: when a request for an operation bucket raises, every bucket, the
  sell reserve and the global pool hold at least as many tokens as before, since global tokens taken
  in the first tier are given back, be the global pool in the process or in the file that processes share (no
  other process touching it in between, the clock not running backwards, fewer than \<open>2 ^ 53\<close> tokens).  A
  request for the global bucket itself is excluded: it raises a key error after the global tokens are
  taken.\<close>

theorem refused_request_costs_nothing:
  assumes "manager_ok m" and "0 \<le> k" and "ty \<noteq> REST_GLOBAL_BUCKET" and "file_in_order ck m"
    and "consume_or_raise ck ty k skip held m = (Inl e, m')"
  shows "pools_le m m'"
  using assms by (rule refused_keeps_pools)

theorem refused_request_costs_nothing_witness:
  "fst (global_tier ex_clock 4 False ex_shared_manager) = Inr True
   \<and> pools_le ex_shared_manager (snd (consume_or_raise ex_clock INQUIRY_BUCKET 4 False False ex_shared_manager))"
proof -
  have g: "fst (global_tier ex_clock 4 False ex_shared_manager) = Inr True" by code_simp
  have "fst (consume_or_raise ex_clock INQUIRY_BUCKET 4 False False ex_shared_manager) = Inl (Budget_Exhausted ''inquiry'')"
    by code_simp
  then have r: "consume_or_raise ex_clock INQUIRY_BUCKET 4 False False ex_shared_manager
      = (Inl (Budget_Exhausted ''inquiry''), snd (consume_or_raise ex_clock INQUIRY_BUCKET 4 False False ex_shared_manager))"
    by (metis prod.collapse)
  have f: "file_in_order ex_clock ex_shared_manager"
    by (simp add: file_in_order_def ex_shared_manager_def file_ok_def file_level_def file_in_time_def file_read_def
        ex_clock_def ex_file_float)
  have "manager_ok ex_shared_manager"
    unfolding ex_shared_manager_def by (intro global_update_manager_ok kis_manager_ok) simp
  from refused_request_costs_nothing [OF this _ _ f r] g show ?thesis by simp
qed

text \<open>A request for the global bucket itself takes the tokens of the first tier and then fails to find the bucket.\<close>

theorem global_bucket_request_keeps_tokens:
  assumes "bm_global_rest m = Some g" "global_try_consume (ck_now ck 0) (ck_time ck 0) (ck_time ck 1) k g = (True, g')"
  shows "consume_or_raise ck REST_GLOBAL_BUCKET k False held m
    = (Inl (Bucket_Key_Error REST_GLOBAL_BUCKET), m\<lparr>bm_global_rest := Some g'\<rparr>)"
  using assms by (simp add: consume_or_raise_def global_tier_def operation_tier_def try_consume_def)

text \<open>C33. Waiting always ends: both waiting loops return, with a token or with the exhausted error,
  for every timeout and whatever the other coroutines do to the buckets meanwhile, provided each
  sleep takes at least the poll interval.\<close>

theorem waiting_ends:
  assumes "sleeps_at_least rate ck"
  shows "(\<exists>r. wait_until_global_rest_available ck others k timeout m = Some r)
    \<and> (\<exists>r. wait_until_bucket_available ck others ty k timeout m = Some r)"
proof -
  let ?d = "ck_now ck 0 + timedelta_seconds timeout"
  have "?d \<le> ck_now ck (2 * 0 + 2) + int (nat (?d - ck_now ck (2 * 0 + 2)))" by simp
  from wait_global_loop_returns [OF sleeps_progress [OF assms] this, of others k m]
    wait_bucket_loop_returns [OF sleeps_progress [OF assms] this, of others ty k m]
  show ?thesis
    by (simp add: wait_until_global_rest_available_def wait_until_bucket_available_def)
qed

theorem waiting_ends_witness:
  "\<exists>r. wait_until_bucket_available \<lparr>ck_now = (\<lambda>i. 500000 * int i), ck_time = (\<lambda>_. 0)\<rparr> (\<lambda>_ m. m)
     INQUIRY_BUCKET 70 30 ex_manager = Some r"
proof -
  have "poll_interval 5 * 1000000 \<le> 500000" by code_simp
  then have "sleeps_at_least 5 \<lparr>ck_now = (\<lambda>i. 500000 * int i), ck_time = (\<lambda>_. 0)\<rparr>"
    by (auto simp: sleeps_at_least_def)
  from waiting_ends [OF this] show ?thesis by blast
qed

text \<open>Processes sharing the budget file keep it sane: any sequence of consume and release calls
  of any number of processes, each atomic under the file lock and in clock order, leaves between
  zero and the capacity many tokens in the file.\<close>

theorem shared_file_stays_bounded:
  assumes "file_ok b" and "shared_bucket.valid_ops ops b"
  shows "0 \<le> file_level (shared_bucket.run_ops ops b)
    \<and> file_level (shared_bucket.run_ops ops b) \<le> fb_capacity b"
  using assms by (rule shared_bucket.run_ops_level)

theorem shared_file_stays_bounded_witness:
  "file_level (shared_bucket.run_ops [Take (0, 0) 1, Take (0, 1) 1, Give (1, 1) 1]
     \<lparr>fb_capacity = 1, fb_refill_rate = 1, fb_file = File_Empty\<rparr>) \<le> 1"
proof -
  let ?b = "\<lparr>fb_capacity = 1, fb_refill_rate = 1, fb_file = File_Empty\<rparr>"
  have "file_ok ?b" by (simp add: file_ok_def file_level_def flt.rnd_one)
  moreover have "shared_bucket.valid_ops [Take (0, 0) 1, Take (0, 1) 1, Give (1, 1) 1] ?b"
    by (simp add: file_in_time_def file_read_def file_take_def consume_sync_def Let_def
        file_refilled_def fadd_def fsub_def fmul_def flt.rnd_one)
  ultimately show ?thesis using shared_file_stays_bounded [of ?b] by fastforce
qed

text \<open>The held-position sell reserve does not recover: the refill first lets the ORDER bucket
  advance its refill time to now and then measures the time since that moment, so however long
  the session was idle the reserve gains nothing unless a whole token accrues between two
  adjacent clock readings.\<close>

theorem held_sell_reserve_does_not_recover:
  assumes "bk_refill_at (bm_order m) \<le> t1" and "total_seconds (t1 - bk_refill_at (bm_order m)) > 0"
    and "fmul (fmul (total_seconds (t2 - t1)) (bk_refill_rate (bm_order m)))
           (fdiv (of_int (bm_held_sell_reserve_capacity m)) (of_int (max 1 (bk_capacity (bm_order m))))) < 1"
  shows "bm_held_sell_reserve (refill_held_sell_reserve t1 t2 m) = bm_held_sell_reserve m"
proof -
  have at: "bk_refill_at (refill t1 (bm_order m)) = t1" using assms(2) by (simp add: refill_def Let_def)
  have "trunc x \<le> 0" if "x < 1" for x :: rat
    using that by (auto simp: trunc_def floor_le_iff ceiling_le_iff)
  with assms(3) show ?thesis
    by (force simp: refill_held_sell_reserve_def Let_def at)
qed

theorem held_sell_reserve_does_not_recover_witness:
  "bm_held_sell_reserve (refill_held_sell_reserve 3600000000 3600001000
     (ex_manager\<lparr>bm_held_sell_reserve := 0\<rparr>)) = 0"
proof -
  let ?m = "ex_manager\<lparr>bm_held_sell_reserve := 0\<rparr>"
  have "bm_held_sell_reserve (refill_held_sell_reserve 3600000000 3600001000 ?m)
      = bm_held_sell_reserve ?m"
    by (rule held_sell_reserve_does_not_recover; code_simp)
  then show ?thesis by simp
qed

text \<open>At the default rates the operation buckets of the paper profile together refill more than
  three times as fast as the environment allows; the documented headroom below the
  environment's rate holds for the live profile.\<close>

definition aggregate_refill_rate :: "budget_config \<Rightarrow> rat" where
  "aggregate_refill_rate c = bc_auth_refill_rate c + bc_order_refill_rate c + bc_inquiry_refill_rate c
     + bc_market_data_refill_rate c + bc_reconciliation_refill_rate c"

theorem paper_profile_exceeds_global_rate:
  "aggregate_refill_rate (paper_config 3) > 3 * bc_global_rest_refill_rate (paper_config 3)
   \<and> aggregate_refill_rate (live_config 18) < bc_global_rest_refill_rate (live_config 18)"
  by code_simp

text \<open>Subscriptions stay within their limits: under any sequence of subscribe and unsubscribe
  calls the critical, the optional and the total count stay nonnegative and within bounds.\<close>

definition subscriptions_ok :: "subscription_budget \<Rightarrow> bool" where
  "subscriptions_ok b \<longleftrightarrow> 0 \<le> sb_current_critical b \<and> sb_current_critical b \<le> sb_critical_limit b
     \<and> 0 \<le> sb_current_optional b \<and> sb_current_optional b \<le> sb_optional_limit b
     \<and> total_used b \<le> sb_max_subscriptions b"

inductive subscription_step :: "subscription_budget \<Rightarrow> subscription_budget \<Rightarrow> bool" where
  "subscription_step b (snd (subscribe_critical b))"
| "subscription_step b (snd (subscribe_optional b))"
| "subscription_step b (unsubscribe critical optional b)"

lemma subscription_step_ok: "subscription_step b b' \<Longrightarrow> subscriptions_ok b \<Longrightarrow> subscriptions_ok b'"
  by (induction rule: subscription_step.induct)
     (auto simp: subscriptions_ok_def total_used_def subscribe_critical_def subscribe_optional_def
        can_subscribe_critical_def can_subscribe_optional_def unsubscribe_def Let_def)

theorem subscriptions_stay_within_limits:
  assumes "subscriptions_ok b" and "subscription_step\<^sup>*\<^sup>* b b'"
  shows "subscriptions_ok b'"
  using assms(2,1) by (induction rule: rtranclp_induct) (auto intro: subscription_step_ok)

theorem subscriptions_stay_within_limits_witness:
  "subscriptions_ok (snd (subscribe_critical \<lparr>sb_max_subscriptions = 41, sb_critical_limit = 30,
     sb_optional_limit = 11, sb_current_critical = 30, sb_current_optional = 0\<rparr>))"
  by (rule subscriptions_stay_within_limits
        [where b = "\<lparr>sb_max_subscriptions = 41, sb_critical_limit = 30, sb_optional_limit = 11,
           sb_current_critical = 30, sb_current_optional = 0\<rparr>"])
     (simp_all add: subscriptions_ok_def total_used_def r_into_rtranclp subscription_step.intros)

end
