(* ===== verification/Python_Decimal.thy ===== *)
theory Python_Decimal
  imports Rounding
begin

text \<open>
  Texts and JSON values of the Python runtime: the printed form of integers, the finite values
  of \<^verbatim>\<open>decimal.Decimal\<close> as sign, coefficient and exponent with \<open>str\<close> and the constructor from
  text, and the values that \<^verbatim>\<open>json\<close> reads and writes.

  The special values \<open>Infinity\<close> and \<open>NaN\<close> are not represented, their texts count as unreadable.
  A JSON number with a fraction is kept as its \<open>repr\<close> text, which is what \<open>Decimal(str(x))\<close> reads.
\<close>

section \<open>Decimal digits\<close>

definition digit_char :: "nat \<Rightarrow> char" where "digit_char d = char_of (48 + d)"
definition digit_val :: "char \<Rightarrow> nat" where "digit_val c = of_char c - 48"
definition is_digit :: "char \<Rightarrow> bool" where
  "is_digit c \<longleftrightarrow> (48::nat) \<le> of_char c \<and> of_char c \<le> (57::nat)"

fun nat_str :: "nat \<Rightarrow> string" where
  "nat_str n = (if n < 10 then [digit_char n] else nat_str (n div 10) @ [digit_char (n mod 10)])"

declare nat_str.simps [simp del]

definition int_str :: "int \<Rightarrow> string" where
  "int_str i = (if i < 0 then CHR ''-'' # nat_str (nat (- i)) else nat_str (nat i))"

definition digits_val :: "string \<Rightarrow> nat" where
  "digits_val ds = foldl (\<lambda>a c. 10 * a + digit_val c) 0 ds"

lemma digit_char_simps [simp]:
  assumes "d < 10"
  shows "is_digit (digit_char d)" "digit_val (digit_char d) = d"
  using assms by (simp_all add: is_digit_def digit_val_def digit_char_def)

lemma nat_str_digits: "c \<in> set (nat_str n) \<Longrightarrow> is_digit c"
proof (induction n rule: nat_str.induct)
  case (1 n)
  then show ?case
    by (subst (asm) nat_str.simps) (auto split: if_splits)
qed

lemma nat_str_not_Nil [simp]: "nat_str n \<noteq> []"
  by (subst nat_str.simps) simp

lemma digits_val_snoc [simp]: "digits_val (ds @ [c]) = 10 * digits_val ds + digit_val c"
  by (simp add: digits_val_def)

lemma digits_val_Nil [simp]: "digits_val [] = 0"
  by (simp add: digits_val_def)

lemma digits_val_zero [simp]: "digits_val (CHR ''0'' # ds) = digits_val ds"
  by (simp add: digits_val_def digit_val_def)

lemma digits_val_zeros [simp]: "digits_val (replicate k (CHR ''0'') @ ds) = digits_val ds"
  by (induction k) simp_all

lemma digits_val_nat_str [simp]: "digits_val (nat_str n) = n"
proof (induction n rule: nat_str.induct)
  case (1 n)
  show ?case
  proof (cases "n < 10")
    case True
    then show ?thesis
      by (simp add: nat_str.simps [of n] digits_val_def)
  next
    case False
    then have "digits_val (nat_str n) = 10 * digits_val (nat_str (n div 10)) + n mod 10"
      by (simp add: nat_str.simps [of n])
    with False 1 show ?thesis by simp
  qed
qed

section \<open>Decimal values\<close>

record py_decimal =
  pd_negative :: bool
  pd_coefficient :: nat
  pd_exponent :: int

definition dec_value :: "py_decimal \<Rightarrow> rat" where
  "dec_value d =
     (if pd_negative d then - 1 else 1) * of_nat (pd_coefficient d) * 10 powi pd_exponent d"

text \<open>
  \<open>Decimal(text)\<close>: surrounding white space and underscores are dropped, then an optional sign,
  digits with an optional point and an optional exponent are read.
\<close>

definition parse_sign :: "string \<Rightarrow> bool \<times> string" where
  "parse_sign s =
     (case s of
        [] \<Rightarrow> (False, [])
      | c # r \<Rightarrow> if c = CHR ''-'' then (True, r) else if c = CHR ''+'' then (False, r)
                 else (False, s))"

definition parse_exponent :: "string \<Rightarrow> int option" where
  "parse_exponent s =
     (case s of
        [] \<Rightarrow> Some 0
      | c # r \<Rightarrow>
          if c = CHR ''E'' \<or> c = CHR ''e''
          then (let (neg, ds) = parse_sign r
                in if ds \<noteq> [] \<and> list_all is_digit ds
                   then Some (if neg then - int (digits_val ds) else int (digits_val ds))
                   else None)
          else None)"

definition parse_unsigned :: "bool \<Rightarrow> string \<Rightarrow> py_decimal option" where
  "parse_unsigned neg s =
     (let ip = takeWhile is_digit s;
          r = dropWhile is_digit s;
          (fp, rest) =
            (case r of
               [] \<Rightarrow> ([], r)
             | c # t \<Rightarrow> if c = CHR ''.'' then (takeWhile is_digit t, dropWhile is_digit t)
                        else ([], r))
      in if ip @ fp = [] then None
         else map_option
                (\<lambda>e. \<lparr>pd_negative = neg, pd_coefficient = digits_val (ip @ fp),
                      pd_exponent = e - int (length fp)\<rparr>)
                (parse_exponent rest))"

definition parse_decimal :: "string \<Rightarrow> py_decimal option" where
  "parse_decimal text =
     (let (neg, s) = parse_sign (filter (\<lambda>c. c \<noteq> CHR ''_'') (str_strip text))
      in parse_unsigned neg s)"

text \<open>\<open>str(d)\<close>: plain notation for exponents up to zero unless more than five zeros would follow
  the point, scientific notation with one leading digit otherwise.\<close>

definition exponent_text :: "int \<Rightarrow> string" where
  "exponent_text x =
     (if x = 0 then []
      else CHR ''E'' # (if x < 0 then CHR ''-'' else CHR ''+'') # nat_str (nat \<bar>x\<bar>))"

definition decimal_str :: "py_decimal \<Rightarrow> string" where
  "decimal_str d =
     (let ds = nat_str (pd_coefficient d);
          len = int (length ds);
          leftdigits = pd_exponent d + len;
          dotplace = (if pd_exponent d \<le> 0 \<and> - 6 < leftdigits then leftdigits else 1);
          (intpart, fracpart) =
            (if dotplace \<le> 0
             then (''0'', CHR ''.'' # replicate (nat (- dotplace)) (CHR ''0'') @ ds)
             else if len \<le> dotplace
             then (ds @ replicate (nat (dotplace - len)) (CHR ''0''), [])
             else (take (nat dotplace) ds, CHR ''.'' # drop (nat dotplace) ds))
      in (if pd_negative d then ''-'' else []) @ intpart @ fracpart
         @ exponent_text (leftdigits - dotplace))"

subsection \<open>Printing and reading a decimal value\<close>

definition decimal_char :: "char \<Rightarrow> bool" where
  "decimal_char c \<longleftrightarrow> is_digit c \<or> c \<in> {CHR ''.'', CHR ''E'', CHR ''+'', CHR ''-''}"

lemma decimal_char_plain:
  assumes "decimal_char c"
  shows "\<not> is_space_char c" "c \<noteq> CHR ''_''"
  using assms by (auto simp: decimal_char_def is_digit_def is_space_char_def)

lemma strip_decimal_text:
  assumes "list_all decimal_char s"
  shows "filter (\<lambda>c. c \<noteq> CHR ''_'') (str_strip s) = s"
proof -
  have "dropWhile is_space_char t = t" if "list_all decimal_char t" for t
    using that decimal_char_plain(1) by (cases t) auto
  with assms have "str_strip s = s"
    by (simp add: str_strip_def)
  with assms show ?thesis
    using decimal_char_plain(2) by (auto simp: list_all_iff intro!: filter_True)
qed

lemma parse_exponent_text [simp]: "parse_exponent (exponent_text x) = Some x"
proof -
  have "list_all is_digit (nat_str n)" for n
    using nat_str_digits by (simp add: list_all_iff)
  then show ?thesis
    by (simp add: parse_exponent_def exponent_text_def parse_sign_def Let_def)
qed

lemma exponent_text_head:
  "takeWhile is_digit (exponent_text x) = []" "dropWhile is_digit (exponent_text x) = exponent_text x"
  "exponent_text x \<noteq> CHR ''.'' # t"
  by (simp_all add: exponent_text_def is_digit_def)

text \<open>Reading back a text of digits, a point with digits and an exponent.\<close>

lemma parse_unsigned_plain:
  assumes "list_all is_digit ip" "ip \<noteq> []"
  shows "parse_unsigned neg (ip @ exponent_text x) =
    Some \<lparr>pd_negative = neg, pd_coefficient = digits_val ip, pd_exponent = x\<rparr>"
proof -
  have "takeWhile is_digit (ip @ exponent_text x) = ip"
    "dropWhile is_digit (ip @ exponent_text x) = exponent_text x"
    using assms by (simp_all add: list_all_iff exponent_text_head takeWhile_append dropWhile_append)
  moreover have "takeWhile is_digit ip = ip" "dropWhile is_digit ip = []"
    using assms by (auto simp: list_all_iff takeWhile_eq_all_conv)
  ultimately show ?thesis
    using assms exponent_text_head(3) [of x] parse_exponent_text [of x]
    by (cases "exponent_text x")
      (auto simp: parse_unsigned_def Let_def simp del: takeWhile_eq_all_conv dropWhile_eq_Nil_conv)
qed

lemma parse_unsigned_point:
  assumes "list_all is_digit ip" "list_all is_digit fp" "ip \<noteq> []"
  shows "parse_unsigned neg (ip @ CHR ''.'' # fp @ exponent_text x) =
    Some \<lparr>pd_negative = neg, pd_coefficient = digits_val (ip @ fp),
          pd_exponent = x - int (length fp)\<rparr>"
proof -
  have dot: "\<not> is_digit (CHR ''.'')" by (simp add: is_digit_def)
  have "takeWhile is_digit (ip @ CHR ''.'' # fp @ exponent_text x) = ip"
    "dropWhile is_digit (ip @ CHR ''.'' # fp @ exponent_text x) = CHR ''.'' # fp @ exponent_text x"
    "takeWhile is_digit (fp @ exponent_text x) = fp"
    "dropWhile is_digit (fp @ exponent_text x) = exponent_text x"
    using assms dot
    by (simp_all add: list_all_iff exponent_text_head takeWhile_append dropWhile_append)
  then show ?thesis
    using assms by (simp add: parse_unsigned_def Let_def)
qed

lemma list_all_nat_str [simp]: "list_all is_digit (nat_str n)"
  using nat_str_digits by (simp add: list_all_iff)

lemma list_all_zeros [simp]: "list_all is_digit (replicate k (CHR ''0''))"
  by (induction k) (simp_all add: is_digit_def)

text \<open>The shape of a printed value.\<close>

lemma decimal_str_shape:
  obtains (plain) ip x where
    "decimal_str d = (if pd_negative d then ''-'' else []) @ ip @ exponent_text x"
    "list_all is_digit ip" "ip \<noteq> []" "digits_val ip = pd_coefficient d" "x = pd_exponent d"
  | (point) ip fp x where
    "decimal_str d = (if pd_negative d then ''-'' else []) @ ip @ CHR ''.'' # fp @ exponent_text x"
    "list_all is_digit ip" "list_all is_digit fp" "ip \<noteq> []"
    "digits_val (ip @ fp) = pd_coefficient d" "x - int (length fp) = pd_exponent d"
proof -
  let ?ds = "nat_str (pd_coefficient d)"
  let ?sg = "if pd_negative d then ''-'' else []"
  define len where "len = int (length ?ds)"
  define left where "left = pd_exponent d + len"
  define dot where "dot = (if pd_exponent d \<le> 0 \<and> - 6 < left then left else 1)"
  note s = decimal_str_def [of d, unfolded Let_def, folded len_def, folded left_def, folded dot_def]
  have len: "1 \<le> len" by (simp add: len_def Suc_le_eq)
  consider "dot \<le> 0" | "0 < dot" "len \<le> dot" | "0 < dot" "dot < len" by linarith
  then show thesis
  proof cases
    case 1
    then have "left = dot" by (auto simp: dot_def split: if_splits)
    with 1 show thesis
      using s by (intro point [of "''0''" "replicate (nat (- dot)) (CHR ''0'') @ ?ds" 0])
        (simp_all add: exponent_text_def left_def len_def is_digit_def)
  next
    case 2
    then have "len = dot" "left - dot = pd_exponent d"
      using len by (auto simp: dot_def left_def split: if_splits)
    then show thesis
      using s 2 by (intro plain [of ?ds "left - dot"]) simp_all
  next
    case 3
    have "list_all is_digit (take k ?ds)" "list_all is_digit (drop k ?ds)" for k
      using list_all_nat_str [of "pd_coefficient d"]
      by (auto simp: list_all_iff dest: in_set_takeD in_set_dropD)
    then show thesis
      using s 3 by (intro point [of "take (nat dot) ?ds" "drop (nat dot) ?ds" "left - dot"])
        (simp_all add: left_def len_def)
  qed
qed

theorem parse_decimal_str: "parse_decimal (decimal_str d) = Some d"
proof -
  let ?sg = "if pd_negative d then ''-'' else []"
  have dc: "list_all decimal_char t" if "list_all is_digit t" for t
    using that by (simp add: list_all_iff decimal_char_def)
  have ex: "list_all decimal_char (exponent_text x)" for x
    using dc [OF list_all_nat_str] by (simp add: exponent_text_def decimal_char_def)
  have sign: "parse_sign (?sg @ ip @ t) = (pd_negative d, ip @ t)"
    if "list_all is_digit ip" "ip \<noteq> []" for ip t
    using that by (cases ip) (auto simp: parse_sign_def is_digit_def)
  show ?thesis
  proof (cases rule: decimal_str_shape [of d])
    case (plain ip x)
    then have "list_all decimal_char (decimal_str d)"
      using dc ex by (simp add: decimal_char_def)
    with plain show ?thesis
      using sign [OF plain(2,3), of "exponent_text x"]
      by (simp only: parse_decimal_def strip_decimal_text) (simp add: parse_unsigned_plain)
  next
    case (point ip fp x)
    then have "list_all decimal_char (decimal_str d)"
      using dc ex by (simp add: decimal_char_def)
    with point show ?thesis
      using sign [OF point(2,4), of "CHR ''.'' # fp @ exponent_text x"]
      by (simp only: parse_decimal_def strip_decimal_text) (simp add: parse_unsigned_point)
  qed
qed

lemma int_str_decimal_str:
  "int_str i = decimal_str \<lparr>pd_negative = i < 0, pd_coefficient = nat \<bar>i\<bar>, pd_exponent = 0\<rparr>"
  by (simp add: int_str_def decimal_str_def exponent_text_def Let_def)

text \<open>Facts that evaluate the reading of a concrete text.\<close>

lemmas text_eval = parse_decimal_def parse_sign_def parse_unsigned_def parse_exponent_def
  is_digit_def digits_val_def digit_val_def str_strip_def is_space_char_def

section \<open>JSON values\<close>

datatype jval =
    JvNull | JvBool bool | JvInt int | JvFloat string | JvStr string
  | JvList "jval list" | JvObj "(string \<times> jval) list"

text \<open>\<open>Decimal(str(v))\<close>; the text of any other value is never a number.\<close>

definition decimal_of_jval :: "jval \<Rightarrow> py_decimal option" where
  "decimal_of_jval v =
     (case v of
        JvInt i \<Rightarrow> parse_decimal (int_str i)
      | JvFloat r \<Rightarrow> parse_decimal r
      | JvStr s \<Rightarrow> parse_decimal s
      | _ \<Rightarrow> None)"

text \<open>\<open>bool(v)\<close>.\<close>

definition jv_truthy :: "jval \<Rightarrow> bool" where
  "jv_truthy v =
     (case v of
        JvNull \<Rightarrow> False
      | JvBool b \<Rightarrow> b
      | JvInt i \<Rightarrow> i \<noteq> 0
      | JvFloat r \<Rightarrow> (case parse_decimal r of Some d \<Rightarrow> pd_coefficient d \<noteq> 0 | None \<Rightarrow> True)
      | JvStr s \<Rightarrow> s \<noteq> []
      | JvList xs \<Rightarrow> xs \<noteq> []
      | JvObj kvs \<Rightarrow> kvs \<noteq> [])"

text \<open>\<open>isinstance(v, list) and all(isinstance(x, str) for x in v)\<close>, with the texts.\<close>

definition str_of_jval :: "jval \<Rightarrow> string option" where
  "str_of_jval v = (case v of JvStr s \<Rightarrow> Some s | _ \<Rightarrow> None)"

definition str_list_of_jval :: "jval option \<Rightarrow> string list option" where
  "str_list_of_jval v =
     (case v of
        Some (JvList xs) \<Rightarrow> those (map str_of_jval xs)
      | _ \<Rightarrow> None)"

lemma those_map_JvStr [simp]: "those (map (\<lambda>x. str_of_jval (JvStr x)) ss) = Some ss"
  by (induction ss) (simp_all add: str_of_jval_def)

lemma decimal_of_decimal_str [simp]: "decimal_of_jval (JvStr (decimal_str d)) = Some d"
  by (simp add: decimal_of_jval_def parse_decimal_str)

lemma decimal_of_JvInt [simp]:
  "decimal_of_jval (JvInt i) = Some \<lparr>pd_negative = i < 0, pd_coefficient = nat \<bar>i\<bar>, pd_exponent = 0\<rparr>"
  by (simp add: decimal_of_jval_def int_str_decimal_str parse_decimal_str)

end
