(* ===== verification/Order_Domain.thy ===== *)
theory Order_Domain
  imports Rate_Limit Python_Decimal "HOL-Library.AList"
begin

text \<open>
  The data of the order lifecycle: requests and results of a broker submission
  (\<^verbatim>\<open>domain/models.py\<close>, \<^verbatim>\<open>brokers/errors.py\<close>), the entities that the order and reconciliation
  services persist (\<^verbatim>\<open>domain/entities.py\<close>), and the in-memory repositories as one record of
  insertion-ordered dictionaries (association lists, updated in place by \<^verbatim>\<open>AList.update\<close> the
  way a Python \<open>dict\<close> is).
\<close>

section \<open>Environment of a call\<close>

text \<open>
  Clock readings and fresh identifiers of one call, addressed by the place in the code that
  asks for them; \<open>inside\<close> descends into a nested call.
\<close>

type_synonym place = "(string \<times> nat) list"

record env =
  ev_now :: "place \<Rightarrow> timestamp"
  ev_uuid :: "place \<Rightarrow> uuid"

definition now_at :: "env \<Rightarrow> string \<Rightarrow> timestamp" where "now_at ev l = ev_now ev [(l, 0)]"
definition uuid_at :: "env \<Rightarrow> string \<Rightarrow> uuid" where "uuid_at ev l = ev_uuid ev [(l, 0)]"

definition inside :: "string \<Rightarrow> nat \<Rightarrow> env \<Rightarrow> env" where
  "inside l i ev = \<lparr>ev_now = (\<lambda>p. ev_now ev ((l, i) # p)), ev_uuid = (\<lambda>p. ev_uuid ev ((l, i) # p))\<rparr>"

section \<open>Texts and JSON values\<close>

text \<open>Messages that the code formats with identifiers are kept with their parts.\<close>

datatype message =
    Plain string
  | Msg_Blocked uuid
  | Msg_Uncertain bool bool
  | Msg_Reflection uuid order_status
  | Msg_Probe string order_status "rat list" "string option"
  | Msg_Rows nat nat "string option"
  | Msg_Orphan timestamp "string option"
  | Msg_Stale timestamp order_side

text \<open>The exceptions of the order services.\<close>

datatype order_error =
    Invalid_State_Transition uuid order_status order_status
  | Duplicate_Order string uuid
  | Value_Error string
  | Budget_Error string
  | Version_Conflict uuid int int
  | Key_Error uuid
  | Broker_Exception string
  | Type_Error

datatype json =
    JNull | JText string | JMsg message | JUuid uuid | JDec rat | JTime timestamp
  | JError order_error | JVal jval

type_synonym json_object = "(string \<times> json) list"

section \<open>Broker values\<close>

datatype broker_name = KOREA_INVESTMENT | KIWOOM

fun broker_name_value :: "broker_name \<Rightarrow> string" where
  "broker_name_value KOREA_INVESTMENT = ''koreainvestment''"
| "broker_name_value KIWOOM = ''kiwoom''"

fun broker_error_type_value :: "broker_error_type \<Rightarrow> string" where
  "broker_error_type_value AUTHENTICATION = ''authentication''"
| "broker_error_type_value AUTHORIZATION = ''authorization''"
| "broker_error_type_value RATE_LIMIT = ''rate_limit''"
| "broker_error_type_value NETWORK = ''network''"
| "broker_error_type_value NETWORK_ERROR = ''network_error''"
| "broker_error_type_value INVALID_REQUEST = ''invalid_request''"
| "broker_error_type_value UNSUPPORTED_CAPABILITY = ''unsupported_capability''"
| "broker_error_type_value ORDER_REJECTED = ''order_rejected''"
| "broker_error_type_value TEMPORARY_BROKER = ''temporary_broker''"
| "broker_error_type_value DATA_UNAVAILABLE = ''data_unavailable''"
| "broker_error_type_value API_ERROR = ''api_error''"
| "broker_error_type_value TIMEOUT = ''timeout''"

fun order_type_value :: "order_type \<Rightarrow> string" where
  "order_type_value MARKET = ''market''"
| "order_type_value LIMIT = ''limit''"
| "order_type_value STOP = ''stop''"
| "order_type_value STOP_LIMIT = ''stop_limit''"

fun time_in_force_value :: "time_in_force \<Rightarrow> string" where
  "time_in_force_value DAY = ''day''"
| "time_in_force_value IOC = ''ioc''"
| "time_in_force_value FOK = ''fok''"

record submit_order_request =
  sq_account_ref :: string
  sq_client_order_id :: string
  sq_correlation_id :: string
  sq_strategy_id :: string
  sq_symbol :: string
  sq_market :: string
  sq_side :: order_side
  sq_order_type :: order_type
  sq_quantity :: rat
  sq_time_in_force :: time_in_force
  sq_price :: "rat option"
  sq_idempotency_key :: "string option"
  sq_decision_id :: "string option"
  sq_decision_context_id :: "string option"

record submit_order_result =
  sres_accepted :: bool
  sres_broker_name :: broker_name
  sres_broker_order_id :: "string option"
  sres_broker_status :: order_status
  sres_raw_code :: "string option"
  sres_raw_message :: "string option"
  sres_uncertain :: bool
  sres_requires_reconciliation :: bool

record broker_error =
  be_class :: string
  be_broker_name :: broker_name
  be_error_type :: broker_error_type
  be_retryable :: bool
  be_raw_code :: "string option"
  be_raw_message :: "string option"
  be_requires_reconciliation :: bool

text \<open>What a call of the broker adapter comes to: a result, a \<open>BrokerError\<close>, or another exception
  (its type name and the attributes read with \<open>getattr\<close>).\<close>

record other_exception =
  oe_class :: string
  oe_broker_name :: string
  oe_raw_code :: "string option"
  oe_raw_message :: "string option"
  oe_retryable :: "bool option"
  oe_http_status :: "int option"

datatype broker_outcome =
  Submit_Result submit_order_result | Submit_Error broker_error | Submit_Crash other_exception

text \<open>\<open>a or b\<close> on optional strings: the empty string counts as absent.\<close>

definition or_text :: "string option \<Rightarrow> string \<Rightarrow> string" where
  "or_text a b = (case or_else (\<lambda>s. s = []) a None of Some s \<Rightarrow> s | None \<Rightarrow> b)"

fun join_text :: "string \<Rightarrow> string list \<Rightarrow> string" where
  "join_text sep [] = []"
| "join_text sep [x] = x"
| "join_text sep (x # y # xs) = x @ sep @ join_text sep (y # xs)"

definition truthy_text :: "string option \<Rightarrow> string list" where
  "truthy_text s = (case s of Some t \<Rightarrow> if t = [] then [] else [t] | None \<Rightarrow> [])"

definition broker_error_str :: "broker_error \<Rightarrow> string" where
  "broker_error_str e = join_text '' | ''
     ([broker_name_value (be_broker_name e), broker_error_type_value (be_error_type e)]
      @ truthy_text (be_raw_code e) @ truthy_text (be_raw_message e))"

record order_status_result =
  osr_client_order_id :: "string option"
  osr_broker_order_id :: "string option"
  osr_status :: order_status
  osr_filled_quantity :: "rat option"
  osr_raw_code :: "string option"
  osr_raw_message :: "string option"

section \<open>Entities\<close>

record order_request =
  or_order_request_id :: uuid
  or_account_id :: uuid
  or_instrument_id :: uuid
  or_client_order_id :: string
  or_idempotency_key :: string
  or_correlation_id :: string
  or_side :: order_side
  or_order_type :: order_type
  or_requested_quantity :: rat
  or_status :: order_status
  or_trade_decision_id :: "uuid option"
  or_decision_context_id :: "uuid option"
  or_requested_price :: "rat option"
  or_time_in_force :: time_in_force
  or_status_reason_code :: "string option"
  or_status_reason_message :: "message option"
  or_submitted_at :: "timestamp option"
  or_created_at :: "timestamp option"
  or_updated_at :: "timestamp option"
  or_version :: int
  or_order_intent_id :: "uuid option"

record broker_order =
  bo_broker_order_id :: uuid
  bo_order_request_id :: uuid
  bo_broker_name :: string
  bo_broker_status :: string
  bo_broker_native_order_id :: "string option"
  bo_last_synced_at :: "timestamp option"
  bo_created_at :: "timestamp option"
  bo_updated_at :: "timestamp option"

record submission_attempt =
  sa_attempt_id :: uuid
  sa_order_request_id :: uuid
  sa_attempt_number :: int
  sa_submitted_at :: timestamp
  sa_broker_name :: "string option"
  sa_accepted :: bool
  sa_broker_native_order_id :: "string option"
  sa_broker_status :: "string option"
  sa_raw_code :: "string option"
  sa_raw_message :: "string option"
  sa_error_type :: "string option"
  sa_retryable :: "bool option"
  sa_http_status :: "int option"
  sa_duration_ms :: "int option"

record order_state_event =
  se_order_state_event_id :: uuid
  se_order_request_id :: uuid
  se_previous_status :: "order_status option"
  se_new_status :: order_status
  se_event_source :: event_source
  se_event_timestamp :: timestamp
  se_ingested_at :: timestamp
  se_reason_code :: "string option"
  se_correlation_id :: "string option"

record audit_log =
  al_audit_log_id :: uuid
  al_actor_type :: string
  al_actor_id :: string
  al_action :: string
  al_target_entity_type :: string
  al_target_entity_id :: uuid
  al_created_at :: timestamp
  al_before_json :: "json_object option"
  al_after_json :: "json_object option"
  al_correlation_id :: "string option"
  al_metadata :: json_object

record reconciliation_run =
  rr_reconciliation_run_id :: uuid
  rr_account_id :: uuid
  rr_trigger_type :: string
  rr_status :: string
  rr_started_at :: timestamp
  rr_mismatch_count :: int
  rr_summary_json :: json_object
  rr_completed_at :: "timestamp option"
  rr_created_at :: "timestamp option"

record mismatch_link =
  ml_target_id :: uuid
  ml_mismatch_type :: string
  ml_details :: json_object

record blocking_lock =
  bl_reason :: string
  bl_locked_by_run_id :: uuid
  bl_expires_at :: timestamp

text \<open>The scope of a lock: account, strategy, symbol and side.\<close>

type_synonym lock_key = "uuid \<times> uuid option \<times> string option \<times> string option"

record account =
  ac_account_id :: uuid
  ac_client_id :: uuid
  ac_broker_account_id :: uuid
  ac_environment :: environment
  ac_account_alias :: string

record instrument =
  in_instrument_id :: uuid
  in_symbol :: string
  in_market_code :: string
  in_asset_class :: string
  in_is_active :: bool
  in_exchange_code :: "string option"
  in_market_segment :: "string option"
  in_created_at :: "timestamp option"
  in_updated_at :: "timestamp option"

record strategy =
  st_strategy_id :: uuid
  st_client_id :: uuid
  st_strategy_code :: string

section \<open>Repositories\<close>

record reconciliation_store =
  rc_runs :: "(uuid \<times> reconciliation_run) list"
  rc_order_links :: "(uuid \<times> mismatch_link list) list"
  rc_position_links :: "(uuid \<times> mismatch_link list) list"
  rc_blocking_locks :: "(lock_key \<times> blocking_lock) list"

record repos =
  rp_accounts :: "(uuid \<times> account) list"
  rp_instruments :: "(uuid \<times> instrument) list"
  rp_strategies :: "(uuid \<times> strategy) list"
  rp_orders :: "(uuid \<times> order_request) list"
  rp_excluded_account_ids :: "uuid list"
  rp_broker_orders :: "(uuid \<times> broker_order) list"
  rp_submission_attempts :: "(uuid \<times> submission_attempt) list"
  rp_order_state_events :: "(uuid \<times> order_state_event) list"
  rp_audit_logs :: "(uuid \<times> audit_log) list"
  rp_reconciliations :: reconciliation_store

end
