(* ===== verification/Order_Repository.thy ===== *)
theory Order_Repository
  imports Order_Domain
begin

text \<open>
  The order repository (\<^verbatim>\<open>InMemoryOrderRepository\<close> of \<^verbatim>\<open>repositories/memory.py\<close>) with its
  optimistic lock, and the interface \<open>order_repository\<close> that the order manager relies on: an
  update with an expected version succeeds exactly when the stored version is the expected one,
  and then counts the version up.
\<close>

section \<open>Operations\<close>

definition order_add :: "order_request \<Rightarrow> repos \<Rightarrow> repos" where
  "order_add order w = w\<lparr>rp_orders := AList.update (or_order_request_id order) order (rp_orders w)\<rparr>"

definition order_get :: "repos \<Rightarrow> uuid \<Rightarrow> order_request option" where
  "order_get w order_request_id = map_of (rp_orders w) order_request_id"

definition get_by_client_order_id :: "repos \<Rightarrow> string \<Rightarrow> order_request option" where
  "get_by_client_order_id w client_order_id =
     find_first (\<lambda>item. or_client_order_id item = client_order_id) (map snd (rp_orders w))"

record order_query =
  oq_account_id :: "uuid option"
  oq_client_order_id :: "string option"
  oq_correlation_id :: "string option"
  oq_status :: "order_status option"
  oq_statuses :: "order_status list option"
  oq_trade_decision_id :: "uuid option"
  oq_decision_context_id :: "uuid option"
  oq_submitted_from :: "timestamp option"
  oq_submitted_to :: "timestamp option"
  oq_created_from :: "timestamp option"
  oq_created_to :: "timestamp option"
  oq_limit :: nat

definition any_order :: order_query where
  "any_order = \<lparr>oq_account_id = None, oq_client_order_id = None, oq_correlation_id = None,
     oq_status = None, oq_statuses = None, oq_trade_decision_id = None,
     oq_decision_context_id = None, oq_submitted_from = None, oq_submitted_to = None,
     oq_created_from = None, oq_created_to = None, oq_limit = 100\<rparr>"

text \<open>\<open>q is None or item == q\<close>, and the two range tests, in which an absent time fails.\<close>

definition agrees :: "'a option \<Rightarrow> 'a \<Rightarrow> bool" where
  "agrees q x = (case q of None \<Rightarrow> True | Some v \<Rightarrow> x = v)"

definition not_before :: "timestamp option \<Rightarrow> timestamp option \<Rightarrow> bool" where
  "not_before q t = (case q of None \<Rightarrow> True | Some a \<Rightarrow> (case t of None \<Rightarrow> False | Some x \<Rightarrow> a \<le> x))"

definition not_after :: "timestamp option \<Rightarrow> timestamp option \<Rightarrow> bool" where
  "not_after q t = (case q of None \<Rightarrow> True | Some b \<Rightarrow> (case t of None \<Rightarrow> False | Some x \<Rightarrow> x \<le> b))"

definition order_matches :: "repos \<Rightarrow> order_query \<Rightarrow> order_request \<Rightarrow> bool" where
  "order_matches w q item \<longleftrightarrow>
     or_account_id item \<notin> set (rp_excluded_account_ids w)
     \<and> agrees (oq_account_id q) (or_account_id item)
     \<and> agrees (oq_client_order_id q) (or_client_order_id item)
     \<and> agrees (oq_correlation_id q) (or_correlation_id item)
     \<and> agrees (oq_status q) (or_status item)
     \<and> (case oq_statuses q of None \<Rightarrow> True | Some ss \<Rightarrow> or_status item \<in> set ss)
     \<and> (case oq_trade_decision_id q of None \<Rightarrow> True | Some d \<Rightarrow> or_trade_decision_id item = Some d)
     \<and> (case oq_decision_context_id q of None \<Rightarrow> True | Some d \<Rightarrow> or_decision_context_id item = Some d)
     \<and> not_before (oq_submitted_from q) (or_submitted_at item)
     \<and> not_after (oq_submitted_to q) (or_submitted_at item)
     \<and> not_before (oq_created_from q) (or_created_at item)
     \<and> not_after (oq_created_to q) (or_created_at item)"

definition list_key :: "order_request \<Rightarrow> timestamp option" where
  "list_key item = (case or_created_at item of Some t \<Rightarrow> Some t | None \<Rightarrow> or_submitted_at item)"

text \<open>
  \<open>list\<close>: filter, then a stable sort by creation time, newest first.  Comparing an order that has
  neither time raises when there is another order to compare it with.
\<close>

definition order_list :: "repos \<Rightarrow> order_query \<Rightarrow> order_error + order_request list" where
  "order_list w q =
     (let results = filter (order_matches w q) (map snd (rp_orders w))
      in if 2 \<le> length results \<and> (\<exists>x \<in> set results. list_key x = None) then Inl Type_Error
         else Inr (take (oq_limit q)
                (sort_key (\<lambda>x. - (case list_key x of Some t \<Rightarrow> t | None \<Rightarrow> 0)) results)))"

definition order_count :: "repos \<Rightarrow> order_query \<Rightarrow> order_error + nat" where
  "order_count w q = (case order_list w (q\<lparr>oq_limit := 10 ^ 9\<rparr>) of Inl e \<Rightarrow> Inl e | Inr xs \<Rightarrow> Inr (length xs))"

definition order_update_status ::
  "timestamp \<Rightarrow> uuid \<Rightarrow> order_status \<Rightarrow> string option \<Rightarrow> message option \<Rightarrow> int option
   \<Rightarrow> timestamp option \<Rightarrow> repos \<Rightarrow> (order_error + unit) \<times> repos" where
  "order_update_status now order_request_id status reason_code reason_message expected_version
       submitted_at w =
     (case map_of (rp_orders w) order_request_id of
        None \<Rightarrow> (Inl (Key_Error order_request_id), w)
      | Some current \<Rightarrow>
          (case expected_version of
             Some v \<Rightarrow>
               if or_version current \<noteq> v
               then (Inl (Version_Conflict order_request_id v (or_version current)), w)
               else (Inr (), w\<lparr>rp_orders := AList.update order_request_id
                      (current\<lparr>or_status := status, or_status_reason_code := reason_code,
                               or_status_reason_message := reason_message,
                               or_submitted_at :=
                                 (case submitted_at of Some t \<Rightarrow> Some t
                                  | None \<Rightarrow> if status = SUBMITTED \<and> or_submitted_at current = None
                                            then Some now else or_submitted_at current),
                               or_version := or_version current + 1\<rparr>) (rp_orders w)\<rparr>)
           | None \<Rightarrow>
               (Inr (), w\<lparr>rp_orders := AList.update order_request_id
                      (current\<lparr>or_status := status, or_status_reason_code := reason_code,
                               or_status_reason_message := reason_message,
                               or_submitted_at :=
                                 (case submitted_at of Some t \<Rightarrow> Some t
                                  | None \<Rightarrow> if status = SUBMITTED \<and> or_submitted_at current = None
                                            then Some now else or_submitted_at current)\<rparr>)
                      (rp_orders w)\<rparr>)))"

section \<open>The interface of the order repository\<close>

locale order_repository =
  fixes get :: "'s \<Rightarrow> uuid \<Rightarrow> order_request option"
    and upd :: "timestamp \<Rightarrow> uuid \<Rightarrow> order_status \<Rightarrow> string option \<Rightarrow> message option \<Rightarrow> int option
      \<Rightarrow> timestamp option \<Rightarrow> 's \<Rightarrow> (order_error + unit) \<times> 's"
  assumes upd_missing: "get s i = None \<Longrightarrow> upd t i st rc rm ev sub s = (Inl (Key_Error i), s)"
    and upd_conflict: "get s i = Some x \<Longrightarrow> or_version x \<noteq> v \<Longrightarrow>
      upd t i st rc rm (Some v) sub s = (Inl (Version_Conflict i v (or_version x)), s)"
    and upd_match: "get s i = Some x \<Longrightarrow> or_version x = v \<Longrightarrow> \<exists>s' y.
      upd t i st rc rm (Some v) sub s = (Inr (), s') \<and> get s' i = Some y
      \<and> or_status y = st \<and> or_version y = v + 1 \<and> or_order_request_id y = or_order_request_id x
      \<and> or_client_order_id y = or_client_order_id x \<and> or_account_id y = or_account_id x
      \<and> or_requested_quantity y = or_requested_quantity x
      \<and> (or_submitted_at x \<noteq> None \<longrightarrow> or_submitted_at y \<noteq> None)"
    and upd_other: "j \<noteq> i \<Longrightarrow> get (snd (upd t i st rc rm ev sub s)) j = get s j"
begin

lemma upd_cases:
  obtains (missing) "get s i = None" "upd t i st rc rm (Some v) sub s = (Inl (Key_Error i), s)"
  | (conflict) x where "get s i = Some x" "or_version x \<noteq> v"
      "upd t i st rc rm (Some v) sub s = (Inl (Version_Conflict i v (or_version x)), s)"
  | (match) x s' y where "get s i = Some x" "or_version x = v"
      "upd t i st rc rm (Some v) sub s = (Inr (), s')" "get s' i = Some y" "or_status y = st"
      "or_version y = v + 1"
proof (cases "get s i")
  case (Some x)
  show ?thesis
  proof (cases "or_version x = v")
    case True
    then show ?thesis
      using match [of x] upd_match [OF Some True, of t st rc rm sub] Some by auto
  qed (use conflict upd_conflict Some in blast)
qed (use missing upd_missing in blast)

lemma upd_ok_iff:
  "(\<exists>s'. upd t i st rc rm (Some v) sub s = (Inr (), s')) \<longleftrightarrow> (\<exists>x. get s i = Some x \<and> or_version x = v)"
  by (rule upd_cases [of s i t st rc rm v sub]) auto

lemma upd_failed_unchanged:
  "upd t i st rc rm (Some v) sub s = (Inl e, s') \<Longrightarrow> s' = s"
  by (rule upd_cases [of s i t st rc rm v sub]) auto

text \<open>Of two writers that read the same version only the first succeeds.\<close>

lemma second_writer_conflicts:
  assumes "upd t i st rc rm (Some v) sub s = (Inr (), s')"
  shows "upd t' i st' rc' rm' (Some v) sub' s' = (Inl (Version_Conflict i v (v + 1)), s')"
proof -
  obtain y where "get s' i = Some y" "or_version y = v + 1"
    using assms by (cases rule: upd_cases [of s i t st rc rm v sub]) auto
  then show ?thesis using upd_conflict [of s' i y v] by simp
qed

end

lemma map_of_update [simp]: "map_of (AList.update k v xs) = (map_of xs)(k \<mapsto> v)"
  by (simp add: update_conv')

interpretation order_store: order_repository order_get order_update_status
proof
  fix s :: repos and i j st rc rm ev sub t x v
  show "j \<noteq> i \<Longrightarrow> order_get (snd (order_update_status t i st rc rm ev sub s)) j = order_get s j"
    by (simp add: order_get_def order_update_status_def split: option.split)
qed (auto simp: order_get_def order_update_status_def split: option.split)

lemma order_get_add:
  "order_get (order_add x w) i = (if i = or_order_request_id x then Some x else order_get w i)"
  by (simp add: order_get_def order_add_def)

end
