(* ===== verification/Reconciliation.thy ===== *)
theory Reconciliation
  imports Order_Repository
begin

text \<open>
  Reconciliation runs and blocking locks: the in-memory repository
  (\<^verbatim>\<open>InMemoryReconciliationRepository\<close> of \<^verbatim>\<open>repositories/memory.py\<close>) and the service over it
  (\<^verbatim>\<open>services/reconciliation_service.py\<close>).  The service first tries SQL on the repository's
  connection and falls back to the repository's own lock methods when there is none; the model
  is the fallback, which is the code of this repository.
\<close>

section \<open>Repository\<close>

definition add_run :: "reconciliation_run \<Rightarrow> reconciliation_store \<Rightarrow> reconciliation_store" where
  "add_run run s = s\<lparr>rc_runs := AList.update (rr_reconciliation_run_id run) run (rc_runs s)\<rparr>"

definition get_run :: "reconciliation_store \<Rightarrow> uuid \<Rightarrow> reconciliation_run option" where
  "get_run s run_id = map_of (rc_runs s) run_id"

definition links_of :: "(uuid \<times> mismatch_link list) list \<Rightarrow> uuid \<Rightarrow> mismatch_link list" where
  "links_of links run_id = (case map_of links run_id of Some ls \<Rightarrow> ls | None \<Rightarrow> [])"

definition attach_order_mismatch ::
  "uuid \<Rightarrow> uuid \<Rightarrow> string \<Rightarrow> json_object \<Rightarrow> reconciliation_store \<Rightarrow> reconciliation_store" where
  "attach_order_mismatch run_id order_request_id mismatch_type details s =
     s\<lparr>rc_order_links := AList.update run_id
         (links_of (rc_order_links s) run_id
          @ [\<lparr>ml_target_id = order_request_id, ml_mismatch_type = mismatch_type, ml_details = details\<rparr>])
         (rc_order_links s)\<rparr>"

definition attach_position_mismatch ::
  "uuid \<Rightarrow> uuid \<Rightarrow> string \<Rightarrow> json_object \<Rightarrow> reconciliation_store \<Rightarrow> reconciliation_store" where
  "attach_position_mismatch run_id position_snapshot_id mismatch_type details s =
     s\<lparr>rc_position_links := AList.update run_id
         (links_of (rc_position_links s) run_id
          @ [\<lparr>ml_target_id = position_snapshot_id, ml_mismatch_type = mismatch_type, ml_details = details\<rparr>])
         (rc_position_links s)\<rparr>"

definition newest_first :: "reconciliation_run list \<Rightarrow> reconciliation_run list" where
  "newest_first = sort_key (\<lambda>x. - rr_started_at x)"

definition list_runs_by_account :: "reconciliation_store \<Rightarrow> uuid \<Rightarrow> nat \<Rightarrow> reconciliation_run list" where
  "list_runs_by_account s account_id limit =
     take limit (newest_first (filter (\<lambda>r. rr_account_id r = account_id) (map snd (rc_runs s))))"

definition get_active_run :: "reconciliation_store \<Rightarrow> uuid \<Rightarrow> reconciliation_run option" where
  "get_active_run s account_id =
     (case newest_first (filter (\<lambda>r. rr_account_id r = account_id \<and> rr_status r = ''started'')
             (map snd (rc_runs s))) of
        [] \<Rightarrow> None | r # _ \<Rightarrow> Some r)"

definition update_run_status ::
  "uuid \<Rightarrow> string \<Rightarrow> timestamp option \<Rightarrow> json_object option \<Rightarrow> reconciliation_store
   \<Rightarrow> reconciliation_store" where
  "update_run_status run_id status completed_at summary_json s =
     (case map_of (rc_runs s) run_id of
        None \<Rightarrow> s
      | Some run \<Rightarrow>
          s\<lparr>rc_runs := AList.update run_id
              (run\<lparr>rr_status := status,
                   rr_summary_json := (case summary_json of Some j \<Rightarrow> j | None \<Rightarrow> rr_summary_json run),
                   rr_completed_at := (case completed_at of Some t \<Rightarrow> Some t | None \<Rightarrow> rr_completed_at run)\<rparr>)
              (rc_runs s)\<rparr>)"

definition list_pending_runs ::
  "reconciliation_store \<Rightarrow> nat \<Rightarrow> uuid option \<Rightarrow> uuid option \<Rightarrow> reconciliation_run list" where
  "list_pending_runs s limit account_id run_id =
     take limit (sort_key rr_started_at
       (filter (\<lambda>r. rr_status r = ''started'' \<and> agrees account_id (rr_account_id r)
                    \<and> agrees run_id (rr_reconciliation_run_id r)) (map snd (rc_runs s))))"

definition list_legacy_runs ::
  "reconciliation_store \<Rightarrow> nat \<Rightarrow> uuid option \<Rightarrow> uuid option \<Rightarrow> reconciliation_run list" where
  "list_legacy_runs s limit account_id run_id =
     take limit (sort_key rr_started_at
       (filter (\<lambda>r. rr_status r = ''started''
                    \<and> links_of (rc_order_links s) (rr_reconciliation_run_id r) = []
                    \<and> agrees account_id (rr_account_id r)
                    \<and> agrees run_id (rr_reconciliation_run_id r)) (map snd (rc_runs s))))"

definition get_run_order_links :: "reconciliation_store \<Rightarrow> uuid \<Rightarrow> mismatch_link list" where
  "get_run_order_links s run_id = links_of (rc_order_links s) run_id"

definition acquire_lock ::
  "timestamp \<Rightarrow> lock_key \<Rightarrow> string \<Rightarrow> uuid \<Rightarrow> timestamp \<Rightarrow> reconciliation_store
   \<Rightarrow> bool \<times> reconciliation_store" where
  "acquire_lock now key reason locked_by_run_id expires_at s =
     (let lock = \<lparr>bl_reason = reason, bl_locked_by_run_id = locked_by_run_id, bl_expires_at = expires_at\<rparr>;
          s' = s\<lparr>rc_blocking_locks := AList.update key lock (rc_blocking_locks s)\<rparr>
      in case map_of (rc_blocking_locks s) key of
           Some existing \<Rightarrow> if bl_expires_at existing \<le> now then (True, s') else (False, s)
         | None \<Rightarrow> (True, s'))"

definition release_lock ::
  "lock_key \<Rightarrow> uuid option \<Rightarrow> reconciliation_store \<Rightarrow> reconciliation_store" where
  "release_lock key locked_by_run_id s =
     (case key of (account_id, strategy_id, symbol, side) \<Rightarrow>
        (case locked_by_run_id of
           Some run_id \<Rightarrow>
             s\<lparr>rc_blocking_locks := filter (\<lambda>(k, v). \<not> (fst k = account_id \<and> bl_locked_by_run_id v = run_id))
                 (rc_blocking_locks s)\<rparr>
         | None \<Rightarrow>
             if strategy_id = None \<and> symbol = None \<and> side = None
             then s\<lparr>rc_blocking_locks := filter (\<lambda>(k, v). fst k \<noteq> account_id) (rc_blocking_locks s)\<rparr>
             else s\<lparr>rc_blocking_locks := AList.delete key (rc_blocking_locks s)\<rparr>))"

definition is_locked :: "timestamp \<Rightarrow> lock_key \<Rightarrow> reconciliation_store \<Rightarrow> bool \<times> reconciliation_store" where
  "is_locked now key s =
     (case map_of (rc_blocking_locks s) key of
        None \<Rightarrow> (False, s)
      | Some lock \<Rightarrow>
          if bl_expires_at lock \<le> now
          then (False, s\<lparr>rc_blocking_locks := AList.delete key (rc_blocking_locks s)\<rparr>)
          else (True, s))"

section \<open>Service\<close>

definition lock_ttl :: int where "lock_ttl = 30 * 60 * 1000000"

definition acquire_blocking_lock ::
  "env \<Rightarrow> lock_key \<Rightarrow> string \<Rightarrow> uuid \<Rightarrow> reconciliation_store \<Rightarrow> reconciliation_store" where
  "acquire_blocking_lock ev key reason locked_by_run_id s =
     snd (acquire_lock (now_at ev ''repository'') key reason locked_by_run_id
            (now_at ev ''acquire'' + lock_ttl) s)"

definition release_blocking_lock ::
  "lock_key \<Rightarrow> uuid option \<Rightarrow> reconciliation_store \<Rightarrow> reconciliation_store" where
  "release_blocking_lock = release_lock"

definition is_blocked :: "timestamp \<Rightarrow> lock_key \<Rightarrow> reconciliation_store \<Rightarrow> bool \<times> reconciliation_store" where
  "is_blocked = is_locked"

definition started_run :: "env \<Rightarrow> uuid \<Rightarrow> string \<Rightarrow> reconciliation_run" where
  "started_run ev account_id trigger_type =
     \<lparr>rr_reconciliation_run_id = uuid_at ev ''run'', rr_account_id = account_id,
      rr_trigger_type = trigger_type, rr_status = ''started'', rr_started_at = now_at ev ''run'',
      rr_mismatch_count = 0, rr_summary_json = [], rr_completed_at = None,
      rr_created_at = Some (now_at ev ''run'')\<rparr>"

text \<open>The account is the first component of the scope.\<close>

definition trigger ::
  "env \<Rightarrow> string \<Rightarrow> lock_key \<Rightarrow> reconciliation_store \<Rightarrow> reconciliation_run \<times> reconciliation_store" where
  "trigger ev trigger_type scope s =
     (case get_active_run s (fst scope) of
        Some active_run \<Rightarrow> (active_run, s)
      | None \<Rightarrow>
          (let run = started_run ev (fst scope) trigger_type
           in (run, acquire_blocking_lock ev scope (''reconciliation:'' @ trigger_type)
                      (rr_reconciliation_run_id run) (add_run run s))))"

definition trigger_and_link ::
  "env \<Rightarrow> string \<Rightarrow> lock_key \<Rightarrow> uuid option \<Rightarrow> reconciliation_store
   \<Rightarrow> reconciliation_run \<times> reconciliation_store" where
  "trigger_and_link ev trigger_type scope order_request_id s =
     (let (run, s') = trigger ev trigger_type scope s
      in case order_request_id of
           None \<Rightarrow> (run, s')
         | Some oid \<Rightarrow>
             (run, attach_order_mismatch (rr_reconciliation_run_id run) oid ''pending_inquiry''
                [(''trigger_type'', JText trigger_type), (''linked_at'', JTime (now_at ev ''link''))] s'))"

definition mark_resolved ::
  "uuid \<Rightarrow> json_object option \<Rightarrow> reconciliation_store \<Rightarrow> (order_error + unit) \<times> reconciliation_store" where
  "mark_resolved run_id summary_json s =
     (case get_run s run_id of
        None \<Rightarrow> (Inl (Value_Error ''Reconciliation run not found''), s)
      | Some run \<Rightarrow>
          (Inr (), release_blocking_lock (rr_account_id run, None, None, None) (Some run_id)
                     (update_run_status run_id ''resolved'' None summary_json s)))"

definition halt_run ::
  "timestamp \<Rightarrow> uuid \<Rightarrow> json_object option \<Rightarrow> reconciliation_store
   \<Rightarrow> (order_error + reconciliation_run) \<times> reconciliation_store" where
  "halt_run now run_id summary_json s =
     (case get_run s run_id of
        None \<Rightarrow> (Inl (Value_Error ''Reconciliation run not found''), s)
      | Some run \<Rightarrow>
          (let summary = (case summary_json of Some j \<Rightarrow> j | None \<Rightarrow> []);
               updated_summary = (if map_of summary ''halted_at'' = None
                                  then summary @ [(''halted_at'', JTime now)] else summary);
               s' = update_run_status run_id ''halted'' (Some now) (Some updated_summary) s
           in case get_run s' run_id of
                Some updated \<Rightarrow> (Inr updated, s')
              | None \<Rightarrow> (Inl (Value_Error ''assertion''), s')))"

section \<open>Invariant\<close>

text \<open>
  Runs are stored under their own identifiers, an account has at most one started run, and
  every lock belongs to a known run of its account that is not resolved.
\<close>

definition is_started :: "reconciliation_run \<Rightarrow> bool" where
  "is_started r \<longleftrightarrow> rr_status r = ''started''"

definition runs_ok :: "reconciliation_store \<Rightarrow> bool" where
  "runs_ok s \<longleftrightarrow>
     distinct (map fst (rc_runs s))
     \<and> (\<forall>i r. get_run s i = Some r \<longrightarrow> rr_reconciliation_run_id r = i)
     \<and> (\<forall>i r j r'. get_run s i = Some r \<longrightarrow> get_run s j = Some r' \<longrightarrow> is_started r \<longrightarrow> is_started r'
          \<longrightarrow> rr_account_id r = rr_account_id r' \<longrightarrow> i = j)"

definition lock_at :: "reconciliation_store \<Rightarrow> lock_key \<Rightarrow> blocking_lock option" where
  "lock_at s k = map_of (rc_blocking_locks s) k"

definition lock_owned :: "reconciliation_store \<Rightarrow> lock_key \<Rightarrow> blocking_lock \<Rightarrow> bool" where
  "lock_owned s k l \<longleftrightarrow> (\<exists>r. get_run s (bl_locked_by_run_id l) = Some r \<and> rr_account_id r = fst k
     \<and> rr_status r \<noteq> ''resolved'')"

definition locks_ok :: "reconciliation_store \<Rightarrow> bool" where
  "locks_ok s \<longleftrightarrow>
     distinct (map fst (rc_blocking_locks s)) \<and> (\<forall>k l. lock_at s k = Some l \<longrightarrow> lock_owned s k l)"

definition reconciliation_ok :: "reconciliation_store \<Rightarrow> bool" where
  "reconciliation_ok s \<longleftrightarrow> runs_ok s \<and> locks_ok s"

definition empty_store :: reconciliation_store where
  "empty_store = \<lparr>rc_runs = [], rc_order_links = [], rc_position_links = [], rc_blocking_locks = []\<rparr>"

text \<open>One call of the service.  A new run gets an identifier that no run and no lock has.\<close>

inductive reconciliation_step :: "reconciliation_store \<Rightarrow> reconciliation_store \<Rightarrow> bool" where
  step_trigger: "get_run s (uuid_at ev ''run'') = None \<Longrightarrow>
    reconciliation_step s (snd (trigger_and_link ev ty scope oid s))"
| step_resolve: "reconciliation_step s (snd (mark_resolved run_id j s))"
| step_halt: "reconciliation_step s (snd (halt_run now run_id j s))"
| step_reflection_failed: "reconciliation_step s (update_run_status run_id ''reflection_failed'' None j s)"
| step_attach_order: "reconciliation_step s (attach_order_mismatch run_id oid ty d s)"
| step_attach_position: "reconciliation_step s (attach_position_mismatch run_id pid ty d s)"
| step_is_blocked: "reconciliation_step s (snd (is_blocked now key s))"
| step_release: "reconciliation_step s (release_blocking_lock key run_id s)"

lemma map_of_filter_iff:
  "distinct (map fst xs) \<Longrightarrow> map_of (filter p xs) k = Some v \<longleftrightarrow> map_of xs k = Some v \<and> p (k, v)"
  by (simp add: distinct_map_filter)

lemma map_of_delete [simp]: "map_of (AList.delete k xs) = (map_of xs)(k := None)"
  by (simp add: delete_conv')

lemma get_run_simps [simp]:
  "get_run (add_run r s) i = (if i = rr_reconciliation_run_id r then Some r else get_run s i)"
  "get_run (s\<lparr>rc_blocking_locks := l\<rparr>) i = get_run s i"
  "get_run (s\<lparr>rc_order_links := ol\<rparr>) i = get_run s i"
  "get_run (s\<lparr>rc_position_links := pl\<rparr>) i = get_run s i"
  by (simp_all add: get_run_def add_run_def)

lemma runs_ok_simps [simp]:
  "runs_ok (s\<lparr>rc_blocking_locks := l\<rparr>) = runs_ok s"
  "runs_ok (s\<lparr>rc_order_links := ol\<rparr>) = runs_ok s"
  "runs_ok (s\<lparr>rc_position_links := pl\<rparr>) = runs_ok s"
  "locks_ok (s\<lparr>rc_order_links := ol\<rparr>) = locks_ok s"
  "locks_ok (s\<lparr>rc_position_links := pl\<rparr>) = locks_ok s"
  by (simp_all add: runs_ok_def locks_ok_def lock_at_def lock_owned_def)

lemma newest_first_eq_Nil [simp]: "newest_first xs = [] \<longleftrightarrow> xs = []"
  unfolding newest_first_def by (metis length_0_conv length_sort)

lemma get_active_run_None:
  assumes "get_active_run s a = None" and "get_run s i = Some r" and "rr_account_id r = a"
  shows "\<not> is_started r"
proof -
  have "r \<in> set (map snd (rc_runs s))"
    using assms(2) unfolding get_run_def by (metis image_eqI list.set_map map_of_SomeD snd_conv)
  moreover have "filter (\<lambda>r. rr_account_id r = a \<and> rr_status r = ''started'') (map snd (rc_runs s)) = []"
    using assms(1) newest_first_eq_Nil unfolding get_active_run_def by (auto split: list.splits)
  ultimately show ?thesis
    using assms(3) unfolding is_started_def filter_empty_conv by blast
qed

lemma get_active_run_Some:
  assumes "get_active_run s a = Some r"
  shows "rr_account_id r = a" "is_started r" "r \<in> set (map snd (rc_runs s))"
proof -
  let ?xs = "filter (\<lambda>r. rr_account_id r = a \<and> rr_status r = ''started'') (map snd (rc_runs s))"
  obtain rest where "newest_first ?xs = r # rest"
    using assms unfolding get_active_run_def by (auto split: list.splits)
  then have "r \<in> set (newest_first ?xs)" by simp
  then have "r \<in> set ?xs" unfolding newest_first_def by simp
  then show "rr_account_id r = a" "is_started r" "r \<in> set (map snd (rc_runs s))"
    by (auto simp: is_started_def)
qed

lemma get_active_run_known:
  assumes "runs_ok s" and "get_active_run s a = Some r"
  shows "get_run s (rr_reconciliation_run_id r) = Some r"
proof -
  obtain i where "(i, r) \<in> set (rc_runs s)" using get_active_run_Some(3) [OF assms(2)] by auto
  then have "get_run s i = Some r" using assms(1) unfolding runs_ok_def get_run_def by simp
  with assms(1) show ?thesis unfolding runs_ok_def by metis
qed

lemma add_run_ok:
  assumes "runs_ok s" and "get_active_run s (rr_account_id run) = None"
    and "get_run s (rr_reconciliation_run_id run) = None"
  shows "runs_ok (add_run run s)"
proof -
  have "distinct (map fst (rc_runs (add_run run s)))"
    using assms(1) by (simp add: add_run_def runs_ok_def distinct_update)
  moreover have "\<not> is_started r"
    if "get_run s i = Some r" "rr_account_id r = rr_account_id run" for i r
    using get_active_run_None [OF assms(2) that] .
  ultimately show ?thesis
    using assms(1) unfolding runs_ok_def by (auto split: if_splits)
qed

lemma update_run_status_run:
  "get_run (update_run_status i st c j s) k =
     (if k = i then map_option (\<lambda>r. r\<lparr>rr_status := st,
        rr_summary_json := (case j of Some x \<Rightarrow> x | None \<Rightarrow> rr_summary_json r),
        rr_completed_at := (case c of Some t \<Rightarrow> Some t | None \<Rightarrow> rr_completed_at r)\<rparr>) (get_run s i)
      else get_run s k)"
  by (simp add: get_run_def update_run_status_def split: option.split)

lemma update_run_status_locks [simp]:
  "rc_blocking_locks (update_run_status i st c j s) = rc_blocking_locks s"
  by (simp add: update_run_status_def split: option.split)

lemma update_run_status_runs_ok:
  assumes "runs_ok s" and "st \<noteq> ''started''"
  shows "runs_ok (update_run_status i st c j s)"
proof -
  have "distinct (map fst (rc_runs (update_run_status i st c j s)))"
    using assms(1) by (simp add: update_run_status_def runs_ok_def distinct_update split: option.split)
  moreover have "\<not> is_started r" if "get_run (update_run_status i st c j s) i = Some r" for r
    using that assms(2) by (auto simp: update_run_status_run is_started_def)
  moreover have "rr_reconciliation_run_id r = k" if "get_run (update_run_status i st c j s) k = Some r" for k r
    using that assms(1) unfolding runs_ok_def by (auto simp: update_run_status_run split: if_splits)
  ultimately show ?thesis
    using assms(1) unfolding runs_ok_def by (metis update_run_status_run)
qed

lemma update_run_status_locks_ok:
  assumes "locks_ok s" and "st \<noteq> ''resolved''"
  shows "locks_ok (update_run_status i st c j s)"
proof -
  have "lock_owned (update_run_status i st c j s) k l" if "lock_owned s k l" for k l
    using that assms(2) by (auto simp: lock_owned_def update_run_status_run)
  with assms(1) show ?thesis by (simp add: locks_ok_def lock_at_def)
qed

lemma lock_at_acquire:
  "lock_at (snd (acquire_lock now key reason i ex s)) k =
     (if k = key \<and> (\<forall>l. lock_at s key = Some l \<longrightarrow> bl_expires_at l \<le> now)
      then Some \<lparr>bl_reason = reason, bl_locked_by_run_id = i, bl_expires_at = ex\<rparr> else lock_at s k)"
  by (auto simp: acquire_lock_def lock_at_def Let_def split: option.split)

lemma acquire_lock_runs [simp]:
  "get_run (snd (acquire_lock now key reason i ex s)) = get_run s"
  "runs_ok (snd (acquire_lock now key reason i ex s)) = runs_ok s"
  by (auto simp: acquire_lock_def Let_def fun_eq_iff split: option.split)

lemma locks_okD: "locks_ok s \<Longrightarrow> lock_at s k = Some l \<Longrightarrow> lock_owned s k l"
  unfolding locks_ok_def by blast

lemma lock_owned_cong: "get_run s' = get_run s \<Longrightarrow> lock_owned s' = lock_owned s"
  by (simp add: lock_owned_def fun_eq_iff)

lemma acquire_lock_ok:
  assumes "locks_ok s" and "get_run s i = Some r" and "rr_account_id r = fst key"
    and "rr_status r \<noteq> ''resolved''"
  shows "locks_ok (snd (acquire_lock now key reason i ex s))"
proof -
  have "distinct (map fst (rc_blocking_locks (snd (acquire_lock now key reason i ex s))))"
    using assms(1)
    by (simp add: locks_ok_def acquire_lock_def Let_def distinct_update split: option.split)
  moreover have "lock_owned s k l" if "lock_at (snd (acquire_lock now key reason i ex s)) k = Some l" for k l
    using that assms(2-4) locks_okD [OF assms(1)] unfolding lock_at_acquire
    by (auto simp: lock_owned_def [of s key] split: if_splits)
  ultimately show ?thesis
    using lock_owned_cong [OF acquire_lock_runs(1)] by (simp add: locks_ok_def)
qed

lemma drop_locks_ok:
  assumes "locks_ok s" and "distinct (map fst ls)"
    and "\<And>k l. map_of ls k = Some l \<Longrightarrow> lock_at s k = Some l"
  shows "locks_ok (s\<lparr>rc_blocking_locks := ls\<rparr>)"
proof -
  have "lock_owned (s\<lparr>rc_blocking_locks := ls\<rparr>) k l" if "map_of ls k = Some l" for k l
    using locks_okD [OF assms(1) assms(3) [OF that]] by (simp add: lock_owned_def)
  with assms(2) show ?thesis unfolding locks_ok_def lock_at_def [of "s\<lparr>rc_blocking_locks := ls\<rparr>"] by simp
qed

lemma filter_locks_ok:
  assumes "locks_ok s"
  shows "locks_ok (s\<lparr>rc_blocking_locks := filter p (rc_blocking_locks s)\<rparr>)"
proof (rule drop_locks_ok [OF assms])
  have d: "distinct (map fst (rc_blocking_locks s))" using assms unfolding locks_ok_def by blast
  show "distinct (map fst (filter p (rc_blocking_locks s)))" using d by (rule distinct_map_filter)
  fix k l assume "map_of (filter p (rc_blocking_locks s)) k = Some l"
  then show "lock_at s k = Some l" unfolding map_of_filter_iff [OF d] lock_at_def by blast
qed

lemma delete_lock_ok:
  assumes "locks_ok s"
  shows "locks_ok (s\<lparr>rc_blocking_locks := AList.delete key (rc_blocking_locks s)\<rparr>)"
proof (rule drop_locks_ok [OF assms])
  show "distinct (map fst (AList.delete key (rc_blocking_locks s)))"
    using assms unfolding locks_ok_def by (blast intro: distinct_delete)
  fix k l assume "map_of (AList.delete key (rc_blocking_locks s)) k = Some l"
  then show "lock_at s k = Some l" by (simp add: lock_at_def split: if_splits)
qed

lemma release_lock_ok: "locks_ok s \<Longrightarrow> locks_ok (release_lock key run_id s)"
  by (cases key) (simp add: release_lock_def filter_locks_ok delete_lock_ok split: option.split)

lemma release_lock_runs [simp]:
  "runs_ok (release_lock key run_id s) = runs_ok s"
  "get_run (release_lock key run_id s) = get_run s"
  by (cases key; auto simp: release_lock_def fun_eq_iff split: option.split)+

lemma is_locked_ok: "reconciliation_ok s \<Longrightarrow> reconciliation_ok (snd (is_locked now key s))"
  by (simp add: reconciliation_ok_def is_locked_def delete_lock_ok split: option.split)

lemma add_run_locks_ok:
  assumes "locks_ok s" and "get_run s (rr_reconciliation_run_id run) = None"
  shows "locks_ok (add_run run s)"
proof -
  have "lock_owned (add_run run s) k l" if "lock_owned s k l" for k l
    using that assms(2) by (auto simp: lock_owned_def)
  with assms(1) show ?thesis by (simp add: locks_ok_def lock_at_def add_run_def)
qed

lemma trigger_ok:
  assumes "reconciliation_ok s" and "get_run s (uuid_at ev ''run'') = None"
  shows "reconciliation_ok (snd (trigger ev ty scope s))"
proof (cases "get_active_run s (fst scope)")
  case None
  let ?r = "started_run ev (fst scope) ty"
  have r: "rr_account_id ?r = fst scope" "rr_reconciliation_run_id ?r = uuid_at ev ''run''"
    "rr_status ?r \<noteq> ''resolved''" by (simp_all add: started_run_def)
  have ok: "runs_ok (add_run ?r s)" "locks_ok (add_run ?r s)"
    using assms None r by (auto simp: reconciliation_ok_def intro!: add_run_ok add_run_locks_ok)
  have "locks_ok (snd (acquire_lock n scope m (rr_reconciliation_run_id ?r) e (add_run ?r s)))" for n m e
    using r by (intro acquire_lock_ok [OF ok(2)]) simp_all
  with ok None show ?thesis
    by (simp add: trigger_def Let_def reconciliation_ok_def acquire_blocking_lock_def)
qed (use assms in \<open>simp add: trigger_def\<close>)

lemma attach_ok:
  "reconciliation_ok s \<Longrightarrow> reconciliation_ok (attach_order_mismatch i t ty d s)"
  "reconciliation_ok s \<Longrightarrow> reconciliation_ok (attach_position_mismatch i t ty d s)"
  by (simp_all add: reconciliation_ok_def attach_order_mismatch_def attach_position_mismatch_def)

lemma mark_resolved_ok:
  assumes "reconciliation_ok s"
  shows "reconciliation_ok (snd (mark_resolved i j s))"
proof (cases "get_run s i")
  case (Some run)
  let ?s = "update_run_status i ''resolved'' None j s"
  let ?t = "release_lock (rr_account_id run, None, None, None) (Some i) ?s"
  have d: "distinct (map fst (rc_blocking_locks s))"
    and own: "\<And>k l. lock_at s k = Some l \<Longrightarrow> lock_owned s k l"
    using assms unfolding reconciliation_ok_def locks_ok_def by blast+
  have "lock_owned ?t k l" if "lock_at ?t k = Some l" for k l
  proof -
    have "map_of (filter (\<lambda>(k, v). \<not> (fst k = rr_account_id run \<and> bl_locked_by_run_id v = i))
        (rc_blocking_locks s)) k = Some l"
      using that by (simp add: lock_at_def release_lock_def)
    then have "lock_at s k = Some l" and n: "\<not> (fst k = rr_account_id run \<and> bl_locked_by_run_id l = i)"
      unfolding map_of_filter_iff [OF d] lock_at_def by auto
    then obtain r where r: "get_run s (bl_locked_by_run_id l) = Some r" "rr_account_id r = fst k"
      "rr_status r \<noteq> ''resolved''"
      using own unfolding lock_owned_def by blast
    then have "bl_locked_by_run_id l \<noteq> i" using n Some by auto
    with r show ?thesis by (auto simp: lock_owned_def update_run_status_run)
  qed
  moreover have "distinct (map fst (rc_blocking_locks ?t))"
    using d by (simp add: release_lock_def distinct_map_filter)
  ultimately have "locks_ok ?t" unfolding locks_ok_def by blast
  then show ?thesis
    using Some assms update_run_status_runs_ok [of s "''resolved''" i None j]
    by (simp add: mark_resolved_def reconciliation_ok_def release_blocking_lock_def)
qed (use assms in \<open>simp add: mark_resolved_def\<close>)

lemma status_update_ok:
  "reconciliation_ok s \<Longrightarrow> st \<noteq> ''started'' \<Longrightarrow> st \<noteq> ''resolved'' \<Longrightarrow>
     reconciliation_ok (update_run_status i st c j s)"
  by (simp add: reconciliation_ok_def update_run_status_runs_ok update_run_status_locks_ok)

lemma halt_run_ok: "reconciliation_ok s \<Longrightarrow> reconciliation_ok (snd (halt_run now i j s))"
  by (simp add: halt_run_def Let_def status_update_ok split: option.split)

lemma reconciliation_step_ok: "reconciliation_step s s' \<Longrightarrow> reconciliation_ok s \<Longrightarrow> reconciliation_ok s'"
proof (induction rule: reconciliation_step.induct)
  case (step_trigger s ev ty scope oid)
  then show ?case
    using trigger_ok [of s ev ty scope]
    by (simp add: trigger_and_link_def split_beta attach_ok split: option.split)
next
  case (step_release s key run_id)
  then show ?case by (simp add: reconciliation_ok_def release_blocking_lock_def release_lock_ok)
qed (simp_all add: mark_resolved_ok halt_run_ok status_update_ok attach_ok is_locked_ok is_blocked_def)

lemma empty_store_ok: "reconciliation_ok empty_store"
  by (simp add: reconciliation_ok_def runs_ok_def locks_ok_def lock_at_def empty_store_def get_run_def)

text \<open>A trigger always leaves a started run behind, and one on an account that has such a run leaves
  the locks alone.\<close>

lemma trigger_activates: "get_active_run (snd (trigger ev ty scope s)) (fst scope) \<noteq> None"
proof (cases "get_active_run s (fst scope)")
  case None
  let ?t = "snd (trigger ev ty scope s)" and ?r = "started_run ev (fst scope) ty"
  have "(uuid_at ev ''run'', ?r) \<in> set (rc_runs ?t)"
    using None
    by (auto simp: trigger_def Let_def acquire_blocking_lock_def acquire_lock_def add_run_def started_run_def
        split: option.split intro: map_of_SomeD)
  then have "filter (\<lambda>r. rr_account_id r = fst scope \<and> rr_status r = ''started'') (map snd (rc_runs ?t)) \<noteq> []"
    unfolding filter_empty_conv by (force simp: started_run_def)
  then have "newest_first (filter (\<lambda>r. rr_account_id r = fst scope \<and> rr_status r = ''started'')
      (map snd (rc_runs ?t))) \<noteq> []"
    by simp
  then show ?thesis unfolding get_active_run_def by (simp split: list.split)
qed (simp add: trigger_def)

lemma trigger_and_link_locks:
  "get_active_run s (fst scope) \<noteq> None \<Longrightarrow>
     rc_blocking_locks (snd (trigger_and_link ev ty scope oid s)) = rc_blocking_locks s"
  by (auto simp: trigger_and_link_def trigger_def attach_order_mismatch_def split: option.split)

lemma is_blocked_cong: "rc_blocking_locks s' = rc_blocking_locks s \<Longrightarrow> fst (is_blocked t k s') = fst (is_blocked t k s)"
  by (simp add: is_blocked_def is_locked_def split: option.split)

lemma trigger_lock:
  assumes "get_active_run s (fst scope) = None" and "lock_at s scope = None"
  shows "fst (is_blocked t scope (snd (trigger ev ty scope s))) \<longleftrightarrow> t < now_at ev ''acquire'' + lock_ttl"
  using assms
  by (auto simp: trigger_def is_blocked_def is_locked_def acquire_blocking_lock_def acquire_lock_def
      add_run_def lock_at_def Let_def split: option.split)

lemma resolve_locks:
  assumes "reconciliation_ok s" and "get_run s i = Some run"
  shows "lock_at (snd (mark_resolved i j s)) k =
    (case lock_at s k of
       Some l \<Rightarrow> if bl_locked_by_run_id l = i then None else Some l | None \<Rightarrow> None)"
proof -
  have d: "distinct (map fst (rc_blocking_locks s))"
    using assms(1) unfolding reconciliation_ok_def locks_ok_def by blast
  let ?p = "\<lambda>(k, v). \<not> (fst k = rr_account_id run \<and> bl_locked_by_run_id v = i)"
  have l: "lock_at (snd (mark_resolved i j s)) k = map_of (filter ?p (rc_blocking_locks s)) k"
    using assms(2)
    by (simp add: mark_resolved_def release_blocking_lock_def release_lock_def lock_at_def)
  have "fst k = rr_account_id run" if "lock_at s k = Some l" "bl_locked_by_run_id l = i" for l
    using locks_okD [of s k l] that assms unfolding reconciliation_ok_def lock_owned_def by auto
  then have h: "lock_at (snd (mark_resolved i j s)) k = Some l \<longleftrightarrow>
      lock_at s k = Some l \<and> bl_locked_by_run_id l \<noteq> i" for l
    unfolding l map_of_filter_iff [OF d] lock_at_def [symmetric] by auto
  show ?thesis
  proof (cases "lock_at (snd (mark_resolved i j s)) k")
    case None
    then show ?thesis using h by (simp split: option.split)
  next
    case (Some l)
    then show ?thesis using h [of l] by simp
  qed
qed

section \<open>Properties\<close>

definition ex_env :: env where
  "ex_env = \<lparr>ev_now = (\<lambda>_. 0), ev_uuid = (\<lambda>_. 7)\<rparr>"

definition ex_scope :: lock_key where
  "ex_scope = (1, None, Some ''005930'', Some ''buy'')"

text \<open>C11. Runs and locks stay consistent: in every state the service can reach, an account has at
  most one started run, and every blocking lock is owned by a known, unresolved run of its
  account.\<close>

theorem reconciliation_stays_consistent:
  assumes "reconciliation_step\<^sup>*\<^sup>* empty_store s"
  shows "reconciliation_ok s"
  using assms by (induction rule: rtranclp_induct) (auto intro: empty_store_ok reconciliation_step_ok)

theorem reconciliation_stays_consistent_witness:
  "reconciliation_ok (snd (trigger_and_link ex_env ''uncertain_result'' ex_scope (Some 3) empty_store))"
  by (rule reconciliation_stays_consistent, rule r_into_rtranclp, rule step_trigger)
     (simp add: get_run_def empty_store_def)

text \<open>A trigger blocks its scope for thirty minutes: when the account has no started run and
  the scope no lock, the scope is blocked after the trigger exactly until the time to live is
  over.\<close>

theorem trigger_blocks_scope:
  assumes "get_active_run s (fst scope) = None" and "lock_at s scope = None"
  shows "fst (is_blocked t scope (snd (trigger ev ty scope s))) \<longleftrightarrow> t < now_at ev ''acquire'' + lock_ttl"
  using assms by (rule trigger_lock)

theorem trigger_blocks_scope_witness:
  "fst (is_blocked 1799999999 ex_scope (snd (trigger ex_env ''uncertain_result'' ex_scope empty_store)))
   \<and> \<not> fst (is_blocked 1800000000 ex_scope (snd (trigger ex_env ''uncertain_result'' ex_scope empty_store)))"
  using trigger_blocks_scope [of empty_store ex_scope _ ex_env "''uncertain_result''"]
  by (simp add: get_active_run_def newest_first_def lock_at_def empty_store_def lock_ttl_def now_at_def
      ex_env_def)

text \<open>Resolving a run releases exactly its own locks: afterwards no lock of that run is left,
  and every lock of another run, on the same account too, is as it was.\<close>

theorem resolve_releases_own_locks:
  assumes "reconciliation_ok s" and "get_run s i = Some run"
  shows "lock_at (snd (mark_resolved i j s)) k =
    (case lock_at s k of
       Some l \<Rightarrow> if bl_locked_by_run_id l = i then None else Some l | None \<Rightarrow> None)"
  using assms by (rule resolve_locks)

theorem resolve_releases_own_locks_witness:
  "lock_at (snd (mark_resolved 7 None (snd (trigger ex_env ''uncertain_result'' ex_scope empty_store)))) ex_scope
   = None"
proof -
  let ?s = "snd (trigger ex_env ''uncertain_result'' ex_scope empty_store)"
  have u: "get_run empty_store (uuid_at ex_env ''run'') = None" by (simp add: get_run_def empty_store_def)
  have "get_run ?s 7 = Some (started_run ex_env 1 ''uncertain_result'')" by code_simp
  moreover have "lock_at ?s ex_scope = Some \<lparr>bl_reason = ''reconciliation:uncertain_result'',
      bl_locked_by_run_id = 7, bl_expires_at = 1800000000\<rparr>"
    by code_simp
  ultimately show ?thesis
    using resolve_releases_own_locks [OF trigger_ok [OF empty_store_ok u]] by simp
qed

end
