(* ===== verification/Order_Manager.thy ===== *)
theory Order_Manager
  imports Reconciliation
begin

text \<open>
  The order manager (\<^verbatim>\<open>services/order_manager.py\<close>) and the part of the reconciliation service
  that drives it (\<^verbatim>\<open>resolve_and_mark\<close> of \<^verbatim>\<open>services/reconciliation_service.py\<close>).

  Parameters: \<open>digest\<close> (SHA-256 in hexadecimal), \<open>dec_str\<close> (\<open>str\<close> of a \<open>Decimal\<close>), \<open>parse_uuid\<close> (the
  \<open>UUID\<close> constructor, \<open>None\<close> where it raises), the outcome of the broker call with its duration,
  and \<open>others\<close>: what other coroutines do to the repositories while this one awaits, addressed
  by the place of the await.
\<close>

section \<open>State machine tables\<close>

fun allowed_transitions :: "order_status \<Rightarrow> order_status list option" where
  "allowed_transitions DRAFT = Some [VALIDATED]"
| "allowed_transitions VALIDATED = Some [PENDING_SUBMIT]"
| "allowed_transitions PENDING_SUBMIT = Some [SUBMITTED, RECONCILE_REQUIRED, REJECTED, EXPIRED]"
| "allowed_transitions SUBMITTED = Some [ACKNOWLEDGED, RECONCILE_REQUIRED, EXPIRED]"
| "allowed_transitions ACKNOWLEDGED =
     Some [PARTIALLY_FILLED, FILLED, CANCELLED, REJECTED, RECONCILE_REQUIRED, EXPIRED]"
| "allowed_transitions PARTIALLY_FILLED = Some [FILLED, CANCEL_PENDING, RECONCILE_REQUIRED, EXPIRED]"
| "allowed_transitions CANCEL_PENDING = Some [CANCELLED, RECONCILE_REQUIRED]"
| "allowed_transitions RECONCILE_REQUIRED = Some [SUBMITTED, ACKNOWLEDGED, CANCELLED, REJECTED, EXPIRED]"
| "allowed_transitions EXPIRED = Some [FILLED, PARTIALLY_FILLED, RECONCILE_REQUIRED]"
| "allowed_transitions FILLED = None"
| "allowed_transitions CANCELLED = None"
| "allowed_transitions REJECTED = None"

definition terminal_states :: "order_status list" where
  "terminal_states = [FILLED, CANCELLED, REJECTED, EXPIRED]"

definition authoritative_reflection_targets :: "order_status list" where
  "authoritative_reflection_targets = [FILLED, ACKNOWLEDGED, CANCELLED, REJECTED, EXPIRED]"

definition manual_resolve_targets :: "order_status list" where
  "manual_resolve_targets = [FILLED, CANCELLED, REJECTED, EXPIRED]"

definition may_move :: "order_status \<Rightarrow> order_status \<Rightarrow> bool" where
  "may_move current target \<longleftrightarrow>
     (case allowed_transitions current of Some allowed \<Rightarrow> target \<in> set allowed | None \<Rightarrow> False)"

text \<open>Both rejections of \<open>_validate_transition\<close> raise the same exception; only its text differs.\<close>

definition validate_transition :: "uuid \<Rightarrow> order_status \<Rightarrow> order_status \<Rightarrow> order_error + unit" where
  "validate_transition oid current target =
     (if may_move current target then Inr () else Inl (Invalid_State_Transition oid current target))"

definition validate_authoritative_target :: "order_status \<Rightarrow> order_error + unit" where
  "validate_authoritative_target target =
     (if target \<in> set authoritative_reflection_targets then Inr ()
      else Inl (Value_Error ''not a valid authoritative reflection target''))"

section \<open>Helpers\<close>

definition replace_status ::
  "env \<Rightarrow> order_request \<Rightarrow> order_status \<Rightarrow> string option \<Rightarrow> message option \<Rightarrow> timestamp option
   \<Rightarrow> order_request" where
  "replace_status ev order new_status reason_code reason_message submitted_at =
     (let resolved_submitted_at =
            (case submitted_at of Some t \<Rightarrow> Some t | None \<Rightarrow> or_submitted_at order);
          resolved_submitted_at =
            (if new_status = SUBMITTED \<and> resolved_submitted_at = None
             then Some (now_at ev ''submitted_at'') else resolved_submitted_at)
      in order\<lparr>or_status := new_status, or_status_reason_code := reason_code,
               or_status_reason_message := reason_message,
               or_submitted_at := resolved_submitted_at,
               or_updated_at := Some (now_at ev ''updated_at'')\<rparr>)"

definition opt_json :: "('a \<Rightarrow> json) \<Rightarrow> 'a option \<Rightarrow> json" where
  "opt_json f x = (case x of Some v \<Rightarrow> f v | None \<Rightarrow> JNull)"

text \<open>A price of zero is falsy and is written as null.\<close>

definition entity_to_json :: "order_request \<Rightarrow> json_object" where
  "entity_to_json e =
     [(''order_request_id'', JUuid (or_order_request_id e)),
      (''account_id'', JUuid (or_account_id e)),
      (''instrument_id'', JUuid (or_instrument_id e)),
      (''client_order_id'', JText (or_client_order_id e)),
      (''idempotency_key'', JText (or_idempotency_key e)),
      (''correlation_id'', JText (or_correlation_id e)),
      (''side'', JText (side_value (or_side e))),
      (''order_type'', JText (order_type_value (or_order_type e))),
      (''time_in_force'', JText (time_in_force_value (or_time_in_force e))),
      (''requested_price'', opt_json JDec (or_else (\<lambda>x. x = 0) (or_requested_price e) None)),
      (''requested_quantity'', JDec (or_requested_quantity e)),
      (''status'', JText (status_value (or_status e))),
      (''status_reason_code'', opt_json JText (or_status_reason_code e)),
      (''status_reason_message'', opt_json JMsg (or_status_reason_message e)),
      (''trade_decision_id'', opt_json JUuid (or_trade_decision_id e)),
      (''submitted_at'', opt_json JTime (or_submitted_at e)),
      (''created_at'', opt_json JTime (or_created_at e)),
      (''updated_at'', opt_json JTime (or_updated_at e))]"

definition record_audit ::
  "env \<Rightarrow> string \<Rightarrow> string \<Rightarrow> string \<Rightarrow> uuid \<Rightarrow> json_object option \<Rightarrow> json_object option
   \<Rightarrow> string option \<Rightarrow> json_object \<Rightarrow> repos \<Rightarrow> repos" where
  "record_audit ev actor_type actor_id action target_entity_id before_json after_json correlation_id
       metadata w =
     (let entry = \<lparr>al_audit_log_id = uuid_at ev ''audit'', al_actor_type = actor_type,
            al_actor_id = actor_id, al_action = action, al_target_entity_type = ''order_request'',
            al_target_entity_id = target_entity_id, al_created_at = now_at ev ''audit'',
            al_before_json = before_json, al_after_json = after_json,
            al_correlation_id = correlation_id, al_metadata = metadata\<rparr>
      in w\<lparr>rp_audit_logs := AList.update (al_audit_log_id entry) entry (rp_audit_logs w)\<rparr>)"

definition record_status_change ::
  "env \<Rightarrow> order_request \<Rightarrow> order_request \<Rightarrow> string \<Rightarrow> string \<Rightarrow> repos \<Rightarrow> repos" where
  "record_status_change ev before after actor_type actor_id w =
     record_audit ev actor_type actor_id ''order.status_change'' (or_order_request_id after)
       (Some (entity_to_json before)) (Some (entity_to_json after)) (Some (or_correlation_id after))
       [(''from_status'', JText (status_value (or_status before))),
        (''to_status'', JText (status_value (or_status after)))] w"

definition state_event ::
  "env \<Rightarrow> order_request \<Rightarrow> order_request \<Rightarrow> event_source \<Rightarrow> order_state_event" where
  "state_event ev before after source =
     \<lparr>se_order_state_event_id = uuid_at ev ''event'', se_order_request_id = or_order_request_id after,
      se_previous_status = Some (or_status before), se_new_status = or_status after,
      se_event_source = source, se_event_timestamp = now_at ev ''event'',
      se_ingested_at = now_at ev ''ingested'', se_reason_code = or_status_reason_code after,
      se_correlation_id = Some (or_correlation_id after)\<rparr>"

definition record_order_state_event ::
  "env \<Rightarrow> order_request \<Rightarrow> order_request \<Rightarrow> event_source \<Rightarrow> repos \<Rightarrow> repos" where
  "record_order_state_event ev before after source w =
     (let event = state_event ev before after source
      in w\<lparr>rp_order_state_events :=
             AList.update (se_order_state_event_id event) event (rp_order_state_events w)\<rparr>)"

definition record_submission_attempt ::
  "env \<Rightarrow> uuid \<Rightarrow> bool \<Rightarrow> string option \<Rightarrow> string option \<Rightarrow> string option \<Rightarrow> string option
   \<Rightarrow> string option \<Rightarrow> string option \<Rightarrow> bool option \<Rightarrow> int option \<Rightarrow> int \<Rightarrow> repos \<Rightarrow> repos" where
  "record_submission_attempt ev oid accepted broker_name native_id broker_status raw_code raw_message
       error_type retryable http_status duration w =
     (let attempt = \<lparr>sa_attempt_id = uuid_at ev ''attempt'', sa_order_request_id = oid,
            sa_attempt_number = 1, sa_submitted_at = now_at ev ''attempt'',
            sa_broker_name = broker_name, sa_accepted = accepted,
            sa_broker_native_order_id = native_id, sa_broker_status = broker_status,
            sa_raw_code = raw_code, sa_raw_message = raw_message, sa_error_type = error_type,
            sa_retryable = retryable, sa_http_status = http_status, sa_duration_ms = Some duration\<rparr>
      in w\<lparr>rp_submission_attempts :=
             AList.update (sa_attempt_id attempt) attempt (rp_submission_attempts w)\<rparr>)"

definition generate_idempotency_key ::
  "(string \<Rightarrow> string) \<Rightarrow> (rat \<Rightarrow> string) \<Rightarrow> submit_order_request \<Rightarrow> string" where
  "generate_idempotency_key digest dec_str request =
     or_text (sq_idempotency_key request)
       (digest (join_text '':'' [sq_client_order_id request, sq_correlation_id request,
          sq_symbol request, sq_market request, dec_str (sq_quantity request)]))"

section \<open>Transitions\<close>

record order_manager =
  om_repos :: repos
  om_reconciliation_service :: bool
  om_budget_manager :: "budget_manager option"

type_synonym interference = "string \<times> nat \<Rightarrow> repos \<Rightarrow> repos"

text \<open>
  The optimistic retry loop: \<open>i\<close> counts the attempts made, \<open>n\<close> those left, \<open>last_exc\<close> the last
  conflict.  After a conflict the entity is rebuilt from the latest stored order.
\<close>

fun update_loop ::
  "env \<Rightarrow> interference \<Rightarrow> order_status \<Rightarrow> string option \<Rightarrow> message option \<Rightarrow> timestamp option
   \<Rightarrow> nat \<Rightarrow> nat \<Rightarrow> order_error option \<Rightarrow> order_request \<Rightarrow> repos
   \<Rightarrow> (order_error + order_request) \<times> repos" where
  "update_loop ev others target reason_code reason_message submitted_at i 0 last_exc after w =
     (case last_exc of Some e \<Rightarrow> (Inl e, w) | None \<Rightarrow> (Inr after, w))"
| "update_loop ev others target reason_code reason_message submitted_at i (Suc n) last_exc after w =
     (case order_update_status (now_at (inside ''update'' i ev) ''now'') (or_order_request_id after)
             (or_status after) reason_code reason_message (Some (or_version after)) submitted_at w of
        (Inr _, w') \<Rightarrow> (Inr after, w')
      | (Inl (Version_Conflict oid expected actual), w') \<Rightarrow>
          (case order_get w' (or_order_request_id after) of
             None \<Rightarrow> (Inl (Value_Error ''Order not found''), w')
           | Some latest \<Rightarrow>
               if or_status latest \<in> set terminal_states
               then (Inl (Invalid_State_Transition oid (or_status after) (or_status latest)), w')
               else
                 update_loop ev others target reason_code reason_message submitted_at (Suc i) n
                   (Some (Version_Conflict oid expected actual))
                   (replace_status (inside ''retry'' i ev) latest target reason_code reason_message
                      (case submitted_at of Some t \<Rightarrow> Some t | None \<Rightarrow> or_submitted_at latest))
                   (if n = 0 then w' else others (''retry'', i) w'))
      | (Inl e, w') \<Rightarrow> (Inl e, w'))"

definition transition_to_core ::
  "env \<Rightarrow> interference \<Rightarrow> order_request \<Rightarrow> order_status \<Rightarrow> string option \<Rightarrow> message option
   \<Rightarrow> string \<Rightarrow> string \<Rightarrow> event_source \<Rightarrow> nat \<Rightarrow> bool \<Rightarrow> order_manager
   \<Rightarrow> (order_error + order_request) \<times> order_manager" where
  "transition_to_core ev others order target reason_code reason_message actor_type actor_id source
       max_retries mark_submitted_at m =
     (let submitted_at = (if mark_submitted_at \<and> or_submitted_at order = None
                          then Some (now_at ev ''submitted_at'') else None);
          after = replace_status (inside ''first'' 0 ev) order target reason_code reason_message
                    submitted_at
      in case update_loop ev others target reason_code reason_message submitted_at 0 max_retries None
                after (om_repos m) of
           (Inl e, w) \<Rightarrow> (Inl e, m\<lparr>om_repos := w\<rparr>)
         | (Inr after, w) \<Rightarrow>
             (let w = record_order_state_event ev order after source w;
                  w = record_status_change ev order after actor_type actor_id w;
                  w = (if target = RECONCILE_REQUIRED \<and> reason_code \<noteq> Some ''BLOCKED''
                          \<and> om_reconciliation_service m
                       then w\<lparr>rp_reconciliations :=
                              snd (trigger_and_link (inside ''auto'' 0 ev) ''requires_reconciliation''
                                (or_account_id after, None, None, Some (side_value (or_side after)))
                                (Some (or_order_request_id after)) (rp_reconciliations w))\<rparr>
                       else w)
              in (Inr after, m\<lparr>om_repos := w\<rparr>)))"

definition transition_to ::
  "env \<Rightarrow> interference \<Rightarrow> order_request \<Rightarrow> order_status \<Rightarrow> string option \<Rightarrow> message option
   \<Rightarrow> string \<Rightarrow> string \<Rightarrow> nat \<Rightarrow> bool \<Rightarrow> order_manager
   \<Rightarrow> (order_error + order_request) \<times> order_manager" where
  "transition_to ev others order target reason_code reason_message actor_type actor_id max_retries
       mark_submitted_at m =
     (case validate_transition (or_order_request_id order) (or_status order) target of
        Inl e \<Rightarrow> (Inl e, m)
      | Inr _ \<Rightarrow> transition_to_core ev others order target reason_code reason_message actor_type
                   actor_id INTERNAL max_retries mark_submitted_at m)"

definition transition_to_authoritative ::
  "env \<Rightarrow> interference \<Rightarrow> order_request \<Rightarrow> order_status \<Rightarrow> uuid \<Rightarrow> message option \<Rightarrow> nat
   \<Rightarrow> order_manager \<Rightarrow> (order_error + order_request) \<times> order_manager" where
  "transition_to_authoritative ev others order target run_id reason_message max_retries m =
     (case validate_authoritative_target target of
        Inl e \<Rightarrow> (Inl e, m)
      | Inr _ \<Rightarrow>
          if or_status order \<in> set terminal_states
          then (Inl (Invalid_State_Transition (or_order_request_id order) (or_status order) target), m)
          else transition_to_core ev others order target (Some ''RECONCILE_RESOLVED'')
                 (or_else (\<lambda>x. x = Plain []) reason_message (Some (Msg_Reflection run_id target)))
                 ''system'' ''reconciliation_service'' INTERNAL max_retries False m)"

section \<open>Creating an order\<close>

text \<open>The budget check; the refusal formats two snapshots, which refill the buckets.\<close>

definition budget_gate :: "env \<Rightarrow> order_manager \<Rightarrow> bool \<times> order_manager" where
  "budget_gate ev m =
     (case om_budget_manager m of
        None \<Rightarrow> (True, m)
      | Some b \<Rightarrow>
          (let (ok, b) = can_accept_new_entries (now_at ev ''inquiry'') (now_at ev ''reserve'') b;
               b = (if ok then b
                    else snapshot (\<lambda>i. ev_now ev [(''snapshot2'', i)])
                           (snapshot (\<lambda>i. ev_now ev [(''snapshot1'', i)]) b))
           in (ok, m\<lparr>om_budget_manager := Some b\<rparr>)))"

definition create_order ::
  "env \<Rightarrow> (string \<Rightarrow> string) \<Rightarrow> (rat \<Rightarrow> string) \<Rightarrow> (string \<Rightarrow> uuid option) \<Rightarrow> submit_order_request
   \<Rightarrow> string \<Rightarrow> string \<Rightarrow> order_manager \<Rightarrow> (order_error + order_request) \<times> order_manager" where
  "create_order ev digest dec_str parse_uuid request actor_type actor_id m =
     (let (accept, m) = budget_gate ev m;
          w = om_repos m
      in if \<not> accept then (Inl (Budget_Error ''new_entry''), m)
         else if sq_quantity request \<le> 0 then (Inl (Value_Error ''order quantity must be positive''), m)
         else if sq_client_order_id request = []
         then (Inl (Value_Error ''client_order_id, side, and order_type are required''), m)
         else
           (case find_first (\<lambda>a. ac_account_alias a = sq_account_ref request) (map snd (rp_accounts w)) of
              None \<Rightarrow> (Inl (Value_Error ''Account not found''), m)
            | Some account \<Rightarrow>
           (case find_first (\<lambda>x. in_symbol x = sq_symbol request \<and> in_market_code x = sq_market request)
                   (map snd (rp_instruments w)) of
              None \<Rightarrow> (Inl (Value_Error ''Instrument not found''), m)
            | Some instrument \<Rightarrow>
           (case get_by_client_order_id w (sq_client_order_id request) of
              Some existing \<Rightarrow>
                (Inl (Duplicate_Order (sq_client_order_id request) (or_order_request_id existing)), m)
            | None \<Rightarrow>
                (let order =
                   \<lparr>or_order_request_id = uuid_at ev ''order'', or_account_id = ac_account_id account,
                    or_instrument_id = in_instrument_id instrument,
                    or_client_order_id = sq_client_order_id request,
                    or_idempotency_key = generate_idempotency_key digest dec_str request,
                    or_correlation_id = sq_correlation_id request, or_side = sq_side request,
                    or_order_type = sq_order_type request, or_requested_quantity = sq_quantity request,
                    or_status = DRAFT,
                    or_trade_decision_id = Option.bind (sq_decision_id request) parse_uuid,
                    or_decision_context_id = Option.bind (sq_decision_context_id request) parse_uuid,
                    or_requested_price = sq_price request, or_time_in_force = sq_time_in_force request,
                    or_status_reason_code = None, or_status_reason_message = None,
                    or_submitted_at = None, or_created_at = Some (now_at ev ''order''),
                    or_updated_at = Some (now_at ev ''order''), or_version = 1,
                    or_order_intent_id = None\<rparr>;
                     w = order_add order w;
                     w = record_audit ev actor_type actor_id ''order.create'' (or_order_request_id order)
                           None (Some (entity_to_json order)) (Some (or_correlation_id order)) [] w
                 in (Inr order, m\<lparr>om_repos := w\<rparr>))))))"

section \<open>Submitting an order\<close>

definition needs_reconciliation :: "broker_error \<Rightarrow> bool" where
  "needs_reconciliation e \<longleftrightarrow> be_requires_reconciliation e
     \<or> be_error_type e \<in> {API_ERROR, NETWORK, NETWORK_ERROR, TIMEOUT, TEMPORARY_BROKER}"

definition find_strategy :: "repos \<Rightarrow> string \<Rightarrow> uuid option" where
  "find_strategy w code = map_option st_strategy_id
     (find_first (\<lambda>s. st_client_id s = 0 \<and> st_strategy_code s = code) (map snd (rp_strategies w)))"

definition trigger_submit ::
  "env \<Rightarrow> string \<Rightarrow> order_request \<Rightarrow> submit_order_request \<Rightarrow> order_manager \<Rightarrow> repos \<Rightarrow> repos" where
  "trigger_submit ev trigger_type order request m w =
     (if om_reconciliation_service m
      then w\<lparr>rp_reconciliations := snd (trigger (inside ''trigger'' 0 ev) trigger_type
               (or_account_id order, None, Some (sq_symbol request), Some (side_value (sq_side request)))
               (rp_reconciliations w))\<rparr>
      else w)"

definition handle_submit_error ::
  "env \<Rightarrow> interference \<Rightarrow> order_request \<Rightarrow> submit_order_request \<Rightarrow> string \<Rightarrow> string \<Rightarrow> int
   \<Rightarrow> broker_error \<Rightarrow> order_manager \<Rightarrow> (order_error + order_request) \<times> order_manager" where
  "handle_submit_error ev others order request actor_type actor_id duration e m =
     (let w = record_submission_attempt ev (or_order_request_id order) False
                (Some (broker_name_value (be_broker_name e))) None None (be_raw_code e) (be_raw_message e)
                (Some (be_class e)) (Some (be_retryable e)) None duration (om_repos m);
          code = Some (or_text (be_raw_code e) (str_upper (broker_error_type_value (be_error_type e))));
          msg = Some (Plain (or_text (be_raw_message e) (broker_error_str e)))
      in if needs_reconciliation e
         then transition_to ev others order RECONCILE_REQUIRED code msg actor_type actor_id 3 True
                (m\<lparr>om_repos := trigger_submit ev ''broker_submit_exception'' order request m w\<rparr>)
         else transition_to ev others order REJECTED code msg actor_type actor_id 3 True
                (m\<lparr>om_repos := w\<rparr>))"

definition handle_submit_result ::
  "env \<Rightarrow> interference \<Rightarrow> order_request \<Rightarrow> submit_order_request \<Rightarrow> string \<Rightarrow> string \<Rightarrow> int
   \<Rightarrow> submit_order_result \<Rightarrow> order_manager \<Rightarrow> (order_error + order_request) \<times> order_manager" where
  "handle_submit_result ev others order request actor_type actor_id duration r m =
     (let oid = or_order_request_id order;
          broker = Some (broker_name_value (sres_broker_name r))
      in if sres_uncertain r \<or> sres_requires_reconciliation r
         then
           (let w = trigger_submit ev
                      (if sres_uncertain r then ''uncertain_result'' else ''requires_reconciliation'')
                      order request m (om_repos m);
                w = record_submission_attempt ev oid (sres_accepted r) broker (sres_broker_order_id r) None
                      (sres_raw_code r) (sres_raw_message r) None None None duration w
            in transition_to ev others order RECONCILE_REQUIRED
                 (Some (or_text (sres_raw_code r) ''UNCERTAIN''))
                 (Some (case or_else (\<lambda>s. s = []) (sres_raw_message r) None of
                          Some t \<Rightarrow> Plain t
                        | None \<Rightarrow> Msg_Uncertain (sres_uncertain r) (sres_requires_reconciliation r)))
                 actor_type actor_id 3 True (m\<lparr>om_repos := w\<rparr>))
         else if sres_accepted r
         then
           (let t = now_at ev ''broker_order'';
                bo = \<lparr>bo_broker_order_id = uuid_at ev ''broker_order'', bo_order_request_id = oid,
                      bo_broker_name = broker_name_value (sres_broker_name r),
                      bo_broker_status = status_value (sres_broker_status r),
                      bo_broker_native_order_id = sres_broker_order_id r,
                      bo_last_synced_at = Some t, bo_created_at = Some t, bo_updated_at = Some t\<rparr>;
                w = om_repos m;
                w = w\<lparr>rp_broker_orders := AList.update (bo_broker_order_id bo) bo (rp_broker_orders w)\<rparr>;
                w = record_submission_attempt ev oid True broker (sres_broker_order_id r)
                      (Some (status_value (sres_broker_status r))) (sres_raw_code r) (sres_raw_message r)
                      None None None duration w
            in transition_to ev others order SUBMITTED (sres_raw_code r)
                 (map_option Plain (sres_raw_message r)) actor_type actor_id 3 True (m\<lparr>om_repos := w\<rparr>))
         else
           (let w = record_submission_attempt ev oid False broker None None (sres_raw_code r)
                      (sres_raw_message r) None None None duration (om_repos m)
            in transition_to ev others order REJECTED (Some (or_text (sres_raw_code r) ''REJECTED''))
                 (Some (Plain (or_text (sres_raw_message r) ''Broker rejected the order'')))
                 actor_type actor_id 3 True (m\<lparr>om_repos := w\<rparr>)))"

definition submit_order_to_broker ::
  "env \<Rightarrow> interference \<Rightarrow> broker_outcome \<Rightarrow> int \<Rightarrow> order_request \<Rightarrow> submit_order_request
   \<Rightarrow> string \<Rightarrow> string \<Rightarrow> order_manager \<Rightarrow> (order_error + order_request) \<times> order_manager" where
  "submit_order_to_broker ev others outcome duration order request actor_type actor_id m =
     (let w = om_repos m;
          (blocked, w) =
            (if om_reconciliation_service m
             then
               (let (b, rc) = is_blocked (now_at ev ''is_blocked'')
                      (or_account_id order, find_strategy w (sq_strategy_id request),
                       Some (sq_symbol request), Some (side_value (sq_side request)))
                      (rp_reconciliations w)
                in (b, w\<lparr>rp_reconciliations := rc\<rparr>))
             else (False, w))
      in if blocked
         then transition_to ev others order RECONCILE_REQUIRED (Some ''BLOCKED'')
                (Some (Msg_Blocked (or_account_id order))) actor_type actor_id 3 False
                (m\<lparr>om_repos := w\<rparr>)
         else
           (let m = m\<lparr>om_repos := others (''submit'', 0) w\<rparr>
            in case outcome of
                 Submit_Error e \<Rightarrow>
                   handle_submit_error ev others order request actor_type actor_id duration e m
               | Submit_Crash e \<Rightarrow>
                   (Inl (Broker_Exception (oe_class e)),
                    m\<lparr>om_repos := record_submission_attempt ev (or_order_request_id order) False
                        (Some (oe_broker_name e)) None None (oe_raw_code e) (oe_raw_message e)
                        (Some (oe_class e)) (oe_retryable e) (oe_http_status e) duration (om_repos m)\<rparr>)
               | Submit_Result r \<Rightarrow>
                   handle_submit_result ev others order request actor_type actor_id duration r m))"

section \<open>Resolving by hand and by inquiry\<close>

definition linked_run :: "reconciliation_store \<Rightarrow> uuid \<Rightarrow> uuid \<Rightarrow> reconciliation_run option" where
  "linked_run s account_id oid =
     find_first (\<lambda>run. \<exists>l \<in> set (get_run_order_links s (rr_reconciliation_run_id run)).
                         ml_target_id l = oid)
       (list_pending_runs s 10 (Some account_id) None)"

definition manual_resolve ::
  "env \<Rightarrow> interference \<Rightarrow> order_request \<Rightarrow> order_status \<Rightarrow> string \<Rightarrow> message option \<Rightarrow> json_object
   \<Rightarrow> string \<Rightarrow> order_manager \<Rightarrow> (order_error + order_request) \<times> order_manager" where
  "manual_resolve ev others order target reason_code reason_message evidence operator m =
     (if or_status order \<noteq> RECONCILE_REQUIRED
      then (Inl (Invalid_State_Transition (or_order_request_id order) (or_status order) target), m)
      else if target \<notin> set manual_resolve_targets
      then (Inl (Value_Error ''not a valid manual resolve target''), m)
      else if evidence = [] then (Inl (Value_Error ''evidence is required for manual resolve''), m)
      else
        (case transition_to_core ev others order target (Some reason_code) reason_message ''operator''
                operator OPERATOR 3 False m of
           (Inl e, m') \<Rightarrow> (Inl e, m')
         | (Inr after, m') \<Rightarrow>
             if om_reconciliation_service m'
             then
               (let w = om_repos m'; s = rp_reconciliations w
                in case linked_run s (or_account_id after) (or_order_request_id after) of
                     None \<Rightarrow> (Inr after, m')
                   | Some run \<Rightarrow>
                       (Inr after, m'\<lparr>om_repos := w\<lparr>rp_reconciliations :=
                          snd (mark_resolved (rr_reconciliation_run_id run)
                            (Some [(''resolved_by'', JText ''manual_resolve''),
                                   (''summary'', JText (''Manual operator resolve: ''
                                      @ status_value (or_status order) @ '' -> '' @ status_value target)),
                                   (''operator'', JText operator)]) s)\<rparr>\<rparr>))
             else (Inr after, m')))"

text \<open>
  \<open>_resolve_order_for_reflection\<close> passes one argument to \<open>get_by_native_order_id\<close>, which needs the
  broker name and the native identifier: with a broker order identifier the call raises.
\<close>

definition resolve_order_for_reflection ::
  "repos \<Rightarrow> string \<Rightarrow> string option \<Rightarrow> order_error + order_request option" where
  "resolve_order_for_reflection w client_order_id broker_order_id =
     (if or_else (\<lambda>s. s = []) broker_order_id None \<noteq> None then Inl Type_Error
      else if client_order_id \<noteq> []
      then (case order_list w (any_order\<lparr>oq_client_order_id := Some client_order_id\<rparr>) of
              Inl e \<Rightarrow> Inl e
            | Inr [] \<Rightarrow> Inr None
            | Inr (x # _) \<Rightarrow> Inr (Some x))
      else Inr None)"

definition resolved_summary :: "order_status_result \<Rightarrow> json_object" where
  "resolved_summary r =
     [(''resolved_via'', JText ''broker_inquiry''),
      (''resolved_status'', JText (status_value (osr_status r))),
      (''broker_order_id'', opt_json JText (osr_broker_order_id r)),
      (''client_order_id'', opt_json JText (osr_client_order_id r))]"

definition failed_summary :: "env \<Rightarrow> order_error \<Rightarrow> order_status_result \<Rightarrow> json_object" where
  "failed_summary ev e r =
     [(''resolved_via'', JText ''broker_inquiry''),
      (''resolved_status'', JText (status_value (osr_status r))),
      (''reflection_error'', JError e),
      (''error_timestamp'', JTime (now_at ev ''error'')),
      (''broker_order_id'', opt_json JText (osr_broker_order_id r)),
      (''client_order_id'', opt_json JText (osr_client_order_id r))]"

definition mark_run ::
  "uuid \<Rightarrow> order_status_result \<Rightarrow> order_manager \<Rightarrow> (order_error + unit) \<times> order_manager" where
  "mark_run run_id r m =
     (let (res, s) = mark_resolved run_id (Some (resolved_summary r)) (rp_reconciliations (om_repos m))
      in (res, m\<lparr>om_repos := (om_repos m)\<lparr>rp_reconciliations := s\<rparr>\<rparr>))"

text \<open>\<open>inquiry\<close> is the broker's answer (or the exception it raises), \<open>reflect\<close> tells whether an order
  manager was passed.\<close>

definition resolve_and_mark ::
  "env \<Rightarrow> interference \<Rightarrow> order_error + order_status_result \<Rightarrow> bool \<Rightarrow> uuid \<Rightarrow> string option
   \<Rightarrow> string option \<Rightarrow> order_manager \<Rightarrow> (order_error + order_status_result) \<times> order_manager" where
  "resolve_and_mark ev others inquiry reflect run_id client_order_id broker_order_id m =
     (case inquiry of
        Inl e \<Rightarrow> (Inl e, m)
      | Inr r \<Rightarrow>
          if osr_status r \<notin> {FILLED, CANCELLED, REJECTED, EXPIRED, ACKNOWLEDGED} then (Inr r, m)
          else if \<not> reflect
          then (case mark_run run_id r m of (Inl e, m') \<Rightarrow> (Inl e, m') | (Inr _, m') \<Rightarrow> (Inr r, m'))
          else
            (case resolve_order_for_reflection (om_repos m)
                    (case client_order_id of Some c \<Rightarrow> c | None \<Rightarrow> []) broker_order_id of
               Inl e \<Rightarrow> (Inl e, m)
             | Inr found \<Rightarrow>
                 if (case found of Some order \<Rightarrow> or_status order = RECONCILE_REQUIRED | None \<Rightarrow> False)
                 then
                   (case (case transition_to_authoritative ev others (the found) (osr_status r) run_id
                                 None 3 m of
                            (Inl e, m') \<Rightarrow> (Inl e, m')
                          | (Inr _, m') \<Rightarrow> mark_run run_id r m') of
                      (Inr _, m') \<Rightarrow> (Inr r, m')
                    | (Inl e, m') \<Rightarrow>
                        (Inr r, m'\<lparr>om_repos := (om_repos m')\<lparr>rp_reconciliations :=
                           update_run_status run_id ''reflection_failed'' None
                             (Some (failed_summary ev e r)) (rp_reconciliations (om_repos m'))\<rparr>\<rparr>))
                 else (case mark_run run_id r m of
                         (Inl e, m') \<Rightarrow> (Inl e, m') | (Inr _, m') \<Rightarrow> (Inr r, m'))))"

section \<open>Frame lemmas\<close>

lemma order_get_cong: "rp_orders w' = rp_orders w \<Longrightarrow> order_get w' = order_get w"
  by (simp add: order_get_def fun_eq_iff)

lemma record_frames [simp]:
  "rp_orders (record_audit ev aty aid ac t bj aj cid md w) = rp_orders w"
  "rp_orders (record_status_change ev x y aty aid w) = rp_orders w"
  "rp_orders (record_order_state_event ev x y src w) = rp_orders w"
  "rp_orders (record_submission_attempt ev i acc nm nid bs rc rm et re ht du w) = rp_orders w"
  "rp_orders (trigger_submit ev ty x q m w) = rp_orders w"
  "rp_order_state_events (record_status_change ev x y aty aid w) = rp_order_state_events w"
  "rp_submission_attempts (record_status_change ev x y aty aid w) = rp_submission_attempts w"
  "rp_submission_attempts (record_order_state_event ev x y src w) = rp_submission_attempts w"
  "rp_submission_attempts (trigger_submit ev ty x q m w) = rp_submission_attempts w"
  "rp_broker_orders (record_status_change ev x y aty aid w) = rp_broker_orders w"
  "rp_broker_orders (record_order_state_event ev x y src w) = rp_broker_orders w"
  "rp_broker_orders (record_submission_attempt ev i acc nm nid bs rc rm et re ht du w) = rp_broker_orders w"
  "rp_broker_orders (trigger_submit ev ty x q m w) = rp_broker_orders w"
  "rp_reconciliations (record_status_change ev x y aty aid w) = rp_reconciliations w"
  "rp_reconciliations (record_order_state_event ev x y src w) = rp_reconciliations w"
  "rp_reconciliations (record_submission_attempt ev i acc nm nid bs rc rm et re ht du w) = rp_reconciliations w"
  by (simp_all add: record_audit_def record_status_change_def record_order_state_event_def
      record_submission_attempt_def trigger_submit_def Let_def)

lemma update_status_frame:
  "snd (order_update_status t i st rc rm v sub w)
     = w\<lparr>rp_orders := rp_orders (snd (order_update_status t i st rc rm v sub w))\<rparr>"
  by (simp add: order_update_status_def split: option.split)

lemma replace_status_simps [simp]:
  "or_order_request_id (replace_status ev x st rc rm sub) = or_order_request_id x"
  "or_status (replace_status ev x st rc rm sub) = st"
  "or_version (replace_status ev x st rc rm sub) = or_version x"
  "or_account_id (replace_status ev x st rc rm sub) = or_account_id x"
  "or_side (replace_status ev x st rc rm sub) = or_side x"
  by (simp_all add: replace_status_def Let_def)

lemma manager_repos_id [simp]: "m\<lparr>om_repos := om_repos m\<rparr> = m"
  by (cases m) simp

section \<open>The retry loop\<close>

lemma loop_terminal:
  assumes "order_get w (or_order_request_id after) = Some x"
    and "or_status x \<in> set terminal_states" and "or_version x \<noteq> or_version after"
  shows "\<exists>e. update_loop ev others tg rc rm sub i (Suc n) l after w = (Inl e, w)"
  using assms order_store.upd_conflict [OF assms(1,3)] by simp

lemma loop_fresh:
  assumes "order_get w (or_order_request_id after) = Some x" and "or_version x = or_version after"
  obtains w' y where "update_loop ev others tg rc rm sub i (Suc n) l after w = (Inr after, w')"
    "order_get w' (or_order_request_id after) = Some y" "or_status y = or_status after"
    "or_version y = or_version x + 1"
    "\<And>j. j \<noteq> or_order_request_id after \<Longrightarrow> order_get w' j = order_get w j"
    "w' = w\<lparr>rp_orders := rp_orders w'\<rparr>"
proof -
  let ?u = "\<lambda>t. order_update_status t (or_order_request_id after) (or_status after) rc rm
      (Some (or_version after)) sub w"
  let ?t = "now_at (inside ''update'' i ev) ''now''"
  obtain w' y where u: "?u ?t = (Inr (), w')" "order_get w' (or_order_request_id after) = Some y"
    "or_status y = or_status after" "or_version y = or_version after + 1"
    using order_store.upd_match [OF assms, of ?t "or_status after" rc rm sub] by auto
  show ?thesis
  proof (rule that [of w' y])
    show "order_get w' j = order_get w j" if "j \<noteq> or_order_request_id after" for j
      using order_store.upd_other [OF that, of ?t "or_status after" rc rm _ sub w] u(1) by (metis snd_conv)
    show "w' = w\<lparr>rp_orders := rp_orders w'\<rparr>"
      using update_status_frame [of ?t "or_order_request_id after" "or_status after" rc rm
          "Some (or_version after)" sub w] u(1) by simp
  qed (use u assms in simp_all)
qed

lemma loop_failed_quiet:
  "update_loop ev (\<lambda>_ w. w) tg rc rm sub i n l after w = (Inl e, w') \<Longrightarrow> w' = w"
proof (induction n arbitrary: i l after)
  case 0
  then show ?case by (cases l) auto
next
  case (Suc n)
  let ?t = "now_at (inside ''update'' i ev) ''now''"
  show ?case
  proof (cases rule: order_store.upd_cases [of w "or_order_request_id after" ?t "or_status after" rc rm
        "or_version after" sub])
    case (conflict x)
    then show ?thesis
      using Suc.prems Suc.IH by (auto split: if_splits)
  qed (use Suc.prems in auto)
qed

declare update_loop.simps [simp del]

section \<open>Transitions\<close>

lemma core_failed_quiet:
  assumes "transition_to_core ev (\<lambda>_ w. w) x tg rc rm aty aid src n mk m = (Inl e, m')"
  shows "m' = m"
  using assms loop_failed_quiet
  by (fastforce simp: transition_to_core_def Let_def split: prod.splits sum.splits)

lemma core_terminal:
  assumes "order_get (om_repos m) (or_order_request_id x) = Some y"
    and "or_status y \<in> set terminal_states" and "or_version y \<noteq> or_version x"
  shows "\<exists>e. transition_to_core ev others x tg rc rm aty aid src (Suc n) mk m = (Inl e, m)"
proof -
  define sub where "sub = (if mk \<and> or_submitted_at x = None then Some (now_at ev ''submitted_at'') else None)"
  define after where "after = replace_status (inside ''first'' 0 ev) x tg rc rm sub"
  have "order_get (om_repos m) (or_order_request_id after) = Some y" "or_version y \<noteq> or_version after"
    using assms by (simp_all add: after_def)
  from loop_terminal [OF this(1) assms(2) this(2), of ev others tg rc rm sub 0 n None]
  obtain e where "update_loop ev others tg rc rm sub 0 (Suc n) None after (om_repos m) = (Inl e, om_repos m)"
    by blast
  then show ?thesis
    by (simp add: transition_to_core_def Let_def sub_def [symmetric] after_def [symmetric])
qed

text \<open>What a successful transition leaves in the manager, whatever way the loop took.\<close>

definition committed ::
  "env \<Rightarrow> order_request \<Rightarrow> order_request \<Rightarrow> event_source \<Rightarrow> order_manager \<Rightarrow> repos \<Rightarrow> order_manager \<Rightarrow> bool" where
  "committed ev before after source m w m' \<longleftrightarrow>
     rp_orders (om_repos m') = rp_orders w
     \<and> map_of (rp_order_state_events (om_repos m')) (uuid_at ev ''event'')
         = Some (state_event ev before after source)
     \<and> (\<exists>entry. map_of (rp_audit_logs (om_repos m')) (uuid_at ev ''audit'') = Some entry
          \<and> al_action entry = ''order.status_change''
          \<and> al_target_entity_id entry = or_order_request_id after)
     \<and> rp_submission_attempts (om_repos m') = rp_submission_attempts w
     \<and> rp_broker_orders (om_repos m') = rp_broker_orders w
     \<and> om_reconciliation_service m' = om_reconciliation_service m
     \<and> om_budget_manager m' = om_budget_manager m
     \<and> rp_reconciliations (om_repos m') =
         (if or_status after = RECONCILE_REQUIRED \<and> or_status_reason_code after \<noteq> Some ''BLOCKED''
             \<and> om_reconciliation_service m
          then snd (trigger_and_link (inside ''auto'' 0 ev) ''requires_reconciliation''
                 (or_account_id after, None, None, Some (side_value (or_side after)))
                 (Some (or_order_request_id after)) (rp_reconciliations w))
          else rp_reconciliations w)"

lemma core_success:
  assumes "update_loop ev others tg rc rm
      (if mk \<and> or_submitted_at x = None then Some (now_at ev ''submitted_at'') else None) 0 n None
      (replace_status (inside ''first'' 0 ev) x tg rc rm
        (if mk \<and> or_submitted_at x = None then Some (now_at ev ''submitted_at'') else None)) (om_repos m)
      = (Inr after, w)"
    and "or_status after = tg" and "or_status_reason_code after = rc"
  obtains m' where "transition_to_core ev others x tg rc rm aty aid src n mk m = (Inr after, m')"
    "committed ev x after src m w m'"
proof -
  let ?m = "snd (transition_to_core ev others x tg rc rm aty aid src n mk m)"
  have "transition_to_core ev others x tg rc rm aty aid src n mk m = (Inr after, ?m)"
    using assms(1) by (simp add: transition_to_core_def Let_def)
  moreover have "committed ev x after src m w ?m"
    using assms
    by (simp add: transition_to_core_def Let_def committed_def record_order_state_event_def
        record_status_change_def record_audit_def state_event_def)
  ultimately show ?thesis using that by blast
qed

lemma replace_status_reason [simp]:
  "or_status_reason_code (replace_status ev x st rc rm sub) = rc"
  by (simp add: replace_status_def Let_def)

lemma core_fresh:
  assumes "order_get (om_repos m) (or_order_request_id x) = Some y" and "or_version y = or_version x"
  obtains after w m' z where
    "transition_to_core ev others x tg rc rm aty aid src (Suc n) mk m = (Inr after, m')"
    "committed ev x after src m w m'" "or_status after = tg" "or_status_reason_code after = rc"
    "or_order_request_id after = or_order_request_id x" "or_account_id after = or_account_id x"
    "or_side after = or_side x"
    "order_get (om_repos m') (or_order_request_id x) = Some z" "or_status z = tg"
    "or_version z = or_version y + 1"
    "\<And>j. j \<noteq> or_order_request_id x \<Longrightarrow> order_get (om_repos m') j = order_get (om_repos m) j"
    "w = (om_repos m)\<lparr>rp_orders := rp_orders w\<rparr>"
proof -
  define sub where "sub = (if mk \<and> or_submitted_at x = None then Some (now_at ev ''submitted_at'') else None)"
  define after where "after = replace_status (inside ''first'' 0 ev) x tg rc rm sub"
  have a: "order_get (om_repos m) (or_order_request_id after) = Some y" "or_version y = or_version after"
    using assms by (simp_all add: after_def)
  obtain w z where l: "update_loop ev others tg rc rm sub 0 (Suc n) None after (om_repos m) = (Inr after, w)"
    "order_get w (or_order_request_id after) = Some z" "or_status z = or_status after"
    "or_version z = or_version y + 1"
    "\<And>j. j \<noteq> or_order_request_id after \<Longrightarrow> order_get w j = order_get (om_repos m) j"
    "w = (om_repos m)\<lparr>rp_orders := rp_orders w\<rparr>"
    by (rule loop_fresh [OF a, of ev others tg rc rm sub 0 n None]) blast
  obtain m' where c: "transition_to_core ev others x tg rc rm aty aid src (Suc n) mk m = (Inr after, m')"
    "committed ev x after src m w m'"
  proof (rule core_success)
    show "update_loop ev others tg rc rm
      (if mk \<and> or_submitted_at x = None then Some (now_at ev ''submitted_at'') else None) 0 (Suc n) None
      (replace_status (inside ''first'' 0 ev) x tg rc rm
        (if mk \<and> or_submitted_at x = None then Some (now_at ev ''submitted_at'') else None)) (om_repos m)
      = (Inr after, w)"
      using l(1) by (simp only: sub_def [symmetric] after_def [symmetric])
  qed (simp_all add: after_def)
  have g: "order_get (om_repos m') = order_get w"
    using c(2) by (intro order_get_cong) (simp add: committed_def)
  show ?thesis
    by (rule that [OF c]) (use l g in \<open>simp_all add: after_def\<close>)
qed

lemma transition_to_unfold:
  "transition_to ev others x tg rc rm aty aid n mk m =
     (if may_move (or_status x) tg
      then transition_to_core ev others x tg rc rm aty aid INTERNAL n mk m
      else (Inl (Invalid_State_Transition (or_order_request_id x) (or_status x) tg), m))"
  by (simp add: transition_to_def validate_transition_def)

lemma final_has_no_move: "st \<in> {FILLED, CANCELLED, REJECTED} \<Longrightarrow> \<not> may_move st tg"
  by (auto simp: may_move_def)

lemma final_is_terminal: "st \<in> {FILLED, CANCELLED, REJECTED} \<Longrightarrow> st \<in> set terminal_states"
  by (auto simp: terminal_states_def)

section \<open>Submission\<close>

lemma move_effect:
  assumes "order_get (om_repos m) (or_order_request_id x) = Some x" and "may_move (or_status x) tg"
  obtains after m' z where "transition_to ev others x tg rc rm aty aid 3 mk m = (Inr after, m')"
    "order_get (om_repos m') (or_order_request_id x) = Some z" "or_status z = tg"
    "rp_submission_attempts (om_repos m') = rp_submission_attempts (om_repos m)"
    "rp_broker_orders (om_repos m') = rp_broker_orders (om_repos m)"
    "rp_reconciliations (om_repos m') =
       (if tg = RECONCILE_REQUIRED \<and> rc \<noteq> Some ''BLOCKED'' \<and> om_reconciliation_service m
        then snd (trigger_and_link (inside ''auto'' 0 ev) ''requires_reconciliation''
               (or_account_id x, None, None, Some (side_value (or_side x)))
               (Some (or_order_request_id x)) (rp_reconciliations (om_repos m)))
        else rp_reconciliations (om_repos m))"
proof -
  obtain after w m' z where c:
    "transition_to_core ev others x tg rc rm aty aid INTERNAL (Suc 2) mk m = (Inr after, m')"
    "committed ev x after INTERNAL m w m'" "or_status after = tg" "or_status_reason_code after = rc"
    "or_order_request_id after = or_order_request_id x" "or_account_id after = or_account_id x"
    "or_side after = or_side x"
    "order_get (om_repos m') (or_order_request_id x) = Some z" "or_status z = tg"
    "w = (om_repos m)\<lparr>rp_orders := rp_orders w\<rparr>"
    by (rule core_fresh [OF assms(1) refl, of ev others tg rc rm aty aid INTERNAL 2 mk]) blast
  have w: "rp_submission_attempts w = rp_submission_attempts (om_repos m)"
    "rp_broker_orders w = rp_broker_orders (om_repos m)"
    "rp_reconciliations w = rp_reconciliations (om_repos m)"
    by (subst c(10); simp)+
  show ?thesis
  proof (rule that [of after m' z])
    show "transition_to ev others x tg rc rm aty aid 3 mk m = (Inr after, m')"
      using c(1) assms(2) by (simp add: transition_to_unfold numeral_3_eq_3 numeral_2_eq_2)
  qed (use c w in \<open>simp_all add: committed_def\<close>)
qed

text \<open>The status that an answer of the broker stands for; a crash decides nothing.\<close>

fun outcome_status :: "broker_outcome \<Rightarrow> order_status option" where
  "outcome_status (Submit_Result r) =
     Some (if sres_uncertain r \<or> sres_requires_reconciliation r then RECONCILE_REQUIRED
           else if sres_accepted r then SUBMITTED else REJECTED)"
| "outcome_status (Submit_Error e) =
     Some (if needs_reconciliation e then RECONCILE_REQUIRED else REJECTED)"
| "outcome_status (Submit_Crash e) = None"

definition submit_scope :: "repos \<Rightarrow> order_request \<Rightarrow> submit_order_request \<Rightarrow> lock_key" where
  "submit_scope w x q = (or_account_id x, find_strategy w (sq_strategy_id q), Some (sq_symbol q),
     Some (side_value (sq_side q)))"

definition submit_blocked :: "env \<Rightarrow> order_request \<Rightarrow> submit_order_request \<Rightarrow> order_manager \<Rightarrow> bool" where
  "submit_blocked ev x q m \<longleftrightarrow> om_reconciliation_service m
     \<and> fst (is_blocked (now_at ev ''is_blocked'') (submit_scope (om_repos m) x q)
              (rp_reconciliations (om_repos m)))"

text \<open>The state in which the broker is called: at most an expired lock has been removed.\<close>

definition before_broker :: "env \<Rightarrow> order_request \<Rightarrow> submit_order_request \<Rightarrow> order_manager \<Rightarrow> order_manager" where
  "before_broker ev x q m =
     (if om_reconciliation_service m
      then m\<lparr>om_repos := (om_repos m)\<lparr>rp_reconciliations :=
             snd (is_blocked (now_at ev ''is_blocked'') (submit_scope (om_repos m) x q)
                    (rp_reconciliations (om_repos m)))\<rparr>\<rparr>
      else m)"

lemma submit_unfold:
  "submit_order_to_broker ev others outcome du x q aty aid m =
     (let m1 = before_broker ev x q m
      in if submit_blocked ev x q m
         then transition_to ev others x RECONCILE_REQUIRED (Some ''BLOCKED'')
                (Some (Msg_Blocked (or_account_id x))) aty aid 3 False m1
         else
           (let m2 = m1\<lparr>om_repos := others (''submit'', 0) (om_repos m1)\<rparr>
            in case outcome of
                 Submit_Error e \<Rightarrow> handle_submit_error ev others x q aty aid du e m2
               | Submit_Crash e \<Rightarrow>
                   (Inl (Broker_Exception (oe_class e)),
                    m2\<lparr>om_repos := record_submission_attempt ev (or_order_request_id x) False
                        (Some (oe_broker_name e)) None None (oe_raw_code e) (oe_raw_message e)
                        (Some (oe_class e)) (oe_retryable e) (oe_http_status e) du (om_repos m2)\<rparr>)
               | Submit_Result r \<Rightarrow> handle_submit_result ev others x q aty aid du r m2))"
  by (cases "om_reconciliation_service m")
     (simp_all add: submit_order_to_broker_def before_broker_def submit_blocked_def submit_scope_def
        Let_def split_beta)

lemma before_broker_frame [simp]:
  "rp_orders (om_repos (before_broker ev x q m)) = rp_orders (om_repos m)"
  "rp_submission_attempts (om_repos (before_broker ev x q m)) = rp_submission_attempts (om_repos m)"
  "rp_broker_orders (om_repos (before_broker ev x q m)) = rp_broker_orders (om_repos m)"
  "om_reconciliation_service (before_broker ev x q m) = om_reconciliation_service m"
  by (simp_all add: before_broker_def)

lemma attempt_recorded:
  "\<exists>a. map_of (rp_submission_attempts (record_submission_attempt ev i acc nm nid bs rc rm et re ht du w))
     (uuid_at ev ''attempt'') = Some a \<and> sa_order_request_id a = i \<and> sa_accepted a = acc"
  by (simp add: record_submission_attempt_def Let_def)

definition submitted_as ::
  "env \<Rightarrow> order_request \<Rightarrow> order_status \<Rightarrow> (order_error + order_request) \<times> order_manager \<Rightarrow> bool" where
  "submitted_as ev x st r \<longleftrightarrow>
     (\<exists>after m' z a. r = (Inr after, m') \<and> order_get (om_repos m') (or_order_request_id x) = Some z
        \<and> or_status z = st
        \<and> map_of (rp_submission_attempts (om_repos m')) (uuid_at ev ''attempt'') = Some a
        \<and> sa_order_request_id a = or_order_request_id x)"

lemma submitted_asI:
  assumes "order_get (om_repos m) (or_order_request_id x) = Some x" and "may_move (or_status x) tg"
    and "\<exists>a. map_of (rp_submission_attempts (om_repos m)) (uuid_at ev ''attempt'') = Some a
      \<and> sa_order_request_id a = or_order_request_id x"
  shows "submitted_as ev x tg (transition_to ev others x tg rc rm aty aid 3 mk m)"
proof -
  obtain after m' z where "transition_to ev others x tg rc rm aty aid 3 mk m = (Inr after, m')"
    "order_get (om_repos m') (or_order_request_id x) = Some z" "or_status z = tg"
    "rp_submission_attempts (om_repos m') = rp_submission_attempts (om_repos m)"
    by (rule move_effect [OF assms(1,2)])
  then show ?thesis using assms(3) by (auto simp: submitted_as_def)
qed

lemma pending_moves:
  "or_status x = PENDING_SUBMIT \<Longrightarrow> tg \<in> {SUBMITTED, RECONCILE_REQUIRED, REJECTED} \<Longrightarrow> may_move (or_status x) tg"
  by (auto simp: may_move_def)

lemma handle_error_submitted:
  assumes "order_get (om_repos m) (or_order_request_id x) = Some x" and "or_status x = PENDING_SUBMIT"
  shows "submitted_as ev x (if needs_reconciliation e then RECONCILE_REQUIRED else REJECTED)
    (handle_submit_error ev others x q aty aid du e m)"
  unfolding handle_submit_error_def Let_def
  using assms attempt_recorded pending_moves [OF assms(2)]
  by (auto intro!: submitted_asI simp: order_get_def)
     (fastforce intro!: submitted_asI simp: order_get_def)+

lemma submit_step:
  assumes "order_get (om_repos m) (or_order_request_id x) = Some x" and "or_status x = PENDING_SUBMIT"
    and "tg \<in> {SUBMITTED, RECONCILE_REQUIRED, REJECTED}" and "rp_orders w = rp_orders (om_repos m)"
  shows "submitted_as ev x tg (transition_to ev others x tg rc rm aty aid 3 mk
    (m\<lparr>om_repos := record_submission_attempt ev (or_order_request_id x) acc nm nid bs code msg et re ht du w\<rparr>))"
proof (rule submitted_asI)
  let ?w = "record_submission_attempt ev (or_order_request_id x) acc nm nid bs code msg et re ht du w"
  show "may_move (or_status x) tg" using pending_moves [OF assms(2,3)] .
  show "order_get (om_repos (m\<lparr>om_repos := ?w\<rparr>)) (or_order_request_id x) = Some x"
    using assms(1,4) by (simp add: order_get_def)
  show "\<exists>a. map_of (rp_submission_attempts (om_repos (m\<lparr>om_repos := ?w\<rparr>))) (uuid_at ev ''attempt'') = Some a
      \<and> sa_order_request_id a = or_order_request_id x"
    using attempt_recorded [of ev "or_order_request_id x" acc nm nid bs code msg et re ht du w] by auto
qed

lemma handle_result_submitted:
  assumes "order_get (om_repos m) (or_order_request_id x) = Some x" and "or_status x = PENDING_SUBMIT"
  shows "submitted_as ev x (if sres_uncertain r \<or> sres_requires_reconciliation r then RECONCILE_REQUIRED
      else if sres_accepted r then SUBMITTED else REJECTED)
    (handle_submit_result ev others x q aty aid du r m)"
  using submit_step [OF assms] by (simp add: handle_submit_result_def Let_def)

text \<open>An uncertain answer leaves the locks that its trigger leaves: the second, automatic trigger
  finds the run that the first one has started.\<close>

lemma uncertain_submit_locks:
  assumes "order_get (om_repos m) (or_order_request_id x) = Some x" and "or_status x = PENDING_SUBMIT"
    and "om_reconciliation_service m" and "\<not> submit_blocked ev x q m" and "others (''submit'', 0) = (\<lambda>w. w)"
    and "lock_at (rp_reconciliations (om_repos m)) (submit_scope (om_repos m) x q) = None"
    and "sres_uncertain r"
  shows "rc_blocking_locks (rp_reconciliations (om_repos (snd
      (submit_order_to_broker ev others (Submit_Result r) du x q aty aid m))))
    = rc_blocking_locks (snd (trigger (inside ''trigger'' 0 ev) ''uncertain_result''
        (or_account_id x, None, Some (sq_symbol q), Some (side_value (sq_side q)))
        (rp_reconciliations (om_repos m))))"
proof -
  let ?k = "(or_account_id x, None, Some (sq_symbol q), Some (side_value (sq_side q))) :: lock_key"
  let ?s = "rp_reconciliations (om_repos m)"
  let ?t = "snd (trigger (inside ''trigger'' 0 ev) ''uncertain_result'' ?k ?s)"
  have s: "before_broker ev x q m = m"
    using assms(3,6) by (cases m) (simp add: before_broker_def is_blocked_def is_locked_def lock_at_def)
  define m1 where "m1 = m\<lparr>om_repos := record_submission_attempt ev (or_order_request_id x) (sres_accepted r)
      (Some (broker_name_value (sres_broker_name r))) (sres_broker_order_id r) None (sres_raw_code r)
      (sres_raw_message r) None None None du
      (trigger_submit ev ''uncertain_result'' x q m (om_repos m))\<rparr>"
  have g: "order_get (om_repos m1) (or_order_request_id x) = Some x"
    using assms(1) by (simp add: m1_def order_get_def)
  have m1: "rp_reconciliations (om_repos m1) = ?t" "om_reconciliation_service m1"
    using assms(3) by (simp_all add: m1_def trigger_submit_def)
  let ?c = "Some (or_text (sres_raw_code r) ''UNCERTAIN'')"
  let ?msg = "Some (case or_else (\<lambda>s. s = []) (sres_raw_message r) None of
      Some t \<Rightarrow> Plain t | None \<Rightarrow> Msg_Uncertain (sres_uncertain r) (sres_requires_reconciliation r))"
  have sub: "submit_order_to_broker ev others (Submit_Result r) du x q aty aid m
      = transition_to ev others x RECONCILE_REQUIRED ?c ?msg aty aid 3 True m1"
    using assms(4,5,7) s by (simp add: submit_unfold handle_submit_result_def m1_def Let_def)
  have "get_active_run ?t (or_account_id x) \<noteq> None"
    using trigger_activates [of "inside ''trigger'' 0 ev" "''uncertain_result''" ?k ?s] by simp
  then have locks: "rc_blocking_locks (snd (trigger_and_link e ty (or_account_id x, b) oid ?t)) = rc_blocking_locks ?t"
    for e ty b oid by (simp add: trigger_and_link_locks)
  show ?thesis
    unfolding sub
    by (rule move_effect [OF g pending_moves [OF assms(2)], of RECONCILE_REQUIRED ev others ?c ?msg
          aty aid True]) (auto simp: m1 locks)
qed

section \<open>Properties\<close>

definition ex_order :: order_request where
  "ex_order =
     \<lparr>or_order_request_id = 11, or_account_id = 1, or_instrument_id = 2,
      or_client_order_id = ''co-1'', or_idempotency_key = ''k'', or_correlation_id = ''c'',
      or_side = BUY, or_order_type = LIMIT, or_requested_quantity = 10, or_status = ACKNOWLEDGED,
      or_trade_decision_id = None, or_decision_context_id = None, or_requested_price = Some 70000,
      or_time_in_force = DAY, or_status_reason_code = None, or_status_reason_message = None,
      or_submitted_at = Some 5, or_created_at = Some 1, or_updated_at = Some 5, or_version = 4,
      or_order_intent_id = None\<rparr>"

definition ex_repos :: "order_request \<Rightarrow> repos" where
  "ex_repos x =
     \<lparr>rp_accounts = [(1, \<lparr>ac_account_id = 1, ac_client_id = 5, ac_broker_account_id = 6,
          ac_environment = PAPER, ac_account_alias = ''main''\<rparr>)],
      rp_instruments = [(2, \<lparr>in_instrument_id = 2, in_symbol = ''005930'', in_market_code = ''KRX'', in_asset_class = ''equity'',
        in_is_active = True, in_exchange_code = None, in_market_segment = None, in_created_at = None,
        in_updated_at = None\<rparr>)],
      rp_strategies = [], rp_orders = [(or_order_request_id x, x)], rp_excluded_account_ids = [],
      rp_broker_orders = [], rp_submission_attempts = [], rp_order_state_events = [],
      rp_audit_logs = [], rp_reconciliations = empty_store\<rparr>"

definition ex_om :: "order_request \<Rightarrow> order_manager" where
  "ex_om x = \<lparr>om_repos = ex_repos x, om_reconciliation_service = True, om_budget_manager = None\<rparr>"

definition ex_submit :: submit_order_request where
  "ex_submit =
     \<lparr>sq_account_ref = ''main'', sq_client_order_id = ''co-1'', sq_correlation_id = ''c'',
      sq_strategy_id = ''s'', sq_symbol = ''005930'', sq_market = ''KRX'', sq_side = BUY,
      sq_order_type = LIMIT, sq_quantity = 10, sq_time_in_force = DAY, sq_price = Some 70000,
      sq_idempotency_key = None, sq_decision_id = None, sq_decision_context_id = None\<rparr>"

definition ex_result :: submit_order_result where
  "ex_result =
     \<lparr>sres_accepted = True, sres_broker_name = KOREA_INVESTMENT, sres_broker_order_id = Some ''0000117057'',
      sres_broker_status = SUBMITTED, sres_raw_code = None, sres_raw_message = None,
      sres_uncertain = True, sres_requires_reconciliation = False\<rparr>"

lemma ex_om_get: "order_get (om_repos (ex_om x)) (or_order_request_id x) = Some x"
  by (simp add: ex_om_def ex_repos_def order_get_def)

text \<open>A transition is refused without effect when the stored order is in a final state.\<close>

lemma final_refuses_transition:
  assumes "order_get (om_repos m) (or_order_request_id x) = Some y"
    and "or_status y \<in> {FILLED, CANCELLED, REJECTED}"
    and "or_version x = or_version y \<longrightarrow> or_status x = or_status y"
  shows "\<exists>e. transition_to ev others x tg rc rm aty aid 3 mk m = (Inl e, m)"
    "\<exists>e. transition_to_authoritative ev others x tg run rm 3 m = (Inl e, m)"
    "\<exists>e. manual_resolve ev others x tg code rm evidence operator m = (Inl e, m)"
proof -
  have t: "or_status y \<in> set terminal_states" using assms(2) by (rule final_is_terminal)
  have core: "\<exists>e. transition_to_core ev others x tg c r a i src 3 k m = (Inl e, m)"
    if "or_version x \<noteq> or_version y" for c r a i src k
    using core_terminal [OF assms(1) t that [symmetric], of ev others tg c r a i src 2 k]
    by (simp add: numeral_3_eq_3 numeral_2_eq_2)
  consider (same) "or_status x \<in> {FILLED, CANCELLED, REJECTED}" | (stale) "or_version x \<noteq> or_version y"
    using assms(2,3) by auto
  then have "(\<exists>e. transition_to ev others x tg rc rm aty aid 3 mk m = (Inl e, m))
    \<and> (\<exists>e. transition_to_authoritative ev others x tg run rm 3 m = (Inl e, m))
    \<and> (\<exists>e. manual_resolve ev others x tg code rm evidence operator m = (Inl e, m))"
  proof cases
    case same
    then show ?thesis
      using final_has_no_move [OF same, of tg] final_is_terminal [OF same]
      by (auto simp: transition_to_unfold transition_to_authoritative_def manual_resolve_def
          validate_authoritative_target_def)
  next
    case stale
    have "\<exists>e. manual_resolve ev others x tg code rm evidence operator m = (Inl e, m)"
      using core [OF stale, of "Some code" rm "''operator''" operator OPERATOR False]
      by (auto simp: manual_resolve_def)
    moreover have "\<exists>e. transition_to_authoritative ev others x tg run rm 3 m = (Inl e, m)"
      using core [OF stale] by (simp add: transition_to_authoritative_def split: sum.split)
    ultimately show ?thesis using core [OF stale] by (simp add: transition_to_unfold)
  qed
  then show "\<exists>e. transition_to ev others x tg rc rm aty aid 3 mk m = (Inl e, m)"
    "\<exists>e. transition_to_authoritative ev others x tg run rm 3 m = (Inl e, m)"
    "\<exists>e. manual_resolve ev others x tg code rm evidence operator m = (Inl e, m)" by simp_all
qed

lemma final_refuses_submission:
  assumes "order_get (om_repos m) (or_order_request_id x) = Some y"
    and "or_status y \<in> {FILLED, CANCELLED, REJECTED}"
    and "or_version x = or_version y \<longrightarrow> or_status x = or_status y"
    and "\<And>w. order_get (others (''submit'', 0) w) (or_order_request_id x) = order_get w (or_order_request_id x)"
  shows "\<exists>e m'. submit_order_to_broker ev others outcome du x q aty aid m = (Inl e, m')
    \<and> order_get (om_repos m') (or_order_request_id x) = Some y"
proof -
  have t: "\<exists>e m'. transition_to ev others x tg rc rm aty aid 3 mk m1 = (Inl e, m')
      \<and> order_get (om_repos m') (or_order_request_id x) = Some y"
    if "order_get (om_repos m1) (or_order_request_id x) = Some y" for tg rc rm mk m1
    using final_refuses_transition(1) [OF that assms(2,3)] that by fastforce
  have g: "map_of (rp_orders (others (''submit'', 0) w)) (or_order_request_id x) = map_of (rp_orders w) (or_order_request_id x)"
    for w using assms(4) [of w] by (simp add: order_get_def)
  have y: "map_of (rp_orders (om_repos m)) (or_order_request_id x) = Some y"
    using assms(1) by (simp add: order_get_def)
  show ?thesis
    by (cases outcome)
      (simp_all add: submit_unfold handle_submit_error_def handle_submit_result_def Let_def,
       (intro conjI impI; (rule t)?; simp add: order_get_def g y)+)
qed

text \<open>C1. Final states are final for the order manager: once the stored order is filled, cancelled or rejected,
  no regular transition, no authoritative reflection and no manual resolve changes anything, for any
  snapshot of the order that tells the truth about its own version, however stale it is; and handing such an
  order to the broker again ends with an error and leaves the stored order as it is, whatever the broker
  answers, as long as nobody else writes the order during the call.\<close>

theorem final_states_are_final:
  assumes "order_get (om_repos m) (or_order_request_id x) = Some y"
    and "or_status y \<in> {FILLED, CANCELLED, REJECTED}"
    and "or_version x = or_version y \<longrightarrow> or_status x = or_status y"
  shows "(\<exists>e. transition_to ev others x tg rc rm aty aid 3 mk m = (Inl e, m))
    \<and> (\<exists>e. transition_to_authoritative ev others x tg run rm 3 m = (Inl e, m))
    \<and> (\<exists>e. manual_resolve ev others x tg code rm evidence operator m = (Inl e, m))
    \<and> ((\<forall>w. order_get (others (''submit'', 0) w) (or_order_request_id x) = order_get w (or_order_request_id x))
       \<longrightarrow> (\<exists>e m'. submit_order_to_broker ev others outcome du x q aty aid m = (Inl e, m')
             \<and> order_get (om_repos m') (or_order_request_id x) = Some y))"
  using final_refuses_submission [OF assms]
  by (intro conjI impI final_refuses_transition [OF assms]) simp

theorem final_states_are_final_witness:
  "(\<exists>e. transition_to ex_env (\<lambda>_ w. w) (ex_order\<lparr>or_version := 3\<rparr>) CANCELLED None None ''system'' ''worker''
     3 False (ex_om (ex_order\<lparr>or_status := FILLED\<rparr>)) = (Inl e, ex_om (ex_order\<lparr>or_status := FILLED\<rparr>)))
   \<and> (\<exists>e m'. submit_order_to_broker ex_env (\<lambda>_ w. w) (Submit_Result ex_result) 12 (ex_order\<lparr>or_version := 3\<rparr>) ex_submit
        ''system'' ''worker'' (ex_om (ex_order\<lparr>or_status := FILLED\<rparr>)) = (Inl e, m')
      \<and> order_get (om_repos m') 11 = Some (ex_order\<lparr>or_status := FILLED\<rparr>))"
proof -
  let ?y = "ex_order\<lparr>or_status := FILLED\<rparr>"
  have "order_get (om_repos (ex_om ?y)) (or_order_request_id (ex_order\<lparr>or_version := 3\<rparr>)) = Some ?y"
    using ex_om_get [of ?y] by simp
  from final_states_are_final [OF this, of ex_env "\<lambda>_ w. w"] show ?thesis by (simp add: ex_order_def)
qed

text \<open>C10. A transition from the current snapshot does exactly what the table says: a forbidden one
  raises and changes nothing; an allowed one stores the target status with the next version,
  leaves every other order alone, and records one state event with both statuses and one audit
  entry for the order.\<close>

theorem fresh_transition_effect:
  assumes "order_get (om_repos m) (or_order_request_id x) = Some x"
  shows "if may_move (or_status x) tg
    then \<exists>after m' z entry. transition_to ev others x tg rc rm aty aid 3 mk m = (Inr after, m')
      \<and> or_status after = tg
      \<and> order_get (om_repos m') (or_order_request_id x) = Some z
      \<and> or_status z = tg \<and> or_version z = or_version x + 1
      \<and> (\<forall>j. j \<noteq> or_order_request_id x \<longrightarrow> order_get (om_repos m') j = order_get (om_repos m) j)
      \<and> map_of (rp_order_state_events (om_repos m')) (uuid_at ev ''event'')
          = Some (state_event ev x after INTERNAL)
      \<and> map_of (rp_audit_logs (om_repos m')) (uuid_at ev ''audit'') = Some entry
      \<and> al_target_entity_id entry = or_order_request_id x
    else transition_to ev others x tg rc rm aty aid 3 mk m
      = (Inl (Invalid_State_Transition (or_order_request_id x) (or_status x) tg), m)"
proof (cases "may_move (or_status x) tg")
  case True
  obtain after w m' z where c:
    "transition_to_core ev others x tg rc rm aty aid INTERNAL (Suc 2) mk m = (Inr after, m')"
    "committed ev x after INTERNAL m w m'" "or_status after = tg"
    "or_order_request_id after = or_order_request_id x"
    "order_get (om_repos m') (or_order_request_id x) = Some z" "or_status z = tg"
    "or_version z = or_version x + 1"
    "\<And>j. j \<noteq> or_order_request_id x \<Longrightarrow> order_get (om_repos m') j = order_get (om_repos m) j"
    by (rule core_fresh [OF assms refl, of ev others tg rc rm aty aid INTERNAL 2 mk]) blast
  obtain entry where "map_of (rp_audit_logs (om_repos m')) (uuid_at ev ''audit'') = Some entry"
    "al_target_entity_id entry = or_order_request_id after"
    using c(2) unfolding committed_def by blast
  moreover have "map_of (rp_order_state_events (om_repos m')) (uuid_at ev ''event'')
      = Some (state_event ev x after INTERNAL)"
    using c(2) unfolding committed_def by blast
  ultimately show ?thesis
    using True c by (auto simp: transition_to_unfold numeral_3_eq_3 numeral_2_eq_2)
qed (simp add: transition_to_unfold)

theorem fresh_transition_effect_witness:
  "\<exists>after m'. transition_to ex_env (\<lambda>_ w. w) ex_order FILLED None None ''system'' ''worker'' 3 False (ex_om ex_order)
     = (Inr after, m') \<and> or_status after = FILLED"
  using fresh_transition_effect [OF ex_om_get [of ex_order], of FILLED ex_env "\<lambda>_ w. w" None None
      "''system''" "''worker''" False]
  by (auto simp: may_move_def ex_order_def)

text \<open>A failed transition leaves no trace: whenever a transition raises and no other worker
  interferes, repositories, locks and budget are exactly as before; no state event and no audit
  entry is written for a change that did not happen.\<close>

theorem failed_transition_leaves_no_trace:
  assumes "transition_to ev (\<lambda>_ w. w) x tg rc rm aty aid n mk m = (Inl e, m')"
  shows "m' = m"
  using assms core_failed_quiet by (fastforce simp: transition_to_unfold split: if_splits)

theorem failed_transition_leaves_no_trace_witness:
  "snd (transition_to ex_env (\<lambda>_ w. w) ex_order DRAFT None None ''system'' ''worker'' 3 False (ex_om ex_order))
   = ex_om ex_order"
proof -
  have "transition_to ex_env (\<lambda>_ w. w) ex_order DRAFT None None ''system'' ''worker'' 3 False (ex_om ex_order)
      = (Inl (Invalid_State_Transition 11 ACKNOWLEDGED DRAFT),
         snd (transition_to ex_env (\<lambda>_ w. w) ex_order DRAFT None None ''system'' ''worker'' 3 False (ex_om ex_order)))"
    by (simp add: transition_to_unfold may_move_def ex_order_def)
  then show ?thesis by (rule failed_transition_leaves_no_trace)
qed

text \<open>A stale snapshot bypasses the transition table: after a version conflict the retry checks
  only for terminal states, so a target that the snapshot's old status allowed is stored over any
  current status that is not terminal, also where the table forbids that move.\<close>

theorem stale_snapshot_bypasses_table:
  assumes "order_get (om_repos m) (or_order_request_id x) = Some y"
    and "or_order_request_id y = or_order_request_id x"
    and "or_version y \<noteq> or_version x" and "or_status y \<notin> set terminal_states"
    and "may_move (or_status x) tg"
  shows "\<exists>after m' z. transition_to ev (\<lambda>_ w. w) x tg rc rm aty aid 3 mk m = (Inr after, m')
    \<and> order_get (om_repos m') (or_order_request_id x) = Some z \<and> or_status z = tg"
proof -
  define sub where "sub = (if mk \<and> or_submitted_at x = None then Some (now_at ev ''submitted_at'') else None)"
  define first where "first = replace_status (inside ''first'' 0 ev) x tg rc rm sub"
  define second where "second = replace_status (inside ''retry'' 0 ev) y tg rc rm
      (case sub of Some t \<Rightarrow> Some t | None \<Rightarrow> or_submitted_at y)"
  have s: "order_get (om_repos m) (or_order_request_id second) = Some y" "or_version y = or_version second"
    using assms(1,2) by (simp_all add: second_def)
  obtain w' z where l: "update_loop ev (\<lambda>_ w. w) tg rc rm sub 1 (Suc 1)
      (Some (Version_Conflict (or_order_request_id x) (or_version x) (or_version y))) second (om_repos m)
      = (Inr second, w')"
    "order_get w' (or_order_request_id second) = Some z" "or_status z = or_status second"
    by (rule loop_fresh [OF s]) blast
  have loop: "update_loop ev (\<lambda>_ w. w) tg rc rm sub 0 3 None first (om_repos m) = (Inr second, w')"
    using l(1) order_store.upd_conflict [of "om_repos m" "or_order_request_id x" y "or_version x"] assms(1,3,4)
    by (simp add: numeral_3_eq_3 update_loop.simps(2) [of _ _ _ _ _ _ 0] first_def second_def)
  obtain m' where "transition_to_core ev (\<lambda>_ w. w) x tg rc rm aty aid INTERNAL 3 mk m = (Inr second, m')"
    "committed ev x second INTERNAL m w' m'"
    by (rule core_success [OF loop [unfolded first_def sub_def]]) (simp_all add: second_def)
  moreover from this(2) have "order_get (om_repos m') = order_get w'"
    by (intro order_get_cong) (simp add: committed_def)
  ultimately show ?thesis
    using l assms(2,5) by (auto simp: transition_to_unfold second_def)
qed

theorem stale_snapshot_bypasses_table_witness:
  "\<not> may_move RECONCILE_REQUIRED FILLED
   \<and> (\<exists>after m' z. transition_to ex_env (\<lambda>_ w. w) ex_order FILLED None None ''system'' ''ws'' 3 False
        (ex_om (ex_order\<lparr>or_status := RECONCILE_REQUIRED, or_version := 5\<rparr>)) = (Inr after, m')
      \<and> order_get (om_repos m') 11 = Some z \<and> or_status z = FILLED)"
proof
  let ?y = "ex_order\<lparr>or_status := RECONCILE_REQUIRED, or_version := 5\<rparr>"
  show "\<not> may_move RECONCILE_REQUIRED FILLED" by (simp add: may_move_def)
  have "order_get (om_repos (ex_om ?y)) (or_order_request_id ex_order) = Some ?y"
    using ex_om_get [of ?y] by simp
  from stale_snapshot_bypasses_table [OF this, of FILLED ex_env None None "''system''" "''ws''" False]
  show "\<exists>after m' z. transition_to ex_env (\<lambda>_ w. w) ex_order FILLED None None ''system'' ''ws'' 3 False
        (ex_om ?y) = (Inr after, m') \<and> order_get (om_repos m') 11 = Some z \<and> or_status z = FILLED"
    by (simp add: ex_order_def terminal_states_def may_move_def)
qed

text \<open>C9. A submission ends in the state the broker's answer stands for: uncertain results and
  errors of unknown effect in RECONCILE_REQUIRED, acceptance in SUBMITTED, refusal in REJECTED,
  each with the attempt on record; only an unexpected exception is passed on, and then the order
  stays as it was, the attempt being recorded all the same.\<close>

theorem submission_follows_outcome:
  assumes "order_get (om_repos m) (or_order_request_id x) = Some x" and "or_status x = PENDING_SUBMIT"
    and "\<not> submit_blocked ev x q m" and "others (''submit'', 0) = (\<lambda>w. w)"
  shows "case outcome_status outcome of
      Some st \<Rightarrow> submitted_as ev x st (submit_order_to_broker ev others outcome du x q aty aid m)
    | None \<Rightarrow> (\<exists>e m' a. submit_order_to_broker ev others outcome du x q aty aid m = (Inl e, m')
        \<and> order_get (om_repos m') (or_order_request_id x) = Some x
        \<and> map_of (rp_submission_attempts (om_repos m')) (uuid_at ev ''attempt'') = Some a
        \<and> sa_order_request_id a = or_order_request_id x)"
proof -
  let ?m = "before_broker ev x q m"
  have g: "order_get (om_repos ?m) (or_order_request_id x) = Some x"
    using assms(1) by (simp add: order_get_def)
  show ?thesis
  proof (cases outcome)
    case (Submit_Result r)
    then show ?thesis
      using handle_result_submitted [OF g assms(2)] assms(3,4) by (simp add: submit_unfold)
  next
    case (Submit_Error e)
    then show ?thesis
      using handle_error_submitted [OF g assms(2)] assms(3,4) by (simp add: submit_unfold)
  next
    case (Submit_Crash e)
    then show ?thesis
      using g assms(3,4)
        attempt_recorded [of ev "or_order_request_id x" False "Some (oe_broker_name e)" None None
          "oe_raw_code e" "oe_raw_message e" "Some (oe_class e)" "oe_retryable e" "oe_http_status e" du
          "om_repos ?m"]
      by (auto simp: submit_unfold order_get_def Let_def)
  qed
qed

definition ex_pending :: order_request where
  "ex_pending = ex_order\<lparr>or_status := PENDING_SUBMIT\<rparr>"

lemma ex_not_blocked: "\<not> submit_blocked ev x q (ex_om y)"
  by (simp add: submit_blocked_def is_blocked_def is_locked_def ex_om_def ex_repos_def empty_store_def)

theorem submission_follows_outcome_witness:
  "submitted_as ex_env ex_pending RECONCILE_REQUIRED
     (submit_order_to_broker ex_env (\<lambda>_ w. w) (Submit_Result ex_result) 12 ex_pending ex_submit
       ''system'' ''order_manager'' (ex_om ex_pending))"
  using submission_follows_outcome [OF ex_om_get [of ex_pending] _ ex_not_blocked,
      where others = "\<lambda>_ w. w" and outcome = "Submit_Result ex_result"]
  by (simp add: ex_pending_def ex_result_def)

text \<open>C38. A blocked order never reaches the broker: while the scope of the order is locked the
  result does not depend on what the broker would have answered, no attempt and no broker order
  is recorded, no lock is taken, and the order waits in RECONCILE_REQUIRED.\<close>

theorem blocked_order_is_not_submitted:
  assumes "order_get (om_repos m) (or_order_request_id x) = Some x" and "or_status x = PENDING_SUBMIT"
    and "submit_blocked ev x q m"
  shows "\<exists>after m' z. (\<forall>outcome du. submit_order_to_broker ev others outcome du x q aty aid m = (Inr after, m'))
    \<and> order_get (om_repos m') (or_order_request_id x) = Some z \<and> or_status z = RECONCILE_REQUIRED
    \<and> rp_submission_attempts (om_repos m') = rp_submission_attempts (om_repos m)
    \<and> rp_broker_orders (om_repos m') = rp_broker_orders (om_repos m)
    \<and> rp_reconciliations (om_repos m') = rp_reconciliations (om_repos m)"
proof -
  let ?m = "before_broker ev x q m"
  have g: "order_get (om_repos ?m) (or_order_request_id x) = Some x"
    using assms(1) by (simp add: order_get_def)
  have r: "rp_reconciliations (om_repos ?m) = rp_reconciliations (om_repos m)"
    using assms(3)
    by (auto simp: before_broker_def submit_blocked_def is_blocked_def is_locked_def split: option.splits if_splits)
  obtain after m' z where t: "transition_to ev others x RECONCILE_REQUIRED (Some ''BLOCKED'')
      (Some (Msg_Blocked (or_account_id x))) aty aid 3 False ?m = (Inr after, m')"
    "order_get (om_repos m') (or_order_request_id x) = Some z" "or_status z = RECONCILE_REQUIRED"
    "rp_submission_attempts (om_repos m') = rp_submission_attempts (om_repos ?m)"
    "rp_broker_orders (om_repos m') = rp_broker_orders (om_repos ?m)"
    "rp_reconciliations (om_repos m') = rp_reconciliations (om_repos ?m)"
    by (rule move_effect [OF g pending_moves [OF assms(2)], of RECONCILE_REQUIRED ev others
          "Some ''BLOCKED''" "Some (Msg_Blocked (or_account_id x))" aty aid False]) auto
  then show ?thesis using assms(3) r by (auto simp: submit_unfold)
qed

theorem blocked_order_is_not_submitted_witness:
  "rp_submission_attempts (om_repos (snd (submit_order_to_broker ex_env (\<lambda>_ w. w) (Submit_Result ex_result) 12
     ex_pending ex_submit ''system'' ''order_manager''
     ((ex_om ex_pending)\<lparr>om_repos := (ex_repos ex_pending)\<lparr>rp_reconciliations :=
        snd (trigger ex_env ''uncertain_result'' ex_scope empty_store)\<rparr>\<rparr>)))) = []"
proof -
  let ?m = "(ex_om ex_pending)\<lparr>om_repos := (ex_repos ex_pending)\<lparr>rp_reconciliations :=
        snd (trigger ex_env ''uncertain_result'' ex_scope empty_store)\<rparr>\<rparr>"
  have "order_get (om_repos ?m) (or_order_request_id ex_pending) = Some ex_pending"
    by (simp add: order_get_def ex_repos_def)
  moreover have "or_status ex_pending = PENDING_SUBMIT" by (simp add: ex_pending_def)
  moreover have "submit_blocked ex_env ex_pending ex_submit ?m" by code_simp
  ultimately show ?thesis
    using blocked_order_is_not_submitted [of ?m ex_pending ex_env ex_submit "\<lambda>_ w. w" "''system''"
        "''order_manager''"]
    by (auto simp: ex_repos_def)
qed

text \<open>C22. An uncertain submission closes the symbol: when the account has no started run and the
  scope was free, then after an uncertain answer every further order of the account on that
  symbol and side is blocked for the time to live of the lock, so it cannot be doubled.\<close>

theorem uncertain_submission_blocks_symbol:
  assumes "order_get (om_repos m) (or_order_request_id x) = Some x" and "or_status x = PENDING_SUBMIT"
    and "om_reconciliation_service m" and "\<not> submit_blocked ev x q m" and "others (''submit'', 0) = (\<lambda>w. w)"
    and "find_strategy (om_repos m) (sq_strategy_id q) = None"
    and "get_active_run (rp_reconciliations (om_repos m)) (or_account_id x) = None"
    and "sres_uncertain r"
    and "lock_at (rp_reconciliations (om_repos m)) (submit_scope (om_repos m) x q) = None"
  shows "fst (is_blocked t (or_account_id x, None, Some (sq_symbol q), Some (side_value (sq_side q)))
      (rp_reconciliations (om_repos (snd (submit_order_to_broker ev others (Submit_Result r) du x q aty aid m)))))
    \<longleftrightarrow> t < now_at (inside ''trigger'' 0 ev) ''acquire'' + lock_ttl"
proof -
  let ?k = "(or_account_id x, None, Some (sq_symbol q), Some (side_value (sq_side q))) :: lock_key"
  have "submit_scope (om_repos m) x q = ?k" using assms(6) by (simp add: submit_scope_def)
  then show ?thesis
    using is_blocked_cong [OF uncertain_submit_locks [of m x ev q others r du aty aid], of t ?k]
      trigger_lock [of "rp_reconciliations (om_repos m)" ?k t] assms by simp
qed

theorem uncertain_submission_blocks_symbol_witness:
  "fst (is_blocked 100 ex_scope (rp_reconciliations (om_repos (snd
     (submit_order_to_broker ex_env (\<lambda>_ w. w) (Submit_Result ex_result) 12 ex_pending ex_submit
       ''system'' ''order_manager'' (ex_om ex_pending))))))"
proof -
  have e: "ex_scope = (or_account_id ex_pending, None, Some (sq_symbol ex_submit),
      Some (side_value (sq_side ex_submit)))"
    by (simp add: ex_scope_def ex_pending_def ex_order_def ex_submit_def)
  have "fst (is_blocked 100 ex_scope (rp_reconciliations (om_repos (snd
     (submit_order_to_broker ex_env (\<lambda>_ w. w) (Submit_Result ex_result) 12 ex_pending ex_submit
       ''system'' ''order_manager'' (ex_om ex_pending))))))
     \<longleftrightarrow> 100 < now_at (inside ''trigger'' 0 ex_env) ''acquire'' + lock_ttl"
    unfolding e
  proof (rule uncertain_submission_blocks_symbol [OF ex_om_get _ _ ex_not_blocked])
    show "get_active_run (rp_reconciliations (om_repos (ex_om ex_pending))) (or_account_id ex_pending) = None"
      by (simp add: get_active_run_def newest_first_def ex_om_def ex_repos_def empty_store_def)
  qed (simp_all add: ex_pending_def ex_om_def ex_repos_def empty_store_def find_strategy_def ex_result_def
      lock_at_def)
  then show ?thesis by (simp add: inside_def now_at_def ex_env_def lock_ttl_def)
qed

text \<open>A second uncertain symbol stays open: when the account already has a started run, an
  uncertain answer takes no lock for its own symbol and side, so further orders on it are not
  blocked and the uncertain order can be doubled.\<close>

theorem second_uncertain_symbol_stays_open:
  assumes "order_get (om_repos m) (or_order_request_id x) = Some x" and "or_status x = PENDING_SUBMIT"
    and "om_reconciliation_service m" and "\<not> submit_blocked ev x q m" and "others (''submit'', 0) = (\<lambda>w. w)"
    and "find_strategy (om_repos m) (sq_strategy_id q) = None"
    and "get_active_run (rp_reconciliations (om_repos m)) (or_account_id x) = Some run"
    and "sres_uncertain r"
    and "lock_at (rp_reconciliations (om_repos m)) (submit_scope (om_repos m) x q) = None"
  shows "\<not> fst (is_blocked t (or_account_id x, None, Some (sq_symbol q), Some (side_value (sq_side q)))
      (rp_reconciliations (om_repos (snd (submit_order_to_broker ev others (Submit_Result r) du x q aty aid m)))))"
proof -
  let ?k = "(or_account_id x, None, Some (sq_symbol q), Some (side_value (sq_side q))) :: lock_key"
  have "submit_scope (om_repos m) x q = ?k" using assms(6) by (simp add: submit_scope_def)
  then show ?thesis
    using is_blocked_cong [OF uncertain_submit_locks [of m x ev q others r du aty aid], of t ?k] assms
    by (simp add: trigger_def is_blocked_def is_locked_def lock_at_def)
qed

definition ex_busy :: order_manager where
  "ex_busy = (ex_om ex_pending)\<lparr>om_repos := (ex_repos ex_pending)\<lparr>rp_reconciliations :=
     snd (trigger ex_env ''uncertain_result'' (1, None, Some ''000660'', Some ''buy'') empty_store)\<rparr>\<rparr>"

theorem second_uncertain_symbol_stays_open_witness:
  "\<not> fst (is_blocked 100 ex_scope (rp_reconciliations (om_repos (snd
     (submit_order_to_broker ex_env (\<lambda>_ w. w) (Submit_Result ex_result) 12 ex_pending ex_submit
       ''system'' ''order_manager'' ex_busy)))))"
proof -
  have e: "ex_scope = (or_account_id ex_pending, None, Some (sq_symbol ex_submit),
      Some (side_value (sq_side ex_submit)))"
    by (simp add: ex_scope_def ex_pending_def ex_order_def ex_submit_def)
  show ?thesis
    unfolding e
  proof (rule second_uncertain_symbol_stays_open)
    show "order_get (om_repos ex_busy) (or_order_request_id ex_pending) = Some ex_pending"
      by (simp add: order_get_def ex_busy_def ex_repos_def)
    show "\<not> submit_blocked ex_env ex_pending ex_submit ex_busy" by code_simp
    show "get_active_run (rp_reconciliations (om_repos ex_busy)) (or_account_id ex_pending)
      = Some (started_run ex_env 1 ''uncertain_result'')" by code_simp
    show "lock_at (rp_reconciliations (om_repos ex_busy)) (submit_scope (om_repos ex_busy) ex_pending ex_submit)
      = None" by code_simp
  qed (simp_all add: ex_busy_def ex_pending_def ex_om_def ex_repos_def find_strategy_def ex_result_def)
qed

text \<open>No two stored orders have the same client order identifier.\<close>

definition client_ids_unique :: "repos \<Rightarrow> bool" where
  "client_ids_unique w \<longleftrightarrow> distinct (map (or_client_order_id \<circ> snd) (rp_orders w))"

lemma update_fresh: "map_of xs k = None \<Longrightarrow> AList.update k v xs = xs @ [(k, v)]"
  by (induction xs) (auto split: if_splits)

lemma budget_gate_frame: "\<exists>ok b. budget_gate ev m = (ok, m\<lparr>om_budget_manager := b\<rparr>)"
proof (cases "om_budget_manager m")
  case None
  then have "budget_gate ev m = (True, m\<lparr>om_budget_manager := None\<rparr>)"
    by (cases m) (simp add: budget_gate_def)
  then show ?thesis by blast
qed (auto simp: budget_gate_def split_beta Let_def)

lemma create_order_cases:
  obtains (refused) e b where
    "create_order ev digest dec_str parse_uuid q aty aid m = (Inl e, m\<lparr>om_budget_manager := b\<rparr>)"
  | (created) x b w where "create_order ev digest dec_str parse_uuid q aty aid m
        = (Inr x, m\<lparr>om_budget_manager := b, om_repos := w\<rparr>)"
      "rp_orders w = AList.update (uuid_at ev ''order'') x (rp_orders (om_repos m))"
      "get_by_client_order_id (om_repos m) (sq_client_order_id q) = None"
      "or_client_order_id x = sq_client_order_id q" "or_order_request_id x = uuid_at ev ''order''"
      "or_status x = DRAFT" "or_version x = 1" "or_requested_quantity x = sq_quantity q" "0 < sq_quantity q"
proof -
  obtain ok b where b: "budget_gate ev m = (ok, m\<lparr>om_budget_manager := b\<rparr>)"
    using budget_gate_frame by blast
  obtain r m' where c: "create_order ev digest dec_str parse_uuid q aty aid m = (r, m')" by force
  show ?thesis
  proof (cases r)
    case (Inl e)
    with c have "m' = m\<lparr>om_budget_manager := b\<rparr>"
      by (auto simp: create_order_def b Let_def split: if_splits option.splits)
    then show ?thesis using refused c Inl by blast
  next
    case (Inr x)
    let ?w = "om_repos m'"
    have "m' = m\<lparr>om_budget_manager := b, om_repos := ?w\<rparr>"
      and "rp_orders ?w = AList.update (uuid_at ev ''order'') x (rp_orders (om_repos m))"
      and "get_by_client_order_id (om_repos m) (sq_client_order_id q) = None"
      and "or_client_order_id x = sq_client_order_id q \<and> or_order_request_id x = uuid_at ev ''order''
        \<and> or_status x = DRAFT \<and> or_version x = 1 \<and> or_requested_quantity x = sq_quantity q
        \<and> 0 < sq_quantity q"
      using c Inr
      by (auto simp: create_order_def b Let_def order_add_def split: if_splits option.splits)
    then show ?thesis using created [where x = x and b = b and w = ?w] c Inr by simp
  qed
qed

text \<open>C39. Client order identifiers stay unique: creating an order under a fresh identifier never
  gives two stored orders the same client order identifier.  A request whose client order identifier
  is taken, or whose quantity is not positive, is refused; every refusal leaves the repositories as
  they were.  A created order is stored as a draft of version one with the identifier and the quantity
  of the request, and every other order is untouched.\<close>

theorem create_order_keeps_client_ids_unique:
  assumes "client_ids_unique (om_repos m)" and "order_get (om_repos m) (uuid_at ev ''order'') = None"
    and "create_order ev digest dec_str parse_uuid q aty aid m = (r, m')"
  shows "client_ids_unique (om_repos m')
    \<and> ((\<exists>k y. order_get (om_repos m) k = Some y \<and> or_client_order_id y = sq_client_order_id q)
        \<or> sq_quantity q \<le> 0 \<longrightarrow> (\<exists>e. r = Inl e))
    \<and> (case r of
         Inl e \<Rightarrow> om_repos m' = om_repos m
       | Inr x \<Rightarrow> or_status x = DRAFT \<and> or_version x = 1 \<and> or_client_order_id x = sq_client_order_id q
           \<and> or_requested_quantity x = sq_quantity q
           \<and> order_get (om_repos m') (uuid_at ev ''order'') = Some x
           \<and> (\<forall>k. k \<noteq> uuid_at ev ''order'' \<longrightarrow> order_get (om_repos m') k = order_get (om_repos m) k))"
proof (cases rule: create_order_cases [of ev digest dec_str parse_uuid q aty aid m])
  case (created x b w)
  have n: "sq_client_order_id q \<notin> set (map (or_client_order_id \<circ> snd) (rp_orders (om_repos m)))"
    using created(3) unfolding get_by_client_order_id_def find_first_None_iff by auto
  then have fresh: "or_client_order_id y \<noteq> sq_client_order_id q" if "order_get (om_repos m) k = Some y" for k y
    using that by (force simp: order_get_def dest: map_of_SomeD)
  have w: "rp_orders w = rp_orders (om_repos m) @ [(uuid_at ev ''order'', x)]"
    using created(2) assms(2) by (simp add: update_fresh order_get_def)
  have "client_ids_unique w"
    using assms(1) n created(4) unfolding client_ids_unique_def w by simp
  moreover have "order_get w (uuid_at ev ''order'') = Some x"
    using created(2) by (simp add: order_get_def)
  moreover have "order_get w k = order_get (om_repos m) k" if "k \<noteq> uuid_at ev ''order''" for k
    using created(2) that by (simp add: order_get_def update_conv')
  moreover have "r = Inr x" "om_repos m' = w" using created(1) assms(3) by simp_all
  ultimately show ?thesis using created(4-9) fresh by auto
qed (use assms in auto)

theorem create_order_keeps_client_ids_unique_witness:
  "client_ids_unique (om_repos (snd (create_order ex_env (\<lambda>s. s) (\<lambda>_. []) (\<lambda>_. None)
     (ex_submit\<lparr>sq_client_order_id := ''co-2''\<rparr>) ''system'' ''order_manager'' (ex_om ex_order))))
   \<and> (\<exists>e. fst (create_order ex_env (\<lambda>s. s) (\<lambda>_. []) (\<lambda>_. None)
     (ex_submit\<lparr>sq_client_order_id := or_client_order_id ex_order\<rparr>) ''system'' ''order_manager'' (ex_om ex_order)) = Inl e)"
proof -
  have u: "client_ids_unique (om_repos (ex_om ex_order))"
    by (simp add: client_ids_unique_def ex_om_def ex_repos_def)
  have f: "order_get (om_repos (ex_om ex_order)) (uuid_at ex_env ''order'') = None"
    by (simp add: order_get_def ex_om_def ex_repos_def ex_order_def uuid_at_def ex_env_def)
  have "order_get (om_repos (ex_om ex_order)) (or_order_request_id ex_order) = Some ex_order"
    by (simp add: order_get_def ex_om_def ex_repos_def ex_order_def)
  then have taken: "\<exists>k y. order_get (om_repos (ex_om ex_order)) k = Some y
      \<and> or_client_order_id y = sq_client_order_id (ex_submit\<lparr>sq_client_order_id := or_client_order_id ex_order\<rparr>)"
    by auto
  show ?thesis
  proof
    show "client_ids_unique (om_repos (snd (create_order ex_env (\<lambda>s. s) (\<lambda>_. []) (\<lambda>_. None)
        (ex_submit\<lparr>sq_client_order_id := ''co-2''\<rparr>) ''system'' ''order_manager'' (ex_om ex_order))))"
      using create_order_keeps_client_ids_unique [OF u f prod.collapse [symmetric]] by blast
    show "\<exists>e. fst (create_order ex_env (\<lambda>s. s) (\<lambda>_. []) (\<lambda>_. None)
        (ex_submit\<lparr>sq_client_order_id := or_client_order_id ex_order\<rparr>) ''system'' ''order_manager'' (ex_om ex_order)) = Inl e"
      using create_order_keeps_client_ids_unique [OF u f prod.collapse [symmetric]] taken by blast
  qed
qed

lemma filter_unique:
  "distinct (map f xs) \<Longrightarrow> x \<in> set xs \<Longrightarrow> filter (\<lambda>y. f y = f x) xs = [x]"
  by (induction xs) (auto simp: filter_empty_conv rev_image_eqI)

lemma order_list_by_client_id:
  assumes "client_ids_unique w" and "(i, x) \<in> set (rp_orders w)"
    and "or_account_id x \<notin> set (rp_excluded_account_ids w)"
  shows "order_list w (any_order\<lparr>oq_client_order_id := Some (or_client_order_id x)\<rparr>) = Inr [x]"
proof -
  let ?q = "any_order\<lparr>oq_client_order_id := Some (or_client_order_id x)\<rparr>"
  let ?xs = "map snd (rp_orders w)"
  have "filter (order_matches w ?q) ?xs = filter (\<lambda>y. or_account_id y \<notin> set (rp_excluded_account_ids w))
      (filter (\<lambda>y. or_client_order_id y = or_client_order_id x) ?xs)"
    by (auto simp: order_matches_def any_order_def agrees_def not_before_def not_after_def filter_filter
        intro!: filter_cong)
  also have "\<dots> = [x]"
  proof -
    have "filter (\<lambda>y. or_client_order_id y = or_client_order_id x) ?xs = [x]"
      using assms(1,2) by (intro filter_unique) (force simp: client_ids_unique_def)+
    then show ?thesis using assms(3) by simp
  qed
  finally show ?thesis by (simp add: order_list_def Let_def any_order_def)
qed

text \<open>C23. An inquiry closes the loop: when the broker answers with a resolved status, the order is
  found by its client order identifier in RECONCILE_REQUIRED and the run is known, then the order
  ends in the broker's status, the run is resolved and none of its locks is left.\<close>

theorem inquiry_resolves_order_and_run:
  assumes "order_get (om_repos m) (or_order_request_id x) = Some x" and "or_status x = RECONCILE_REQUIRED"
    and "client_ids_unique (om_repos m)" and "or_client_order_id x \<noteq> []"
    and "or_account_id x \<notin> set (rp_excluded_account_ids (om_repos m))"
    and "osr_status r \<in> {FILLED, CANCELLED, REJECTED, EXPIRED, ACKNOWLEDGED}"
    and "reconciliation_ok (rp_reconciliations (om_repos m))"
    and "get_run (rp_reconciliations (om_repos m)) run_id = Some run"
  shows "\<exists>m' z run'. resolve_and_mark ev others (Inr r) True run_id (Some (or_client_order_id x)) None m = (Inr r, m')
    \<and> order_get (om_repos m') (or_order_request_id x) = Some z \<and> or_status z = osr_status r
    \<and> get_run (rp_reconciliations (om_repos m')) run_id = Some run' \<and> rr_status run' = ''resolved''
    \<and> (\<forall>k l. lock_at (rp_reconciliations (om_repos m')) k = Some l \<longrightarrow> bl_locked_by_run_id l \<noteq> run_id)"
proof -
  let ?s = "rp_reconciliations (om_repos m)"
  have found: "resolve_order_for_reflection (om_repos m) (or_client_order_id x) None = Inr (Some x)"
    using order_list_by_client_id [OF assms(3) _ assms(5)] assms(1,4)
    by (auto simp: resolve_order_for_reflection_def order_get_def dest!: map_of_SomeD)
  obtain after w m1 z where c: "transition_to_core ev others x (osr_status r) (Some ''RECONCILE_RESOLVED'')
      (Some (Msg_Reflection run_id (osr_status r))) ''system'' ''reconciliation_service'' INTERNAL (Suc 2) False m
      = (Inr after, m1)"
    "committed ev x after INTERNAL m w m1" "or_status after = osr_status r"
    "order_get (om_repos m1) (or_order_request_id x) = Some z" "or_status z = osr_status r"
    "w = (om_repos m)\<lparr>rp_orders := rp_orders w\<rparr>"
    by (rule core_fresh [OF assms(1) refl, of ev others "osr_status r" "Some ''RECONCILE_RESOLVED''"
          "Some (Msg_Reflection run_id (osr_status r))" "''system''" "''reconciliation_service''" INTERNAL 2 False])
       blast
  have "rp_reconciliations w = ?s" by (subst c(6)) simp
  then have s1: "rp_reconciliations (om_repos m1) = ?s"
    using c(2,3) assms(6) by (auto simp: committed_def)
  have "transition_to_authoritative ev others x (osr_status r) run_id None 3 m = (Inr after, m1)"
    using c(1) assms(2,6)
    by (auto simp: transition_to_authoritative_def validate_authoritative_target_def terminal_states_def
        authoritative_reflection_targets_def numeral_3_eq_3 numeral_2_eq_2)
  moreover obtain s2 where s2: "mark_resolved run_id (Some (resolved_summary r)) ?s = (Inr (), s2)"
    using assms(8) by (simp add: mark_resolved_def)
  ultimately have "resolve_and_mark ev others (Inr r) True run_id (Some (or_client_order_id x)) None m
      = (Inr r, m1\<lparr>om_repos := (om_repos m1)\<lparr>rp_reconciliations := s2\<rparr>\<rparr>)"
    using found assms(2,6) s1 by (auto simp: resolve_and_mark_def mark_run_def)
  moreover have "\<exists>run'. get_run s2 run_id = Some run' \<and> rr_status run' = ''resolved''"
    using s2 assms(8)
    by (auto simp: mark_resolved_def release_blocking_lock_def update_run_status_run)
  moreover have "bl_locked_by_run_id l \<noteq> run_id" if "lock_at s2 k = Some l" for k l
    using that resolve_locks [OF assms(7,8), of "Some (resolved_summary r)" k] s2
    by (auto split: option.splits if_splits)
  ultimately show ?thesis using c(4,5) by (auto simp: order_get_def)
qed

theorem inquiry_resolves_order_and_run_witness:
  "\<exists>m' z. resolve_and_mark ex_env (\<lambda>_ w. w) (Inr \<lparr>osr_client_order_id = None, osr_broker_order_id = None,
       osr_status = FILLED,
       osr_filled_quantity = None, osr_raw_code = None, osr_raw_message = None\<rparr>) True 7 (Some ''co-1'') None
       (ex_busy\<lparr>om_repos := (om_repos ex_busy)\<lparr>rp_orders := [(11, ex_order\<lparr>or_status := RECONCILE_REQUIRED\<rparr>)]\<rparr>\<rparr>)
     = (Inr \<lparr>osr_client_order_id = None, osr_broker_order_id = None, osr_status = FILLED,
       osr_filled_quantity = None, osr_raw_code = None, osr_raw_message = None\<rparr>, m')
     \<and> order_get (om_repos m') 11 = Some z \<and> or_status z = FILLED"
proof -
  let ?x = "ex_order\<lparr>or_status := RECONCILE_REQUIRED\<rparr>"
  let ?m = "ex_busy\<lparr>om_repos := (om_repos ex_busy)\<lparr>rp_orders := [(11, ?x)]\<rparr>\<rparr>"
  let ?r = "\<lparr>osr_client_order_id = None, osr_broker_order_id = None, osr_status = FILLED,
       osr_filled_quantity = None, osr_raw_code = None, osr_raw_message = None\<rparr>"
  have "get_run empty_store (uuid_at ex_env ''run'') = None" by (simp add: get_run_def empty_store_def)
  then have "reconciliation_ok (rp_reconciliations (om_repos ?m))"
    by (simp add: ex_busy_def trigger_ok empty_store_ok)
  moreover have "get_run (rp_reconciliations (om_repos ?m)) 7 = Some (started_run ex_env 1 ''uncertain_result'')"
    by code_simp
  moreover have "order_get (om_repos ?m) (or_order_request_id ?x) = Some ?x"
    by (simp add: order_get_def ex_order_def)
  moreover have "client_ids_unique (om_repos ?m)" "or_account_id ?x \<notin> set (rp_excluded_account_ids (om_repos ?m))"
    by (simp_all add: client_ids_unique_def ex_busy_def ex_repos_def)
  ultimately have "\<exists>m' z run'. resolve_and_mark ex_env (\<lambda>_ w. w) (Inr ?r) True 7 (Some (or_client_order_id ?x)) None ?m
      = (Inr ?r, m') \<and> order_get (om_repos m') (or_order_request_id ?x) = Some z \<and> or_status z = osr_status ?r
      \<and> get_run (rp_reconciliations (om_repos m')) 7 = Some run' \<and> rr_status run' = ''resolved''
      \<and> (\<forall>k l. lock_at (rp_reconciliations (om_repos m')) k = Some l \<longrightarrow> bl_locked_by_run_id l \<noteq> 7)"
    by (intro inquiry_resolves_order_and_run) (simp_all add: ex_order_def)
  then show ?thesis by (auto simp: ex_order_def)
qed

text \<open>Reflecting an inquiry by the broker's order identifier always fails: with an order manager,
  a nonempty broker order identifier and a resolved answer the call raises a type error before
  anything is stored, so neither the order nor the run is resolved.\<close>

theorem reflection_by_broker_id_raises:
  assumes "osr_status r \<in> {FILLED, CANCELLED, REJECTED, EXPIRED, ACKNOWLEDGED}" and "b \<noteq> []"
  shows "resolve_and_mark ev others (Inr r) True run_id c (Some b) m = (Inl Type_Error, m)"
  using assms by (auto simp: resolve_and_mark_def resolve_order_for_reflection_def)

theorem reflection_by_broker_id_raises_witness:
  "resolve_and_mark ex_env (\<lambda>_ w. w) (Inr \<lparr>osr_client_order_id = None, osr_broker_order_id = Some ''N1'',
     osr_status = FILLED,
       osr_filled_quantity = None, osr_raw_code = None, osr_raw_message = None\<rparr>) True 7 (Some ''co-1'') (Some ''N1'') (ex_om ex_order) = (Inl Type_Error, ex_om ex_order)"
  by (rule reflection_by_broker_id_raises) simp_all

end
