(* ===== verification/Config_Versions.thy ===== *)
theory Config_Versions
  imports Domain Python_Decimal "HOL-Library.AList" "HOL-Library.Product_Lexorder"
begin

text \<open>
  Versions of the trading configuration (\<^verbatim>\<open>ConfigVersionEntity\<close>) and their repository
  (\<^verbatim>\<open>InMemoryConfigVersionRepository\<close> of \<^verbatim>\<open>repositories/memory.py\<close>): an append-only history in
  which the version in force at a time is the one activated last before it.  The interface
  \<open>config_history\<close> states what replaying an old fill relies on: a version that is activated later
  does not change what is found for earlier times.
\<close>

section \<open>Versions and the repository\<close>

record config_version =
  cv_config_version_id :: uuid
  cv_client_id :: uuid
  cv_environment :: environment
  cv_version_tag :: string
  cv_config_json :: "(string \<times> jval) list"
  cv_checksum :: string
  cv_created_at :: "timestamp option"
  cv_activated_at :: "timestamp option"
  cv_activated_by :: "string option"

type_synonym config_store = "(uuid \<times> config_version) list"

definition config_add :: "config_version \<Rightarrow> config_store \<Rightarrow> config_store" where
  "config_add config_version s = AList.update (cv_config_version_id config_version) config_version s"

definition config_get :: "config_store \<Rightarrow> uuid \<Rightarrow> config_version option" where
  "config_get s config_version_id = map_of s config_version_id"

text \<open>The key \<open>(activated_at is None, activated_at or "")\<close> in descending order: versions without an
  activation come first, then the latest activation.\<close>

definition active_key :: "config_version \<Rightarrow> int \<times> int" where
  "active_key x = (case cv_activated_at x of None \<Rightarrow> (0, 0) | Some t \<Rightarrow> (1, - t))"

definition get_active :: "config_store \<Rightarrow> uuid \<Rightarrow> environment \<Rightarrow> config_version option" where
  "get_active s client_id environment =
     (case sort_key active_key
             (filter (\<lambda>item. cv_client_id item = client_id \<and> cv_environment item = environment)
                (map snd s)) of
        [] \<Rightarrow> None
      | v # _ \<Rightarrow> Some v)"

definition active_before :: "uuid \<Rightarrow> environment \<Rightarrow> timestamp \<Rightarrow> config_version \<Rightarrow> bool" where
  "active_before client_id environment ts item \<longleftrightarrow>
     cv_client_id item = client_id \<and> cv_environment item = environment
     \<and> (case cv_activated_at item of None \<Rightarrow> False | Some t \<Rightarrow> t \<le> ts)"

definition get_active_at ::
  "config_store \<Rightarrow> uuid \<Rightarrow> environment \<Rightarrow> timestamp \<Rightarrow> config_version option" where
  "get_active_at s client_id environment ts =
     (case sort_key (\<lambda>x. case cv_activated_at x of None \<Rightarrow> 0 | Some t \<Rightarrow> - t)
             (filter (active_before client_id environment ts) (map snd s)) of
        [] \<Rightarrow> None
      | v # _ \<Rightarrow> Some v)"

section \<open>The head of a sorted list\<close>

text \<open>Taking the first element after a stable sort picks a minimum of the key.\<close>

definition first_sorted :: "('a \<Rightarrow> 'k::linorder) \<Rightarrow> 'a list \<Rightarrow> 'a option" where
  "first_sorted f xs = (case sort_key f xs of [] \<Rightarrow> None | v # _ \<Rightarrow> Some v)"

lemma first_sorted_None_iff [simp]: "first_sorted f xs = None \<longleftrightarrow> xs = []"
proof -
  have "sort_key f xs = [] \<longleftrightarrow> xs = []"
    by (metis length_0_conv length_sort)
  then show ?thesis by (cases "sort_key f xs") (auto simp: first_sorted_def)
qed

lemma first_sorted_SomeD:
  assumes "first_sorted f xs = Some v"
  shows "v \<in> set xs" "x \<in> set xs \<Longrightarrow> f v \<le> f x"
proof -
  obtain vs where s: "sort_key f xs = v # vs"
    using assms by (auto simp: first_sorted_def split: list.splits)
  then have eq: "set xs = set (v # vs)" by (metis set_sort)
  then show "v \<in> set xs" by simp
  have "sorted (map f (v # vs))" using s by (metis sorted_sort_key)
  then show "f v \<le> f x" if "x \<in> set xs" using that eq by auto
qed

lemma first_sorted_unique:
  assumes "v \<in> set xs" "\<And>x. x \<in> set xs \<Longrightarrow> x = v \<or> f v < f x"
  shows "first_sorted f xs = Some v"
proof -
  obtain w where w: "first_sorted f xs = Some w"
    using assms(1) by (cases "first_sorted f xs") auto
  with assms show ?thesis
    using first_sorted_SomeD [OF w] by (metis leD)
qed

lemma first_sorted_least:
  assumes "xs \<noteq> []" "\<And>x. x \<in> set xs \<Longrightarrow> m \<le> f x" "m \<in> f ` set xs"
  shows "first_sorted f xs = Some (hd (filter (\<lambda>x. f x = m) xs))"
proof -
  obtain v vs where s: "sort_key f xs = v # vs"
    using assms(1) by (cases "sort_key f xs") (auto simp: first_sorted_def dest: arg_cong [where f = length])
  then have v: "first_sorted f xs = Some v" by (simp add: first_sorted_def)
  then have "f v = m"
    using first_sorted_SomeD [OF v] assms(2,3) by (metis antisym image_iff)
  moreover have "filter (\<lambda>x. f x = m) (sort_key f xs) = filter (\<lambda>x. f x = m) xs"
    by (rule sort_key_stable)
  ultimately have "hd (filter (\<lambda>x. f x = m) xs) = v"
    unfolding s by (metis (mono_tags, lifting) filter.simps(2) list.sel(1))
  with v show ?thesis by simp
qed

lemma first_sorted_snoc:
  assumes v: "first_sorted f xs = Some v" and le: "f v \<le> f x"
  shows "first_sorted f (xs @ [x]) = Some v"
proof -
  note d = first_sorted_SomeD [OF v]
  have "xs \<noteq> []" using v first_sorted_None_iff [of f xs] by auto
  have h: "first_sorted f xs = Some (hd (filter (\<lambda>y. f y = f v) xs))"
    using d \<open>xs \<noteq> []\<close> by (intro first_sorted_least) auto
  have ne: "filter (\<lambda>y. f y = f v) xs \<noteq> []"
    using d(1) by (auto simp: filter_empty_conv)
  have "first_sorted f (xs @ [x]) = Some (hd (filter (\<lambda>y. f y = f v) (xs @ [x])))"
    using d le by (intro first_sorted_least) auto
  with h v ne show ?thesis by simp
qed

lemma get_active_first_sorted:
  "get_active s c e =
     first_sorted active_key (filter (\<lambda>v. cv_client_id v = c \<and> cv_environment v = e) (map snd s))"
  by (simp add: get_active_def first_sorted_def)

lemma get_active_at_first_sorted:
  "get_active_at s c e ts =
     first_sorted (\<lambda>x. case cv_activated_at x of None \<Rightarrow> 0 | Some t \<Rightarrow> - t)
       (filter (active_before c e ts) (map snd s))"
  by (simp add: get_active_at_def first_sorted_def)

section \<open>The interface of a configuration history\<close>

locale config_history =
  fixes find_at :: "'s \<Rightarrow> uuid \<Rightarrow> environment \<Rightarrow> timestamp \<Rightarrow> config_version option"
    and append :: "config_version \<Rightarrow> 's \<Rightarrow> 's"
    and versions :: "'s \<Rightarrow> config_version list"
    and fresh :: "'s \<Rightarrow> config_version \<Rightarrow> bool"
  assumes find_at_sound: "find_at s c e ts = Some v \<Longrightarrow> v \<in> set (versions s) \<and> active_before c e ts v"
    and find_at_latest: "find_at s c e ts = Some v \<Longrightarrow> w \<in> set (versions s) \<Longrightarrow> active_before c e ts w \<Longrightarrow>
          the (cv_activated_at w) \<le> the (cv_activated_at v)"
    and find_at_None: "find_at s c e ts = None \<Longrightarrow> w \<in> set (versions s) \<Longrightarrow> \<not> active_before c e ts w"
    and versions_append: "fresh s v \<Longrightarrow> versions (append v s) = versions s @ [v]"
    and find_at_append_out: "fresh s v \<Longrightarrow> \<not> active_before c e ts v \<Longrightarrow>
          find_at (append v s) c e ts = find_at s c e ts"
begin

text \<open>A version activated after everything else is found from its activation on.\<close>

lemma appended_is_found:
  assumes fresh: "fresh s v" and act: "cv_activated_at v = Some t" "t \<le> ts"
    and later: "\<And>w u. w \<in> set (versions s) \<Longrightarrow> cv_client_id w = cv_client_id v \<Longrightarrow>
      cv_environment w = cv_environment v \<Longrightarrow> cv_activated_at w = Some u \<Longrightarrow> u < t"
  shows "find_at (append v s) (cv_client_id v) (cv_environment v) ts = Some v"
proof -
  let ?c = "cv_client_id v" and ?e = "cv_environment v"
  have v: "v \<in> set (versions (append v s))" "active_before ?c ?e ts v"
    using act by (simp_all add: versions_append [OF fresh] active_before_def)
  then obtain w where w: "find_at (append v s) ?c ?e ts = Some w"
    using find_at_None by (cases "find_at (append v s) ?c ?e ts") auto
  have "w = v"
  proof (rule ccontr)
    assume "w \<noteq> v"
    with find_at_sound [OF w] have "w \<in> set (versions s)" "active_before ?c ?e ts w"
      by (auto simp: versions_append [OF fresh])
    then have "the (cv_activated_at w) < t"
      using later [of w] by (auto simp: active_before_def split: option.splits)
    with find_at_latest [OF w v] act show False by simp
  qed
  with w show ?thesis by simp
qed

text \<open>Nothing changes for times before its activation, nor for other clients and environments.\<close>

lemma append_keeps_past:
  assumes "fresh s v" "cv_activated_at v = Some t"
    and "ts < t \<or> c \<noteq> cv_client_id v \<or> e \<noteq> cv_environment v"
  shows "find_at (append v s) c e ts = find_at s c e ts"
  using assms by (intro find_at_append_out) (auto simp: active_before_def)

end

definition config_fresh :: "config_store \<Rightarrow> config_version \<Rightarrow> bool" where
  "config_fresh s v \<longleftrightarrow> cv_config_version_id v \<notin> fst ` set s"

lemma config_add_fresh:
  "config_fresh s v \<Longrightarrow> config_add v s = s @ [(cv_config_version_id v, v)]"
  by (simp add: config_add_def config_fresh_def update_new_key)

interpretation ch: config_history get_active_at config_add "map snd" config_fresh
proof unfold_locales
  fix s :: config_store and c e ts v
  assume f: "get_active_at s c e ts = Some v"
  note d = first_sorted_SomeD [OF f [unfolded get_active_at_first_sorted]]
  show "v \<in> set (map snd s) \<and> active_before c e ts v"
    using d(1) by auto
  fix w assume "w \<in> set (map snd s)" "active_before c e ts w"
  with d(1) d(2) [of w] show "the (cv_activated_at w) \<le> the (cv_activated_at v)"
    by (auto simp: active_before_def split: option.splits)
next
  fix s :: config_store and c e ts w
  assume "get_active_at s c e ts = None" "w \<in> set (map snd s)"
  then show "\<not> active_before c e ts w"
    by (auto simp: get_active_at_first_sorted filter_empty_conv)
next
  fix s :: config_store and v
  assume "config_fresh s v"
  then show "map snd (config_add v s) = map snd s @ [v]"
    by (simp add: config_add_fresh)
next
  fix s :: config_store and v c e ts
  assume "config_fresh s v" "\<not> active_before c e ts v"
  then show "get_active_at (config_add v s) c e ts = get_active_at s c e ts"
    by (simp add: config_add_fresh get_active_at_def)
qed

text \<open>
  When every version carries an activation, \<open>get_active\<close> has the latest one; a version that was
  never activated is preferred to all others.
\<close>

lemma get_active_latest:
  assumes "get_active s c e = Some v" "cv_activated_at v = Some t"
    and "w \<in> set (map snd s)" "cv_client_id w = c" "cv_environment w = e"
  shows "\<exists>u \<le> t. cv_activated_at w = Some u"
  using first_sorted_SomeD(2) [OF assms(1) [unfolded get_active_first_sorted], of w] assms
  by (auto simp: active_key_def split: option.splits)

lemma get_active_None_iff:
  "get_active s c e = None \<longleftrightarrow>
     (\<forall>w \<in> set (map snd s). cv_client_id w \<noteq> c \<or> cv_environment w \<noteq> e)"
  by (auto simp: get_active_first_sorted filter_empty_conv)

lemma get_active_SomeD:
  "get_active s c e = Some v \<Longrightarrow> v \<in> set (map snd s) \<and> cv_client_id v = c \<and> cv_environment v = e"
  using first_sorted_SomeD(1) by (fastforce simp: get_active_first_sorted)

end
