(* ===== verification/Fee_Policy.thy ===== *)
theory Fee_Policy
  imports Config_Versions
begin

text \<open>
  Fees and taxes from the configured policy (\<^verbatim>\<open>services/kis_fee_tax_policy.py\<close>): parsing of the
  section \<open>execution.fee_tax\<close> of a configuration version, the test whether an instrument is covered,
  the amounts in \<open>Decimal\<close> arithmetic with their rounding unit, and \<open>compute_fee_tax\<close>, the one entry
  point of the live and the backfill path.

  Shown: the order of the decisions, that amounts are nonnegative and whole multiples of the
  rounding unit next to the exact amount, and that the preview an operator sees is what a fill
  is charged later.
\<close>

section \<open>Policies\<close>

datatype fee_error =
    Malformed_Fee_Tax_Policy
  | Unsupported_Rounding_Mode
  | Fee_Tax_Policy_Admin
  | Config_Version_Admin
  | Conversion_Error
  | Attribute_Error

record fee_tax_policy =
  fp_enabled :: bool
  fp_supported_asset_classes :: "string list"
  fp_supported_market_segments :: "string list"
  fp_buy_commission_rate_pct :: py_decimal
  fp_sell_commission_rate_pct :: py_decimal
  fp_sell_tax_rate_pct :: py_decimal
  fp_sell_agri_tax_rate_pct :: py_decimal
  fp_rounding_mode :: string
  fp_rounding_unit :: py_decimal

record fee_tax_result =
  fr_fee :: rat
  fr_tax :: rat
  fr_fee_tax_source :: fee_tax_source

definition decimal_field :: "(string \<times> jval) list \<Rightarrow> string \<Rightarrow> fee_error + py_decimal" where
  "decimal_field namespace key =
     (case map_of namespace key of
        None \<Rightarrow> Inl Malformed_Fee_Tax_Policy
      | Some JvNull \<Rightarrow> Inl Malformed_Fee_Tax_Policy
      | Some raw \<Rightarrow>
          (case decimal_of_jval raw of
             Some d \<Rightarrow> Inr d
           | None \<Rightarrow> Inl Malformed_Fee_Tax_Policy))"

definition parse_fee_tax_section :: "(string \<times> jval) list \<Rightarrow> fee_error + fee_tax_policy" where
  "parse_fee_tax_section fee_tax =
     (case str_list_of_jval (map_of fee_tax ''supported_asset_classes'') of
        None \<Rightarrow> Inl Malformed_Fee_Tax_Policy
      | Some asset_classes \<Rightarrow>
     (case str_list_of_jval (map_of fee_tax ''supported_market_segments'') of
        None \<Rightarrow> Inl Malformed_Fee_Tax_Policy
      | Some market_segments \<Rightarrow>
     (case map_of fee_tax ''rounding_mode'' of
        Some (JvStr rounding_mode) \<Rightarrow>
          res_bind (decimal_field fee_tax ''buy_commission_rate_pct'') (\<lambda>buy_rate.
          res_bind (decimal_field fee_tax ''sell_commission_rate_pct'') (\<lambda>sell_rate.
          res_bind (decimal_field fee_tax ''sell_tax_rate_pct'') (\<lambda>tax_rate.
          res_bind (decimal_field fee_tax ''sell_agri_tax_rate_pct'') (\<lambda>agri_rate.
          res_bind (decimal_field fee_tax ''rounding_unit'') (\<lambda>unit.
            Inr \<lparr>fp_enabled = (case map_of fee_tax ''enabled'' of None \<Rightarrow> False | Some v \<Rightarrow> jv_truthy v),
                 fp_supported_asset_classes = asset_classes,
                 fp_supported_market_segments = market_segments,
                 fp_buy_commission_rate_pct = buy_rate,
                 fp_sell_commission_rate_pct = sell_rate,
                 fp_sell_tax_rate_pct = tax_rate,
                 fp_sell_agri_tax_rate_pct = agri_rate,
                 fp_rounding_mode = rounding_mode,
                 fp_rounding_unit = unit\<rparr>)))))
      | _ \<Rightarrow> Inl Malformed_Fee_Tax_Policy)))"

text \<open>\<open>Inr None\<close>: there is no such section.\<close>

definition parse_fee_tax_policy :: "(string \<times> jval) list \<Rightarrow> fee_error + fee_tax_policy option" where
  "parse_fee_tax_policy config_json =
     (case map_of config_json ''execution'' of
        Some (JvObj execution) \<Rightarrow>
          (case map_of execution ''fee_tax'' of
             Some (JvObj fee_tax) \<Rightarrow>
               res_bind (parse_fee_tax_section fee_tax) (\<lambda>policy. Inr (Some policy))
           | _ \<Rightarrow> Inr None)
      | _ \<Rightarrow> Inr None)"

definition is_asset_supported :: "fee_tax_policy \<Rightarrow> string \<Rightarrow> string option \<Rightarrow> bool" where
  "is_asset_supported policy asset_class market_segment =
     (if asset_class \<notin> set (fp_supported_asset_classes policy) then False
      else case market_segment of
             None \<Rightarrow> False
           | Some segment \<Rightarrow> segment \<in> set (fp_supported_market_segments policy))"

section \<open>Amounts\<close>

text \<open>\<open>to_integral_value\<close> with \<open>ROUND_HALF_UP\<close> (halves away from zero) and \<open>ROUND_DOWN\<close>.\<close>

definition round_half_up :: "rat \<Rightarrow> int" where
  "round_half_up x = (if 0 \<le> x then \<lfloor>x + 1 / 2\<rfloor> else \<lceil>x - 1 / 2\<rceil>)"

definition supported_rounding_modes :: "(string \<times> (rat \<Rightarrow> int)) list" where
  "supported_rounding_modes = [(''round_half_up'', round_half_up), (''round_down'', trunc)]"

definition apply_rounding :: "fee_tax_policy \<Rightarrow> rat \<Rightarrow> fee_error + rat" where
  "apply_rounding policy value =
     (case map_of supported_rounding_modes (fp_rounding_mode policy) of
        None \<Rightarrow> Inl Unsupported_Rounding_Mode
      | Some rounding \<Rightarrow>
          (let unit = dec_value (fp_rounding_unit policy)
           in if unit \<le> 0 then Inl Malformed_Fee_Tax_Policy
              else (let quotient = rounding (ddiv value unit) in Inr (dmul (of_int quotient) unit))))"

definition compute_amount ::
  "fee_tax_policy \<Rightarrow> rat \<Rightarrow> rat \<Rightarrow> rat \<Rightarrow> fee_error + rat" where
  "compute_amount policy fill_price fill_quantity rate_pct =
     (let raw = dmul (dmul fill_price fill_quantity) (ddiv rate_pct 100)
      in apply_rounding policy raw)"

definition combined_tax_rate_pct :: "fee_tax_policy \<Rightarrow> rat" where
  "combined_tax_rate_pct policy =
     dadd (dec_value (fp_sell_tax_rate_pct policy)) (dec_value (fp_sell_agri_tax_rate_pct policy))"

definition policy_fee_tax ::
  "fee_tax_policy \<Rightarrow> string \<Rightarrow> string option \<Rightarrow> order_side \<Rightarrow> rat \<Rightarrow> rat
   \<Rightarrow> fee_error + fee_tax_result" where
  "policy_fee_tax policy asset_class market_segment side fill_price fill_quantity =
     (if \<not> is_asset_supported policy asset_class market_segment
      then Inr \<lparr>fr_fee = 0, fr_tax = 0, fr_fee_tax_source = POLICY_NOT_APPLICABLE\<rparr>
      else if \<not> fp_enabled policy
      then Inr \<lparr>fr_fee = 0, fr_tax = 0, fr_fee_tax_source = ASSUMED_ZERO\<rparr>
      else if side = BUY
      then res_bind (compute_amount policy fill_price fill_quantity
                       (dec_value (fp_buy_commission_rate_pct policy))) (\<lambda>fee.
           Inr \<lparr>fr_fee = fee, fr_tax = 0, fr_fee_tax_source = CALCULATED_FROM_POLICY\<rparr>)
      else res_bind (compute_amount policy fill_price fill_quantity
                       (dec_value (fp_sell_commission_rate_pct policy))) (\<lambda>fee.
           res_bind (compute_amount policy fill_price fill_quantity (combined_tax_rate_pct policy)) (\<lambda>tax.
           Inr \<lparr>fr_fee = fee, fr_tax = tax, fr_fee_tax_source = CALCULATED_FROM_POLICY\<rparr>)))"

definition compute_fee_tax ::
  "config_store \<Rightarrow> uuid \<Rightarrow> environment \<Rightarrow> string \<Rightarrow> string option \<Rightarrow> order_side \<Rightarrow> rat \<Rightarrow> rat
   \<Rightarrow> timestamp \<Rightarrow> fee_error + fee_tax_result" where
  "compute_fee_tax configs client_id environment asset_class market_segment side fill_price
       fill_quantity fill_timestamp =
     (case get_active_at configs client_id environment fill_timestamp of
        None \<Rightarrow> Inr \<lparr>fr_fee = 0, fr_tax = 0, fr_fee_tax_source = ASSUMED_ZERO\<rparr>
      | Some config \<Rightarrow>
          res_bind (parse_fee_tax_policy (cv_config_json config)) (\<lambda>p.
            case p of
              None \<Rightarrow> Inr \<lparr>fr_fee = 0, fr_tax = 0, fr_fee_tax_source = ASSUMED_ZERO\<rparr>
            | Some policy \<Rightarrow>
                policy_fee_tax policy asset_class market_segment side fill_price fill_quantity))"

record fee_preview =
  pv_buy_fee :: rat
  pv_sell_fee :: rat
  pv_sell_tax :: rat

definition preview_fee_tax_amounts :: "fee_tax_policy \<Rightarrow> rat \<Rightarrow> rat \<Rightarrow> fee_error + fee_preview" where
  "preview_fee_tax_amounts policy sample_price sample_quantity =
     res_bind (compute_amount policy sample_price sample_quantity
                 (dec_value (fp_buy_commission_rate_pct policy))) (\<lambda>buy_fee.
     res_bind (compute_amount policy sample_price sample_quantity
                 (dec_value (fp_sell_commission_rate_pct policy))) (\<lambda>sell_fee.
     res_bind (compute_amount policy sample_price sample_quantity (combined_tax_rate_pct policy)) (\<lambda>sell_tax.
     Inr \<lparr>pv_buy_fee = buy_fee, pv_sell_fee = sell_fee, pv_sell_tax = sell_tax\<rparr>)))"

section \<open>Properties of the amounts\<close>

text \<open>A policy the calculation accepts: a supported rounding mode and a positive unit.\<close>

definition policy_computable :: "fee_tax_policy \<Rightarrow> bool" where
  "policy_computable p \<longleftrightarrow>
     fp_rounding_mode p \<in> {''round_half_up'', ''round_down''} \<and> 0 < dec_value (fp_rounding_unit p)"

definition policy_rates_nonneg :: "fee_tax_policy \<Rightarrow> bool" where
  "policy_rates_nonneg p \<longleftrightarrow>
     0 \<le> dec_value (fp_buy_commission_rate_pct p) \<and> 0 \<le> dec_value (fp_sell_commission_rate_pct p)
     \<and> 0 \<le> dec_value (fp_sell_tax_rate_pct p) \<and> 0 \<le> dec_value (fp_sell_agri_tax_rate_pct p)"

lemma round_half_up_bounds:
  assumes "0 \<le> x"
  shows "0 \<le> round_half_up x" "\<bar>of_int (round_half_up x) - x\<bar> \<le> 1 / 2"
proof -
  have "of_int \<lfloor>x + 1 / 2\<rfloor> \<le> x + 1 / 2" "x + 1 / 2 < of_int \<lfloor>x + 1 / 2\<rfloor> + 1"
    by linarith+
  moreover have "round_half_up x = \<lfloor>x + 1 / 2\<rfloor>"
    using assms by (simp add: round_half_up_def)
  ultimately show "\<bar>of_int (round_half_up x) - x\<bar> \<le> 1 / 2"
    by linarith
  show "0 \<le> round_half_up x"
    using assms by (simp add: round_half_up_def)
qed

lemma apply_rounding_Inr:
  assumes "apply_rounding p v = Inr a" "0 \<le> v"
  obtains k :: int where "a = dmul (of_int k) (dec_value (fp_rounding_unit p))" "0 \<le> k"
    "\<bar>of_int k - ddiv v (dec_value (fp_rounding_unit p))\<bar> < 1" "0 < dec_value (fp_rounding_unit p)"
proof -
  let ?u = "dec_value (fp_rounding_unit p)"
  have u: "0 < ?u" and mode: "fp_rounding_mode p \<in> {''round_half_up'', ''round_down''}"
    using assms(1) by (auto simp: apply_rounding_def supported_rounding_modes_def Let_def split: if_splits)
  have q: "0 \<le> ddiv v ?u" using u assms(2) by (simp add: ddiv_nonneg)
  have tr: "\<bar>of_int (trunc (ddiv v ?u)) - ddiv v ?u\<bar> < 1"
    using q by (simp add: trunc_def) linarith
  from mode show thesis
  proof
    assume "fp_rounding_mode p = ''round_half_up''"
    then show thesis
      using assms(1) u round_half_up_bounds [OF q]
      by (intro that [of "round_half_up (ddiv v ?u)"])
        (auto simp: apply_rounding_def supported_rounding_modes_def Let_def)
  next
    assume "fp_rounding_mode p \<in> {''round_down''}"
    then show thesis
      using assms(1) u tr trunc_nonneg [OF q]
      by (intro that [of "trunc (ddiv v ?u)"])
        (auto simp: apply_rounding_def supported_rounding_modes_def Let_def)
  qed
qed

lemma apply_rounding_ok_iff: "is_ok (apply_rounding p v) \<longleftrightarrow> policy_computable p"
  by (auto simp: apply_rounding_def policy_computable_def supported_rounding_modes_def Let_def)

lemma compute_amount_ok_iff: "is_ok (compute_amount p pr q r) \<longleftrightarrow> policy_computable p"
  by (simp add: compute_amount_def apply_rounding_ok_iff)

lemma compute_amount_nonneg:
  assumes "compute_amount p pr q r = Inr a" "0 \<le> pr" "0 \<le> q" "0 \<le> r"
  shows "0 \<le> a"
proof -
  have "0 \<le> dmul (dmul pr q) (ddiv r 100)"
    using assms by (intro dec_nonneg) simp_all
  then obtain k where "a = dmul (of_int k) (dec_value (fp_rounding_unit p))" "0 \<le> k"
    "0 < dec_value (fp_rounding_unit p)"
    using assms(1) apply_rounding_Inr [of p "dmul (dmul pr q) (ddiv r 100)" a]
    unfolding compute_amount_def Let_def by blast
  then show ?thesis by (simp add: dmul_nonneg)
qed

lemma combined_tax_rate_nonneg: "policy_rates_nonneg p \<Longrightarrow> 0 \<le> combined_tax_rate_pct p"
  by (simp add: policy_rates_nonneg_def combined_tax_rate_pct_def dadd_nonneg)

lemma policy_fee_tax_nonneg:
  assumes "policy_fee_tax p ac ms side pr q = Inr r" "policy_rates_nonneg p" "0 \<le> pr" "0 \<le> q"
  shows "0 \<le> fr_fee r" "0 \<le> fr_tax r" "fr_fee_tax_source r = ASSUMED_ZERO \<Longrightarrow> fr_fee r = 0 \<and> fr_tax r = 0"
proof -
  note nn = compute_amount_nonneg [OF _ assms(3,4)]
  note rates = assms(2) [unfolded policy_rates_nonneg_def] combined_tax_rate_nonneg [OF assms(2)]
  from assms(1) rates nn show "0 \<le> fr_fee r" "0 \<le> fr_tax r"
    by (auto simp: policy_fee_tax_def res_bind_Inr_iff split: if_splits)
  from assms(1) show "fr_fee_tax_source r = ASSUMED_ZERO \<Longrightarrow> fr_fee r = 0 \<and> fr_tax r = 0"
    by (auto simp: policy_fee_tax_def res_bind_Inr_iff split: if_splits)
qed

section \<open>Which fee a fill gets\<close>

text \<open>Where a charged fill gets its source of fee and tax from.\<close>

definition fee_source_of ::
  "fee_tax_policy option \<Rightarrow> string \<Rightarrow> string option \<Rightarrow> fee_tax_source" where
  "fee_source_of p asset_class market_segment =
     (case p of
        None \<Rightarrow> ASSUMED_ZERO
      | Some policy \<Rightarrow>
          if \<not> is_asset_supported policy asset_class market_segment then POLICY_NOT_APPLICABLE
          else if fp_enabled policy then CALCULATED_FROM_POLICY else ASSUMED_ZERO)"

text \<open>The section in force at a time: none when there is no version or the version has no such
  section, an error when it is malformed.\<close>

definition policy_in_force ::
  "config_store \<Rightarrow> uuid \<Rightarrow> environment \<Rightarrow> timestamp \<Rightarrow> fee_error + fee_tax_policy option" where
  "policy_in_force configs c e ts =
     (case get_active_at configs c e ts of
        None \<Rightarrow> Inr None
      | Some v \<Rightarrow> parse_fee_tax_policy (cv_config_json v))"

lemma compute_fee_tax_in_force:
  "compute_fee_tax configs c e ac ms side pr q ts =
     res_bind (policy_in_force configs c e ts) (\<lambda>p.
       case p of
         None \<Rightarrow> Inr \<lparr>fr_fee = 0, fr_tax = 0, fr_fee_tax_source = ASSUMED_ZERO\<rparr>
       | Some policy \<Rightarrow> policy_fee_tax policy ac ms side pr q)"
  by (simp add: compute_fee_tax_def policy_in_force_def split: option.split)

lemma policy_fee_tax_source:
  "policy_fee_tax p ac ms side pr q = Inr r \<Longrightarrow>
     fr_fee_tax_source r = fee_source_of (Some p) ac ms
     \<and> (fr_fee_tax_source r \<noteq> CALCULATED_FROM_POLICY \<longrightarrow> fr_fee r = 0 \<and> fr_tax r = 0)"
  by (auto simp: policy_fee_tax_def fee_source_of_def res_bind_Inr_iff split: if_splits)

lemma policy_fee_tax_ok_iff:
  "is_ok (policy_fee_tax p ac ms side pr q) \<longleftrightarrow>
     (fee_source_of (Some p) ac ms = CALCULATED_FROM_POLICY \<longrightarrow> policy_computable p)"
proof -
  note ok = compute_amount_ok_iff [of p pr q, unfolded is_ok_iff]
  show ?thesis
    by (auto simp: policy_fee_tax_def fee_source_of_def is_ok_res_bind ok)
qed

text \<open>Charging a fill fails exactly when the section in force is malformed or, for a covered
  instrument under an enabled policy, cannot be calculated with; otherwise the recorded source
  is the one the decision order prescribes (coverage before enablement), and every source but
  the calculated one comes with no fee and no tax.\<close>

theorem fee_source_follows_policy:
  "case compute_fee_tax configs c e ac ms side pr q ts of
     Inl err \<Rightarrow> policy_in_force configs c e ts = Inl err
       \<or> (\<exists>p. policy_in_force configs c e ts = Inr (Some p)
            \<and> fee_source_of (Some p) ac ms = CALCULATED_FROM_POLICY \<and> \<not> policy_computable p)
   | Inr r \<Rightarrow> \<exists>p. policy_in_force configs c e ts = Inr p
       \<and> fr_fee_tax_source r = fee_source_of p ac ms
       \<and> (fr_fee_tax_source r = CALCULATED_FROM_POLICY \<or> fr_fee r = 0 \<and> fr_tax r = 0)"
proof (cases "policy_in_force configs c e ts")
  case (Inl err)
  then show ?thesis by (simp add: compute_fee_tax_in_force)
next
  case (Inr p)
  show ?thesis
  proof (cases p)
    case None
    with Inr show ?thesis by (simp add: compute_fee_tax_in_force fee_source_of_def)
  next
    case (Some policy)
    show ?thesis
    proof (cases "policy_fee_tax policy ac ms side pr q")
      case (Inl err)
      then have "fee_source_of (Some policy) ac ms = CALCULATED_FROM_POLICY \<and> \<not> policy_computable policy"
        using policy_fee_tax_ok_iff [of policy ac ms side pr q] by simp
      with Inl Inr Some show ?thesis by (simp add: compute_fee_tax_in_force)
    next
      case r: (Inr r)
      with Inr Some policy_fee_tax_source [OF r] show ?thesis
        by (auto simp: compute_fee_tax_in_force)
    qed
  qed
qed

lemma compute_amount_same_error:
  "compute_amount p pr q r = Inl e \<Longrightarrow> compute_amount p pr' q' r' = Inl e"
  by (auto simp: compute_amount_def apply_rounding_def Let_def split: option.splits if_splits)

text \<open>The preview an operator sees is what fills are charged: for a covered instrument under an
  enabled policy the preview succeeds exactly when charging does, and a buy and a sale at the
  previewed price and quantity are charged the previewed amounts.\<close>

theorem preview_is_what_fills_are_charged:
  assumes "is_asset_supported p ac ms" "fp_enabled p"
  shows "policy_fee_tax p ac ms BUY pr q = res_bind (preview_fee_tax_amounts p pr q) (\<lambda>v.
           Inr \<lparr>fr_fee = pv_buy_fee v, fr_tax = 0, fr_fee_tax_source = CALCULATED_FROM_POLICY\<rparr>)
    \<and> policy_fee_tax p ac ms SELL pr q = res_bind (preview_fee_tax_amounts p pr q) (\<lambda>v.
           Inr \<lparr>fr_fee = pv_sell_fee v, fr_tax = pv_sell_tax v,
                fr_fee_tax_source = CALCULATED_FROM_POLICY\<rparr>)"
proof (cases "compute_amount p pr q 0")
  case (Inl e)
  then have "compute_amount p pr q r = Inl e" for r by (rule compute_amount_same_error)
  with assms show ?thesis by (simp add: policy_fee_tax_def preview_fee_tax_amounts_def)
next
  case (Inr a)
  then have "\<exists>b. compute_amount p pr q r = Inr b" for r
    using compute_amount_ok_iff [of p pr q] by (metis is_ok_iff)
  then obtain f where "\<And>r. compute_amount p pr q r = Inr (f r)" by metis
  with assms show ?thesis by (simp add: policy_fee_tax_def preview_fee_tax_amounts_def)
qed

text \<open>With a rounding unit of one, amounts are whole and less than one away from the exact amount.\<close>

theorem fee_is_rounded_amount:
  assumes amt: "compute_amount p pr q r = Inr a" and nn: "0 \<le> pr" "0 \<le> q" "0 \<le> r"
    and unit: "dec_value (fp_rounding_unit p) = 1" and small: "dmul (dmul pr q) (ddiv r 100) < 10 ^ 27"
  shows "\<exists>k :: int. a = of_int k \<and> 0 \<le> k \<and> \<bar>a - dmul (dmul pr q) (ddiv r 100)\<bar> < 1"
proof -
  let ?raw = "dmul (dmul pr q) (ddiv r 100)"
  have raw: "0 \<le> ?raw" using nn by (intro dec_nonneg) simp_all
  have d: "ddiv ?raw 1 = ?raw" using is_dec_ops(3) by (simp add: ddiv_def is_dec_def)
  obtain k :: int where k: "a = dmul (of_int k) 1" "0 \<le> k" "\<bar>of_int k - ?raw\<bar> < 1"
    using apply_rounding_Inr [OF amt [unfolded compute_amount_def Let_def] raw] unit d by metis
  then have "(of_int k :: rat) < 10 ^ 27 + 1" using small by linarith
  then have "(of_int k :: rat) < of_int (10 ^ 27 + 1)" by simp
  then have "k < 10 ^ 27 + 1" by (simp only: of_int_less_iff)
  then have "dmul (of_int k) 1 = of_int k"
    using k(2) by (simp add: dmul_def dround_int)
  with k show ?thesis by auto
qed

end
