(* ===== verification/Config_Admin.thy ===== *)
theory Config_Admin
  imports Fee_Policy Order_Domain
begin

text \<open>
  Administration of configuration versions (\<^verbatim>\<open>services/fee_tax_policy_admin.py\<close> and
  \<^verbatim>\<open>services/config_version_admin.py\<close>): validation and preview of a fee and tax policy, and the two
  operations that publish a new version copied from the active one, with their audit entries.

  Arguments stand for SHA-256 over the canonical JSON text (\<open>checksum\<close>) and for the formatted
  activation time (\<open>stamp\<close>).  Configuration documents are JSON values, on which
  \<open>json.loads(json.dumps(...))\<close> is the identity; a list under \<open>execution\<close> or \<open>risk\<close> that \<open>dict\<close> would
  read as pairs is outside the model and counts as a failed conversion.
\<close>

section \<open>Validation and preview\<close>

definition sample_price :: rat where "sample_price = 100000"
definition sample_quantity :: rat where "sample_quantity = 10"
definition max_sane_rate_pct :: rat where "max_sane_rate_pct = 10"

definition validate_rate_pct :: "rat \<Rightarrow> fee_error + unit" where
  "validate_rate_pct value =
     (if value < 0 then Inl Fee_Tax_Policy_Admin
      else if max_sane_rate_pct < value then Inl Fee_Tax_Policy_Admin
      else Inr ())"

record fee_policy_preview =
  fv_normalized_fee_tax :: "(string \<times> jval) list"
  fv_sample :: fee_preview

text \<open>Only \<open>UnsupportedRoundingModeError\<close> of the sample calculation is turned into an error of this
  module.\<close>

definition sample_amounts :: "fee_tax_policy \<Rightarrow> fee_error + fee_preview" where
  "sample_amounts policy =
     (case preview_fee_tax_amounts policy sample_price sample_quantity of
        Inl Unsupported_Rounding_Mode \<Rightarrow> Inl Fee_Tax_Policy_Admin
      | r \<Rightarrow> r)"

definition normalized_fee_tax ::
  "fee_tax_policy \<Rightarrow> string \<Rightarrow> (string \<times> jval) list \<Rightarrow> (string \<times> jval) list" where
  "normalized_fee_tax policy reason fee_tax_input =
     [(''enabled'', JvBool (fp_enabled policy)),
      (''supported_asset_classes'', JvList (map JvStr (fp_supported_asset_classes policy))),
      (''supported_market_segments'', JvList (map JvStr (fp_supported_market_segments policy))),
      (''buy_commission_rate_pct'', JvStr (decimal_str (fp_buy_commission_rate_pct policy))),
      (''sell_commission_rate_pct'', JvStr (decimal_str (fp_sell_commission_rate_pct policy))),
      (''sell_tax_rate_pct'', JvStr (decimal_str (fp_sell_tax_rate_pct policy))),
      (''sell_agri_tax_rate_pct'', JvStr (decimal_str (fp_sell_agri_tax_rate_pct policy))),
      (''rounding_mode'', JvStr (fp_rounding_mode policy)),
      (''rounding_unit'', JvStr (decimal_str (fp_rounding_unit policy))),
      (''reason'', JvStr reason),
      (''operator_note'',
        (case map_of fee_tax_input ''operator_note'' of None \<Rightarrow> JvNull | Some v \<Rightarrow> v)),
      (''source_note'',
        (case map_of fee_tax_input ''source_note'' of None \<Rightarrow> JvNull | Some v \<Rightarrow> v))]"

definition parse_admin_input :: "(string \<times> jval) list \<Rightarrow> fee_error + fee_tax_policy" where
  "parse_admin_input fee_tax_input =
     (case parse_fee_tax_policy [(''execution'', JvObj [(''fee_tax'', JvObj fee_tax_input)])] of
        Inl Malformed_Fee_Tax_Policy \<Rightarrow> Inl Fee_Tax_Policy_Admin
      | Inl e \<Rightarrow> Inl e
      | Inr None \<Rightarrow> Inl Fee_Tax_Policy_Admin
      | Inr (Some policy) \<Rightarrow> Inr policy)"

definition validate_and_preview_fee_tax_policy ::
  "(string \<times> jval) list \<Rightarrow> fee_error + fee_policy_preview" where
  "validate_and_preview_fee_tax_policy fee_tax_input =
     (case map_of fee_tax_input ''reason'' of
        Some (JvStr reason) \<Rightarrow>
          if str_strip reason = [] then Inl Fee_Tax_Policy_Admin
          else
            res_bind (parse_admin_input fee_tax_input) (\<lambda>policy.
            res_bind (validate_rate_pct (dec_value (fp_buy_commission_rate_pct policy))) (\<lambda>_.
            res_bind (validate_rate_pct (dec_value (fp_sell_commission_rate_pct policy))) (\<lambda>_.
            res_bind (validate_rate_pct (dec_value (fp_sell_tax_rate_pct policy))) (\<lambda>_.
            res_bind (validate_rate_pct (dec_value (fp_sell_agri_tax_rate_pct policy))) (\<lambda>_.
            res_bind (sample_amounts policy) (\<lambda>sample.
            Inr \<lparr>fv_normalized_fee_tax = normalized_fee_tax policy reason fee_tax_input,
                 fv_sample = sample\<rparr>))))))
      | _ \<Rightarrow> Inl Fee_Tax_Policy_Admin)"

section \<open>Publishing\<close>

record config_world =
  cw_versions :: config_store
  cw_audit_logs :: "(uuid \<times> audit_log) list"

definition audit_add :: "audit_log \<Rightarrow> config_world \<Rightarrow> config_world" where
  "audit_add a w = w\<lparr>cw_audit_logs := AList.update (al_audit_log_id a) a (cw_audit_logs w)\<rparr>"

definition allowed_environments :: "environment list" where
  "allowed_environments = [PAPER, LIVE]"

definition validate_environment :: "environment \<Rightarrow> fee_error + unit" where
  "validate_environment environment =
     (if environment \<in> set allowed_environments then Inr () else Inl Config_Version_Admin)"

text \<open>\<open>dict(config.get(key) or {})\<close>.\<close>

definition section_of :: "(string \<times> jval) list \<Rightarrow> string \<Rightarrow> fee_error + (string \<times> jval) list" where
  "section_of config_json key =
     (case map_of config_json key of
        None \<Rightarrow> Inr []
      | Some v \<Rightarrow>
          if \<not> jv_truthy v then Inr []
          else (case v of JvObj kvs \<Rightarrow> Inr kvs | _ \<Rightarrow> Inl Conversion_Error))"

text \<open>\<open>config.get("execution", {}).get("fee_tax")\<close>, read for the audit entry.\<close>

definition previous_fee_tax :: "(string \<times> jval) list \<Rightarrow> fee_error + jval" where
  "previous_fee_tax config_json =
     (case map_of config_json ''execution'' of
        None \<Rightarrow> Inr JvNull
      | Some (JvObj kvs) \<Rightarrow> Inr (case map_of kvs ''fee_tax'' of None \<Rightarrow> JvNull | Some v \<Rightarrow> v)
      | Some _ \<Rightarrow> Inl Attribute_Error)"

record fee_policy_publish_result =
  pr_previous :: "config_version option"
  pr_new :: config_version
  pr_preview :: fee_policy_preview

datatype publish_outcome =
    Previewed fee_policy_preview
  | Published fee_policy_publish_result

text \<open>Arguments that do not come from the caller: clock, fresh identifiers, checksum and the
  formatted time.\<close>

record publish_env =
  pn_env :: env
  pn_checksum :: "(string \<times> jval) list \<Rightarrow> string"
  pn_stamp :: "timestamp \<Rightarrow> string"

definition fee_tax_audit ::
  "publish_env \<Rightarrow> uuid \<Rightarrow> environment \<Rightarrow> string \<Rightarrow> config_version option \<Rightarrow> config_version
   \<Rightarrow> (string \<times> jval) list \<Rightarrow> jval \<Rightarrow> audit_log" where
  "fee_tax_audit pn client_id environment activated_by active saved normalized previous =
     \<lparr>al_audit_log_id = uuid_at (pn_env pn) ''audit'',
      al_actor_type = ''operator'',
      al_actor_id = activated_by,
      al_action = ''config_version.execution.fee_tax.publish'',
      al_target_entity_type = ''config_version'',
      al_target_entity_id = cv_config_version_id saved,
      al_created_at = now_at (pn_env pn) ''audit'',
      al_before_json = Some
        [(''config_version_id'',
            (case active of None \<Rightarrow> JNull | Some v \<Rightarrow> JUuid (cv_config_version_id v))),
         (''execution_fee_tax'', JVal previous)],
      al_after_json = Some
        [(''config_version_id'', JUuid (cv_config_version_id saved)),
         (''execution_fee_tax'', JVal (JvObj normalized))],
      al_correlation_id = None,
      al_metadata =
        [(''client_id'', JUuid client_id),
         (''environment'', JText (environment_value environment)),
         (''reason'', JVal (case map_of normalized ''reason'' of None \<Rightarrow> JvNull | Some v \<Rightarrow> v))]\<rparr>"

definition publish_fee_tax_policy ::
  "publish_env \<Rightarrow> uuid \<Rightarrow> environment \<Rightarrow> (string \<times> jval) list \<Rightarrow> string \<Rightarrow> timestamp option \<Rightarrow> bool
   \<Rightarrow> config_world \<Rightarrow> (fee_error + publish_outcome) \<times> config_world" where
  "publish_fee_tax_policy pn client_id environment fee_tax_input activated_by activated_at dry_run w =
     (case res_bind (validate_environment environment)
             (\<lambda>_. validate_and_preview_fee_tax_policy fee_tax_input) of
        Inl e \<Rightarrow> (Inl e, w)
      | Inr preview \<Rightarrow>
          if dry_run then (Inr (Previewed preview), w)
          else
            (let active = get_active (cw_versions w) client_id environment;
                 new_activated_at =
                   (case activated_at of Some t \<Rightarrow> t | None \<Rightarrow> now_at (pn_env pn) ''activated'')
             in if (case active of None \<Rightarrow> False
                    | Some v \<Rightarrow> (case cv_activated_at v of None \<Rightarrow> False
                                | Some t \<Rightarrow> new_activated_at \<le> t))
                then (Inl Fee_Tax_Policy_Admin, w)
                else
                  (let base = (case active of None \<Rightarrow> [] | Some v \<Rightarrow> cv_config_json v)
                   in case section_of base ''execution'' of
                        Inl e \<Rightarrow> (Inl e, w)
                      | Inr execution \<Rightarrow>
                          (let normalized = fv_normalized_fee_tax preview;
                               execution = AList.update ''fee_tax'' (JvObj normalized) execution;
                               config_json = AList.update ''execution'' (JvObj execution) base;
                               saved =
                                 \<lparr>cv_config_version_id = uuid_at (pn_env pn) ''version'',
                                  cv_client_id = client_id,
                                  cv_environment = environment,
                                  cv_version_tag =
                                    ''execution.fee_tax@'' @ pn_stamp pn new_activated_at,
                                  cv_config_json = config_json,
                                  cv_checksum = pn_checksum pn config_json,
                                  cv_created_at = None,
                                  cv_activated_at = Some new_activated_at,
                                  cv_activated_by = Some activated_by\<rparr>;
                               w' = w\<lparr>cw_versions := config_add saved (cw_versions w)\<rparr>
                           in case (case active of None \<Rightarrow> Inr JvNull
                                    | Some v \<Rightarrow> previous_fee_tax (cv_config_json v)) of
                                Inl e \<Rightarrow> (Inl e, w')
                              | Inr previous \<Rightarrow>
                                  (Inr (Published \<lparr>pr_previous = active, pr_new = saved,
                                                   pr_preview = preview\<rparr>),
                                   audit_add (fee_tax_audit pn client_id environment activated_by
                                     active saved normalized previous) w')))))"

definition get_active_fee_tax_policy ::
  "config_store \<Rightarrow> uuid \<Rightarrow> environment
   \<Rightarrow> fee_error + (config_version option \<times> fee_tax_policy option)" where
  "get_active_fee_tax_policy configs client_id environment =
     (case get_active configs client_id environment of
        None \<Rightarrow> Inr (None, None)
      | Some active \<Rightarrow>
          res_bind (parse_fee_tax_policy (cv_config_json active)) (\<lambda>policy. Inr (Some active, policy)))"

definition get_fee_tax_policy_at ::
  "config_store \<Rightarrow> uuid \<Rightarrow> environment \<Rightarrow> timestamp
   \<Rightarrow> fee_error + (config_version option \<times> fee_tax_policy option)" where
  "get_fee_tax_policy_at configs client_id environment ts =
     (case get_active_at configs client_id environment ts of
        None \<Rightarrow> Inr (None, None)
      | Some config \<Rightarrow>
          res_bind (parse_fee_tax_policy (cv_config_json config)) (\<lambda>policy. Inr (Some config, policy)))"

section \<open>Publishing the concentration limit\<close>

definition validate_max_single_position_pct :: "rat \<Rightarrow> fee_error + unit" where
  "validate_max_single_position_pct value =
     (if value \<le> 0 then Inl Config_Version_Admin
      else if 100 < value then Inl Config_Version_Admin
      else Inr ())"

text \<open>\<open>config.get("risk", {})\<close> when it is a dictionary, and the value in it; a text that is no number
  raises.\<close>

definition current_max_single_position_pct ::
  "(string \<times> jval) list \<Rightarrow> fee_error + (jval \<times> py_decimal) option" where
  "current_max_single_position_pct config_json =
     (case map_of config_json ''risk'' of
        Some (JvObj risk) \<Rightarrow>
          (case map_of risk ''max_single_position_pct'' of
             None \<Rightarrow> Inr None
           | Some JvNull \<Rightarrow> Inr None
           | Some raw \<Rightarrow>
               (case decimal_of_jval raw of
                  Some d \<Rightarrow> Inr (Some (raw, d))
                | None \<Rightarrow> Inl Conversion_Error))
      | _ \<Rightarrow> Inr None)"

record publish_result =
  pb_previous :: config_version
  pb_new :: config_version
  pb_previous_max_single_position_pct :: "jval option"
  pb_new_max_single_position_pct :: string

definition max_pct_audit ::
  "publish_env \<Rightarrow> timestamp \<Rightarrow> uuid \<Rightarrow> environment \<Rightarrow> string \<Rightarrow> string option \<Rightarrow> config_version
   \<Rightarrow> config_version \<Rightarrow> jval option \<Rightarrow> string \<Rightarrow> audit_log" where
  "max_pct_audit pn now client_id environment activated_by reason active saved previous new_value =
     \<lparr>al_audit_log_id = uuid_at (pn_env pn) ''audit'',
      al_actor_type = ''operator'',
      al_actor_id = activated_by,
      al_action = ''config_version.risk.max_single_position_pct.update'',
      al_target_entity_type = ''config_version'',
      al_target_entity_id = cv_config_version_id saved,
      al_created_at = now,
      al_before_json = Some
        [(''config_version_id'', JUuid (cv_config_version_id active)),
         (''max_single_position_pct'', (case previous of None \<Rightarrow> JNull | Some v \<Rightarrow> JVal v))],
      al_after_json = Some
        [(''config_version_id'', JUuid (cv_config_version_id saved)),
         (''max_single_position_pct'', JText new_value)],
      al_correlation_id = None,
      al_metadata =
        [(''client_id'', JUuid client_id),
         (''environment'', JText (environment_value environment)),
         (''reason'', (case reason of None \<Rightarrow> JNull | Some r \<Rightarrow> JText r))]\<rparr>"

definition publish_max_single_position_pct ::
  "publish_env \<Rightarrow> uuid \<Rightarrow> environment \<Rightarrow> py_decimal \<Rightarrow> string \<Rightarrow> string option
   \<Rightarrow> config_world \<Rightarrow> (fee_error + publish_result) \<times> config_world" where
  "publish_max_single_position_pct pn client_id environment pct activated_by reason w =
     (case res_bind (validate_max_single_position_pct (dec_value pct))
             (\<lambda>_. validate_environment environment) of
        Inl e \<Rightarrow> (Inl e, w)
      | Inr _ \<Rightarrow>
     (case get_active (cw_versions w) client_id environment of
        None \<Rightarrow> (Inl Config_Version_Admin, w)
      | Some active \<Rightarrow>
     (case current_max_single_position_pct (cv_config_json active) of
        Inl e \<Rightarrow> (Inl e, w)
      | Inr current \<Rightarrow>
          if (case current of None \<Rightarrow> False | Some (_, d) \<Rightarrow> dec_value d = dec_value pct)
          then (Inl Config_Version_Admin, w)
          else
     (case section_of (cv_config_json active) ''risk'' of
        Inl e \<Rightarrow> (Inl e, w)
      | Inr risk \<Rightarrow>
          (let new_value_str = decimal_str pct;
               risk = AList.update ''max_single_position_pct'' (JvStr new_value_str) risk;
               config_json = AList.update ''risk'' (JvObj risk) (cv_config_json active);
               now = now_at (pn_env pn) ''now'';
               saved =
                 \<lparr>cv_config_version_id = uuid_at (pn_env pn) ''version'',
                  cv_client_id = client_id,
                  cv_environment = environment,
                  cv_version_tag =
                    cv_version_tag active @ ''+risk.max_single_position_pct='' @ new_value_str
                    @ ''@'' @ pn_stamp pn now,
                  cv_config_json = config_json,
                  cv_checksum = pn_checksum pn config_json,
                  cv_created_at = None,
                  cv_activated_at = Some now,
                  cv_activated_by = Some activated_by\<rparr>
           in (Inr \<lparr>pb_previous = active, pb_new = saved,
                    pb_previous_max_single_position_pct = map_option fst current,
                    pb_new_max_single_position_pct = new_value_str\<rparr>,
               audit_add (max_pct_audit pn now client_id environment activated_by reason active saved
                   (map_option fst current) new_value_str)
                 (w\<lparr>cw_versions := config_add saved (cw_versions w)\<rparr>)))))))"

section \<open>What publication does\<close>

lemma parse_admin_input_iff:
  "parse_admin_input input = Inr policy \<longleftrightarrow> parse_fee_tax_section input = Inr policy"
  by (cases "parse_fee_tax_section input")
    (auto simp: parse_admin_input_def parse_fee_tax_policy_def split: fee_error.splits)

lemma decimal_field_JvStr:
  "map_of kvs k = Some (JvStr (decimal_str d)) \<Longrightarrow> decimal_field kvs k = Inr d"
  by (simp add: decimal_field_def)

lemma parse_normalized: "parse_fee_tax_section (normalized_fee_tax p reason input) = Inr p"
proof -
  let ?n = "normalized_fee_tax p reason input"
  have l: "str_list_of_jval (Some (JvList (map JvStr ss))) = Some ss" for ss
    by (simp add: str_list_of_jval_def comp_def)
  have "map_of ?n ''supported_asset_classes'' = Some (JvList (map JvStr (fp_supported_asset_classes p)))"
    "map_of ?n ''supported_market_segments'' = Some (JvList (map JvStr (fp_supported_market_segments p)))"
    "map_of ?n ''rounding_mode'' = Some (JvStr (fp_rounding_mode p))"
    "map_of ?n ''enabled'' = Some (JvBool (fp_enabled p))"
    "decimal_field ?n ''buy_commission_rate_pct'' = Inr (fp_buy_commission_rate_pct p)"
    "decimal_field ?n ''sell_commission_rate_pct'' = Inr (fp_sell_commission_rate_pct p)"
    "decimal_field ?n ''sell_tax_rate_pct'' = Inr (fp_sell_tax_rate_pct p)"
    "decimal_field ?n ''sell_agri_tax_rate_pct'' = Inr (fp_sell_agri_tax_rate_pct p)"
    "decimal_field ?n ''rounding_unit'' = Inr (fp_rounding_unit p)"
    by (simp_all add: normalized_fee_tax_def decimal_field_def)
  then show ?thesis
    by (simp add: parse_fee_tax_section_def l jv_truthy_def)
qed

definition policy_sane :: "fee_tax_policy \<Rightarrow> bool" where
  "policy_sane p \<longleftrightarrow> policy_computable p \<and> policy_rates_nonneg p"

lemma validate_rate_pct_Inr: "validate_rate_pct x = Inr u \<longleftrightarrow> 0 \<le> x \<and> x \<le> max_sane_rate_pct"
  by (auto simp: validate_rate_pct_def)

lemma preview_ok_iff: "is_ok (preview_fee_tax_amounts p pr q) \<longleftrightarrow> policy_computable p"
proof -
  have "is_ok (preview_fee_tax_amounts p pr q) \<longleftrightarrow>
      is_ok (compute_amount p pr q (dec_value (fp_buy_commission_rate_pct p)))
      \<and> is_ok (compute_amount p pr q (dec_value (fp_sell_commission_rate_pct p)))
      \<and> is_ok (compute_amount p pr q (combined_tax_rate_pct p))"
    unfolding preview_fee_tax_amounts_def
    by (cases "compute_amount p pr q (dec_value (fp_buy_commission_rate_pct p))";
        cases "compute_amount p pr q (dec_value (fp_sell_commission_rate_pct p))";
        cases "compute_amount p pr q (combined_tax_rate_pct p)") simp_all
  then show ?thesis by (simp add: compute_amount_ok_iff)
qed

lemma sample_amounts_Inr: "sample_amounts p = Inr s \<Longrightarrow> policy_computable p"
  using preview_ok_iff [of p sample_price sample_quantity]
  by (auto simp: sample_amounts_def split: sum.splits fee_error.splits)

lemma validate_and_preview_Inr:
  assumes "validate_and_preview_fee_tax_policy input = Inr pv"
  obtains policy where "parse_fee_tax_section input = Inr policy"
    "parse_fee_tax_section (fv_normalized_fee_tax pv) = Inr policy" "policy_sane policy"
  using assms
  by (auto simp: validate_and_preview_fee_tax_policy_def res_bind_Inr_iff parse_admin_input_iff
      validate_rate_pct_Inr parse_normalized policy_sane_def policy_rates_nonneg_def
      dest: sample_amounts_Inr split: option.splits jval.splits if_splits)

lemma validate_environment_iff: "validate_environment e = Inr u \<longleftrightarrow> e \<in> {PAPER, LIVE}"
  by (auto simp: validate_environment_def allowed_environments_def)

text \<open>Everything a call of \<open>publish_fee_tax_policy\<close> may have done to the store.\<close>

lemma publish_fee_tax_policy_cases:
  assumes "publish_fee_tax_policy pn c e input who when dry w = (res, w')"
  obtains (unchanged) "w' = w" "\<And>r. res \<noteq> Inr (Published r)"
  | (added) v pv t where
      "validate_and_preview_fee_tax_policy input = Inr pv" "\<not> dry"
      "cw_versions w' = config_add v (cw_versions w)"
      "cv_config_version_id v = uuid_at (pn_env pn) ''version''"
      "cv_client_id v = c" "cv_environment v = e" "cv_activated_at v = Some t"
      "t = (case when of Some t \<Rightarrow> t | None \<Rightarrow> now_at (pn_env pn) ''activated'')"
      "\<And>a u. get_active (cw_versions w) c e = Some a \<Longrightarrow> cv_activated_at a = Some u \<Longrightarrow> u < t"
      "\<exists>ex. map_of (cv_config_json v) ''execution'' = Some (JvObj ex)
           \<and> map_of ex ''fee_tax'' = Some (JvObj (fv_normalized_fee_tax pv))"
      "\<And>r. res = Inr (Published r) \<Longrightarrow> pr_new r = v"
      "\<And>e. res = Inl e \<Longrightarrow> cw_audit_logs w' = cw_audit_logs w"
proof (cases "res_bind (validate_environment e) (\<lambda>_. validate_and_preview_fee_tax_policy input)")
  case (Inl err)
  with assms show thesis by (intro unchanged) (auto simp: publish_fee_tax_policy_def)
next
  case (Inr pv)
  let ?act = "get_active (cw_versions w) c e"
  let ?t = "case when of Some t \<Rightarrow> t | None \<Rightarrow> now_at (pn_env pn) ''activated''"
  let ?base = "case ?act of None \<Rightarrow> [] | Some v \<Rightarrow> cv_config_json v"
  show thesis
  proof (cases "dry \<or> (\<exists>a u. ?act = Some a \<and> cv_activated_at a = Some u \<and> ?t \<le> u)
      \<or> (\<exists>err. section_of ?base ''execution'' = Inl err)")
    case True
    with assms Inr show thesis
      by (intro unchanged)
        (auto simp: publish_fee_tax_policy_def Let_def split: if_splits option.splits sum.splits)
  next
    case False
    then obtain ex where ex: "section_of ?base ''execution'' = Inr ex"
      by (cases "section_of ?base ''execution''") auto
    have early: "\<not> (case ?act of None \<Rightarrow> False
        | Some v \<Rightarrow> (case cv_activated_at v of None \<Rightarrow> False | Some t \<Rightarrow> ?t \<le> t))"
      using False by (auto split: option.splits)
    have pv: "validate_and_preview_fee_tax_policy input = Inr pv"
      using Inr by (auto simp: res_bind_Inr_iff)
    let ?cfg = "AList.update ''execution''
      (JvObj (AList.update ''fee_tax'' (JvObj (fv_normalized_fee_tax pv)) ex)) ?base"
    let ?v = "\<lparr>cv_config_version_id = uuid_at (pn_env pn) ''version'', cv_client_id = c,
      cv_environment = e, cv_version_tag = ''execution.fee_tax@'' @ pn_stamp pn ?t,
      cv_config_json = ?cfg, cv_checksum = pn_checksum pn ?cfg, cv_created_at = None,
      cv_activated_at = Some ?t, cv_activated_by = Some who\<rparr>"
    have cfg: "map_of ?cfg ''execution'' =
        Some (JvObj (AList.update ''fee_tax'' (JvObj (fv_normalized_fee_tax pv)) ex))"
      by (simp add: update_conv')
    note body = assms [unfolded publish_fee_tax_policy_def Inr sum.case Let_def ex if_not_P [OF early]]
    show thesis
      using False pv cfg body early
      by (intro added [of pv ?v ?t])
        (auto simp: update_conv' audit_add_def split: sum.splits option.splits)
  qed
qed

lemma validate_and_preview_ok_iff:
  "is_ok (validate_and_preview_fee_tax_policy input) \<longleftrightarrow>
     (\<exists>reason policy. map_of input ''reason'' = Some (JvStr reason) \<and> str_strip reason \<noteq> []
        \<and> parse_fee_tax_section input = Inr policy \<and> policy_sane policy
        \<and> dec_value (fp_buy_commission_rate_pct policy) \<le> max_sane_rate_pct
        \<and> dec_value (fp_sell_commission_rate_pct policy) \<le> max_sane_rate_pct
        \<and> dec_value (fp_sell_tax_rate_pct policy) \<le> max_sane_rate_pct
        \<and> dec_value (fp_sell_agri_tax_rate_pct policy) \<le> max_sane_rate_pct)"
proof -
  have s: "is_ok (sample_amounts p) \<longleftrightarrow> policy_computable p" for p
    using preview_ok_iff [of p sample_price sample_quantity]
    by (auto simp: sample_amounts_def split: sum.splits fee_error.splits)
  show ?thesis
    by (auto simp: validate_and_preview_fee_tax_policy_def is_ok_res_bind parse_admin_input_iff
        validate_rate_pct_Inr policy_sane_def policy_rates_nonneg_def s [unfolded is_ok_iff]
        split: option.splits jval.splits)
qed

text \<open>The version in force from the activation on is the published one.\<close>

lemma published_policy_found:
  assumes pub: "publish_fee_tax_policy pn c e input who when False w = (Inr (Published r), w')"
    and fresh: "config_fresh (cw_versions w) (pr_new r)"
    and activated: "\<forall>v \<in> set (map snd (cw_versions w)).
      cv_client_id v = c \<and> cv_environment v = e \<longrightarrow> cv_activated_at v \<noteq> None"
    and t: "cv_activated_at (pr_new r) = Some t" "t \<le> ts"
  shows "\<exists>policy. parse_fee_tax_section input = Inr policy \<and> policy_sane policy \<and>
    get_fee_tax_policy_at (cw_versions w') c e ts = Inr (Some (pr_new r), Some policy)"
  using pub
proof (cases rule: publish_fee_tax_policy_cases)
  case unchanged
  then show ?thesis using unchanged(2) [of r] by simp
next
  case (added v pv u)
  have v: "pr_new r = v" using added by simp
  obtain policy where policy: "parse_fee_tax_section input = Inr policy"
    "parse_fee_tax_section (fv_normalized_fee_tax pv) = Inr policy" "policy_sane policy"
    using validate_and_preview_Inr [OF added(1)] by blast
  have later: "k < t" if "x \<in> set (map snd (cw_versions w))" "cv_client_id x = cv_client_id v"
      "cv_environment x = cv_environment v" "cv_activated_at x = Some k" for x k
  proof -
    from that added(5,6) obtain a where a: "get_active (cw_versions w) c e = Some a"
      using get_active_None_iff [of "cw_versions w" c e] by (cases "get_active (cw_versions w) c e") auto
    then obtain m where m: "cv_activated_at a = Some m"
      using activated get_active_SomeD [OF a] by auto
    have "m < t" using added(9) [OF a m] added(7) t(1) v by simp
    moreover have "k \<le> m"
      using get_active_latest [OF a m that(1)] that(2-4) added(5,6) by simp
    ultimately show ?thesis by simp
  qed
  have "get_active_at (config_add v (cw_versions w)) (cv_client_id v) (cv_environment v) ts = Some v"
    using fresh t v by (intro ch.appended_is_found [of _ _ t] later) simp_all
  then have "get_active_at (cw_versions w') c e ts = Some v"
    using added by simp
  moreover have "parse_fee_tax_policy (cv_config_json v) = Inr (Some policy)"
    using added(10) policy by (auto simp: parse_fee_tax_policy_def)
  ultimately show ?thesis
    using policy v by (simp add: get_fee_tax_policy_at_def)
qed

section \<open>Example\<close>

definition ex_fee_input :: "(string \<times> jval) list" where
  "ex_fee_input =
    [(''enabled'', JvBool True),
     (''supported_asset_classes'', JvList [JvStr ''kr_stock'']),
     (''supported_market_segments'', JvList [JvStr ''KOSPI'', JvStr ''KOSDAQ'']),
     (''buy_commission_rate_pct'', JvStr ''0.0140527''),
     (''sell_commission_rate_pct'', JvFloat ''0.015''),
     (''sell_tax_rate_pct'', JvStr ''0.05''),
     (''sell_agri_tax_rate_pct'', JvFloat ''0.15''),
     (''rounding_mode'', JvStr ''round_down''),
     (''rounding_unit'', JvInt 10),
     (''reason'', JvStr ''first registration'')]"

definition ex_publish_env :: publish_env where
  "ex_publish_env =
    \<lparr>pn_env = \<lparr>ev_now = (\<lambda>_. 1000), ev_uuid = (\<lambda>_. 77)\<rparr>,
     pn_checksum = (\<lambda>_. ''sum''), pn_stamp = (\<lambda>_. ''stamp'')\<rparr>"

definition ex_config_world :: config_world where
  "ex_config_world = \<lparr>cw_versions = [], cw_audit_logs = []\<rparr>"

definition ex_published :: "(fee_error + publish_outcome) \<times> config_world" where
  "ex_published = publish_fee_tax_policy ex_publish_env 1 LIVE ex_fee_input ''op'' None False ex_config_world"

definition published_new :: "(fee_error + publish_outcome) \<times> config_world \<Rightarrow> fee_policy_publish_result option" where
  "published_new p = (case fst p of Inr (Published r) \<Rightarrow> Some r | _ \<Rightarrow> None)"

definition ex_policy :: fee_tax_policy where
  "ex_policy =
    \<lparr>fp_enabled = True, fp_supported_asset_classes = [''kr_stock''],
     fp_supported_market_segments = [''KOSPI'', ''KOSDAQ''],
     fp_buy_commission_rate_pct = \<lparr>pd_negative = False, pd_coefficient = 140527, pd_exponent = - 7\<rparr>,
     fp_sell_commission_rate_pct = \<lparr>pd_negative = False, pd_coefficient = 15, pd_exponent = - 3\<rparr>,
     fp_sell_tax_rate_pct = \<lparr>pd_negative = False, pd_coefficient = 5, pd_exponent = - 2\<rparr>,
     fp_sell_agri_tax_rate_pct = \<lparr>pd_negative = False, pd_coefficient = 15, pd_exponent = - 2\<rparr>,
     fp_rounding_mode = ''round_down'',
     fp_rounding_unit = \<lparr>pd_negative = False, pd_coefficient = 10, pd_exponent = 0\<rparr>\<rparr>"

lemma ex_fee_input_parsed: "parse_fee_tax_section ex_fee_input = Inr ex_policy"
proof -
  have "decimal_of_jval (JvFloat t) = parse_decimal t" "decimal_of_jval (JvStr t) = parse_decimal t" for t
    by (simp_all add: decimal_of_jval_def)
  then show ?thesis
    by (simp add: ex_fee_input_def ex_policy_def parse_fee_tax_section_def decimal_field_def
        str_list_of_jval_def str_of_jval_def jv_truthy_def text_eval)
qed

lemma ex_policy_sane: "policy_sane ex_policy"
  by (simp add: ex_policy_def policy_sane_def policy_computable_def policy_rates_nonneg_def dec_value_def)

lemma ex_fee_input_valid: "is_ok (validate_and_preview_fee_tax_policy ex_fee_input)"
  unfolding validate_and_preview_ok_iff
  using ex_fee_input_parsed ex_policy_sane
  by (simp add: ex_policy_def ex_fee_input_def str_strip_def is_space_char_def max_sane_rate_pct_def
      dec_value_def power_int_minus field_simps)

lemma ex_published_ok:
  obtains r where "publish_fee_tax_policy ex_publish_env 1 LIVE ex_fee_input ''op'' None False
      ex_config_world = (Inr (Published r), snd ex_published)"
    "published_new ex_published = Some r" "cv_activated_at (pr_new r) = Some 1000"
proof -
  obtain pv where "validate_and_preview_fee_tax_policy ex_fee_input = Inr pv"
    using ex_fee_input_valid by (auto simp: is_ok_iff)
  then show thesis
    using that
    by (simp add: ex_published_def published_new_def publish_fee_tax_policy_def ex_config_world_def
        validate_environment_def allowed_environments_def get_active_def section_of_def
        ex_publish_env_def now_at_def Let_def)
qed

definition ex_null_world :: config_world where
  "ex_null_world = \<lparr>cw_versions = [(5, \<lparr>cv_config_version_id = 5, cv_client_id = 1, cv_environment = LIVE,
     cv_version_tag = ''v1'', cv_config_json = [(''execution'', JvNull)], cv_checksum = [],
     cv_created_at = None, cv_activated_at = Some 10, cv_activated_by = None\<rparr>)], cw_audit_logs = []\<rparr>"

definition ex_future_world :: config_world where
  "ex_future_world = \<lparr>cw_versions = [(5, \<lparr>cv_config_version_id = 5, cv_client_id = 1, cv_environment = LIVE,
     cv_version_tag = ''v1'', cv_config_json = [], cv_checksum = [],
     cv_created_at = None, cv_activated_at = Some 5000, cv_activated_by = None\<rparr>)], cw_audit_logs = []\<rparr>"

definition ex_limit :: "(fee_error + publish_result) \<times> config_world" where
  "ex_limit = publish_max_single_position_pct ex_publish_env 1 LIVE
     \<lparr>pd_negative = False, pd_coefficient = 15, pd_exponent = 0\<rparr> ''op'' None ex_future_world"

section \<open>Properties\<close>

text \<open>C12. A published policy is the policy that is read back: from its activation on, the version in
  force is the published one and its section parses to exactly the policy that the operator's
  input denotes, although every rate went through \<open>str\<close> and \<open>Decimal\<close> on the way.  The hypotheses say
  that the identifier is fresh and that no version of the client was left without an
  activation.\<close>

theorem published_policy_is_read_back:
  assumes pub: "publish_fee_tax_policy pn c e input who when False w = (Inr (Published r), w')"
    and fresh: "config_fresh (cw_versions w) (pr_new r)"
    and activated: "\<forall>v \<in> set (map snd (cw_versions w)).
      cv_client_id v = c \<and> cv_environment v = e \<longrightarrow> cv_activated_at v \<noteq> None"
    and t: "cv_activated_at (pr_new r) = Some t" "t \<le> ts"
  shows "\<exists>policy. parse_fee_tax_section input = Inr policy \<and>
    get_fee_tax_policy_at (cw_versions w') c e ts = Inr (Some (pr_new r), Some policy)"
  using published_policy_found [OF assms] by blast

theorem published_policy_is_read_back_witness:
  "\<exists>r policy. published_new ex_published = Some r \<and> parse_fee_tax_section ex_fee_input = Inr policy \<and>
    get_fee_tax_policy_at (cw_versions (snd ex_published)) 1 LIVE 2000 =
      Inr (Some (pr_new r), Some policy)"
proof -
  obtain r where r: "publish_fee_tax_policy ex_publish_env 1 LIVE ex_fee_input ''op'' None False
      ex_config_world = (Inr (Published r), snd ex_published)"
    "published_new ex_published = Some r" "cv_activated_at (pr_new r) = Some 1000"
    by (rule ex_published_ok)
  have "\<exists>policy. parse_fee_tax_section ex_fee_input = Inr policy \<and>
    get_fee_tax_policy_at (cw_versions (snd ex_published)) 1 LIVE 2000 =
      Inr (Some (pr_new r), Some policy)"
    using published_policy_is_read_back [OF r(1) _ _ r(3)]
    by (simp add: config_fresh_def ex_config_world_def)
  with r(2) show ?thesis by blast
qed

text \<open>C28. Publication keeps the past: whatever its outcome, a call never changes the fee and tax that
  is computed for a fill before the new activation, nor for another client or environment, so a
  replay of old fills stays reproducible.\<close>

theorem publishing_keeps_past_fees:
  assumes pub: "publish_fee_tax_policy pn c e input who when dry w = (res, w')"
    and fresh: "uuid_at (pn_env pn) ''version'' \<notin> fst ` set (cw_versions w)"
    and other: "ts < (case when of Some t \<Rightarrow> t | None \<Rightarrow> now_at (pn_env pn) ''activated'')
      \<or> c' \<noteq> c \<or> e' \<noteq> e"
  shows "compute_fee_tax (cw_versions w') c' e' ac ms side price qty ts =
    compute_fee_tax (cw_versions w) c' e' ac ms side price qty ts"
  using pub
proof (cases rule: publish_fee_tax_policy_cases)
  case unchanged
  then show ?thesis by simp
next
  case (added v pv t)
  then have "config_fresh (cw_versions w) v" using fresh by (simp add: config_fresh_def)
  then have "get_active_at (config_add v (cw_versions w)) c' e' ts = get_active_at (cw_versions w) c' e' ts"
    using added other by (intro ch.append_keeps_past [of _ _ t]) auto
  then show ?thesis using added by (simp add: compute_fee_tax_def)
qed

theorem publishing_keeps_past_fees_witness:
  "compute_fee_tax (cw_versions (snd ex_published)) 1 LIVE ''kr_stock'' (Some ''KOSPI'') BUY 70000 10 999
   = compute_fee_tax [] 1 LIVE ''kr_stock'' (Some ''KOSPI'') BUY 70000 10 999"
  using publishing_keeps_past_fees [of ex_publish_env 1 LIVE ex_fee_input "''op''" None False
      ex_config_world "fst ex_published" "snd ex_published" 999 1 LIVE "''kr_stock''" "Some ''KOSPI''" BUY 70000 10]
  by (simp add: ex_published_def ex_config_world_def ex_publish_env_def now_at_def)

text \<open>When the active document has the entry \<open>execution: null\<close>, publication stores and activates the
  new version and only then raises, before the audit entry is written: \<open>get("execution", {})\<close> has no
  default for a null that is present, while the copy of the document uses \<open>get("execution") or {}\<close>.\<close>

theorem null_execution_publishes_unaudited:
  assumes pv: "validate_and_preview_fee_tax_policy input = Inr pv" and e: "e \<in> {PAPER, LIVE}"
    and active: "get_active (cw_versions w) c e = Some a" "cv_activated_at a = Some u" "u < t"
    and null: "map_of (cv_config_json a) ''execution'' = Some JvNull"
    and fresh: "uuid_at (pn_env pn) ''version'' \<notin> fst ` set (cw_versions w)"
  shows "\<exists>w' v. publish_fee_tax_policy pn c e input who (Some t) False w = (Inl Attribute_Error, w')
    \<and> cw_versions w' = cw_versions w @ [(cv_config_version_id v, v)]
    \<and> get_active_at (cw_versions w') c e t = Some v
    \<and> cw_audit_logs w' = cw_audit_logs w"
proof -
  have s: "section_of (cv_config_json a) ''execution'' = Inr []"
    "previous_fee_tax (cv_config_json a) = Inl Attribute_Error"
    by (simp_all add: section_of_def previous_fee_tax_def null jv_truthy_def)
  have "\<exists>w'. publish_fee_tax_policy pn c e input who (Some t) False w = (Inl Attribute_Error, w')"
    using pv e active s
    by (simp add: publish_fee_tax_policy_def validate_environment_def allowed_environments_def Let_def)
  then obtain w' where w': "publish_fee_tax_policy pn c e input who (Some t) False w = (Inl Attribute_Error, w')"
    by blast
  moreover have "w' \<noteq> w"
  proof -
    have "config_add v (cw_versions w) \<noteq> cw_versions w"
      if "cv_config_version_id v = uuid_at (pn_env pn) ''version''" for v
      using fresh that by (simp add: config_add_fresh config_fresh_def)
    then have "cw_versions w' \<noteq> cw_versions w"
      using w' pv e active s
      by (auto simp: publish_fee_tax_policy_def validate_environment_def allowed_environments_def Let_def)
    then show ?thesis by blast
  qed
  from w' show ?thesis
  proof (cases rule: publish_fee_tax_policy_cases)
    case unchanged
    with \<open>w' \<noteq> w\<close> show ?thesis by simp
  next
    case (added v pv' t')
    have cf: "config_fresh (cw_versions w) v" using fresh added by (simp add: config_fresh_def)
    have "get_active_at (config_add v (cw_versions w)) (cv_client_id v) (cv_environment v) t = Some v"
    proof (rule ch.appended_is_found [OF cf])
      show "cv_activated_at v = Some t" using added by simp
      fix x k assume x: "x \<in> set (map snd (cw_versions w))" "cv_client_id x = cv_client_id v"
        "cv_environment x = cv_environment v" "cv_activated_at x = Some k"
      then have "k \<le> u" using get_active_latest [OF active(1,2) x(1)] added by auto
      with active(3) show "k < t" by simp
    qed simp
    with cf w' added show ?thesis
      by (intro exI [of _ w'] exI [of _ v]) (simp add: config_add_fresh)
  qed
qed

theorem null_execution_publishes_unaudited_witness:
  "\<exists>w' v. publish_fee_tax_policy ex_publish_env 1 LIVE ex_fee_input ''op'' (Some 20) False ex_null_world
      = (Inl Attribute_Error, w')
    \<and> cw_versions w' = cw_versions ex_null_world @ [(cv_config_version_id v, v)]
    \<and> get_active_at (cw_versions w') 1 LIVE 20 = Some v \<and> cw_audit_logs w' = []"
proof -
  obtain pv where "validate_and_preview_fee_tax_policy ex_fee_input = Inr pv"
    using ex_fee_input_valid by (auto simp: is_ok_iff)
  from null_execution_publishes_unaudited [OF this, of LIVE ex_null_world 1
      "snd (hd (cw_versions ex_null_world))" 10 20 ex_publish_env "''op''"]
  show ?thesis
    by (simp add: ex_null_world_def get_active_def ex_publish_env_def uuid_at_def)
qed

text \<open>A policy may be published with an activation in the future, and \<open>get_active\<close> returns it at
  once.  A concentration limit published after that is activated now, which is earlier: the call
  reports success, but the active version stays the previous one and the new limit is not in
  force.\<close>

theorem limit_behind_future_version_is_inactive:
  assumes pub: "publish_max_single_position_pct pn c e pct who reason w = (Inr r, w')"
    and fresh: "uuid_at (pn_env pn) ''version'' \<notin> fst ` set (cw_versions w)"
    and future: "cv_activated_at (pb_previous r) = Some t" "now_at (pn_env pn) ''now'' \<le> t"
  shows "get_active (cw_versions w') c e = Some (pb_previous r)"
proof -
  obtain a v where a: "get_active (cw_versions w) c e = Some a" "pb_previous r = a"
    "cw_versions w' = config_add v (cw_versions w)"
    "cv_config_version_id v = uuid_at (pn_env pn) ''version''"
    "cv_activated_at v = Some (now_at (pn_env pn) ''now'')"
    using pub
    by (fastforce simp: publish_max_single_position_pct_def Let_def audit_add_def
        split: sum.splits option.splits if_splits)
  have "active_key a \<le> active_key v"
    using future a by (simp add: active_key_def less_eq_prod_def)
  then have *: "first_sorted active_key (xs @ [v]) = first_sorted active_key xs"
    if "first_sorted active_key xs = Some a" for xs
    using that first_sorted_snoc by metis
  have "config_fresh (cw_versions w) v" using fresh a by (simp add: config_fresh_def)
  then show ?thesis
    using a * [OF a(1) [unfolded get_active_first_sorted]]
    by (simp add: get_active_first_sorted config_add_fresh)
qed
theorem limit_behind_future_version_is_inactive_witness:
  "is_ok (fst ex_limit) \<and>
   get_active (cw_versions (snd ex_limit)) 1 LIVE = get_active (cw_versions ex_future_world) 1 LIVE"
proof -
  let ?a = "snd (hd (cw_versions ex_future_world))"
  have "\<exists>r. ex_limit = (Inr r, snd ex_limit) \<and> pb_previous r = ?a"
    by (simp add: ex_limit_def ex_future_world_def publish_max_single_position_pct_def
        validate_max_single_position_pct_def validate_environment_def allowed_environments_def
        get_active_def current_max_single_position_pct_def section_of_def dec_value_def Let_def)
  then obtain r where r: "ex_limit = (Inr r, snd ex_limit)" "pb_previous r = ?a" by blast
  have "get_active (cw_versions (snd ex_limit)) 1 LIVE = Some (pb_previous r)"
    by (rule limit_behind_future_version_is_inactive
          [OF trans [OF ex_limit_def [symmetric] r(1)], of 5000])
      (simp_all add: r(2) ex_publish_env_def ex_future_world_def uuid_at_def now_at_def)
  moreover have "is_ok (fst ex_limit)" using r(1) by (metis fst_conv is_ok_simps(2))
  ultimately show ?thesis
    using r(2) by (simp add: ex_future_world_def get_active_def)
qed

end
