(* ===== verification/Cost_Basis.thy ===== *)
theory Cost_Basis
  imports Domain
begin

text \<open>
  The moving-average realized profit-and-loss engine
  (\<^verbatim>\<open>services/realized_pnl_engine.py\<close>): one fill is applied to the cost-basis state of an
  account and instrument, and an ordered history of fills is replayed from an initial state.
  All arithmetic is \<open>Decimal\<close> arithmetic with its rounding, so the theorems hold for the
  values the program stores and not only for an idealised exact computation.

  \<open>uuid5\<close> (name-based identifiers of the standard library) is an argument: only the fact that
  it is a function is used.
\<close>

section \<open>Provenance of the buy-fee pool\<close>

datatype fee_bucket = CALCULATED_ISH | HISTORICAL_ISH | ZERO_ISH

fun classify_fee_tax_source_for_pool :: "fee_tax_source \<Rightarrow> fee_bucket" where
  "classify_fee_tax_source_for_pool CALCULATED_FROM_POLICY = CALCULATED_ISH"
| "classify_fee_tax_source_for_pool REPORTED = CALCULATED_ISH"
| "classify_fee_tax_source_for_pool HISTORICAL_POLICY_ESTIMATE = HISTORICAL_ISH"
| "classify_fee_tax_source_for_pool _ = ZERO_ISH"

fun fresh_entry_provenance :: "fee_bucket \<Rightarrow> buy_fee_allocation_source" where
  "fresh_entry_provenance CALCULATED_ISH = FULLY_CALCULATED"
| "fresh_entry_provenance HISTORICAL_ISH = HISTORICALLY_ESTIMATED"
| "fresh_entry_provenance ZERO_ISH = FULLY_ASSUMED_ZERO"

definition merge_table ::
  "((buy_fee_allocation_source \<times> fee_bucket) \<times> buy_fee_allocation_source) list" where
  "merge_table =
    [((FULLY_CALCULATED, CALCULATED_ISH), FULLY_CALCULATED),
     ((FULLY_CALCULATED, HISTORICAL_ISH), PARTIALLY_ASSUMED_ZERO),
     ((FULLY_CALCULATED, ZERO_ISH), PARTIALLY_ASSUMED_ZERO),
     ((HISTORICALLY_ESTIMATED, HISTORICAL_ISH), HISTORICALLY_ESTIMATED),
     ((HISTORICALLY_ESTIMATED, CALCULATED_ISH), PARTIALLY_ASSUMED_ZERO),
     ((HISTORICALLY_ESTIMATED, ZERO_ISH), PARTIALLY_ASSUMED_ZERO),
     ((FULLY_ASSUMED_ZERO, ZERO_ISH), FULLY_ASSUMED_ZERO),
     ((FULLY_ASSUMED_ZERO, CALCULATED_ISH), PARTIALLY_ASSUMED_ZERO),
     ((FULLY_ASSUMED_ZERO, HISTORICAL_ISH), PARTIALLY_ASSUMED_ZERO)]"

definition merge_buy_fee_pool_provenance ::
  "buy_fee_allocation_source \<Rightarrow> fee_tax_source \<Rightarrow> buy_fee_allocation_source" where
  "merge_buy_fee_pool_provenance current new_fee_tax_source =
     (case map_of merge_table (current, classify_fee_tax_source_for_pool new_fee_tax_source) of
        Some p \<Rightarrow> p
      | None \<Rightarrow> PARTIALLY_ASSUMED_ZERO)"

section \<open>Inputs, errors and validation\<close>

record normalized_fill =
  nf_fill_event_id :: uuid
  nf_account_id :: uuid
  nf_instrument_id :: uuid
  nf_broker_order_id :: uuid
  nf_order_request_id :: uuid
  nf_side :: order_side
  nf_quantity :: rat
  nf_price :: rat
  nf_fee :: rat
  nf_tax :: rat
  nf_fee_tax_source :: fee_tax_source
  nf_fill_timestamp :: timestamp

datatype pnl_error =
    InvalidFillQuantity uuid
  | InvalidFillPrice uuid
  | InvalidFeeOrTax uuid
  | FeeTaxSourceMismatch uuid
  | MissingCostBasisState uuid
  | InsufficientPositionQuantity uuid
  | FillsNotSorted uuid

definition validate_fill :: "normalized_fill \<Rightarrow> pnl_error + unit" where
  "validate_fill f =
     (if nf_quantity f \<le> 0 then Inl (InvalidFillQuantity (nf_fill_event_id f))
      else if nf_price f < 0 then Inl (InvalidFillPrice (nf_fill_event_id f))
      else if nf_fee f < 0 \<or> nf_tax f < 0 then Inl (InvalidFeeOrTax (nf_fill_event_id f))
      else if nf_fee_tax_source f = ASSUMED_ZERO \<and> (nf_fee f \<noteq> 0 \<or> nf_tax f \<noteq> 0)
        then Inl (FeeTaxSourceMismatch (nf_fill_event_id f))
      else Inr ())"

section \<open>Applying one fill\<close>

definition realized_pnl_event_uuid_namespace :: uuid where
  "realized_pnl_event_uuid_namespace = 0x6f1a6b8e6b8d4b8a9e8a3f1a6b8e6b8d"

definition derive_realized_pnl_event_id :: "(uuid \<Rightarrow> uuid \<Rightarrow> uuid) \<Rightarrow> uuid \<Rightarrow> uuid" where
  "derive_realized_pnl_event_id uuid5 fill_event_id =
     uuid5 realized_pnl_event_uuid_namespace fill_event_id"

definition next_state ::
  "normalized_fill \<Rightarrow> rat \<Rightarrow> rat \<Rightarrow> rat \<Rightarrow> buy_fee_allocation_source \<Rightarrow> cost_basis_state" where
  "next_state fill new_quantity new_average_cost new_pool new_provenance =
     \<lparr>cb_account_id = nf_account_id fill,
      cb_instrument_id = nf_instrument_id fill,
      cb_quantity = new_quantity,
      cb_average_cost = new_average_cost,
      cb_last_applied_fill_event_id = Some (nf_fill_event_id fill),
      cb_last_applied_fill_timestamp = Some (nf_fill_timestamp fill),
      cb_recompute_required = False,
      cb_recompute_reason = None,
      cb_updated_at = None,
      cb_remaining_buy_fee_pool = new_pool,
      cb_buy_fee_pool_provenance = new_provenance\<rparr>"

definition apply_buy :: "cost_basis_state option \<Rightarrow> normalized_fill \<Rightarrow> cost_basis_state" where
  "apply_buy state fill =
     (let fresh =
        next_state fill (nf_quantity fill) (nf_price fill) (nf_fee fill)
          (fresh_entry_provenance (classify_fee_tax_source_for_pool (nf_fee_tax_source fill)))
      in case state of
           None \<Rightarrow> fresh
         | Some s \<Rightarrow>
             if cb_quantity s = 0 then fresh
             else
               (let new_quantity = dadd (cb_quantity s) (nf_quantity fill);
                    new_average_cost =
                      ddiv (dadd (dmul (cb_quantity s) (cb_average_cost s))
                                 (dmul (nf_quantity fill) (nf_price fill)))
                           new_quantity;
                    new_pool = dadd (cb_remaining_buy_fee_pool s) (nf_fee fill);
                    new_provenance =
                      merge_buy_fee_pool_provenance (cb_buy_fee_pool_provenance s)
                        (nf_fee_tax_source fill)
                in next_state fill new_quantity new_average_cost new_pool new_provenance))"

definition apply_sell ::
  "(uuid \<Rightarrow> uuid \<Rightarrow> uuid) \<Rightarrow> uuid \<Rightarrow> cost_basis_state option \<Rightarrow> normalized_fill
   \<Rightarrow> pnl_error + (cost_basis_state \<times> realized_pnl_event)" where
  "apply_sell uuid5 computation_run_id state fill =
     (case state of
        None \<Rightarrow> Inl (MissingCostBasisState (nf_fill_event_id fill))
      | Some s \<Rightarrow>
          if cb_quantity s = 0 then Inl (MissingCostBasisState (nf_fill_event_id fill))
          else if cb_quantity s < nf_quantity fill
            then Inl (InsufficientPositionQuantity (nf_fill_event_id fill))
          else
            (let old_average_cost = cb_average_cost s;
                 realized_pnl_gross =
                   dmul (dsub (nf_price fill) old_average_cost) (nf_quantity fill);
                 new_quantity = dsub (cb_quantity s) (nf_quantity fill)
             in if new_quantity < 0
                then Inl (InsufficientPositionQuantity (nf_fill_event_id fill))
                else
                  (let new_average_cost = (if new_quantity = 0 then 0 else old_average_cost);
                       pool = cb_remaining_buy_fee_pool s;
                       (allocated_buy_fee, new_pool) =
                         (if nf_quantity fill = cb_quantity s then (pool, 0)
                          else
                            (let allocated = dmul pool (ddiv (nf_quantity fill) (cb_quantity s))
                             in (allocated, dsub pool allocated)));
                       realized_pnl_net =
                         dsub (dsub (dsub realized_pnl_gross (nf_fee fill)) (nf_tax fill))
                           allocated_buy_fee
                   in Inr
                     (next_state fill new_quantity new_average_cost new_pool
                        (cb_buy_fee_pool_provenance s),
                      \<lparr>pe_realized_pnl_event_id =
                         derive_realized_pnl_event_id uuid5 (nf_fill_event_id fill),
                       pe_account_id = nf_account_id fill,
                       pe_instrument_id = nf_instrument_id fill,
                       pe_fill_event_id = nf_fill_event_id fill,
                       pe_broker_order_id = nf_broker_order_id fill,
                       pe_order_request_id = nf_order_request_id fill,
                       pe_sell_quantity = nf_quantity fill,
                       pe_sell_price = nf_price fill,
                       pe_avg_cost_basis_before = old_average_cost,
                       pe_fee = nf_fee fill,
                       pe_tax = nf_tax fill,
                       pe_fee_tax_source = nf_fee_tax_source fill,
                       pe_realized_pnl_gross = realized_pnl_gross,
                       pe_realized_pnl_net = realized_pnl_net,
                       pe_position_quantity_after = new_quantity,
                       pe_computation_run_id = computation_run_id,
                       pe_fill_timestamp = nf_fill_timestamp fill,
                       pe_superseded_by_event_id = None,
                       pe_created_at = None,
                       pe_allocated_buy_fee = allocated_buy_fee,
                       pe_buy_fee_allocation_source = cb_buy_fee_pool_provenance s\<rparr>))))"

definition apply_fill_to_cost_basis ::
  "(uuid \<Rightarrow> uuid \<Rightarrow> uuid) \<Rightarrow> uuid \<Rightarrow> cost_basis_state option \<Rightarrow> normalized_fill
   \<Rightarrow> pnl_error + (cost_basis_state \<times> realized_pnl_event option)" where
  "apply_fill_to_cost_basis uuid5 computation_run_id state fill =
     res_bind (validate_fill fill) (\<lambda>_.
       if nf_side fill = BUY then Inr (apply_buy state fill, None)
       else res_bind (apply_sell uuid5 computation_run_id state fill)
              (\<lambda>(new_state, event). Inr (new_state, Some event)))"

section \<open>Replay\<close>

record replay_result =
  rr_final_state :: "cost_basis_state option"
  rr_realized_pnl_events :: "realized_pnl_event list"

text \<open>The loop of \<open>replay_fills\<close>: its state is the cost basis, the events so far and the time
  stamp of the previous fill.\<close>

fun replay_loop ::
  "(uuid \<Rightarrow> uuid \<Rightarrow> uuid) \<Rightarrow> uuid \<Rightarrow> normalized_fill list \<Rightarrow> cost_basis_state option
   \<Rightarrow> realized_pnl_event list \<Rightarrow> timestamp option \<Rightarrow> pnl_error + replay_result" where
  "replay_loop uuid5 run [] state events prev =
     Inr \<lparr>rr_final_state = state, rr_realized_pnl_events = events\<rparr>"
| "replay_loop uuid5 run (fill # fills) state events prev =
     (if (case prev of Some t \<Rightarrow> nf_fill_timestamp fill < t | None \<Rightarrow> False)
      then Inl (FillsNotSorted (nf_fill_event_id fill))
      else res_bind (apply_fill_to_cost_basis uuid5 run state fill) (\<lambda>(state', event).
             replay_loop uuid5 run fills (Some state')
               (case event of Some e \<Rightarrow> events @ [e] | None \<Rightarrow> events)
               (Some (nf_fill_timestamp fill))))"

definition replay_fills ::
  "(uuid \<Rightarrow> uuid \<Rightarrow> uuid) \<Rightarrow> uuid \<Rightarrow> cost_basis_state option \<Rightarrow> normalized_fill list
   \<Rightarrow> pnl_error + replay_result" where
  "replay_fills uuid5 computation_run_id initial_state ordered_fills =
     replay_loop uuid5 computation_run_id ordered_fills initial_state []
       (case initial_state of None \<Rightarrow> None | Some s \<Rightarrow> cb_last_applied_fill_timestamp s)"

section \<open>The provenance summary\<close>

text \<open>
  Reference semantics of the pool's provenance: the sources of every buy since the position was
  opened.  The pool is pure when they all fall into one bucket and mixed otherwise.
\<close>

definition provenance_spec :: "fee_tax_source list \<Rightarrow> buy_fee_allocation_source" where
  "provenance_spec srcs =
     (case map classify_fee_tax_source_for_pool srcs of
        [] \<Rightarrow> FULLY_ASSUMED_ZERO
      | b # bs \<Rightarrow> if list_all (\<lambda>c. c = b) bs then fresh_entry_provenance b
                  else PARTIALLY_ASSUMED_ZERO)"

lemma merge_fresh:
  "merge_buy_fee_pool_provenance (fresh_entry_provenance b) src =
     (if classify_fee_tax_source_for_pool src = b then fresh_entry_provenance b
      else PARTIALLY_ASSUMED_ZERO)"
  by (cases b; cases src) (simp_all add: merge_buy_fee_pool_provenance_def merge_table_def)

lemma merge_partial [simp]:
  "merge_buy_fee_pool_provenance PARTIALLY_ASSUMED_ZERO src = PARTIALLY_ASSUMED_ZERO"
  by (cases src) (simp_all add: merge_buy_fee_pool_provenance_def merge_table_def)

lemma merge_provenance_spec:
  assumes "srcs \<noteq> []"
  shows "merge_buy_fee_pool_provenance (provenance_spec srcs) src = provenance_spec (srcs @ [src])"
  using assms by (cases srcs) (auto simp: provenance_spec_def merge_fresh)

section \<open>The state invariant\<close>

text \<open>
  Long-only, nonnegative and storable; a closed position carries neither a cost nor a fee pool.
\<close>

definition cb_inv :: "cost_basis_state \<Rightarrow> bool" where
  "cb_inv s \<longleftrightarrow>
     0 \<le> cb_quantity s \<and> 0 \<le> cb_average_cost s \<and> 0 \<le> cb_remaining_buy_fee_pool s
     \<and> is_dec (cb_quantity s) \<and> is_dec (cb_average_cost s) \<and> is_dec (cb_remaining_buy_fee_pool s)
     \<and> (cb_quantity s = 0 \<longrightarrow> cb_average_cost s = 0 \<and> cb_remaining_buy_fee_pool s = 0)"

definition cb_inv_opt :: "cost_basis_state option \<Rightarrow> bool" where
  "cb_inv_opt st \<longleftrightarrow> (case st of None \<Rightarrow> True | Some s \<Rightarrow> cb_inv s)"

definition fill_dec :: "normalized_fill \<Rightarrow> bool" where
  "fill_dec f \<longleftrightarrow>
     is_dec (nf_quantity f) \<and> is_dec (nf_price f) \<and> is_dec (nf_fee f) \<and> is_dec (nf_tax f)"

lemma validate_fill_Inr_iff:
  "validate_fill f = Inr u \<longleftrightarrow>
     0 < nf_quantity f \<and> 0 \<le> nf_price f \<and> 0 \<le> nf_fee f \<and> 0 \<le> nf_tax f
     \<and> (nf_fee_tax_source f = ASSUMED_ZERO \<longrightarrow> nf_fee f = 0 \<and> nf_tax f = 0)"
  by (auto simp: validate_fill_def)

lemma apply_fill_InrE:
  assumes "apply_fill_to_cost_basis uuid5 run st f = Inr (s', ev)"
  obtains (buy) "validate_fill f = Inr ()" "nf_side f = BUY" "s' = apply_buy st f" "ev = None"
  | (sell) e where "validate_fill f = Inr ()" "nf_side f = SELL"
      "apply_sell uuid5 run st f = Inr (s', e)" "ev = Some e"
  using assms
  by (cases "nf_side f")
     (auto simp: apply_fill_to_cost_basis_def res_bind_Inr_iff split: if_splits)

lemma apply_buy_inv:
  assumes inv: "cb_inv_opt st" and v: "validate_fill f = Inr ()" and d: "fill_dec f"
  shows "cb_inv (apply_buy st f)"
proof -
  note f = v [unfolded validate_fill_Inr_iff] d [unfolded fill_dec_def]
  show ?thesis
  proof (cases "\<exists>s. st = Some s \<and> cb_quantity s \<noteq> 0")
    case True
    then obtain s where s: "st = Some s" "cb_quantity s \<noteq> 0" by blast
    with inv have i: "cb_inv s" by (simp add: cb_inv_opt_def)
    with s f have "0 < dadd (cb_quantity s) (nf_quantity f)"
      using dadd_ge [of "cb_quantity s" "nf_quantity f"] by (simp add: cb_inv_def)
    then show ?thesis
      using s i f by (auto simp: apply_buy_def next_state_def cb_inv_def Let_def intro!: dec_nonneg)
  next
    case False
    then show ?thesis
      using f by (auto simp: apply_buy_def next_state_def cb_inv_def Let_def split: option.splits)
  qed
qed

text \<open>What a successful sell did, branch by branch.\<close>

lemma apply_sell_InrE:
  assumes "apply_sell uuid5 run st f = Inr (s', e)"
  obtains s where "st = Some s" "cb_quantity s \<noteq> 0" "nf_quantity f \<le> cb_quantity s"
    "cb_quantity s' = dsub (cb_quantity s) (nf_quantity f)"
    "0 \<le> cb_quantity s'"
    "cb_average_cost s' = (if cb_quantity s' = 0 then 0 else cb_average_cost s)"
    "pe_allocated_buy_fee e =
       (if nf_quantity f = cb_quantity s then cb_remaining_buy_fee_pool s
        else dmul (cb_remaining_buy_fee_pool s) (ddiv (nf_quantity f) (cb_quantity s)))"
    "cb_remaining_buy_fee_pool s' =
       (if nf_quantity f = cb_quantity s then 0
        else dsub (cb_remaining_buy_fee_pool s) (pe_allocated_buy_fee e))"
    "cb_buy_fee_pool_provenance s' = cb_buy_fee_pool_provenance s"
    "pe_realized_pnl_gross e = dmul (dsub (nf_price f) (cb_average_cost s)) (nf_quantity f)"
    "pe_realized_pnl_net e =
       dsub (dsub (dsub (pe_realized_pnl_gross e) (nf_fee f)) (nf_tax f)) (pe_allocated_buy_fee e)"
    "pe_position_quantity_after e = cb_quantity s'"
    "pe_fill_event_id e = nf_fill_event_id f"
    "pe_realized_pnl_event_id e = derive_realized_pnl_event_id uuid5 (nf_fill_event_id f)"
    "cb_last_applied_fill_timestamp s' = Some (nf_fill_timestamp f)"
  using assms
  by (cases st) (auto simp: apply_sell_def Let_def next_state_def split: if_splits)

lemma apply_sell_inv:
  assumes inv: "cb_inv_opt st" and v: "validate_fill f = Inr ()" and d: "fill_dec f"
    and ok: "apply_sell uuid5 run st f = Inr (s', e)"
  shows "cb_inv s'" "0 \<le> pe_allocated_buy_fee e"
    "st = Some s \<Longrightarrow> pe_allocated_buy_fee e \<le> cb_remaining_buy_fee_pool s"
proof -
  note f = v [unfolded validate_fill_Inr_iff] d [unfolded fill_dec_def]
  have "cb_inv s' \<and> 0 \<le> pe_allocated_buy_fee e
    \<and> (\<forall>s. st = Some s \<longrightarrow> pe_allocated_buy_fee e \<le> cb_remaining_buy_fee_pool s)"
    using ok
  proof (cases rule: apply_sell_InrE)
    case (1 s)
    with inv have i: "cb_inv s" by (simp add: cb_inv_opt_def)
    have share: "0 \<le> pe_allocated_buy_fee e" "pe_allocated_buy_fee e \<le> cb_remaining_buy_fee_pool s"
      using 1 i f dec.share_bounds [of "nf_quantity f" "cb_quantity s" "cb_remaining_buy_fee_pool s"]
      by (auto simp: cb_inv_def dmul_def ddiv_def)
    have z: "cb_quantity s' = 0 \<longleftrightarrow> nf_quantity f = cb_quantity s"
      using 1 i f dsub_eq_0_iff [of "cb_quantity s" "nf_quantity f"] by (auto simp: cb_inv_def)
    have "cb_inv s'"
      using 1 i share z by (auto simp: cb_inv_def dsub_nonneg)
    with share 1 show ?thesis by simp
  qed
  then show "cb_inv s'" "0 \<le> pe_allocated_buy_fee e"
    "st = Some s \<Longrightarrow> pe_allocated_buy_fee e \<le> cb_remaining_buy_fee_pool s"
    by blast+
qed

lemma apply_fill_inv:
  assumes "cb_inv_opt st" and "fill_dec f"
    and "apply_fill_to_cost_basis uuid5 run st f = Inr (s', ev)"
  shows "cb_inv s'"
  using assms(3)
proof (cases rule: apply_fill_InrE)
  case buy
  with assms show ?thesis by (simp add: apply_buy_inv)
next
  case (sell e)
  with assms show ?thesis by (blast intro: apply_sell_inv)
qed

section \<open>Lifting to histories\<close>

definition held_quantity :: "cost_basis_state option \<Rightarrow> rat" where
  "held_quantity st = (case st of None \<Rightarrow> 0 | Some s \<Rightarrow> cb_quantity s)"

definition last_timestamp :: "cost_basis_state option \<Rightarrow> timestamp option" where
  "last_timestamp st = (case st of None \<Rightarrow> None | Some s \<Rightarrow> cb_last_applied_fill_timestamp s)"

lemma apply_fill_timestamp:
  assumes "apply_fill_to_cost_basis uuid5 run st f = Inr (s', ev)"
  shows "cb_last_applied_fill_timestamp s' = Some (nf_fill_timestamp f)"
  using assms
proof (cases rule: apply_fill_InrE)
  case buy
  then show ?thesis
    by (auto simp: apply_buy_def next_state_def Let_def split: option.splits)
next
  case (sell e)
  from sell(3) show ?thesis by (cases rule: apply_sell_InrE)
qed

lemma replay_loop_acc:
  "replay_loop uuid5 run fills st events prev =
     res_bind (replay_loop uuid5 run fills st [] prev)
       (\<lambda>r. Inr (r\<lparr>rr_realized_pnl_events := events @ rr_realized_pnl_events r\<rparr>))"
proof (induction fills arbitrary: st events prev)
  case Nil
  then show ?case by simp
next
  case (Cons f fs)
  show ?case
  proof (cases "apply_fill_to_cost_basis uuid5 run st f")
    case (Inl e)
    then show ?thesis by simp
  next
    case (Inr r)
    obtain s' ev where r: "r = (s', ev)" by (cases r)
    show ?thesis
      using Inr r Cons.IH [of "Some s'" "case ev of Some e \<Rightarrow> events @ [e] | None \<Rightarrow> events"]
        Cons.IH [of "Some s'" "case ev of Some e \<Rightarrow> [e] | None \<Rightarrow> []"]
      by (cases "replay_loop uuid5 run fs (Some s') [] (Some (nf_fill_timestamp f))")
         (auto split: option.splits)
  qed
qed

lemma replay_fills_Nil [simp]:
  "replay_fills uuid5 run st [] = Inr \<lparr>rr_final_state = st, rr_realized_pnl_events = []\<rparr>"
  by (simp add: replay_fills_def)

text \<open>One fill at a time: replay is the iteration of \<open>apply_fill_to_cost_basis\<close>.\<close>

lemma replay_fills_Cons:
  "replay_fills uuid5 run st (f # fs) =
     (if (case last_timestamp st of Some t \<Rightarrow> nf_fill_timestamp f < t | None \<Rightarrow> False)
      then Inl (FillsNotSorted (nf_fill_event_id f))
      else res_bind (apply_fill_to_cost_basis uuid5 run st f) (\<lambda>(s', ev).
             res_bind (replay_fills uuid5 run (Some s') fs) (\<lambda>r.
               Inr (r\<lparr>rr_realized_pnl_events :=
                        (case ev of Some e \<Rightarrow> [e] | None \<Rightarrow> []) @ rr_realized_pnl_events r\<rparr>))))"
proof (cases "apply_fill_to_cost_basis uuid5 run st f")
  case (Inl e)
  then show ?thesis by (simp add: replay_fills_def last_timestamp_def)
next
  case (Inr r)
  obtain s' ev where r: "r = (s', ev)" by (cases r)
  have "cb_last_applied_fill_timestamp s' = Some (nf_fill_timestamp f)"
    using Inr r apply_fill_timestamp by blast
  then show ?thesis
    using Inr r replay_loop_acc [of uuid5 run fs "Some s'" "case ev of Some e \<Rightarrow> [e] | None \<Rightarrow> []"]
    by (simp add: replay_fills_def last_timestamp_def cong: option.case_cong)
qed

text \<open>The induction principle of successful replays.\<close>

lemma replay_fills_induct [consumes 1, case_names Nil Cons]:
  assumes "replay_fills uuid5 run st fills = Inr r"
    and "\<And>st. P st [] \<lparr>rr_final_state = st, rr_realized_pnl_events = []\<rparr>"
    and "\<And>st f fs s' ev r.
           (case last_timestamp st of Some t \<Rightarrow> t \<le> nf_fill_timestamp f | None \<Rightarrow> True) \<Longrightarrow>
           apply_fill_to_cost_basis uuid5 run st f = Inr (s', ev) \<Longrightarrow>
           replay_fills uuid5 run (Some s') fs = Inr r \<Longrightarrow> P (Some s') fs r \<Longrightarrow>
           P st (f # fs) (r\<lparr>rr_realized_pnl_events :=
              (case ev of Some e \<Rightarrow> [e] | None \<Rightarrow> []) @ rr_realized_pnl_events r\<rparr>)"
  shows "P st fills r"
  using assms(1)
proof (induction fills arbitrary: st r)
  case Nil
  then show ?case using assms(2) by auto
next
  case (Cons f fs)
  from Cons.prems obtain s' ev r' where
    "(case last_timestamp st of Some t \<Rightarrow> t \<le> nf_fill_timestamp f | None \<Rightarrow> True)"
    "apply_fill_to_cost_basis uuid5 run st f = Inr (s', ev)"
    "replay_fills uuid5 run (Some s') fs = Inr r'"
    "r = r'\<lparr>rr_realized_pnl_events :=
           (case ev of Some e \<Rightarrow> [e] | None \<Rightarrow> []) @ rr_realized_pnl_events r'\<rparr>"
    by (auto simp: replay_fills_Cons res_bind_Inr_iff split: if_splits option.splits)
  with Cons.IH assms(3) show ?case by blast
qed

lemma replay_inv:
  assumes "replay_fills uuid5 run st fills = Inr r"
    and "cb_inv_opt st" and "list_all fill_dec fills"
  shows "cb_inv_opt (rr_final_state r)"
  using assms
proof (induction rule: replay_fills_induct)
  case (Cons st f fs s' ev r)
  then have "cb_inv s'" by (auto intro: apply_fill_inv)
  with Cons show ?case by (simp add: cb_inv_opt_def)
qed simp

lemma replay_append:
  "replay_fills uuid5 run st (xs @ ys) =
     res_bind (replay_fills uuid5 run st xs) (\<lambda>a.
       res_bind (replay_fills uuid5 run (rr_final_state a) ys) (\<lambda>b.
         Inr \<lparr>rr_final_state = rr_final_state b,
              rr_realized_pnl_events = rr_realized_pnl_events a @ rr_realized_pnl_events b\<rparr>))"
proof (induction xs arbitrary: st)
  case Nil
  show ?case by (cases "replay_fills uuid5 run st ys") simp_all
next
  case (Cons f fs)
  show ?case
  proof (cases "apply_fill_to_cost_basis uuid5 run st f")
    case (Inl e)
    then show ?thesis by (simp add: replay_fills_Cons)
  next
    case (Inr p)
    obtain s' ev where p: "p = (s', ev)" by (cases p)
    show ?thesis
      unfolding append_Cons replay_fills_Cons Inr p Cons.IH
      by (cases "replay_fills uuid5 run (Some s') fs")
         (auto simp: res_bind_def split: sum.splits option.splits)
  qed
qed

section \<open>When a fill is accepted\<close>

lemma apply_sell_error_cases:
  shows "apply_sell uuid5 run st f = Inl err \<longleftrightarrow>
     (held_quantity st = 0 \<and> err = MissingCostBasisState (nf_fill_event_id f)
      \<or> held_quantity st \<noteq> 0 \<and> held_quantity st < nf_quantity f
         \<and> err = InsufficientPositionQuantity (nf_fill_event_id f))"
proof (cases st)
  case None
  then show ?thesis by (auto simp: apply_sell_def held_quantity_def)
next
  case (Some s)
  show ?thesis
  proof (cases "cb_quantity s = 0 \<or> cb_quantity s < nf_quantity f")
    case True
    with Some show ?thesis by (auto simp: apply_sell_def held_quantity_def)
  next
    case False
    then have "\<not> dsub (cb_quantity s) (nf_quantity f) < 0"
      using dsub_nonneg [of "nf_quantity f" "cb_quantity s"] by simp
    with Some False show ?thesis
      by (simp add: apply_sell_def held_quantity_def Let_def split: prod.split split del: if_split)
  qed
qed

lemma apply_fill_ok_iff:
  shows "is_ok (apply_fill_to_cost_basis uuid5 run st f) \<longleftrightarrow>
     validate_fill f = Inr () \<and> (nf_side f = SELL \<longrightarrow> nf_quantity f \<le> held_quantity st)"
proof (cases "validate_fill f")
  case (Inl e)
  then show ?thesis by (simp add: apply_fill_to_cost_basis_def)
next
  case (Inr u)
  then have q: "0 < nf_quantity f" by (simp add: validate_fill_Inr_iff)
  show ?thesis
  proof (cases "nf_side f")
    case BUY
    with Inr show ?thesis by (simp add: apply_fill_to_cost_basis_def)
  next
    case SELL
    have "is_ok (apply_sell uuid5 run st f) \<longleftrightarrow> nf_quantity f \<le> held_quantity st"
      unfolding is_ok_iff_not_Inl apply_sell_error_cases using q
      by (cases "held_quantity st = 0") auto
    with Inr SELL show ?thesis
      by (cases "apply_sell uuid5 run st f") (auto simp: apply_fill_to_cost_basis_def)
  qed
qed

section \<open>Share counts\<close>

definition signed_quantity :: "normalized_fill \<Rightarrow> rat" where
  "signed_quantity f = (if nf_side f = BUY then nf_quantity f else - nf_quantity f)"

text \<open>Whole shares below the precision are counted exactly.\<close>

lemma apply_fill_quantity:
  assumes ok: "apply_fill_to_cost_basis uuid5 run st f = Inr (s', ev)"
    and h: "held_quantity st = of_int n" "0 \<le> n" and q: "nf_quantity f = of_int k"
    and bound: "n + k < 10 ^ 28"
  shows "cb_quantity s' = held_quantity st + signed_quantity f" "0 \<le> cb_quantity s'"
proof -
  have "validate_fill f = Inr ()"
    using ok by (cases rule: apply_fill_InrE) auto
  then have k: "0 < k" using q by (simp add: validate_fill_Inr_iff)
  have exact: "dround (of_int n + of_int k) = of_int n + of_int k"
    "dround (of_int n - of_int k) = of_int n - of_int k"
    using dround_int [of "n + k"] dround_int [of "n - k"] h(2) k bound by simp_all
  from ok have "cb_quantity s' = held_quantity st + signed_quantity f \<and> 0 \<le> cb_quantity s'"
  proof (cases rule: apply_fill_InrE)
    case buy
    then show ?thesis
      using h q k exact
      by (auto simp: apply_buy_def next_state_def Let_def held_quantity_def signed_quantity_def
            dadd_def split: option.splits)
  next
    case (sell e)
    from sell(3) show ?thesis
      by (cases rule: apply_sell_InrE)
         (use sell h q exact in \<open>auto simp: held_quantity_def signed_quantity_def dsub_def\<close>)
  qed
  then show "cb_quantity s' = held_quantity st + signed_quantity f" "0 \<le> cb_quantity s'"
    by blast+
qed

definition whole_shares :: "normalized_fill \<Rightarrow> bool" where
  "whole_shares f \<longleftrightarrow> of_int \<lfloor>nf_quantity f\<rfloor> = nf_quantity f"

lemma replay_valid:
  assumes "replay_fills uuid5 run st fills = Inr r"
  shows "list_all (\<lambda>f. validate_fill f = Inr ()) fills"
  using assms
proof (induction rule: replay_fills_induct)
  case (Cons st f fs s' ev r)
  from Cons(2) have "validate_fill f = Inr ()" by (cases rule: apply_fill_InrE) auto
  with Cons show ?case by simp
qed simp

lemma valid_quantities_nonneg:
  "list_all (\<lambda>f. validate_fill f = Inr ()) fills \<Longrightarrow> 0 \<le> sum_list (map nf_quantity fills)"
  by (induction fills) (auto simp: validate_fill_Inr_iff)

lemma replay_quantity:
  assumes "replay_fills uuid5 run st fills = Inr r"
    and "list_all whole_shares fills"
    and "held_quantity st = of_int n" "0 \<le> n"
    and "held_quantity st + sum_list (map nf_quantity fills) < 10 ^ 28"
  shows "held_quantity (rr_final_state r) = held_quantity st + sum_list (map signed_quantity fills)"
  using assms
proof (induction arbitrary: n rule: replay_fills_induct)
  case (Cons st f fs s' ev r)
  from Cons.prems(1) obtain k where q: "nf_quantity f = of_int k"
    by (auto simp: whole_shares_def)
  have tail: "0 \<le> sum_list (map nf_quantity fs)"
    using replay_valid [OF Cons.hyps(3)] by (rule valid_quantities_nonneg)
  have "(of_int (n + k) :: rat) < of_int (10 ^ 28)"
    using Cons.prems(2,4) q tail by simp
  then have nk: "n + k < 10 ^ 28" by (simp only: of_int_less_iff)
  note step = apply_fill_quantity [OF Cons.hyps(2) Cons.prems(2,3) q nk]
  have sq: "signed_quantity f = of_int (if nf_side f = BUY then k else - k)"
    "signed_quantity f \<le> nf_quantity f"
    using q Cons.hyps(2) by (auto simp: signed_quantity_def validate_fill_Inr_iff elim!: apply_fill_InrE)
  have h': "held_quantity (Some s') = of_int (n + (if nf_side f = BUY then k else - k))"
    using step(1) sq(1) Cons.prems(2) by (simp add: held_quantity_def)
  have "held_quantity (rr_final_state r) =
      held_quantity (Some s') + sum_list (map signed_quantity fs)"
  proof (rule Cons.IH [OF _ h'])
    show "list_all whole_shares fs" using Cons.prems(1) by simp
    have "0 \<le> held_quantity (Some s')" using step(2) by (simp add: held_quantity_def)
    then show "0 \<le> n + (if nf_side f = BUY then k else - k)"
      unfolding h' by (simp only: of_int_0_le_iff)
    show "held_quantity (Some s') + sum_list (map nf_quantity fs) < 10 ^ 28"
      using Cons.prems(4) step(1) sq(2) by (simp add: held_quantity_def)
  qed
  with step(1) show ?case by (simp add: held_quantity_def)
qed simp

section \<open>The event ledger\<close>

lemma replay_events:
  assumes "replay_fills uuid5 run st fills = Inr r"
  shows "map pe_fill_event_id (rr_realized_pnl_events r) =
           map nf_fill_event_id (filter (\<lambda>f. nf_side f = SELL) fills)"
  using assms
proof (induction rule: replay_fills_induct)
  case (Cons st f fs s' ev r)
  from Cons(2) show ?case
  proof (cases rule: apply_fill_InrE)
    case buy
    with Cons show ?thesis by simp
  next
    case (sell e)
    from sell(3) have "pe_fill_event_id e = nf_fill_event_id f"
      by (cases rule: apply_sell_InrE)
    with sell Cons show ?thesis by simp
  qed
qed simp

lemma replay_sorted:
  assumes "replay_fills uuid5 run st fills = Inr r"
  shows "sorted (map nf_fill_timestamp fills)
         \<and> (\<forall>t. last_timestamp st = Some t \<longrightarrow> (\<forall>f \<in> set fills. t \<le> nf_fill_timestamp f))"
  using assms
proof (induction rule: replay_fills_induct)
  case (Cons st f fs s' ev r)
  have "last_timestamp (Some s') = Some (nf_fill_timestamp f)"
    using apply_fill_timestamp [OF Cons(2)] by (simp add: last_timestamp_def)
  with Cons show ?case by (auto split: option.splits)
qed simp

lemma apply_sell_net_le_gross:
  assumes "cb_inv_opt st" "validate_fill f = Inr ()" "fill_dec f"
    and "apply_sell uuid5 run st f = Inr (s', e)"
  shows "pe_realized_pnl_net e \<le> pe_realized_pnl_gross e"
proof -
  have a: "0 \<le> pe_allocated_buy_fee e" using apply_sell_inv(2) [OF assms] .
  have f: "0 \<le> nf_fee f" "0 \<le> nf_tax f" using assms(2) by (simp_all add: validate_fill_Inr_iff)
  from assms(4) show ?thesis
  proof (cases rule: apply_sell_InrE)
    case (1 s)
    let ?g = "pe_realized_pnl_gross e"
    have "dsub ?g (nf_fee f) \<le> ?g" using f 1 by (intro dsub_le) simp_all
    moreover have "dsub (dsub ?g (nf_fee f)) (nf_tax f) \<le> dsub ?g (nf_fee f)"
      using f by (intro dsub_le) simp_all
    moreover have "pe_realized_pnl_net e \<le> dsub (dsub ?g (nf_fee f)) (nf_tax f)"
      unfolding 1(11) using a by (intro dsub_le) simp_all
    ultimately show ?thesis by linarith
  qed
qed

section \<open>Refinement of an abstract ledger\<close>

text \<open>
  The contract of the engine without money: a share count and, for an open position, the fee
  sources of the buys since it was opened.
\<close>

type_synonym ledger = "int \<times> fee_tax_source list"

fun ledger_step :: "ledger \<Rightarrow> normalized_fill \<Rightarrow> ledger" where
  "ledger_step (n, srcs) f =
     (let k = \<lfloor>nf_quantity f\<rfloor>
      in if nf_side f = BUY
         then (if n = 0 then (k, [nf_fee_tax_source f]) else (n + k, srcs @ [nf_fee_tax_source f]))
         else (n - k, srcs))"

fun refines_ledger :: "cost_basis_state option \<Rightarrow> ledger \<Rightarrow> bool" where
  "refines_ledger st (n, srcs) \<longleftrightarrow>
     held_quantity st = of_int n \<and> 0 \<le> n
     \<and> (n = 0 \<or> srcs \<noteq> [] \<and> map_option cb_buy_fee_pool_provenance st = Some (provenance_spec srcs))"

lemma apply_fill_refines:
  assumes ok: "apply_fill_to_cost_basis uuid5 run st f = Inr (s', ev)"
    and ref: "refines_ledger st (n, srcs)" and q: "nf_quantity f = of_int k"
    and bound: "n + k < 10 ^ 28"
  shows "refines_ledger (Some s') (ledger_step (n, srcs) f)"
proof -
  have h: "held_quantity st = of_int n" "0 \<le> n" using ref by simp_all
  note step = apply_fill_quantity [OF ok h q bound]
  have qty: "held_quantity (Some s') = of_int (if nf_side f = BUY then n + k else n - k)"
    using step(1) h(1) q by (simp add: held_quantity_def signed_quantity_def)
  have nn: "0 \<le> (if nf_side f = BUY then n + k else n - k)"
    using step(2) qty unfolding held_quantity_def
    by (metis of_int_0_le_iff option.simps(5))
  from ok show ?thesis
  proof (cases rule: apply_fill_InrE)
    case buy
    show ?thesis
    proof (cases "n = 0")
      case True
      with h buy have "cb_buy_fee_pool_provenance s' = provenance_spec [nf_fee_tax_source f]"
        by (auto simp: apply_buy_def next_state_def Let_def held_quantity_def provenance_spec_def
              split: option.splits)
      with True buy qty nn q show ?thesis by (simp add: Let_def)
    next
      case False
      with ref obtain s where s: "st = Some s" "srcs \<noteq> []"
        "cb_buy_fee_pool_provenance s = provenance_spec srcs" by auto
      with h False buy
      have "cb_buy_fee_pool_provenance s' = provenance_spec (srcs @ [nf_fee_tax_source f])"
        using merge_provenance_spec [of srcs "nf_fee_tax_source f"]
        by (simp add: apply_buy_def next_state_def Let_def held_quantity_def)
      with False buy qty nn q show ?thesis by (simp add: Let_def)
    qed
  next
    case (sell e)
    from sell(3) obtain s where "st = Some s" "cb_quantity s \<noteq> 0"
      "cb_buy_fee_pool_provenance s' = cb_buy_fee_pool_provenance s"
      by (cases rule: apply_sell_InrE)
    with sell h ref qty nn q show ?thesis by (auto simp: Let_def held_quantity_def)
  qed
qed

lemma ledger_step_fst_le:
  assumes "nf_quantity f = of_int k" "0 < k" "0 \<le> n"
  shows "fst (ledger_step (n, srcs) f) \<le> n + k"
  using assms by (simp add: Let_def)

lemma replay_refines:
  assumes "replay_fills uuid5 run st fills = Inr r"
    and "list_all whole_shares fills"
    and "refines_ledger st a"
    and "held_quantity st + sum_list (map nf_quantity fills) < 10 ^ 28"
  shows "refines_ledger (rr_final_state r) (foldl ledger_step a fills)"
  using assms
proof (induction arbitrary: a rule: replay_fills_induct)
  case (Cons st f fs s' ev r)
  obtain n srcs where a: "a = (n, srcs)" by (cases a)
  from Cons.prems(1) obtain k where q: "nf_quantity f = of_int k"
    by (auto simp: whole_shares_def)
  have h: "held_quantity st = of_int n" "0 \<le> n" using Cons.prems(2) a by simp_all
  have val: "list_all (\<lambda>f. validate_fill f = Inr ()) fs" "validate_fill f = Inr ()"
    using replay_valid [OF Cons.hyps(3)] Cons.hyps(2) by (auto elim: apply_fill_InrE)
  have k: "0 < k" using val(2) q by (simp add: validate_fill_Inr_iff)
  have "(of_int (n + k) :: rat) < of_int (10 ^ 28)"
    using Cons.prems(3) h q valid_quantities_nonneg [OF val(1)] by simp
  then have nk: "n + k < 10 ^ 28" by (simp only: of_int_less_iff)
  note step = apply_fill_refines [OF Cons.hyps(2) Cons.prems(2) [unfolded a] q nk]
  have "held_quantity (Some s') = of_int (fst (ledger_step (n, srcs) f))"
    using step by (cases "ledger_step (n, srcs) f") simp
  also have "\<dots> \<le> (of_int (n + k) :: rat)"
    using ledger_step_fst_le [OF q k h(2)] by (simp only: of_int_le_iff)
  finally have "held_quantity (Some s') \<le> held_quantity st + nf_quantity f"
    using h q by simp
  with Cons.prems(3) have "held_quantity (Some s') + sum_list (map nf_quantity fs) < 10 ^ 28"
    by simp
  with Cons.IH [OF _ step] Cons.prems(1) a show ?case by simp
qed simp

section \<open>Properties\<close>

text \<open>A round trip used by the examples: two buys with different fee sources, a partial and a
  closing sell.\<close>

definition ex_fill :: "uuid \<Rightarrow> order_side \<Rightarrow> rat \<Rightarrow> rat \<Rightarrow> rat \<Rightarrow> fee_tax_source \<Rightarrow> timestamp \<Rightarrow> normalized_fill" where
  "ex_fill i side q p fee src t =
     \<lparr>nf_fill_event_id = i, nf_account_id = 1, nf_instrument_id = 2, nf_broker_order_id = 3,
      nf_order_request_id = 4, nf_side = side, nf_quantity = q, nf_price = p, nf_fee = fee,
      nf_tax = 0, nf_fee_tax_source = src, nf_fill_timestamp = t\<rparr>"

definition ex_fills :: "normalized_fill list" where
  "ex_fills =
     [ex_fill 10 BUY 10 70000 105 CALCULATED_FROM_POLICY 100,
      ex_fill 11 BUY 7 71000 0 ASSUMED_ZERO 100,
      ex_fill 12 SELL 5 72000 54 CALCULATED_FROM_POLICY 200,
      ex_fill 13 SELL 12 69000 124 CALCULATED_FROM_POLICY 300]"

abbreviation ex_uuid5 :: "uuid \<Rightarrow> uuid \<Rightarrow> uuid" where
  "ex_uuid5 \<equiv> \<lambda>_ i. i + 1000"

lemma ex_replay_ok: "is_ok (replay_fills ex_uuid5 9 None ex_fills)"
  by (simp add: ex_fills_def ex_fill_def replay_fills_def apply_fill_to_cost_basis_def
      validate_fill_def apply_buy_def apply_sell_def next_state_def Let_def dec_eval)

lemma ex_fills_dec: "list_all fill_dec ex_fills"
  by (simp add: ex_fills_def ex_fill_def fill_dec_def)

lemma ex_fills_whole: "list_all whole_shares ex_fills"
  by (simp add: ex_fills_def ex_fill_def whole_shares_def)

text \<open>C3. Every replay of storable fills keeps the cost-basis invariant: quantity, average cost and
  fee pool stay nonnegative and representable, and a closed position has average cost 0 and an
  empty buy-fee pool, whatever rounding happened on the way.\<close>

theorem replay_preserves_cost_basis_invariant:
  assumes "replay_fills uuid5 run st fills = Inr r"
    and "cb_inv_opt st" and "list_all fill_dec fills"
  shows "cb_inv_opt (rr_final_state r)"
  using assms by (rule replay_inv)

theorem replay_preserves_cost_basis_invariant_witness:
  "\<exists>r. replay_fills ex_uuid5 9 None ex_fills = Inr r \<and> cb_inv_opt (rr_final_state r)"
proof -
  obtain r where r: "replay_fills ex_uuid5 9 None ex_fills = Inr r"
    using ex_replay_ok by (auto simp: is_ok_iff)
  have "cb_inv_opt None" by (simp add: cb_inv_opt_def)
  with r replay_preserves_cost_basis_invariant [OF r _ ex_fills_dec] show ?thesis by blast
qed

text \<open>Applying fills as they arrive and replaying the whole history give the same state and
  the same ledger: a replay of \<open>xs @ ys\<close> is the replay of \<open>xs\<close> followed by the replay of \<open>ys\<close>
  from the state reached, including the errors and the time-order check at the seam.\<close>

theorem replay_batch_equals_incremental:
  "replay_fills uuid5 run st (xs @ ys) =
     res_bind (replay_fills uuid5 run st xs) (\<lambda>a.
       res_bind (replay_fills uuid5 run (rr_final_state a) ys) (\<lambda>b.
         Inr \<lparr>rr_final_state = rr_final_state b,
              rr_realized_pnl_events = rr_realized_pnl_events a @ rr_realized_pnl_events b\<rparr>))"
  by (rule replay_append)

text \<open>No short positions: a fill is accepted exactly when it is well formed and, for a sell,
  covered by the held quantity; the engine's defensive re-check after the subtraction is
  never the reason for a rejection.\<close>

theorem fill_accepted_iff_covered:
  "is_ok (apply_fill_to_cost_basis uuid5 run st f) \<longleftrightarrow>
     validate_fill f = Inr () \<and> (nf_side f = BUY \<or> nf_quantity f \<le> held_quantity st)"
  using apply_fill_ok_iff [of uuid5 run st f] by (cases "nf_side f") simp_all

text \<open>C17. The engine refines the abstract ledger: share counts are exact and the provenance of an
  open position summarises precisely the fee sources of the buys since it was opened (partial
  sells keep it, a full close followed by a new buy resets it).\<close>

theorem replay_refines_ledger:
  assumes "replay_fills uuid5 run st fills = Inr r"
    and "list_all whole_shares fills"
    and "refines_ledger st a"
    and "held_quantity st + sum_list (map nf_quantity fills) < 10 ^ 28"
  shows "refines_ledger (rr_final_state r) (foldl ledger_step a fills)"
  using assms by (rule replay_refines)

theorem replay_refines_ledger_witness:
  "\<exists>r. replay_fills ex_uuid5 9 None ex_fills = Inr r
       \<and> refines_ledger (rr_final_state r) (foldl ledger_step (0, []) ex_fills)"
proof -
  obtain r where r: "replay_fills ex_uuid5 9 None ex_fills = Inr r"
    using ex_replay_ok by (auto simp: is_ok_iff)
  have "refines_ledger None (0, [])" by (simp add: held_quantity_def)
  moreover have "held_quantity None + sum_list (map nf_quantity ex_fills) < 10 ^ 28"
    by (simp add: held_quantity_def ex_fills_def ex_fill_def)
  ultimately show ?thesis
    using r replay_refines_ledger [OF r ex_fills_whole] by blast
qed

text \<open>The realized ledger of a replay has exactly one event per sell fill, in order, and a
  successful replay certifies that the fills were in time order.\<close>

theorem replay_one_event_per_sell:
  assumes "replay_fills uuid5 run st fills = Inr r"
  shows "map pe_fill_event_id (rr_realized_pnl_events r) =
           map nf_fill_event_id (filter (\<lambda>f. nf_side f = SELL) fills)
         \<and> sorted (map nf_fill_timestamp fills)"
  using replay_events [OF assms] replay_sorted [OF assms] by blast

theorem replay_one_event_per_sell_witness:
  "\<exists>r. replay_fills ex_uuid5 9 None ex_fills = Inr r
       \<and> map pe_fill_event_id (rr_realized_pnl_events r) = [12, 13]"
proof -
  obtain r where r: "replay_fills ex_uuid5 9 None ex_fills = Inr r"
    using ex_replay_ok by (auto simp: is_ok_iff)
  have "map nf_fill_event_id (filter (\<lambda>f. nf_side f = SELL) ex_fills) = [12, 13]"
    by (simp add: ex_fills_def ex_fill_def)
  with r replay_one_event_per_sell [OF r] show ?thesis by simp
qed

text \<open>The buy fee charged to a sell is a nonnegative share of the pool, at most the whole
  pool, and costs never raise the result: net profit is at most gross profit.\<close>

theorem sell_fee_share_bounds:
  assumes "cb_inv s" and "validate_fill f = Inr ()" and "fill_dec f"
    and "apply_sell uuid5 run (Some s) f = Inr (s', e)"
  shows "0 \<le> pe_allocated_buy_fee e
         \<and> pe_allocated_buy_fee e \<le> cb_remaining_buy_fee_pool s
         \<and> pe_realized_pnl_net e \<le> pe_realized_pnl_gross e"
proof -
  have inv: "cb_inv_opt (Some s)" using assms(1) by (simp add: cb_inv_opt_def)
  show ?thesis
    using apply_sell_inv(2,3) [OF inv assms(2-4)] apply_sell_net_le_gross [OF inv assms(2-4)]
    by simp
qed

definition ex_state :: cost_basis_state where
  "ex_state = next_state (ex_fill 11 BUY 7 71000 0 ASSUMED_ZERO 100) 17 70400 105
     PARTIALLY_ASSUMED_ZERO"

theorem sell_fee_share_bounds_witness:
  "\<exists>s' e. apply_sell ex_uuid5 9 (Some ex_state) (ex_fill 12 SELL 5 72000 54 REPORTED 200) = Inr (s', e)
     \<and> 0 \<le> pe_allocated_buy_fee e \<and> pe_allocated_buy_fee e \<le> 105"
proof -
  let ?f = "ex_fill 12 SELL 5 72000 54 REPORTED 200"
  have "is_ok (apply_sell ex_uuid5 9 (Some ex_state) ?f)"
    by (simp add: ex_state_def ex_fill_def apply_sell_def next_state_def Let_def dec_eval)
  then obtain s' e where ok: "apply_sell ex_uuid5 9 (Some ex_state) ?f = Inr (s', e)"
    by (auto simp: is_ok_iff)
  have "cb_inv ex_state" and "validate_fill ?f = Inr ()" and "fill_dec ?f"
    by (simp_all add: ex_state_def ex_fill_def cb_inv_def next_state_def validate_fill_def
        fill_dec_def)
  from sell_fee_share_bounds [OF this ok] ok show ?thesis
    by (simp add: ex_state_def next_state_def)
qed

end
