(* ===== verification/Ledger_Repository.thy ===== *)
theory Ledger_Repository
  imports Cost_Basis Order_Repository "HOL-Library.Product_Lexorder"
begin

text \<open>
  The persistent side of realized profit and loss: fill events, cost basis states, realized
  events, daily aggregates, computation runs, the recompute queue and the two overlays
  (\<^verbatim>\<open>domain/entities.py\<close> and the in-memory repositories of \<^verbatim>\<open>repositories/memory.py\<close>).  All of them
  are fields of one record beside the order repositories; a dictionary is an association list
  updated in place.

  The interface \<open>realized_event_store\<close> collects what the ledger services rely on: one event per
  fill, found by the fill, and an overwriting variant for recomputation.
\<close>

section \<open>Entities\<close>

record fill_event =
  fe_fill_event_id :: uuid
  fe_broker_order_id :: uuid
  fe_fill_timestamp :: timestamp
  fe_fill_price :: rat
  fe_fill_quantity :: rat
  fe_source_channel :: string
  fe_broker_fill_id :: "string option"
  fe_fill_fee :: "rat option"
  fe_fill_tax :: "rat option"
  fe_fee_tax_source :: "string option"
  fe_raw_payload_uri :: "string option"
  fe_created_at :: "timestamp option"

record buy_fee_overlay =
  bv_overlay_id :: uuid
  bv_fill_event_id :: uuid
  bv_estimated_fee :: rat
  bv_fee_tax_source :: string
  bv_basis_config_version_id :: uuid
  bv_reason :: string
  bv_created_by :: string
  bv_created_at :: "timestamp option"

record sell_fee_tax_overlay =
  sv_overlay_id :: uuid
  sv_fill_event_id :: uuid
  sv_estimated_fee :: rat
  sv_estimated_tax :: rat
  sv_fee_tax_source :: string
  sv_basis_config_version_id :: uuid
  sv_reason :: string
  sv_created_by :: string
  sv_created_at :: "timestamp option"

datatype computation_run_type = REALTIME_INCREMENTAL | BACKFILL_REPLAY

text \<open>The exceptions that end a run: those of the engine, a broken lineage, a refused write and a
  failed query.\<close>

datatype ledger_error =
    Engine_Error pnl_error
  | Unresolved_Fill_Lineage uuid
  | Event_Already_Exists uuid
  | Order_List_Failed order_error

text \<open>\<open>summary_json\<close>: a reason, or an error with the phase it came from.\<close>

datatype run_summary = Summary_Reason string | Summary_Error "string option" ledger_error

record computation_run =
  cr_computation_run_id :: uuid
  cr_run_type :: computation_run_type
  cr_status :: string
  cr_fills_applied :: int
  cr_fills_skipped_duplicate :: int
  cr_fills_replayed :: int
  cr_anomalies_detected :: int
  cr_started_at :: timestamp
  cr_account_id :: "uuid option"
  cr_summary_json :: "run_summary option"
  cr_completed_at :: "timestamp option"
  cr_created_at :: "timestamp option"

record daily_aggregate =
  da_account_id :: uuid
  da_instrument_id :: uuid
  da_trade_date :: int
  da_realized_pnl_net_sum :: rat
  da_sell_event_count :: int
  da_computation_run_id :: uuid
  da_buy_amount_sum :: rat
  da_sell_amount_sum :: rat
  da_fee_tax_sum :: rat
  da_updated_at :: "timestamp option"

record recompute_item =
  rq_recompute_queue_id :: uuid
  rq_account_id :: uuid
  rq_instrument_id :: uuid
  rq_reason_code :: string
  rq_triggering_fill_event_id :: "uuid option"
  rq_requested_at :: "timestamp option"
  rq_resolved_at :: "timestamp option"
  rq_resolved_by_computation_run_id :: "uuid option"

fun fee_tax_source_value :: "fee_tax_source \<Rightarrow> string" where
  "fee_tax_source_value REPORTED = ''reported''"
| "fee_tax_source_value ASSUMED_ZERO = ''assumed_zero''"
| "fee_tax_source_value CALCULATED_FROM_POLICY = ''calculated_from_policy''"
| "fee_tax_source_value POLICY_NOT_APPLICABLE = ''policy_not_applicable''"
| "fee_tax_source_value HISTORICAL_POLICY_ESTIMATE = ''historical_policy_estimate''"

text \<open>\<open>RealizedPnlFeeTaxSource(text)\<close>, which raises on any other text.\<close>

definition fee_tax_source_of :: "string \<Rightarrow> fee_tax_source option" where
  "fee_tax_source_of t =
     find_first (\<lambda>s. fee_tax_source_value s = t)
       [REPORTED, ASSUMED_ZERO, CALCULATED_FROM_POLICY, POLICY_NOT_APPLICABLE,
        HISTORICAL_POLICY_ESTIMATE]"

lemma fee_tax_source_of_value [simp]: "fee_tax_source_of (fee_tax_source_value s) = Some s"
  by (cases s) (simp_all add: fee_tax_source_of_def)

section \<open>The repositories\<close>

record ledger =
  lg_repos :: repos
  lg_fill_events :: "(uuid \<times> fill_event) list"
  lg_fill_events_by_fill_id :: "(string \<times> fill_event) list"
  lg_states :: "((uuid \<times> uuid) \<times> cost_basis_state) list"
  lg_events :: "(uuid \<times> realized_pnl_event) list"
  lg_event_by_fill :: "(uuid \<times> uuid) list"
  lg_aggregates :: "((uuid \<times> uuid \<times> int) \<times> daily_aggregate) list"
  lg_runs :: "(uuid \<times> computation_run) list"
  lg_queue :: "(uuid \<times> recompute_item) list"
  lg_buy_overlays :: "(uuid \<times> buy_fee_overlay) list"
  lg_buy_overlay_by_fill :: "(uuid \<times> uuid) list"
  lg_sell_overlays :: "(uuid \<times> sell_fee_tax_overlay) list"
  lg_sell_overlay_by_fill :: "(uuid \<times> uuid) list"

subsection \<open>Broker orders and fill events\<close>

definition broker_order_get :: "repos \<Rightarrow> uuid \<Rightarrow> broker_order option" where
  "broker_order_get w broker_order_id = map_of (rp_broker_orders w) broker_order_id"

definition broker_orders_of_request :: "repos \<Rightarrow> uuid \<Rightarrow> broker_order list" where
  "broker_orders_of_request w order_request_id =
     filter (\<lambda>item. bo_order_request_id item = order_request_id) (map snd (rp_broker_orders w))"

definition fill_event_add :: "fill_event \<Rightarrow> ledger \<Rightarrow> ledger" where
  "fill_event_add f lg =
     (let lg = lg\<lparr>lg_fill_events := AList.update (fe_fill_event_id f) f (lg_fill_events lg)\<rparr>
      in case fe_broker_fill_id f of
           None \<Rightarrow> lg
         | Some fill_id \<Rightarrow>
             if fill_id = [] then lg
             else lg\<lparr>lg_fill_events_by_fill_id :=
                       AList.update fill_id f (lg_fill_events_by_fill_id lg)\<rparr>)"

definition fills_of_broker_order :: "ledger \<Rightarrow> uuid \<Rightarrow> fill_event list" where
  "fills_of_broker_order lg broker_order_id =
     sort_key fe_fill_timestamp
       (filter (\<lambda>item. fe_broker_order_id item = broker_order_id) (map snd (lg_fill_events lg)))"

definition fill_by_broker_fill_id :: "ledger \<Rightarrow> string \<Rightarrow> fill_event option" where
  "fill_by_broker_fill_id lg broker_fill_id = map_of (lg_fill_events_by_fill_id lg) broker_fill_id"

subsection \<open>Cost basis states\<close>

definition state_get :: "ledger \<Rightarrow> uuid \<Rightarrow> uuid \<Rightarrow> cost_basis_state option" where
  "state_get lg account_id instrument_id = map_of (lg_states lg) (account_id, instrument_id)"

definition state_upsert :: "cost_basis_state \<Rightarrow> ledger \<Rightarrow> ledger" where
  "state_upsert s lg =
     lg\<lparr>lg_states := AList.update (cb_account_id s, cb_instrument_id s) s (lg_states lg)\<rparr>"

text \<open>Sorted by \<open>updated_at\<close>, a missing one counting as the earliest time.\<close>

definition earliest_key :: "timestamp option \<Rightarrow> int \<times> int" where
  "earliest_key t = (case t of None \<Rightarrow> (0, 0) | Some x \<Rightarrow> (1, x))"

definition list_recompute_required :: "ledger \<Rightarrow> nat \<Rightarrow> cost_basis_state list" where
  "list_recompute_required lg limit =
     take limit (sort_key (\<lambda>item. earliest_key (cb_updated_at item))
       (filter cb_recompute_required (map snd (lg_states lg))))"

subsection \<open>Realized events\<close>

definition event_of_fill :: "ledger \<Rightarrow> uuid \<Rightarrow> realized_pnl_event option" where
  "event_of_fill lg fill_event_id =
     (case map_of (lg_event_by_fill lg) fill_event_id of
        None \<Rightarrow> None
      | Some event_id \<Rightarrow> map_of (lg_events lg) event_id)"

definition event_store :: "realized_pnl_event \<Rightarrow> ledger \<Rightarrow> ledger" where
  "event_store e lg =
     lg\<lparr>lg_events := AList.update (pe_realized_pnl_event_id e) e (lg_events lg),
        lg_event_by_fill :=
          AList.update (pe_fill_event_id e) (pe_realized_pnl_event_id e) (lg_event_by_fill lg)\<rparr>"

definition event_add :: "realized_pnl_event \<Rightarrow> ledger \<Rightarrow> ledger_error + ledger" where
  "event_add e lg =
     (if map_of (lg_event_by_fill lg) (pe_fill_event_id e) \<noteq> None
      then Inl (Event_Already_Exists (pe_fill_event_id e))
      else Inr (event_store e lg))"

text \<open>The fields an overwrite takes from the new event; identity and links stay.\<close>

definition event_overwrite :: "realized_pnl_event \<Rightarrow> realized_pnl_event \<Rightarrow> realized_pnl_event" where
  "event_overwrite existing e =
     existing\<lparr>pe_sell_quantity := pe_sell_quantity e, pe_sell_price := pe_sell_price e,
       pe_avg_cost_basis_before := pe_avg_cost_basis_before e, pe_fee := pe_fee e, pe_tax := pe_tax e,
       pe_fee_tax_source := pe_fee_tax_source e, pe_realized_pnl_gross := pe_realized_pnl_gross e,
       pe_realized_pnl_net := pe_realized_pnl_net e,
       pe_position_quantity_after := pe_position_quantity_after e,
       pe_computation_run_id := pe_computation_run_id e,
       pe_allocated_buy_fee := pe_allocated_buy_fee e,
       pe_buy_fee_allocation_source := pe_buy_fee_allocation_source e\<rparr>"

text \<open>An index entry without its event would raise; the index is only written together with the
  event, so the lookup succeeds.\<close>

definition event_upsert :: "realized_pnl_event \<Rightarrow> ledger \<Rightarrow> ledger" where
  "event_upsert e lg =
     (case map_of (lg_event_by_fill lg) (pe_fill_event_id e) of
        Some existing_id \<Rightarrow>
          (case map_of (lg_events lg) existing_id of
             Some existing \<Rightarrow>
               lg\<lparr>lg_events := AList.update existing_id (event_overwrite existing e) (lg_events lg)\<rparr>
           | None \<Rightarrow> lg)
      | None \<Rightarrow> event_store e lg)"

subsection \<open>Daily aggregates, runs, queue and overlays\<close>

definition aggregate_upsert :: "daily_aggregate \<Rightarrow> ledger \<Rightarrow> ledger" where
  "aggregate_upsert a lg =
     lg\<lparr>lg_aggregates :=
          AList.update (da_account_id a, da_instrument_id a, da_trade_date a) a (lg_aggregates lg)\<rparr>"

definition aggregates_between ::
  "ledger \<Rightarrow> uuid \<Rightarrow> uuid \<Rightarrow> int option \<Rightarrow> int option \<Rightarrow> daily_aggregate list" where
  "aggregates_between lg account_id instrument_id start_date end_date =
     sort_key da_trade_date
       (filter (\<lambda>item. (case end_date of None \<Rightarrow> True | Some d \<Rightarrow> da_trade_date item \<le> d))
         (filter (\<lambda>item. (case start_date of None \<Rightarrow> True | Some d \<Rightarrow> d \<le> da_trade_date item))
           (filter (\<lambda>item. da_account_id item = account_id \<and> da_instrument_id item = instrument_id)
             (map snd (lg_aggregates lg)))))"

definition run_put :: "computation_run \<Rightarrow> ledger \<Rightarrow> ledger" where
  "run_put run lg = lg\<lparr>lg_runs := AList.update (cr_computation_run_id run) run (lg_runs lg)\<rparr>"

definition queue_add :: "recompute_item \<Rightarrow> ledger \<Rightarrow> ledger" where
  "queue_add item lg = lg\<lparr>lg_queue := AList.update (rq_recompute_queue_id item) item (lg_queue lg)\<rparr>"

definition list_pending :: "ledger \<Rightarrow> nat \<Rightarrow> recompute_item list" where
  "list_pending lg limit =
     take limit (sort_key (\<lambda>item. earliest_key (rq_requested_at item))
       (filter (\<lambda>item. rq_resolved_at item = None) (map snd (lg_queue lg))))"

definition queue_mark_resolved :: "timestamp \<Rightarrow> uuid \<Rightarrow> uuid \<Rightarrow> ledger \<Rightarrow> ledger" where
  "queue_mark_resolved now recompute_queue_id run_id lg =
     (case map_of (lg_queue lg) recompute_queue_id of
        None \<Rightarrow> lg
      | Some existing \<Rightarrow>
          lg\<lparr>lg_queue := AList.update recompute_queue_id
               (existing\<lparr>rq_resolved_at := Some now,
                         rq_resolved_by_computation_run_id := Some run_id\<rparr>) (lg_queue lg)\<rparr>)"

definition buy_overlay_of_fill :: "ledger \<Rightarrow> uuid \<Rightarrow> buy_fee_overlay option" where
  "buy_overlay_of_fill lg fill_event_id =
     Option.bind (map_of (lg_buy_overlay_by_fill lg) fill_event_id) (map_of (lg_buy_overlays lg))"

definition sell_overlay_of_fill :: "ledger \<Rightarrow> uuid \<Rightarrow> sell_fee_tax_overlay option" where
  "sell_overlay_of_fill lg fill_event_id =
     Option.bind (map_of (lg_sell_overlay_by_fill lg) fill_event_id) (map_of (lg_sell_overlays lg))"

section \<open>The interface of the event store\<close>

text \<open>
  The computed fields of an event, which is all that an overwrite changes besides the run.
\<close>

definition event_values :: "realized_pnl_event \<Rightarrow> rat list \<times> fee_tax_source \<times> buy_fee_allocation_source" where
  "event_values e =
     ([pe_sell_quantity e, pe_sell_price e, pe_avg_cost_basis_before e, pe_fee e, pe_tax e,
       pe_realized_pnl_gross e, pe_realized_pnl_net e, pe_position_quantity_after e,
       pe_allocated_buy_fee e],
      pe_fee_tax_source e, pe_buy_fee_allocation_source e)"

locale realized_event_store =
  fixes find :: "'s \<Rightarrow> uuid \<Rightarrow> realized_pnl_event option"
    and add :: "realized_pnl_event \<Rightarrow> 's \<Rightarrow> 'e + 's"
    and upsert :: "realized_pnl_event \<Rightarrow> 's \<Rightarrow> 's"
    and consistent :: "'s \<Rightarrow> bool"
    and event_id :: "uuid \<Rightarrow> uuid"
  assumes add_ok_iff: "consistent s \<Longrightarrow> is_ok (add e s) \<longleftrightarrow> find s (pe_fill_event_id e) = None"
    and find_add: "consistent s \<Longrightarrow> inj event_id \<Longrightarrow>
          pe_realized_pnl_event_id e = event_id (pe_fill_event_id e) \<Longrightarrow> add e s = Inr s' \<Longrightarrow>
          find s' f = (if f = pe_fill_event_id e then Some e else find s f)"
    and find_upsert_same: "consistent s \<Longrightarrow> inj event_id \<Longrightarrow>
          pe_realized_pnl_event_id e = event_id (pe_fill_event_id e) \<Longrightarrow>
          \<exists>e'. find (upsert e s) (pe_fill_event_id e) = Some e' \<and> event_values e' = event_values e
               \<and> pe_computation_run_id e' = pe_computation_run_id e"
    and find_upsert_other: "consistent s \<Longrightarrow> inj event_id \<Longrightarrow>
          pe_realized_pnl_event_id e = event_id (pe_fill_event_id e) \<Longrightarrow>
          f \<noteq> pe_fill_event_id e \<Longrightarrow> find (upsert e s) f = find s f"
    and consistent_add: "consistent s \<Longrightarrow> inj event_id \<Longrightarrow>
          pe_realized_pnl_event_id e = event_id (pe_fill_event_id e) \<Longrightarrow> add e s = Inr s' \<Longrightarrow>
          consistent s'"
    and consistent_upsert: "consistent s \<Longrightarrow> inj event_id \<Longrightarrow>
          pe_realized_pnl_event_id e = event_id (pe_fill_event_id e) \<Longrightarrow> consistent (upsert e s)"
begin

text \<open>Overwriting a list of events of distinct fills: every one of them is found afterwards, all
  other fills keep what they had.\<close>

lemma fold_upsert_consistent:
  assumes "consistent s" "inj event_id"
    and "\<forall>e \<in> set es. pe_realized_pnl_event_id e = event_id (pe_fill_event_id e)"
  shows "consistent (fold upsert es s)"
  using assms by (induction es arbitrary: s) (auto intro: consistent_upsert)

lemma fold_upsert_other:
  assumes "consistent s" "inj event_id"
    and "\<forall>e \<in> set es. pe_realized_pnl_event_id e = event_id (pe_fill_event_id e)"
    and "f \<notin> pe_fill_event_id ` set es"
  shows "find (fold upsert es s) f = find s f"
  using assms
proof (induction es arbitrary: s)
  case (Cons e es)
  then show ?case
    using consistent_upsert [of s e] find_upsert_other [of s e f] by auto
qed simp

lemma fold_upsert_found:
  assumes "consistent s" "inj event_id"
    and "\<forall>e \<in> set es. pe_realized_pnl_event_id e = event_id (pe_fill_event_id e)"
    and "distinct (map pe_fill_event_id es)" "e \<in> set es"
  shows "\<exists>e'. find (fold upsert es s) (pe_fill_event_id e) = Some e' \<and> event_values e' = event_values e
    \<and> pe_computation_run_id e' = pe_computation_run_id e"
  using assms
proof (induction es arbitrary: s)
  case (Cons x xs)
  have s': "consistent (upsert x s)" using Cons.prems by (auto intro: consistent_upsert)
  show ?case
  proof (cases "e = x")
    case True
    then have "find (fold upsert xs (upsert x s)) (pe_fill_event_id e)
        = find (upsert x s) (pe_fill_event_id e)"
      using Cons.prems s' by (intro fold_upsert_other) auto
    with True show ?thesis
      using find_upsert_same [OF Cons.prems(1,2), of x] Cons.prems(3) by simp
  next
    case False
    then show ?thesis using Cons.IH [OF s'] Cons.prems by simp
  qed
qed simp

end

text \<open>The index and the events fit together.\<close>

definition events_consistent :: "(uuid \<Rightarrow> uuid) \<Rightarrow> ledger \<Rightarrow> bool" where
  "events_consistent event_id lg \<longleftrightarrow>
     (\<forall>f i. map_of (lg_event_by_fill lg) f = Some i \<longrightarrow>
        i = event_id f
        \<and> (\<exists>e. map_of (lg_events lg) i = Some e \<and> pe_fill_event_id e = f \<and> pe_realized_pnl_event_id e = i))
     \<and> (\<forall>i e. map_of (lg_events lg) i = Some e \<longrightarrow>
          map_of (lg_event_by_fill lg) (pe_fill_event_id e) = Some i)"

lemma events_consistentD:
  assumes "events_consistent event_id lg" "map_of (lg_event_by_fill lg) f = Some i"
  obtains e where "i = event_id f" "map_of (lg_events lg) i = Some e" "pe_fill_event_id e = f"
    "pe_realized_pnl_event_id e = i"
  using assms by (auto simp: events_consistent_def)

lemma event_of_fill_iff:
  "events_consistent event_id lg \<Longrightarrow>
     event_of_fill lg f = None \<longleftrightarrow> map_of (lg_event_by_fill lg) f = None"
  by (auto simp: event_of_fill_def events_consistent_def split: option.splits)

lemma event_values_overwrite [simp]:
  "event_values (event_overwrite x e) = event_values e"
  "pe_computation_run_id (event_overwrite x e) = pe_computation_run_id e"
  "pe_fill_event_id (event_overwrite x e) = pe_fill_event_id x"
  "pe_realized_pnl_event_id (event_overwrite x e) = pe_realized_pnl_event_id x"
  by (simp_all add: event_values_def event_overwrite_def)

lemma events_consistent_store:
  assumes "events_consistent event_id lg" "inj event_id"
    "pe_realized_pnl_event_id e = event_id (pe_fill_event_id e)"
    "map_of (lg_event_by_fill lg) (pe_fill_event_id e) = None"
  shows "events_consistent event_id (event_store e lg)"
  using assms unfolding events_consistent_def event_store_def
  by (auto simp: update_conv' dest: injD) (metis option.distinct(1))

lemma event_index_injective:
  "events_consistent event_id lg \<Longrightarrow> inj event_id \<Longrightarrow>
     map_of (lg_event_by_fill lg) f = Some (event_id g) \<Longrightarrow> f = g"
  by (auto simp: events_consistent_def dest: injD)

interpretation re: realized_event_store event_of_fill event_add event_upsert
  "events_consistent event_id" event_id for event_id
proof (unfold_locales, goal_cases)
  case (1 s e)
  then show ?case by (simp add: event_add_def event_of_fill_iff)
next
  case (2 s e s' f)
  then show ?case
    using event_index_injective [OF 2(1,2), of f "pe_fill_event_id e"]
    by (auto simp: event_add_def event_store_def event_of_fill_def update_conv'
        split: if_splits option.splits)
next
  case (3 s e)
  show ?case
  proof (cases "map_of (lg_event_by_fill s) (pe_fill_event_id e)")
    case None
    then show ?thesis
      by (simp add: event_upsert_def event_store_def event_of_fill_def update_conv')
  next
    case (Some i)
    then obtain x where "map_of (lg_events s) i = Some x"
      using 3(1) by (elim events_consistentD)
    with Some show ?thesis
      by (simp add: event_upsert_def event_of_fill_def update_conv')
  qed
next
  case (4 s e f)
  show ?case
  proof (cases "map_of (lg_event_by_fill s) (pe_fill_event_id e)")
    case None
    with 4 show ?thesis
      using event_index_injective [OF 4(1,2), of f "pe_fill_event_id e"]
      by (auto simp: event_upsert_def event_store_def event_of_fill_def update_conv'
          split: option.splits)
  next
    case (Some i)
    then obtain x where x: "map_of (lg_events s) i = Some x" "i = event_id (pe_fill_event_id e)"
      using 4(1) by (elim events_consistentD)
    have "map_of (lg_event_by_fill s) f \<noteq> Some i"
      using 4(4) x(2) event_index_injective [OF 4(1,2)] by blast
    with Some x show ?thesis
      by (auto simp: event_upsert_def event_of_fill_def update_conv' split: option.splits)
  qed
next
  case (5 s e s')
  then show ?case
    by (auto simp: event_add_def split: if_splits intro: events_consistent_store)
next
  case (6 s e)
  show ?case
  proof (cases "map_of (lg_event_by_fill s) (pe_fill_event_id e)")
    case None
    with 6 show ?thesis by (simp add: event_upsert_def events_consistent_store)
  next
    case (Some i)
    then obtain x where x: "map_of (lg_events s) i = Some x" "pe_fill_event_id x = pe_fill_event_id e"
        "pe_realized_pnl_event_id x = i"
      using 6(1) by (elim events_consistentD)
    with Some 6(1) show ?thesis
      unfolding events_consistent_def event_upsert_def
      by (auto simp: update_conv') (metis option.inject)
  qed
qed

end
