(* ===== verification/Ledger.thy ===== *)
theory Ledger
  imports Ledger_Repository
begin

text \<open>
  Booking a fill into the ledger (\<^verbatim>\<open>services/realized_pnl_ledger_service.py\<close>): the fill is joined
  with its order, normalized, checked for duplicates and order in time, applied by the engine of
  \<^verbatim>\<open>Cost_Basis\<close>, and state, realized event and daily aggregate are written; every other outcome is
  queued for recomputation.

  Shown: what each outcome leaves behind, that booking fills one by one is replaying them, that
  a sale is booked once, and that the mark for recomputation does not survive the next fill.
\<close>

section \<open>Normalization\<close>

definition or_zero :: "rat option \<Rightarrow> rat" where
  "or_zero x = (case x of None \<Rightarrow> 0 | Some v \<Rightarrow> v)"

definition normalize_fee_tax ::
  "rat option \<Rightarrow> rat option \<Rightarrow> fee_tax_source option \<Rightarrow> rat \<times> rat \<times> fee_tax_source" where
  "normalize_fee_tax fill_fee fill_tax explicit_source =
     (case explicit_source of
        Some source \<Rightarrow> (or_zero fill_fee, or_zero fill_tax, source)
      | None \<Rightarrow>
          if fill_fee = None \<and> fill_tax = None then (0, 0, ASSUMED_ZERO)
          else (or_zero fill_fee, or_zero fill_tax, REPORTED))"

definition build_normalized_fill ::
  "uuid \<Rightarrow> uuid \<Rightarrow> uuid \<Rightarrow> order_side \<Rightarrow> fill_event \<Rightarrow> normalized_fill" where
  "build_normalized_fill account_id instrument_id order_request_id side fill_event =
     (let explicit_source =
            (case fe_fee_tax_source fill_event of
               None \<Rightarrow> None
             | Some t \<Rightarrow> fee_tax_source_of t);
          (fee, tax, source) =
            normalize_fee_tax (fe_fill_fee fill_event) (fe_fill_tax fill_event) explicit_source
      in \<lparr>nf_fill_event_id = fe_fill_event_id fill_event,
          nf_account_id = account_id,
          nf_instrument_id = instrument_id,
          nf_broker_order_id = fe_broker_order_id fill_event,
          nf_order_request_id = order_request_id,
          nf_side = side,
          nf_quantity = fe_fill_quantity fill_event,
          nf_price = fe_fill_price fill_event,
          nf_fee = fee,
          nf_tax = tax,
          nf_fee_tax_source = source,
          nf_fill_timestamp = fe_fill_timestamp fill_event\<rparr>)"

text \<open>The day in Korea (UTC+9), counted from the epoch.\<close>

definition to_kst_trade_date :: "timestamp \<Rightarrow> int" where
  "to_kst_trade_date t = (t + 9 * 3600 * 1000000) div (86400 * 1000000)"

section \<open>The service\<close>

record fill_lineage =
  fl_account_id :: uuid
  fl_instrument_id :: uuid
  fl_order_request_id :: uuid
  fl_side :: order_side

definition resolve_lineage :: "ledger \<Rightarrow> fill_event \<Rightarrow> ledger_error + fill_lineage" where
  "resolve_lineage lg fill_event =
     (case broker_order_get (lg_repos lg) (fe_broker_order_id fill_event) of
        None \<Rightarrow> Inl (Unresolved_Fill_Lineage (fe_fill_event_id fill_event))
      | Some broker_order \<Rightarrow>
          (case order_get (lg_repos lg) (bo_order_request_id broker_order) of
             None \<Rightarrow> Inl (Unresolved_Fill_Lineage (fe_fill_event_id fill_event))
           | Some order_request \<Rightarrow>
               Inr \<lparr>fl_account_id = or_account_id order_request,
                    fl_instrument_id = or_instrument_id order_request,
                    fl_order_request_id = or_order_request_id order_request,
                    fl_side = or_side order_request\<rparr>))"

definition check_duplicate ::
  "ledger \<Rightarrow> cost_basis_state option \<Rightarrow> fill_event \<Rightarrow> normalized_fill
   \<Rightarrow> bool \<times> realized_pnl_event option" where
  "check_duplicate lg state fill_event fill =
     (if nf_side fill = SELL
      then (let existing_event = event_of_fill lg (fe_fill_event_id fill_event)
            in (existing_event \<noteq> None, existing_event))
      else case state of
             None \<Rightarrow> (False, None)
           | Some s \<Rightarrow> (cb_last_applied_fill_event_id s = Some (fe_fill_event_id fill_event), None))"

definition update_daily_aggregate :: "realized_pnl_event \<Rightarrow> ledger \<Rightarrow> ledger" where
  "update_daily_aggregate event lg =
     (let trade_date = to_kst_trade_date (pe_fill_timestamp event);
          existing =
            (case aggregates_between lg (pe_account_id event) (pe_instrument_id event)
                    (Some trade_date) (Some trade_date) of
               [] \<Rightarrow> None
             | a # _ \<Rightarrow> Some a);
          old = (\<lambda>f. case existing of None \<Rightarrow> 0 | Some a \<Rightarrow> f a);
          aggregate =
            \<lparr>da_account_id = pe_account_id event,
             da_instrument_id = pe_instrument_id event,
             da_trade_date = trade_date,
             da_realized_pnl_net_sum = dadd (old da_realized_pnl_net_sum) (pe_realized_pnl_net event),
             da_sell_event_count = (case existing of None \<Rightarrow> 0 | Some a \<Rightarrow> da_sell_event_count a) + 1,
             da_computation_run_id = pe_computation_run_id event,
             da_buy_amount_sum =
               dadd (old da_buy_amount_sum)
                 (dmul (pe_sell_quantity event) (pe_avg_cost_basis_before event)),
             da_sell_amount_sum =
               dadd (old da_sell_amount_sum) (dmul (pe_sell_quantity event) (pe_sell_price event)),
             da_fee_tax_sum = dadd (dadd (old da_fee_tax_sum) (pe_fee event)) (pe_tax event),
             da_updated_at = None\<rparr>
      in aggregate_upsert aggregate lg)"

definition recompute_request :: "uuid \<Rightarrow> uuid \<Rightarrow> uuid \<Rightarrow> string \<Rightarrow> uuid \<Rightarrow> recompute_item" where
  "recompute_request queue_id account_id instrument_id reason_code fill_event_id =
     \<lparr>rq_recompute_queue_id = queue_id,
      rq_account_id = account_id,
      rq_instrument_id = instrument_id,
      rq_reason_code = reason_code,
      rq_triggering_fill_event_id = Some fill_event_id,
      rq_requested_at = None,
      rq_resolved_at = None,
      rq_resolved_by_computation_run_id = None\<rparr>"

definition unopened_state :: "uuid \<Rightarrow> uuid \<Rightarrow> cost_basis_state" where
  "unopened_state account_id instrument_id =
     \<lparr>cb_account_id = account_id, cb_instrument_id = instrument_id, cb_quantity = 0,
      cb_average_cost = 0, cb_last_applied_fill_event_id = None,
      cb_last_applied_fill_timestamp = None, cb_recompute_required = False,
      cb_recompute_reason = None, cb_updated_at = None, cb_remaining_buy_fee_pool = 0,
      cb_buy_fee_pool_provenance = FULLY_ASSUMED_ZERO\<rparr>"

definition mark_recompute_required ::
  "uuid \<Rightarrow> uuid \<Rightarrow> cost_basis_state option \<Rightarrow> string \<Rightarrow> ledger \<Rightarrow> ledger" where
  "mark_recompute_required account_id instrument_id existing_state reason lg =
     (let base = (case existing_state of None \<Rightarrow> unopened_state account_id instrument_id | Some s \<Rightarrow> s)
      in state_upsert (base\<lparr>cb_recompute_required := True, cb_recompute_reason := Some reason\<rparr>) lg)"

definition new_run :: "uuid \<Rightarrow> computation_run_type \<Rightarrow> uuid option \<Rightarrow> timestamp \<Rightarrow> computation_run" where
  "new_run run_id run_type account_id now =
     \<lparr>cr_computation_run_id = run_id, cr_run_type = run_type, cr_status = ''running'',
      cr_fills_applied = 0, cr_fills_skipped_duplicate = 0, cr_fills_replayed = 0,
      cr_anomalies_detected = 0, cr_started_at = now, cr_account_id = account_id,
      cr_summary_json = None, cr_completed_at = None, cr_created_at = None\<rparr>"

definition finalized ::
  "timestamp \<Rightarrow> string \<Rightarrow> int \<Rightarrow> int \<Rightarrow> int \<Rightarrow> int \<Rightarrow> run_summary option \<Rightarrow> computation_run
   \<Rightarrow> computation_run" where
  "finalized now status applied skipped replayed anomalies summary run =
     run\<lparr>cr_status := status,
         cr_fills_applied := cr_fills_applied run + applied,
         cr_fills_skipped_duplicate := cr_fills_skipped_duplicate run + skipped,
         cr_fills_replayed := cr_fills_replayed run + replayed,
         cr_anomalies_detected := cr_anomalies_detected run + anomalies,
         cr_summary_json := (case summary of Some s \<Rightarrow> Some s | None \<Rightarrow> cr_summary_json run),
         cr_completed_at := Some now\<rparr>"

record apply_fill_result =
  ar_status :: string
  ar_computation_run :: computation_run
  ar_state :: "cost_basis_state option"
  ar_realized_pnl_event :: "realized_pnl_event option"
  ar_recompute_queue_item :: "recompute_item option"

text \<open>The class names that reach \<open>recompute_reason\<close>, cut to 64 characters.\<close>

fun pnl_error_class :: "pnl_error \<Rightarrow> string" where
  "pnl_error_class (InvalidFillQuantity _) = ''InvalidFillQuantityError''"
| "pnl_error_class (InvalidFillPrice _) = ''InvalidFillPriceError''"
| "pnl_error_class (InvalidFeeOrTax _) = ''InvalidFeeOrTaxError''"
| "pnl_error_class (FeeTaxSourceMismatch _) = ''FeeTaxSourceMismatchError''"
| "pnl_error_class (MissingCostBasisState _) = ''MissingCostBasisStateError''"
| "pnl_error_class (InsufficientPositionQuantity _) = ''InsufficientPositionQuantityError''"
| "pnl_error_class (FillsNotSorted _) = ''FillsNotSortedError''"

text \<open>The three branches that queue a recomputation share everything but the reasons.\<close>

definition needs_recompute ::
  "env \<Rightarrow> fill_lineage \<Rightarrow> fill_event \<Rightarrow> cost_basis_state option \<Rightarrow> string \<Rightarrow> string \<Rightarrow> run_summary
   \<Rightarrow> computation_run \<Rightarrow> ledger \<Rightarrow> (ledger_error + apply_fill_result) \<times> ledger" where
  "needs_recompute ev lineage fill_event state reason_code reason summary run lg =
     (let item = recompute_request (uuid_at ev ''queue'') (fl_account_id lineage)
                   (fl_instrument_id lineage) reason_code (fe_fill_event_id fill_event);
          lg = queue_add item lg;
          lg = mark_recompute_required (fl_account_id lineage) (fl_instrument_id lineage) state
                 reason lg;
          run = finalized (now_at ev ''completed'') ''failed'' 0 0 0 1 (Some summary) run
      in (Inr \<lparr>ar_status = ''recompute_required'', ar_computation_run = run, ar_state = state,
               ar_realized_pnl_event = None, ar_recompute_queue_item = Some item\<rparr>,
          run_put run lg))"

text \<open>The guarded writes: state, then event and aggregate of a sale.  A refused event leaves the
  state written before it.\<close>

definition write_result ::
  "cost_basis_state \<Rightarrow> realized_pnl_event option \<Rightarrow> ledger \<Rightarrow> (ledger_error + unit) \<times> ledger" where
  "write_result new_state event lg =
     (let lg = state_upsert new_state lg
      in case event of
           None \<Rightarrow> (Inr (), lg)
         | Some e \<Rightarrow>
             (case event_add e lg of
                Inl err \<Rightarrow> (Inl err, lg)
              | Inr lg \<Rightarrow> (Inr (), update_daily_aggregate e lg)))"

definition apply_fill ::
  "(uuid \<Rightarrow> uuid \<Rightarrow> uuid) \<Rightarrow> env \<Rightarrow> fill_event \<Rightarrow> ledger
   \<Rightarrow> (ledger_error + apply_fill_result) \<times> ledger" where
  "apply_fill uuid5 ev fill_event lg =
     (let run = new_run (uuid_at ev ''run'') REALTIME_INCREMENTAL None (now_at ev ''started'');
          lg = run_put run lg
      in case resolve_lineage lg fill_event of
           Inl exc \<Rightarrow>
             (Inl exc,
              run_put (finalized (now_at ev ''completed'') ''failed'' 0 0 0 1
                         (Some (Summary_Error None exc)) run) lg)
         | Inr lineage \<Rightarrow>
             (let fill = build_normalized_fill (fl_account_id lineage) (fl_instrument_id lineage)
                           (fl_order_request_id lineage) (fl_side lineage) fill_event;
                  state = state_get lg (fl_account_id lineage) (fl_instrument_id lineage);
                  (is_duplicate, duplicate_event) = check_duplicate lg state fill_event fill
              in if is_duplicate
                 then (let run = finalized (now_at ev ''completed'') ''completed'' 0 1 0 0 None run
                       in (Inr \<lparr>ar_status = ''skipped_duplicate'', ar_computation_run = run,
                                ar_state = state, ar_realized_pnl_event = duplicate_event,
                                ar_recompute_queue_item = None\<rparr>,
                           run_put run lg))
                 else if (case state of None \<Rightarrow> False
                          | Some s \<Rightarrow> (case cb_last_applied_fill_timestamp s of None \<Rightarrow> False
                                      | Some t \<Rightarrow> nf_fill_timestamp fill < t))
                 then needs_recompute ev lineage fill_event state ''out_of_order_fill_detected''
                        ''out_of_order_fill_detected''
                        (Summary_Reason ''out_of_order_fill_detected'') run lg
                 else
                   (case apply_fill_to_cost_basis uuid5 (cr_computation_run_id run) state fill of
                      Inl exc \<Rightarrow>
                        needs_recompute ev lineage fill_event state ''ledger_write_failed''
                          (take 64 (''engine_error:'' @ pnl_error_class exc))
                          (Summary_Error None (Engine_Error exc)) run lg
                    | Inr (new_state, event) \<Rightarrow>
                        (case write_result new_state event lg of
                           (Inl exc, lg) \<Rightarrow>
                             needs_recompute ev lineage fill_event state ''ledger_write_failed''
                               (take 64 ''repository_write_failed:ValueError'')
                               (Summary_Error None exc) run lg
                         | (Inr _, lg) \<Rightarrow>
                             (let run = finalized (now_at ev ''completed'') ''completed'' 1 0 0 0
                                          None run
                              in (Inr \<lparr>ar_status = ''applied'', ar_computation_run = run,
                                       ar_state = Some new_state, ar_realized_pnl_event = event,
                                       ar_recompute_queue_item = None\<rparr>,
                                  run_put run lg))))))"

section \<open>Frame facts\<close>

lemma ledger_frame [simp]:
  "lg_repos (run_put r lg) = lg_repos lg" "lg_states (run_put r lg) = lg_states lg"
  "lg_events (run_put r lg) = lg_events lg" "lg_event_by_fill (run_put r lg) = lg_event_by_fill lg"
  "lg_aggregates (run_put r lg) = lg_aggregates lg" "lg_queue (run_put r lg) = lg_queue lg"
  "lg_fill_events (run_put r lg) = lg_fill_events lg"
  "lg_repos (queue_add q lg) = lg_repos lg" "lg_states (queue_add q lg) = lg_states lg"
  "lg_events (queue_add q lg) = lg_events lg" "lg_event_by_fill (queue_add q lg) = lg_event_by_fill lg"
  "lg_aggregates (queue_add q lg) = lg_aggregates lg" "lg_fill_events (queue_add q lg) = lg_fill_events lg"
  "lg_runs (queue_add q lg) = lg_runs lg"
  "lg_repos (state_upsert s lg) = lg_repos lg" "lg_events (state_upsert s lg) = lg_events lg"
  "lg_event_by_fill (state_upsert s lg) = lg_event_by_fill lg"
  "lg_aggregates (state_upsert s lg) = lg_aggregates lg" "lg_queue (state_upsert s lg) = lg_queue lg"
  "lg_fill_events (state_upsert s lg) = lg_fill_events lg" "lg_runs (state_upsert s lg) = lg_runs lg"
  "lg_repos (aggregate_upsert a lg) = lg_repos lg" "lg_states (aggregate_upsert a lg) = lg_states lg"
  "lg_events (aggregate_upsert a lg) = lg_events lg"
  "lg_event_by_fill (aggregate_upsert a lg) = lg_event_by_fill lg"
  "lg_queue (aggregate_upsert a lg) = lg_queue lg" "lg_runs (aggregate_upsert a lg) = lg_runs lg"
  "lg_fill_events (aggregate_upsert a lg) = lg_fill_events lg"
  "lg_repos (event_store e lg) = lg_repos lg" "lg_states (event_store e lg) = lg_states lg"
  "lg_aggregates (event_store e lg) = lg_aggregates lg" "lg_queue (event_store e lg) = lg_queue lg"
  "lg_fill_events (event_store e lg) = lg_fill_events lg" "lg_runs (event_store e lg) = lg_runs lg"
  by (simp_all add: run_put_def queue_add_def state_upsert_def aggregate_upsert_def event_store_def)

lemma state_get_simps [simp]:
  "state_get (run_put r lg) a i = state_get lg a i"
  "state_get (queue_add q lg) a i = state_get lg a i"
  "state_get (aggregate_upsert g lg) a i = state_get lg a i"
  "state_get (event_store e lg) a i = state_get lg a i"
  "state_get (update_daily_aggregate e lg) a i = state_get lg a i"
  "state_get (state_upsert s lg) a i =
     (if a = cb_account_id s \<and> i = cb_instrument_id s then Some s else state_get lg a i)"
  by (auto simp: state_get_def state_upsert_def update_conv' update_daily_aggregate_def Let_def)

lemma event_of_fill_cong:
  "lg_events lg = lg_events lg' \<Longrightarrow> lg_event_by_fill lg = lg_event_by_fill lg' \<Longrightarrow>
     event_of_fill lg f = event_of_fill lg' f"
  by (simp add: event_of_fill_def split: option.split)

lemma event_of_fill_simps [simp]:
  "event_of_fill (run_put r lg) f = event_of_fill lg f"
  "event_of_fill (queue_add q lg) f = event_of_fill lg f"
  "event_of_fill (state_upsert s lg) f = event_of_fill lg f"
  "event_of_fill (update_daily_aggregate e lg) f = event_of_fill lg f"
  by (rule event_of_fill_cong; simp add: update_daily_aggregate_def Let_def)+

lemma events_consistent_cong:
  "lg_events lg = lg_events lg' \<Longrightarrow> lg_event_by_fill lg = lg_event_by_fill lg' \<Longrightarrow>
     events_consistent i lg \<longleftrightarrow> events_consistent i lg'"
  by (simp add: events_consistent_def)

lemma events_consistent_simps [simp]:
  "events_consistent i (run_put r lg) \<longleftrightarrow> events_consistent i lg"
  "events_consistent i (queue_add q lg) \<longleftrightarrow> events_consistent i lg"
  "events_consistent i (state_upsert s lg) \<longleftrightarrow> events_consistent i lg"
  "events_consistent i (update_daily_aggregate e lg) \<longleftrightarrow> events_consistent i lg"
  by (rule events_consistent_cong; simp add: update_daily_aggregate_def Let_def)+

lemma update_daily_aggregate_frame [simp]:
  "lg_repos (update_daily_aggregate e lg) = lg_repos lg"
  "lg_states (update_daily_aggregate e lg) = lg_states lg"
  "lg_events (update_daily_aggregate e lg) = lg_events lg"
  "lg_event_by_fill (update_daily_aggregate e lg) = lg_event_by_fill lg"
  "lg_queue (update_daily_aggregate e lg) = lg_queue lg"
  "lg_fill_events (update_daily_aggregate e lg) = lg_fill_events lg"
  by (simp_all add: update_daily_aggregate_def Let_def)

lemma resolve_lineage_cong: "lg_repos lg = lg_repos lg' \<Longrightarrow> resolve_lineage lg f = resolve_lineage lg' f"
  by (simp add: resolve_lineage_def split: option.split)

lemma build_normalized_fill_simps [simp]:
  "nf_fill_event_id (build_normalized_fill a i r s f) = fe_fill_event_id f"
  "nf_account_id (build_normalized_fill a i r s f) = a"
  "nf_instrument_id (build_normalized_fill a i r s f) = i"
  "nf_side (build_normalized_fill a i r s f) = s"
  "nf_quantity (build_normalized_fill a i r s f) = fe_fill_quantity f"
  "nf_price (build_normalized_fill a i r s f) = fe_fill_price f"
  "nf_fill_timestamp (build_normalized_fill a i r s f) = fe_fill_timestamp f"
  by (simp_all add: build_normalized_fill_def Let_def split_beta)

section \<open>The engine seen from the ledger\<close>

lemma next_state_simps [simp]:
  "cb_account_id (next_state f q c p v) = nf_account_id f"
  "cb_instrument_id (next_state f q c p v) = nf_instrument_id f"
  "cb_last_applied_fill_event_id (next_state f q c p v) = Some (nf_fill_event_id f)"
  "cb_last_applied_fill_timestamp (next_state f q c p v) = Some (nf_fill_timestamp f)"
  "cb_recompute_required (next_state f q c p v) = False"
  "cb_recompute_reason (next_state f q c p v) = None"
  by (simp_all add: next_state_def)

lemma apply_fill_new_state:
  assumes "apply_fill_to_cost_basis uuid5 run st f = Inr (s', ev)"
  shows "cb_account_id s' = nf_account_id f" "cb_instrument_id s' = nf_instrument_id f"
    "cb_last_applied_fill_event_id s' = Some (nf_fill_event_id f)"
    "cb_last_applied_fill_timestamp s' = Some (nf_fill_timestamp f)"
    "\<not> cb_recompute_required s'" "cb_recompute_reason s' = None"
proof -
  have "\<exists>q c p v. s' = next_state f q c p v"
    using assms
  proof (cases rule: apply_fill_InrE)
    case buy
    then show ?thesis by (cases st) (auto simp: apply_buy_def Let_def)
  next
    case (sell e)
    then show ?thesis
      by (cases st) (auto simp: apply_sell_def Let_def split_beta split: if_splits)
  qed
  then obtain q c p v where s': "s' = next_state f q c p v" by blast
  show "cb_account_id s' = nf_account_id f" "cb_instrument_id s' = nf_instrument_id f"
    "cb_last_applied_fill_event_id s' = Some (nf_fill_event_id f)"
    "cb_last_applied_fill_timestamp s' = Some (nf_fill_timestamp f)"
    "\<not> cb_recompute_required s'" "cb_recompute_reason s' = None"
    by (simp_all add: s')
qed

definition with_run :: "uuid \<Rightarrow> realized_pnl_event \<Rightarrow> realized_pnl_event" where
  "with_run run e = e\<lparr>pe_computation_run_id := run\<rparr>"

lemma apply_fill_other_run:
  "apply_fill_to_cost_basis uuid5 run st f =
     map_sum id (map_prod id (map_option (with_run run))) (apply_fill_to_cost_basis uuid5 run' st f)"
  by (cases "validate_fill f"; cases st; cases "nf_side f")
    (auto simp: apply_fill_to_cost_basis_def apply_sell_def with_run_def Let_def split_beta)

lemma apply_fill_event:
  assumes "apply_fill_to_cost_basis uuid5 run st f = Inr (s', Some e)"
  shows "nf_side f = SELL" "pe_fill_event_id e = nf_fill_event_id f"
    "pe_realized_pnl_event_id e = derive_realized_pnl_event_id uuid5 (nf_fill_event_id f)"
    "pe_account_id e = nf_account_id f" "pe_instrument_id e = nf_instrument_id f"
    "pe_fill_timestamp e = nf_fill_timestamp f" "pe_computation_run_id e = run"
  using assms
  by (cases rule: apply_fill_InrE; cases st;
      auto simp: apply_sell_def Let_def split_beta split: if_splits)+

lemma apply_fill_event_iff_sell:
  assumes "apply_fill_to_cost_basis uuid5 run st f = Inr (s', ev)"
  shows "ev = None \<longleftrightarrow> nf_side f = BUY"
  using assms by (cases rule: apply_fill_InrE) auto

section \<open>The outcomes of booking a fill\<close>

text \<open>The late test of \<open>apply_fill\<close>.\<close>

definition late_fill :: "cost_basis_state option \<Rightarrow> normalized_fill \<Rightarrow> bool" where
  "late_fill state fill \<longleftrightarrow>
     (case state of None \<Rightarrow> False
      | Some s \<Rightarrow> (case cb_last_applied_fill_timestamp s of None \<Rightarrow> False
                  | Some t \<Rightarrow> nf_fill_timestamp fill < t))"

definition lineage_fill :: "fill_lineage \<Rightarrow> fill_event \<Rightarrow> normalized_fill" where
  "lineage_fill l f =
     build_normalized_fill (fl_account_id l) (fl_instrument_id l) (fl_order_request_id l) (fl_side l) f"

lemma lineage_fill_simps [simp]:
  "nf_fill_event_id (lineage_fill l f) = fe_fill_event_id f"
  "nf_account_id (lineage_fill l f) = fl_account_id l"
  "nf_instrument_id (lineage_fill l f) = fl_instrument_id l"
  "nf_side (lineage_fill l f) = fl_side l"
  "nf_fill_timestamp (lineage_fill l f) = fe_fill_timestamp f"
  by (simp_all add: lineage_fill_def)

lemma check_duplicate_simps [simp]:
  "check_duplicate (run_put r lg) st f nf = check_duplicate lg st f nf"
  by (simp add: check_duplicate_def)

lemma apply_fill_unfold:
  assumes "resolve_lineage lg f = Inr l"
  shows "apply_fill uuid5 ev f lg =
    (let run = new_run (uuid_at ev ''run'') REALTIME_INCREMENTAL None (now_at ev ''started'');
         fill = lineage_fill l f;
         state = state_get lg (fl_account_id l) (fl_instrument_id l);
         (dup, old) = check_duplicate lg state f fill
     in if dup
        then (let run = finalized (now_at ev ''completed'') ''completed'' 0 1 0 0 None run
              in (Inr \<lparr>ar_status = ''skipped_duplicate'', ar_computation_run = run, ar_state = state,
                       ar_realized_pnl_event = old, ar_recompute_queue_item = None\<rparr>,
                  run_put run (run_put (new_run (uuid_at ev ''run'') REALTIME_INCREMENTAL None
                    (now_at ev ''started'')) lg)))
        else if late_fill state fill
        then needs_recompute ev l f state ''out_of_order_fill_detected'' ''out_of_order_fill_detected''
               (Summary_Reason ''out_of_order_fill_detected'') run (run_put run lg)
        else
          (case apply_fill_to_cost_basis uuid5 (uuid_at ev ''run'') state fill of
             Inl exc \<Rightarrow>
               needs_recompute ev l f state ''ledger_write_failed''
                 (take 64 (''engine_error:'' @ pnl_error_class exc))
                 (Summary_Error None (Engine_Error exc)) run (run_put run lg)
           | Inr (new_state, event) \<Rightarrow>
               (case write_result new_state event (run_put run lg) of
                  (Inl exc, lg) \<Rightarrow>
                    needs_recompute ev l f state ''ledger_write_failed''
                      (take 64 ''repository_write_failed:ValueError'')
                      (Summary_Error None exc) run lg
                | (Inr _, lg) \<Rightarrow>
                    (let run = finalized (now_at ev ''completed'') ''completed'' 1 0 0 0 None run
                     in (Inr \<lparr>ar_status = ''applied'', ar_computation_run = run,
                              ar_state = Some new_state, ar_realized_pnl_event = event,
                              ar_recompute_queue_item = None\<rparr>, run_put run lg)))))"
proof -
  have l: "resolve_lineage (run_put r lg) f = Inr l" for r
    using assms resolve_lineage_cong [of "run_put r lg" lg] by simp
  have id: "cr_computation_run_id (new_run i ty a t) = i" for i ty a t by (simp add: new_run_def)
  show ?thesis
    unfolding apply_fill_def Let_def l sum.case state_get_simps check_duplicate_simps id
      lineage_fill_def [symmetric] late_fill_def [symmetric] ..
qed

text \<open>A write is refused only when the fill already has an event; the duplicate test excludes it.\<close>

lemma write_result_ok:
  assumes "ev \<noteq> None \<Longrightarrow> map_of (lg_event_by_fill lg) (pe_fill_event_id (the ev)) = None"
  shows "write_result s ev lg = (Inr (),
     (case ev of None \<Rightarrow> state_upsert s lg
      | Some e \<Rightarrow> update_daily_aggregate e (event_store e (state_upsert s lg))))"
  using assms by (cases ev) (simp_all add: write_result_def event_add_def)

definition booked :: "env \<Rightarrow> fill_lineage \<Rightarrow> fill_event \<Rightarrow> cost_basis_state \<Rightarrow> realized_pnl_event option
    \<Rightarrow> ledger \<Rightarrow> ledger \<Rightarrow> bool" where
  "booked ev l f s' event lg lg' \<longleftrightarrow>
     lg_repos lg' = lg_repos lg \<and> lg_queue lg' = lg_queue lg \<and> lg_fill_events lg' = lg_fill_events lg
     \<and> lg_states lg' = lg_states (state_upsert s' lg)
     \<and> (case event of
          None \<Rightarrow> lg_events lg' = lg_events lg \<and> lg_event_by_fill lg' = lg_event_by_fill lg
            \<and> lg_aggregates lg' = lg_aggregates lg
        | Some e \<Rightarrow> lg_events lg' = lg_events (event_store e lg)
            \<and> lg_event_by_fill lg' = lg_event_by_fill (event_store e lg)
            \<and> lg_aggregates lg' = lg_aggregates (update_daily_aggregate e lg))"

text \<open>A fill set aside: nothing of the books changes, the position is marked and a request is
  pending.\<close>

definition set_aside :: "env \<Rightarrow> fill_lineage \<Rightarrow> fill_event \<Rightarrow> ledger \<Rightarrow> ledger \<Rightarrow> bool" where
  "set_aside ev l f lg lg' \<longleftrightarrow>
     lg_repos lg' = lg_repos lg \<and> lg_fill_events lg' = lg_fill_events lg
     \<and> lg_events lg' = lg_events lg \<and> lg_event_by_fill lg' = lg_event_by_fill lg
     \<and> lg_aggregates lg' = lg_aggregates lg
     \<and> (\<exists>reason. lg_states lg' = lg_states (mark_recompute_required (fl_account_id l)
           (fl_instrument_id l) (state_get lg (fl_account_id l) (fl_instrument_id l)) reason lg))
     \<and> (\<exists>code. lg_queue lg' = lg_queue (queue_add (recompute_request (uuid_at ev ''queue'')
           (fl_account_id l) (fl_instrument_id l) code (fe_fill_event_id f)) lg))"

lemma mark_recompute_frame [simp]:
  "lg_repos (mark_recompute_required a i st r lg) = lg_repos lg"
  "lg_events (mark_recompute_required a i st r lg) = lg_events lg"
  "lg_event_by_fill (mark_recompute_required a i st r lg) = lg_event_by_fill lg"
  "lg_aggregates (mark_recompute_required a i st r lg) = lg_aggregates lg"
  "lg_queue (mark_recompute_required a i st r lg) = lg_queue lg"
  "lg_fill_events (mark_recompute_required a i st r lg) = lg_fill_events lg"
  by (simp_all add: mark_recompute_required_def Let_def)

lemma aggregates_cong:
  "lg_aggregates lg = lg_aggregates lg' \<Longrightarrow>
     lg_aggregates (update_daily_aggregate e lg) = lg_aggregates (update_daily_aggregate e lg')"
  by (simp add: update_daily_aggregate_def aggregate_upsert_def aggregates_between_def Let_def)

lemma needs_recompute_sets_aside:
  assumes "lg_repos lg1 = lg_repos lg" "lg_states lg1 = lg_states lg" "lg_events lg1 = lg_events lg"
    "lg_event_by_fill lg1 = lg_event_by_fill lg" "lg_aggregates lg1 = lg_aggregates lg"
    "lg_queue lg1 = lg_queue lg" "lg_fill_events lg1 = lg_fill_events lg"
    and st: "st = state_get lg (fl_account_id l) (fl_instrument_id l)"
    and eq: "needs_recompute ev l f st code reason summary run lg1 = (res, lg')"
  shows "set_aside ev l f lg lg'" "\<exists>r. res = Inr r \<and> ar_status r = ''recompute_required'' \<and> ar_state r = st"
proof -
  show "\<exists>r. res = Inr r \<and> ar_status r = ''recompute_required'' \<and> ar_state r = st"
    using eq by (auto simp: needs_recompute_def Let_def)
  have "lg_states lg' = lg_states (mark_recompute_required (fl_account_id l) (fl_instrument_id l) st reason lg)"
    using eq assms(2)
    by (auto simp: needs_recompute_def mark_recompute_required_def state_upsert_def Let_def)
  moreover have "lg_queue lg' = lg_queue (queue_add (recompute_request (uuid_at ev ''queue'')
           (fl_account_id l) (fl_instrument_id l) code (fe_fill_event_id f)) lg)"
    using eq assms(6) by (auto simp: needs_recompute_def queue_add_def Let_def)
  ultimately show "set_aside ev l f lg lg'"
    using eq assms unfolding set_aside_def
    by (auto simp: needs_recompute_def Let_def)
qed

lemma needs_recompute_runE:
  assumes "needs_recompute ev l f (state_get lg (fl_account_id l) (fl_instrument_id l)) code reason
      summary run (run_put run lg) = (res, lg')"
  obtains r where "res = Inr r" "ar_status r = ''recompute_required''" "set_aside ev l f lg lg'"
  using needs_recompute_sets_aside [OF _ _ _ _ _ _ _ refl assms] by auto

lemma apply_fill_cases:
  assumes eq: "apply_fill uuid5 ev f lg = (res, lg')"
    and cons: "events_consistent (derive_realized_pnl_event_id uuid5) lg"
  obtains
    (no_lineage) exc runs where "resolve_lineage lg f = Inl exc" "res = Inl exc"
      "lg' = lg\<lparr>lg_runs := runs\<rparr>"
  | (duplicate) l r runs where "resolve_lineage lg f = Inr l" "res = Inr r"
      "ar_status r = ''skipped_duplicate''" "lg' = lg\<lparr>lg_runs := runs\<rparr>"
      "fst (check_duplicate lg (state_get lg (fl_account_id l) (fl_instrument_id l)) f (lineage_fill l f))"
  | (aside) l r where "resolve_lineage lg f = Inr l" "res = Inr r"
      "ar_status r = ''recompute_required''" "set_aside ev l f lg lg'"
      "\<not> fst (check_duplicate lg (state_get lg (fl_account_id l) (fl_instrument_id l)) f (lineage_fill l f))"
      "late_fill (state_get lg (fl_account_id l) (fl_instrument_id l)) (lineage_fill l f)
       \<or> \<not> is_ok (apply_fill_to_cost_basis uuid5 (uuid_at ev ''run'')
            (state_get lg (fl_account_id l) (fl_instrument_id l)) (lineage_fill l f))"
  | (applied) l r s' event where "resolve_lineage lg f = Inr l" "res = Inr r"
      "ar_status r = ''applied''" "ar_state r = Some s'" "ar_realized_pnl_event r = event"
      "apply_fill_to_cost_basis uuid5 (uuid_at ev ''run'')
         (state_get lg (fl_account_id l) (fl_instrument_id l)) (lineage_fill l f) = Inr (s', event)"
      "\<not> fst (check_duplicate lg (state_get lg (fl_account_id l) (fl_instrument_id l)) f (lineage_fill l f))"
      "\<not> late_fill (state_get lg (fl_account_id l) (fl_instrument_id l)) (lineage_fill l f)"
      "booked ev l f s' event lg lg'"
      "event \<noteq> None \<Longrightarrow> event_of_fill lg (fe_fill_event_id f) = None"
proof (cases "resolve_lineage lg f")
  case (Inl exc)
  then have "resolve_lineage (run_put r lg) f = Inl exc" for r
    using resolve_lineage_cong [of "run_put r lg" lg] by simp
  with eq Inl show thesis
    by (intro no_lineage) (auto simp: apply_fill_def Let_def run_put_def)
next
  case (Inr l)
  let ?st = "state_get lg (fl_account_id l) (fl_instrument_id l)" and ?nf = "lineage_fill l f"
  let ?run = "new_run (uuid_at ev ''run'') REALTIME_INCREMENTAL None (now_at ev ''started'')"
  obtain dup old where d: "check_duplicate lg ?st f ?nf = (dup, old)"
    by (cases "check_duplicate lg ?st f ?nf")
  note body = eq [unfolded apply_fill_unfold [OF Inr] Let_def d prod.case]
  consider "dup" | "\<not> dup" "late_fill ?st ?nf"
    | exc where "\<not> dup" "\<not> late_fill ?st ?nf"
        "apply_fill_to_cost_basis uuid5 (uuid_at ev ''run'') ?st ?nf = Inl exc"
    | s' event where "\<not> dup" "\<not> late_fill ?st ?nf"
        "apply_fill_to_cost_basis uuid5 (uuid_at ev ''run'') ?st ?nf = Inr (s', event)"
    by (cases "apply_fill_to_cost_basis uuid5 (uuid_at ev ''run'') ?st ?nf") auto
  then show thesis
  proof cases
    case 1
    with body Inr d show thesis by (intro duplicate) (auto simp: run_put_def)
  next
    case 2
    with body have n: "needs_recompute ev l f ?st ''out_of_order_fill_detected''
        ''out_of_order_fill_detected'' (Summary_Reason ''out_of_order_fill_detected'') ?run
        (run_put ?run lg) = (res, lg')" by simp
    then obtain r where "res = Inr r" "ar_status r = ''recompute_required''" "set_aside ev l f lg lg'"
      by (rule needs_recompute_runE)
    with 2 d Inr show thesis by (intro aside) auto
  next
    case 3
    with body have n: "needs_recompute ev l f ?st ''ledger_write_failed''
        (take 64 (''engine_error:'' @ pnl_error_class exc)) (Summary_Error None (Engine_Error exc)) ?run
        (run_put ?run lg) = (res, lg')" by simp
    then obtain r where "res = Inr r" "ar_status r = ''recompute_required''" "set_aside ev l f lg lg'"
      by (rule needs_recompute_runE)
    with 3 d Inr show thesis by (intro aside) auto
  next
    case 4
    have new: "map_of (lg_event_by_fill lg) (fe_fill_event_id f) = None
        \<and> pe_fill_event_id e = fe_fill_event_id f" if "event = Some e" for e
      using 4 d apply_fill_event [of uuid5 "uuid_at ev ''run''" ?st ?nf s' e] that cons
      by (auto simp: check_duplicate_def event_of_fill_iff Let_def)
    then have w: "write_result s' event (run_put ?run lg) = (Inr (),
        (case event of None \<Rightarrow> state_upsert s' (run_put ?run lg)
         | Some e \<Rightarrow> update_daily_aggregate e (event_store e (state_upsert s' (run_put ?run lg)))))"
      by (intro write_result_ok) auto
    have agg: "lg_aggregates (update_daily_aggregate e (event_store e (state_upsert s' (run_put ?run lg))))
        = lg_aggregates (update_daily_aggregate e lg)" for e
      by (rule aggregates_cong) simp
    have bk: "booked ev l f s' event lg lg'"
      using body 4 w agg
      by (cases event) (auto simp: booked_def Let_def state_upsert_def event_store_def)
    show thesis
      using 4 d Inr body w bk new cons
      by (intro applied [of l _ s' event]) (auto simp: event_of_fill_iff)
  qed
qed

section \<open>Sequences of bookings\<close>

primrec book_fills ::
  "(uuid \<Rightarrow> uuid \<Rightarrow> uuid) \<Rightarrow> (env \<times> fill_event) list \<Rightarrow> ledger
   \<Rightarrow> (ledger_error + apply_fill_result) list \<times> ledger" where
  "book_fills uuid5 [] lg = ([], lg)"
| "book_fills uuid5 (x # xs) lg =
     (let (r, lg1) = apply_fill uuid5 (fst x) (snd x) lg;
          (rs, lg2) = book_fills uuid5 xs lg1
      in (r # rs, lg2))"

abbreviation event_ids :: "(uuid \<Rightarrow> uuid \<Rightarrow> uuid) \<Rightarrow> uuid \<Rightarrow> uuid" where
  "event_ids \<equiv> derive_realized_pnl_event_id"

lemma booked_state:
  "booked ev l f s' event lg lg' \<Longrightarrow>
     state_get lg' a i = (if a = cb_account_id s' \<and> i = cb_instrument_id s' then Some s' else state_get lg a i)"
  by (auto simp: booked_def state_get_def state_upsert_def update_conv')

lemma booked_events:
  assumes "booked ev l f s' event lg lg'" "events_consistent i lg" "inj i"
    and "\<And>e. event = Some e \<Longrightarrow> pe_realized_pnl_event_id e = i (pe_fill_event_id e)
           \<and> event_of_fill lg (pe_fill_event_id e) = None"
  shows "events_consistent i lg'"
    "event_of_fill lg' g = (if event \<noteq> None \<and> g = pe_fill_event_id (the event) then event else event_of_fill lg g)"
proof -
  have "events_consistent i lg' \<and>
    event_of_fill lg' g = (if event \<noteq> None \<and> g = pe_fill_event_id (the event) then event else event_of_fill lg g)"
  proof (cases event)
    case None
    then have "lg_events lg' = lg_events lg" "lg_event_by_fill lg' = lg_event_by_fill lg"
      using assms(1) by (simp_all add: booked_def)
    with None assms(2) show ?thesis
      using event_of_fill_cong [of lg' lg] events_consistent_cong [of lg' lg] by simp
  next
    case (Some e)
    then have new: "map_of (lg_event_by_fill lg) (pe_fill_event_id e) = None"
        and id: "pe_realized_pnl_event_id e = i (pe_fill_event_id e)"
      using assms(2,4) by (auto simp: event_of_fill_iff)
    then have add: "event_add e lg = Inr (event_store e lg)" by (simp add: event_add_def)
    have "lg_events lg' = lg_events (event_store e lg)"
      "lg_event_by_fill lg' = lg_event_by_fill (event_store e lg)"
      using assms(1) Some by (simp_all add: booked_def)
    then show ?thesis
      using Some re.find_add [OF assms(2,3) id add] re.consistent_add [OF assms(2,3) id add]
        event_of_fill_cong [of lg' "event_store e lg"] events_consistent_cong [of lg' "event_store e lg"]
      by simp
  qed
  then show "events_consistent i lg'"
    "event_of_fill lg' g = (if event \<noteq> None \<and> g = pe_fill_event_id (the event) then event else event_of_fill lg g)"
    by simp_all
qed

text \<open>Events stay, and stay consistent, whatever is booked.\<close>

lemma apply_fill_keeps_events:
  assumes eq: "apply_fill uuid5 ev f lg = (res, lg')"
    and cons: "events_consistent (event_ids uuid5) lg" and inj: "inj (event_ids uuid5)"
  shows "events_consistent (event_ids uuid5) lg'" "lg_repos lg' = lg_repos lg"
    "event_of_fill lg g = Some e \<Longrightarrow> event_of_fill lg' g = Some e"
proof -
  have "events_consistent (event_ids uuid5) lg' \<and> lg_repos lg' = lg_repos lg
    \<and> (event_of_fill lg g = Some e \<longrightarrow> event_of_fill lg' g = Some e)"
    using eq cons
  proof (cases rule: apply_fill_cases)
    case (applied l r s' event)
    have "pe_realized_pnl_event_id x = event_ids uuid5 (pe_fill_event_id x)
        \<and> event_of_fill lg (pe_fill_event_id x) = None" if "event = Some x" for x
      using apply_fill_event [of uuid5 _ _ "lineage_fill l f" s' x] applied(6,10) that by simp
    then show ?thesis
      using booked_events(1) [OF applied(9) cons inj] booked_events(2) [OF applied(9) cons inj, of g]
        applied(9) by (auto simp: booked_def)
  next
    case (aside l r)
    then show ?thesis
      using cons event_of_fill_cong [of lg' lg] events_consistent_cong [of lg' lg]
      by (simp add: set_aside_def)
  next
    case (no_lineage exc runs)
    then show ?thesis
      using cons event_of_fill_cong [of lg' lg] events_consistent_cong [of lg' lg] by simp
  next
    case (duplicate l r runs)
    then show ?thesis
      using cons event_of_fill_cong [of lg' lg] events_consistent_cong [of lg' lg] by simp
  qed
  then show "events_consistent (event_ids uuid5) lg'" "lg_repos lg' = lg_repos lg"
    "event_of_fill lg g = Some e \<Longrightarrow> event_of_fill lg' g = Some e" by simp_all
qed

lemma book_fills_keeps_events:
  assumes "book_fills uuid5 xs lg = (rs, lg')" "events_consistent (event_ids uuid5) lg"
    "inj (event_ids uuid5)"
  shows "events_consistent (event_ids uuid5) lg' \<and> lg_repos lg' = lg_repos lg
    \<and> (\<forall>g e. event_of_fill lg g = Some e \<longrightarrow> event_of_fill lg' g = Some e)"
  using assms
proof (induction xs arbitrary: lg rs)
  case (Cons x xs)
  obtain r lg1 where 1: "apply_fill uuid5 (fst x) (snd x) lg = (r, lg1)"
    by (cases "apply_fill uuid5 (fst x) (snd x) lg")
  obtain rs' where 2: "book_fills uuid5 xs lg1 = (rs', lg')"
    using Cons.prems(1) 1 by (auto simp: split_beta prod_eq_iff)
  note k = apply_fill_keeps_events [OF 1 Cons.prems(2,3)]
  show ?case using Cons.IH [OF 2 k(1) Cons.prems(3)] k by simp
qed simp

section \<open>Booking is replaying\<close>

lemma late_fill_iff:
  "late_fill st f \<longleftrightarrow> (case last_timestamp st of Some t \<Rightarrow> nf_fill_timestamp f < t | None \<Rightarrow> False)"
  by (auto simp: late_fill_def last_timestamp_def split: option.split)

text \<open>One step: a fill the replay accepts is booked.\<close>

lemma accepted_fill_is_booked:
  assumes lin: "resolve_lineage lg f = Inr l"
    and st: "state_get lg (fl_account_id l) (fl_instrument_id l) = st"
    and ok: "apply_fill_to_cost_basis uuid5 run st (lineage_fill l f) = Inr (s', event)"
    and sorted: "\<not> late_fill st (lineage_fill l f)"
    and new: "event_of_fill lg (fe_fill_event_id f) = None"
      "\<And>s. st = Some s \<Longrightarrow> cb_last_applied_fill_event_id s \<noteq> Some (fe_fill_event_id f)"
    and cons: "events_consistent (event_ids uuid5) lg" and inj: "inj (event_ids uuid5)"
  obtains r lg' where "apply_fill uuid5 ev f lg = (Inr r, lg')" "ar_status r = ''applied''"
    "booked ev l f s' (map_option (with_run (uuid_at ev ''run'')) event) lg lg'"
proof -
  obtain res lg' where eq: "apply_fill uuid5 ev f lg = (res, lg')"
    by (cases "apply_fill uuid5 ev f lg")
  have run: "apply_fill_to_cost_basis uuid5 (uuid_at ev ''run'') st (lineage_fill l f)
      = Inr (s', map_option (with_run (uuid_at ev ''run'')) event)"
    using apply_fill_other_run [of uuid5 "uuid_at ev ''run''" st _ run] ok by simp
  have dup: "\<not> fst (check_duplicate lg st f (lineage_fill l f))"
    using new by (cases st) (auto simp: check_duplicate_def Let_def)
  from eq cons show thesis
  proof (cases rule: apply_fill_cases)
    case (applied l' r s'' event')
    with lin st run have "l' = l" "s'' = s'" "event' = map_option (with_run (uuid_at ev ''run'')) event"
      by auto
    with applied eq show thesis by (intro that [of r lg']) simp_all
  qed (use lin st dup run sorted in auto)
qed

lemma booking_replays:
  assumes "replay_fills uuid5 run st (map (\<lambda>x. lineage_fill (lin x) (snd x)) xs) = Inr res"
    and "\<forall>x \<in> set xs. resolve_lineage lg (snd x) = Inr (lin x) \<and> fl_account_id (lin x) = a
           \<and> fl_instrument_id (lin x) = i"
    and "state_get lg a i = st"
    and "distinct (map (\<lambda>x. fe_fill_event_id (snd x)) xs)"
    and "\<forall>x \<in> set xs. event_of_fill lg (fe_fill_event_id (snd x)) = None
           \<and> (\<forall>s. st = Some s \<longrightarrow> cb_last_applied_fill_event_id s \<noteq> Some (fe_fill_event_id (snd x)))"
    and "events_consistent (event_ids uuid5) lg" and "inj (event_ids uuid5)"
    and "book_fills uuid5 xs lg = (rs, lg')"
  shows "(\<forall>r \<in> set rs. \<exists>y. r = Inr y \<and> ar_status y = ''applied'')
    \<and> state_get lg' a i = rr_final_state res \<and> lg_queue lg' = lg_queue lg
    \<and> (\<forall>e \<in> set (rr_realized_pnl_events res). \<exists>run'.
         event_of_fill lg' (pe_fill_event_id e) = Some (with_run run' e))
    \<and> (\<forall>g. g \<notin> pe_fill_event_id ` set (rr_realized_pnl_events res) \<longrightarrow> event_of_fill lg' g = event_of_fill lg g)"
  using assms
proof (induction xs arbitrary: lg st res rs)
  case Nil
  then show ?case by auto
next
  case (Cons x xs)
  let ?l = "lin x" and ?f = "snd x" and ?nf = "lineage_fill (lin x) (snd x)"
  from Cons.prems(1) obtain s1 ev1 res1 where step: "\<not> late_fill st ?nf"
      "apply_fill_to_cost_basis uuid5 run st ?nf = Inr (s1, ev1)"
      "replay_fills uuid5 run (Some s1) (map (\<lambda>x. lineage_fill (lin x) (snd x)) xs) = Inr res1"
      "res = res1\<lparr>rr_realized_pnl_events :=
         (case ev1 of Some e \<Rightarrow> [e] | None \<Rightarrow> []) @ rr_realized_pnl_events res1\<rparr>"
    by (auto simp: replay_fills_Cons res_bind_Inr_iff late_fill_iff split: if_splits)
  obtain r lg1 where b: "apply_fill uuid5 (fst x) ?f lg = (Inr r, lg1)" "ar_status r = ''applied''"
      "booked (fst x) ?l ?f s1 (map_option (with_run (uuid_at (fst x) ''run'')) ev1) lg lg1"
  proof (rule accepted_fill_is_booked [of lg ?f ?l st uuid5 run s1 ev1 "fst x"])
    show "resolve_lineage lg ?f = Inr ?l" using Cons.prems(2) by simp
    show "state_get lg (fl_account_id ?l) (fl_instrument_id ?l) = st" using Cons.prems(2,3) by simp
    show "event_of_fill lg (fe_fill_event_id ?f) = None" using Cons.prems(5) by simp
    show "\<And>s. st = Some s \<Longrightarrow> cb_last_applied_fill_event_id s \<noteq> Some (fe_fill_event_id ?f)"
      using Cons.prems(5) by simp
  qed (use step(1,2) Cons.prems(6,7) in simp_all)
  obtain rs' where rs: "book_fills uuid5 xs lg1 = (rs', lg')" "rs = Inr r # rs'"
    using Cons.prems(8) b(1) by (cases "book_fills uuid5 xs lg1") auto
  note s1 = apply_fill_new_state [OF step(2)]
  have ids: "pe_realized_pnl_event_id e = event_ids uuid5 (pe_fill_event_id e)
      \<and> pe_fill_event_id e = fe_fill_event_id ?f" if "ev1 = Some e" for e
    using apply_fill_event [of uuid5 run st ?nf s1 e] step(2) that by simp
  let ?ev = "map_option (with_run (uuid_at (fst x) ''run'')) ev1"
  have new: "pe_realized_pnl_event_id e = event_ids uuid5 (pe_fill_event_id e)
      \<and> event_of_fill lg (pe_fill_event_id e) = None" if "?ev = Some e" for e
  proof -
    from that obtain e1 where "ev1 = Some e1" "e = with_run (uuid_at (fst x) ''run'') e1" by auto
    with ids [of e1] Cons.prems(5) show ?thesis by (simp add: with_run_def)
  qed
  have ev: "events_consistent (event_ids uuid5) lg1"
    by (rule booked_events(1) [OF b(3) Cons.prems(6,7) new])
  have ev2: "event_of_fill lg1 g = (if ev1 \<noteq> None \<and> g = fe_fill_event_id ?f then ?ev else event_of_fill lg g)" for g
  proof -
    have "event_of_fill lg1 g = (if ?ev \<noteq> None \<and> g = pe_fill_event_id (the ?ev) then ?ev else event_of_fill lg g)"
      by (rule booked_events(2) [OF b(3) Cons.prems(6,7) new])
    moreover have "pe_fill_event_id (the ?ev) = fe_fill_event_id ?f" if "ev1 = Some e" for e
      using ids [OF that] that by (simp add: with_run_def)
    ultimately show ?thesis by (cases ev1) simp_all
  qed
  have st1: "state_get lg1 a i = Some s1"
    using booked_state [OF b(3), of a i] s1 Cons.prems(2) by simp
  have lin1: "\<forall>y \<in> set xs. resolve_lineage lg1 (snd y) = Inr (lin y) \<and> fl_account_id (lin y) = a
       \<and> fl_instrument_id (lin y) = i"
    using Cons.prems(2) b(3) resolve_lineage_cong [of lg1 lg] by (auto simp: booked_def)
  have fresh: "\<forall>y \<in> set xs. event_of_fill lg1 (fe_fill_event_id (snd y)) = None
       \<and> (\<forall>s. Some s1 = Some s \<longrightarrow> cb_last_applied_fill_event_id s \<noteq> Some (fe_fill_event_id (snd y)))"
  proof
    fix y assume y: "y \<in> set xs"
    moreover have "fe_fill_event_id ?f \<notin> (\<lambda>x. fe_fill_event_id (snd x)) ` set xs"
      using Cons.prems(4) by simp
    ultimately have "fe_fill_event_id (snd y) \<noteq> fe_fill_event_id ?f" by (metis image_eqI)
    with y show "event_of_fill lg1 (fe_fill_event_id (snd y)) = None
       \<and> (\<forall>s. Some s1 = Some s \<longrightarrow> cb_last_applied_fill_event_id s \<noteq> Some (fe_fill_event_id (snd y)))"
      using Cons.prems(5) ev2 s1(3) by simp
  qed
  note IH = Cons.IH [OF step(3) lin1 st1 _ fresh ev Cons.prems(7) rs(1)]
  have "pe_fill_event_id ` set (rr_realized_pnl_events res1) \<subseteq> (\<lambda>x. fe_fill_event_id (snd x)) ` set xs"
    using arg_cong [OF replay_events [OF step(3)], of set] by (force simp: image_iff)
  moreover have "fe_fill_event_id ?f \<notin> (\<lambda>x. fe_fill_event_id (snd x)) ` set xs"
    using Cons.prems(4) by simp
  ultimately have later: "fe_fill_event_id ?f \<notin> pe_fill_event_id ` set (rr_realized_pnl_events res1)"
    by blast
  have d: "distinct (map (\<lambda>x. fe_fill_event_id (snd x)) xs)" using Cons.prems(4) by simp
  have others: "event_of_fill lg' g = event_of_fill lg1 g"
    if "g \<notin> pe_fill_event_id ` set (rr_realized_pnl_events res1)" for g
    using IH [OF d] that by blast
  have all: "set (rr_realized_pnl_events res) = set_option ev1 \<union> set (rr_realized_pnl_events res1)"
    by (cases ev1) (simp_all add: step(4))
  have found: "\<exists>run'. event_of_fill lg' (pe_fill_event_id e) = Some (with_run run' e)"
    if "e \<in> set (rr_realized_pnl_events res)" for e
  proof (cases "ev1 = Some e")
    case True
    then have "event_of_fill lg' (pe_fill_event_id e) = Some (with_run (uuid_at (fst x) ''run'') e)"
      using others [of "fe_fill_event_id ?f"] later ev2 [of "fe_fill_event_id ?f"] ids by simp
    then show ?thesis by blast
  next
    case False
    then have "e \<in> set (rr_realized_pnl_events res1)" using that all by auto
    then show ?thesis using IH [OF d] by blast
  qed
  have kept: "event_of_fill lg' g = event_of_fill lg g"
    if "g \<notin> pe_fill_event_id ` set (rr_realized_pnl_events res)" for g
    using that others [of g] ev2 [of g] ids all by (cases ev1) auto
  have "\<forall>r \<in> set rs. \<exists>y. r = Inr y \<and> ar_status y = ''applied''"
    using IH [OF d] rs(2) b(2) by auto
  moreover have "state_get lg' a i = rr_final_state res"
    using IH [OF d] step(4) by simp
  moreover have "lg_queue lg' = lg_queue lg"
    using IH [OF d] b(3) by (simp add: booked_def)
  ultimately show ?case using found kept by blast
qed

section \<open>The invariant of the ledger\<close>

definition day_events :: "ledger \<Rightarrow> uuid \<Rightarrow> uuid \<Rightarrow> int \<Rightarrow> realized_pnl_event list" where
  "day_events lg a i d =
     filter (\<lambda>e. pe_account_id e = a \<and> pe_instrument_id e = i
                \<and> to_kst_trade_date (pe_fill_timestamp e) = d) (map snd (lg_events lg))"

definition aggregate_matches :: "daily_aggregate \<Rightarrow> realized_pnl_event list \<Rightarrow> bool" where
  "aggregate_matches g es \<longleftrightarrow>
     da_sell_event_count g = int (length es)
     \<and> da_realized_pnl_net_sum g = foldl (\<lambda>s e. dadd s (pe_realized_pnl_net e)) 0 es
     \<and> da_buy_amount_sum g =
         foldl (\<lambda>s e. dadd s (dmul (pe_sell_quantity e) (pe_avg_cost_basis_before e))) 0 es
     \<and> da_sell_amount_sum g =
         foldl (\<lambda>s e. dadd s (dmul (pe_sell_quantity e) (pe_sell_price e))) 0 es
     \<and> da_fee_tax_sum g = foldl (\<lambda>s e. dadd (dadd s (pe_fee e)) (pe_tax e)) 0 es"

definition aggregate_key :: "daily_aggregate \<Rightarrow> uuid \<times> uuid \<times> int" where
  "aggregate_key g = (da_account_id g, da_instrument_id g, da_trade_date g)"

definition aggregates_keyed :: "ledger \<Rightarrow> bool" where
  "aggregates_keyed lg \<longleftrightarrow> distinct (map fst (lg_aggregates lg))
     \<and> (\<forall>(k, g) \<in> set (lg_aggregates lg). k = aggregate_key g)"

definition aggregate_fits :: "daily_aggregate option \<Rightarrow> realized_pnl_event list \<Rightarrow> bool" where
  "aggregate_fits g es = (case g of None \<Rightarrow> es = [] | Some x \<Rightarrow> aggregate_matches x es)"

definition aggregates_ok :: "ledger \<Rightarrow> bool" where
  "aggregates_ok lg \<longleftrightarrow> aggregates_keyed lg \<and>
     (\<forall>a i d. aggregate_fits (map_of (lg_aggregates lg) (a, i, d)) (day_events lg a i d))"

definition states_ok :: "ledger \<Rightarrow> bool" where
  "states_ok lg \<longleftrightarrow>
     (\<forall>k s. map_of (lg_states lg) k = Some s \<longrightarrow> k = (cb_account_id s, cb_instrument_id s) \<and> cb_inv s)"

definition ledger_ok :: "(uuid \<Rightarrow> uuid \<Rightarrow> uuid) \<Rightarrow> ledger \<Rightarrow> bool" where
  "ledger_ok uuid5 lg \<longleftrightarrow>
     events_consistent (event_ids uuid5) lg \<and> states_ok lg \<and> aggregates_ok lg"

definition fill_event_dec :: "fill_event \<Rightarrow> bool" where
  "fill_event_dec f \<longleftrightarrow> is_dec (fe_fill_quantity f) \<and> is_dec (fe_fill_price f)
     \<and> is_dec (or_zero (fe_fill_fee f)) \<and> is_dec (or_zero (fe_fill_tax f))"

lemma fill_dec_lineage: "fill_event_dec f \<Longrightarrow> fill_dec (lineage_fill l f)"
  by (auto simp: fill_event_dec_def fill_dec_def lineage_fill_def build_normalized_fill_def
      normalize_fee_tax_def Let_def split_beta split: option.splits)

lemma filter_keyed:
  assumes "distinct (map fst xs)" "\<forall>(k, g) \<in> set xs. k = key g"
  shows "filter (\<lambda>g. key g = k) (map snd xs) = (case map_of xs k of None \<Rightarrow> [] | Some g \<Rightarrow> [g])"
  using assms
proof (induction xs)
  case (Cons x xs)
  obtain k' g where x: "x = (k', g)" by (cases x)
  show ?case
  proof (cases "k' = k")
    case True
    with Cons.prems x have "map_of xs k = None" by (simp add: map_of_eq_None_iff)
    with Cons x True show ?thesis by simp
  next
    case False
    with Cons x show ?thesis by auto
  qed
qed simp

lemma aggregates_between_day:
  assumes "aggregates_keyed lg"
  shows "aggregates_between lg a i (Some d) (Some d) =
    (case map_of (lg_aggregates lg) (a, i, d) of None \<Rightarrow> [] | Some g \<Rightarrow> [g])"
proof -
  have "aggregates_between lg a i (Some d) (Some d) =
      sort_key da_trade_date (filter (\<lambda>g. aggregate_key g = (a, i, d)) (map snd (lg_aggregates lg)))"
    unfolding aggregates_between_def option.case filter_filter
    by (intro arg_cong [where f = "sort_key da_trade_date"] filter_cong refl)
      (auto simp: aggregate_key_def)
  then show ?thesis
    using filter_keyed [of "lg_aggregates lg" aggregate_key "(a, i, d)"] assms
    by (simp add: aggregates_keyed_def split: option.splits)
qed

lemma states_ok_upsert:
  "states_ok lg \<Longrightarrow> cb_inv s \<Longrightarrow> states_ok (state_upsert s lg)"
  by (auto simp: states_ok_def state_upsert_def update_conv' split: if_splits)

lemma states_ok_cong: "lg_states lg' = lg_states lg \<Longrightarrow> states_ok lg' \<longleftrightarrow> states_ok lg"
  by (simp add: states_ok_def)

lemma aggregates_ok_cong:
  "lg_aggregates lg' = lg_aggregates lg \<Longrightarrow> lg_events lg' = lg_events lg \<Longrightarrow> aggregates_ok lg' \<longleftrightarrow> aggregates_ok lg"
proof -
  assume a: "lg_aggregates lg' = lg_aggregates lg" "lg_events lg' = lg_events lg"
  then have "day_events lg' = day_events lg" by (intro ext) (simp add: day_events_def)
  with a show ?thesis by (simp add: aggregates_ok_def aggregates_keyed_def)
qed

lemma states_ok_mark:
  assumes "states_ok lg" "st = state_get lg a i"
  shows "states_ok (mark_recompute_required a i st r lg)"
proof -
  have "cb_inv (case st of None \<Rightarrow> unopened_state a i | Some s \<Rightarrow> s)"
    using assms by (auto simp: states_ok_def state_get_def unopened_state_def cb_inv_def split: option.splits)
  then show ?thesis
    unfolding mark_recompute_required_def Let_def
    by (intro states_ok_upsert assms(1)) (simp add: cb_inv_def)
qed

lemma events_append:
  assumes "events_consistent i lg" "inj i" "pe_realized_pnl_event_id e = i (pe_fill_event_id e)"
    "event_of_fill lg (pe_fill_event_id e) = None"
  shows "lg_events (event_store e lg) = lg_events lg @ [(pe_realized_pnl_event_id e, e)]"
proof -
  have "map_of (lg_events lg) (pe_realized_pnl_event_id e) = None"
  proof (rule ccontr)
    assume "map_of (lg_events lg) (pe_realized_pnl_event_id e) \<noteq> None"
    then obtain x where "map_of (lg_events lg) (pe_realized_pnl_event_id e) = Some x" by auto
    then have "map_of (lg_event_by_fill lg) (pe_fill_event_id x) = Some (i (pe_fill_event_id e))"
      using assms(1,3) by (simp add: events_consistent_def)
    with event_index_injective [OF assms(1,2)] have "pe_fill_event_id x = pe_fill_event_id e" by blast
    with \<open>map_of (lg_event_by_fill lg) (pe_fill_event_id x) = _\<close> assms(1,4)
    show False by (simp add: event_of_fill_iff)
  qed
  then have "pe_realized_pnl_event_id e \<notin> fst ` set (lg_events lg)" by (simp add: map_of_eq_None_iff)
  then show ?thesis by (simp add: event_store_def update_new_key)
qed

lemma update_daily_aggregate_ok:
  assumes ok: "aggregates_ok lg" and ev: "lg_events lg' = lg_events lg @ [(k, e)]"
    and agg: "lg_aggregates lg' = lg_aggregates (update_daily_aggregate e lg)"
  shows "aggregates_ok lg'"
proof -
  let ?a = "pe_account_id e" and ?i = "pe_instrument_id e"
    and ?d = "to_kst_trade_date (pe_fill_timestamp e)"
  have keyed: "aggregates_keyed lg" using ok by (simp add: aggregates_ok_def)
  define old where "old = map_of (lg_aggregates lg) (?a, ?i, ?d)"
  have ex: "(case aggregates_between lg ?a ?i (Some ?d) (Some ?d) of [] \<Rightarrow> None | g # _ \<Rightarrow> Some g) = old"
    by (simp add: aggregates_between_day [OF keyed] old_def split: option.split)
  have day: "day_events lg' a i d = day_events lg a i d @
      (if (a, i, d) = (?a, ?i, ?d) then [e] else [])" for a i d
    by (auto simp: day_events_def ev)
  obtain g where g: "lg_aggregates lg' = AList.update (?a, ?i, ?d) g (lg_aggregates lg)"
      "aggregate_key g = (?a, ?i, ?d)" "aggregate_matches g (day_events lg ?a ?i ?d @ [e])"
  proof (rule that)
    let ?o = "\<lambda>f. case old of None \<Rightarrow> 0 | Some x \<Rightarrow> f x"
    let ?g = "\<lparr>da_account_id = ?a, da_instrument_id = ?i, da_trade_date = ?d,
       da_realized_pnl_net_sum = dadd (?o da_realized_pnl_net_sum) (pe_realized_pnl_net e),
       da_sell_event_count = (case old of None \<Rightarrow> 0 | Some x \<Rightarrow> da_sell_event_count x) + 1,
       da_computation_run_id = pe_computation_run_id e,
       da_buy_amount_sum = dadd (?o da_buy_amount_sum) (dmul (pe_sell_quantity e) (pe_avg_cost_basis_before e)),
       da_sell_amount_sum = dadd (?o da_sell_amount_sum) (dmul (pe_sell_quantity e) (pe_sell_price e)),
       da_fee_tax_sum = dadd (dadd (?o da_fee_tax_sum) (pe_fee e)) (pe_tax e), da_updated_at = None\<rparr>"
    show "lg_aggregates lg' = AList.update (?a, ?i, ?d) ?g (lg_aggregates lg)"
      unfolding agg update_daily_aggregate_def Let_def ex by (simp add: aggregate_upsert_def)
    show "aggregate_key ?g = (?a, ?i, ?d)" by (simp add: aggregate_key_def)
    have "aggregate_fits old (day_events lg ?a ?i ?d)"
      using ok by (simp add: aggregates_ok_def old_def)
    then show "aggregate_matches ?g (day_events lg ?a ?i ?d @ [e])"
      by (cases old) (simp_all add: aggregate_fits_def aggregate_matches_def)
  qed
  have "aggregates_keyed lg'"
    using keyed g(1,2) unfolding aggregates_keyed_def
    by (auto simp: distinct_update dest!: in_set_updateD)
  moreover have "aggregate_fits (map_of (lg_aggregates lg') (a, i, d)) (day_events lg' a i d)" for a i d
  proof (cases "(a, i, d) = (?a, ?i, ?d)")
    case True
    then show ?thesis using g(3) day [of a i d] by (simp add: g(1) update_conv' aggregate_fits_def)
  next
    case False
    then have "map_of (lg_aggregates lg') (a, i, d) = map_of (lg_aggregates lg) (a, i, d)"
      "day_events lg' a i d = day_events lg a i d"
      using day [of a i d] by (auto simp: g(1) update_conv')
    with ok show ?thesis by (simp add: aggregates_ok_def)
  qed
  ultimately show ?thesis by (simp add: aggregates_ok_def)
qed

lemma apply_fill_ok:
  assumes ok: "ledger_ok uuid5 lg" and inj: "inj (event_ids uuid5)" and dec: "fill_event_dec f"
    and eq: "apply_fill uuid5 ev f lg = (res, lg')"
  shows "ledger_ok uuid5 lg'"
proof -
  have cons: "events_consistent (event_ids uuid5) lg" using ok by (simp add: ledger_ok_def)
  have cons': "events_consistent (event_ids uuid5) lg'"
    using apply_fill_keeps_events(1) [OF eq cons inj] .
  from eq cons have "states_ok lg' \<and> aggregates_ok lg'"
  proof (cases rule: apply_fill_cases)
    case (applied l r s' event)
    let ?st = "state_get lg (fl_account_id l) (fl_instrument_id l)"
    have "cb_inv_opt ?st"
      using ok by (auto simp: ledger_ok_def states_ok_def state_get_def cb_inv_opt_def split: option.splits)
    then have "cb_inv s'"
      using apply_fill_inv [OF _ fill_dec_lineage [OF dec] applied(6)] by blast
    then have "states_ok lg'"
      using applied(9) ok states_ok_upsert states_ok_cong [of lg' "state_upsert s' lg"]
      by (auto simp: booked_def ledger_ok_def)
    moreover have "aggregates_ok lg'"
    proof (cases event)
      case None
      then show ?thesis
        using applied(9) ok aggregates_ok_cong [of lg' lg] by (simp add: booked_def ledger_ok_def)
    next
      case (Some e)
      have "lg_events (event_store e lg) = lg_events lg @ [(pe_realized_pnl_event_id e, e)]"
        using apply_fill_event [of uuid5 _ ?st "lineage_fill l f" s' e] applied(6,10) Some
        by (intro events_append [OF cons inj]) simp_all
      then show ?thesis
        using Some applied(9) ok update_daily_aggregate_ok [of lg lg' _ e]
        by (simp add: booked_def ledger_ok_def)
    qed
    ultimately show ?thesis by simp
  next
    case (aside l r)
    then obtain reason where "lg_states lg' = lg_states (mark_recompute_required (fl_account_id l)
        (fl_instrument_id l) (state_get lg (fl_account_id l) (fl_instrument_id l)) reason lg)"
      by (auto simp: set_aside_def)
    then have "states_ok lg'"
      using states_ok_mark [OF _ refl, of lg "fl_account_id l" "fl_instrument_id l" reason] ok
        states_ok_cong [of lg' "mark_recompute_required (fl_account_id l) (fl_instrument_id l)
          (state_get lg (fl_account_id l) (fl_instrument_id l)) reason lg"]
      by (simp add: ledger_ok_def)
    then show ?thesis
      using aside(4) ok aggregates_ok_cong [of lg' lg] by (simp add: set_aside_def ledger_ok_def)
  next
    case (no_lineage exc runs)
    then show ?thesis
      using ok states_ok_cong [of lg' lg] aggregates_ok_cong [of lg' lg] by (simp add: ledger_ok_def)
  next
    case (duplicate l r runs)
    then show ?thesis
      using ok states_ok_cong [of lg' lg] aggregates_ok_cong [of lg' lg] by (simp add: ledger_ok_def)
  qed
  with cons' show ?thesis by (simp add: ledger_ok_def)
qed

lemma book_fills_ok:
  assumes "ledger_ok uuid5 lg" "inj (event_ids uuid5)" "\<forall>x \<in> set xs. fill_event_dec (snd x)"
    "book_fills uuid5 xs lg = (rs, lg')"
  shows "ledger_ok uuid5 lg'"
  using assms
proof (induction xs arbitrary: lg rs)
  case (Cons x xs)
  obtain r lg1 where 1: "apply_fill uuid5 (fst x) (snd x) lg = (r, lg1)"
    by (cases "apply_fill uuid5 (fst x) (snd x) lg")
  obtain rs' where 2: "book_fills uuid5 xs lg1 = (rs', lg')"
    using Cons.prems(4) 1 by (cases "book_fills uuid5 xs lg1") auto
  have "ledger_ok uuid5 lg1" using apply_fill_ok [OF Cons.prems(1,2) _ 1] Cons.prems(3) by simp
  with Cons.IH 2 Cons.prems show ?case by simp
qed simp

section \<open>Example\<close>

definition ex_ledger_order :: "uuid \<Rightarrow> order_side \<Rightarrow> order_request" where
  "ex_ledger_order k side =
     \<lparr>or_order_request_id = k, or_account_id = 1, or_instrument_id = 2, or_client_order_id = ''c'',
      or_idempotency_key = ''k'', or_correlation_id = ''x'', or_side = side, or_order_type = LIMIT,
      or_requested_quantity = 10, or_status = FILLED, or_trade_decision_id = None,
      or_decision_context_id = None, or_requested_price = None, or_time_in_force = DAY,
      or_status_reason_code = None, or_status_reason_message = None, or_submitted_at = None,
      or_created_at = Some 50, or_updated_at = None, or_version = 1, or_order_intent_id = None\<rparr>"

definition ex_broker_order :: "uuid \<Rightarrow> uuid \<Rightarrow> broker_order" where
  "ex_broker_order k req =
     \<lparr>bo_broker_order_id = k, bo_order_request_id = req, bo_broker_name = ''koreainvestment'',
      bo_broker_status = ''filled'', bo_broker_native_order_id = None, bo_last_synced_at = None,
      bo_created_at = None, bo_updated_at = None\<rparr>"

definition ex_ledger_repos :: repos where
  "ex_ledger_repos =
     \<lparr>rp_accounts = [], rp_instruments = [], rp_strategies = [],
      rp_orders = [(3, ex_ledger_order 3 BUY), (4, ex_ledger_order 4 SELL)],
      rp_excluded_account_ids = [],
      rp_broker_orders = [(5, ex_broker_order 5 3), (6, ex_broker_order 6 4)],
      rp_submission_attempts = [], rp_order_state_events = [], rp_audit_logs = [],
      rp_reconciliations = \<lparr>rc_runs = [], rc_order_links = [], rc_position_links = [],
                            rc_blocking_locks = []\<rparr>\<rparr>"

definition ex_ledger :: ledger where
  "ex_ledger =
     \<lparr>lg_repos = ex_ledger_repos, lg_fill_events = [], lg_fill_events_by_fill_id = [],
      lg_states = [], lg_events = [], lg_event_by_fill = [], lg_aggregates = [], lg_runs = [],
      lg_queue = [], lg_buy_overlays = [], lg_buy_overlay_by_fill = [], lg_sell_overlays = [],
      lg_sell_overlay_by_fill = []\<rparr>"

definition ex_booking :: "uuid \<Rightarrow> uuid \<Rightarrow> rat \<Rightarrow> timestamp \<Rightarrow> env \<times> fill_event" where
  "ex_booking k bo qty t =
     (\<lparr>ev_now = (\<lambda>_. t), ev_uuid = (\<lambda>_. k + 20)\<rparr>,
      \<lparr>fe_fill_event_id = k, fe_broker_order_id = bo, fe_fill_timestamp = t, fe_fill_price = 100,
       fe_fill_quantity = qty, fe_source_channel = ''rest'', fe_broker_fill_id = None,
       fe_fill_fee = None, fe_fill_tax = None, fe_fee_tax_source = None, fe_raw_payload_uri = None,
       fe_created_at = None\<rparr>)"

definition ex_lineage :: "env \<times> fill_event \<Rightarrow> fill_lineage" where
  "ex_lineage x =
     \<lparr>fl_account_id = 1, fl_instrument_id = 2,
      fl_order_request_id = (if fe_broker_order_id (snd x) = 5 then 3 else 4),
      fl_side = (if fe_broker_order_id (snd x) = 5 then BUY else SELL)\<rparr>"

abbreviation ex_bought :: "env \<times> fill_event" where "ex_bought \<equiv> ex_booking 10 5 10 100"
abbreviation ex_sold :: "env \<times> fill_event" where "ex_sold \<equiv> ex_booking 11 6 4 200"
abbreviation ex_late :: "env \<times> fill_event" where "ex_late \<equiv> ex_booking 12 5 5 150"
abbreviation ex_sold_again :: "env \<times> fill_event" where "ex_sold_again \<equiv> ex_booking 13 6 1 300"

lemma inj_ex_uuid5: "inj (event_ids ex_uuid5)"
  by (simp add: inj_def derive_realized_pnl_event_id_def)

lemma ex_ledger_ok: "ledger_ok ex_uuid5 ex_ledger"
  by (simp add: ledger_ok_def ex_ledger_def events_consistent_def states_ok_def aggregates_ok_def
      aggregates_keyed_def aggregate_fits_def day_events_def)

lemma ex_booking_dec: "is_dec qty \<Longrightarrow> fill_event_dec (snd (ex_booking k bo qty t))"
  by (simp add: ex_booking_def fill_event_dec_def or_zero_def)

lemma ex_resolved:
  "lg_repos lg = ex_ledger_repos \<Longrightarrow> bo \<in> {5, 6} \<Longrightarrow>
     resolve_lineage lg (snd (ex_booking k bo q t)) = Inr (ex_lineage (ex_booking k bo q t))"
  by (auto simp: resolve_lineage_def ex_ledger_repos_def broker_order_get_def order_get_def
      ex_broker_order_def ex_ledger_order_def ex_lineage_def ex_booking_def)

lemma ex_replay:
  "is_ok (replay_fills ex_uuid5 9 None
     (map (\<lambda>x. lineage_fill (ex_lineage x) (snd x)) [ex_bought, ex_sold]))"
  by (simp add: lineage_fill_def build_normalized_fill_def normalize_fee_tax_def or_zero_def
      ex_lineage_def ex_booking_def replay_fills_def apply_fill_to_cost_basis_def validate_fill_def
      apply_buy_def apply_sell_def next_state_def Let_def dec_eval)

lemma ex_replayed:
  obtains res rs lg' where "replay_fills ex_uuid5 9 (state_get ex_ledger 1 2)
       (map (\<lambda>x. lineage_fill (ex_lineage x) (snd x)) [ex_bought, ex_sold]) = Inr res"
     "book_fills ex_uuid5 [ex_bought, ex_sold] ex_ledger = (rs, lg')"
proof -
  have "state_get ex_ledger 1 2 = None" by (simp add: state_get_def ex_ledger_def)
  then show thesis
    using ex_replay that by (cases "book_fills ex_uuid5 [ex_bought, ex_sold] ex_ledger")
      (auto simp: is_ok_iff)
qed

definition statuses :: "(ledger_error + apply_fill_result) list \<Rightarrow> string list" where
  "statuses rs = map (\<lambda>r. case r of Inl _ \<Rightarrow> [] | Inr y \<Rightarrow> ar_status y) rs"

lemma ex_statuses: "statuses (fst (book_fills ex_uuid5 [ex_bought, ex_sold, ex_late, ex_sold_again] ex_ledger)) =
  [''applied'', ''applied'', ''recompute_required'', ''applied'']"
  by (simp add: statuses_def ex_booking_def ex_ledger_def ex_ledger_repos_def ex_broker_order_def
   ex_ledger_order_def apply_fill_def resolve_lineage_def run_put_def broker_order_get_def order_get_def
   state_get_def check_duplicate_def event_of_fill_def build_normalized_fill_def normalize_fee_tax_def
   or_zero_def new_run_def apply_fill_to_cost_basis_def validate_fill_def apply_buy_def apply_sell_def
   next_state_def Let_def dec_eval write_result_def state_upsert_def event_add_def event_store_def
   update_daily_aggregate_def aggregates_between_def aggregate_upsert_def needs_recompute_def queue_add_def
   mark_recompute_required_def recompute_request_def uuid_at_def now_at_def finalized_def derive_realized_pnl_event_id_def)

text \<open>The ledger after each of the bookings.\<close>

definition ex_after :: "(env \<times> fill_event) list \<Rightarrow> ledger" where
  "ex_after xs = snd (book_fills ex_uuid5 xs ex_ledger)"

lemma book_fills_append:
  "book_fills uuid5 (xs @ ys) lg =
     (let (rs, lg1) = book_fills uuid5 xs lg; (rs', lg2) = book_fills uuid5 ys lg1 in (rs @ rs', lg2))"
  by (induction xs arbitrary: lg) (simp_all add: split_beta Let_def)

lemma ex_after_step:
  assumes "statuses (fst (book_fills ex_uuid5 (xs @ [x]) ex_ledger)) = ss @ [s]" "s \<noteq> []"
  obtains r where "apply_fill ex_uuid5 (fst x) (snd x) (ex_after xs) = (Inr r, ex_after (xs @ [x]))"
    "ar_status r = s"
proof -
  obtain res lg' where a: "apply_fill ex_uuid5 (fst x) (snd x) (ex_after xs) = (res, lg')"
    by (cases "apply_fill ex_uuid5 (fst x) (snd x) (ex_after xs)")
  then have "lg' = ex_after (xs @ [x])" "statuses [res] = [s]"
    using assms(1) by (simp_all add: ex_after_def book_fills_append split_beta Let_def statuses_def)
  with a assms(2) that show thesis
    by (cases res) (auto simp: statuses_def)
qed

lemma ex_prefix_statuses:
  "statuses (fst (book_fills ex_uuid5 ([ex_bought] @ [ex_sold]) ex_ledger)) = [''applied''] @ [''applied'']"
  "statuses (fst (book_fills ex_uuid5 ([ex_bought, ex_sold] @ [ex_late]) ex_ledger)) =
     [''applied'', ''applied''] @ [''recompute_required'']"
  "statuses (fst (book_fills ex_uuid5 ([ex_bought, ex_sold, ex_late] @ [ex_sold_again]) ex_ledger)) =
     [''applied'', ''applied'', ''recompute_required''] @ [''applied'']"
  using ex_statuses by (simp_all add: statuses_def split_beta Let_def)

lemma ex_after_ok: "\<forall>x \<in> set xs. fill_event_dec (snd x) \<Longrightarrow> ledger_ok ex_uuid5 (ex_after xs)"
  unfolding ex_after_def by (rule book_fills_ok [OF ex_ledger_ok inj_ex_uuid5]) (auto intro: prod.collapse [symmetric])

lemma ex_after_repos: "lg_repos (ex_after xs) = ex_ledger_repos"
proof -
  have "book_fills ex_uuid5 xs ex_ledger = (fst (book_fills ex_uuid5 xs ex_ledger), ex_after xs)"
    by (simp add: ex_after_def)
  from book_fills_keeps_events [OF this] show ?thesis
    using ex_ledger_ok inj_ex_uuid5 by (simp add: ledger_ok_def ex_ledger_def)
qed

section \<open>Properties\<close>

text \<open>C2. Whatever fills arrive, the books stay consistent: every position satisfies the cost basis
  invariant, every sale has one event, found by its fill, and every daily aggregate is exactly the
  running sum of the events of its day, in the arithmetic of the program.\<close>

theorem ledger_stays_consistent:
  assumes "ledger_ok uuid5 lg" and "inj (derive_realized_pnl_event_id uuid5)"
    and "\<forall>x \<in> set xs. fill_event_dec (snd x)" and "book_fills uuid5 xs lg = (rs, lg')"
  shows "ledger_ok uuid5 lg'"
  using assms by (rule book_fills_ok)

theorem ledger_stays_consistent_witness:
  "ledger_ok ex_uuid5 (snd (book_fills ex_uuid5 [ex_bought, ex_sold, ex_late, ex_sold_again] ex_ledger))"
  using ledger_stays_consistent [OF ex_ledger_ok inj_ex_uuid5, of "[ex_bought, ex_sold, ex_late, ex_sold_again]"]
  by (simp add: ex_booking_dec split_beta)

text \<open>C8. Booking fills one by one as they arrive is replaying them: when a replay accepts the fills,
  every booking is applied, the position ends in the state of the replay, the events of the
  replay are stored (up to the run that computed them), all other events stay, and nothing is
  queued for recomputation.\<close>

theorem booking_is_replaying:
  assumes "replay_fills uuid5 run (state_get lg a i) (map (\<lambda>x. lineage_fill (lin x) (snd x)) xs) = Inr res"
    and "\<forall>x \<in> set xs. resolve_lineage lg (snd x) = Inr (lin x) \<and> fl_account_id (lin x) = a
           \<and> fl_instrument_id (lin x) = i"
    and "distinct (map (\<lambda>x. fe_fill_event_id (snd x)) xs)"
    and "\<forall>x \<in> set xs. event_of_fill lg (fe_fill_event_id (snd x)) = None
           \<and> (\<forall>s. state_get lg a i = Some s \<longrightarrow>
                cb_last_applied_fill_event_id s \<noteq> Some (fe_fill_event_id (snd x)))"
    and "ledger_ok uuid5 lg" and "inj (derive_realized_pnl_event_id uuid5)"
    and "book_fills uuid5 xs lg = (rs, lg')"
  shows "(\<forall>r \<in> set rs. \<exists>y. r = Inr y \<and> ar_status y = ''applied'')
    \<and> state_get lg' a i = rr_final_state res \<and> lg_queue lg' = lg_queue lg
    \<and> (\<forall>e \<in> set (rr_realized_pnl_events res). \<exists>run'.
         event_of_fill lg' (pe_fill_event_id e) = Some (with_run run' e))
    \<and> (\<forall>g. g \<notin> pe_fill_event_id ` set (rr_realized_pnl_events res) \<longrightarrow> event_of_fill lg' g = event_of_fill lg g)"
  using assms(5) by (intro booking_replays [OF assms(1,2) refl assms(3,4) _ assms(6,7)])
    (simp add: ledger_ok_def)

theorem booking_is_replaying_witness:
  "\<exists>res rs lg'. replay_fills ex_uuid5 9 None
       (map (\<lambda>x. lineage_fill (ex_lineage x) (snd x)) [ex_bought, ex_sold]) = Inr res
     \<and> book_fills ex_uuid5 [ex_bought, ex_sold] ex_ledger = (rs, lg')
     \<and> length rs = 2 \<and> state_get lg' 1 2 = rr_final_state res"
proof -
  have st: "state_get ex_ledger 1 2 = None" by (simp add: state_get_def ex_ledger_def)
  obtain res rs lg' where r: "replay_fills ex_uuid5 9 (state_get ex_ledger 1 2)
       (map (\<lambda>x. lineage_fill (ex_lineage x) (snd x)) [ex_bought, ex_sold]) = Inr res"
     "book_fills ex_uuid5 [ex_bought, ex_sold] ex_ledger = (rs, lg')"
    by (rule ex_replayed)
  have "state_get lg' 1 2 = rr_final_state res"
    using booking_is_replaying [OF r(1) _ _ _ ex_ledger_ok inj_ex_uuid5 r(2)]
    by (simp add: ex_resolved ex_ledger_def event_of_fill_def state_get_def)
      (simp add: ex_booking_def ex_lineage_def)
  moreover have "length rs = 2" using r(2) by (auto simp: split_beta)
  ultimately show ?thesis using r st by auto
qed

text \<open>C29. A sale is booked once: presenting an applied sale again, after any further bookings, is
  recognised, returns the event of the first booking and changes nothing but the run log.\<close>

theorem sale_is_booked_once:
  assumes "events_consistent (derive_realized_pnl_event_id uuid5) lg" "inj (derive_realized_pnl_event_id uuid5)"
    and first: "apply_fill uuid5 ev f lg = (Inr r, lg1)" "ar_status r = ''applied''"
    and sale: "resolve_lineage lg f = Inr l" "fl_side l = SELL"
    and later: "book_fills uuid5 xs lg1 = (rs, lg2)"
    and again: "apply_fill uuid5 ev' f lg2 = (res, lg3)"
  shows "\<exists>y. res = Inr y \<and> ar_status y = ''skipped_duplicate''
    \<and> ar_realized_pnl_event y = ar_realized_pnl_event r \<and> lg3 = lg2\<lparr>lg_runs := lg_runs lg3\<rparr>"
proof -
  note k1 = apply_fill_keeps_events [OF first(1) assms(1,2)]
  note k2 = book_fills_keeps_events [OF later k1(1) assms(2)]
  from first(1) assms(1) obtain e where e: "ar_realized_pnl_event r = Some e"
      "event_of_fill lg1 (fe_fill_event_id f) = Some e"
  proof (cases rule: apply_fill_cases)
    case (applied l' r' s' event)
    then have [simp]: "l' = l" "r' = r" using sale(1) by simp_all
    obtain e where ev: "event = Some e"
      using apply_fill_event_iff_sell [OF applied(6)] sale(2) by auto
    note ids = apply_fill_event [OF applied(6) [unfolded ev]]
    have "event_of_fill lg1 (fe_fill_event_id f) = Some e"
      using booked_events(2) [OF applied(9) assms(1,2), of "fe_fill_event_id f"] ev ids applied(10)
      by simp
    with ev applied(5) that show thesis by simp
  qed (use first(2) in auto)
  then have e2: "event_of_fill lg2 (fe_fill_event_id f) = Some e" using k2 by blast
  have l2: "resolve_lineage lg2 f = Inr l"
    using resolve_lineage_cong [of lg2 lg] k1(2) k2 sale(1) by simp
  have dup: "check_duplicate lg2 st f (lineage_fill l f) = (True, Some e)" for st
    using e2 sale(2) by (simp add: check_duplicate_def)
  show ?thesis
    using again e(1) by (auto simp: apply_fill_unfold [OF l2] dup run_put_def Let_def)
qed

theorem sale_is_booked_once_witness:
  "\<exists>y. fst (apply_fill ex_uuid5 (fst ex_sold) (snd ex_sold)
        (ex_after [ex_bought, ex_sold, ex_late, ex_sold_again])) = Inr y
     \<and> ar_status y = ''skipped_duplicate''"
proof -
  let ?lg = "ex_after [ex_bought]"
  obtain r where r: "apply_fill ex_uuid5 (fst ex_sold) (snd ex_sold) ?lg = (Inr r, ex_after [ex_bought, ex_sold])"
      "ar_status r = ''applied''"
    using ex_after_step [OF ex_prefix_statuses(1)] by auto
  obtain rs where later: "book_fills ex_uuid5 [ex_late, ex_sold_again] (ex_after [ex_bought, ex_sold])
      = (rs, ex_after [ex_bought, ex_sold, ex_late, ex_sold_again])"
    by (simp add: ex_after_def split_beta Let_def)
  obtain res lg3 where again: "apply_fill ex_uuid5 (fst ex_sold) (snd ex_sold)
      (ex_after [ex_bought, ex_sold, ex_late, ex_sold_again]) = (res, lg3)"
    by (cases "apply_fill ex_uuid5 (fst ex_sold) (snd ex_sold)
      (ex_after [ex_bought, ex_sold, ex_late, ex_sold_again])")
  have "events_consistent (event_ids ex_uuid5) ?lg" "lg_repos ?lg = ex_ledger_repos"
    using ex_after_ok [of "[ex_bought]"] ex_after_repos
    by (simp_all add: ex_booking_dec ledger_ok_def)
  then show ?thesis
    using sale_is_booked_once [OF _ inj_ex_uuid5 r _ _ later again] ex_resolved [of ?lg 6 11 4 200] again
    by (auto simp: ex_lineage_def ex_booking_def)
qed

text \<open>The mark for recomputation is lost with the next fill: after a fill was set aside and its
  position marked, the next fill that is applied to the position clears the mark, because the
  engine builds the new state without it, while the request is still pending.\<close>

theorem next_fill_clears_recompute_mark:
  assumes ok: "ledger_ok uuid5 lg" "inj (derive_realized_pnl_event_id uuid5)"
    and late: "apply_fill uuid5 ev f lg = (Inr r, lg1)" "ar_status r = ''recompute_required''"
      "resolve_lineage lg f = Inr l"
    and after: "apply_fill uuid5 ev' f' lg1 = (Inr r', lg2)" "ar_status r' = ''applied''"
      "resolve_lineage lg f' = Inr l'"
    and same: "fl_account_id l' = fl_account_id l" "fl_instrument_id l' = fl_instrument_id l"
  shows "(\<exists>s. state_get lg1 (fl_account_id l) (fl_instrument_id l) = Some s \<and> cb_recompute_required s)
    \<and> (\<exists>s. state_get lg2 (fl_account_id l) (fl_instrument_id l) = Some s \<and> \<not> cb_recompute_required s)
    \<and> (\<exists>q. map_of (lg_queue lg2) (uuid_at ev ''queue'') = Some q \<and> rq_resolved_at q = None
         \<and> rq_triggering_fill_event_id q = Some (fe_fill_event_id f))"
proof -
  let ?a = "fl_account_id l" and ?i = "fl_instrument_id l"
  have cons: "events_consistent (event_ids uuid5) lg" using ok(1) by (simp add: ledger_ok_def)
  have set: "set_aside ev l f lg lg1"
    using late(1) cons
  proof (cases rule: apply_fill_cases)
    case (aside l0 r0)
    with late(3) show ?thesis by simp
  qed (use late(2) in auto)
  note k = apply_fill_keeps_events [OF late(1) cons ok(2)]
  have l1: "resolve_lineage lg1 f' = Inr l'"
    using resolve_lineage_cong [of lg1 lg] k(2) after(3) by simp
  from after(1) k(1) obtain s' event where bk: "booked ev' l' f' s' event lg1 lg2"
      "apply_fill_to_cost_basis uuid5 (uuid_at ev' ''run'') (state_get lg1 ?a ?i) (lineage_fill l' f') = Inr (s', event)"
  proof (cases rule: apply_fill_cases)
    case (applied l0 r0 s' event)
    with l1 same that show thesis by simp
  qed (use after(2) in auto)
  have key: "cb_account_id s = ?a \<and> cb_instrument_id s = ?i" if "state_get lg ?a ?i = Some s" for s
    using ok(1) that by (auto simp: ledger_ok_def states_ok_def state_get_def)
  have "\<exists>s. state_get lg1 ?a ?i = Some s \<and> cb_recompute_required s"
  proof -
    obtain reason where "lg_states lg1 = lg_states (mark_recompute_required ?a ?i (state_get lg ?a ?i) reason lg)"
      using set by (auto simp: set_aside_def)
    then have s1: "state_get lg1 ?a ?i = state_get (mark_recompute_required ?a ?i (state_get lg ?a ?i) reason lg) ?a ?i"
      by (simp add: state_get_def)
    show ?thesis
    proof (cases "state_get lg ?a ?i")
      case None
      then show ?thesis
        unfolding s1 by (simp add: mark_recompute_required_def unopened_state_def Let_def)
    next
      case (Some s)
      then show ?thesis
        unfolding s1 using key [OF Some] by (simp add: mark_recompute_required_def Let_def)
    qed
  qed
  moreover have "state_get lg2 ?a ?i = Some s' \<and> \<not> cb_recompute_required s'"
    using booked_state [OF bk(1), of ?a ?i] apply_fill_new_state [OF bk(2)] same by simp
  moreover have "\<exists>q. map_of (lg_queue lg2) (uuid_at ev ''queue'') = Some q \<and> rq_resolved_at q = None
         \<and> rq_triggering_fill_event_id q = Some (fe_fill_event_id f)"
    using set bk(1)
    by (auto simp: set_aside_def booked_def queue_add_def recompute_request_def update_conv')
  ultimately show ?thesis by blast
qed

theorem next_fill_clears_recompute_mark_witness:
  "\<exists>s q. state_get (ex_after [ex_bought, ex_sold, ex_late, ex_sold_again]) 1 2 = Some s
     \<and> \<not> cb_recompute_required s
     \<and> map_of (lg_queue (ex_after [ex_bought, ex_sold, ex_late, ex_sold_again])) 32 = Some q
     \<and> rq_resolved_at q = None"
proof -
  let ?lg = "ex_after [ex_bought, ex_sold]"
  obtain r where r: "apply_fill ex_uuid5 (fst ex_late) (snd ex_late) ?lg
      = (Inr r, ex_after [ex_bought, ex_sold, ex_late])" "ar_status r = ''recompute_required''"
    using ex_after_step [OF ex_prefix_statuses(2)] by auto
  obtain r' where r': "apply_fill ex_uuid5 (fst ex_sold_again) (snd ex_sold_again)
      (ex_after [ex_bought, ex_sold, ex_late])
      = (Inr r', ex_after [ex_bought, ex_sold, ex_late, ex_sold_again])" "ar_status r' = ''applied''"
    using ex_after_step [OF ex_prefix_statuses(3)] by auto
  have ok: "ledger_ok ex_uuid5 ?lg" "lg_repos ?lg = ex_ledger_repos"
    using ex_after_ok [of "[ex_bought, ex_sold]"] ex_after_repos
    by (simp_all add: ex_booking_dec)
  have "resolve_lineage ?lg (snd ex_late) = Inr (ex_lineage ex_late)"
    "resolve_lineage ?lg (snd ex_sold_again) = Inr (ex_lineage ex_sold_again)"
    using ok(2) by (simp_all add: ex_resolved)
  from next_fill_clears_recompute_mark [OF ok(1) inj_ex_uuid5 r this(1) r' this(2)]
  show ?thesis by (auto simp: ex_lineage_def ex_booking_def uuid_at_def)
qed

end
