(* ===== verification/Recompute.thy ===== *)
theory Recompute
  imports Ledger "HOL-Library.List_Lexorder" "HOL-Library.Char_ord"
begin

text \<open>
  Recomputation of a position from its fills (\<^verbatim>\<open>services/realized_pnl_recompute_service.py\<close>): all
  fills of an account and instrument are collected through their orders, overlaid with estimated
  fees, sorted, replayed from the beginning, and the events, daily aggregates and the state of
  the position are overwritten; pending requests are resolved.

  Time stamps without \<open>created_at\<close> sort last (\<open>datetime.max\<close>), and the text of a \<open>UUID\<close> sorts like its
  number.  The writes of the in-memory repositories do not raise, so the branch for a failed
  write has no counterpart here.
\<close>

section \<open>Collecting fills\<close>

definition order_lookup_limit :: nat where "order_lookup_limit = 100000"

definition fill_sort_key ::
  "fill_event \<Rightarrow> timestamp \<times> (nat \<times> string) \<times> (nat \<times> timestamp) \<times> uuid" where
  "fill_sort_key f =
     (fe_fill_timestamp f,
      (case fe_broker_fill_id f of Some t \<Rightarrow> (0, t) | None \<Rightarrow> (1, [])),
      (case fe_created_at f of Some t \<Rightarrow> (0, t) | None \<Rightarrow> (1, 0)),
      fe_fill_event_id f)"

definition effective_fill_event :: "ledger \<Rightarrow> fill_event \<Rightarrow> fill_event" where
  "effective_fill_event lg fill_event =
     (let f = (case buy_overlay_of_fill lg (fe_fill_event_id fill_event) of
                 None \<Rightarrow> fill_event
               | Some o1 \<Rightarrow>
                   fill_event\<lparr>fe_fill_fee := Some (bv_estimated_fee o1), fe_fill_tax := Some 0,
                     fe_fee_tax_source := Some (fee_tax_source_value HISTORICAL_POLICY_ESTIMATE)\<rparr>)
      in case sell_overlay_of_fill lg (fe_fill_event_id fill_event) of
           None \<Rightarrow> f
         | Some o2 \<Rightarrow>
             f\<lparr>fe_fill_fee := Some (sv_estimated_fee o2), fe_fill_tax := Some (sv_estimated_tax o2),
               fe_fee_tax_source := Some (fee_tax_source_value HISTORICAL_POLICY_ESTIMATE)\<rparr>)"

definition order_fill_rows :: "ledger \<Rightarrow> uuid \<Rightarrow> uuid \<Rightarrow> order_request \<Rightarrow> (fill_event \<times> normalized_fill) list" where
  "order_fill_rows lg account_id instrument_id order =
     concat (map (\<lambda>broker_order.
       map (\<lambda>fill_event.
         (fill_event,
          build_normalized_fill account_id instrument_id (or_order_request_id order) (or_side order)
            (effective_fill_event lg fill_event)))
         (fills_of_broker_order lg (bo_broker_order_id broker_order)))
       (broker_orders_of_request (lg_repos lg) (or_order_request_id order)))"

definition collect_ordered_normalized_fills ::
  "ledger \<Rightarrow> uuid \<Rightarrow> uuid \<Rightarrow> ledger_error + normalized_fill list" where
  "collect_ordered_normalized_fills lg account_id instrument_id =
     (case order_list (lg_repos lg)
             (any_order\<lparr>oq_account_id := Some account_id, oq_limit := order_lookup_limit\<rparr>) of
        Inl e \<Rightarrow> Inl (Order_List_Failed e)
      | Inr orders \<Rightarrow>
          (let matching_orders = filter (\<lambda>o1. or_instrument_id o1 = instrument_id) orders;
               fill_rows = concat (map (order_fill_rows lg account_id instrument_id) matching_orders)
           in Inr (map snd (sort_key (\<lambda>pair. fill_sort_key (fst pair)) fill_rows))))"

section \<open>Rebuilding aggregates\<close>

fun group_keys :: "'k list \<Rightarrow> 'k list \<Rightarrow> 'k list" where
  "group_keys [] seen = seen"
| "group_keys (k # ks) seen = group_keys ks (if k \<in> set seen then seen else seen @ [k])"

definition rebuilt_aggregate ::
  "uuid \<Rightarrow> uuid \<Rightarrow> uuid \<Rightarrow> int \<Rightarrow> realized_pnl_event list \<Rightarrow> daily_aggregate" where
  "rebuilt_aggregate account_id instrument_id run_id trade_date events_of_day =
     \<lparr>da_account_id = account_id,
      da_instrument_id = instrument_id,
      da_trade_date = trade_date,
      da_realized_pnl_net_sum = foldl (\<lambda>s e. dadd s (pe_realized_pnl_net e)) 0 events_of_day,
      da_sell_event_count = int (length events_of_day),
      da_computation_run_id = run_id,
      da_buy_amount_sum =
        foldl (\<lambda>s e. dadd s (dmul (pe_sell_quantity e) (pe_avg_cost_basis_before e))) 0 events_of_day,
      da_sell_amount_sum =
        foldl (\<lambda>s e. dadd s (dmul (pe_sell_quantity e) (pe_sell_price e))) 0 events_of_day,
      da_fee_tax_sum = foldl (\<lambda>s e. dadd s (dadd (pe_fee e) (pe_tax e))) 0 events_of_day,
      da_updated_at = None\<rparr>"

text \<open>\<open>grouped\<close> keeps the dates in the order of their first event.\<close>

definition rebuild_daily_aggregates ::
  "uuid \<Rightarrow> uuid \<Rightarrow> realized_pnl_event list \<Rightarrow> uuid \<Rightarrow> ledger \<Rightarrow> ledger" where
  "rebuild_daily_aggregates account_id instrument_id events run_id lg =
     (let date = (\<lambda>e. to_kst_trade_date (pe_fill_timestamp e))
      in fold (\<lambda>d. aggregate_upsert (rebuilt_aggregate account_id instrument_id run_id d
                       (filter (\<lambda>e. date e = d) events)))
           (group_keys (map date events) []) lg)"

section \<open>The service\<close>

record recompute_outcome =
  ro_account_id :: uuid
  ro_instrument_id :: uuid
  ro_computation_run :: computation_run
  ro_resolved_queue_item_ids :: "uuid list"

definition resolve_pending_queue_items ::
  "timestamp \<Rightarrow> uuid \<Rightarrow> uuid \<Rightarrow> uuid \<Rightarrow> ledger \<Rightarrow> uuid list \<times> ledger" where
  "resolve_pending_queue_items now account_id instrument_id run_id lg =
     (let matching = filter (\<lambda>item. rq_account_id item = account_id \<and> rq_instrument_id item = instrument_id)
                       (list_pending lg 1000);
          ids = map rq_recompute_queue_id matching
      in (ids, fold (\<lambda>i. queue_mark_resolved now i run_id) ids lg))"

text \<open>What a successful replay writes: events, aggregates and last the position without its mark.\<close>

definition persist_replay :: "uuid \<Rightarrow> uuid \<Rightarrow> uuid \<Rightarrow> replay_result \<Rightarrow> ledger \<Rightarrow> ledger" where
  "persist_replay account_id instrument_id run_id result lg =
     (let lg = fold event_upsert (rr_realized_pnl_events result) lg;
          lg = rebuild_daily_aggregates account_id instrument_id (rr_realized_pnl_events result) run_id lg
      in case rr_final_state result of
           None \<Rightarrow> lg
         | Some s \<Rightarrow> state_upsert (s\<lparr>cb_recompute_required := False, cb_recompute_reason := None\<rparr>) lg)"

definition recompute_account_instrument ::
  "(uuid \<Rightarrow> uuid \<Rightarrow> uuid) \<Rightarrow> env \<Rightarrow> uuid \<Rightarrow> uuid \<Rightarrow> ledger \<Rightarrow> recompute_outcome \<times> ledger" where
  "recompute_account_instrument uuid5 ev account_id instrument_id lg =
     (let run = new_run (uuid_at ev ''run'') BACKFILL_REPLAY (Some account_id) (now_at ev ''started'');
          lg = run_put run lg;
          outcome = (\<lambda>run ids. \<lparr>ro_account_id = account_id, ro_instrument_id = instrument_id,
                       ro_computation_run = run, ro_resolved_queue_item_ids = ids\<rparr>);
          failed = (\<lambda>phase exc. finalized (now_at ev ''completed'') ''failed'' 0 0 0 1
                      (Some (Summary_Error (Some phase) exc)) run)
      in case collect_ordered_normalized_fills lg account_id instrument_id of
           Inl exc \<Rightarrow> (outcome (failed ''collect_fills'' exc) [], run_put (failed ''collect_fills'' exc) lg)
         | Inr ordered_fills \<Rightarrow>
             (case replay_fills uuid5 (cr_computation_run_id run) None ordered_fills of
                Inl exc \<Rightarrow>
                  (outcome (failed ''replay'' (Engine_Error exc)) [],
                   run_put (failed ''replay'' (Engine_Error exc)) lg)
              | Inr replay_result \<Rightarrow>
                  (let lg = persist_replay account_id instrument_id (cr_computation_run_id run)
                              replay_result lg;
                       completed = finalized (now_at ev ''completed'') ''completed'' 0 0
                               (int (length ordered_fills)) 0 None run;
                       lg = run_put completed lg;
                       (ids, lg) = resolve_pending_queue_items (now_at ev ''resolved'') account_id
                                     instrument_id (cr_computation_run_id run) lg
                   in (outcome completed ids, lg))))"

fun process_items ::
  "(uuid \<Rightarrow> uuid \<Rightarrow> uuid) \<Rightarrow> (nat \<Rightarrow> env) \<Rightarrow> recompute_item list \<Rightarrow> (uuid \<times> uuid) list \<Rightarrow> ledger
   \<Rightarrow> recompute_outcome list \<times> ledger" where
  "process_items uuid5 envs [] seen lg = ([], lg)"
| "process_items uuid5 envs (item # items) seen lg =
     (let key = (rq_account_id item, rq_instrument_id item)
      in if key \<in> set seen then process_items uuid5 envs items seen lg
         else (let (out, lg1) =
                     recompute_account_instrument uuid5 (envs (length seen)) (fst key) (snd key) lg;
                   (outs, lg2) = process_items uuid5 envs items (key # seen) lg1
               in (out # outs, lg2)))"

definition process_pending_queue ::
  "(uuid \<Rightarrow> uuid \<Rightarrow> uuid) \<Rightarrow> (nat \<Rightarrow> env) \<Rightarrow> nat \<Rightarrow> ledger \<Rightarrow> recompute_outcome list \<times> ledger" where
  "process_pending_queue uuid5 envs limit lg = process_items uuid5 envs (list_pending lg limit) [] lg"

section \<open>The collected fills\<close>

lemma effective_fill_simps [simp]:
  "fe_fill_event_id (effective_fill_event lg f) = fe_fill_event_id f"
  "fe_fill_timestamp (effective_fill_event lg f) = fe_fill_timestamp f"
  by (auto simp: effective_fill_event_def Let_def split: option.splits)

definition collected_rows :: "ledger \<Rightarrow> uuid \<Rightarrow> uuid \<Rightarrow> order_request list \<Rightarrow> (fill_event \<times> normalized_fill) list" where
  "collected_rows lg a i orders =
     concat (map (order_fill_rows lg a i) (filter (\<lambda>o1. or_instrument_id o1 = i) orders))"

lemma collect_Inr:
  assumes "collect_ordered_normalized_fills lg a i = Inr fs"
  obtains orders where
    "order_list (lg_repos lg) (any_order\<lparr>oq_account_id := Some a, oq_limit := order_lookup_limit\<rparr>) = Inr orders"
    "fs = map snd (sort_key (\<lambda>pair. fill_sort_key (fst pair)) (collected_rows lg a i orders))"
  using assms
  by (auto simp: collect_ordered_normalized_fills_def collected_rows_def Let_def split: sum.splits)

lemma collected_row_ids:
  assumes "(f, nf) \<in> set (collected_rows lg a i orders)"
  shows "nf_fill_event_id nf = fe_fill_event_id f" "nf_fill_timestamp nf = fe_fill_timestamp f"
  using assms by (auto simp: collected_rows_def order_fill_rows_def)

lemma collected_sorted:
  assumes "collect_ordered_normalized_fills lg a i = Inr fs"
  shows "sorted (map nf_fill_timestamp fs)"
proof -
  obtain orders where fs: "fs = map snd (sort_key (\<lambda>p. fill_sort_key (fst p)) (collected_rows lg a i orders))"
    using assms by (rule collect_Inr)
  let ?rows = "sort_key (\<lambda>p. fill_sort_key (fst p)) (collected_rows lg a i orders)"
  have "sorted (map (\<lambda>p. fill_sort_key (fst p)) ?rows)" by simp
  then have "sorted_wrt (\<lambda>p q. fill_sort_key (fst p) \<le> fill_sort_key (fst q)) ?rows"
    by (simp add: sorted_map)
  then have "sorted_wrt (\<lambda>p q. nf_fill_timestamp (snd p) \<le> nf_fill_timestamp (snd q)) ?rows"
  proof (rule sorted_wrt_mono_rel [rotated])
    fix p q assume "p \<in> set ?rows" "q \<in> set ?rows" "fill_sort_key (fst p) \<le> fill_sort_key (fst q)"
    then show "nf_fill_timestamp (snd p) \<le> nf_fill_timestamp (snd q)"
      using collected_row_ids(2) [of "fst p" "snd p"] collected_row_ids(2) [of "fst q" "snd q"]
      by (auto simp: fill_sort_key_def less_eq_prod_def)
  qed
  then show ?thesis by (simp add: fs sorted_map comp_def)
qed

lemma replay_sorted_input:
  assumes "sorted (map nf_fill_timestamp fs)"
    and "\<And>t f. last_timestamp st = Some t \<Longrightarrow> f \<in> set fs \<Longrightarrow> t \<le> nf_fill_timestamp f"
  shows "replay_fills uuid5 run st fs \<noteq> Inl (FillsNotSorted k)"
  using assms
proof (induction fs arbitrary: st)
  case (Cons f fs)
  have "apply_fill_to_cost_basis uuid5 run st f \<noteq> Inl (FillsNotSorted k)"
    by (cases st) (auto simp: apply_fill_to_cost_basis_def validate_fill_def apply_sell_def Let_def
        split_beta res_bind_Inl_iff split: if_splits)
  moreover have "replay_fills uuid5 run (Some s) fs \<noteq> Inl (FillsNotSorted k)"
    if "apply_fill_to_cost_basis uuid5 run st f = Inr (s, e)" for s e
    using Cons.prems(1) apply_fill_timestamp [OF that]
    by (intro Cons.IH) (auto simp: last_timestamp_def)
  ultimately show ?case
    using Cons.prems(2) by (fastforce simp: replay_fills_Cons res_bind_Inl_iff split: option.splits)
qed simp

text \<open>Distinctness: a fill is reached through one broker order of one order.\<close>

lemma distinct_concat_owner:
  assumes "distinct (map g xs)" "\<forall>x \<in> set xs. distinct (f x)"
    and "\<forall>x \<in> set xs. \<forall>y \<in> set (f x). own y = g x"
  shows "distinct (concat (map f xs))"
  using assms
proof (induction xs)
  case (Cons x xs)
  have "set (f x) \<inter> (\<Union>y \<in> set xs. set (f y)) = {}"
  proof (rule ccontr)
    assume "set (f x) \<inter> (\<Union>y \<in> set xs. set (f y)) \<noteq> {}"
    then obtain y z where "z \<in> set (f x)" "y \<in> set xs" "z \<in> set (f y)" by blast
    then have "g x = g y" using Cons.prems(3) by fastforce
    with \<open>y \<in> set xs\<close> Cons.prems(1) show False by (auto simp: image_iff)
  qed
  with Cons show ?case by simp
qed simp

definition stores_keyed :: "ledger \<Rightarrow> bool" where
  "stores_keyed lg \<longleftrightarrow> keyed or_order_request_id (rp_orders (lg_repos lg))
     \<and> keyed bo_broker_order_id (rp_broker_orders (lg_repos lg))
     \<and> keyed fe_fill_event_id (lg_fill_events lg)
     \<and> keyed rq_recompute_queue_id (lg_queue lg)"

lemma order_list_distinct:
  assumes "keyed or_order_request_id (rp_orders w)" "order_list w q = Inr orders"
  shows "distinct (map or_order_request_id orders)"
proof -
  let ?xs = "filter (order_matches w q) (map snd (rp_orders w))"
  have "distinct (map or_order_request_id ?xs)"
    using assms(1) by (intro distinct_map_filter keyed_distinct)
  then have "distinct (map or_order_request_id (sort_key key ?xs))" for key :: "order_request \<Rightarrow> int"
    by (simp add: distinct_map)
  then have "distinct (map or_order_request_id (take n (sort_key key ?xs)))" for n and key :: "order_request \<Rightarrow> int"
    by (simp only: take_map [symmetric] distinct_take)
  then show ?thesis using assms(2) by (auto simp: order_list_def Let_def split: if_splits)
qed

definition order_fills :: "ledger \<Rightarrow> order_request \<Rightarrow> fill_event list" where
  "order_fills lg o1 =
     concat (map (\<lambda>b. fills_of_broker_order lg (bo_broker_order_id b))
       (broker_orders_of_request (lg_repos lg) (or_order_request_id o1)))"

lemma order_fill_rows_fst: "map fst (order_fill_rows lg a i o1) = order_fills lg o1"
  by (simp add: order_fill_rows_def order_fills_def map_concat comp_def)

lemma order_fills_distinct:
  assumes "stores_keyed lg"
  shows "distinct (order_fills lg o1)"
  unfolding order_fills_def
proof (rule distinct_concat_owner [where g = bo_broker_order_id and own = fe_broker_order_id])
  show "distinct (map bo_broker_order_id (broker_orders_of_request (lg_repos lg) (or_order_request_id o1)))"
    using assms unfolding broker_orders_of_request_def stores_keyed_def
    by (intro distinct_map_filter keyed_distinct) simp
  have "distinct (map snd (lg_fill_events lg))"
    using assms keyed_distinct [of fe_fill_event_id "lg_fill_events lg"]
    unfolding stores_keyed_def by (metis distinct_map)
  then show "\<forall>b \<in> set (broker_orders_of_request (lg_repos lg) (or_order_request_id o1)).
      distinct (fills_of_broker_order lg (bo_broker_order_id b))"
    by (simp add: fills_of_broker_order_def)
qed (simp add: fills_of_broker_order_def)

lemma collected_fills_distinct:
  assumes keyed: "stores_keyed lg" and orders: "distinct (map or_order_request_id orders)"
  shows "distinct (map fst (collected_rows lg a i orders))"
proof -
  have "map fst (collected_rows lg a i orders)
      = concat (map (order_fills lg) (filter (\<lambda>o1. or_instrument_id o1 = i) orders))"
    by (simp add: collected_rows_def map_concat comp_def order_fill_rows_fst)
  moreover have "distinct (concat (map (order_fills lg) (filter (\<lambda>o1. or_instrument_id o1 = i) orders)))"
  proof (rule distinct_concat_owner [where g = or_order_request_id
        and own = "\<lambda>f. bo_order_request_id (the (map_of (rp_broker_orders (lg_repos lg)) (fe_broker_order_id f)))"])
    show "distinct (map or_order_request_id (filter (\<lambda>o1. or_instrument_id o1 = i) orders))"
      using orders by (rule distinct_map_filter)
    show "\<forall>o1 \<in> set (filter (\<lambda>o1. or_instrument_id o1 = i) orders). distinct (order_fills lg o1)"
      using order_fills_distinct [OF keyed] by simp
    have "map_of (rp_broker_orders (lg_repos lg)) (bo_broker_order_id b) = Some b"
      if "b \<in> set (broker_orders_of_request (lg_repos lg) k)" for b k
      using keyed that by (intro keyed_map_of) (auto simp: stores_keyed_def broker_orders_of_request_def)
    then show "\<forall>o1 \<in> set (filter (\<lambda>o1. or_instrument_id o1 = i) orders). \<forall>f \<in> set (order_fills lg o1).
        bo_order_request_id (the (map_of (rp_broker_orders (lg_repos lg)) (fe_broker_order_id f)))
          = or_order_request_id o1"
      by (fastforce simp: order_fills_def fills_of_broker_order_def broker_orders_of_request_def)
  qed
  ultimately show ?thesis by simp
qed

lemma collected_distinct:
  assumes keyed: "stores_keyed lg" and collect: "collect_ordered_normalized_fills lg a i = Inr fs"
  shows "distinct (map nf_fill_event_id fs)"
proof -
  obtain orders where o: "order_list (lg_repos lg)
        (any_order\<lparr>oq_account_id := Some a, oq_limit := order_lookup_limit\<rparr>) = Inr orders"
      and fs: "fs = map snd (sort_key (\<lambda>p. fill_sort_key (fst p)) (collected_rows lg a i orders))"
    using collect by (rule collect_Inr)
  let ?rows = "collected_rows lg a i orders"
  have d: "distinct (map fst ?rows)"
    using keyed order_list_distinct [OF _ o]
    by (intro collected_fills_distinct) (simp_all add: stores_keyed_def)
  have "set (map fst ?rows) \<subseteq> snd ` set (lg_fill_events lg)"
    by (force simp: collected_rows_def order_fill_rows_def fills_of_broker_order_def)
  moreover have "inj_on fe_fill_event_id (snd ` set (lg_fill_events lg))"
    using keyed keyed_distinct [of fe_fill_event_id "lg_fill_events lg"]
    unfolding stores_keyed_def by (metis distinct_map set_map)
  ultimately have "distinct (map fe_fill_event_id (map fst ?rows))"
    using d by (metis distinct_map inj_on_subset)
  moreover have "map nf_fill_event_id (map snd ?rows) = map fe_fill_event_id (map fst ?rows)"
    using collected_row_ids(1) by (auto simp: map_eq_conv)
  ultimately have "distinct (map nf_fill_event_id (map snd ?rows))" by (simp only:)
  then have "distinct (map (\<lambda>p. nf_fill_event_id (snd p)) (sort_key (\<lambda>p. fill_sort_key (fst p)) ?rows))"
    by (simp add: distinct_map comp_def)
  then show ?thesis by (simp add: fs comp_def)
qed

section \<open>Rebuilding\<close>

lemma group_keys_props:
  "set (group_keys ks seen) = set ks \<union> set seen"
  "distinct seen \<Longrightarrow> distinct (group_keys ks seen)"
  by (induction ks seen rule: group_keys.induct) auto

lemma aggregate_upsert_aggregates:
  "map_of (lg_aggregates (aggregate_upsert g lg)) k =
     (if k = aggregate_key g then Some g else map_of (lg_aggregates lg) k)"
  by (auto simp: aggregate_upsert_def aggregate_key_def update_conv')

lemma fold_aggregate_upsert:
  assumes "distinct ds" "\<And>d. aggregate_key (mk d) = (a, i, d)"
  shows "map_of (lg_aggregates (fold (\<lambda>d. aggregate_upsert (mk d)) ds lg)) (a', i', d') =
    (if a' = a \<and> i' = i \<and> d' \<in> set ds then Some (mk d') else map_of (lg_aggregates lg) (a', i', d'))"
  using assms by (induction ds arbitrary: lg) (auto simp: aggregate_upsert_aggregates)

definition replay_day :: "realized_pnl_event list \<Rightarrow> int \<Rightarrow> realized_pnl_event list" where
  "replay_day events d = filter (\<lambda>e. to_kst_trade_date (pe_fill_timestamp e) = d) events"

lemma rebuild_aggregates:
  "map_of (lg_aggregates (rebuild_daily_aggregates a i events run lg)) (a', i', d) =
     (if a' = a \<and> i' = i \<and> replay_day events d \<noteq> []
      then Some (rebuilt_aggregate a i run d (replay_day events d))
      else map_of (lg_aggregates lg) (a', i', d))"
proof -
  let ?date = "\<lambda>e. to_kst_trade_date (pe_fill_timestamp e)"
  have "d \<in> set (group_keys (map ?date events) []) \<longleftrightarrow> replay_day events d \<noteq> []"
    by (auto simp: group_keys_props(1) replay_day_def filter_empty_conv)
  then show ?thesis
    unfolding rebuild_daily_aggregates_def Let_def
    using fold_aggregate_upsert [of "group_keys (map ?date events) []"
        "\<lambda>d. rebuilt_aggregate a i run d (filter (\<lambda>e. ?date e = d) events)" a i lg a' i' d]
    by (simp add: group_keys_props(2) replay_day_def rebuilt_aggregate_def aggregate_key_def)
qed

lemma fold_aggregate_frame:
  "lg_events (fold (\<lambda>d. aggregate_upsert (mk d)) ds lg) = lg_events lg"
  "lg_event_by_fill (fold (\<lambda>d. aggregate_upsert (mk d)) ds lg) = lg_event_by_fill lg"
  "lg_states (fold (\<lambda>d. aggregate_upsert (mk d)) ds lg) = lg_states lg"
  "lg_queue (fold (\<lambda>d. aggregate_upsert (mk d)) ds lg) = lg_queue lg"
  "lg_repos (fold (\<lambda>d. aggregate_upsert (mk d)) ds lg) = lg_repos lg"
  "lg_fill_events (fold (\<lambda>d. aggregate_upsert (mk d)) ds lg) = lg_fill_events lg"
  by (induction ds arbitrary: lg) simp_all

lemma rebuild_frame [simp]:
  "lg_events (rebuild_daily_aggregates a i es run lg) = lg_events lg"
  "lg_event_by_fill (rebuild_daily_aggregates a i es run lg) = lg_event_by_fill lg"
  "lg_states (rebuild_daily_aggregates a i es run lg) = lg_states lg"
  "lg_queue (rebuild_daily_aggregates a i es run lg) = lg_queue lg"
  "lg_repos (rebuild_daily_aggregates a i es run lg) = lg_repos lg"
  "lg_fill_events (rebuild_daily_aggregates a i es run lg) = lg_fill_events lg"
  by (simp_all add: rebuild_daily_aggregates_def Let_def fold_aggregate_frame)

lemma event_upsert_frame [simp]:
  "lg_states (event_upsert e lg) = lg_states lg" "lg_queue (event_upsert e lg) = lg_queue lg"
  "lg_aggregates (event_upsert e lg) = lg_aggregates lg" "lg_repos (event_upsert e lg) = lg_repos lg"
  "lg_fill_events (event_upsert e lg) = lg_fill_events lg"
  by (auto simp: event_upsert_def split: option.splits)

lemma fold_event_upsert_frame [simp]:
  "lg_states (fold event_upsert es lg) = lg_states lg" "lg_queue (fold event_upsert es lg) = lg_queue lg"
  "lg_aggregates (fold event_upsert es lg) = lg_aggregates lg"
  "lg_repos (fold event_upsert es lg) = lg_repos lg"
  "lg_fill_events (fold event_upsert es lg) = lg_fill_events lg"
  by (induction es arbitrary: lg) simp_all

section \<open>Resolving requests\<close>

lemma queue_mark_frame [simp]:
  "lg_states (queue_mark_resolved now q run lg) = lg_states lg"
  "lg_events (queue_mark_resolved now q run lg) = lg_events lg"
  "lg_event_by_fill (queue_mark_resolved now q run lg) = lg_event_by_fill lg"
  "lg_aggregates (queue_mark_resolved now q run lg) = lg_aggregates lg"
  "lg_repos (queue_mark_resolved now q run lg) = lg_repos lg"
  "lg_fill_events (queue_mark_resolved now q run lg) = lg_fill_events lg"
  by (auto simp: queue_mark_resolved_def split: option.splits)

lemma fold_queue_mark_frame [simp]:
  "lg_states (fold (\<lambda>q. queue_mark_resolved now q run) qs lg) = lg_states lg"
  "lg_events (fold (\<lambda>q. queue_mark_resolved now q run) qs lg) = lg_events lg"
  "lg_event_by_fill (fold (\<lambda>q. queue_mark_resolved now q run) qs lg) = lg_event_by_fill lg"
  "lg_aggregates (fold (\<lambda>q. queue_mark_resolved now q run) qs lg) = lg_aggregates lg"
  "lg_repos (fold (\<lambda>q. queue_mark_resolved now q run) qs lg) = lg_repos lg"
  "lg_fill_events (fold (\<lambda>q. queue_mark_resolved now q run) qs lg) = lg_fill_events lg"
  by (induction qs arbitrary: lg) simp_all

definition resolved_item :: "timestamp \<Rightarrow> uuid \<Rightarrow> recompute_item \<Rightarrow> recompute_item" where
  "resolved_item now run q = q\<lparr>rq_resolved_at := Some now, rq_resolved_by_computation_run_id := Some run\<rparr>"

lemma queue_after_marks:
  "map_of (lg_queue (fold (\<lambda>q. queue_mark_resolved now q run) qs lg)) k =
     map_option (\<lambda>q. if k \<in> set qs then resolved_item now run q else q) (map_of (lg_queue lg) k)"
proof (induction qs arbitrary: lg)
  case Nil
  then show ?case by (simp add: option.map_ident)
next
  case (Cons x qs)
  have "map_of (lg_queue (queue_mark_resolved now x run lg)) k =
      map_option (\<lambda>q. if k = x then resolved_item now run q else q) (map_of (lg_queue lg) k)"
    by (cases "k = x"; cases "map_of (lg_queue lg) x")
      (simp_all add: queue_mark_resolved_def resolved_item_def update_conv' option.map_ident)
  with Cons show ?case
    by (auto simp: option.map_comp comp_def resolved_item_def intro!: option.map_cong)
qed

lemma queue_marks_keyed:
  "keyed rq_recompute_queue_id (lg_queue lg) \<Longrightarrow>
   keyed rq_recompute_queue_id (lg_queue (fold (\<lambda>q. queue_mark_resolved now q run) qs lg))"
proof (induction qs arbitrary: lg)
  case (Cons q qs)
  have "keyed rq_recompute_queue_id (lg_queue (queue_mark_resolved now q run lg))"
  proof (cases "map_of (lg_queue lg) q")
    case (Some x)
    then have "rq_recompute_queue_id x = q" using Cons.prems by (auto simp: keyed_def dest: map_of_SomeD)
    with Some Cons.prems show ?thesis by (simp add: queue_mark_resolved_def keyed_update)
  qed (use Cons.prems in \<open>simp add: queue_mark_resolved_def\<close>)
  with Cons.IH show ?case by simp
qed simp

section \<open>What a recomputation does\<close>

definition fill_inputs where
  "fill_inputs lg = (lg_repos lg, lg_fill_events lg, lg_buy_overlays lg, lg_buy_overlay_by_fill lg,
     lg_sell_overlays lg, lg_sell_overlay_by_fill lg)"

lemma collect_cong:
  assumes "fill_inputs lg' = fill_inputs lg"
  shows "collect_ordered_normalized_fills lg' a i = collect_ordered_normalized_fills lg a i"
proof -
  have "effective_fill_event lg' = effective_fill_event lg"
    using assms by (intro ext) (simp add: fill_inputs_def effective_fill_event_def buy_overlay_of_fill_def sell_overlay_of_fill_def)
  moreover have "fills_of_broker_order lg' = fills_of_broker_order lg"
    using assms by (intro ext) (simp add: fill_inputs_def fills_of_broker_order_def)
  ultimately have "order_fill_rows lg' = order_fill_rows lg"
    using assms by (intro ext) (simp add: fill_inputs_def order_fill_rows_def)
  then show ?thesis
    using assms by (simp add: fill_inputs_def collect_ordered_normalized_fills_def split: sum.split)
qed

lemma fill_inputs_simps [simp]:
  "fill_inputs (run_put r lg) = fill_inputs lg"
  "fill_inputs (aggregate_upsert g lg) = fill_inputs lg"
  "fill_inputs (event_upsert e lg) = fill_inputs lg"
  "fill_inputs (state_upsert s lg) = fill_inputs lg"
  "fill_inputs (queue_mark_resolved now q run lg) = fill_inputs lg"
  by (auto simp: fill_inputs_def run_put_def aggregate_upsert_def event_upsert_def event_store_def
      state_upsert_def queue_mark_resolved_def Let_def split: option.splits)

lemma fold_fill_inputs: "(\<And>x lg. fill_inputs (f x lg) = fill_inputs lg) \<Longrightarrow> fill_inputs (fold f xs lg) = fill_inputs lg"
  by (induction xs arbitrary: lg) simp_all

lemma persist_replay_inputs [simp]: "fill_inputs (persist_replay a i run res lg) = fill_inputs lg"
  by (simp add: persist_replay_def rebuild_daily_aggregates_def Let_def fold_fill_inputs split: option.split)

lemma collect_run_put [simp]:
  "collect_ordered_normalized_fills (run_put r lg) a i = collect_ordered_normalized_fills lg a i"
  by (rule collect_cong) simp

lemma event_upsert_run_put: "event_upsert e (run_put r lg) = run_put r (event_upsert e lg)"
  by (simp add: event_upsert_def event_store_def run_put_def split: option.split)

lemma fold_event_upsert_run_put: "fold event_upsert es (run_put r lg) = run_put r (fold event_upsert es lg)"
  by (induction es arbitrary: lg) (simp_all add: event_upsert_run_put)

lemma list_pending_cong: "lg_queue lg' = lg_queue lg \<Longrightarrow> list_pending lg' n = list_pending lg n"
  by (simp add: list_pending_def)

lemma persist_replay_frame [simp]:
  "lg_queue (persist_replay a i run res lg) = lg_queue lg"
  "lg_repos (persist_replay a i run res lg) = lg_repos lg"
  "lg_fill_events (persist_replay a i run res lg) = lg_fill_events lg"
  "lg_events (persist_replay a i run res lg) = lg_events (fold event_upsert (rr_realized_pnl_events res) lg)"
  "lg_event_by_fill (persist_replay a i run res lg) =
     lg_event_by_fill (fold event_upsert (rr_realized_pnl_events res) lg)"
  by (simp_all add: persist_replay_def Let_def split: option.split)

lemma persist_replay_states:
  "lg_states (persist_replay a i run res lg) =
     (case rr_final_state res of None \<Rightarrow> lg_states lg
      | Some s \<Rightarrow> lg_states (state_upsert (s\<lparr>cb_recompute_required := False, cb_recompute_reason := None\<rparr>) lg))"
  by (simp add: persist_replay_def Let_def state_upsert_def split: option.split)

lemma persist_replay_aggregates:
  "map_of (lg_aggregates (persist_replay a i run res lg)) (a', i', d) =
     (if a' = a \<and> i' = i \<and> replay_day (rr_realized_pnl_events res) d \<noteq> []
      then Some (rebuilt_aggregate a i run d (replay_day (rr_realized_pnl_events res) d))
      else map_of (lg_aggregates lg) (a', i', d))"
  by (simp add: persist_replay_def Let_def rebuild_aggregates split: option.split)

definition pending_ids :: "ledger \<Rightarrow> uuid \<Rightarrow> uuid \<Rightarrow> uuid list" where
  "pending_ids lg a i = map rq_recompute_queue_id
     (filter (\<lambda>q. rq_account_id q = a \<and> rq_instrument_id q = i) (list_pending lg 1000))"

lemma recompute_completed:
  assumes collect: "collect_ordered_normalized_fills lg a i = Inr fs"
    and replay: "replay_fills uuid5 (uuid_at ev ''run'') None fs = Inr res"
    and eq: "recompute_account_instrument uuid5 ev a i lg = (out, lg')"
  shows "cr_status (ro_computation_run out) = ''completed''"
    "lg_states lg' = lg_states (persist_replay a i (uuid_at ev ''run'') res lg)"
    "lg_events lg' = lg_events (fold event_upsert (rr_realized_pnl_events res) lg)"
    "lg_event_by_fill lg' = lg_event_by_fill (fold event_upsert (rr_realized_pnl_events res) lg)"
    "map_of (lg_aggregates lg') k = map_of (lg_aggregates (persist_replay a i (uuid_at ev ''run'') res lg)) k"
    "map_of (lg_queue lg') q = map_option (\<lambda>x. if q \<in> set (pending_ids lg a i)
        then resolved_item (now_at ev ''resolved'') (uuid_at ev ''run'') x else x) (map_of (lg_queue lg) q)"
    "fill_inputs lg' = fill_inputs lg"
    "keyed rq_recompute_queue_id (lg_queue lg) \<Longrightarrow> keyed rq_recompute_queue_id (lg_queue lg')"
proof -
  let ?run = "new_run (uuid_at ev ''run'') BACKFILL_REPLAY (Some a) (now_at ev ''started'')"
  let ?fin = "finalized (now_at ev ''completed'') ''completed'' 0 0 (int (length fs)) 0 None ?run"
  let ?lg = "run_put ?fin (persist_replay a i (uuid_at ev ''run'') res (run_put ?run lg))"
  have id: "cr_computation_run_id ?run = uuid_at ev ''run''" by (simp add: new_run_def)
  have pend: "map rq_recompute_queue_id (filter (\<lambda>q. rq_account_id q = a \<and> rq_instrument_id q = i)
      (list_pending ?lg 1000)) = pending_ids lg a i"
  proof -
    have "list_pending ?lg 1000 = list_pending lg 1000" by (rule list_pending_cong) simp
    then show ?thesis unfolding pending_ids_def by (simp only:)
  qed
  have out: "ro_computation_run out = ?fin"
      and lg': "lg' = fold (\<lambda>q. queue_mark_resolved (now_at ev ''resolved'') q (uuid_at ev ''run''))
        (pending_ids lg a i) ?lg"
    using eq by (auto simp: recompute_account_instrument_def Let_def collect replay id
        resolve_pending_queue_items_def pend)
  show "cr_status (ro_computation_run out) = ''completed''" by (simp add: out finalized_def)
  show "lg_states lg' = lg_states (persist_replay a i (uuid_at ev ''run'') res lg)"
    by (simp add: lg' persist_replay_states state_upsert_def split: option.split)
  show "lg_events lg' = lg_events (fold event_upsert (rr_realized_pnl_events res) lg)"
    "lg_event_by_fill lg' = lg_event_by_fill (fold event_upsert (rr_realized_pnl_events res) lg)"
    by (simp_all add: lg' fold_event_upsert_run_put)
  show "map_of (lg_aggregates lg') k = map_of (lg_aggregates (persist_replay a i (uuid_at ev ''run'') res lg)) k"
    by (cases k) (simp add: lg' persist_replay_aggregates)
  show "map_of (lg_queue lg') q = map_option (\<lambda>x. if q \<in> set (pending_ids lg a i)
        then resolved_item (now_at ev ''resolved'') (uuid_at ev ''run'') x else x) (map_of (lg_queue lg) q)"
    by (simp add: lg' queue_after_marks)
  show "fill_inputs lg' = fill_inputs lg"
    by (simp add: lg' fold_fill_inputs)
  show "keyed rq_recompute_queue_id (lg_queue lg')" if "keyed rq_recompute_queue_id (lg_queue lg)"
    using that by (simp add: lg' queue_marks_keyed)
qed

lemma recompute_failed:
  assumes "recompute_account_instrument uuid5 ev a i lg = (out, lg')"
    and "\<not> (\<exists>fs. collect_ordered_normalized_fills lg a i = Inr fs
            \<and> is_ok (replay_fills uuid5 (uuid_at ev ''run'') None fs))"
  shows "cr_status (ro_computation_run out) = ''failed''" "\<exists>runs. lg' = lg\<lparr>lg_runs := runs\<rparr>"
    "ro_resolved_queue_item_ids out = []"
proof -
  have id: "cr_computation_run_id (new_run x y z w) = x" for x y z w by (simp add: new_run_def)
  consider e where "collect_ordered_normalized_fills lg a i = Inl e"
    | fs e where "collect_ordered_normalized_fills lg a i = Inr fs"
        "replay_fills uuid5 (uuid_at ev ''run'') None fs = Inl e"
    using assms(2) by (cases "collect_ordered_normalized_fills lg a i") (auto simp: is_ok_iff_not_Inl)
  then have "cr_status (ro_computation_run out) = ''failed'' \<and> (\<exists>r r'. lg' = run_put r (run_put r' lg))
    \<and> ro_resolved_queue_item_ids out = []"
    by cases (use assms(1) in \<open>auto simp: recompute_account_instrument_def Let_def id finalized_def\<close>)
  moreover have "\<exists>runs. run_put r (run_put r' lg) = lg\<lparr>lg_runs := runs\<rparr>" for r r'
    by (auto simp: run_put_def)
  ultimately show "cr_status (ro_computation_run out) = ''failed''" "\<exists>runs. lg' = lg\<lparr>lg_runs := runs\<rparr>"
    "ro_resolved_queue_item_ids out = []" by auto
qed

lemma replay_final_key:
  assumes "replay_fills uuid5 run st fs = Inr res"
    and "\<And>f. f \<in> set fs \<Longrightarrow> nf_account_id f = a \<and> nf_instrument_id f = i"
    and "\<And>s. st = Some s \<Longrightarrow> cb_account_id s = a \<and> cb_instrument_id s = i"
    and "rr_final_state res = Some s"
  shows "cb_account_id s = a \<and> cb_instrument_id s = i"
  using assms
proof (induction rule: replay_fills_induct)
  case (Cons st f fs s' ev r)
  show ?case
    by (rule Cons.IH) (use Cons apply_fill_new_state [OF Cons(2)] in auto)
qed auto

lemma collected_keys:
  assumes "collect_ordered_normalized_fills lg a i = Inr fs" "f \<in> set fs"
  shows "nf_account_id f = a \<and> nf_instrument_id f = i"
  using assms(1)
proof (rule collect_Inr)
  fix orders
  assume "fs = map snd (sort_key (\<lambda>p. fill_sort_key (fst p)) (collected_rows lg a i orders))"
  with assms(2) show ?thesis by (auto simp: collected_rows_def order_fill_rows_def)
qed

lemma replay_event_ids:
  assumes "replay_fills uuid5 run st fs = Inr res" "e \<in> set (rr_realized_pnl_events res)"
  shows "pe_realized_pnl_event_id e = event_ids uuid5 (pe_fill_event_id e)" "pe_computation_run_id e = run"
proof -
  have "pe_realized_pnl_event_id e = event_ids uuid5 (pe_fill_event_id e) \<and> pe_computation_run_id e = run"
    using assms
  proof (induction rule: replay_fills_induct)
    case (Cons st f fs s' ev r)
    then show ?case using apply_fill_event [of uuid5 run st f s'] by (cases ev) auto
  qed simp
  then show "pe_realized_pnl_event_id e = event_ids uuid5 (pe_fill_event_id e)" "pe_computation_run_id e = run"
    by simp_all
qed

lemma replay_events_distinct:
  assumes "stores_keyed lg" "collect_ordered_normalized_fills lg a i = Inr fs"
    "replay_fills uuid5 run None fs = Inr res"
  shows "distinct (map pe_fill_event_id (rr_realized_pnl_events res))"
  unfolding replay_events [OF assms(3)]
  using collected_distinct [OF assms(1,2)] by (rule distinct_map_filter)

lemma pending_ids_found:
  assumes "stores_keyed lg" "k \<in> set (pending_ids lg a i)"
  shows "\<exists>x. map_of (lg_queue lg) k = Some x"
proof -
  have "\<exists>q \<in> snd ` set (lg_queue lg). rq_recompute_queue_id q = k"
    using assms(2) by (fastforce simp: pending_ids_def list_pending_def dest: in_set_takeD)
  then show ?thesis
    using assms(1) keyed_map_of [of rq_recompute_queue_id "lg_queue lg"] by (auto simp: stores_keyed_def)
qed

lemma replay_other_run:
  assumes "replay_fills uuid5 run st fs = Inr res"
  shows "replay_fills uuid5 run' st fs =
    Inr (res\<lparr>rr_realized_pnl_events := map (with_run run') (rr_realized_pnl_events res)\<rparr>)"
  using assms
proof (induction rule: replay_fills_induct)
  case (Cons st f fs s' ev r)
  have "apply_fill_to_cost_basis uuid5 run' st f = Inr (s', map_option (with_run run') ev)"
    using apply_fill_other_run [of uuid5 run' st f run] Cons(2) by simp
  with Cons show ?case
    by (cases ev) (auto simp: replay_fills_Cons with_run_def split: option.splits)
qed (simp add: replay_fills_def)

lemma recompute_events:
  assumes "stores_keyed lg" "events_consistent (event_ids uuid5) lg" "inj (event_ids uuid5)"
    and "collect_ordered_normalized_fills lg a i = Inr fs"
    and "replay_fills uuid5 (uuid_at ev ''run'') None fs = Inr res"
    and "recompute_account_instrument uuid5 ev a i lg = (out, lg')"
  shows "e \<in> set (rr_realized_pnl_events res) \<Longrightarrow>
           \<exists>e'. event_of_fill lg' (pe_fill_event_id e) = Some e' \<and> event_values e' = event_values e
                \<and> pe_computation_run_id e' = uuid_at ev ''run''"
    and "g \<notin> pe_fill_event_id ` set (rr_realized_pnl_events res) \<Longrightarrow> event_of_fill lg' g = event_of_fill lg g"
proof -
  let ?es = "rr_realized_pnl_events res"
  have ids: "\<forall>e \<in> set ?es. pe_realized_pnl_event_id e = event_ids uuid5 (pe_fill_event_id e)"
    using replay_event_ids [OF assms(5)] by blast
  have same: "event_of_fill lg' g = event_of_fill (fold event_upsert ?es lg) g" for g
    using recompute_completed(3,4) [OF assms(4-6)] by (intro event_of_fill_cong) simp_all
  show "\<exists>e'. event_of_fill lg' (pe_fill_event_id e) = Some e' \<and> event_values e' = event_values e
                \<and> pe_computation_run_id e' = uuid_at ev ''run''" if "e \<in> set ?es"
    using re.fold_upsert_found [OF assms(2,3) ids replay_events_distinct [OF assms(1,4,5)] that]
      replay_event_ids(2) [OF assms(5) that] by (simp add: same)
  show "event_of_fill lg' g = event_of_fill lg g" if "g \<notin> pe_fill_event_id ` set ?es"
    using re.fold_upsert_other [OF assms(2,3) ids that] by (simp add: same)
qed

lemma recompute_state:
  assumes "collect_ordered_normalized_fills lg a i = Inr fs"
    and "replay_fills uuid5 (uuid_at ev ''run'') None fs = Inr res"
    and "recompute_account_instrument uuid5 ev a i lg = (out, lg')"
  shows "state_get lg' a' i' =
     (case rr_final_state res of
        Some s \<Rightarrow> if a' = a \<and> i' = i then Some (s\<lparr>cb_recompute_required := False, cb_recompute_reason := None\<rparr>)
                  else state_get lg a' i'
      | None \<Rightarrow> state_get lg a' i')"
proof (cases "rr_final_state res")
  case None
  then show ?thesis using recompute_completed(2) [OF assms] by (simp add: state_get_def persist_replay_states)
next
  case (Some s)
  have "cb_account_id s = a \<and> cb_instrument_id s = i"
    by (rule replay_final_key [OF assms(2) _ _ Some]) (use collected_keys [OF assms(1)] in auto)
  then show ?thesis
    using Some recompute_completed(2) [OF assms]
    by (auto simp: state_get_def persist_replay_states state_upsert_def update_conv')
qed

text \<open>The requests of a position that were pending are resolved by the run, as far as the listing reaches, and no
  other request is touched.\<close>

lemma pending_ids_iff:
  assumes "stores_keyed lg" "length (filter (\<lambda>q. rq_resolved_at q = None) (map snd (lg_queue lg))) \<le> 1000"
  shows "k \<in> set (pending_ids lg a i) \<longleftrightarrow>
    (\<exists>q. map_of (lg_queue lg) k = Some q \<and> rq_resolved_at q = None \<and> rq_account_id q = a \<and> rq_instrument_id q = i)"
proof -
  have keyed: "keyed rq_recompute_queue_id (lg_queue lg)" using assms(1) by (simp add: stores_keyed_def)
  have "list_pending lg 1000 = sort_key (\<lambda>item. earliest_key (rq_requested_at item))
      (filter (\<lambda>item. rq_resolved_at item = None) (map snd (lg_queue lg)))"
    using assms(2) by (simp add: list_pending_def)
  then have "k \<in> set (pending_ids lg a i) \<longleftrightarrow> (\<exists>q \<in> snd ` set (lg_queue lg). rq_recompute_queue_id q = k
      \<and> rq_resolved_at q = None \<and> rq_account_id q = a \<and> rq_instrument_id q = i)"
    by (auto simp: pending_ids_def)
  then show ?thesis using keyed by (fastforce simp: keyed_def)
qed

lemma pending_ids_of_position:
  assumes "stores_keyed lg" "k \<in> set (pending_ids lg a i)" "map_of (lg_queue lg) k = Some q"
  shows "rq_resolved_at q = None \<and> rq_account_id q = a \<and> rq_instrument_id q = i"
proof -
  have keyed: "keyed rq_recompute_queue_id (lg_queue lg)" using assms(1) by (simp add: stores_keyed_def)
  from assms(2) obtain q' where "q' \<in> snd ` set (lg_queue lg)" "rq_recompute_queue_id q' = k" "rq_resolved_at q' = None"
      "rq_account_id q' = a" "rq_instrument_id q' = i"
    by (fastforce simp: pending_ids_def list_pending_def dest!: in_set_takeD)
  moreover from this have "map_of (lg_queue lg) k = Some q'" using keyed by (fastforce simp: keyed_def)
  ultimately show ?thesis using assms(3) by simp
qed


lemma recompute_queue:
  assumes "stores_keyed lg" "collect_ordered_normalized_fills lg a i = Inr fs"
    and "replay_fills uuid5 (uuid_at ev ''run'') None fs = Inr res"
    and "recompute_account_instrument uuid5 ev a i lg = (out, lg')" "map_of (lg_queue lg) k = Some q"
  shows "(rq_account_id q, rq_instrument_id q) \<noteq> (a, i) \<or> rq_resolved_at q \<noteq> None \<Longrightarrow> map_of (lg_queue lg') k = Some q"
    and "(rq_account_id q, rq_instrument_id q) = (a, i) \<Longrightarrow> rq_resolved_at q = None \<Longrightarrow>
      length (filter (\<lambda>q. rq_resolved_at q = None) (map snd (lg_queue lg))) \<le> 1000 \<Longrightarrow>
      map_of (lg_queue lg') k = Some (q\<lparr>rq_resolved_at := Some (now_at ev ''resolved''),
        rq_resolved_by_computation_run_id := Some (uuid_at ev ''run'')\<rparr>)"
proof -
  have q: "map_of (lg_queue lg') k = Some (if k \<in> set (pending_ids lg a i)
      then resolved_item (now_at ev ''resolved'') (uuid_at ev ''run'') q else q)"
    using recompute_completed(6) [OF assms(2-4), of k] assms(5) by simp
  show "map_of (lg_queue lg') k = Some q"
    if "(rq_account_id q, rq_instrument_id q) \<noteq> (a, i) \<or> rq_resolved_at q \<noteq> None"
    using that pending_ids_of_position [OF assms(1) _ assms(5), of a i] q by auto
  assume "(rq_account_id q, rq_instrument_id q) = (a, i)" "rq_resolved_at q = None"
    "length (filter (\<lambda>q. rq_resolved_at q = None) (map snd (lg_queue lg))) \<le> 1000"
  then have "k \<in> set (pending_ids lg a i)" using pending_ids_iff [OF assms(1)] assms(5) by simp
  with q show "map_of (lg_queue lg') k = Some (q\<lparr>rq_resolved_at := Some (now_at ev ''resolved''),
      rq_resolved_by_computation_run_id := Some (uuid_at ev ''run'')\<rparr>)" by (simp add: resolved_item_def)
qed

lemma recompute_resolves:
  assumes "stores_keyed lg" "collect_ordered_normalized_fills lg a i = Inr fs"
    and "replay_fills uuid5 (uuid_at ev ''run'') None fs = Inr res"
    and "recompute_account_instrument uuid5 ev a i lg = (out, lg')" "q \<in> set (pending_ids lg a i)"
  shows "\<exists>x. map_of (lg_queue lg') q = Some x \<and> rq_resolved_at x = Some (now_at ev ''resolved'')
    \<and> rq_resolved_by_computation_run_id x = Some (uuid_at ev ''run'')"
  using recompute_completed(6) [OF assms(2-4), of q] pending_ids_found [OF assms(1,5)] assms(5)
  by (auto simp: resolved_item_def)

lemma event_values_with_run [simp]: "event_values (with_run run e) = event_values e"
  "pe_fill_event_id (with_run run e) = pe_fill_event_id e"
  by (simp_all add: event_values_def with_run_def)

section \<open>Draining the queue\<close>

lemma recompute_outcome_key:
  "ro_account_id (fst (recompute_account_instrument uuid5 ev a i lg)) = a"
  "ro_instrument_id (fst (recompute_account_instrument uuid5 ev a i lg)) = i"
  by (auto simp: recompute_account_instrument_def Let_def split_beta split: sum.split)

lemma process_items_keys:
  "seen = rev keys \<Longrightarrow>
   keys @ map (\<lambda>out. (ro_account_id out, ro_instrument_id out)) (fst (process_items uuid5 envs items seen lg)) =
     group_keys (map (\<lambda>q. (rq_account_id q, rq_instrument_id q)) items) keys"
proof (induction items arbitrary: seen keys lg)
  case (Cons q items)
  let ?k = "(rq_account_id q, rq_instrument_id q)"
  obtain out lg1 where r: "recompute_account_instrument uuid5 (envs (length seen)) (fst ?k) (snd ?k) lg = (out, lg1)"
    by (cases "recompute_account_instrument uuid5 (envs (length seen)) (fst ?k) (snd ?k) lg")
  then have "ro_account_id out = fst ?k" "ro_instrument_id out = snd ?k"
    using recompute_outcome_key [of uuid5 "envs (length seen)" "fst ?k" "snd ?k" lg] by simp_all
  then show ?case
    using Cons.IH [of seen keys lg] Cons.IH [of "?k # seen" "keys @ [?k]" lg1] Cons.prems r
    by (auto simp: Let_def split_beta)
qed simp

lemma booking_inputs [simp]:
  "fill_inputs (queue_add x lg) = fill_inputs lg"
  "fill_inputs (mark_recompute_required a i st r lg) = fill_inputs lg"
  "fill_inputs (update_daily_aggregate e lg) = fill_inputs lg"
  "fill_inputs (snd (needs_recompute ev l f st rc r sm run lg)) = fill_inputs lg"
  by (simp_all add: fill_inputs_def queue_add_def mark_recompute_required_def state_upsert_def
      update_daily_aggregate_def aggregate_upsert_def needs_recompute_def run_put_def Let_def)

lemma write_result_inputs [simp]: "fill_inputs (snd (write_result s e lg)) = fill_inputs lg"
proof -
  have "fill_inputs lg2 = fill_inputs lg1" if "event_add x lg1 = Inr lg2" for x lg1 lg2
    using that by (auto simp: event_add_def event_store_def fill_inputs_def split: if_splits)
  then show ?thesis by (auto simp: write_result_def Let_def split: option.split sum.split)
qed

lemma apply_fill_inputs: "fill_inputs (snd (apply_fill uuid5 ev f lg)) = fill_inputs lg"
  by (simp add: apply_fill_def Let_def split_beta write_result_inputs split: sum.split)

lemma book_fills_inputs: "fill_inputs (snd (book_fills uuid5 xs lg)) = fill_inputs lg"
  by (induction xs arbitrary: lg) (simp_all add: split_beta apply_fill_inputs)

lemma recompute_consistent:
  assumes "stores_keyed lg" "events_consistent (event_ids uuid5) lg" "inj (event_ids uuid5)"
    and "collect_ordered_normalized_fills lg a i = Inr fs"
    and "replay_fills uuid5 (uuid_at ev ''run'') None fs = Inr res"
    and "recompute_account_instrument uuid5 ev a i lg = (out, lg')"
  shows "events_consistent (event_ids uuid5) lg'"
proof -
  have "\<forall>e \<in> set (rr_realized_pnl_events res). pe_realized_pnl_event_id e = event_ids uuid5 (pe_fill_event_id e)"
    using replay_event_ids [OF assms(5)] by blast
  then show ?thesis
    using re.fold_upsert_consistent [OF assms(2,3)] recompute_completed(3,4) [OF assms(4-6)]
      events_consistent_cong [of lg' "fold event_upsert (rr_realized_pnl_events res) lg"] by simp
qed

lemma recompute_keyed:
  assumes "stores_keyed lg"
    and "collect_ordered_normalized_fills lg a i = Inr fs"
    and "replay_fills uuid5 (uuid_at ev ''run'') None fs = Inr res"
    and "recompute_account_instrument uuid5 ev a i lg = (out, lg')"
  shows "stores_keyed lg'"
proof -
  have "keyed rq_recompute_queue_id (lg_queue lg')"
    using assms(1) recompute_completed(8) [OF assms(2-4)] by (simp add: stores_keyed_def)
  with assms(1) recompute_completed(7) [OF assms(2-4)] show ?thesis
    by (simp add: stores_keyed_def fill_inputs_def)
qed

lemma replay_unmarked:
  assumes "replay_fills uuid5 run st fs = Inr res"
    and "\<And>s. st = Some s \<Longrightarrow> \<not> cb_recompute_required s \<and> cb_recompute_reason s = None"
    and "rr_final_state res = Some s"
  shows "\<not> cb_recompute_required s \<and> cb_recompute_reason s = None"
  using assms
proof (induction rule: replay_fills_induct)
  case (Cons st f fs s' ev r)
  show ?case by (rule Cons.IH) (use Cons apply_fill_new_state [OF Cons(2)] in auto)
qed auto

section \<open>Example\<close>

definition ex_recompute_env :: env where
  "ex_recompute_env = \<lparr>ev_now = (\<lambda>_. 500), ev_uuid = (\<lambda>_. 40)\<rparr>"

definition ex_stored :: "(env \<times> fill_event) list \<Rightarrow> ledger" where
  "ex_stored xs = ex_ledger\<lparr>lg_fill_events := map (\<lambda>x. (fe_fill_event_id (snd x), snd x)) xs,
     lg_queue := [(30, recompute_request 30 1 2 ''out_of_order_fill_detected'' 12)]\<rparr>"

lemma ex_stored_ok:
  "distinct (map (\<lambda>x. fe_fill_event_id (snd x)) xs) \<Longrightarrow> stores_keyed (ex_stored xs)"
  "events_consistent (event_ids ex_uuid5) (ex_stored xs)"
  "state_get (ex_stored xs) a i = None" "event_of_fill (ex_stored xs) g = None"
  "lg_repos (ex_stored xs) = ex_ledger_repos"
  by (auto simp: ex_stored_def ex_ledger_def stores_keyed_def keyed_def ex_ledger_repos_def
      ex_ledger_order_def ex_broker_order_def recompute_request_def events_consistent_def comp_def
      state_get_def event_of_fill_def)

lemma ex_pending_request:
  "lg_queue (ex_stored xs) = [(30, recompute_request 30 1 2 ''out_of_order_fill_detected'' 12)]"
  "rq_account_id (recompute_request k a i r t) = a" "rq_instrument_id (recompute_request k a i r t) = i"
  "rq_resolved_at (recompute_request k a i r t) = None"
  by (simp_all add: ex_stored_def recompute_request_def)

lemma ex_pending: "pending_ids (ex_stored xs) 1 2 = [30]"
  by (simp add: pending_ids_def list_pending_def ex_stored_def recompute_request_def)

lemmas ex_collect_defs = collect_ordered_normalized_fills_def order_list_def order_matches_def
  list_key_def agrees_def not_before_def not_after_def ex_stored_def ex_ledger_def ex_ledger_repos_def ex_ledger_order_def
  ex_broker_order_def any_order_def order_lookup_limit_def order_fill_rows_def
  broker_orders_of_request_def fills_of_broker_order_def effective_fill_event_def
  buy_overlay_of_fill_def sell_overlay_of_fill_def ex_booking_def fill_sort_key_def Let_def
  less_eq_prod_def less_prod_def lineage_fill_def ex_lineage_def

lemma ex_collect:
  "collect_ordered_normalized_fills (ex_stored [ex_bought, ex_sold, ex_late]) 1 2 =
     Inr (map (\<lambda>x. lineage_fill (ex_lineage x) (snd x)) [ex_bought, ex_late, ex_sold])"
  "collect_ordered_normalized_fills (ex_stored [ex_bought, ex_sold]) 1 2 =
     Inr (map (\<lambda>x. lineage_fill (ex_lineage x) (snd x)) [ex_bought, ex_sold])"
  "collect_ordered_normalized_fills (ex_stored [ex_sold]) 1 2 =
     Inr (map (\<lambda>x. lineage_fill (ex_lineage x) (snd x)) [ex_sold])"
  "collect_ordered_normalized_fills (ex_stored []) 1 2 = Inr []"
  by (simp_all add: ex_collect_defs)

lemma ex_replays:
  "is_ok (replay_fills ex_uuid5 40 None
     (map (\<lambda>x. lineage_fill (ex_lineage x) (snd x)) [ex_bought, ex_late, ex_sold]))"
  "replay_fills ex_uuid5 40 None (map (\<lambda>x. lineage_fill (ex_lineage x) (snd x)) [ex_sold]) =
     Inl (MissingCostBasisState 11)"
  by (simp_all add: lineage_fill_def build_normalized_fill_def normalize_fee_tax_def or_zero_def
      ex_lineage_def ex_booking_def replay_fills_def apply_fill_to_cost_basis_def validate_fill_def
      apply_buy_def apply_sell_def next_state_def Let_def dec_eval)

abbreviation ex_recompute :: "ledger \<Rightarrow> recompute_outcome \<times> ledger" where
  "ex_recompute \<equiv> recompute_account_instrument ex_uuid5 ex_recompute_env 1 2"

lemma ex_env_run [simp]: "uuid_at ex_recompute_env l = 40" "now_at ex_recompute_env l = 500"
  by (simp_all add: ex_recompute_env_def uuid_at_def now_at_def)

lemma ex_distinct: "distinct (map (\<lambda>x. fe_fill_event_id (snd x)) [ex_bought, ex_sold, ex_late])"
  by (simp add: ex_booking_def)

section \<open>Properties\<close>

text \<open>C14. A recomputation whose fills replay rebuilds the position: the run completes, the stored
  state is the state of a replay of all collected fills without its recompute mark, every sale of
  the replay has an event with the replayed values, every day with a sale has the sums of its
  sales, and the pending requests of the position are resolved by the run (when at most a thousand
  requests are pending altogether, the length of the listing).  Nothing else is touched: states and daily
  sums of every other position, events of fills outside the replay, and every request of another
  position or already resolved are as before.\<close>

theorem recompute_rebuilds_position:
  assumes "stores_keyed lg" "events_consistent (derive_realized_pnl_event_id uuid5) lg"
    and "inj (derive_realized_pnl_event_id uuid5)"
    and "collect_ordered_normalized_fills lg a i = Inr fs"
    and "replay_fills uuid5 (uuid_at ev ''run'') None fs = Inr res"
    and "recompute_account_instrument uuid5 ev a i lg = (out, lg')"
  shows "cr_status (ro_computation_run out) = ''completed''
    \<and> (\<forall>s. rr_final_state res = Some s \<longrightarrow>
         state_get lg' a i = Some (s\<lparr>cb_recompute_required := False, cb_recompute_reason := None\<rparr>))
    \<and> (\<forall>e \<in> set (rr_realized_pnl_events res). \<exists>e'.
         event_of_fill lg' (pe_fill_event_id e) = Some e' \<and> event_values e' = event_values e)
    \<and> (\<forall>d. replay_day (rr_realized_pnl_events res) d \<noteq> [] \<longrightarrow>
         map_of (lg_aggregates lg') (a, i, d) =
           Some (rebuilt_aggregate a i (uuid_at ev ''run'') d (replay_day (rr_realized_pnl_events res) d)))
    \<and> (\<forall>k q. map_of (lg_queue lg) k = Some q \<and> (rq_account_id q, rq_instrument_id q) = (a, i) \<and> rq_resolved_at q = None
         \<and> length (filter (\<lambda>q. rq_resolved_at q = None) (map snd (lg_queue lg))) \<le> 1000 \<longrightarrow>
         map_of (lg_queue lg') k = Some (q\<lparr>rq_resolved_at := Some (now_at ev ''resolved''),
           rq_resolved_by_computation_run_id := Some (uuid_at ev ''run'')\<rparr>))
    \<and> (\<forall>a' i'. (a', i') \<noteq> (a, i) \<longrightarrow> state_get lg' a' i' = state_get lg a' i'
         \<and> (\<forall>d. map_of (lg_aggregates lg') (a', i', d) = map_of (lg_aggregates lg) (a', i', d)))
    \<and> (\<forall>g. g \<notin> nf_fill_event_id ` set fs \<longrightarrow> event_of_fill lg' g = event_of_fill lg g)
    \<and> (\<forall>k q. map_of (lg_queue lg) k = Some q
         \<and> ((rq_account_id q, rq_instrument_id q) \<noteq> (a, i) \<or> rq_resolved_at q \<noteq> None) \<longrightarrow>
         map_of (lg_queue lg') k = Some q)"
proof (intro conjI)
  note state = recompute_state [OF assms(4-6)]
  note aggregates = recompute_completed(5) [OF assms(4-6)]
  show "cr_status (ro_computation_run out) = ''completed''" by (rule recompute_completed(1) [OF assms(4-6)])
  show "\<forall>s. rr_final_state res = Some s \<longrightarrow>
      state_get lg' a i = Some (s\<lparr>cb_recompute_required := False, cb_recompute_reason := None\<rparr>)"
    by (simp add: state)
  show "\<forall>e \<in> set (rr_realized_pnl_events res). \<exists>e'.
      event_of_fill lg' (pe_fill_event_id e) = Some e' \<and> event_values e' = event_values e"
    using recompute_events(1) [OF assms] by blast
  show "\<forall>d. replay_day (rr_realized_pnl_events res) d \<noteq> [] \<longrightarrow> map_of (lg_aggregates lg') (a, i, d) =
      Some (rebuilt_aggregate a i (uuid_at ev ''run'') d (replay_day (rr_realized_pnl_events res) d))"
    by (simp add: aggregates persist_replay_aggregates)
  show "\<forall>k q. map_of (lg_queue lg) k = Some q \<and> (rq_account_id q, rq_instrument_id q) = (a, i) \<and> rq_resolved_at q = None
      \<and> length (filter (\<lambda>q. rq_resolved_at q = None) (map snd (lg_queue lg))) \<le> 1000 \<longrightarrow>
      map_of (lg_queue lg') k = Some (q\<lparr>rq_resolved_at := Some (now_at ev ''resolved''),
        rq_resolved_by_computation_run_id := Some (uuid_at ev ''run'')\<rparr>)"
    using recompute_queue(2) [OF assms(1,4-6)] by blast
  show "\<forall>a' i'. (a', i') \<noteq> (a, i) \<longrightarrow> state_get lg' a' i' = state_get lg a' i'
      \<and> (\<forall>d. map_of (lg_aggregates lg') (a', i', d) = map_of (lg_aggregates lg) (a', i', d))"
    by (auto simp: state aggregates persist_replay_aggregates split: option.split)
  show "\<forall>g. g \<notin> nf_fill_event_id ` set fs \<longrightarrow> event_of_fill lg' g = event_of_fill lg g"
    using recompute_events(2) [OF assms] arg_cong [OF replay_events [OF assms(5)], of set] by auto
  show "\<forall>k q. map_of (lg_queue lg) k = Some q
      \<and> ((rq_account_id q, rq_instrument_id q) \<noteq> (a, i) \<or> rq_resolved_at q \<noteq> None) \<longrightarrow> map_of (lg_queue lg') k = Some q"
    using recompute_queue(1) [OF assms(1,4-6)] by blast
qed

theorem recompute_rebuilds_position_witness:
  "\<exists>res out lg'. replay_fills ex_uuid5 40 None
       (map (\<lambda>x. lineage_fill (ex_lineage x) (snd x)) [ex_bought, ex_late, ex_sold]) = Inr res
     \<and> ex_recompute (ex_stored [ex_bought, ex_sold, ex_late]) = (out, lg')
     \<and> cr_status (ro_computation_run out) = ''completed''
     \<and> (\<exists>x. map_of (lg_queue lg') 30 = Some x \<and> rq_resolved_by_computation_run_id x = Some 40)
     \<and> state_get lg' 1 3 = None"
proof -
  let ?lg = "ex_stored [ex_bought, ex_sold, ex_late]"
  obtain res where res: "replay_fills ex_uuid5 40 None
       (map (\<lambda>x. lineage_fill (ex_lineage x) (snd x)) [ex_bought, ex_late, ex_sold]) = Inr res"
    using ex_replays(1) by (auto simp: is_ok_iff)
  obtain out lg' where r: "ex_recompute ?lg = (out, lg')" by (cases "ex_recompute ?lg")
  have run: "replay_fills ex_uuid5 (uuid_at ex_recompute_env ''run'') None
       (map (\<lambda>x. lineage_fill (ex_lineage x) (snd x)) [ex_bought, ex_late, ex_sold]) = Inr res"
    using res by simp
  note all = recompute_rebuilds_position [OF ex_stored_ok(1) [OF ex_distinct] ex_stored_ok(2) inj_ex_uuid5 ex_collect(1) run r]
  let ?q = "recompute_request 30 1 2 ''out_of_order_fill_detected'' 12"
  have "map_of (lg_queue ?lg) 30 = Some ?q \<and> (rq_account_id ?q, rq_instrument_id ?q) = (1, 2) \<and> rq_resolved_at ?q = None
      \<and> length (filter (\<lambda>q. rq_resolved_at q = None) (map snd (lg_queue ?lg))) \<le> 1000"
    by (simp add: ex_pending_request)
  with all have "map_of (lg_queue lg') 30 = Some (?q\<lparr>rq_resolved_at := Some (now_at ex_recompute_env ''resolved''),
      rq_resolved_by_computation_run_id := Some (uuid_at ex_recompute_env ''run'')\<rparr>)"
    by blast
  then have "\<exists>x. map_of (lg_queue lg') 30 = Some x \<and> rq_resolved_by_computation_run_id x = Some 40" by simp
  moreover have "(1, 3) \<noteq> (1, 2 :: uuid)" by simp
  with all have "state_get lg' 1 3 = state_get ?lg 1 3" by blast
  then have "state_get lg' 1 3 = None" using ex_stored_ok(3) by simp
  ultimately show ?thesis using all res r by blast
qed

text \<open>Recomputing again changes nothing: the second run completes, and states and event
  values are what the first run left.\<close>

theorem recompute_is_idempotent:
  assumes "stores_keyed lg" "events_consistent (derive_realized_pnl_event_id uuid5) lg"
    and "inj (derive_realized_pnl_event_id uuid5)"
    and "collect_ordered_normalized_fills lg a i = Inr fs"
    and "is_ok (replay_fills uuid5 run None fs)"
    and "recompute_account_instrument uuid5 ev a i lg = (out, lg')"
    and "recompute_account_instrument uuid5 ev' a i lg' = (out', lg'')"
  shows "cr_status (ro_computation_run out') = ''completed''
    \<and> state_get lg'' a' i' = state_get lg' a' i'
    \<and> map_option event_values (event_of_fill lg'' g) = map_option event_values (event_of_fill lg' g)"
proof -
  from assms(5) obtain res0 where res0: "replay_fills uuid5 run None fs = Inr res0" by (auto simp: is_ok_iff)
  let ?res = "\<lambda>ev. res0\<lparr>rr_realized_pnl_events := map (with_run (uuid_at ev ''run'')) (rr_realized_pnl_events res0)\<rparr>"
  have replay: "replay_fills uuid5 (uuid_at ev ''run'') None fs = Inr (?res ev)" for ev
    using res0 by (rule replay_other_run)
  have collect': "collect_ordered_normalized_fills lg' a i = Inr fs"
    using recompute_completed(7) [OF assms(4) replay assms(6)] assms(4) collect_cong by metis
  note keyed' = recompute_keyed [OF assms(1,4) replay assms(6)]
  note consistent' = recompute_consistent [OF assms(1-4) replay assms(6)]
  note first = recompute_events [OF assms(1-4) replay assms(6)]
  note second = recompute_events [OF keyed' consistent' assms(3) collect' replay assms(7)]
  have "map_option event_values (event_of_fill lg'' g) = map_option event_values (event_of_fill lg' g)"
  proof (cases "g \<in> pe_fill_event_id ` set (rr_realized_pnl_events res0)")
    case True
    then obtain e where "e \<in> set (rr_realized_pnl_events res0)" "g = pe_fill_event_id e" by blast
    then show ?thesis
      using first(1) [of "with_run (uuid_at ev ''run'') e"] second(1) [of "with_run (uuid_at ev' ''run'') e"]
      by auto
  next
    case False
    then show ?thesis using second(2) [of g] by (simp add: image_comp comp_def)
  qed
  moreover have "state_get lg'' a' i' = state_get lg' a' i'"
    by (auto simp: recompute_state [OF collect' replay assms(7)] recompute_state [OF assms(4) replay assms(6)]
        split: option.split)
  ultimately show ?thesis using recompute_completed(1) [OF collect' replay assms(7)] by simp
qed

theorem recompute_is_idempotent_witness:
  "let (_, lg') = ex_recompute (ex_stored [ex_bought, ex_sold, ex_late]);
       (out, lg'') = ex_recompute lg'
   in cr_status (ro_computation_run out) = ''completed'' \<and> state_get lg'' 1 2 = state_get lg' 1 2"
proof -
  let ?lg = "ex_stored [ex_bought, ex_sold, ex_late]"
  obtain out lg' where r: "ex_recompute ?lg = (out, lg')" by (cases "ex_recompute ?lg")
  obtain out' lg'' where r': "ex_recompute lg' = (out', lg'')" by (cases "ex_recompute lg'")
  show ?thesis
    using recompute_is_idempotent [OF ex_stored_ok(1) [OF ex_distinct] ex_stored_ok(2) inj_ex_uuid5
        ex_collect(1) ex_replays(1) r r', of 1 2] r r' by simp
qed

text \<open>C30. Booking fills one by one and recomputing them all is the same: after the collected fills of
  a position were booked in their order, a recomputation leaves its state and event values as
  booking left them.\<close>

theorem recompute_agrees_with_booking:
  assumes "\<forall>x \<in> set xs. resolve_lineage lg (snd x) = Inr (lin x) \<and> fl_account_id (lin x) = a
           \<and> fl_instrument_id (lin x) = i \<and> event_of_fill lg (fe_fill_event_id (snd x)) = None"
    and "state_get lg a i = None" "stores_keyed lg"
    and "events_consistent (derive_realized_pnl_event_id uuid5) lg" "inj (derive_realized_pnl_event_id uuid5)"
    and "collect_ordered_normalized_fills lg a i = Inr (map (\<lambda>x. lineage_fill (lin x) (snd x)) xs)"
    and "is_ok (replay_fills uuid5 run None (map (\<lambda>x. lineage_fill (lin x) (snd x)) xs))"
    and "book_fills uuid5 xs lg = (rs, lg')"
    and "recompute_account_instrument uuid5 ev a i lg' = (out, lg'')"
  shows "state_get lg'' a i = state_get lg' a i
    \<and> map_option event_values (event_of_fill lg'' g) = map_option event_values (event_of_fill lg' g)"
proof -
  let ?fs = "map (\<lambda>x. lineage_fill (lin x) (snd x)) xs"
  from assms(7) obtain res where res: "replay_fills uuid5 (uuid_at ev ''run'') None ?fs = Inr res"
    using replay_other_run by (metis is_ok_iff)
  have distinct: "distinct (map (\<lambda>x. fe_fill_event_id (snd x)) xs)"
    using collected_distinct [OF assms(3,6)] by (simp add: comp_def)
  have inputs: "fill_inputs lg' = fill_inputs lg" using book_fills_inputs [of uuid5 xs lg] assms(8) by simp
  have "state_get lg' a i = rr_final_state res \<and> lg_queue lg' = lg_queue lg
    \<and> (\<forall>e \<in> set (rr_realized_pnl_events res). \<exists>run'.
         event_of_fill lg' (pe_fill_event_id e) = Some (with_run run' e))"
    using booking_replays [OF res _ assms(2) distinct _ assms(4,5,8)] assms(1,2) by simp
  then have b: "state_get lg' a i = rr_final_state res" "lg_queue lg' = lg_queue lg"
    "\<And>e. e \<in> set (rr_realized_pnl_events res) \<Longrightarrow> \<exists>run'. event_of_fill lg' (pe_fill_event_id e) = Some (with_run run' e)"
    by blast+
  have keyed': "stores_keyed lg'" using assms(3) inputs b(2) by (simp add: stores_keyed_def fill_inputs_def)
  have cons': "events_consistent (event_ids uuid5) lg'" using book_fills_keeps_events [OF assms(8,4,5)] by simp
  have collect': "collect_ordered_normalized_fills lg' a i = Inr ?fs" using collect_cong [OF inputs] assms(6) by simp
  have "state_get lg'' a i = state_get lg' a i"
  proof (cases "rr_final_state res")
    case (Some s)
    then have "s\<lparr>cb_recompute_required := False, cb_recompute_reason := None\<rparr> = s"
      using replay_unmarked [OF res _ Some] by simp
    with Some b(1) show ?thesis by (simp add: recompute_state [OF collect' res assms(9)])
  qed (use b(1) in \<open>simp add: recompute_state [OF collect' res assms(9)]\<close>)
  moreover have "map_option event_values (event_of_fill lg'' g) = map_option event_values (event_of_fill lg' g)"
  proof (cases "g \<in> pe_fill_event_id ` set (rr_realized_pnl_events res)")
    case True
    then obtain e where "e \<in> set (rr_realized_pnl_events res)" "g = pe_fill_event_id e" by blast
    with recompute_events(1) [OF keyed' cons' assms(5) collect' res assms(9), of e] b(3) [of e]
    show ?thesis by auto
  qed (simp add: recompute_events(2) [OF keyed' cons' assms(5) collect' res assms(9)])
  ultimately show ?thesis by simp
qed

theorem recompute_agrees_with_booking_witness:
  "let lg' = snd (book_fills ex_uuid5 [ex_bought, ex_sold] (ex_stored [ex_bought, ex_sold]));
       lg'' = snd (ex_recompute lg')
   in state_get lg'' 1 2 = state_get lg' 1 2"
proof -
  let ?xs = "[ex_bought, ex_sold]"
  let ?lg = "ex_stored [ex_bought, ex_sold]"
  obtain rs lg' where r: "book_fills ex_uuid5 ?xs ?lg = (rs, lg')" by (cases "book_fills ex_uuid5 ?xs ?lg")
  obtain out lg'' where r': "ex_recompute lg' = (out, lg'')" by (cases "ex_recompute lg'")
  have d: "distinct (map (\<lambda>x. fe_fill_event_id (snd x)) ?xs)" using ex_distinct by simp
  have l: "\<forall>x \<in> set ?xs. resolve_lineage ?lg (snd x) = Inr (ex_lineage x) \<and> fl_account_id (ex_lineage x) = 1
      \<and> fl_instrument_id (ex_lineage x) = 2 \<and> event_of_fill ?lg (fe_fill_event_id (snd x)) = None"
    using ex_resolved [OF ex_stored_ok(5)] by (simp add: ex_stored_ok(4)) (simp add: ex_lineage_def)
  show ?thesis
    using recompute_agrees_with_booking [OF l ex_stored_ok(3) ex_stored_ok(1) [OF d] ex_stored_ok(2)
        inj_ex_uuid5 ex_collect(2) ex_replay r r'] unfolding Let_def r r' snd_conv by simp
qed

text \<open>A recomputation that does not complete is reported as failed, resolves no request and
  changes nothing but the run log; its cause is the order listing or a fill the engine refuses,
  never the order of the fills.\<close>

theorem recompute_failure_keeps_books:
  assumes "recompute_account_instrument uuid5 ev a i lg = (out, lg')"
    and "cr_status (ro_computation_run out) \<noteq> ''completed''"
  shows "cr_status (ro_computation_run out) = ''failed'' \<and> ro_resolved_queue_item_ids out = []
    \<and> (\<exists>runs. lg' = lg\<lparr>lg_runs := runs\<rparr>)
    \<and> ((\<exists>e. collect_ordered_normalized_fills lg a i = Inl e)
       \<or> (\<exists>fs e. collect_ordered_normalized_fills lg a i = Inr fs
            \<and> replay_fills uuid5 (uuid_at ev ''run'') None fs = Inl e \<and> (\<forall>k. e \<noteq> FillsNotSorted k)))"
proof -
  have not_ok: "\<not> (\<exists>fs. collect_ordered_normalized_fills lg a i = Inr fs
            \<and> is_ok (replay_fills uuid5 (uuid_at ev ''run'') None fs))"
    using recompute_completed(1) [OF _ _ assms(1)] assms(2) by (auto simp: is_ok_iff)
  have "(\<exists>e. collect_ordered_normalized_fills lg a i = Inl e)
       \<or> (\<exists>fs e. collect_ordered_normalized_fills lg a i = Inr fs
            \<and> replay_fills uuid5 (uuid_at ev ''run'') None fs = Inl e \<and> (\<forall>k. e \<noteq> FillsNotSorted k))"
  proof (cases "collect_ordered_normalized_fills lg a i")
    case (Inr fs)
    then obtain e where e: "replay_fills uuid5 (uuid_at ev ''run'') None fs = Inl e"
      using not_ok by (auto simp: is_ok_iff_not_Inl)
    have "e \<noteq> FillsNotSorted k" for k
      using replay_sorted_input [OF collected_sorted [OF Inr], of None uuid5 "uuid_at ev ''run''" k] e
      by (auto simp: last_timestamp_def)
    with Inr e show ?thesis by blast
  qed simp
  with recompute_failed [OF assms(1) not_ok] show ?thesis by blast
qed

theorem recompute_failure_keeps_books_witness:
  "let (out, lg') = ex_recompute (ex_stored [ex_sold])
   in cr_status (ro_computation_run out) \<noteq> ''completed'' \<and> ro_resolved_queue_item_ids out = []
      \<and> (\<exists>runs. lg' = ex_stored [ex_sold]\<lparr>lg_runs := runs\<rparr>)"
proof -
  let ?lg = "ex_stored [ex_sold]"
  obtain out lg' where r: "ex_recompute ?lg = (out, lg')" by (cases "ex_recompute ?lg")
  have id: "cr_computation_run_id (new_run x y z w) = x" for x y z w by (simp add: new_run_def)
  have "cr_status (ro_computation_run out) \<noteq> ''completed''"
    using recompute_failed(1) [OF r] ex_collect(3) ex_replays(2) by (simp add: is_ok_def)
  then show ?thesis using recompute_failure_keeps_books [OF r] r by simp
qed

text \<open>Draining the queue recomputes each position with a pending request once, in the order of
  the first request.\<close>

theorem queue_recomputes_each_position_once:
  "map (\<lambda>out. (ro_account_id out, ro_instrument_id out)) (fst (process_pending_queue uuid5 envs limit lg)) =
     group_keys (map (\<lambda>q. (rq_account_id q, rq_instrument_id q)) (list_pending lg limit)) []"
  using process_items_keys [of "[]" "[]" uuid5 envs "list_pending lg limit" lg]
  by (simp add: process_pending_queue_def)

text \<open>A recomputation that finds no fills completes and resolves the requests of the position but
  leaves a recompute mark on the stored state, which no request asks to clear any more.\<close>

theorem recompute_without_fills_keeps_mark:
  assumes "collect_ordered_normalized_fills lg a i = Inr []"
    and "recompute_account_instrument uuid5 ev a i lg = (out, lg')" "stores_keyed lg"
  shows "cr_status (ro_computation_run out) = ''completed'' \<and> lg_states lg' = lg_states lg
    \<and> (\<forall>q \<in> set (pending_ids lg a i). \<exists>x. map_of (lg_queue lg') q = Some x \<and> rq_resolved_at x \<noteq> None)"
proof -
  have replay: "replay_fills uuid5 (uuid_at ev ''run'') None [] = Inr \<lparr>rr_final_state = None, rr_realized_pnl_events = []\<rparr>"
    by (simp add: replay_fills_def)
  show ?thesis
    using recompute_completed(1,2) [OF assms(1) replay assms(2)]
      recompute_resolves [OF assms(3,1) replay assms(2)]
    by (fastforce simp: persist_replay_states)
qed

theorem recompute_without_fills_keeps_mark_witness:
  "let lg = mark_recompute_required 1 2 None ''out_of_order_fill_detected'' (ex_stored []);
       (out, lg') = ex_recompute lg
   in cr_status (ro_computation_run out) = ''completed'' \<and> pending_ids lg 1 2 = [30]
      \<and> map_option cb_recompute_required (state_get lg' 1 2) = Some True"
proof -
  let ?lg = "mark_recompute_required 1 2 None ''out_of_order_fill_detected'' (ex_stored [])"
  obtain out lg' where r: "ex_recompute ?lg = (out, lg')" by (cases "ex_recompute ?lg")
  have c: "collect_ordered_normalized_fills ?lg 1 2 = Inr []"
    using collect_cong [of ?lg "ex_stored []"] ex_collect(4) by simp
  have p: "pending_ids ?lg 1 2 = [30]"
    using ex_pending [of "[]"] list_pending_cong [of ?lg "ex_stored []"] by (simp add: pending_ids_def)
  have k: "stores_keyed ?lg" using ex_stored_ok(1) [of "[]"]
    by (simp add: stores_keyed_def mark_recompute_required_def state_upsert_def Let_def)
  have "state_get lg' 1 2 = state_get ?lg 1 2"
    using recompute_without_fills_keeps_mark [OF c r k] by (simp add: state_get_def)
  moreover have "map_option cb_recompute_required (state_get ?lg 1 2) = Some True"
    by (simp add: mark_recompute_required_def state_upsert_def state_get_def unopened_state_def update_conv' Let_def)
  ultimately show ?thesis
    using recompute_without_fills_keeps_mark [OF c r k] r p by simp
qed

end
