(* ===== verification/Circuit_Breaker.thy ===== *)
theory Circuit_Breaker
  imports Rounding
begin

text \<open>
  Retry delays and the circuit breaker of the broker clients (\<^verbatim>\<open>brokers/backoff.py\<close>).  Times are readings
  of the monotonic clock in seconds (binary64), passed as arguments; a protected call is given by
  what it returns or raises.  \<open>others\<close> is what other coroutines do to the breaker while an
  asynchronous call waits.
\<close>

section \<open>Delays\<close>

record exponential_backoff =
  eb_base_delay :: rat
  eb_multiplier :: rat
  eb_max_delay :: rat
  eb_jitter :: rat

definition default_exponential_backoff :: exponential_backoff where
  "default_exponential_backoff = \<lparr>eb_base_delay = 1, eb_multiplier = 2, eb_max_delay = 60, eb_jitter = 1 / 10\<rparr>"

text \<open>A power beyond the largest float raises \<open>OverflowError\<close>.\<close>

definition float_power :: "rat \<Rightarrow> nat \<Rightarrow> rat option" where
  "float_power m n = (if fround (m ^ n) < 2 ^ 1024 then Some (fround (m ^ n)) else None)"

text \<open>\<open>u\<close> is the value of \<open>random.random()\<close> behind \<open>random.uniform(0, jitter)\<close>.\<close>

definition exponential_delay :: "exponential_backoff \<Rightarrow> rat \<Rightarrow> nat \<Rightarrow> rat option" where
  "exponential_delay b u attempt =
     map_option (\<lambda>p.
       let delay = min (fmul (eb_base_delay b) p) (eb_max_delay b)
       in if 0 < eb_jitter b then fadd delay (fmul (eb_jitter b) u) else delay)
     (float_power (eb_multiplier b) attempt)"

definition linear_delay :: "rat \<Rightarrow> nat \<Rightarrow> rat" where
  "linear_delay delay attempt = delay"

section \<open>The breaker\<close>

datatype circuit_state = CLOSED | OPEN | HALF_OPEN

record circuit_breaker =
  br_failure_threshold :: int
  br_recovery_timeout :: rat
  br_half_open_max_retries :: int
  br_state :: circuit_state
  br_failure_count :: int
  br_last_failure_time :: rat
  br_half_open_attempts :: int

definition new_circuit_breaker :: "int \<Rightarrow> rat \<Rightarrow> int \<Rightarrow> circuit_breaker" where
  "new_circuit_breaker failure_threshold recovery_timeout half_open_max_retries =
     \<lparr>br_failure_threshold = failure_threshold, br_recovery_timeout = recovery_timeout,
      br_half_open_max_retries = half_open_max_retries, br_state = CLOSED, br_failure_count = 0,
      br_last_failure_time = 0, br_half_open_attempts = 0\<rparr>"

definition check_timeout :: "rat \<Rightarrow> circuit_breaker \<Rightarrow> circuit_breaker" where
  "check_timeout now b =
     (if br_state b = OPEN \<and> br_recovery_timeout b \<le> fsub now (br_last_failure_time b)
      then b\<lparr>br_state := HALF_OPEN, br_half_open_attempts := 0\<rparr>
      else b)"

definition on_success :: "circuit_breaker \<Rightarrow> circuit_breaker" where
  "on_success b =
     (if br_state b = HALF_OPEN
      then (let attempts = br_half_open_attempts b + 1
            in if br_half_open_max_retries b \<le> attempts
               then b\<lparr>br_state := CLOSED, br_failure_count := 0, br_half_open_attempts := 0\<rparr>
               else b\<lparr>br_half_open_attempts := attempts\<rparr>)
      else b\<lparr>br_failure_count := 0\<rparr>)"

definition on_failure :: "rat \<Rightarrow> circuit_breaker \<Rightarrow> circuit_breaker" where
  "on_failure now b =
     (let b = b\<lparr>br_failure_count := br_failure_count b + 1, br_last_failure_time := now\<rparr>
      in if br_state b = HALF_OPEN then b\<lparr>br_state := OPEN, br_half_open_attempts := 0\<rparr>
         else if br_failure_threshold b \<le> br_failure_count b then b\<lparr>br_state := OPEN\<rparr>
         else b)"

definition reset_breaker :: "circuit_breaker \<Rightarrow> circuit_breaker" where
  "reset_breaker b = b\<lparr>br_state := CLOSED, br_failure_count := 0, br_half_open_attempts := 0\<rparr>"

text \<open>A cancelled coroutine raises no \<open>Exception\<close> and passes the handlers by.\<close>

datatype ('e, 'r) fn_outcome = Returned 'r | Raised 'e | Cancelled

datatype 'e call_error = Circuit_Breaker_Open int | Call_Raised 'e | Call_Cancelled

definition async_call ::
  "rat \<Rightarrow> ('e, 'r) fn_outcome \<Rightarrow> (circuit_breaker \<Rightarrow> circuit_breaker) \<Rightarrow> rat \<Rightarrow> circuit_breaker
   \<Rightarrow> ('e call_error + 'r) \<times> circuit_breaker" where
  "async_call now outcome others now' b =
     (let b = check_timeout now b
      in if br_state b = OPEN then (Inl (Circuit_Breaker_Open (br_failure_count b)), b)
         else (case outcome of
                 Returned result \<Rightarrow> (Inr result, on_success (others b))
               | Raised exc \<Rightarrow> (Inl (Call_Raised exc), on_failure now' (others b))
               | Cancelled \<Rightarrow> (Inl Call_Cancelled, others b)))"

text \<open>The synchronous variant lets nobody interfere.\<close>

definition call ::
  "rat \<Rightarrow> ('e, 'r) fn_outcome \<Rightarrow> rat \<Rightarrow> circuit_breaker \<Rightarrow> ('e call_error + 'r) \<times> circuit_breaker" where
  "call now outcome now' b = async_call now outcome id now' b"

section \<open>Reachable states\<close>

text \<open>Every way in which the state of a breaker changes.\<close>

inductive breaker_step :: "circuit_breaker \<Rightarrow> circuit_breaker \<Rightarrow> bool" where
  look: "breaker_step b (check_timeout now b)"
| success: "breaker_step b (on_success b)"
| failure: "breaker_step b (on_failure now b)"
| manual_reset: "breaker_step b (reset_breaker b)"

definition breaker_ok :: "circuit_breaker \<Rightarrow> bool" where
  "breaker_ok b \<longleftrightarrow> 0 \<le> br_failure_count b \<and> 0 \<le> br_half_open_attempts b
     \<and> (br_state b = CLOSED \<longrightarrow> br_failure_count b < br_failure_threshold b)
     \<and> (br_state b = HALF_OPEN \<longrightarrow> br_half_open_attempts b < br_half_open_max_retries b)
     \<and> 0 < br_failure_threshold b \<and> 0 < br_half_open_max_retries b"

lemma breaker_step_ok: "breaker_step b b' \<Longrightarrow> breaker_ok b \<Longrightarrow> breaker_ok b'"
  by (induction rule: breaker_step.induct)
    (auto simp: breaker_ok_def check_timeout_def on_success_def on_failure_def reset_breaker_def Let_def)

lemma breaker_steps_ok: "breaker_step\<^sup>*\<^sup>* b b' \<Longrightarrow> breaker_ok b \<Longrightarrow> breaker_ok b'"
  by (induction rule: rtranclp_induct) (auto intro: breaker_step_ok)

lemma async_call_reachable:
  assumes "\<And>b. breaker_step\<^sup>*\<^sup>* b (others b)"
  shows "breaker_step\<^sup>*\<^sup>* b (snd (async_call now outcome others now' b))"
proof -
  have look: "breaker_step\<^sup>*\<^sup>* b (check_timeout now b)" by (auto intro: breaker_step.intros)
  then have wait: "breaker_step\<^sup>*\<^sup>* b (others (check_timeout now b))" using assms rtranclp_trans by metis
  then have "breaker_step\<^sup>*\<^sup>* b (on_success (others (check_timeout now b)))"
    "breaker_step\<^sup>*\<^sup>* b (on_failure now' (others (check_timeout now b)))"
    by (meson breaker_step.intros rtranclp.rtrancl_into_rtrancl)+
  with look wait show ?thesis by (simp add: async_call_def Let_def split: fn_outcome.split)
qed

section \<open>Sequences of calls\<close>

text \<open>A call with the clock readings before and after it.\<close>

type_synonym ('e, 'r) timed_call = "rat \<times> ('e, 'r) fn_outcome \<times> rat"

fun run_calls :: "('e, 'r) timed_call list \<Rightarrow> circuit_breaker \<Rightarrow> circuit_breaker" where
  "run_calls [] b = b"
| "run_calls ((now, outcome, now') # xs) b = run_calls xs (snd (call now outcome now' b))"

lemma run_calls_append: "run_calls (xs @ ys) b = run_calls ys (run_calls xs b)"
  by (induction xs b rule: run_calls.induct) simp_all

lemma half_open_calls_close:
  assumes "br_state b = HALF_OPEN" "br_half_open_attempts b < br_half_open_max_retries b"
    and "\<forall>x \<in> set xs. \<exists>r. fst (snd x) = Returned r"
    and "int (length xs) = br_half_open_max_retries b - br_half_open_attempts b"
  shows "br_state (run_calls xs b) = CLOSED \<and> br_failure_count (run_calls xs b) = 0"
  using assms
proof (induction xs arbitrary: b)
  case (Cons x xs)
  obtain now r now' where x: "x = (now, Returned r, now')" using Cons.prems(3) by (cases x) auto
  have s: "snd (call now (Returned r) now' b) = on_success b"
    using Cons.prems(1) by (simp add: call_def async_call_def check_timeout_def)
  show ?case
  proof (cases "br_half_open_max_retries b \<le> br_half_open_attempts b + 1")
    case True
    moreover have "1 + int (length xs) = br_half_open_max_retries b - br_half_open_attempts b"
      using Cons.prems(4) by simp
    ultimately have "int (length xs) \<le> 0" by linarith
    then have "xs = []" by simp
    with True Cons.prems(1) show ?thesis by (simp add: x s on_success_def)
  next
    case False
    with Cons.prems show ?thesis
      unfolding x run_calls.simps s by (intro Cons.IH) (simp_all add: on_success_def Let_def)
  qed
qed simp

lemma first_call_after_timeout:
  assumes "br_state b = OPEN" "br_recovery_timeout b \<le> fsub now (br_last_failure_time b)"
  shows "run_calls ((now, outcome, now') # xs) b =
    run_calls ((now, outcome, now') # xs) (b\<lparr>br_state := HALF_OPEN, br_half_open_attempts := 0\<rparr>)"
  using assms by (simp add: call_def async_call_def check_timeout_def)

section \<open>Interleaved calls\<close>

text \<open>What happens to a breaker, in the order in which it happens: calls of several coroutines appear as their
  admission and, later, their outcome.\<close>

datatype breaker_event = Look rat | Succeeded | Failed rat | Manual_Reset

fun breaker_event_step :: "breaker_event \<Rightarrow> circuit_breaker \<Rightarrow> circuit_breaker" where
  "breaker_event_step (Look now) b = check_timeout now b"
| "breaker_event_step Succeeded b = on_success b"
| "breaker_event_step (Failed now) b = on_failure now b"
| "breaker_event_step Manual_Reset b = reset_breaker b"

definition breaker_after :: "breaker_event list \<Rightarrow> circuit_breaker \<Rightarrow> circuit_breaker" where
  "breaker_after = fold breaker_event_step"

definition outcome_events :: "rat \<Rightarrow> ('e, 'r) fn_outcome \<Rightarrow> breaker_event list" where
  "outcome_events now outcome = (case outcome of Returned _ \<Rightarrow> [Succeeded] | Raised _ \<Rightarrow> [Failed now] | Cancelled \<Rightarrow> [])"

lemma async_call_events:
  assumes "br_state (check_timeout now b) \<noteq> OPEN"
  shows "snd (async_call now outcome (breaker_after between) now' b) = breaker_after (Look now # between @ outcome_events now' outcome) b"
  using assms by (simp add: async_call_def breaker_after_def outcome_events_def Let_def split: fn_outcome.split)

text \<open>How many of the last outcomes were failures, admissions left aside.\<close>

definition consecutive_failures :: "breaker_event list \<Rightarrow> nat" where
  "consecutive_failures es =
     length (takeWhile (\<lambda>e. \<exists>t. e = Failed t) (filter (\<lambda>e. \<forall>t. e \<noteq> Look t) (rev es)))"

lemma consecutive_failures_simps [simp]:
  "consecutive_failures [] = 0"
  "consecutive_failures (es @ [Look t]) = consecutive_failures es"
  "consecutive_failures (es @ [Succeeded]) = 0"
  "consecutive_failures (es @ [Failed t]) = Suc (consecutive_failures es)"
  "consecutive_failures (es @ [Manual_Reset]) = 0"
  by (simp_all add: consecutive_failures_def)

lemma breaker_event_threshold [simp]: "br_failure_threshold (breaker_event_step e b) = br_failure_threshold b"
  by (cases e) (simp_all add: check_timeout_def on_success_def on_failure_def reset_breaker_def Let_def)

lemma breaker_after_snoc [simp]: "breaker_after (es @ [e]) b = breaker_event_step e (breaker_after es b)"
  by (simp add: breaker_after_def)

lemma breaker_after_threshold [simp]: "br_failure_threshold (breaker_after es b) = br_failure_threshold b"
  by (induction es rule: rev_induct) (simp_all, simp add: breaker_after_def)

text \<open>A closed breaker counts the failures since the last success: whatever it went through before, closing
  starts the count anew.\<close>

lemma closed_counts_failures:
  assumes "br_state (breaker_after es (new_circuit_breaker (int n) timeout retries)) = CLOSED" "0 < n"
  shows "br_failure_count (breaker_after es (new_circuit_breaker (int n) timeout retries)) = int (consecutive_failures es)
    \<and> consecutive_failures es < n"
  using assms(1)
proof (induction es rule: rev_induct)
  case Nil
  then show ?case using assms(2) by (simp add: breaker_after_def new_circuit_breaker_def)
next
  case (snoc e es)
  have "br_failure_threshold (breaker_after es (new_circuit_breaker (int n) timeout retries)) = int n"
    by (simp add: new_circuit_breaker_def)
  with snoc assms(2) show ?case
    by (cases e)
      (auto simp: check_timeout_def on_success_def on_failure_def reset_breaker_def Let_def split: if_splits)
qed

section \<open>Properties\<close>

text \<open>The counters of a breaker stay within their limits whatever happens to it, asynchronous
  calls with any interference included: a closed breaker has seen fewer failures than its
  threshold, a half-open one fewer successful probes than it needs.\<close>

theorem breaker_stays_consistent:
  assumes "0 < threshold" "0 < retries" "breaker_step\<^sup>*\<^sup>* (new_circuit_breaker threshold timeout retries) b"
    and "\<And>b. breaker_step\<^sup>*\<^sup>* b (others b)"
  shows "breaker_ok b \<and> breaker_ok (snd (async_call now outcome others now' b))"
proof -
  have "breaker_ok (new_circuit_breaker threshold timeout retries)"
    using assms(1,2) by (simp add: breaker_ok_def new_circuit_breaker_def)
  then have "breaker_ok b" using assms(3) by (rule breaker_steps_ok [rotated])
  then show ?thesis using async_call_reachable [of others, OF assms(4)] by (blast intro: breaker_steps_ok)
qed

theorem breaker_stays_consistent_witness:
  "breaker_ok (snd (async_call 3 (Raised () :: (unit, unit) fn_outcome) id 4 (on_failure 2 (new_circuit_breaker 5 30 1))))"
  using breaker_stays_consistent [of 5 1 30 "on_failure 2 (new_circuit_breaker 5 30 1)" id 3
      "Raised () :: (unit, unit) fn_outcome" 4]
  by (auto intro: breaker_step.intros)

text \<open>C35. A closed breaker opens exactly at the failure that completes a run of failures as long as its
  threshold, whatever it went through since it was created (earlier trips, probes, closing from half-open,
  manual resets, calls of other coroutines in any order): its count is the number of failures since the
  last success or reset, so closing starts it anew, and a call that it admits, during which other calls may
  come and go as long as the breaker is still closed when the call ends, opens it if and only if the call
  raises and makes that run long enough.\<close>

theorem breaker_trips_after_consecutive_failures:
  fixes outcome :: "('e, 'r) fn_outcome"
  assumes "0 < n"
    and "br_state (breaker_after es (new_circuit_breaker (int n) timeout retries)) = CLOSED"
    and "br_state (breaker_after (es @ Look now # between) (new_circuit_breaker (int n) timeout retries)) = CLOSED"
  shows "br_failure_count (breaker_after es (new_circuit_breaker (int n) timeout retries)) = int (consecutive_failures es)
    \<and> (br_state (snd (async_call now outcome (breaker_after between) now'
            (breaker_after es (new_circuit_breaker (int n) timeout retries)))) = OPEN
       \<longleftrightarrow> (\<exists>e. outcome = Raised e) \<and> n \<le> Suc (consecutive_failures (es @ between)))"
proof -
  let ?new = "new_circuit_breaker (int n) timeout retries"
  let ?b = "breaker_after es ?new" and ?c = "breaker_after (es @ Look now # between) ?new"
  have look: "check_timeout now ?b = ?b" using assms(2) by (simp add: check_timeout_def)
  have c: "?c = breaker_after between ?b" using look by (simp add: breaker_after_def)
  have k: "consecutive_failures (es @ Look now # between) = consecutive_failures (es @ between)"
    by (simp add: consecutive_failures_def)
  have count: "br_failure_count ?c = int (consecutive_failures (es @ between))" "br_failure_threshold ?c = int n"
    using closed_counts_failures [OF assms(3,1)] k by (simp_all add: new_circuit_breaker_def)
  have "snd (async_call now outcome (breaker_after between) now' ?b) =
      (case outcome of Returned _ \<Rightarrow> on_success ?c | Raised _ \<Rightarrow> on_failure now' ?c | Cancelled \<Rightarrow> ?c)"
    using assms(2) by (simp add: async_call_def look c Let_def split: fn_outcome.split)
  then have "br_state (snd (async_call now outcome (breaker_after between) now' ?b)) = OPEN
      \<longleftrightarrow> (\<exists>e. outcome = Raised e) \<and> n \<le> Suc (consecutive_failures (es @ between))"
    using assms(3) count by (auto simp: on_success_def on_failure_def Let_def split: fn_outcome.split)
  with closed_counts_failures [OF assms(2,1)] show ?thesis by simp
qed

theorem breaker_trips_after_consecutive_failures_witness:
  "br_state (snd (async_call 50 (Raised () :: (unit, unit) fn_outcome) (breaker_after []) 51
     (breaker_after [Failed 2, Failed 4, Look 40, Succeeded, Failed 45] (new_circuit_breaker 2 30 1)))) = OPEN"
proof -
  let ?es = "[Failed 2, Failed 4, Look 40, Succeeded, Failed 45]"
  have f: "fsub 40 4 = 36" by code_simp
  have c: "br_state (breaker_after ?es (new_circuit_breaker (int 2) 30 1)) = CLOSED"
    by (simp add: breaker_after_def on_failure_def on_success_def check_timeout_def new_circuit_breaker_def f)
  then have c': "br_state (breaker_after (?es @ [Look 50]) (new_circuit_breaker (int 2) 30 1)) = CLOSED"
    by (simp only: breaker_after_snoc breaker_event_step.simps) (simp add: check_timeout_def)
  from breaker_trips_after_consecutive_failures [OF _ c c', of "Raised () :: (unit, unit) fn_outcome" 51]
  show ?thesis by (simp add: consecutive_failures_def)
qed

text \<open>An open breaker recovers: once the recovery time has passed, as many successful calls as it
  wants probes close it with a clean count.\<close>

theorem breaker_recovers:
  assumes "br_state b = OPEN" "0 < br_half_open_max_retries b"
    and "br_recovery_timeout b \<le> fsub (fst (hd xs)) (br_last_failure_time b)"
    and "\<forall>x \<in> set xs. \<exists>r. fst (snd x) = Returned r" "int (length xs) = br_half_open_max_retries b"
  shows "br_state (run_calls xs b) = CLOSED \<and> br_failure_count (run_calls xs b) = 0"
proof -
  obtain now outcome now' ys where xs: "xs = (now, outcome, now') # ys"
    using assms(2,5) by (cases xs) auto
  then have "run_calls xs b = run_calls xs (b\<lparr>br_state := HALF_OPEN, br_half_open_attempts := 0\<rparr>)"
    using first_call_after_timeout [OF assms(1)] assms(3) by simp
  then show ?thesis
    using half_open_calls_close [of "b\<lparr>br_state := HALF_OPEN, br_half_open_attempts := 0\<rparr>" xs] assms by simp
qed

theorem breaker_recovers_witness:
  "br_state (run_calls ([(40, Returned (), 41), (42, Returned (), 43)] :: (unit, unit) timed_call list)
     ((new_circuit_breaker 5 30 2)\<lparr>br_state := OPEN, br_last_failure_time := 10\<rparr>)) = CLOSED"
proof -
  have "fsub 40 10 = 30" by code_simp
  then show ?thesis
  using breaker_recovers [of "(new_circuit_breaker 5 30 2)\<lparr>br_state := OPEN, br_last_failure_time := 10\<rparr>"
      "[(40, Returned (), 41), (42, Returned (), 43)] :: (unit, unit) timed_call list"]
  by (simp add: new_circuit_breaker_def)
qed

text \<open>A retry waits at least the base delay and at most the maximum and the jitter together, unless the
  power overflows.\<close>

theorem exponential_delay_bounds:
  assumes "exponential_delay b u attempt = Some d" "0 \<le> u" "u \<le> 1"
    and "0 \<le> eb_base_delay b" "1 \<le> eb_multiplier b" "0 \<le> eb_max_delay b"
    and "flt.repr (eb_base_delay b)" "flt.repr (eb_max_delay b)" "flt.repr (eb_jitter b)"
  shows "min (eb_base_delay b) (eb_max_delay b) \<le> d \<and> d \<le> fadd (eb_max_delay b) (max 0 (eb_jitter b))"
proof -
  let ?p = "fround (eb_multiplier b ^ attempt)"
  let ?d = "min (fmul (eb_base_delay b) ?p) (eb_max_delay b)"
  have d: "d = (if 0 < eb_jitter b then fadd ?d (fmul (eb_jitter b) u) else ?d)"
    using assms(1) by (auto simp: exponential_delay_def float_power_def Let_def split: if_splits)
  have "1 \<le> ?p" using assms(5) by (intro flt.rnd_ge_repr) simp_all
  then have "eb_base_delay b \<le> fmul (eb_base_delay b) ?p"
    unfolding fmul_def using assms(4,7) by (intro flt.rnd_ge_repr) (simp_all add: mult_le_cancel_left1)
  then have low: "min (eb_base_delay b) (eb_max_delay b) \<le> ?d" by simp
  have repr: "flt.repr ?d" using assms(8) by (simp add: min_def fmul_def)
  show ?thesis
  proof (cases "0 < eb_jitter b")
    case True
    have j: "0 \<le> fmul (eb_jitter b) u" "fmul (eb_jitter b) u \<le> eb_jitter b"
      unfolding fmul_def using True assms(2,3,9)
      by (simp_all add: flt.rnd_nonneg flt.rnd_le_repr mult_left_le)
    have "?d \<le> fadd ?d (fmul (eb_jitter b) u)"
      unfolding fadd_def using j(1) repr by (intro flt.rnd_ge_repr) simp_all
    moreover have "fadd ?d (fmul (eb_jitter b) u) \<le> fadd (eb_max_delay b) (eb_jitter b)"
      unfolding fadd_def using j(2) by (intro flt.rnd_mono add_mono) simp_all
    ultimately show ?thesis using low True by (simp add: d)
  next
    case False
    have "fadd (eb_max_delay b) 0 = eb_max_delay b" using assms(8) by (simp add: fadd_def flt.repr_def)
    with low False show ?thesis by (simp add: d max_def)
  qed
qed

text \<open>A half-open breaker admits every request, although a single probe is announced: admission does
  not change it, so any number of calls may be on their way before the first one returns.\<close>

theorem half_open_admits_every_request:
  "br_state b = HALF_OPEN \<Longrightarrow> fold check_timeout nows b = b \<and> (\<forall>now \<in> set nows. br_state (check_timeout now b) \<noteq> OPEN)"
  by (induction nows) (simp_all add: check_timeout_def)

end
