(* ===== verification/Sell_Guard.thy ===== *)
theory Sell_Guard
  imports Ledger "HOL-Library.Multiset"
begin

text \<open>
  The guard against selling twice (\<^verbatim>\<open>services/sell_guard.py\<close>): what may still be sold is the position of
  the latest snapshot less the open sell orders and less what partially filled sell orders have
  left.  The module reads the instrument, snapshot, order, broker order and fill repositories and
  writes nothing.  The clock is read once per count.
\<close>

section \<open>Repositories\<close>

record position_snapshot =
  ps_position_snapshot_id :: uuid
  ps_account_id :: uuid
  ps_instrument_id :: uuid
  ps_quantity :: rat
  ps_average_price :: rat
  ps_market_price :: "rat option"
  ps_unrealized_pnl :: "rat option"
  ps_source_of_truth :: string
  ps_snapshot_at :: timestamp
  ps_purchase_amount :: "rat option"
  ps_evaluation_amount :: "rat option"
  ps_created_at :: "timestamp option"
  ps_fetch_status :: string
  ps_snapshot_sync_run_id :: "uuid option"

record sell_repos =
  sg_ledger :: ledger
  sg_position_snapshots :: "(uuid \<times> position_snapshot) list"

text \<open>
  The instrument of a symbol on any market: the main Korean listing first, then active before
  inactive, then the two Korean segments, then the latest change.  Seconds as floats order time
  stamps like microseconds; a missing time counts as the epoch.
\<close>

definition any_market_key :: "instrument \<Rightarrow> nat \<times> nat \<times> int" where
  "any_market_key item =
     (if in_exchange_code item = Some ''KRX'' \<and> in_market_code item = ''KRX'' then 0
      else if in_exchange_code item = Some ''KRX'' \<and> in_is_active item then 1
      else if in_exchange_code item = Some ''KRX'' then 2
      else if in_is_active item then 3 else 4,
      if in_market_segment item \<in> {Some ''KOSPI'', Some ''KOSDAQ''} then 0 else 1,
      - (case in_updated_at item of
           Some t \<Rightarrow> t
         | None \<Rightarrow> (case in_created_at item of Some t \<Rightarrow> t | None \<Rightarrow> 0)))"

definition get_by_symbol_any_market :: "repos \<Rightarrow> string \<Rightarrow> instrument option" where
  "get_by_symbol_any_market w symbol =
     (case sort_key any_market_key (filter (\<lambda>item. in_symbol item = symbol) (map snd (rp_instruments w))) of
        [] \<Rightarrow> None
      | item # _ \<Rightarrow> Some item)"

definition position_list_latest_by_account :: "sell_repos \<Rightarrow> uuid \<Rightarrow> position_snapshot list" where
  "position_list_latest_by_account w account_id =
     sort_key (\<lambda>item. - ps_snapshot_at item)
       (filter (\<lambda>item. ps_account_id item = account_id) (map snd (sg_position_snapshots w)))"

section \<open>The guard\<close>

datatype blocking_part =
    No_Position rat
  | Open_Sells rat
  | Partial_Remaining rat
  | Available_Requested rat rat

record sell_availability =
  sa_available_sell_qty :: rat
  sa_current_position_qty :: rat
  sa_open_sell_qty :: rat
  sa_partially_filled_remaining_qty :: rat
  sa_is_blocked :: bool
  sa_blocking_reason :: "blocking_part list option"

definition is_stale_day_order_residual :: "timestamp \<Rightarrow> order_request \<Rightarrow> bool" where
  "is_stale_day_order_residual now order =
     (if or_time_in_force order \<noteq> DAY then False
      else case or_else (\<lambda>_. False) (or_submitted_at order) (or_created_at order) of
             None \<Rightarrow> False
           | Some order_time \<Rightarrow> to_kst_trade_date order_time < to_kst_trade_date now)"

definition get_current_position_qty :: "sell_repos \<Rightarrow> uuid \<Rightarrow> uuid option \<Rightarrow> rat" where
  "get_current_position_qty w account_id instrument_id =
     (case instrument_id of
        None \<Rightarrow> 0
      | Some i \<Rightarrow>
          (case find_first (\<lambda>snap. ps_instrument_id snap = i)
                  (position_list_latest_by_account w account_id) of
             None \<Rightarrow> 0
           | Some snap \<Rightarrow> ps_quantity snap))"

definition open_statuses :: "order_status list" where
  "open_statuses = [PENDING_SUBMIT, SUBMITTED, ACKNOWLEDGED, RECONCILE_REQUIRED]"

text \<open>An order that waits for submission for half an hour without a broker number.\<close>

definition is_stale_pending_submit :: "ledger \<Rightarrow> timestamp \<Rightarrow> order_request \<Rightarrow> bool" where
  "is_stale_pending_submit lg now order \<longleftrightarrow>
     or_status order = PENDING_SUBMIT
     \<and> (case or_created_at order of None \<Rightarrow> False | Some t \<Rightarrow> t < now - 1800 * 1000000)
     \<and> \<not> (\<exists>bo \<in> set (broker_orders_of_request (lg_repos lg) (or_order_request_id order)).
            bo_broker_native_order_id bo \<noteq> None)"

definition get_open_sell_qty ::
  "timestamp \<Rightarrow> ledger \<Rightarrow> uuid \<Rightarrow> uuid option \<Rightarrow> order_error + rat" where
  "get_open_sell_qty now lg account_id instrument_id =
     (case instrument_id of
        None \<Rightarrow> Inr 0
      | Some i \<Rightarrow>
          res_bind
            (order_list (lg_repos lg)
               (any_order\<lparr>oq_account_id := Some account_id, oq_statuses := Some open_statuses,
                          oq_limit := 200\<rparr>))
            (\<lambda>orders. Inr (foldl (\<lambda>total order.
               if or_instrument_id order \<noteq> i then total
               else if or_side order \<noteq> SELL then total
               else if is_stale_day_order_residual now order then total
               else if is_stale_pending_submit lg now order then total
               else dadd total (or_requested_quantity order)) 0 orders)))"

definition broker_order_remaining :: "ledger \<Rightarrow> order_request \<Rightarrow> broker_order \<Rightarrow> rat" where
  "broker_order_remaining lg order bo =
     dsub (or_requested_quantity order)
       (foldl dadd 0 (map fe_fill_quantity (fills_of_broker_order lg (bo_broker_order_id bo))))"

definition get_partially_filled_remaining_qty ::
  "timestamp \<Rightarrow> ledger \<Rightarrow> uuid \<Rightarrow> uuid option \<Rightarrow> order_error + rat" where
  "get_partially_filled_remaining_qty now lg account_id instrument_id =
     (case instrument_id of
        None \<Rightarrow> Inr 0
      | Some i \<Rightarrow>
          res_bind
            (order_list (lg_repos lg)
               (any_order\<lparr>oq_account_id := Some account_id, oq_statuses := Some [PARTIALLY_FILLED],
                          oq_limit := 100\<rparr>))
            (\<lambda>orders. Inr (foldl (\<lambda>total order.
               if or_instrument_id order \<noteq> i then total
               else if or_side order \<noteq> SELL then total
               else if is_stale_day_order_residual now order then total
               else foldl (\<lambda>total bo.
                      let remaining = broker_order_remaining lg order bo
                      in if 0 < remaining then dadd total remaining else total)
                    total (broker_orders_of_request (lg_repos lg) (or_order_request_id order)))
             0 orders)))"

definition sell_guard_resolve ::
  "env \<Rightarrow> sell_repos \<Rightarrow> uuid \<Rightarrow> string \<Rightarrow> rat \<Rightarrow> order_error + sell_availability" where
  "sell_guard_resolve ev w account_id symbol requested_qty =
     (let lg = sg_ledger w;
          instrument_id = map_option in_instrument_id (get_by_symbol_any_market (lg_repos lg) symbol);
          current_position_qty = get_current_position_qty w account_id instrument_id
      in res_bind (get_open_sell_qty (now_at ev ''open'') lg account_id instrument_id) (\<lambda>open_sell_qty.
         res_bind (get_partially_filled_remaining_qty (now_at ev ''partial'') lg account_id instrument_id)
           (\<lambda>partially_filled_remaining_qty.
         let available_sell_qty =
               dsub (dsub current_position_qty open_sell_qty) partially_filled_remaining_qty;
             is_blocked = available_sell_qty < requested_qty;
             parts =
               (if current_position_qty \<le> 0 then [No_Position current_position_qty] else [])
               @ (if 0 < open_sell_qty then [Open_Sells open_sell_qty] else [])
               @ (if 0 < partially_filled_remaining_qty
                  then [Partial_Remaining partially_filled_remaining_qty] else [])
               @ [Available_Requested available_sell_qty requested_qty]
         in Inr \<lparr>sa_available_sell_qty = available_sell_qty,
                 sa_current_position_qty = current_position_qty,
                 sa_open_sell_qty = open_sell_qty,
                 sa_partially_filled_remaining_qty = partially_filled_remaining_qty,
                 sa_is_blocked = is_blocked,
                 sa_blocking_reason = (if is_blocked then Some parts else None)\<rparr>)))"

section \<open>What the guard counts\<close>

lemma foldl_dadd_filter:
  "foldl (\<lambda>t x. if P x then dadd t (f x) else t) a xs = foldl dadd a (map f (filter P xs))"
  by (induction xs arbitrary: a) simp_all

lemma foldl_foldl_dadd:
  "foldl (\<lambda>t x. foldl dadd t (f x)) a xs = foldl dadd a (concat (map f xs))"
  by (induction xs arbitrary: a) simp_all

lemma foldl_if: "foldl (\<lambda>t x. if P x then g t x else t) a xs = foldl g a (filter P xs)"
  by (induction xs arbitrary: a) simp_all

definition live_sell :: "timestamp \<Rightarrow> uuid \<Rightarrow> order_request \<Rightarrow> bool" where
  "live_sell now i order \<longleftrightarrow> or_instrument_id order = i \<and> or_side order = SELL
     \<and> \<not> is_stale_day_order_residual now order"

definition open_query :: "uuid \<Rightarrow> order_query" where
  "open_query a = any_order\<lparr>oq_account_id := Some a, oq_statuses := Some open_statuses, oq_limit := 200\<rparr>"

definition partial_query :: "uuid \<Rightarrow> order_query" where
  "partial_query a = any_order\<lparr>oq_account_id := Some a, oq_statuses := Some [PARTIALLY_FILLED], oq_limit := 100\<rparr>"

lemma open_sell_qty_sum:
  "get_open_sell_qty now lg a (Some i) = res_bind (order_list (lg_repos lg) (open_query a))
     (\<lambda>orders. Inr (foldl dadd 0 (map or_requested_quantity
        (filter (\<lambda>o1. live_sell now i o1 \<and> \<not> is_stale_pending_submit lg now o1) orders))))"
proof -
  have "(if or_instrument_id o1 \<noteq> i then t else if or_side o1 \<noteq> SELL then t
      else if is_stale_day_order_residual now o1 then t
      else if is_stale_pending_submit lg now o1 then t else dadd t (or_requested_quantity o1)) =
    (if live_sell now i o1 \<and> \<not> is_stale_pending_submit lg now o1
     then dadd t (or_requested_quantity o1) else t)" for t o1
    by (auto simp: live_sell_def)
  then show ?thesis
    by (simp add: get_open_sell_qty_def open_query_def foldl_dadd_filter)
qed

definition counted_remaining :: "ledger \<Rightarrow> order_request \<Rightarrow> rat list" where
  "counted_remaining lg o1 = filter ((<) 0) (map (broker_order_remaining lg o1)
     (broker_orders_of_request (lg_repos lg) (or_order_request_id o1)))"

lemma partial_qty_sum:
  "get_partially_filled_remaining_qty now lg a (Some i) = res_bind (order_list (lg_repos lg) (partial_query a))
     (\<lambda>orders. Inr (foldl dadd 0 (concat (map (counted_remaining lg) (filter (live_sell now i) orders)))))"
proof -
  have inner: "foldl (\<lambda>t bo. let r = broker_order_remaining lg o1 bo in if 0 < r then dadd t r else t) t bos
      = foldl dadd t (filter ((<) 0) (map (broker_order_remaining lg o1) bos))" for o1 t bos
    by (induction bos arbitrary: t) (simp_all add: Let_def)
  have "(if or_instrument_id o1 \<noteq> i then t else if or_side o1 \<noteq> SELL then t
      else if is_stale_day_order_residual now o1 then t
      else foldl (\<lambda>t bo. let r = broker_order_remaining lg o1 bo in if 0 < r then dadd t r else t) t
             (broker_orders_of_request (lg_repos lg) (or_order_request_id o1)))
    = (if live_sell now i o1 then foldl dadd t (counted_remaining lg o1) else t)" for t o1
    by (auto simp: live_sell_def counted_remaining_def inner)
  then show ?thesis
    by (simp add: get_partially_filled_remaining_qty_def partial_query_def foldl_if foldl_foldl_dadd)
qed

section \<open>Against the repository\<close>

definition matching_orders :: "repos \<Rightarrow> order_query \<Rightarrow> order_request list" where
  "matching_orders w q = filter (order_matches w q) (map snd (rp_orders w))"

lemma order_list_mset:
  assumes "order_list w q = Inr orders" "length (matching_orders w q) \<le> oq_limit q"
  shows "mset orders = mset (matching_orders w q)"
  using assms by (auto simp: order_list_def matching_orders_def Let_def split: if_splits)

lemma order_list_subset: "order_list w q = Inr orders \<Longrightarrow> set orders \<subseteq> set (matching_orders w q)"
  by (auto simp: order_list_def matching_orders_def Let_def split: if_splits dest: in_set_takeD)

lemma sum_list_mset_cong:
  assumes "mset xs = mset ys"
  shows "sum_list (map f (filter P xs)) = (sum_list (map f (filter P ys)) :: rat)"
  using assms by (metis mset_filter mset_map sum_mset_sum_list)

text \<open>Shares an order has sold: the fills of all its broker orders.\<close>

definition filled_quantity :: "ledger \<Rightarrow> order_request \<Rightarrow> rat" where
  "filled_quantity lg o1 = sum_list (map (\<lambda>bo. sum_list (map fe_fill_quantity
       (fills_of_broker_order lg (bo_broker_order_id bo))))
     (broker_orders_of_request (lg_repos lg) (or_order_request_id o1)))"

definition shares_exact :: "sell_repos \<Rightarrow> bool" where
  "shares_exact w \<longleftrightarrow>
     (\<forall>(k, o1) \<in> set (rp_orders (lg_repos (sg_ledger w))).
        whole (or_requested_quantity o1) \<and> 0 \<le> or_requested_quantity o1)
     \<and> (\<forall>(k, f) \<in> set (lg_fill_events (sg_ledger w)). whole (fe_fill_quantity f) \<and> 0 \<le> fe_fill_quantity f)
     \<and> (\<forall>(k, s) \<in> set (sg_position_snapshots w). whole (ps_quantity s) \<and> \<bar>ps_quantity s\<bar> < 10 ^ 27)
     \<and> sum_list (map (\<lambda>(k, o1). or_requested_quantity o1 * of_nat (1 + length (broker_orders_of_request
          (lg_repos (sg_ledger w)) (or_order_request_id o1)))) (rp_orders (lg_repos (sg_ledger w)))) < 10 ^ 27
     \<and> sum_list (map (\<lambda>(k, f). fe_fill_quantity f) (lg_fill_events (sg_ledger w))) < 10 ^ 27"

lemma sum_list_filter_le:
  fixes f :: "'a \<Rightarrow> rat"
  assumes "\<forall>x \<in> set xs. 0 \<le> f x"
  shows "sum_list (map f (filter P xs)) \<le> sum_list (map f xs)"
  using assms by (induction xs) (auto simp: add_increasing)

lemma fills_sum:
  assumes "shares_exact w"
  shows "foldl dadd 0 (map fe_fill_quantity (fills_of_broker_order (sg_ledger w) b)) =
      sum_list (map fe_fill_quantity (fills_of_broker_order (sg_ledger w) b))"
    "0 \<le> sum_list (map fe_fill_quantity (fills_of_broker_order (sg_ledger w) b))"
    "sum_list (map fe_fill_quantity (fills_of_broker_order (sg_ledger w) b)) < 10 ^ 27"
    "whole (sum_list (map fe_fill_quantity (fills_of_broker_order (sg_ledger w) b)))"
proof -
  let ?all = "map snd (lg_fill_events (sg_ledger w))"
  let ?fs = "fills_of_broker_order (sg_ledger w) b"
  have q: "\<forall>f \<in> set ?all. whole (fe_fill_quantity f) \<and> 0 \<le> fe_fill_quantity f"
    using assms by (auto simp: shares_exact_def)
  have sub: "set ?fs \<subseteq> set ?all" by (auto simp: fills_of_broker_order_def)
  have "mset ?fs = mset (filter (\<lambda>f. fe_broker_order_id f = b) ?all)"
    by (simp add: fills_of_broker_order_def)
  then have "sum_list (map fe_fill_quantity ?fs) =
      sum_list (map fe_fill_quantity (filter (\<lambda>f. fe_broker_order_id f = b) ?all))"
    using sum_list_mset_cong [of ?fs _ fe_fill_quantity "\<lambda>_. True"] by simp
  also have "\<dots> \<le> sum_list (map fe_fill_quantity ?all)" using q by (intro sum_list_filter_le) simp
  also have "\<dots> < 10 ^ 27" using assms by (simp add: shares_exact_def comp_def case_prod_unfold)
  finally show lt: "sum_list (map fe_fill_quantity ?fs) < 10 ^ 27" .
  show "0 \<le> sum_list (map fe_fill_quantity ?fs)" using q sub by (intro sum_list_nonneg) auto
  show "whole (sum_list (map fe_fill_quantity ?fs))" using q sub by (intro whole_sum_list) auto
  have "\<forall>x \<in> set (map fe_fill_quantity ?fs). whole x \<and> 0 \<le> x" using q sub by auto
  moreover have "0 + sum_list (map fe_fill_quantity ?fs) < 10 ^ 28"
    using less_trans [OF lt, of "10 ^ 28"] by simp
  ultimately show "foldl dadd 0 (map fe_fill_quantity ?fs) = sum_list (map fe_fill_quantity ?fs)"
    using foldl_dadd_whole [of "map fe_fill_quantity ?fs" 0] by simp
qed

lemma order_quantity_exact:
  assumes "shares_exact w" "o1 \<in> snd ` set (rp_orders (lg_repos (sg_ledger w)))"
  shows "whole (or_requested_quantity o1)" "0 \<le> or_requested_quantity o1"
    "or_requested_quantity o1 < 10 ^ 27"
proof -
  let ?w = "\<lambda>o1. or_requested_quantity o1 * of_nat (1 + length (broker_orders_of_request
          (lg_repos (sg_ledger w)) (or_order_request_id o1)))"
  let ?all = "map snd (rp_orders (lg_repos (sg_ledger w)))"
  have q: "\<forall>x \<in> set ?all. whole (or_requested_quantity x) \<and> 0 \<le> or_requested_quantity x"
    using assms(1) by (auto simp: shares_exact_def)
  with assms(2) show "whole (or_requested_quantity o1)" "0 \<le> or_requested_quantity o1" by auto
  then have "or_requested_quantity o1 \<le> ?w o1" by (simp add: mult_le_cancel_left1)
  also have "\<dots> \<le> sum_list (map ?w ?all)"
    using assms(2) q by (intro member_le_sum_list) (auto intro!: mult_nonneg_nonneg)
  also have "\<dots> < 10 ^ 27" using assms(1) by (simp add: shares_exact_def comp_def case_prod_unfold)
  finally show "or_requested_quantity o1 < 10 ^ 27" .
qed

lemma remaining_exact:
  assumes "shares_exact w" "o1 \<in> snd ` set (rp_orders (lg_repos (sg_ledger w)))"
  shows "broker_order_remaining (sg_ledger w) o1 bo = or_requested_quantity o1 -
    sum_list (map fe_fill_quantity (fills_of_broker_order (sg_ledger w) (bo_broker_order_id bo)))"
  using fills_sum [OF assms(1), of "bo_broker_order_id bo"] order_quantity_exact [OF assms]
  by (simp add: broker_order_remaining_def dsub_def dround_whole abs_if)

lemma positive_part_sum:
  fixes q :: rat
  assumes "0 \<le> q" "\<And>b. 0 \<le> f b"
  shows "sum_list (filter ((<) 0) (map (\<lambda>b. q - f b) bs)) \<le> q * of_nat (length bs)"
proof (induction bs)
  case (Cons b bs)
  have "q - f b \<le> q" using assms(2) [of b] by simp
  with Cons assms(1) show ?case
    by (cases "0 < q - f b") (simp_all add: distrib_left add_mono add_increasing)
qed simp

lemma counted_remaining_bounds:
  assumes "shares_exact w" "o1 \<in> snd ` set (rp_orders (lg_repos (sg_ledger w)))"
  shows "\<forall>x \<in> set (counted_remaining (sg_ledger w) o1). whole x \<and> 0 \<le> x"
    "sum_list (counted_remaining (sg_ledger w) o1) \<le> or_requested_quantity o1 *
       of_nat (length (broker_orders_of_request (lg_repos (sg_ledger w)) (or_order_request_id o1)))"
    "broker_orders_of_request (lg_repos (sg_ledger w)) (or_order_request_id o1) \<noteq> [] \<Longrightarrow>
       or_requested_quantity o1 - filled_quantity (sg_ledger w) o1 \<le> sum_list (counted_remaining (sg_ledger w) o1)"
proof -
  let ?bos = "broker_orders_of_request (lg_repos (sg_ledger w)) (or_order_request_id o1)"
  let ?q = "or_requested_quantity o1"
  let ?f = "\<lambda>bo. sum_list (map fe_fill_quantity (fills_of_broker_order (sg_ledger w) (bo_broker_order_id bo)))"
  note q = order_quantity_exact [OF assms]
  note f = fills_sum(2,4) [OF assms(1)]
  have c: "counted_remaining (sg_ledger w) o1 = filter ((<) 0) (map (\<lambda>bo. ?q - ?f bo) ?bos)"
    unfolding counted_remaining_def by (rule arg_cong [where f = "filter ((<) 0)"])
      (rule map_cong [OF refl], rule remaining_exact [OF assms])
  show "\<forall>x \<in> set (counted_remaining (sg_ledger w) o1). whole x \<and> 0 \<le> x"
    using q f by (auto simp: c)
  show "sum_list (counted_remaining (sg_ledger w) o1) \<le> ?q * of_nat (length ?bos)"
    unfolding c using q(2) f(1) by (intro positive_part_sum) auto
  show "?q - filled_quantity (sg_ledger w) o1 \<le> sum_list (counted_remaining (sg_ledger w) o1)" if ne: "?bos \<noteq> []"
  proof -
    obtain b bs where b: "?bos = b # bs" using ne by (cases ?bos) auto
    have "0 \<le> sum_list (filter ((<) 0) (map (\<lambda>bo. ?q - ?f bo) bs))"
      by (intro sum_list_nonneg) auto
    moreover have "0 \<le> sum_list (map ?f bs)" using f(1) by (intro sum_list_nonneg) auto
    ultimately show ?thesis by (simp add: c b filled_quantity_def)
  qed
qed

lemma sum_list_concat_le:
  fixes g :: "'a \<Rightarrow> rat"
  shows "\<forall>x \<in> set xs. sum_list (f x) \<le> g x \<Longrightarrow> sum_list (concat (map f xs)) \<le> sum_list (map g xs)"
  by (induction xs) (auto simp: add_mono)

lemma sum_list_concat_ge:
  fixes g :: "'a \<Rightarrow> rat"
  shows "\<forall>x \<in> set xs. g x \<le> sum_list (f x) \<Longrightarrow> sum_list (map g xs) \<le> sum_list (concat (map f xs))"
  by (induction xs) (auto simp: add_mono)

definition matching_bound :: "sell_repos \<Rightarrow> order_query \<Rightarrow> bool" where
  "matching_bound w q \<longleftrightarrow> length (matching_orders (lg_repos (sg_ledger w)) q) \<le> oq_limit q"

lemma weighted_bound:
  assumes "shares_exact w" "order_list (lg_repos (sg_ledger w)) q = Inr orders" "matching_bound w q"
    and "\<And>o1. o1 \<in> snd ` set (rp_orders (lg_repos (sg_ledger w))) \<Longrightarrow> 0 \<le> g o1 \<and>
      g o1 \<le> or_requested_quantity o1 * of_nat (1 + length (broker_orders_of_request
          (lg_repos (sg_ledger w)) (or_order_request_id o1)))"
  shows "sum_list (map g (filter P orders)) < 10 ^ 27"
proof -
  let ?all = "map snd (rp_orders (lg_repos (sg_ledger w)))"
  let ?w = "\<lambda>o1. or_requested_quantity o1 * of_nat (1 + length (broker_orders_of_request
          (lg_repos (sg_ledger w)) (or_order_request_id o1)))"
  have g: "\<forall>o1 \<in> set ?all. 0 \<le> g o1" "\<forall>o1 \<in> set ?all. g o1 \<le> ?w o1" using assms(4) by auto
  have "sum_list (map g (filter P orders)) =
      sum_list (map g (filter P (matching_orders (lg_repos (sg_ledger w)) q)))"
    using order_list_mset [OF assms(2)] assms(3) by (intro sum_list_mset_cong) (simp add: matching_bound_def)
  also have "\<dots> \<le> sum_list (map g ?all)"
    using g(1) by (simp only: matching_orders_def filter_filter) (rule sum_list_filter_le, simp)
  also have "\<dots> \<le> sum_list (map ?w ?all)" using g(2) by (intro sum_list_mono) blast
  also have "\<dots> < 10 ^ 27" using assms(1) by (simp add: shares_exact_def comp_def case_prod_unfold)
  finally show ?thesis .
qed

lemma listed_in_repository:
  "order_list w q = Inr orders \<Longrightarrow> set orders \<subseteq> snd ` set (rp_orders w)"
  using order_list_subset [of w q orders] by (auto simp: matching_orders_def)

text \<open>The two counts are the exact sums over the repository.\<close>

lemma open_count:
  assumes "shares_exact w" "matching_bound w (open_query a)"
    and "get_open_sell_qty now (sg_ledger w) a (Some i) = Inr n"
  shows "n = sum_list (map or_requested_quantity
      (filter (\<lambda>o1. live_sell now i o1 \<and> \<not> is_stale_pending_submit (sg_ledger w) now o1)
        (matching_orders (lg_repos (sg_ledger w)) (open_query a))))" "whole n" "0 \<le> n" "n < 10 ^ 27"
proof -
  let ?P = "\<lambda>o1. live_sell now i o1 \<and> \<not> is_stale_pending_submit (sg_ledger w) now o1"
  from assms(3) obtain orders where o: "order_list (lg_repos (sg_ledger w)) (open_query a) = Inr orders"
      "n = foldl dadd 0 (map or_requested_quantity (filter ?P orders))"
    by (auto simp: open_sell_qty_sum res_bind_Inr_iff)
  have q: "whole (or_requested_quantity x) \<and> 0 \<le> or_requested_quantity x" if "x \<in> set orders" for x
    using that listed_in_repository [OF o(1)] order_quantity_exact [OF assms(1)] by blast
  have up: "0 \<le> or_requested_quantity o1 \<and> or_requested_quantity o1 \<le> or_requested_quantity o1 *
      of_nat (1 + length (broker_orders_of_request (lg_repos (sg_ledger w)) (or_order_request_id o1)))"
    if "o1 \<in> snd ` set (rp_orders (lg_repos (sg_ledger w)))" for o1
    using order_quantity_exact(2) [OF assms(1) that] by (simp add: distrib_left)
  have lt: "sum_list (map or_requested_quantity (filter ?P orders)) < 10 ^ 27"
    by (rule weighted_bound [OF assms(1) o(1) assms(2) up])
  have n: "n = sum_list (map or_requested_quantity (filter ?P orders))"
    unfolding o(2) using foldl_dadd_whole [of "map or_requested_quantity (filter ?P orders)" 0] q
      less_trans [OF lt, of "10 ^ 28"] by simp
  show "n = sum_list (map or_requested_quantity (filter ?P (matching_orders (lg_repos (sg_ledger w)) (open_query a))))"
    unfolding n using order_list_mset [OF o(1)] assms(2)
    by (intro sum_list_mset_cong) (simp add: matching_bound_def)
  show "whole n" "0 \<le> n" unfolding n using q by (auto intro!: whole_sum_list sum_list_nonneg)
  show "n < 10 ^ 27" unfolding n by (rule lt)
qed

lemma partial_count:
  assumes "shares_exact w" "matching_bound w (partial_query a)"
    and "get_partially_filled_remaining_qty now (sg_ledger w) a (Some i) = Inr n"
    and "\<forall>o1 \<in> set (filter (live_sell now i) (matching_orders (lg_repos (sg_ledger w)) (partial_query a))).
      broker_orders_of_request (lg_repos (sg_ledger w)) (or_order_request_id o1) \<noteq> []"
  shows "sum_list (map (\<lambda>o1. or_requested_quantity o1 - filled_quantity (sg_ledger w) o1)
      (filter (live_sell now i) (matching_orders (lg_repos (sg_ledger w)) (partial_query a)))) \<le> n"
    "whole n" "0 \<le> n" "n < 10 ^ 27"
proof -
  let ?c = "counted_remaining (sg_ledger w)"
  let ?left = "\<lambda>o1. or_requested_quantity o1 - filled_quantity (sg_ledger w) o1"
  from assms(3) obtain orders where o: "order_list (lg_repos (sg_ledger w)) (partial_query a) = Inr orders"
      "n = foldl dadd 0 (concat (map ?c (filter (live_sell now i) orders)))"
    by (auto simp: partial_qty_sum res_bind_Inr_iff)
  have mset: "mset orders = mset (matching_orders (lg_repos (sg_ledger w)) (partial_query a))"
    using order_list_mset [OF o(1)] assms(2) by (simp add: matching_bound_def)
  note b = counted_remaining_bounds [OF assms(1)]
  have in_repo: "x \<in> snd ` set (rp_orders (lg_repos (sg_ledger w)))" if "x \<in> set orders" for x
    using that listed_in_repository [OF o(1)] by blast
  have c: "\<forall>x \<in> set (concat (map ?c (filter (live_sell now i) orders))). whole x \<and> 0 \<le> x"
    using b(1) in_repo by fastforce
  have nonneg: "0 \<le> sum_list (?c o1)" if "o1 \<in> snd ` set (rp_orders (lg_repos (sg_ledger w)))" for o1
    using b(1) [OF that] by (intro sum_list_nonneg) auto
  have up: "sum_list (?c o1) \<le> or_requested_quantity o1 * of_nat (1 + length (broker_orders_of_request
          (lg_repos (sg_ledger w)) (or_order_request_id o1)))"
    if "o1 \<in> snd ` set (rp_orders (lg_repos (sg_ledger w)))" for o1
    using b(2) [OF that] order_quantity_exact(2) [OF assms(1) that] by (simp add: distrib_left)
  have "sum_list (concat (map ?c (filter (live_sell now i) orders)))
      \<le> sum_list (map (\<lambda>o1. sum_list (?c o1)) (filter (live_sell now i) orders))"
    by (rule sum_list_concat_le) simp
  also have "\<dots> < 10 ^ 27"
    by (rule weighted_bound [OF assms(1) o(1) assms(2)]) (use nonneg up in blast)
  finally have lt: "sum_list (concat (map ?c (filter (live_sell now i) orders))) < 10 ^ 27" .
  have n: "n = sum_list (concat (map ?c (filter (live_sell now i) orders)))"
    unfolding o(2) using foldl_dadd_whole [OF c, of 0] less_trans [OF lt, of "10 ^ 28"] by simp
  show "whole n" unfolding n by (rule whole_sum_list) (use c in blast)
  show "0 \<le> n" unfolding n by (rule sum_list_nonneg) (use c in blast)
  show "n < 10 ^ 27" unfolding n by (rule lt)
  have "sum_list (map ?left (filter (live_sell now i) (matching_orders (lg_repos (sg_ledger w)) (partial_query a))))
      = sum_list (map ?left (filter (live_sell now i) orders))"
    using mset by (intro sum_list_mset_cong) simp
  also have "\<dots> \<le> n"
    unfolding n
  proof (rule sum_list_concat_ge, rule ballI)
    fix o1 assume o1: "o1 \<in> set (filter (live_sell now i) orders)"
    then have "o1 \<in> set (filter (live_sell now i) (matching_orders (lg_repos (sg_ledger w)) (partial_query a)))"
      using mset_eq_setD [OF mset] by simp
    with assms(4) b(3) in_repo o1 show "?left o1 \<le> sum_list (?c o1)" by simp
  qed
  finally show "sum_list (map ?left
      (filter (live_sell now i) (matching_orders (lg_repos (sg_ledger w)) (partial_query a)))) \<le> n" .
qed

lemma position_exact:
  assumes "shares_exact w"
  shows "whole (get_current_position_qty w a i)" "\<bar>get_current_position_qty w a i\<bar> < 10 ^ 27"
proof -
  have "whole (ps_quantity s) \<and> \<bar>ps_quantity s\<bar> < 10 ^ 27"
    if "find_first P (position_list_latest_by_account w a) = Some s" for P s
    using find_first_SomeD [OF that] assms
    by (auto simp: position_list_latest_by_account_def shares_exact_def)
  then show "whole (get_current_position_qty w a i)" "\<bar>get_current_position_qty w a i\<bar> < 10 ^ 27"
    by (simp_all add: get_current_position_qty_def split: option.split)
qed

lemma available_exact:
  assumes "whole p" "\<bar>p\<bar> < 10 ^ 27" "whole m" "0 \<le> m" "m < 10 ^ 27" "whole n" "0 \<le> n" "n < 10 ^ 27"
  shows "dsub (dsub p m) n = p - m - n"
proof -
  have "\<bar>p - m\<bar> < 10 ^ 28" "\<bar>p - m - n\<bar> < 10 ^ 28" using assms by (simp_all add: abs_if split: if_splits)
  then show ?thesis using assms(1,3,6) by (simp add: dsub_def dround_whole)
qed


section \<open>Example\<close>

definition ex_instrument :: instrument where
  "ex_instrument = \<lparr>in_instrument_id = 2, in_symbol = ''005930'', in_market_code = ''KRX'', in_asset_class = ''equity'',
     in_is_active = True, in_exchange_code = Some ''KRX'', in_market_segment = Some ''KOSPI'',
     in_created_at = None, in_updated_at = None\<rparr>"

definition ex_sell :: "uuid \<Rightarrow> order_status \<Rightarrow> rat \<Rightarrow> order_request" where
  "ex_sell k st q = (ex_ledger_order k SELL)\<lparr>or_status := st, or_requested_quantity := q\<rparr>"

definition ex_snapshot :: "rat \<Rightarrow> position_snapshot" where
  "ex_snapshot q = \<lparr>ps_position_snapshot_id = 60, ps_account_id = 1, ps_instrument_id = 2,
     ps_quantity = q, ps_average_price = 100, ps_market_price = None, ps_unrealized_pnl = None,
     ps_source_of_truth = ''broker'', ps_snapshot_at = 90, ps_purchase_amount = None,
     ps_evaluation_amount = None, ps_created_at = None, ps_fetch_status = ''success'',
     ps_snapshot_sync_run_id = None\<rparr>"

definition ex_guarded :: "(uuid \<times> order_request) list \<Rightarrow> (uuid \<times> broker_order) list \<Rightarrow> (uuid \<times> fill_event) list
  \<Rightarrow> sell_repos" where
  "ex_guarded os bs fs =
     \<lparr>sg_ledger = ex_ledger\<lparr>lg_repos := ex_ledger_repos\<lparr>rp_instruments := [(2, ex_instrument)],
         rp_orders := os, rp_broker_orders := bs\<rparr>, lg_fill_events := fs\<rparr>,
      sg_position_snapshots = [(60, ex_snapshot 10)]\<rparr>"

definition ex_two_sells :: sell_repos where
  "ex_two_sells = ex_guarded [(3, ex_sell 3 SUBMITTED 3), (4, ex_sell 4 PARTIALLY_FILLED 5)]
     [(6, ex_broker_order 6 4)] [(11, snd (ex_booking 11 6 2 80))]"

definition ex_split_sell :: sell_repos where
  "ex_split_sell = ex_guarded [(4, ex_sell 4 PARTIALLY_FILLED 10)]
     [(6, ex_broker_order 6 4), (7, ex_broker_order 7 4)]
     [(11, snd (ex_booking 11 6 4 80)), (12, snd (ex_booking 12 7 6 85))]"

definition ex_lost_sell :: sell_repos where
  "ex_lost_sell = ex_guarded [(4, ex_sell 4 PARTIALLY_FILLED 10)] [] []"

definition ex_cancel_sell :: sell_repos where
  "ex_cancel_sell = ex_guarded [(4, ex_sell 4 CANCEL_PENDING 10)] [(6, ex_broker_order 6 4)] []"

definition ex_guard_env :: env where
  "ex_guard_env = \<lparr>ev_now = (\<lambda>_. 100), ev_uuid = (\<lambda>_. 0)\<rparr>"

lemmas ex_guard_defs = ex_guarded_def ex_ledger_def ex_ledger_repos_def ex_instrument_def ex_sell_def
  ex_snapshot_def ex_ledger_order_def ex_broker_order_def ex_booking_def ex_guard_env_def
  ex_two_sells_def ex_split_sell_def ex_lost_sell_def ex_cancel_sell_def

lemmas guard_eval = order_list_def order_matches_def any_order_def agrees_def not_before_def
  not_after_def list_key_def open_statuses_def is_stale_day_order_residual_def
  is_stale_pending_submit_def to_kst_trade_date_def broker_orders_of_request_def
  fills_of_broker_order_def broker_order_remaining_def get_by_symbol_any_market_def
  position_list_latest_by_account_def get_current_position_qty_def now_at_def Let_def

lemma ex_two_sells_exact: "shares_exact ex_two_sells"
  by (simp add: shares_exact_def ex_guard_defs broker_orders_of_request_def)

lemma ex_two_sells_resolved:
  "sell_guard_resolve ex_guard_env ex_two_sells 1 ''005930'' 4 =
     Inr \<lparr>sa_available_sell_qty = 4, sa_current_position_qty = 10, sa_open_sell_qty = 3,
          sa_partially_filled_remaining_qty = 3, sa_is_blocked = False, sa_blocking_reason = None\<rparr>"
  by (simp add: sell_guard_resolve_def get_open_sell_qty_def get_partially_filled_remaining_qty_def
      ex_guard_defs guard_eval dec_eval)


section \<open>Properties\<close>

text \<open>A sale that the guard approves is covered by the position together with everything that is
  already on its way: the requested quantity, the live open sell orders and what the live
  partially filled sell orders have left add up to at most the position of the latest snapshot.
  The hypotheses say that quantities are share counts, that the listings fit their limits of 200
  and 100 orders, and that a partially filled order has a broker order.\<close>

theorem approved_sell_is_covered:
  assumes "sell_guard_resolve ev w a symbol q = Inr av" "\<not> sa_is_blocked av"
    and "get_by_symbol_any_market (lg_repos (sg_ledger w)) symbol = Some ins"
    and "shares_exact w" "matching_bound w (open_query a)" "matching_bound w (partial_query a)"
    and "\<forall>o1 \<in> set (filter (live_sell (now_at ev ''partial'') (in_instrument_id ins))
        (matching_orders (lg_repos (sg_ledger w)) (partial_query a))).
      broker_orders_of_request (lg_repos (sg_ledger w)) (or_order_request_id o1) \<noteq> []"
  shows "q
    + sum_list (map or_requested_quantity
        (filter (\<lambda>o1. live_sell (now_at ev ''open'') (in_instrument_id ins) o1
                   \<and> \<not> is_stale_pending_submit (sg_ledger w) (now_at ev ''open'') o1)
          (matching_orders (lg_repos (sg_ledger w)) (open_query a))))
    + sum_list (map (\<lambda>o1. or_requested_quantity o1 - filled_quantity (sg_ledger w) o1)
        (filter (live_sell (now_at ev ''partial'') (in_instrument_id ins))
          (matching_orders (lg_repos (sg_ledger w)) (partial_query a))))
    \<le> sa_current_position_qty av"
proof -
  let ?i = "in_instrument_id ins"
  from assms(1,3) obtain open_qty part where
      o: "get_open_sell_qty (now_at ev ''open'') (sg_ledger w) a (Some ?i) = Inr open_qty" and
      p: "get_partially_filled_remaining_qty (now_at ev ''partial'') (sg_ledger w) a (Some ?i) = Inr part"
      and av: "sa_current_position_qty av = get_current_position_qty w a (Some ?i)"
        "sa_is_blocked av \<longleftrightarrow> dsub (dsub (get_current_position_qty w a (Some ?i)) open_qty) part < q"
    by (auto simp: sell_guard_resolve_def Let_def res_bind_Inr_iff)
  note oc = open_count [OF assms(4,5) o]
  note pc = partial_count [OF assms(4,6) p assms(7)]
  let ?pos = "get_current_position_qty w a (Some ?i)"
  have "dsub (dsub ?pos open_qty) part = ?pos - open_qty - part"
    by (rule available_exact [OF position_exact [OF assms(4)] oc(2-4) pc(2-4)])
  with av assms(2) have "q \<le> sa_current_position_qty av - open_qty - part" by simp
  with oc(1) pc(1) show ?thesis by simp
qed

theorem approved_sell_is_covered_witness:
  "\<exists>av. sell_guard_resolve ex_guard_env ex_two_sells 1 ''005930'' 4 = Inr av
     \<and> \<not> sa_is_blocked av
     \<and> 4 + sum_list (map or_requested_quantity
        (filter (\<lambda>o1. live_sell 100 2 o1 \<and> \<not> is_stale_pending_submit (sg_ledger ex_two_sells) 100 o1)
          (matching_orders (lg_repos (sg_ledger ex_two_sells)) (open_query 1))))
      + sum_list (map (\<lambda>o1. or_requested_quantity o1 - filled_quantity (sg_ledger ex_two_sells) o1)
        (filter (live_sell 100 2) (matching_orders (lg_repos (sg_ledger ex_two_sells)) (partial_query 1))))
      \<le> sa_current_position_qty av"
proof -
  have b: "matching_bound ex_two_sells (open_query 1)" "matching_bound ex_two_sells (partial_query 1)"
    by (simp_all add: matching_bound_def matching_orders_def open_query_def partial_query_def
        ex_guard_defs any_order_def)
  have i: "get_by_symbol_any_market (lg_repos (sg_ledger ex_two_sells)) ''005930'' = Some ex_instrument"
    "in_instrument_id ex_instrument = 2"
    by (simp_all add: ex_guard_defs get_by_symbol_any_market_def)
  have t: "now_at ex_guard_env l = 100" for l by (simp add: ex_guard_env_def now_at_def)
  have bos: "\<forall>o1 \<in> set (filter (live_sell 100 2)
        (matching_orders (lg_repos (sg_ledger ex_two_sells)) (partial_query 1))).
      broker_orders_of_request (lg_repos (sg_ledger ex_two_sells)) (or_order_request_id o1) \<noteq> []"
    by (simp add: matching_orders_def partial_query_def live_sell_def ex_guard_defs guard_eval)
  show ?thesis
    using approved_sell_is_covered [OF ex_two_sells_resolved _ i(1) ex_two_sells_exact b, unfolded t i(2), OF _ bos]
    by (intro exI conjI) (rule ex_two_sells_resolved, simp_all)
qed

text \<open>What a partially filled order has left is counted once per broker order: an order of ten shares
  whose two broker orders sold four and six is counted with ten shares, and an order without a
  broker order is not counted at all.\<close>

theorem partial_sells_are_miscounted:
  "filled_quantity (sg_ledger ex_split_sell) (ex_sell 4 PARTIALLY_FILLED 10) = 10"
  "get_partially_filled_remaining_qty 100 (sg_ledger ex_split_sell) 1 (Some 2) = Inr 10"
  "filled_quantity (sg_ledger ex_lost_sell) (ex_sell 4 PARTIALLY_FILLED 10) = 0"
  "get_partially_filled_remaining_qty 100 (sg_ledger ex_lost_sell) 1 (Some 2) = Inr 0"
  by (simp_all add: filled_quantity_def get_partially_filled_remaining_qty_def ex_guard_defs guard_eval dec_eval)

text \<open>A sell order that waits for its cancellation may still be executed but is not counted.\<close>

theorem cancel_pending_sell_is_not_counted:
  "sell_guard_resolve ex_guard_env ex_cancel_sell 1 ''005930'' 10 =
     Inr \<lparr>sa_available_sell_qty = 10, sa_current_position_qty = 10, sa_open_sell_qty = 0,
          sa_partially_filled_remaining_qty = 0, sa_is_blocked = False, sa_blocking_reason = None\<rparr>"
  by (simp add: sell_guard_resolve_def get_open_sell_qty_def get_partially_filled_remaining_qty_def
      ex_guard_defs guard_eval dec_eval)

end
