(* ===== verification/Trade_State.thy ===== *)
theory Trade_State
  imports Sell_Guard Python_Decimal
begin

text \<open>
  The trade state of a symbol: the policy a decision attaches to it
  (\<^verbatim>\<open>services/holding_profile_policy.py\<close>), the writers of the state in the orchestrator
  (\<^verbatim>\<open>_persist_symbol_trade_state_from_decision\<close>) and in the execution service
  (\<^verbatim>\<open>_sync_symbol_trade_state_order_link\<close>), and the reconciliation of all states of an account with
  positions and orders (\<^verbatim>\<open>services/symbol_trade_state_machine.py\<close>), over
  \<^verbatim>\<open>InMemorySymbolTradeStateRepository\<close>.

  Texts of time stamps, identifiers and containers and the hash of a payload are given by a codec;
  what is assumed of it is that reading an ISO text gives back its time stamp and that texts of
  identifiers are distinct (\<open>codec_ok\<close>).
\<close>

section \<open>Data\<close>

type_synonym json_dict = "(string \<times> jval) list"

record text_codec =
  tc_iso :: "timestamp \<Rightarrow> string"
  tc_from_iso :: "string \<Rightarrow> timestamp option"
  tc_uuid :: "uuid \<Rightarrow> string"
  tc_sha1 :: "json_dict \<Rightarrow> string"
  tc_repr :: "jval \<Rightarrow> string"

definition codec_ok :: "text_codec \<Rightarrow> bool" where
  "codec_ok tc \<longleftrightarrow> (\<forall>t. str_strip (tc_iso tc t) \<noteq> [] \<and> tc_from_iso tc (tc_iso tc t) = Some t)
     \<and> inj (tc_uuid tc)"

datatype decision_type =
  D_APPROVE | D_REJECT | D_BUY | D_SELL | D_HOLD | D_CLOSE | D_WATCH | D_EXIT | D_REDUCE

record symbol_trade_state =
  ts_symbol_trade_state_id :: uuid
  ts_account_id :: uuid
  ts_instrument_id :: uuid
  ts_symbol :: string
  ts_market :: string
  ts_state :: string
  ts_holding_profile :: "string option"
  ts_position_quantity :: rat
  ts_last_entry_order_request_id :: "uuid option"
  ts_last_exit_order_request_id :: "uuid option"
  ts_last_entry_source_type :: "string option"
  ts_last_entry_at :: "timestamp option"
  ts_last_reduce_at :: "timestamp option"
  ts_last_exit_at :: "timestamp option"
  ts_minimum_hold_until :: "timestamp option"
  ts_reentry_cooldown_until :: "timestamp option"
  ts_sell_cooldown_until :: "timestamp option"
  ts_last_signal_feature_snapshot_id :: "uuid option"
  ts_last_decision_context_id :: "uuid option"
  ts_last_reason_codes :: "string list"
  ts_thesis_state_hash :: "string option"
  ts_metadata_json :: json_dict
  ts_created_at :: "timestamp option"
  ts_updated_at :: "timestamp option"

type_synonym trade_state_store = "((uuid \<times> uuid) \<times> symbol_trade_state) list"

definition trade_state_upsert :: "symbol_trade_state \<Rightarrow> trade_state_store \<Rightarrow> trade_state_store" where
  "trade_state_upsert state items = AList.update (ts_account_id state, ts_instrument_id state) state items"

definition trade_state_get :: "trade_state_store \<Rightarrow> uuid \<Rightarrow> uuid \<Rightarrow> symbol_trade_state option" where
  "trade_state_get items account_id instrument_id = map_of items (account_id, instrument_id)"

definition trade_states_of_account :: "trade_state_store \<Rightarrow> uuid \<Rightarrow> symbol_trade_state list" where
  "trade_states_of_account items account_id = map snd (filter (\<lambda>x. fst (fst x) = account_id) items)"

section \<open>Holding policy\<close>

definition minutes :: "int \<Rightarrow> int" where "minutes n = n * 60 * 1000000"

definition event_probe_min_hold :: int where "event_probe_min_hold = minutes 15"
definition event_swing_min_hold :: int where "event_swing_min_hold = minutes 90"
definition core_swing_min_hold :: int where "core_swing_min_hold = minutes 120"
definition position_trade_min_hold :: int where "position_trade_min_hold = minutes 30"
definition default_sell_cooldown :: int where "default_sell_cooldown = minutes 20"
definition short_sell_cooldown :: int where "short_sell_cooldown = minutes 10"
definition default_reentry_cooldown :: int where "default_reentry_cooldown = minutes 20"

record holding_profile_policy =
  hp_holding_profile :: "string option"
  hp_minimum_hold_until :: "timestamp option"
  hp_earliest_reduce_at :: "timestamp option"
  hp_earliest_reentry_at :: "timestamp option"
  hp_reentry_cooldown_until :: "timestamp option"
  hp_sell_cooldown_until :: "timestamp option"
  hp_thesis_state_hash :: "string option"
  hp_metadata :: json_dict

definition text_or_null :: "string option \<Rightarrow> jval" where
  "text_or_null x = (case x of None \<Rightarrow> JvNull | Some s \<Rightarrow> JvStr s)"

definition build_thesis_state_hash ::
  "text_codec \<Rightarrow> string \<Rightarrow> string \<Rightarrow> string option \<Rightarrow> string option \<Rightarrow> string list option \<Rightarrow> string" where
  "build_thesis_state_hash tc source_type decision_type time_horizon signal_feature_snapshot_id reason_codes =
     tc_sha1 tc
       [(''source_type'', JvStr source_type), (''decision_type'', JvStr decision_type),
        (''time_horizon'', text_or_null time_horizon),
        (''signal_feature_snapshot_id'', text_or_null signal_feature_snapshot_id),
        (''reason_codes'', JvList (map JvStr (case reason_codes of None \<Rightarrow> [] | Some rs \<Rightarrow> rs)))]"

text \<open>A side is given by its text; the members of \<open>OrderSide\<close> have the texts \<open>buy\<close> and \<open>sell\<close>.\<close>

definition normalize_side :: "string option \<Rightarrow> string" where
  "normalize_side side = (case side of None \<Rightarrow> [] | Some s \<Rightarrow> str_lower (str_strip s))"

definition normalize_horizon :: "string option \<Rightarrow> string option" where
  "normalize_horizon h =
     (case h of
        None \<Rightarrow> None
      | Some s \<Rightarrow> (let t = str_lower (str_strip s) in if t = [] then None else Some t))"

definition holding_profile_of :: "string \<Rightarrow> string option \<Rightarrow> py_decimal option \<Rightarrow> string \<times> int \<times> int" where
  "holding_profile_of source_type time_horizon quantity =
     (if source_type = ''core'' then (''core_swing'', core_swing_min_hold, default_sell_cooldown)
      else if source_type = ''event_overlay''
      then (if time_horizon = Some ''short'' \<or> map_option dec_value quantity = Some 1
            then (''event_probe'', event_probe_min_hold, short_sell_cooldown)
            else (''event_swing'', event_swing_min_hold, default_sell_cooldown))
      else (''position_trade'', position_trade_min_hold, default_sell_cooldown))"

definition derive_holding_profile_policy ::
  "text_codec \<Rightarrow> string \<Rightarrow> string \<Rightarrow> string option \<Rightarrow> string option \<Rightarrow> py_decimal option
   \<Rightarrow> py_decimal option \<Rightarrow> string option \<Rightarrow> string list option \<Rightarrow> timestamp \<Rightarrow> holding_profile_policy" where
  "derive_holding_profile_policy tc source_type decision_type side time_horizon quantity
       max_order_value signal_feature_snapshot_id reason_codes now =
     (let normalized_source_type = str_lower (str_strip (if source_type = [] then ''core'' else source_type));
          normalized_decision_type = str_upper (str_strip (if decision_type = [] then ''HOLD'' else decision_type));
          normalized_time_horizon = normalize_horizon time_horizon;
          hash = build_thesis_state_hash tc normalized_source_type normalized_decision_type
                   normalized_time_horizon signal_feature_snapshot_id reason_codes
      in if normalize_side side = ''sell''
            \<or> normalized_decision_type \<in> {''SELL'', ''EXIT'', ''REDUCE''}
            \<or> normalized_source_type = ''held_position''
         then \<lparr>hp_holding_profile = Some ''risk_reduction_only'',
               hp_minimum_hold_until = None,
               hp_earliest_reduce_at = None,
               hp_earliest_reentry_at = Some (now + default_reentry_cooldown),
               hp_reentry_cooldown_until = Some (now + default_reentry_cooldown),
               hp_sell_cooldown_until = None,
               hp_thesis_state_hash = Some hash,
               hp_metadata =
                 [(''policy_version'', JvStr ''holding_profile_v1''),
                  (''source_type'', JvStr normalized_source_type),
                  (''time_horizon'', text_or_null normalized_time_horizon),
                  (''policy_mode'', JvStr ''risk_reduction''),
                  (''reentry_cooldown_minutes'', JvInt (default_reentry_cooldown div 60000000)),
                  (''signal_feature_snapshot_id'', text_or_null signal_feature_snapshot_id)]\<rparr>
         else
           (let (holding_profile, minimum_hold_delta, sell_cooldown_delta) =
                  holding_profile_of normalized_source_type normalized_time_horizon quantity
            in \<lparr>hp_holding_profile = Some holding_profile,
                hp_minimum_hold_until = Some (now + minimum_hold_delta),
                hp_earliest_reduce_at = Some (now + minimum_hold_delta),
                hp_earliest_reentry_at = None,
                hp_reentry_cooldown_until = None,
                hp_sell_cooldown_until = Some (now + sell_cooldown_delta),
                hp_thesis_state_hash = Some hash,
                hp_metadata =
                  [(''policy_version'', JvStr ''holding_profile_v1''),
                   (''source_type'', JvStr normalized_source_type),
                   (''time_horizon'', text_or_null normalized_time_horizon),
                   (''minimum_hold_minutes'', JvInt (minimum_hold_delta div 60000000)),
                   (''sell_cooldown_minutes'', JvInt (sell_cooldown_delta div 60000000)),
                   (''signal_feature_snapshot_id'', text_or_null signal_feature_snapshot_id),
                   (''quantity'', text_or_null (map_option decimal_str quantity)),
                   (''max_order_value'', text_or_null (map_option decimal_str max_order_value))]\<rparr>))"

definition serialize_holding_profile_policy :: "text_codec \<Rightarrow> holding_profile_policy \<Rightarrow> json_dict" where
  "serialize_holding_profile_policy tc p =
     [(''holding_profile'', text_or_null (hp_holding_profile p)),
      (''minimum_hold_until'', text_or_null (map_option (tc_iso tc) (hp_minimum_hold_until p))),
      (''earliest_reduce_at'', text_or_null (map_option (tc_iso tc) (hp_earliest_reduce_at p))),
      (''earliest_reentry_at'', text_or_null (map_option (tc_iso tc) (hp_earliest_reentry_at p))),
      (''reentry_cooldown_until'', text_or_null (map_option (tc_iso tc) (hp_reentry_cooldown_until p))),
      (''sell_cooldown_until'', text_or_null (map_option (tc_iso tc) (hp_sell_cooldown_until p))),
      (''thesis_state_hash'', text_or_null (hp_thesis_state_hash p)),
      (''metadata'', JvObj (hp_metadata p))]"

definition parse_datetime_or_none :: "text_codec \<Rightarrow> jval option \<Rightarrow> timestamp option" where
  "parse_datetime_or_none tc v =
     (case v of
        Some (JvStr s) \<Rightarrow> if str_strip s = [] then None else tc_from_iso tc s
      | _ \<Rightarrow> None)"

definition resolve_policy_timestamp ::
  "text_codec \<Rightarrow> json_dict \<Rightarrow> string \<Rightarrow> string \<Rightarrow> timestamp option" where
  "resolve_policy_timestamp tc policy_payload key fallback_key =
     (case parse_datetime_or_none tc (map_of policy_payload key) of
        Some t \<Rightarrow> Some t
      | None \<Rightarrow> parse_datetime_or_none tc (map_of policy_payload fallback_key))"

section \<open>Writing the state of a decision\<close>

fun decision_type_value :: "decision_type \<Rightarrow> string" where
  "decision_type_value D_APPROVE = ''approve''"
| "decision_type_value D_REJECT = ''reject''"
| "decision_type_value D_BUY = ''buy''"
| "decision_type_value D_SELL = ''sell''"
| "decision_type_value D_HOLD = ''hold''"
| "decision_type_value D_CLOSE = ''close''"
| "decision_type_value D_WATCH = ''watch''"
| "decision_type_value D_EXIT = ''exit''"
| "decision_type_value D_REDUCE = ''reduce''"

text \<open>Decision, composer output, contexts and intents carry the fields that the writers below read.\<close>

record trade_decision =
  td_trade_decision_id :: uuid
  td_decision_context_id :: uuid
  td_decision_type :: decision_type
  td_side :: order_side
  td_symbol :: string
  td_market :: string
  td_created_at :: timestamp
  td_quantity :: "py_decimal option"
  td_max_order_value :: "py_decimal option"
  td_reason_codes :: "string list option"
  td_source_type :: "string option"
  td_decision_json :: json_dict

record composer_output =
  co_decision_type :: string
  co_side :: string
  co_time_horizon :: string

record decision_context =
  dc_decision_context_id :: uuid
  dc_account_id :: uuid
  dc_signal_feature_snapshot_id :: "uuid option"

record assembled_context =
  ax_decision_context :: "decision_context option"
  ax_source_type :: string
  ax_position_snapshot :: "position_snapshot option"
  ax_signal_feature_snapshot_id :: "uuid option"

definition decision_policy_payload ::
  "text_codec \<Rightarrow> trade_decision \<Rightarrow> assembled_context \<Rightarrow> decision_context \<Rightarrow> composer_output option \<Rightarrow> json_dict" where
  "decision_policy_payload tc d ctx dc composer =
     (case map_of (td_decision_json d) ''holding_profile_policy'' of
        Some (JvObj payload) \<Rightarrow> payload
      | _ \<Rightarrow>
          serialize_holding_profile_policy tc
            (derive_holding_profile_policy tc (ax_source_type ctx)
               (case composer of Some c \<Rightarrow> co_decision_type c
                               | None \<Rightarrow> decision_type_value (td_decision_type d))
               (case composer of
                  Some c \<Rightarrow> if co_side c \<noteq> [] then Some (co_side c) else Some (side_value (td_side d))
                | None \<Rightarrow> Some (side_value (td_side d)))
               (map_option co_time_horizon composer)
               (td_quantity d) (td_max_order_value d)
               (case ax_signal_feature_snapshot_id ctx of
                  Some i \<Rightarrow> Some (tc_uuid tc i)
                | None \<Rightarrow> map_option (tc_uuid tc) (dc_signal_feature_snapshot_id dc))
               (td_reason_codes d) (td_created_at d)))"

text \<open>\<open>str(v)\<close> of a value that is not null.\<close>

definition jval_str :: "text_codec \<Rightarrow> jval option \<Rightarrow> string option" where
  "jval_str tc v =
     (case v of
        None \<Rightarrow> None
      | Some JvNull \<Rightarrow> None
      | Some (JvStr s) \<Rightarrow> Some s
      | Some (JvInt i) \<Rightarrow> Some (int_str i)
      | Some (JvFloat r) \<Rightarrow> Some r
      | Some (JvBool b) \<Rightarrow> Some (if b then ''True'' else ''False'')
      | Some x \<Rightarrow> Some (tc_repr tc x))"

definition is_entry_decision :: "trade_decision \<Rightarrow> bool" where
  "is_entry_decision d \<longleftrightarrow> td_side d = BUY \<and> td_decision_type d \<in> {D_APPROVE, D_BUY}"

definition is_reduce_decision :: "trade_decision \<Rightarrow> bool" where
  "is_reduce_decision d \<longleftrightarrow> td_side d = SELL \<and> td_decision_type d = D_REDUCE"

definition is_exit_decision :: "trade_decision \<Rightarrow> bool" where
  "is_exit_decision d \<longleftrightarrow> td_side d = SELL \<and> td_decision_type d \<in> {D_SELL, D_EXIT}"

definition decision_metadata ::
  "text_codec \<Rightarrow> trade_decision \<Rightarrow> json_dict \<Rightarrow> json_dict \<Rightarrow> json_dict" where
  "decision_metadata tc d payload metadata =
     (let anchor = (case map_of (td_decision_json d) ''expected_value_anchor'' of
                      Some (JvObj x) \<Rightarrow> Some x | _ \<Rightarrow> None);
          edge = (case map_of (td_decision_json d) ''expected_value_gate'' of
                    Some (JvObj x) \<Rightarrow> (case map_of x ''edge_after_cost_bps'' of None \<Rightarrow> JvNull | Some v \<Rightarrow> v)
                  | _ \<Rightarrow> JvNull);
          edge_key = (if is_entry_decision d then Some ''last_entry_edge_after_cost_bps''
                      else if is_reduce_decision d then Some ''last_reduce_edge_after_cost_bps''
                      else if is_exit_decision d then Some ''last_exit_edge_after_cost_bps''
                      else None);
          add_edge = (\<lambda>m. case edge_key of None \<Rightarrow> m | Some k \<Rightarrow> AList.update k edge m);
          add_anchor = (\<lambda>m. case anchor of None \<Rightarrow> m | Some x \<Rightarrow> AList.update ''expected_value_anchor'' (JvObj x) m);
          policy = add_anchor (add_edge payload)
      in add_edge (AList.update ''last_trade_decision_id'' (JvStr (tc_uuid tc (td_trade_decision_id d)))
           (add_anchor (AList.update ''holding_profile_policy'' (JvObj policy) metadata))))"

definition persist_symbol_trade_state_from_decision ::
  "text_codec \<Rightarrow> uuid \<Rightarrow> trade_decision \<Rightarrow> assembled_context \<Rightarrow> instrument option \<Rightarrow> composer_output option
   \<Rightarrow> trade_state_store \<Rightarrow> trade_state_store" where
  "persist_symbol_trade_state_from_decision tc new_id d ctx instrument composer items =
     (case (ax_decision_context ctx, instrument) of
        (Some dc, Some ins) \<Rightarrow>
          (let now = td_created_at d;
               current = trade_state_get items (dc_account_id dc) (in_instrument_id ins);
               payload = decision_policy_payload tc d ctx dc composer
           in trade_state_upsert
             \<lparr>ts_symbol_trade_state_id = (case current of Some c \<Rightarrow> ts_symbol_trade_state_id c | None \<Rightarrow> new_id),
              ts_account_id = dc_account_id dc,
              ts_instrument_id = in_instrument_id ins,
              ts_symbol = td_symbol d,
              ts_market = td_market d,
              ts_state =
                (if is_entry_decision d then ''entry_pending''
                 else if is_reduce_decision d then ''reduce_pending''
                 else if is_exit_decision d then ''exit_pending''
                 else case current of Some c \<Rightarrow> ts_state c | None \<Rightarrow> ''flat''),
              ts_holding_profile =
                (case jval_str tc (map_of payload ''holding_profile'') of
                   Some h \<Rightarrow> Some h | None \<Rightarrow> Option.bind current ts_holding_profile),
              ts_position_quantity =
                (case ax_position_snapshot ctx of
                   Some s \<Rightarrow> ps_quantity s
                 | None \<Rightarrow> (case current of Some c \<Rightarrow> ts_position_quantity c | None \<Rightarrow> 0)),
              ts_last_entry_order_request_id = Option.bind current ts_last_entry_order_request_id,
              ts_last_exit_order_request_id = Option.bind current ts_last_exit_order_request_id,
              ts_last_entry_source_type = td_source_type d,
              ts_last_entry_at = (if is_entry_decision d then Some now else Option.bind current ts_last_entry_at),
              ts_last_reduce_at =
                (if \<not> is_entry_decision d \<and> is_reduce_decision d then Some now else Option.bind current ts_last_reduce_at),
              ts_last_exit_at =
                (if \<not> is_entry_decision d \<and> \<not> is_reduce_decision d \<and> is_exit_decision d then Some now
                 else Option.bind current ts_last_exit_at),
              ts_minimum_hold_until = parse_datetime_or_none tc (map_of payload ''minimum_hold_until''),
              ts_reentry_cooldown_until = parse_datetime_or_none tc (map_of payload ''reentry_cooldown_until''),
              ts_sell_cooldown_until = parse_datetime_or_none tc (map_of payload ''sell_cooldown_until''),
              ts_last_signal_feature_snapshot_id = dc_signal_feature_snapshot_id dc,
              ts_last_decision_context_id = Some (td_decision_context_id d),
              ts_last_reason_codes = (case td_reason_codes d of None \<Rightarrow> [] | Some rs \<Rightarrow> rs),
              ts_thesis_state_hash =
                (case jval_str tc (map_of payload ''thesis_state_hash'') of
                   Some h \<Rightarrow> Some h | None \<Rightarrow> Option.bind current ts_thesis_state_hash),
              ts_metadata_json =
                decision_metadata tc d payload (case current of Some c \<Rightarrow> ts_metadata_json c | None \<Rightarrow> []),
              ts_created_at = (case current of Some c \<Rightarrow> ts_created_at c | None \<Rightarrow> Some now),
              ts_updated_at = Some now\<rparr> items)
      | _ \<Rightarrow> items)"

section \<open>Linking an order\<close>

record order_intent_link =
  il_symbol :: string
  il_market :: string
  il_side :: order_side
  il_decision_type :: string
  il_reason_codes :: "string list"
  il_decision_context :: "decision_context option"

definition instrument_of_symbol :: "repos \<Rightarrow> string \<Rightarrow> string \<Rightarrow> instrument option" where
  "instrument_of_symbol w symbol market =
     (case find_first (\<lambda>x. in_symbol x = symbol \<and> in_market_code x = market) (map snd (rp_instruments w)) of
        Some x \<Rightarrow> Some x
      | None \<Rightarrow> get_by_symbol_any_market w symbol)"

definition sync_symbol_trade_state_order_link ::
  "text_codec \<Rightarrow> timestamp \<Rightarrow> repos \<Rightarrow> order_intent_link \<Rightarrow> uuid \<Rightarrow> uuid option \<Rightarrow> trade_state_store
   \<Rightarrow> trade_state_store" where
  "sync_symbol_trade_state_order_link tc now w intent order_request_id trade_decision_id items =
     (case il_decision_context intent of
        None \<Rightarrow> items
      | Some dc \<Rightarrow>
          (case instrument_of_symbol w (il_symbol intent) (il_market intent) of
             None \<Rightarrow> items
           | Some ins \<Rightarrow>
               (case trade_state_get items (dc_account_id dc) (in_instrument_id ins) of
                  None \<Rightarrow> items
                | Some current \<Rightarrow>
                    (let metadata = ts_metadata_json current;
                         policy = (case map_of metadata ''holding_profile_policy'' of
                                     Some (JvObj p) \<Rightarrow> p | _ \<Rightarrow> []);
                         metadata = AList.update ''last_order_request_id''
                                      (JvStr (tc_uuid tc order_request_id)) metadata;
                         metadata = (case trade_decision_id of
                                       None \<Rightarrow> metadata
                                     | Some t \<Rightarrow> AList.update ''last_trade_decision_id''
                                                  (JvStr (tc_uuid tc t)) metadata);
                         decision_type = str_upper (str_strip (il_decision_type intent));
                         keep = (\<lambda>k old. case parse_datetime_or_none tc (map_of policy k) of
                                           Some t \<Rightarrow> Some t | None \<Rightarrow> old)
                     in trade_state_upsert
                       (current
                         \<lparr>ts_state :=
                            (if il_side intent = BUY then ''entry_pending''
                             else if decision_type = ''REDUCE'' then ''reduce_pending''
                             else if decision_type \<in> {''SELL'', ''EXIT''} then ''exit_pending''
                             else ts_state current),
                          ts_last_entry_order_request_id :=
                            (if il_side intent = BUY then Some order_request_id
                             else ts_last_entry_order_request_id current),
                          ts_last_exit_order_request_id :=
                            (if il_side intent = SELL then Some order_request_id
                             else ts_last_exit_order_request_id current),
                          ts_minimum_hold_until := keep ''minimum_hold_until'' (ts_minimum_hold_until current),
                          ts_reentry_cooldown_until :=
                            keep ''reentry_cooldown_until'' (ts_reentry_cooldown_until current),
                          ts_sell_cooldown_until := keep ''sell_cooldown_until'' (ts_sell_cooldown_until current),
                          ts_last_decision_context_id := Some (dc_decision_context_id dc),
                          ts_last_reason_codes := il_reason_codes intent,
                          ts_metadata_json := metadata,
                          ts_updated_at := Some now\<rparr>) items))))"

section \<open>Reconciliation of states\<close>

definition active_order_statuses :: "order_status set" where
  "active_order_statuses =
     {DRAFT, VALIDATED, PENDING_SUBMIT, SUBMITTED, ACKNOWLEDGED, PARTIALLY_FILLED, CANCEL_PENDING,
      RECONCILE_REQUIRED}"

record symbol_trade_state_resolution =
  rz_state :: string
  rz_position_quantity :: rat
  rz_reason_codes :: "string list"

definition resolve_symbol_trade_state ::
  "symbol_trade_state \<Rightarrow> rat \<Rightarrow> order_request option \<Rightarrow> order_request option \<Rightarrow> timestamp
   \<Rightarrow> symbol_trade_state_resolution" where
  "resolve_symbol_trade_state current_state position_quantity latest_buy_order latest_sell_order now_utc =
     (let active = (\<lambda>x. case x of None \<Rightarrow> False | Some ord \<Rightarrow> or_status ord \<in> active_order_statuses);
          cooldown_active = (case ts_reentry_cooldown_until current_state of
                               None \<Rightarrow> False | Some t \<Rightarrow> now_utc < t);
          res = (\<lambda>st q codes. \<lparr>rz_state = st, rz_position_quantity = q, rz_reason_codes = codes\<rparr>)
      in if 0 < position_quantity
         then (if active latest_sell_order
               then (if ts_state current_state = ''exit_pending''
                     then res ''exit_pending'' position_quantity
                            [''authoritative_position_positive'', ''active_sell_order'']
                     else res ''reduce_pending'' position_quantity
                            [''authoritative_position_positive'', ''active_sell_order''])
               else res ''held_active'' position_quantity [''authoritative_position_positive''])
         else if active latest_buy_order
         then res ''entry_pending'' 0 [''authoritative_flat_position'', ''active_buy_order'']
         else if cooldown_active
         then res ''flat_cooldown'' 0 [''authoritative_flat_position'', ''reentry_cooldown_active'']
         else res ''flat'' 0 [''authoritative_flat_position''])"

text \<open>
  Orders by their latest time, newest first.  An order without any time has \<open>datetime.min\<close>, which
  cannot be compared with the time of another order.
\<close>

definition order_time :: "order_request \<Rightarrow> timestamp option" where
  "order_time ord = or_else (\<lambda>_. False) (or_updated_at ord)
     (or_else (\<lambda>_. False) (or_submitted_at ord) (or_created_at ord))"

definition latest_order_for_side :: "order_request list \<Rightarrow> order_side \<Rightarrow> order_error + order_request option" where
  "latest_order_for_side orders side =
     (let matched = filter (\<lambda>ord. or_side ord = side) orders
      in if (\<exists>x \<in> set matched. order_time x = None) \<and> (\<exists>x \<in> set matched. order_time x \<noteq> None)
         then Inl Type_Error
         else case sort_key (\<lambda>ord. - (case order_time ord of Some t \<Rightarrow> t | None \<Rightarrow> 0)) matched of
                [] \<Rightarrow> Inr None
              | ord # _ \<Rightarrow> Inr (Some ord))"

definition reconciled_state ::
  "text_codec \<Rightarrow> timestamp \<Rightarrow> symbol_trade_state_resolution \<Rightarrow> symbol_trade_state \<Rightarrow> symbol_trade_state" where
  "reconciled_state tc now resolution state =
     state\<lparr>ts_state := rz_state resolution,
           ts_position_quantity := rz_position_quantity resolution,
           ts_last_reason_codes := rz_reason_codes resolution,
           ts_metadata_json := AList.update ''authoritative_state_machine''
             (JvObj [(''state'', JvStr (rz_state resolution)),
                     (''reason_codes'', JvList (map JvStr (rz_reason_codes resolution))),
                     (''reconciled_at'', JvStr (tc_iso tc now))]) (ts_metadata_json state),
           ts_updated_at := Some now\<rparr>"

definition resolve_from_repos ::
  "timestamp \<Rightarrow> position_snapshot list \<Rightarrow> order_request list \<Rightarrow> symbol_trade_state
   \<Rightarrow> order_error + symbol_trade_state_resolution" where
  "resolve_from_repos now positions orders state =
     (let quantity = (case map_of (rev (map (\<lambda>s. (ps_instrument_id s, s)) positions)) (ts_instrument_id state) of
                        Some s \<Rightarrow> ps_quantity s | None \<Rightarrow> 0);
          mine = filter (\<lambda>ord. or_instrument_id ord = ts_instrument_id state) orders
      in res_bind (latest_order_for_side mine BUY) (\<lambda>buy.
         res_bind (latest_order_for_side mine SELL) (\<lambda>sell.
         Inr (resolve_symbol_trade_state state quantity buy sell now))))"

fun reconcile_states ::
  "text_codec \<Rightarrow> timestamp \<Rightarrow> position_snapshot list \<Rightarrow> order_request list \<Rightarrow> symbol_trade_state list
   \<Rightarrow> nat \<Rightarrow> trade_state_store \<Rightarrow> (order_error + nat) \<times> trade_state_store" where
  "reconcile_states tc now positions orders [] updated items = (Inr updated, items)"
| "reconcile_states tc now positions orders (state # states) updated items =
     (case resolve_from_repos now positions orders state of
        Inl e \<Rightarrow> (Inl e, items)
      | Inr resolution \<Rightarrow>
          if ts_state state = rz_state resolution
             \<and> ts_position_quantity state = rz_position_quantity resolution
          then reconcile_states tc now positions orders states updated items
          else reconcile_states tc now positions orders states (updated + 1)
                 (trade_state_upsert (reconciled_state tc now resolution state) items))"

definition reconcile_account_symbol_trade_states ::
  "text_codec \<Rightarrow> timestamp \<Rightarrow> sell_repos \<Rightarrow> uuid \<Rightarrow> trade_state_store
   \<Rightarrow> (order_error + nat) \<times> trade_state_store" where
  "reconcile_account_symbol_trade_states tc now w account_id items =
     (let states = trade_states_of_account items account_id
      in if states = [] then (Inr 0, items)
         else (case order_list (lg_repos (sg_ledger w))
                      (any_order\<lparr>oq_account_id := Some account_id, oq_limit := 1000\<rparr>) of
                 Inl e \<Rightarrow> (Inl e, items)
               | Inr orders \<Rightarrow>
                   reconcile_states tc now (position_list_latest_by_account w account_id) orders states 0 items))"

section \<open>The reconciled states\<close>

abbreviation trade_key :: "symbol_trade_state \<Rightarrow> uuid \<times> uuid" where
  "trade_key s \<equiv> (ts_account_id s, ts_instrument_id s)"

definition after_resolution ::
  "text_codec \<Rightarrow> timestamp \<Rightarrow> symbol_trade_state_resolution \<Rightarrow> symbol_trade_state \<Rightarrow> symbol_trade_state" where
  "after_resolution tc now r s =
     (if ts_state s = rz_state r \<and> ts_position_quantity s = rz_position_quantity r then s
      else reconciled_state tc now r s)"

lemma reconciled_simps [simp]:
  "ts_account_id (reconciled_state tc now r s) = ts_account_id s"
  "ts_instrument_id (reconciled_state tc now r s) = ts_instrument_id s"
  "ts_reentry_cooldown_until (reconciled_state tc now r s) = ts_reentry_cooldown_until s"
  "ts_state (reconciled_state tc now r s) = rz_state r"
  "ts_position_quantity (reconciled_state tc now r s) = rz_position_quantity r"
  by (simp_all add: reconciled_state_def)

lemma after_resolution_simps [simp]:
  "ts_account_id (after_resolution tc now r s) = ts_account_id s"
  "ts_instrument_id (after_resolution tc now r s) = ts_instrument_id s"
  "ts_reentry_cooldown_until (after_resolution tc now r s) = ts_reentry_cooldown_until s"
  "ts_state (after_resolution tc now r s) = rz_state r"
  "ts_position_quantity (after_resolution tc now r s) = rz_position_quantity r"
  by (simp_all add: after_resolution_def)

definition states_resolved ::
  "text_codec \<Rightarrow> timestamp \<Rightarrow> position_snapshot list \<Rightarrow> order_request list \<Rightarrow> symbol_trade_state list
   \<Rightarrow> trade_state_store \<Rightarrow> trade_state_store \<Rightarrow> bool" where
  "states_resolved tc now positions orders states items items' \<longleftrightarrow>
     keyed trade_key items' \<and> map fst items' = map fst items
     \<and> (\<forall>k. k \<notin> trade_key ` set states \<longrightarrow> map_of items' k = map_of items k)
     \<and> (\<forall>s \<in> set states. \<exists>r. resolve_from_repos now positions orders s = Inr r
          \<and> map_of items' (trade_key s) = Some (after_resolution tc now r s))"

lemma reconcile_states_resolved:
  assumes "reconcile_states tc now positions orders states u items = (Inr n, items')"
    and "distinct (map trade_key states)" "keyed trade_key items"
    and "\<forall>s \<in> set states. map_of items (trade_key s) = Some s"
  shows "states_resolved tc now positions orders states items items'"
  using assms
proof (induction states arbitrary: u items)
  case Nil
  then show ?case by (simp add: states_resolved_def)
next
  case (Cons s states)
  obtain r where r: "resolve_from_repos now positions orders s = Inr r"
    using Cons.prems(1) by (auto split: sum.splits)
  define stored where "stored = (if ts_state s = rz_state r \<and> ts_position_quantity s = rz_position_quantity r
    then items else trade_state_upsert (reconciled_state tc now r s) items)"
  obtain u' where rest: "reconcile_states tc now positions orders states u' stored = (Inr n, items')"
    using Cons.prems(1) r by (auto simp: stored_def split: if_splits)
  have here: "map_of stored (trade_key s) = Some (after_resolution tc now r s)"
    using Cons.prems(4) by (simp add: stored_def after_resolution_def trade_state_upsert_def update_conv')
  have others: "map_of stored k = map_of items k" if "k \<noteq> trade_key s" for k
    using that by (simp add: stored_def trade_state_upsert_def update_conv')
  have keys: "map fst stored = map fst items"
    using Cons.prems(4) by (simp add: stored_def trade_state_upsert_def update_known_key)
  have "states_resolved tc now positions orders states stored items'"
  proof (rule Cons.IH [OF rest])
    show "distinct (map trade_key states)" using Cons.prems(2) by simp
    show "keyed trade_key stored"
      using Cons.prems(3) by (simp add: stored_def trade_state_upsert_def keyed_update)
    show "\<forall>s \<in> set states. map_of stored (trade_key s) = Some s"
    proof
      fix t assume t: "t \<in> set states"
      with Cons.prems(2) have "trade_key t \<noteq> trade_key s" by (auto simp: image_iff)
      with t Cons.prems(4) show "map_of stored (trade_key t) = Some t" by (simp add: others)
    qed
  qed
  moreover have "trade_key s \<notin> trade_key ` set states" using Cons.prems(2) by simp
  ultimately show ?case
    using r here others keys unfolding states_resolved_def by auto
qed

text \<open>The states of an account are the values of its keys.\<close>

lemma account_states_keys:
  assumes "keyed trade_key items"
  shows "s \<in> set (trade_states_of_account items a) \<longleftrightarrow>
    ts_account_id s = a \<and> map_of items (trade_key s) = Some s"
  using assms by (auto simp: trade_states_of_account_def keyed_def image_iff dest: map_of_SomeD)

lemma account_states_distinct:
  assumes "keyed trade_key items"
  shows "distinct (map trade_key (trade_states_of_account items a))"
proof -
  have "keyed trade_key (filter (\<lambda>x. fst (fst x) = a) items)"
    using assms by (auto simp: keyed_def distinct_map_filter)
  then show ?thesis unfolding trade_states_of_account_def by (rule keyed_distinct)
qed

lemma reconcile_account_resolved:
  assumes "reconcile_account_symbol_trade_states tc now w a items = (Inr n, items')"
    and "keyed trade_key items"
  obtains orders where
    "trade_states_of_account items a = []
     \<or> order_list (lg_repos (sg_ledger w)) (any_order\<lparr>oq_account_id := Some a, oq_limit := 1000\<rparr>) = Inr orders"
    "states_resolved tc now (position_list_latest_by_account w a) orders
       (trade_states_of_account items a) items items'"
proof (cases "trade_states_of_account items a = []")
  case True
  with assms have "states_resolved tc now (position_list_latest_by_account w a) []
       (trade_states_of_account items a) items items'"
    by (simp add: reconcile_account_symbol_trade_states_def states_resolved_def)
  with True that show thesis by blast
next
  case False
  obtain orders where orders:
    "order_list (lg_repos (sg_ledger w)) (any_order\<lparr>oq_account_id := Some a, oq_limit := 1000\<rparr>) = Inr orders"
    and run: "reconcile_states tc now (position_list_latest_by_account w a) orders
      (trade_states_of_account items a) 0 items = (Inr n, items')"
    using assms(1) False
    by (auto simp: reconcile_account_symbol_trade_states_def Let_def split: sum.splits)
  have "\<forall>s \<in> set (trade_states_of_account items a). map_of items (trade_key s) = Some s"
    using account_states_keys [OF assms(2)] by blast
  from reconcile_states_resolved [OF run account_states_distinct [OF assms(2)] assms(2) this] orders that
  show thesis by blast
qed

text \<open>Every state of the account after the run is the outcome of a resolution.\<close>

lemma resolved_states_of_account:
  assumes "states_resolved tc now positions orders (trade_states_of_account items a) items items'"
    and "keyed trade_key items" "s' \<in> set (trade_states_of_account items' a)"
  obtains s r where "s \<in> set (trade_states_of_account items a)"
    "resolve_from_repos now positions orders s = Inr r" "s' = after_resolution tc now r s"
proof -
  have keyed': "keyed trade_key items'" and keys: "map fst items' = map fst items"
    using assms(1) by (simp_all add: states_resolved_def)
  have s': "ts_account_id s' = a" "map_of items' (trade_key s') = Some s'"
    using assms(3) account_states_keys [OF keyed'] by blast+
  then have "trade_key s' \<in> fst ` set items"
    using keys by (metis domI dom_map_of_conv_image_fst list.set_map)
  then obtain s where "(trade_key s', s) \<in> set items" by auto
  moreover from this assms(2) have key: "trade_key s = trade_key s'" by (auto simp: keyed_def)
  ultimately have "map_of items (trade_key s) = Some s"
    using assms(2) by (simp add: keyed_def)
  with s'(1) key have s: "s \<in> set (trade_states_of_account items a)"
    by (simp add: account_states_keys [OF assms(2)])
  then obtain r where "resolve_from_repos now positions orders s = Inr r"
    "map_of items' (trade_key s) = Some (after_resolution tc now r s)"
    using assms(1) by (auto simp: states_resolved_def)
  with s key s'(2) that show thesis by simp
qed

section \<open>States agree with positions and orders\<close>

definition held_quantity :: "position_snapshot list \<Rightarrow> symbol_trade_state \<Rightarrow> rat" where
  "held_quantity positions s =
     (case map_of (rev (map (\<lambda>p. (ps_instrument_id p, p)) positions)) (ts_instrument_id s) of
        Some p \<Rightarrow> ps_quantity p | None \<Rightarrow> 0)"

definition working_order :: "order_request list \<Rightarrow> order_side \<Rightarrow> symbol_trade_state \<Rightarrow> bool" where
  "working_order orders side s \<longleftrightarrow>
     (case latest_order_for_side (filter (\<lambda>x. or_instrument_id x = ts_instrument_id s) orders) side of
        Inr (Some x) \<Rightarrow> or_status x \<in> active_order_statuses | _ \<Rightarrow> False)"

definition agrees_with_books ::
  "timestamp \<Rightarrow> position_snapshot list \<Rightarrow> order_request list \<Rightarrow> symbol_trade_state \<Rightarrow> bool" where
  "agrees_with_books now positions orders s \<longleftrightarrow>
     (let held = 0 < held_quantity positions s; cooling = (case ts_reentry_cooldown_until s of None \<Rightarrow> False | Some t \<Rightarrow> now < t);
          buying = working_order orders BUY s; selling = working_order orders SELL s
      in ts_position_quantity s = max 0 (held_quantity positions s)
         \<and> (ts_state s = ''held_active'' \<longleftrightarrow> held \<and> \<not> selling)
         \<and> (ts_state s \<in> {''reduce_pending'', ''exit_pending''} \<longleftrightarrow> held \<and> selling)
         \<and> (ts_state s = ''entry_pending'' \<longleftrightarrow> \<not> held \<and> buying)
         \<and> (ts_state s = ''flat_cooldown'' \<longleftrightarrow> \<not> held \<and> \<not> buying \<and> cooling)
         \<and> (ts_state s = ''flat'' \<longleftrightarrow> \<not> held \<and> \<not> buying \<and> \<not> cooling))"

lemma resolve_from_repos_ok:
  assumes "resolve_from_repos now positions orders s = Inr r"
  obtains buy sell where
    "r = resolve_symbol_trade_state s (held_quantity positions s) buy sell now"
    "working_order orders BUY s = (case buy of None \<Rightarrow> False | Some x \<Rightarrow> or_status x \<in> active_order_statuses)"
    "working_order orders SELL s = (case sell of None \<Rightarrow> False | Some x \<Rightarrow> or_status x \<in> active_order_statuses)"
  using assms
  by (auto simp: resolve_from_repos_def held_quantity_def working_order_def Let_def res_bind_Inr_iff)

lemma held_and_working_after [simp]:
  "held_quantity positions (after_resolution tc now r s) = held_quantity positions s"
  "working_order orders side (after_resolution tc now r s) = working_order orders side s"
  by (simp_all add: held_quantity_def working_order_def)

lemma resolution_agrees:
  assumes "resolve_from_repos now positions orders s = Inr r"
  shows "agrees_with_books now positions orders (after_resolution tc now r s)"
proof -
  obtain buy sell where r: "r = resolve_symbol_trade_state s (held_quantity positions s) buy sell now"
    and w: "working_order orders BUY s = (case buy of None \<Rightarrow> False | Some x \<Rightarrow> or_status x \<in> active_order_statuses)"
    "working_order orders SELL s = (case sell of None \<Rightarrow> False | Some x \<Rightarrow> or_status x \<in> active_order_statuses)"
    using assms by (rule resolve_from_repos_ok)
  show ?thesis
    unfolding agrees_with_books_def resolve_symbol_trade_state_def r Let_def
    by (simp add: w)
qed

lemma resolve_from_repos_stable:
  assumes "resolve_from_repos now positions orders s = Inr r"
  shows "resolve_from_repos now positions orders (after_resolution tc now r s) = Inr r"
proof -
  have "resolve_symbol_trade_state (after_resolution tc now (resolve_symbol_trade_state s q buy sell now) s) q buy sell now
    = resolve_symbol_trade_state s q buy sell now" for q buy sell
    by (simp add: resolve_symbol_trade_state_def Let_def)
  with assms show ?thesis
    by (auto simp: resolve_from_repos_def Let_def res_bind_Inr_iff)
qed

lemma reconcile_settled_states:
  assumes "\<forall>s \<in> set states. \<exists>r. resolve_from_repos now positions orders s = Inr r
    \<and> ts_state s = rz_state r \<and> ts_position_quantity s = rz_position_quantity r"
  shows "reconcile_states tc now positions orders states u items = (Inr u, items)"
  using assms by (induction states) auto


text \<open>With one snapshot per instrument the position that the reconciliation reads is the one that the sell guard
  reads.\<close>

lemma held_quantity_single_snapshot:
  assumes "distinct (map ps_instrument_id (position_list_latest_by_account w a))"
  shows "held_quantity (position_list_latest_by_account w a) s = get_current_position_qty w a (Some (ts_instrument_id s))"
proof -
  let ?ps = "position_list_latest_by_account w a"
  have "map_of (rev xs) k = map_of xs k" if "distinct (map fst xs)" for xs :: "(uuid \<times> position_snapshot) list" and k
    by (rule map_of_inject_set [THEN iffD2, THEN fun_cong]) (use that in \<open>simp_all add: rev_map [symmetric]\<close>)
  moreover have "distinct (map fst (map (\<lambda>p. (ps_instrument_id p, p)) ?ps))" using assms by (simp add: comp_def)
  moreover have "map_of (map (\<lambda>p. (ps_instrument_id p, p)) ps) i = find_first (\<lambda>p. ps_instrument_id p = i) ps" for ps :: "position_snapshot list" and i
    by (induction ps) auto
  ultimately have "map_of (rev (map (\<lambda>p. (ps_instrument_id p, p)) ?ps)) i = find_first (\<lambda>p. ps_instrument_id p = i) ?ps" for i
    by metis
  then show ?thesis by (simp only: held_quantity_def get_current_position_qty_def option.case)
qed

lemma after_resolution_fields:
  "(after_resolution tc now r s)\<lparr>ts_state := ts_state s, ts_position_quantity := ts_position_quantity s,
     ts_last_reason_codes := ts_last_reason_codes s, ts_metadata_json := ts_metadata_json s,
     ts_updated_at := ts_updated_at s\<rparr> = s"
  "k \<noteq> ''authoritative_state_machine'' \<Longrightarrow>
     map_of (ts_metadata_json (after_resolution tc now r s)) k = map_of (ts_metadata_json s) k"
  by (simp_all add: after_resolution_def reconciled_state_def update_conv')

text \<open>When every order carries a time the run completes.\<close>

lemma latest_order_ok:
  assumes "\<forall>x \<in> set orders. order_time x \<noteq> None"
  shows "\<exists>x. latest_order_for_side orders side = Inr x"
proof -
  let ?matched = "filter (\<lambda>x. or_side x = side) orders"
  have "\<not> (\<exists>x \<in> set ?matched. order_time x = None)" using assms by auto
  then show ?thesis
    unfolding latest_order_for_side_def Let_def by (auto split: list.split)
qed

lemma reconcile_states_complete:
  assumes "\<forall>x \<in> set orders. order_time x \<noteq> None"
  shows "\<exists>n items'. reconcile_states tc now positions orders states u items = (Inr n, items')"
proof (induction states arbitrary: u items)
  case (Cons s states)
  have "\<forall>x \<in> set (filter (\<lambda>x. or_instrument_id x = ts_instrument_id s) orders). order_time x \<noteq> None"
    using assms by simp
  then obtain r where "resolve_from_repos now positions orders s = Inr r"
    using latest_order_ok by (metis (no_types, lifting) res_bind_simps(2) resolve_from_repos_def)
  with Cons.IH show ?case by simp
qed simp

lemma reconcile_account_completes:
  assumes "order_list (lg_repos (sg_ledger w)) (any_order\<lparr>oq_account_id := Some a, oq_limit := 1000\<rparr>) = Inr orders"
    and "\<forall>x \<in> set orders. order_time x \<noteq> None"
  obtains n items' where "reconcile_account_symbol_trade_states tc now w a items = (Inr n, items')"
proof (cases "trade_states_of_account items a = []")
  case True
  with that show thesis by (simp add: reconcile_account_symbol_trade_states_def)
next
  case False
  obtain n items' where "reconcile_states tc now (position_list_latest_by_account w a) orders
      (trade_states_of_account items a) 0 items = (Inr n, items')"
    using reconcile_states_complete [OF assms(2)] by blast
  with False assms(1) that show thesis by (simp add: reconcile_account_symbol_trade_states_def Let_def)
qed


section \<open>What a decision leaves behind\<close>

text \<open>The condition under which the policy of a decision starts a cooldown for buying back.\<close>

definition leaves_position :: "string \<Rightarrow> string \<Rightarrow> string option \<Rightarrow> bool" where
  "leaves_position source_type decision_type side \<longleftrightarrow>
     normalize_side side = ''sell''
     \<or> str_upper (str_strip (if decision_type = [] then ''HOLD'' else decision_type)) \<in> {''SELL'', ''EXIT'', ''REDUCE''}
     \<or> str_lower (str_strip (if source_type = [] then ''core'' else source_type)) = ''held_position''"

lemma policy_times:
  assumes "p = derive_holding_profile_policy tc source_type decision_type side h q m sid codes now"
  shows "leaves_position source_type decision_type side \<Longrightarrow>
      hp_earliest_reentry_at p = Some (now + default_reentry_cooldown)
      \<and> hp_reentry_cooldown_until p = Some (now + default_reentry_cooldown)
      \<and> hp_minimum_hold_until p = None \<and> hp_earliest_reduce_at p = None \<and> hp_sell_cooldown_until p = None"
    and "\<not> leaves_position source_type decision_type side \<Longrightarrow>
      hp_earliest_reentry_at p = None \<and> hp_reentry_cooldown_until p = None
      \<and> (\<exists>hold \<in> {event_probe_min_hold, event_swing_min_hold, core_swing_min_hold, position_trade_min_hold}.
           hp_minimum_hold_until p = Some (now + hold) \<and> hp_earliest_reduce_at p = Some (now + hold))"
proof -
  show "leaves_position source_type decision_type side \<Longrightarrow>
      hp_earliest_reentry_at p = Some (now + default_reentry_cooldown)
      \<and> hp_reentry_cooldown_until p = Some (now + default_reentry_cooldown)
      \<and> hp_minimum_hold_until p = None \<and> hp_earliest_reduce_at p = None \<and> hp_sell_cooldown_until p = None"
    using assms unfolding derive_holding_profile_policy_def leaves_position_def Let_def by auto
  assume "\<not> leaves_position source_type decision_type side"
  then show "hp_earliest_reentry_at p = None \<and> hp_reentry_cooldown_until p = None
      \<and> (\<exists>hold \<in> {event_probe_min_hold, event_swing_min_hold, core_swing_min_hold, position_trade_min_hold}.
           hp_minimum_hold_until p = Some (now + hold) \<and> hp_earliest_reduce_at p = Some (now + hold))"
    using assms unfolding derive_holding_profile_policy_def leaves_position_def Let_def
    by (auto simp: holding_profile_of_def split: if_splits)
qed

lemma parse_iso [simp]:
  assumes "codec_ok tc"
  shows "parse_datetime_or_none tc (Some (text_or_null (map_option (tc_iso tc) t))) = t"
  using assms by (cases t) (simp_all add: parse_datetime_or_none_def text_or_null_def codec_ok_def)

lemma serialized_times:
  assumes "codec_ok tc" "payload = serialize_holding_profile_policy tc p"
  shows "parse_datetime_or_none tc (map_of payload ''minimum_hold_until'') = hp_minimum_hold_until p"
    "parse_datetime_or_none tc (map_of payload ''earliest_reduce_at'') = hp_earliest_reduce_at p"
    "parse_datetime_or_none tc (map_of payload ''earliest_reentry_at'') = hp_earliest_reentry_at p"
    "parse_datetime_or_none tc (map_of payload ''reentry_cooldown_until'') = hp_reentry_cooldown_until p"
    "parse_datetime_or_none tc (map_of payload ''sell_cooldown_until'') = hp_sell_cooldown_until p"
  using assms by (simp_all add: serialize_holding_profile_policy_def)

text \<open>The policy stored in the metadata keeps the times of the payload.\<close>

definition policy_dict :: "json_dict \<Rightarrow> json_dict" where
  "policy_dict m = (case map_of m ''holding_profile_policy'' of Some (JvObj p) \<Rightarrow> p | _ \<Rightarrow> [])"

definition edge_key :: "trade_decision \<Rightarrow> string option" where
  "edge_key d = (if is_entry_decision d then Some ''last_entry_edge_after_cost_bps''
     else if is_reduce_decision d then Some ''last_reduce_edge_after_cost_bps''
     else if is_exit_decision d then Some ''last_exit_edge_after_cost_bps'' else None)"

lemma opt_update_other:
  assumes "ko \<noteq> Some k"
  shows "map_of (case ko of None \<Rightarrow> m | Some k' \<Rightarrow> AList.update k' v m) k = map_of m k"
  using assms by (cases ko) (simp_all add: update_conv')

lemma opt_value_update_other:
  assumes "k \<noteq> k'"
  shows "map_of (case vo of None \<Rightarrow> m | Some v \<Rightarrow> AList.update k' (f v) m) k = map_of m k"
  using assms by (cases vo) (simp_all add: update_conv')

lemma edge_key_cases: "edge_key d = Some k \<Longrightarrow> k \<in> {''last_entry_edge_after_cost_bps'',
    ''last_reduce_edge_after_cost_bps'', ''last_exit_edge_after_cost_bps''}"
  by (simp add: edge_key_def split: if_splits)

lemma decision_metadata_policy:
  assumes k: "k \<notin> {''last_entry_edge_after_cost_bps'', ''last_reduce_edge_after_cost_bps'',
    ''last_exit_edge_after_cost_bps'', ''expected_value_anchor''}"
  shows "map_of (policy_dict (decision_metadata tc d payload metadata)) k = map_of payload k"
proof -
  have e: "edge_key d \<noteq> Some k" "edge_key d \<noteq> Some ''holding_profile_policy''"
    using k edge_key_cases by fastforce+
  have a: "k \<noteq> ''expected_value_anchor''" using k by simp
  have "''holding_profile_policy'' \<noteq> ''expected_value_anchor''"
    "''holding_profile_policy'' \<noteq> ''last_trade_decision_id''" by simp_all
  note other = opt_update_other [OF e(1)] opt_update_other [OF e(2)]
    opt_value_update_other [OF a] opt_value_update_other [OF this(1)]
    update_conv' fun_upd_other [OF this(2)] fun_upd_same
  show ?thesis
    unfolding policy_dict_def decision_metadata_def Let_def edge_key_def [symmetric]
    by (simp only: other option.case jval.case)
qed

text \<open>The state a decision leaves for its instrument.\<close>

lemma persisted_state:
  assumes "ax_decision_context ctx = Some dc"
    and "payload = decision_policy_payload tc d ctx dc composer"
  obtains s where
    "trade_state_get (persist_symbol_trade_state_from_decision tc new_id d ctx (Some ins) composer items)
       (dc_account_id dc) (in_instrument_id ins) = Some s"
    "trade_key s = (dc_account_id dc, in_instrument_id ins)"
    "ts_reentry_cooldown_until s = parse_datetime_or_none tc (map_of payload ''reentry_cooldown_until'')"
    "ts_minimum_hold_until s = parse_datetime_or_none tc (map_of payload ''minimum_hold_until'')"
    "ts_last_signal_feature_snapshot_id s = dc_signal_feature_snapshot_id dc"
    "ts_metadata_json s = decision_metadata tc d payload
       (case trade_state_get items (dc_account_id dc) (in_instrument_id ins) of
          Some c \<Rightarrow> ts_metadata_json c | None \<Rightarrow> [])"
  using assms
  by (simp add: persist_symbol_trade_state_from_decision_def trade_state_upsert_def
      trade_state_get_def update_conv' Let_def)

text \<open>Reconciliation keeps what the hysteresis reads.\<close>

lemma after_resolution_kept [simp]:
  "ts_last_signal_feature_snapshot_id (after_resolution tc now r s) = ts_last_signal_feature_snapshot_id s"
  "policy_dict (ts_metadata_json (after_resolution tc now r s)) = policy_dict (ts_metadata_json s)"
  "ts_minimum_hold_until (after_resolution tc now r s) = ts_minimum_hold_until s"
  by (simp_all add: after_resolution_def reconciled_state_def policy_dict_def update_conv')

section \<open>Example\<close>

definition int_val :: "string \<Rightarrow> int" where
  "int_val s = (case s of [] \<Rightarrow> 0 | c # r \<Rightarrow> if c = CHR ''-'' then - int (digits_val r) else int (digits_val s))"

definition ex_codec :: text_codec where
  "ex_codec = \<lparr>tc_iso = int_str, tc_from_iso = (\<lambda>s. Some (int_val s)), tc_uuid = nat_str,
     tc_sha1 = (\<lambda>_. ''hash''), tc_repr = (\<lambda>_. ''repr'')\<rparr>"

lemma int_val_str [simp]: "int_val (int_str i) = i"
proof (cases "i < 0")
  case True
  then show ?thesis by (simp add: int_val_def int_str_def)
next
  case False
  obtain c r where n: "nat_str (nat i) = c # r" by (cases "nat_str (nat i)") simp_all
  then have "is_digit c" by (auto intro: nat_str_digits [of _ "nat i"])
  then have "c \<noteq> CHR ''-''" by (auto simp: is_digit_def)
  moreover have "int (digits_val (c # r)) = i" using False by (simp flip: n)
  ultimately show ?thesis
    using n False by (simp add: int_val_def int_str_def)
qed

lemma ex_codec_ok: "codec_ok ex_codec"
proof -
  have "str_strip (int_str i) \<noteq> []" for i
  proof -
    obtain c r where "nat_str (nat \<bar>i\<bar>) = c # r" by (cases "nat_str (nat \<bar>i\<bar>)") simp_all
    moreover from this have "is_digit c" by (auto intro: nat_str_digits [of _ "nat \<bar>i\<bar>"])
    then have "\<not> is_space_char c" by (auto simp: is_digit_def is_space_char_def)
    ultimately show ?thesis
      by (auto simp: str_strip_Nil_iff int_str_def split: if_splits)
  qed
  moreover have "inj nat_str" by (metis digits_val_nat_str injI)
  ultimately show ?thesis by (simp add: codec_ok_def ex_codec_def)
qed

definition ex_trade_state :: symbol_trade_state where
  "ex_trade_state = \<lparr>ts_symbol_trade_state_id = 70, ts_account_id = 1, ts_instrument_id = 2,
     ts_symbol = ''005930'', ts_market = ''KRX'', ts_state = ''exit_pending'',
     ts_holding_profile = None, ts_position_quantity = 5, ts_last_entry_order_request_id = None,
     ts_last_exit_order_request_id = None, ts_last_entry_source_type = None, ts_last_entry_at = None,
     ts_last_reduce_at = None, ts_last_exit_at = None, ts_minimum_hold_until = None,
     ts_reentry_cooldown_until = None, ts_sell_cooldown_until = None,
     ts_last_signal_feature_snapshot_id = Some 8, ts_last_decision_context_id = None,
     ts_last_reason_codes = [], ts_thesis_state_hash = None, ts_metadata_json = [],
     ts_created_at = None, ts_updated_at = None\<rparr>"

definition ex_trade_store :: trade_state_store where
  "ex_trade_store = [((1, 2), ex_trade_state), ((3, 2), ex_trade_state\<lparr>ts_account_id := 3\<rparr>)]"

lemmas ex_trade_defs = ex_trade_store_def ex_trade_state_def ex_codec_def

lemma ex_trade_keyed: "keyed trade_key ex_trade_store"
  by (simp add: keyed_def ex_trade_defs)

definition ex_reconciled_store :: trade_state_store where
  "ex_reconciled_store = snd (reconcile_account_symbol_trade_states ex_codec 100 ex_two_sells 1 ex_trade_store)"

lemma ex_reconcile:
  "reconcile_account_symbol_trade_states ex_codec 100 ex_two_sells 1 ex_trade_store = (Inr 1, ex_reconciled_store)"
proof -
  have "fst (reconcile_account_symbol_trade_states ex_codec 100 ex_two_sells 1 ex_trade_store) = Inr 1"
   by (simp add: reconcile_account_symbol_trade_states_def ex_trade_defs trade_states_of_account_def
      guard_eval resolve_from_repos_def latest_order_for_side_def order_time_def
      resolve_symbol_trade_state_def position_list_latest_by_account_def ex_guard_defs active_order_statuses_def
      del: set_filter)
  then show ?thesis unfolding ex_reconciled_store_def by (metis prod.collapse)
qed


section \<open>Properties\<close>

text \<open>C24. A completed reconciliation of an account brings every one of its trade states in line with
  what it read: the stored quantity is the quantity of the last listed snapshot of the instrument (never
  negative), the state is held, or waiting for a sale, exactly when that quantity is positive, waiting for an
  entry exactly when it is not and a buy order works, and cooling down or flat otherwise.  The last listed
  snapshot is the oldest one; when the account has one snapshot per instrument the stored quantity is
  the current position that the sell guard reads.  No state is created or removed, the states of
  other accounts are untouched, and of the account's own states only the state, the quantity, the reason
  codes, the update time and the entry \<open>authoritative_state_machine\<close> of the metadata may change: holding
  times, cooldowns, order identifiers and the policy of the last decision are kept.
\<close>

theorem reconciled_states_agree_with_books:
  assumes "keyed trade_key items"
    and "reconcile_account_symbol_trade_states tc now w a items = (Inr n, items')"
  shows "map fst items' = map fst items \<and> (\<forall>k. fst k \<noteq> a \<longrightarrow> map_of items' k = map_of items k)
    \<and> (\<exists>orders. (trade_states_of_account items a = []
          \<or> order_list (lg_repos (sg_ledger w)) (any_order\<lparr>oq_account_id := Some a, oq_limit := 1000\<rparr>) = Inr orders)
       \<and> (\<forall>s \<in> set (trade_states_of_account items' a).
            agrees_with_books now (position_list_latest_by_account w a) orders s
            \<and> (distinct (map ps_instrument_id (position_list_latest_by_account w a)) \<longrightarrow>
                 ts_position_quantity s = max 0 (get_current_position_qty w a (Some (ts_instrument_id s))))
            \<and> (\<exists>s0. map_of items (trade_key s) = Some s0
                 \<and> s\<lparr>ts_state := ts_state s0, ts_position_quantity := ts_position_quantity s0,
                     ts_last_reason_codes := ts_last_reason_codes s0, ts_metadata_json := ts_metadata_json s0,
                     ts_updated_at := ts_updated_at s0\<rparr> = s0
                 \<and> (\<forall>k. k \<noteq> ''authoritative_state_machine'' \<longrightarrow>
                       map_of (ts_metadata_json s) k = map_of (ts_metadata_json s0) k))))"
proof -
  let ?ps = "position_list_latest_by_account w a"
  obtain orders where orders: "trade_states_of_account items a = []
     \<or> order_list (lg_repos (sg_ledger w)) (any_order\<lparr>oq_account_id := Some a, oq_limit := 1000\<rparr>) = Inr orders"
    and run: "states_resolved tc now ?ps orders (trade_states_of_account items a) items items'"
    using assms(2,1) by (rule reconcile_account_resolved)
  have "agrees_with_books now ?ps orders s
      \<and> (distinct (map ps_instrument_id ?ps) \<longrightarrow>
           ts_position_quantity s = max 0 (get_current_position_qty w a (Some (ts_instrument_id s))))
      \<and> (\<exists>s0. map_of items (trade_key s) = Some s0
           \<and> s\<lparr>ts_state := ts_state s0, ts_position_quantity := ts_position_quantity s0,
               ts_last_reason_codes := ts_last_reason_codes s0, ts_metadata_json := ts_metadata_json s0,
               ts_updated_at := ts_updated_at s0\<rparr> = s0
           \<and> (\<forall>k. k \<noteq> ''authoritative_state_machine'' \<longrightarrow> map_of (ts_metadata_json s) k = map_of (ts_metadata_json s0) k))"
    if "s \<in> set (trade_states_of_account items' a)" for s
  proof -
    obtain s0 r where s0: "s0 \<in> set (trade_states_of_account items a)" "resolve_from_repos now ?ps orders s0 = Inr r"
        "s = after_resolution tc now r s0"
      using run assms(1) \<open>s \<in> set (trade_states_of_account items' a)\<close> by (rule resolved_states_of_account)
    have agree: "agrees_with_books now ?ps orders s" unfolding s0(3) by (rule resolution_agrees [OF s0(2)])
    then have "ts_position_quantity s = max 0 (held_quantity ?ps s)" by (simp add: agrees_with_books_def Let_def)
    moreover have "map_of items (trade_key s) = Some s0"
      using s0(1) by (auto simp: s0(3) account_states_keys [OF assms(1)])
    ultimately show ?thesis
      using agree held_quantity_single_snapshot [of w a s] after_resolution_fields by (auto simp: s0(3))
  qed
  moreover have "k \<notin> trade_key ` set (trade_states_of_account items a)" if "fst k \<noteq> a" for k
    using that by (auto simp: account_states_keys [OF assms(1)])
  ultimately show ?thesis
    using orders run unfolding states_resolved_def by blast
qed

theorem reconciled_states_agree_with_books_witness:
  "map fst ex_reconciled_store = [(1, 2), (3, 2)]
   \<and> (\<exists>orders. \<forall>s \<in> set (trade_states_of_account ex_reconciled_store 1).
        agrees_with_books 100 (position_list_latest_by_account ex_two_sells 1) orders s
        \<and> ts_position_quantity s = max 0 (get_current_position_qty ex_two_sells 1 (Some (ts_instrument_id s))))"
proof -
  have "distinct (map ps_instrument_id (position_list_latest_by_account ex_two_sells 1))"
    by (simp add: guard_eval ex_guard_defs position_list_latest_by_account_def)
  then show ?thesis
    using reconciled_states_agree_with_books [OF ex_trade_keyed ex_reconcile] by (auto simp: ex_trade_store_def)
qed

text \<open>Reconciling twice at the same time changes nothing more: the second run reports no update
  and leaves the store as it is.
\<close>

theorem reconciliation_is_idempotent:
  assumes "keyed trade_key items"
    and "reconcile_account_symbol_trade_states tc now w a items = (Inr n, items')"
  shows "reconcile_account_symbol_trade_states tc now w a items' = (Inr 0, items')"
proof -
  obtain orders where orders: "trade_states_of_account items a = []
     \<or> order_list (lg_repos (sg_ledger w)) (any_order\<lparr>oq_account_id := Some a, oq_limit := 1000\<rparr>) = Inr orders"
    and run: "states_resolved tc now (position_list_latest_by_account w a) orders
       (trade_states_of_account items a) items items'"
    using assms(2,1) by (rule reconcile_account_resolved)
  have "\<exists>r. resolve_from_repos now (position_list_latest_by_account w a) orders s = Inr r
    \<and> ts_state s = rz_state r \<and> ts_position_quantity s = rz_position_quantity r"
    if "s \<in> set (trade_states_of_account items' a)" for s
    using resolved_states_of_account [OF run assms(1) that]
    by (metis resolve_from_repos_stable after_resolution_simps(4,5))
  then have "reconcile_states tc now (position_list_latest_by_account w a) orders
      (trade_states_of_account items' a) 0 items' = (Inr 0, items')"
    by (intro reconcile_settled_states) blast
  moreover have "trade_states_of_account items' a = []" if "trade_states_of_account items a = []"
    using resolved_states_of_account [OF run assms(1)] that
    by (metis list.set_intros(1) neq_Nil_conv empty_iff empty_set)
  ultimately show ?thesis
    using orders by (auto simp: reconcile_account_symbol_trade_states_def Let_def)
qed

theorem reconciliation_is_idempotent_witness:
  "reconcile_account_symbol_trade_states ex_codec 100 ex_two_sells 1 ex_reconciled_store = (Inr 0, ex_reconciled_store)"
  using reconciliation_is_idempotent [OF ex_trade_keyed ex_reconcile] .

text \<open>The position that the reconciliation reads: with two snapshots of an instrument it is the older one.\<close>

definition ex_sold_out :: sell_repos where
  "ex_sold_out = (ex_guarded [] [] [])\<lparr>sg_position_snapshots :=
     [(60, ex_snapshot 10), (61, (ex_snapshot 0)\<lparr>ps_position_snapshot_id := 61, ps_snapshot_at := 95\<rparr>)]\<rparr>"

theorem reconciliation_reads_oldest_snapshot:
  "get_current_position_qty ex_sold_out 1 (Some 2) = 0
   \<and> held_quantity (position_list_latest_by_account ex_sold_out 1) ex_trade_state = 10"
  by (simp add: ex_sold_out_def ex_guard_defs guard_eval held_quantity_def ex_trade_state_def)

end
