(* ===== verification/Hysteresis.thy ===== *)
theory Hysteresis
  imports Trade_State
begin

text \<open>
  Guards against trading back and forth (\<^verbatim>\<open>services/reverse_trade_hysteresis.py\<close>): after a sale a buy
  waits for its cooldown unless the situation has changed, and a position is not reduced before
  its holding time unless there is a reason to leave.  The dictionary of details keeps the values
  that the code formats as texts; texts of infinities and NaN do not occur as edges.
\<close>

section \<open>Data\<close>

record external_event =
  xe_event_id :: uuid
  xe_published_at :: timestamp
  xe_severity :: string
  xe_direction :: string
  xe_metadata :: json_dict

datatype detail = Dt_None | Dt_Text string | Dt_Time timestamp | Dt_Decimal rat

type_synonym details = "(string \<times> detail) list"

record reverse_trade_decision =
  rt_blocked :: bool
  rt_stop_reason :: "string option"
  rt_detail_code :: "string option"
  rt_details :: details

record exit_hysteresis_decision =
  xh_blocked :: bool
  xh_detail_code :: "string option"
  xh_details :: details

definition pending_symbol_states :: "string set" where
  "pending_symbol_states = {''entry_pending'', ''reduce_pending'', ''exit_pending''}"

definition novelty_lookback :: int where "novelty_lookback = 24 * minutes 60"
definition reentry_edge_improvement_bps :: rat where "reentry_edge_improvement_bps = 10"
definition exit_edge_collapse_absolute_bps :: rat where "exit_edge_collapse_absolute_bps = 5"
definition exit_edge_collapse_delta_bps :: rat where "exit_edge_collapse_delta_bps = 15"

definition hysteresis_decimal_or_none :: "jval option \<Rightarrow> rat option" where
  "hysteresis_decimal_or_none v =
     (case v of
        None \<Rightarrow> None
      | Some x \<Rightarrow> if x = JvNull \<or> x = JvStr [] then None else map_option dec_value (decimal_of_jval x))"

text \<open>\<open>a or b or c\<close> over dictionary lookups: the first true value, else the last one.\<close>

fun jv_or_chain :: "jval option list \<Rightarrow> jval option" where
  "jv_or_chain [] = None"
| "jv_or_chain [v] = v"
| "jv_or_chain (v # vs) =
     (case v of None \<Rightarrow> jv_or_chain vs | Some x \<Rightarrow> if jv_truthy x then Some x else jv_or_chain vs)"

section \<open>Events\<close>

text \<open>\<open>str(metadata.get(key) or fallback).strip().lower()\<close>.\<close>

definition metadata_text :: "text_codec \<Rightarrow> json_dict \<Rightarrow> string \<Rightarrow> string \<Rightarrow> string" where
  "metadata_text tc m key fallback =
     str_lower (str_strip
       (case jv_or_chain [map_of m key, Some (JvStr fallback)] of
          None \<Rightarrow> []
        | Some v \<Rightarrow> (case jval_str tc (Some v) of None \<Rightarrow> [] | Some s \<Rightarrow> s)))"

definition metadata_flag :: "text_codec \<Rightarrow> json_dict \<Rightarrow> string \<Rightarrow> bool" where
  "metadata_flag tc m key \<longleftrightarrow> map_of m key = Some (JvBool True) \<or> metadata_text tc m key [] = ''true''"

definition fresh_novelty :: "text_codec \<Rightarrow> external_event \<Rightarrow> bool" where
  "fresh_novelty tc e \<longleftrightarrow> metadata_text tc (xe_metadata e) ''novelty'' (xe_severity e)
     \<in> {''high'', ''medium'', ''surprising'', ''fresh''}"

definition event_supports_reentry :: "text_codec \<Rightarrow> external_event \<Rightarrow> bool" where
  "event_supports_reentry tc e \<longleftrightarrow>
     fresh_novelty tc e
     \<and> (metadata_flag tc (xe_metadata e) ''supports_entry''
        \<or> metadata_text tc (xe_metadata e) ''impact_direction'' (xe_direction e) = ''positive'')"

definition event_supports_exit :: "text_codec \<Rightarrow> external_event \<Rightarrow> bool" where
  "event_supports_exit tc e \<longleftrightarrow>
     fresh_novelty tc e
     \<and> (metadata_flag tc (xe_metadata e) ''supports_exit''
        \<or> metadata_text tc (xe_metadata e) ''impact_direction'' (xe_direction e) = ''negative'')"

definition compute_event_novelty_passed ::
  "text_codec \<Rightarrow> timestamp \<Rightarrow> external_event list \<Rightarrow> timestamp option \<Rightarrow> bool \<times> string" where
  "compute_event_novelty_passed tc now recent_events reference_time =
     (let cutoff = (case reference_time of Some t \<Rightarrow> t | None \<Rightarrow> now - novelty_lookback)
      in case filter (\<lambda>e. cutoff \<le> xe_published_at e \<and> event_supports_reentry tc e) recent_events of
           [] \<Rightarrow> (False, ''none'')
         | e # _ \<Rightarrow>
             (let novelty = metadata_text tc (xe_metadata e) ''novelty''
                              (if xe_severity e = [] then ''medium'' else xe_severity e)
              in (True, if novelty = [] then ''medium'' else novelty)))"

definition join_spaces :: "string list \<Rightarrow> string" where
  "join_spaces xs = (case xs of [] \<Rightarrow> [] | x # ys \<Rightarrow> x @ concat (map (\<lambda>y. CHR '' '' # y) ys))"

definition contains_keyword :: "string list \<Rightarrow> string list \<Rightarrow> bool" where
  "contains_keyword values keywords =
     (let normalized = join_spaces (map (\<lambda>v. str_lower (str_strip v)) (filter (\<lambda>v. v \<noteq> []) values))
      in \<exists>k \<in> set keywords. contains_text k normalized)"

definition with_flag :: "string option \<Rightarrow> bool \<Rightarrow> details \<Rightarrow> details" where
  "with_flag key value details =
     (case key of
        None \<Rightarrow> details
      | Some k \<Rightarrow> AList.update k (Dt_Text (if value then ''true'' else ''false'')) details)"

definition put_detail :: "string \<Rightarrow> detail \<Rightarrow> details \<Rightarrow> details" where
  "put_detail k v details = AList.update k v details"

definition opt_detail :: "('a \<Rightarrow> detail) \<Rightarrow> 'a option \<Rightarrow> detail" where
  "opt_detail f x = (case x of None \<Rightarrow> Dt_None | Some v \<Rightarrow> f v)"

section \<open>Recent orders on the other side\<close>

definition evaluate_recent_reverse_trade ::
  "string option \<Rightarrow> string option \<Rightarrow> int \<Rightarrow> string option \<Rightarrow> string list \<Rightarrow> string \<Rightarrow> details
   \<Rightarrow> string option \<Rightarrow> string option \<Rightarrow> bool \<Rightarrow> bool option \<Rightarrow> string option \<Rightarrow> reverse_trade_decision" where
  "evaluate_recent_reverse_trade current_signal_feature_snapshot_id last_signal_feature_snapshot_id
       recent_opposite_order_count latest_decision_type eligible_decision_types cooldown_stop_reason
       details snapshot_unchanged_detail_key activity_flag_detail_key require_matching_decision_type
       event_novelty_passed event_novelty_label =
     (let eligible_set = (\<lambda>x. str_lower (str_strip x)) ` set (filter (\<lambda>x. str_strip x \<noteq> []) eligible_decision_types);
          decision_type_matched =
            (if require_matching_decision_type
             then (case latest_decision_type of None \<Rightarrow> False | Some d \<Rightarrow> str_lower (str_strip d) \<in> eligible_set)
             else True);
          reverse_activity_detected = (0 < recent_opposite_order_count \<and> decision_type_matched);
          details = with_flag activity_flag_detail_key reverse_activity_detected details
      in if \<not> reverse_activity_detected
         then \<lparr>rt_blocked = False, rt_stop_reason = None, rt_detail_code = None, rt_details = details\<rparr>
         else
           (let unchanged = (current_signal_feature_snapshot_id \<noteq> None
                             \<and> last_signal_feature_snapshot_id \<noteq> None
                             \<and> current_signal_feature_snapshot_id = last_signal_feature_snapshot_id);
                details = with_flag snapshot_unchanged_detail_key unchanged details
            in if unchanged
               then \<lparr>rt_blocked = True,
                     rt_stop_reason = Some ''reverse_trade_same_signal_feature_snapshot'',
                     rt_detail_code = None, rt_details = details\<rparr>
               else
                 (let details =
                        (case event_novelty_passed of
                           None \<Rightarrow> details
                         | Some b \<Rightarrow> put_detail ''reentry_event_novelty'' (opt_detail Dt_Text event_novelty_label)
                                      (with_flag (Some ''reentry_event_novelty_passed'') b details))
                  in if event_novelty_passed = Some True
                     then \<lparr>rt_blocked = False, rt_stop_reason = None, rt_detail_code = None, rt_details = details\<rparr>
                     else \<lparr>rt_blocked = True, rt_stop_reason = Some cooldown_stop_reason,
                           rt_detail_code = None, rt_details = details\<rparr>)))"

section \<open>Buying back\<close>

definition policy_payload :: "symbol_trade_state \<Rightarrow> json_dict" where
  "policy_payload s =
     (case map_of (ts_metadata_json s) ''holding_profile_policy'' of Some (JvObj p) \<Rightarrow> p | _ \<Rightarrow> [])"

definition earliest_reentry_at :: "text_codec \<Rightarrow> symbol_trade_state \<Rightarrow> timestamp option" where
  "earliest_reentry_at tc s =
     (case resolve_policy_timestamp tc (policy_payload s) ''earliest_reentry_at'' ''reentry_cooldown_until'' of
        Some t \<Rightarrow> Some t
      | None \<Rightarrow> ts_reentry_cooldown_until s)"

definition last_exit_edge :: "symbol_trade_state \<Rightarrow> rat option" where
  "last_exit_edge s =
     hysteresis_decimal_or_none (jv_or_chain
       [map_of (policy_payload s) ''last_exit_edge_after_cost_bps'',
        map_of (policy_payload s) ''last_reduce_edge_after_cost_bps'',
        map_of (ts_metadata_json s) ''last_exit_edge_after_cost_bps'',
        map_of (ts_metadata_json s) ''last_reduce_edge_after_cost_bps''])"

definition gate_block :: "string \<Rightarrow> details \<Rightarrow> reverse_trade_decision" where
  "gate_block code details =
     \<lparr>rt_blocked = True, rt_stop_reason = Some ''ai_override_gate'', rt_detail_code = Some code,
      rt_details = details\<rparr>"

definition gate_pass :: "details \<Rightarrow> reverse_trade_decision" where
  "gate_pass details = \<lparr>rt_blocked = False, rt_stop_reason = None, rt_detail_code = None, rt_details = details\<rparr>"

definition evaluate_symbol_state_buy_hysteresis ::
  "text_codec \<Rightarrow> timestamp \<Rightarrow> symbol_trade_state \<Rightarrow> string option \<Rightarrow> timestamp \<Rightarrow> rat option
   \<Rightarrow> external_event list \<Rightarrow> details \<Rightarrow> reverse_trade_decision" where
  "evaluate_symbol_state_buy_hysteresis tc clock s current_id now_utc current_edge recent_events details =
     (let earliest = earliest_reentry_at tc s;
          last_id = map_option (tc_uuid tc) (ts_last_signal_feature_snapshot_id s);
          details = put_detail ''symbol_state'' (Dt_Text (ts_state s)) details;
          details = put_detail ''earliest_reentry_at'' (opt_detail Dt_Time earliest) details;
          details = put_detail ''last_signal_feature_snapshot_id'' (opt_detail Dt_Text last_id) details;
          details = put_detail ''current_signal_feature_snapshot_id'' (opt_detail Dt_Text current_id) details;
          details = put_detail ''current_edge_after_cost_bps'' (opt_detail Dt_Decimal current_edge) details
      in if ts_state s \<in> pending_symbol_states
         then gate_block ''ai_override_state_pending_conflict'' details
         else
           (let cooldown_active = (case earliest of None \<Rightarrow> False | Some t \<Rightarrow> now_utc < t);
                details = with_flag (Some ''reentry_cooldown_active'') cooldown_active details
            in if \<not> cooldown_active then gate_pass details
               else
                 (let unchanged = (current_id \<noteq> None \<and> last_id \<noteq> None \<and> current_id = last_id);
                      changed = (current_id \<noteq> None \<and> last_id \<noteq> None \<and> current_id \<noteq> last_id);
                      details = with_flag (Some ''reentry_signal_feature_snapshot_unchanged'') unchanged details;
                      details = with_flag (Some ''reentry_signal_feature_snapshot_changed'') changed details
                  in if unchanged
                     then gate_block ''ai_override_reverse_same_signal_feature_blocked'' details
                     else if \<not> changed
                     then gate_block ''ai_override_reverse_feature_change_blocked'' details
                     else
                       (let last_edge = last_exit_edge s;
                            details = put_detail ''last_exit_edge_after_cost_bps'' (opt_detail Dt_Decimal last_edge) details;
                            improved = (case (current_edge, last_edge) of
                                          (Some c, Some l) \<Rightarrow> dadd l reentry_edge_improvement_bps \<le> c
                                        | _ \<Rightarrow> False);
                            no_reference = (current_edge \<noteq> None \<and> last_edge = None);
                            details = with_flag (Some ''reentry_edge_improvement_passed'')
                                        (improved \<or> no_reference) details;
                            (novelty_passed, novelty_label) =
                              compute_event_novelty_passed tc clock recent_events
                                (or_else (\<lambda>_. False) (ts_last_exit_at s) (ts_last_reduce_at s));
                            details = with_flag (Some ''reentry_event_novelty_passed'') novelty_passed details;
                            details = put_detail ''reentry_event_novelty'' (Dt_Text novelty_label) details
                        in if \<not> novelty_passed
                           then gate_block ''ai_override_reverse_event_novelty_blocked'' details
                           else if \<not> (improved \<or> no_reference)
                           then gate_block ''ai_override_reverse_edge_regression_blocked'' details
                           else gate_pass details))))"

section \<open>Leaving early\<close>

definition earliest_reduce_at :: "text_codec \<Rightarrow> symbol_trade_state \<Rightarrow> timestamp option" where
  "earliest_reduce_at tc s =
     (case resolve_policy_timestamp tc (policy_payload s) ''earliest_reduce_at'' ''minimum_hold_until'' of
        Some t \<Rightarrow> Some t
      | None \<Rightarrow> ts_minimum_hold_until s)"

definition last_entry_edge :: "symbol_trade_state \<Rightarrow> rat option" where
  "last_entry_edge s =
     hysteresis_decimal_or_none (jv_or_chain
       [map_of (policy_payload s) ''last_entry_edge_after_cost_bps'',
        map_of (ts_metadata_json s) ''last_entry_edge_after_cost_bps''])"

definition thesis_keywords :: "string list" where
  "thesis_keywords = [''thesis'', ''invalidate'', ''fraud'', ''accounting'', ''guidance_cut'',
     ''earnings_miss'', ''governance'']"

definition breach_keywords :: "string list" where
  "breach_keywords = [''breach'', ''stop_loss'', ''drawdown'', ''mae'', ''adverse'', ''concent'',
     ''expos'', ''over'']"

definition edge_collapse :: "rat option \<Rightarrow> rat option \<Rightarrow> bool" where
  "edge_collapse current_edge entry_edge =
     (case current_edge of
        None \<Rightarrow> False
      | Some c \<Rightarrow> c \<le> exit_edge_collapse_absolute_bps
                  \<or> (case entry_edge of None \<Rightarrow> False | Some l \<Rightarrow> c \<le> dsub l exit_edge_collapse_delta_bps))"

text \<open>\<open>risk\<close>: flags and reason codes of the risk agent, if it answered.\<close>

definition evaluate_symbol_state_sell_hysteresis ::
  "text_codec \<Rightarrow> symbol_trade_state \<Rightarrow> rat option \<Rightarrow> (string list \<times> string list) option
   \<Rightarrow> external_event list \<Rightarrow> timestamp \<Rightarrow> details \<Rightarrow> exit_hysteresis_decision" where
  "evaluate_symbol_state_sell_hysteresis tc s current_edge risk recent_events now_utc details =
     (let earliest = earliest_reduce_at tc s;
          details = put_detail ''earliest_reduce_at'' (opt_detail Dt_Time earliest) details;
          details = put_detail ''holding_profile'' (opt_detail Dt_Text (ts_holding_profile s)) details;
          details = put_detail ''current_edge_after_cost_bps'' (opt_detail Dt_Decimal current_edge) details;
          early = (case earliest of None \<Rightarrow> False | Some t \<Rightarrow> now_utc < t);
          details = with_flag (Some ''early_reduce_window_active'') early details
      in if \<not> early then \<lparr>xh_blocked = False, xh_detail_code = None, xh_details = details\<rparr>
         else
           (let last_edge = last_entry_edge s;
                details = put_detail ''last_entry_edge_after_cost_bps'' (opt_detail Dt_Decimal last_edge) details;
                collapse = edge_collapse current_edge last_edge;
                details = with_flag (Some ''exit_edge_collapse_passed'') collapse details;
                shock = (\<exists>e \<in> set recent_events. event_supports_exit tc e);
                details = with_flag (Some ''exit_downside_shock_passed'') shock details;
                texts = (case risk of None \<Rightarrow> [] | Some (flags, codes) \<Rightarrow> flags @ codes);
                invalid = contains_keyword texts thesis_keywords;
                details = with_flag (Some ''exit_thesis_invalidation_passed'') invalid details;
                breach = contains_keyword texts breach_keywords;
                details = with_flag (Some ''exit_holding_profile_breach_passed'') breach details
            in if collapse \<or> shock \<or> invalid \<or> breach
               then \<lparr>xh_blocked = False, xh_detail_code = None, xh_details = details\<rparr>
               else \<lparr>xh_blocked = True, xh_detail_code = Some ''held_position_exit_hysteresis_blocked'',
                     xh_details = details\<rparr>))"

section \<open>Keywords\<close>

lemma contains_text_iff: "contains_text k s \<longleftrightarrow> (\<exists>p q. s = p @ k @ q)"
proof (induction s)
  case (Cons c s)
  have "take (length k) (c # s) = k \<longleftrightarrow> (\<exists>q. c # s = k @ q)"
    by (metis append_eq_conv_conj append_take_drop_id)
  then show ?case using Cons by (auto simp: Cons_eq_append_conv)
qed auto

lemma contains_text_rev: "contains_text (rev k) (rev s) \<longleftrightarrow> contains_text k s"
proof -
  have "\<exists>p q. rev s = p @ rev k @ q" if "s = p @ k @ q" for p k q s :: string
    using that by (intro exI [of _ "rev q"] exI [of _ "rev p"]) simp
  then show ?thesis unfolding contains_text_iff by (metis rev_rev_ident)
qed

lemma contains_text_split:
  assumes "k \<noteq> []" "c \<notin> set k"
  shows "contains_text k (x @ c # z) \<longleftrightarrow> contains_text k x \<or> contains_text k z"
proof
  assume "contains_text k x \<or> contains_text k z"
  then show "contains_text k (x @ c # z)"
    unfolding contains_text_iff by (metis append.assoc append_Cons append_Nil)
next
  assume "contains_text k (x @ c # z)"
  then show "contains_text k x \<or> contains_text k z"
  proof (induction x)
    case Nil
    then show ?case using assms by (cases k) auto
  next
    case (Cons a x)
    have "take (length k) (a # x @ c # z) = k \<Longrightarrow> take (length k) (a # x) = k"
    proof (rule ccontr)
      assume t: "take (length k) (a # x @ c # z) = k" and n: "take (length k) (a # x) \<noteq> k"
      then have "length (a # x) < length k" by (metis append_Cons not_less take_append take_all_iff append_Nil2 take0 diff_is_0_eq)
      then have "k = (a # x) @ take (length k - length (a # x)) (c # z)"
        using t by (metis append_Cons take_append take_all less_imp_le)
      moreover have "0 < length k - length (a # x)" using \<open>length (a # x) < length k\<close> by simp
      ultimately show False using assms(2) by (metis in_set_conv_decomp append_Cons take_Cons' less_numeral_extra(3))
    qed
    then show ?case using Cons by auto
  qed
qed

lemma contains_text_join:
  assumes "k \<noteq> []" "CHR '' '' \<notin> set k"
  shows "contains_text k (join_spaces xs) \<longleftrightarrow> (\<exists>x \<in> set xs. contains_text k x)"
proof (induction xs)
  case (Cons x xs)
  have "join_spaces (x # xs) = (case xs of [] \<Rightarrow> x | _ \<Rightarrow> x @ CHR '' '' # join_spaces xs)"
    by (simp add: join_spaces_def split: list.split)
  then show ?case using Cons contains_text_split [OF assms] by (cases xs) auto
qed (use assms in \<open>simp add: join_spaces_def\<close>)

lemma contains_text_skip:
  assumes "k \<noteq> []" "list_all (\<lambda>c. c \<notin> set k) pre"
  shows "contains_text k (pre @ s) \<longleftrightarrow> contains_text k s"
  using assms(2) assms(1) by (induction pre) (auto, metis list.set_intros(1) take_Suc_Cons length_Cons neq_Nil_conv)

lemma lower_space [simp]: "is_space_char c \<Longrightarrow> char_lower c = c"
  by (auto simp: is_space_char_def char_lower_def)

lemma lower_drop_space:
  assumes "k \<noteq> []" "list_all (\<lambda>c. \<not> is_space_char c) k"
  shows "contains_text k (str_lower (dropWhile is_space_char s)) \<longleftrightarrow> contains_text k (str_lower s)"
proof -
  have "list_all (\<lambda>c. c \<notin> set k) (map char_lower (takeWhile is_space_char s))"
    using assms(2) by (auto simp: list_all_iff dest: set_takeWhileD)
  from contains_text_skip [OF assms(1) this, of "map char_lower (dropWhile is_space_char s)"]
  show ?thesis unfolding str_lower_def by (metis map_append takeWhile_dropWhile_id)
qed

lemma contains_text_strip:
  assumes "k \<noteq> []" "list_all (\<lambda>c. \<not> is_space_char c) k"
  shows "contains_text k (str_lower (str_strip s)) \<longleftrightarrow> contains_text k (str_lower s)"
proof -
  have r: "rev k \<noteq> []" "list_all (\<lambda>c. \<not> is_space_char c) (rev k)" using assms by simp_all
  have l: "str_lower (rev t) = rev (str_lower t)" for t by (simp add: str_lower_def rev_map)
  show ?thesis
    unfolding str_strip_def l
    using contains_text_rev [of "rev k"] lower_drop_space [OF r] lower_drop_space [OF assms] l
    by (metis rev_rev_ident)
qed

definition keyword_ok :: "string \<Rightarrow> bool" where
  "keyword_ok k \<longleftrightarrow> k \<noteq> [] \<and> list_all (\<lambda>c. \<not> is_space_char c) k"

lemma contains_keyword_iff:
  assumes "list_all keyword_ok ks"
  shows "contains_keyword xs ks \<longleftrightarrow> (\<exists>x \<in> set xs. \<exists>k \<in> set ks. contains_text k (str_lower x))"
proof -
  have "contains_text k (join_spaces (map (\<lambda>v. str_lower (str_strip v)) (filter (\<lambda>v. v \<noteq> []) xs)))
      \<longleftrightarrow> (\<exists>x \<in> set xs. contains_text k (str_lower x))" if "k \<in> set ks" for k
  proof -
    have k: "k \<noteq> []" "list_all (\<lambda>c. \<not> is_space_char c) k" using assms that by (auto simp: list_all_iff keyword_ok_def)
    have e: "\<not> contains_text k (str_lower [])" using k(1) by (simp add: str_lower_def)
    have "is_space_char (CHR '' '')" by code_simp
    then have sp: "CHR '' '' \<notin> set k" using k(2) by (auto simp: list_all_iff)
    show ?thesis
      using e by (auto simp: contains_text_join [OF k(1) sp] contains_text_strip [OF k])
  qed
  then show ?thesis by (auto simp: contains_keyword_def Let_def)
qed

lemma keywords_ok: "list_all keyword_ok thesis_keywords" "list_all keyword_ok breach_keywords"
  by code_simp+

section \<open>When the guards block\<close>

lemma policy_payload_dict: "policy_payload s = policy_dict (ts_metadata_json s)"
  by (simp add: policy_payload_def policy_dict_def)

definition buy_waits :: "text_codec \<Rightarrow> symbol_trade_state \<Rightarrow> timestamp \<Rightarrow> bool" where
  "buy_waits tc s now \<longleftrightarrow> (case earliest_reentry_at tc s of None \<Rightarrow> False | Some t \<Rightarrow> now < t)"

definition situation_changed ::
  "text_codec \<Rightarrow> timestamp \<Rightarrow> symbol_trade_state \<Rightarrow> string option \<Rightarrow> rat option \<Rightarrow> external_event list \<Rightarrow> bool" where
  "situation_changed tc clock s current_id current_edge events \<longleftrightarrow>
     (\<exists>a b. current_id = Some a \<and> ts_last_signal_feature_snapshot_id s = Some b \<and> a \<noteq> tc_uuid tc b)
     \<and> (\<exists>c. current_edge = Some c
          \<and> (case last_exit_edge s of None \<Rightarrow> True | Some l \<Rightarrow> dadd l reentry_edge_improvement_bps \<le> c))
     \<and> (\<exists>e \<in> set events. event_supports_reentry tc e
          \<and> (case or_else (\<lambda>_. False) (ts_last_exit_at s) (ts_last_reduce_at s) of
               None \<Rightarrow> clock - novelty_lookback | Some t \<Rightarrow> t) \<le> xe_published_at e)"

lemma novelty_passed_iff:
  "fst (compute_event_novelty_passed tc clock events ref) \<longleftrightarrow>
     (\<exists>e \<in> set events. event_supports_reentry tc e
        \<and> (case ref of None \<Rightarrow> clock - novelty_lookback | Some t \<Rightarrow> t) \<le> xe_published_at e)"
proof -
  let ?P = "\<lambda>e. (case ref of None \<Rightarrow> clock - novelty_lookback | Some t \<Rightarrow> t) \<le> xe_published_at e
    \<and> event_supports_reentry tc e"
  have "fst (compute_event_novelty_passed tc clock events ref) \<longleftrightarrow> filter ?P events \<noteq> []"
    by (cases "filter ?P events") (simp_all add: compute_event_novelty_passed_def Let_def)
  then show ?thesis by (auto simp: filter_empty_conv)
qed

text \<open>The reasons to leave a position early: the edge is at most five basis points or has lost fifteen since the
  entry; a fresh event supports leaving; or a flag or reason code of the risk agent names, in whatever case, an
  invalidated thesis or a breached limit.\<close>

definition reason_to_leave ::
  "text_codec \<Rightarrow> rat option \<Rightarrow> rat option \<Rightarrow> (string list \<times> string list) option \<Rightarrow> external_event list \<Rightarrow> bool" where
  "reason_to_leave tc entry_edge current_edge risk events \<longleftrightarrow>
     (\<exists>c. current_edge = Some c \<and> (c \<le> 5 \<or> (\<exists>l. entry_edge = Some l \<and> c \<le> dsub l 15)))
     \<or> (\<exists>e \<in> set events.
          metadata_text tc (xe_metadata e) ''novelty'' (xe_severity e) \<in> {''high'', ''medium'', ''surprising'', ''fresh''}
          \<and> (map_of (xe_metadata e) ''supports_exit'' = Some (JvBool True)
             \<or> metadata_text tc (xe_metadata e) ''supports_exit'' [] = ''true''
             \<or> metadata_text tc (xe_metadata e) ''impact_direction'' (xe_direction e) = ''negative''))
     \<or> (\<exists>flags codes. risk = Some (flags, codes)
          \<and> (\<exists>x \<in> set (flags @ codes). \<exists>k \<in> {''thesis'', ''invalidate'', ''fraud'', ''accounting'', ''guidance_cut'',
               ''earnings_miss'', ''governance'', ''breach'', ''stop_loss'', ''drawdown'', ''mae'', ''adverse'',
               ''concent'', ''expos'', ''over''}. contains_text k (str_lower x)))"

lemma early_sell_blocked:
  "xh_blocked (evaluate_symbol_state_sell_hysteresis tc s current_edge risk events now details) \<longleftrightarrow>
     (\<exists>t. earliest_reduce_at tc s = Some t \<and> now < t) \<and> \<not> reason_to_leave tc (last_entry_edge s) current_edge risk events"
proof -
  let ?texts = "case risk of None \<Rightarrow> [] | Some (flags, codes) \<Rightarrow> flags @ codes"
  have edge: "edge_collapse current_edge (last_entry_edge s) \<longleftrightarrow>
      (\<exists>c. current_edge = Some c \<and> (c \<le> 5 \<or> (\<exists>l. last_entry_edge s = Some l \<and> c \<le> dsub l 15)))"
    by (auto simp: edge_collapse_def exit_edge_collapse_absolute_bps_def exit_edge_collapse_delta_bps_def split: option.split)
  have words: "contains_keyword ?texts thesis_keywords \<or> contains_keyword ?texts breach_keywords \<longleftrightarrow>
      (\<exists>flags codes. risk = Some (flags, codes)
        \<and> (\<exists>x \<in> set (flags @ codes). \<exists>k \<in> set thesis_keywords \<union> set breach_keywords. contains_text k (str_lower x)))"
    unfolding contains_keyword_iff [OF keywords_ok(1)] contains_keyword_iff [OF keywords_ok(2)]
    by (cases risk) fastforce+
  have listed: "set thesis_keywords \<union> set breach_keywords = {''thesis'', ''invalidate'', ''fraud'', ''accounting'', ''guidance_cut'',
      ''earnings_miss'', ''governance'', ''breach'', ''stop_loss'', ''drawdown'', ''mae'', ''adverse'', ''concent'', ''expos'', ''over''}"
    by code_simp
  have "reason_to_leave tc (last_entry_edge s) current_edge risk events \<longleftrightarrow>
      edge_collapse current_edge (last_entry_edge s) \<or> (\<exists>e \<in> set events. event_supports_exit tc e)
      \<or> contains_keyword ?texts thesis_keywords \<or> contains_keyword ?texts breach_keywords"
    unfolding words reason_to_leave_def edge event_supports_exit_def fresh_novelty_def metadata_flag_def listed disj_assoc
    by (rule refl)
  then show ?thesis
    unfolding evaluate_symbol_state_sell_hysteresis_def Let_def by (auto split: option.split)
qed

text \<open>C25. A buy is held back exactly when an order of the symbol is under way, or the cooldown after
  leaving the position still runs and the situation has not changed: another signal snapshot, an
  edge that beats the one at the exit by ten basis points (or any edge when none was recorded) and
  a fresh supporting event since the exit are all needed to buy back early.
\<close>

theorem buy_blocked_iff:
  "rt_blocked (evaluate_symbol_state_buy_hysteresis tc clock s current_id now current_edge events details) \<longleftrightarrow>
     ts_state s \<in> pending_symbol_states
     \<or> buy_waits tc s now \<and> \<not> situation_changed tc clock s current_id current_edge events"
proof -
  define last_id where "last_id = map_option (tc_uuid tc) (ts_last_signal_feature_snapshot_id s)"
  define changed where "changed = (current_id \<noteq> None \<and> last_id \<noteq> None \<and> current_id \<noteq> last_id)"
  define edge where "edge = ((case (current_edge, last_exit_edge s) of
      (Some c, Some l) \<Rightarrow> dadd l reentry_edge_improvement_bps \<le> c | _ \<Rightarrow> False)
      \<or> current_edge \<noteq> None \<and> last_exit_edge s = None)"
  define novelty where "novelty = fst (compute_event_novelty_passed tc clock events
      (or_else (\<lambda>_. False) (ts_last_exit_at s) (ts_last_reduce_at s)))"
  have "situation_changed tc clock s current_id current_edge events \<longleftrightarrow> changed \<and> edge \<and> novelty"
    unfolding situation_changed_def changed_def edge_def novelty_def novelty_passed_iff last_id_def
    by (auto split: option.splits)
  moreover have "rt_blocked (evaluate_symbol_state_buy_hysteresis tc clock s current_id now current_edge events details) \<longleftrightarrow>
     ts_state s \<in> pending_symbol_states \<or> buy_waits tc s now \<and> \<not> (changed \<and> edge \<and> novelty)"
    unfolding evaluate_symbol_state_buy_hysteresis_def Let_def changed_def edge_def novelty_def last_id_def
      buy_waits_def gate_block_def gate_pass_def case_prod_beta
    by (simp split del: if_split) (simp split: if_split)
  ultimately show ?thesis by simp
qed

section \<open>The cooldown from the decision to the next buy\<close>

definition ex_decision :: trade_decision where
  "ex_decision = \<lparr>td_trade_decision_id = 80, td_decision_context_id = 81, td_decision_type = D_EXIT,
     td_side = SELL, td_symbol = ''005930'', td_market = ''KRX'', td_created_at = 60,
     td_quantity = None, td_max_order_value = None, td_reason_codes = None, td_source_type = Some ''core'',
     td_decision_json = []\<rparr>"

definition ex_decision_context :: decision_context where
  "ex_decision_context = \<lparr>dc_decision_context_id = 81, dc_account_id = 1,
     dc_signal_feature_snapshot_id = Some 8\<rparr>"

definition ex_assembled :: assembled_context where
  "ex_assembled = \<lparr>ax_decision_context = Some ex_decision_context, ax_source_type = ''core'',
     ax_position_snapshot = None, ax_signal_feature_snapshot_id = None\<rparr>"

lemma ex_decision_policy:
  "decision_policy_payload ex_codec ex_decision ex_assembled ex_decision_context None =
   serialize_holding_profile_policy ex_codec
     (derive_holding_profile_policy ex_codec ''core'' ''exit'' (Some ''sell'') None None None
        (Some (tc_uuid ex_codec 8)) None 60)"
  by (simp add: decision_policy_payload_def ex_decision_def ex_assembled_def ex_decision_context_def)

lemma ex_leaves_position: "leaves_position ''core'' ''exit'' (Some ''sell'')"
  by (simp add: leaves_position_def normalize_side_def str_strip_def str_lower_def char_lower_def is_space_char_def)

lemma ex_sells_timed:
  "order_list (lg_repos (sg_ledger ex_two_sells)) (any_order\<lparr>oq_account_id := Some 1, oq_limit := 1000\<rparr>)
   = Inr [ex_sell 3 SUBMITTED 3, ex_sell 4 PARTIALLY_FILLED 5]"
  "\<forall>x \<in> set [ex_sell 3 SUBMITTED 3, ex_sell 4 PARTIALLY_FILLED 5]. order_time x \<noteq> None"
  by (simp_all add: guard_eval ex_guard_defs order_time_def)

lemma persist_keyed:
  "keyed trade_key items \<Longrightarrow>
   keyed trade_key (persist_symbol_trade_state_from_decision tc new_id d ctx ins composer items)"
  by (simp add: persist_symbol_trade_state_from_decision_def trade_state_upsert_def keyed_update Let_def
      split: option.split)

lemma reentry_of_policy:
  assumes "codec_ok tc" "payload = serialize_holding_profile_policy tc p"
    and "policy_dict (ts_metadata_json s) = policy_dict (decision_metadata tc d payload metadata)"
    and "ts_reentry_cooldown_until s = hp_reentry_cooldown_until p"
    and "hp_earliest_reentry_at p = hp_reentry_cooldown_until p"
  shows "earliest_reentry_at tc s = hp_reentry_cooldown_until p"
proof -
  have "map_of (policy_payload s) k = map_of payload k"
    if "k \<in> {''earliest_reentry_at'', ''reentry_cooldown_until''}" for k
    unfolding policy_payload_dict assms(3) using that by (intro decision_metadata_policy) auto
  then show ?thesis
    using serialized_times(3,4) [OF assms(1,2)] assms(4,5)
    by (simp add: earliest_reentry_at_def resolve_policy_timestamp_def split: option.split)
qed

text \<open>C15. The cooldown of a sale holds through the reconciliation: when a decision to leave a position
  was persisted at time \<open>t\<close> and the account's states were then reconciled with positions and orders,
  a buy on the same signal snapshot is held back until twenty minutes after \<open>t\<close>, whatever edge and
  whatever events it shows, and whatever the positions and orders were.
\<close>

theorem sale_cooldown_survives_reconciliation:
  assumes "codec_ok tc" "keyed trade_key items" "ax_decision_context ctx = Some dc"
    and policy: "decision_policy_payload tc d ctx dc composer =
      serialize_holding_profile_policy tc
        (derive_holding_profile_policy tc source_type decision_type side h q m sid codes t)"
    and "leaves_position source_type decision_type side"
    and run: "reconcile_account_symbol_trade_states tc now w (dc_account_id dc)
      (persist_symbol_trade_state_from_decision tc new_id d ctx (Some ins) composer items) = (Inr n, items')"
    and "now' < t + default_reentry_cooldown"
    and "current_id = map_option (tc_uuid tc) (dc_signal_feature_snapshot_id dc)"
  shows "\<exists>s. trade_state_get items' (dc_account_id dc) (in_instrument_id ins) = Some s
    \<and> rt_blocked (evaluate_symbol_state_buy_hysteresis tc clock s current_id now' edge events details)"
proof -
  define p where "p = derive_holding_profile_policy tc source_type decision_type side h q m sid codes t"
  let ?stored = "persist_symbol_trade_state_from_decision tc new_id d ctx (Some ins) composer items"
  have keyed: "keyed trade_key ?stored" by (rule persist_keyed [OF assms(2)])
  obtain s metadata where s: "trade_state_get ?stored (dc_account_id dc) (in_instrument_id ins) = Some s"
    "trade_key s = (dc_account_id dc, in_instrument_id ins)"
    "ts_reentry_cooldown_until s = hp_reentry_cooldown_until p"
    "ts_last_signal_feature_snapshot_id s = dc_signal_feature_snapshot_id dc"
    "ts_metadata_json s = decision_metadata tc d (serialize_holding_profile_policy tc p) metadata"
    using persisted_state [OF assms(3) refl, where tc = tc and d = d and composer = composer and new_id = new_id and ins = ins and items = items]
    by (metis policy p_def serialized_times(4) [OF assms(1) refl])
  have times: "hp_earliest_reentry_at p = Some (t + default_reentry_cooldown)"
    "hp_reentry_cooldown_until p = Some (t + default_reentry_cooldown)"
    using policy_times(1) [OF p_def assms(5)] by simp_all
  obtain orders where "states_resolved tc now (position_list_latest_by_account w (dc_account_id dc)) orders
       (trade_states_of_account ?stored (dc_account_id dc)) ?stored items'"
    using run keyed by (rule reconcile_account_resolved)
  moreover have "s \<in> set (trade_states_of_account ?stored (dc_account_id dc))"
    using s(1,2) by (simp add: account_states_keys [OF keyed] trade_state_get_def)
  ultimately obtain r where r: "map_of items' (trade_key s) = Some (after_resolution tc now r s)"
    unfolding states_resolved_def by blast
  let ?s' = "after_resolution tc now r s"
  have "earliest_reentry_at tc ?s' = hp_reentry_cooldown_until p"
    by (rule reentry_of_policy [OF assms(1) refl, where metadata = metadata]) (use s times in simp_all)
  then have "buy_waits tc ?s' now'" using times assms(7) by (simp add: buy_waits_def)
  moreover have "\<not> situation_changed tc clock ?s' current_id edge events"
    using assms(8) s(4) by (auto simp: situation_changed_def)
  ultimately show ?thesis
    using r s(2) by (auto simp: trade_state_get_def buy_blocked_iff)
qed

theorem sale_cooldown_survives_reconciliation_witness:
  "\<exists>n items' s. reconcile_account_symbol_trade_states ex_codec 100 ex_two_sells 1
       (persist_symbol_trade_state_from_decision ex_codec 90 ex_decision ex_assembled (Some ex_instrument)
          None ex_trade_store) = (Inr n, items')
    \<and> trade_state_get items' 1 2 = Some s
    \<and> rt_blocked (evaluate_symbol_state_buy_hysteresis ex_codec 200 s (Some (tc_uuid ex_codec 8))
        1000000000 (Some 50) [] [])"
proof -
  obtain n items' where run: "reconcile_account_symbol_trade_states ex_codec 100 ex_two_sells 1
       (persist_symbol_trade_state_from_decision ex_codec 90 ex_decision ex_assembled (Some ex_instrument)
          None ex_trade_store) = (Inr n, items')"
    using ex_sells_timed by (rule reconcile_account_completes)
  have dc: "ax_decision_context ex_assembled = Some ex_decision_context"
    "dc_account_id ex_decision_context = 1" "in_instrument_id ex_instrument = 2"
    "Some (tc_uuid ex_codec 8) = map_option (tc_uuid ex_codec) (dc_signal_feature_snapshot_id ex_decision_context)"
    by (simp_all add: ex_assembled_def ex_decision_context_def ex_instrument_def)
  have soon: "1000000000 < 60 + default_reentry_cooldown"
    by (simp add: default_reentry_cooldown_def minutes_def)
  show ?thesis
    using sale_cooldown_survives_reconciliation [OF ex_codec_ok ex_trade_keyed dc(1) ex_decision_policy
        ex_leaves_position run [folded dc(2)] soon dc(4)] run dc(2,3)
    by auto
qed


text \<open>
  Every decision overwrites the policy: a decision that does not leave a position, a mere watch
  included, ends a cooldown that still runs.
\<close>

theorem next_decision_ends_cooldown:
  assumes "codec_ok tc" "ax_decision_context ctx = Some dc"
    and policy: "decision_policy_payload tc d ctx dc composer =
      serialize_holding_profile_policy tc
        (derive_holding_profile_policy tc source_type decision_type side h q m sid codes t)"
    and "\<not> leaves_position source_type decision_type side"
  shows "\<exists>s. trade_state_get (persist_symbol_trade_state_from_decision tc new_id d ctx (Some ins) composer items)
       (dc_account_id dc) (in_instrument_id ins) = Some s
    \<and> (\<forall>now. \<not> buy_waits tc s now)"
proof -
  define p where "p = derive_holding_profile_policy tc source_type decision_type side h q m sid codes t"
  let ?stored = "persist_symbol_trade_state_from_decision tc new_id d ctx (Some ins) composer items"
  obtain s metadata where s: "trade_state_get ?stored (dc_account_id dc) (in_instrument_id ins) = Some s"
    "ts_reentry_cooldown_until s = hp_reentry_cooldown_until p"
    "ts_metadata_json s = decision_metadata tc d (serialize_holding_profile_policy tc p) metadata"
    using persisted_state [OF assms(2) refl, where tc = tc and d = d and composer = composer and new_id = new_id and ins = ins and items = items]
    by (metis policy p_def serialized_times(4) [OF assms(1) refl])
  have times: "hp_earliest_reentry_at p = None" "hp_reentry_cooldown_until p = None"
    using policy_times(2) [OF p_def assms(4)] by simp_all
  have "earliest_reentry_at tc s = hp_reentry_cooldown_until p"
    by (rule reentry_of_policy [OF assms(1) refl, where metadata = metadata]) (use s times in simp_all)
  with s times show ?thesis by (auto simp: buy_waits_def)
qed

section \<open>The holding time from the decision to the next sale\<close>

text \<open>How long a new position is held, by the source of the decision.\<close>

definition minimum_hold_of :: "string \<Rightarrow> string option \<Rightarrow> py_decimal option \<Rightarrow> int" where
  "minimum_hold_of source_type time_horizon quantity =
     (let source = str_lower (str_strip (if source_type = [] then ''core'' else source_type))
      in if source = ''core'' then 120 * 60 * 1000000
         else if source = ''event_overlay''
         then (if normalize_horizon time_horizon = Some ''short'' \<or> map_option dec_value quantity = Some 1
               then 15 * 60 * 1000000 else 90 * 60 * 1000000)
         else 30 * 60 * 1000000)"

lemma policy_hold:
  assumes "\<not> leaves_position source_type decision_type side"
    and "p = derive_holding_profile_policy tc source_type decision_type side h q m sid codes t"
  shows "hp_minimum_hold_until p = Some (t + minimum_hold_of source_type h q)"
    "hp_earliest_reduce_at p = Some (t + minimum_hold_of source_type h q)"
proof -
  note defs = derive_holding_profile_policy_def leaves_position_def holding_profile_of_def minimum_hold_of_def
    event_probe_min_hold_def event_swing_min_hold_def core_swing_min_hold_def position_trade_min_hold_def minutes_def
  show "hp_minimum_hold_until p = Some (t + minimum_hold_of source_type h q)"
    using assms unfolding defs Let_def by (auto split: if_splits)
  show "hp_earliest_reduce_at p = Some (t + minimum_hold_of source_type h q)"
    using assms unfolding defs Let_def by (auto split: if_splits)
qed

lemma reduce_of_policy:
  assumes "codec_ok tc" "payload = serialize_holding_profile_policy tc p"
    and "policy_dict (ts_metadata_json s) = policy_dict (decision_metadata tc d payload metadata)"
    and "hp_earliest_reduce_at p = Some u"
  shows "earliest_reduce_at tc s = Some u"
proof -
  have "map_of (policy_payload s) ''earliest_reduce_at'' = map_of payload ''earliest_reduce_at''"
    unfolding policy_payload_dict assms(3) by (intro decision_metadata_policy) auto
  then show ?thesis
    using serialized_times(2) [OF assms(1,2)] assms(4) by (simp add: earliest_reduce_at_def resolve_policy_timestamp_def)
qed

text \<open>The edge at the entry is kept in the policy and in the metadata.\<close>

lemma entry_edge_recorded:
  assumes "is_entry_decision d" "map_of (td_decision_json d) ''expected_value_gate'' = Some (JvObj g)"
    "map_of g ''edge_after_cost_bps'' = Some v"
  shows "map_of (policy_dict (decision_metadata tc d payload metadata)) ''last_entry_edge_after_cost_bps'' = Some v"
    "map_of (decision_metadata tc d payload metadata) ''last_entry_edge_after_cost_bps'' = Some v"
  using assms
  by (simp_all add: decision_metadata_def policy_dict_def update_conv' Let_def split: option.split jval.split)

lemma same_or_chain: "jv_or_chain [Some v, Some v] = Some v"
  by simp

text \<open>C26. A new position is held: when a decision to buy was persisted at time \<open>t\<close> with an edge after costs
  and the account's states were then reconciled with positions and orders, whatever these were, the sell
  guard holds back a sale of the instrument exactly until the minimum holding time of the decision's source is
  over (two hours for core decisions, ninety or fifteen minutes for event decisions, half an hour
  otherwise) unless there is a reason to leave, measured against the edge recorded at the entry.\<close>

theorem new_position_is_held:
  assumes "codec_ok tc" "keyed trade_key items" "ax_decision_context ctx = Some dc"
    and entry: "td_side d = BUY" "td_decision_type d \<in> {D_APPROVE, D_BUY}"
    and policy: "decision_policy_payload tc d ctx dc composer =
      serialize_holding_profile_policy tc
        (derive_holding_profile_policy tc source_type decision_type side h q m sid codes t)"
    and "\<not> leaves_position source_type decision_type side"
    and edge: "map_of (td_decision_json d) ''expected_value_gate'' = Some (JvObj g)"
      "map_of g ''edge_after_cost_bps'' = Some v" "hysteresis_decimal_or_none (Some v) = Some entry_edge"
    and run: "reconcile_account_symbol_trade_states tc now w (dc_account_id dc)
      (persist_symbol_trade_state_from_decision tc new_id d ctx (Some ins) composer items) = (Inr n, items')"
  shows "\<exists>s. trade_state_get items' (dc_account_id dc) (in_instrument_id ins) = Some s
    \<and> (\<forall>now' current_edge risk events details.
         xh_blocked (evaluate_symbol_state_sell_hysteresis tc s current_edge risk events now' details) \<longleftrightarrow>
           now' < t + minimum_hold_of source_type h q \<and> \<not> reason_to_leave tc (Some entry_edge) current_edge risk events)"
proof -
  define p where "p = derive_holding_profile_policy tc source_type decision_type side h q m sid codes t"
  let ?stored = "persist_symbol_trade_state_from_decision tc new_id d ctx (Some ins) composer items"
  have keyed: "keyed trade_key ?stored" by (rule persist_keyed [OF assms(2)])
  have policy': "decision_policy_payload tc d ctx dc composer = serialize_holding_profile_policy tc p"
    unfolding p_def by (rule policy)
  obtain s metadata where s: "trade_state_get ?stored (dc_account_id dc) (in_instrument_id ins) = Some s"
    "trade_key s = (dc_account_id dc, in_instrument_id ins)"
    "ts_metadata_json s = decision_metadata tc d (serialize_holding_profile_policy tc p) metadata"
    using persisted_state [OF assms(3) policy' [symmetric], where new_id = new_id and ins = ins and items = items]
    by metis
  obtain orders where "states_resolved tc now (position_list_latest_by_account w (dc_account_id dc)) orders
       (trade_states_of_account ?stored (dc_account_id dc)) ?stored items'"
    using run keyed by (rule reconcile_account_resolved)
  moreover have "s \<in> set (trade_states_of_account ?stored (dc_account_id dc))"
    using s(1,2) by (simp add: account_states_keys [OF keyed] trade_state_get_def)
  ultimately obtain r where r: "map_of items' (trade_key s) = Some (after_resolution tc now r s)"
    unfolding states_resolved_def by blast
  let ?s' = "after_resolution tc now r s"
  have hold: "earliest_reduce_at tc ?s' = Some (t + minimum_hold_of source_type h q)"
    by (rule reduce_of_policy [OF assms(1) refl, where metadata = metadata])
      (use s policy_hold(2) [OF assms(7) p_def] in simp_all)
  have "is_entry_decision d" using entry by (simp add: is_entry_decision_def)
  note recorded = entry_edge_recorded [OF this edge(1,2)]
  have m: "map_of (ts_metadata_json ?s') ''last_entry_edge_after_cost_bps'' = Some v"
    using recorded(2) by (simp add: s(3) after_resolution_def reconciled_state_def update_conv')
  have "map_of (policy_payload ?s') ''last_entry_edge_after_cost_bps'' = Some v"
    using recorded(1) by (simp add: policy_payload_dict s(3))
  with m have last: "last_entry_edge ?s' = Some entry_edge"
    using edge(3) unfolding last_entry_edge_def by (simp only: same_or_chain)
  have "trade_state_get items' (dc_account_id dc) (in_instrument_id ins) = Some ?s'"
    using r s(2) by (simp add: trade_state_get_def)
  then show ?thesis unfolding early_sell_blocked using last hold by (intro exI conjI allI) auto
qed

definition ex_entry :: trade_decision where
  "ex_entry = ex_decision\<lparr>td_decision_type := D_BUY, td_side := BUY,
     td_decision_json := [(''expected_value_gate'', JvObj [(''edge_after_cost_bps'', JvInt 40)])]\<rparr>"

lemma ex_entry_policy:
  "decision_policy_payload ex_codec ex_entry ex_assembled ex_decision_context None =
   serialize_holding_profile_policy ex_codec
     (derive_holding_profile_policy ex_codec ''core'' ''buy'' (Some ''buy'') None None None
        (Some (tc_uuid ex_codec 8)) None 60)"
  by (simp add: decision_policy_payload_def ex_entry_def ex_decision_def ex_assembled_def ex_decision_context_def)

theorem new_position_is_held_witness:
  "\<exists>n items' s. reconcile_account_symbol_trade_states ex_codec 100 ex_two_sells 1
       (persist_symbol_trade_state_from_decision ex_codec 90 ex_entry ex_assembled (Some ex_instrument)
          None ex_trade_store) = (Inr n, items')
    \<and> trade_state_get items' 1 2 = Some s
    \<and> xh_blocked (evaluate_symbol_state_sell_hysteresis ex_codec s (Some 30) (Some ([''liquidity''], [])) [] 7200000000 [])
    \<and> \<not> xh_blocked (evaluate_symbol_state_sell_hysteresis ex_codec s (Some 25) (Some ([''liquidity''], [])) [] 7200000000 [])
    \<and> \<not> xh_blocked (evaluate_symbol_state_sell_hysteresis ex_codec s (Some 30) (Some ([''liquidity''], [])) [] 7200000060 [])
    \<and> \<not> xh_blocked (evaluate_symbol_state_sell_hysteresis ex_codec s (Some 30) (Some ([], [''Stop_Loss hit''])) [] 7200000000 [])"
proof -
  obtain n items' where run: "reconcile_account_symbol_trade_states ex_codec 100 ex_two_sells 1
       (persist_symbol_trade_state_from_decision ex_codec 90 ex_entry ex_assembled (Some ex_instrument)
          None ex_trade_store) = (Inr n, items')"
    using ex_sells_timed by (rule reconcile_account_completes)
  have dc: "ax_decision_context ex_assembled = Some ex_decision_context"
    "dc_account_id ex_decision_context = 1" "in_instrument_id ex_instrument = 2"
    by (simp_all add: ex_assembled_def ex_decision_context_def ex_instrument_def)
  have e: "td_side ex_entry = BUY" "td_decision_type ex_entry \<in> {D_APPROVE, D_BUY}"
    "map_of (td_decision_json ex_entry) ''expected_value_gate'' = Some (JvObj [(''edge_after_cost_bps'', JvInt 40)])"
    "map_of [(''edge_after_cost_bps'', JvInt 40)] ''edge_after_cost_bps'' = Some (JvInt 40)"
    by (simp_all add: ex_entry_def)
  have v: "hysteresis_decimal_or_none (Some (JvInt 40)) = Some 40" by code_simp
  have l: "\<not> leaves_position ''core'' ''buy'' (Some ''buy'')" by code_simp
  have h: "60 + minimum_hold_of ''core'' None None = 7200000060" by code_simp
  have d: "dsub 40 15 = 25" by code_simp
  have none: "\<forall>k \<in> {''thesis'', ''invalidate'', ''fraud'', ''accounting'', ''guidance_cut'', ''earnings_miss'', ''governance'',
      ''breach'', ''stop_loss'', ''drawdown'', ''mae'', ''adverse'', ''concent'', ''expos'', ''over''}.
      \<not> contains_text k (str_lower ''liquidity'')" by code_simp
  have hit: "contains_text ''stop_loss'' (str_lower ''Stop_Loss hit'')" by code_simp
  have r: "\<not> reason_to_leave ex_codec (Some 40) (Some 30) (Some ([''liquidity''], [])) []"
    "reason_to_leave ex_codec (Some 40) (Some 25) (Some ([''liquidity''], [])) []"
    "reason_to_leave ex_codec (Some 40) (Some 30) (Some ([], [''Stop_Loss hit''])) []"
    using none hit by (simp_all add: reason_to_leave_def d)
  from new_position_is_held [OF ex_codec_ok ex_trade_keyed dc(1) e(1,2) ex_entry_policy l e(3,4) v run [folded dc(2)]]
  show ?thesis using run r dc(2,3) unfolding h by auto
qed

end
