(* ===== verification/Order_Sync_Fills.thy ===== *)
theory Order_Sync_Fills
  imports Order_Manager Sell_Guard Incremental_Fill Fee_Policy
begin

text \<open>
  The repositories behind the order synchronisation and its fill pipeline
  (\<^verbatim>\<open>services/order_sync_service.py\<close>, \<open>_sync_fills\<close>): the broker reports cumulative quantities, the
  resolver turns them into increments, an increment that is not known yet is charged with fee and
  tax, stored as a fill event and handed to the realized profit ledger.

  Answers of the broker are arguments: \<open>Inl\<close> is an exception of the call.
\<close>

section \<open>Repositories\<close>

record fill_report =
  fv_broker_name :: broker_name
  fv_broker_order_id :: string
  fv_symbol :: string
  fv_side :: order_side
  fv_fill_quantity :: rat
  fv_fill_price :: rat
  fv_fill_timestamp :: timestamp
  fv_broker_fill_id :: "string option"
  fv_fee :: "rat option"
  fv_tax :: "rat option"

text \<open>Of a fill snapshot, the fields that the synchronisation reads; dates count days.\<close>

record broker_fill_snapshot =
  bs_broker_fill_snapshot_id :: uuid
  bs_order_request_id :: "uuid option"
  bs_order_date :: int
  bs_filled_quantity :: rat
  bs_broker_fill_id :: "string option"
  bs_fill_timestamp :: "timestamp option"
  bs_created_at :: "timestamp option"

record sync_world =
  sy_repos :: sell_repos
  sy_reconciliation_service :: bool
  sy_budget_manager :: "budget_manager option"
  sy_cumulative :: fill_state_store
  sy_configs :: config_store
  sy_fill_snapshots :: "(uuid \<times> broker_fill_snapshot) list"
  sy_broker_accounts :: "(uuid \<times> string) list"
  sy_last_kis_inquiry_at :: "(uuid \<times> timestamp) list"
  sy_kis_inquiry_seen :: "uuid list"
  sy_append_enabled :: bool

abbreviation sy_ledger :: "sync_world \<Rightarrow> ledger" where "sy_ledger w \<equiv> sg_ledger (sy_repos w)"
abbreviation sy_base :: "sync_world \<Rightarrow> repos" where "sy_base w \<equiv> lg_repos (sy_ledger w)"

definition put_ledger :: "ledger \<Rightarrow> sync_world \<Rightarrow> sync_world" where
  "put_ledger lg w = w\<lparr>sy_repos := (sy_repos w)\<lparr>sg_ledger := lg\<rparr>\<rparr>"

definition put_base :: "repos \<Rightarrow> sync_world \<Rightarrow> sync_world" where
  "put_base r w = put_ledger ((sy_ledger w)\<lparr>lg_repos := r\<rparr>) w"

text \<open>The order manager works on the same repositories.\<close>

definition manager_of :: "sync_world \<Rightarrow> order_manager" where
  "manager_of w = \<lparr>om_repos = sy_base w, om_reconciliation_service = sy_reconciliation_service w,
     om_budget_manager = sy_budget_manager w\<rparr>"

definition put_manager :: "order_manager \<Rightarrow> sync_world \<Rightarrow> sync_world" where
  "put_manager m w = (put_base (om_repos m) w)\<lparr>sy_budget_manager := om_budget_manager m\<rparr>"

definition broker_order_update ::
  "uuid \<Rightarrow> string option \<Rightarrow> timestamp option \<Rightarrow> timestamp option \<Rightarrow> repos \<Rightarrow> (order_error + unit) \<times> repos" where
  "broker_order_update broker_order_id broker_status last_synced_at updated_at r =
     (case map_of (rp_broker_orders r) broker_order_id of
        None \<Rightarrow> (Inl (Value_Error ''BrokerOrder not found''), r)
      | Some item \<Rightarrow>
          (Inr (), r\<lparr>rp_broker_orders := AList.update broker_order_id
             (item\<lparr>bo_broker_status := (case broker_status of Some s \<Rightarrow> s | None \<Rightarrow> bo_broker_status item),
                   bo_last_synced_at := (case last_synced_at of Some t \<Rightarrow> Some t | None \<Rightarrow> bo_last_synced_at item),
                   bo_updated_at := (case updated_at of Some t \<Rightarrow> Some t | None \<Rightarrow> bo_updated_at item)\<rparr>)
             (rp_broker_orders r)\<rparr>))"

definition position_latest_before :: "sell_repos \<Rightarrow> uuid \<Rightarrow> uuid \<Rightarrow> timestamp \<Rightarrow> position_snapshot option" where
  "position_latest_before w account_id instrument_id before =
     (case sort_key (\<lambda>item. - ps_snapshot_at item)
             (filter (\<lambda>item. ps_account_id item = account_id \<and> ps_instrument_id item = instrument_id
                             \<and> ps_snapshot_at item < before) (map snd (sg_position_snapshots w))) of
        [] \<Rightarrow> None
      | item # _ \<Rightarrow> Some item)"

definition position_earliest_after :: "sell_repos \<Rightarrow> uuid \<Rightarrow> uuid \<Rightarrow> timestamp \<Rightarrow> position_snapshot option" where
  "position_earliest_after w account_id instrument_id after =
     (case sort_key ps_snapshot_at
             (filter (\<lambda>item. ps_account_id item = account_id \<and> ps_instrument_id item = instrument_id
                             \<and> after < ps_snapshot_at item) (map snd (sg_position_snapshots w))) of
        [] \<Rightarrow> None
      | item # _ \<Rightarrow> Some item)"

text \<open>Newest first; a missing time counts as the earliest one.\<close>

definition late_first :: "timestamp option \<Rightarrow> int \<times> int" where
  "late_first t = (case t of None \<Rightarrow> (1, 0) | Some x \<Rightarrow> (0, - x))"

definition list_recent_fill_snapshots ::
  "(uuid \<times> broker_fill_snapshot) list \<Rightarrow> nat \<Rightarrow> uuid option \<Rightarrow> broker_fill_snapshot list" where
  "list_recent_fill_snapshots items limit order_request_id =
     take limit
       (sort_key (\<lambda>item. (- bs_order_date item, late_first (bs_fill_timestamp item), late_first (bs_created_at item)))
         (filter (\<lambda>item. case order_request_id of None \<Rightarrow> True | Some i \<Rightarrow> bs_order_request_id item = Some i)
           (map snd items)))"

section \<open>From cumulative reports to fills\<close>

datatype sync_error = Order_Failure order_error | Fee_Failure fee_error

text \<open>
  One report: nothing is a candidate unless the cumulative quantity grew; the observed state is
  stored in any case but an anomaly.  The counters of the summary line are the number of reports
  without a new fill.
\<close>

definition observation_of :: "env \<Rightarrow> fill_report \<Rightarrow> fill_observation" where
  "observation_of ev r =
     \<lparr>ob_cumulative_quantity = fv_fill_quantity r, ob_average_price = Some (fv_fill_price r),
      ob_fingerprint = None, ob_observed_at = None, ob_clock = now_at ev ''observed'',
      ob_fresh = uuid_at ev ''state''\<rparr>"

fun interpret_reports ::
  "env \<Rightarrow> nat \<Rightarrow> bool \<Rightarrow> fill_key option \<Rightarrow> fill_report list \<Rightarrow> fill_state_store
   \<Rightarrow> fill_report list \<times> nat \<times> fill_state_store" where
  "interpret_reports ev i append_enabled key [] s = ([], 0, s)"
| "interpret_reports ev i append_enabled key (r # rs) s =
     (case key of
        None \<Rightarrow> interpret_reports ev (Suc i) append_enabled key rs s
      | Some k \<Rightarrow>
          (let (decision, s) = resolve_incremental_fill k (observation_of (inside ''report'' i ev) r) s;
               (fills, unchanged, s) = interpret_reports ev (Suc i) append_enabled key rs s
           in case fd_kind decision of
                NO_NEW_FILL \<Rightarrow> (fills, Suc unchanged, s)
              | ANOMALY \<Rightarrow> (fills, unchanged, s)
              | NEW_FILL \<Rightarrow>
                  if \<not> append_enabled then (fills, unchanged, s)
                  else (r\<lparr>fv_fill_quantity := the (fd_delta_quantity decision),
                          fv_fill_price := the (fd_inferred_price decision)\<rparr> # fills, unchanged, s)))"

section \<open>Storing fills\<close>

type_synonym fill_composite = "uuid \<times> timestamp \<times> rat \<times> rat"

definition known_fill :: "uuid \<Rightarrow> string list \<Rightarrow> fill_composite list \<Rightarrow> fill_report \<Rightarrow> bool" where
  "known_fill broker_order_id by_fill_id composite fill \<longleftrightarrow>
     (case or_else (\<lambda>s. s = []) (fv_broker_fill_id fill) None of
        Some i \<Rightarrow> i \<in> set by_fill_id
      | None \<Rightarrow> (broker_order_id, fv_fill_timestamp fill, fv_fill_price fill, fv_fill_quantity fill) \<in> set composite)"

definition fill_charge ::
  "config_store \<Rightarrow> account option \<Rightarrow> instrument option \<Rightarrow> order_side \<Rightarrow> fill_report
   \<Rightarrow> fee_error + (rat option \<times> rat option \<times> string option)" where
  "fill_charge configs account instrument side fill =
     (if fv_fee fill \<noteq> None \<or> fv_tax fill \<noteq> None then Inr (fv_fee fill, fv_tax fill, None)
      else case (account, instrument) of
             (Some a, Some i) \<Rightarrow>
               res_bind (compute_fee_tax configs (ac_client_id a) (ac_environment a) (in_asset_class i)
                           (in_market_segment i) side (fv_fill_price fill) (fv_fill_quantity fill)
                           (fv_fill_timestamp fill)) (\<lambda>r.
               Inr (Some (fr_fee r), Some (fr_tax r), Some (fee_tax_source_value (fr_fee_tax_source r))))
           | _ \<Rightarrow> Inr (None, None, None))"

definition stored_fill ::
  "uuid \<Rightarrow> uuid \<Rightarrow> fill_report \<Rightarrow> rat option \<times> rat option \<times> string option \<Rightarrow> fill_event" where
  "stored_fill fill_event_id broker_order_id fill charge =
     \<lparr>fe_fill_event_id = fill_event_id, fe_broker_order_id = broker_order_id,
      fe_fill_timestamp = fv_fill_timestamp fill, fe_fill_price = fv_fill_price fill,
      fe_fill_quantity = fv_fill_quantity fill, fe_source_channel = ''rest_poll'',
      fe_broker_fill_id = or_else (\<lambda>s. s = []) (fv_broker_fill_id fill) None,
      fe_fill_fee = fst charge, fe_fill_tax = fst (snd charge), fe_fee_tax_source = snd (snd charge),
      fe_raw_payload_uri = None, fe_created_at = None\<rparr>"

text \<open>
  The loop over the candidates.  A fee that cannot be computed raises and leaves the rest of the
  candidates behind; the ledger hook keeps what the ledger stored, also when it raised.
\<close>

fun store_fills ::
  "(uuid \<Rightarrow> uuid \<Rightarrow> uuid) \<Rightarrow> env \<Rightarrow> nat \<Rightarrow> config_store \<Rightarrow> uuid \<Rightarrow> account option \<Rightarrow> instrument option
   \<Rightarrow> order_side \<Rightarrow> fill_report list \<Rightarrow> string list \<Rightarrow> fill_composite list \<Rightarrow> nat \<Rightarrow> nat \<Rightarrow> ledger
   \<Rightarrow> (sync_error + nat \<times> nat) \<times> ledger" where
  "store_fills uuid5 ev i configs bo account instrument side [] by_fill_id composite synced skipped lg =
     (Inr (synced, skipped), lg)"
| "store_fills uuid5 ev i configs bo account instrument side (fill # fills) by_fill_id composite synced skipped lg =
     (if known_fill bo by_fill_id composite fill
      then store_fills uuid5 ev (Suc i) configs bo account instrument side fills by_fill_id composite
             synced (Suc skipped) lg
      else case fill_charge configs account instrument side fill of
             Inl e \<Rightarrow> (Inl (Fee_Failure e), lg)
           | Inr charge \<Rightarrow>
               (let fe = inside ''fill'' i ev;
                    entity = stored_fill (uuid_at fe ''fill_event'') bo fill charge;
                    lg = fill_event_add entity lg;
                    (by_fill_id, composite) =
                      (case fe_broker_fill_id entity of
                         Some k \<Rightarrow> (k # by_fill_id, composite)
                       | None \<Rightarrow> (by_fill_id, (bo, fv_fill_timestamp fill, fv_fill_price fill, fv_fill_quantity fill) # composite));
                    lg = snd (apply_fill uuid5 (inside ''ledger'' 0 fe) entity lg)
                in store_fills uuid5 ev (Suc i) configs bo account instrument side fills by_fill_id composite
                     (Suc synced) skipped lg))"

definition known_fill_ids :: "fill_event list \<Rightarrow> string list" where
  "known_fill_ids fs = concat (map (\<lambda>f. case or_else (\<lambda>s. s = []) (fe_broker_fill_id f) None of
     Some i \<Rightarrow> [i] | None \<Rightarrow> []) fs)"

definition known_composites :: "fill_event list \<Rightarrow> fill_composite list" where
  "known_composites fs = concat (map (\<lambda>f. case or_else (\<lambda>s. s = []) (fe_broker_fill_id f) None of
     Some i \<Rightarrow> []
   | None \<Rightarrow> [(fe_broker_order_id f, fe_fill_timestamp f, fe_fill_price f, fe_fill_quantity f)]) fs)"

definition sync_fills ::
  "(uuid \<Rightarrow> uuid \<Rightarrow> uuid) \<Rightarrow> env \<Rightarrow> order_error + fill_report list \<Rightarrow> broker_order \<Rightarrow> uuid \<Rightarrow> uuid \<Rightarrow> order_side
   \<Rightarrow> sync_world \<Rightarrow> (sync_error + nat \<times> nat) \<times> sync_world" where
  "sync_fills uuid5 ev reported broker_order account_id instrument_id side w =
     (case reported of
        Inl _ \<Rightarrow> (Inr (0, 0), w)
      | Inr observations \<Rightarrow>
          if observations = [] then (Inr (0, 0), w)
          else
            (let key = map_option (\<lambda>n. (account_id, bo_broker_name broker_order, n))
                         (bo_broker_native_order_id broker_order);
                 (fills, unchanged, cumulative) =
                   interpret_reports ev 0 (sy_append_enabled w) key observations (sy_cumulative w);
                 w = w\<lparr>sy_cumulative := cumulative\<rparr>
             in if fills = [] then (Inr (0, unchanged), w)
                else
                  (let account = map_of (rp_accounts (sy_base w)) account_id;
                       instrument = map_of (rp_instruments (sy_base w)) instrument_id;
                       bo = bo_broker_order_id broker_order;
                       existing = fills_of_broker_order (sy_ledger w) bo;
                       (r, lg) = store_fills uuid5 ev 0 (sy_configs w) bo account instrument side fills
                                   (known_fill_ids existing) (known_composites existing) 0 0 (sy_ledger w)
                   in (res_bind r (\<lambda>(synced, skipped). Inr (synced, skipped + unchanged)), put_ledger lg w))))"

section \<open>What the ledger hook leaves alone\<close>

lemma apply_fill_frame [simp]:
  "lg_fill_events (snd (apply_fill uuid5 ev f lg)) = lg_fill_events lg"
  "lg_repos (snd (apply_fill uuid5 ev f lg)) = lg_repos lg"
  by (auto simp: apply_fill_def Let_def needs_recompute_def write_result_def event_add_def
      split: sum.splits option.splits prod.splits if_splits)

definition booked_shares :: "ledger \<Rightarrow> uuid \<Rightarrow> rat" where
  "booked_shares lg bo = sum_list (map fe_fill_quantity (fills_of_broker_order lg bo))"

lemma sum_list_sort_key [simp]: "sum_list (map f (sort_key g xs)) = (sum_list (map f xs) :: rat)"
proof -
  have "mset (map f (sort_key g xs)) = mset (map f xs)" by simp
  then show ?thesis by (metis sum_mset_sum_list)
qed

lemma booked_shares_frame [simp]: "booked_shares (snd (apply_fill uuid5 ev f lg)) bo = booked_shares lg bo"
  by (simp add: booked_shares_def fills_of_broker_order_def)

lemma fill_event_add_frame [simp]:
  "lg_repos (fill_event_add f lg) = lg_repos lg"
  "lg_fill_events (fill_event_add f lg) = AList.update (fe_fill_event_id f) f (lg_fill_events lg)"
  by (auto simp: fill_event_add_def Let_def split: option.split)

lemma booked_shares_add:
  assumes "fe_fill_event_id f \<notin> fst ` set (lg_fill_events lg)"
  shows "booked_shares (fill_event_add f lg) bo =
    booked_shares lg bo + (if fe_broker_order_id f = bo then fe_fill_quantity f else 0)"
  using assms by (simp add: booked_shares_def fills_of_broker_order_def update_new_key)

section \<open>The store loop\<close>

definition fill_id_at :: "env \<Rightarrow> nat \<Rightarrow> uuid" where
  "fill_id_at ev i = uuid_at (inside ''fill'' i ev) ''fill_event''"

text \<open>\<open>uuid4()\<close> does not repeat: the identifiers drawn in one call are new and all different.\<close>

definition fresh_fill_ids :: "env \<Rightarrow> nat \<Rightarrow> ledger \<Rightarrow> bool" where
  "fresh_fill_ids ev i lg \<longleftrightarrow> inj (fill_id_at ev) \<and> (\<forall>j\<ge>i. fill_id_at ev j \<notin> fst ` set (lg_fill_events lg))"

definition booked_fill :: "(uuid \<Rightarrow> uuid \<Rightarrow> uuid) \<Rightarrow> env \<Rightarrow> nat \<Rightarrow> uuid \<Rightarrow> fill_report
    \<Rightarrow> rat option \<times> rat option \<times> string option \<Rightarrow> ledger \<Rightarrow> ledger" where
  "booked_fill uuid5 ev i bo fill charge lg =
     (let entity = stored_fill (fill_id_at ev i) bo fill charge
      in snd (apply_fill uuid5 (inside ''ledger'' 0 (inside ''fill'' i ev)) entity (fill_event_add entity lg)))"

lemma stored_fill_simps [simp]:
  "fe_fill_event_id (stored_fill k bo fill c) = k" "fe_broker_order_id (stored_fill k bo fill c) = bo"
  "fe_fill_quantity (stored_fill k bo fill c) = fv_fill_quantity fill"
  "fe_broker_fill_id (stored_fill k bo fill c) = or_else (\<lambda>s. s = []) (fv_broker_fill_id fill) None"
  by (simp_all add: stored_fill_def)

lemma booked_fill_keeps:
  assumes "fresh_fill_ids ev i lg"
  shows "fresh_fill_ids ev (Suc i) (booked_fill uuid5 ev i bo fill c lg)"
    "lg_repos (booked_fill uuid5 ev i bo fill c lg) = lg_repos lg"
    "booked_shares (booked_fill uuid5 ev i bo fill c lg) b =
       booked_shares lg b + (if b = bo then fv_fill_quantity fill else 0)"
  using assms
  by (auto simp: fresh_fill_ids_def booked_fill_def Let_def booked_shares_add update_new_key inj_def)
    (metis Suc_n_not_le_n)+

lemma store_fills_Cons:
  "store_fills uuid5 ev i configs bo account instrument side (fill # fills) ids comps synced skipped lg =
     (if known_fill bo ids comps fill
      then store_fills uuid5 ev (Suc i) configs bo account instrument side fills ids comps synced (Suc skipped) lg
      else case fill_charge configs account instrument side fill of
             Inl e \<Rightarrow> (Inl (Fee_Failure e), lg)
           | Inr charge \<Rightarrow>
               (case or_else (\<lambda>s. s = []) (fv_broker_fill_id fill) None of
                  Some k \<Rightarrow> store_fills uuid5 ev (Suc i) configs bo account instrument side fills (k # ids) comps
                     (Suc synced) skipped (booked_fill uuid5 ev i bo fill charge lg)
                | None \<Rightarrow> store_fills uuid5 ev (Suc i) configs bo account instrument side fills ids
                     ((bo, fv_fill_timestamp fill, fv_fill_price fill, fv_fill_quantity fill) # comps)
                     (Suc synced) skipped (booked_fill uuid5 ev i bo fill charge lg)))"
  by (simp add: Let_def booked_fill_def fill_id_at_def split: sum.split option.split)

lemma fresh_fill_ids_Suc: "fresh_fill_ids ev i lg \<Longrightarrow> fresh_fill_ids ev (Suc i) lg"
  by (auto simp: fresh_fill_ids_def)

lemma store_fills_bounds:
  assumes "fresh_fill_ids ev i lg" "\<forall>f \<in> set fills. 0 \<le> fv_fill_quantity f"
    and "store_fills uuid5 ev i configs bo account instrument side fills ids comps synced skipped lg = (r, lg')"
  shows "booked_shares lg bo \<le> booked_shares lg' bo
    \<and> booked_shares lg' bo \<le> booked_shares lg bo + sum_list (map fv_fill_quantity fills)
    \<and> (\<forall>b. b \<noteq> bo \<longrightarrow> booked_shares lg' b = booked_shares lg b) \<and> lg_repos lg' = lg_repos lg"
  using assms
proof (induction fills arbitrary: i ids comps synced skipped lg)
  case (Cons f fills)
  have s: "0 \<le> sum_list (map fv_fill_quantity fills)"
    using Cons.prems(2) by (intro sum_list_nonneg) auto
  note IH = Cons.IH [where i = "Suc i"]
  consider (known) "known_fill bo ids comps f"
    | (fee) e where "\<not> known_fill bo ids comps f" "fill_charge configs account instrument side f = Inl e"
    | (new) c where "\<not> known_fill bo ids comps f" "fill_charge configs account instrument side f = Inr c"
    by (cases "fill_charge configs account instrument side f") auto
  then show ?case
  proof cases
    case known
    with Cons.prems(3) have "store_fills uuid5 ev (Suc i) configs bo account instrument side fills ids comps
        synced (Suc skipped) lg = (r, lg')" by simp
    from IH [OF fresh_fill_ids_Suc [OF Cons.prems(1)] _ this] Cons.prems(2) show ?thesis by fastforce
  next
    case fee
    with Cons.prems s show ?thesis by auto
  next
    case new
    note k = booked_fill_keeps [OF Cons.prems(1)]
    obtain ids' comps' where "store_fills uuid5 ev (Suc i) configs bo account instrument side fills ids' comps'
        (Suc synced) skipped (booked_fill uuid5 ev i bo f c lg) = (r, lg')"
      using Cons.prems(3) new unfolding store_fills_Cons by (auto split: option.splits)
    from IH [OF k(1) _ this] Cons.prems(2) k(2,3) show ?thesis by (fastforce simp: k(3))
  qed
qed auto

text \<open>Two candidates count as the same fill by their identifier, without one by the whole row.\<close>

definition fill_identity :: "uuid \<Rightarrow> fill_report \<Rightarrow> string + fill_composite" where
  "fill_identity bo fill = (case or_else (\<lambda>s. s = []) (fv_broker_fill_id fill) None of
     Some k \<Rightarrow> Inl k
   | None \<Rightarrow> Inr (bo, fv_fill_timestamp fill, fv_fill_price fill, fv_fill_quantity fill))"

lemma known_fill_identity:
  "known_fill bo ids comps fill \<longleftrightarrow> fill_identity bo fill \<in> Inl ` set ids \<union> Inr ` set comps"
  by (auto simp: known_fill_def fill_identity_def split: option.splits)

lemma store_fills_all:
  assumes "fresh_fill_ids ev i lg"
    and "\<forall>f \<in> set fills. is_ok (fill_charge configs account instrument side f)"
    and "distinct (map (fill_identity bo) fills)"
    and "fill_identity bo ` set fills \<inter> (Inl ` set ids \<union> Inr ` set comps) = {}"
  shows "\<exists>lg'. store_fills uuid5 ev i configs bo account instrument side fills ids comps synced skipped lg
      = (Inr (synced + length fills, skipped), lg')
    \<and> booked_shares lg' bo = booked_shares lg bo + sum_list (map fv_fill_quantity fills)"
  using assms
proof (induction fills arbitrary: i ids comps synced lg)
  case (Cons f fills)
  obtain c where c: "fill_charge configs account instrument side f = Inr c"
    using Cons.prems(2) by (auto simp: is_ok_def split: sum.splits)
  have new: "\<not> known_fill bo ids comps f"
    using Cons.prems(4) by (auto simp: known_fill_identity)
  note k = booked_fill_keeps [OF Cons.prems(1), of uuid5 bo f c]
  show ?case
  proof (cases "or_else (\<lambda>s. s = []) (fv_broker_fill_id f) None")
    case None
    have "fill_identity bo ` set fills \<inter> (Inl ` set ids \<union>
        Inr ` set ((bo, fv_fill_timestamp f, fv_fill_price f, fv_fill_quantity f) # comps)) = {}"
      using Cons.prems(3,4) None by (auto simp: fill_identity_def [of bo f])
    from Cons.IH [OF k(1) _ _ this, of "Suc synced"] Cons.prems(2,3) show ?thesis
      by (auto simp: store_fills_Cons new c None k(3) algebra_simps simp del: store_fills.simps)
  next
    case (Some a)
    have "fill_identity bo ` set fills \<inter> (Inl ` set (a # ids) \<union> Inr ` set comps) = {}"
      using Cons.prems(3,4) Some by (auto simp: fill_identity_def [of bo f])
    from Cons.IH [OF k(1) _ _ this, of "Suc synced"] Cons.prems(2,3) show ?thesis
      by (auto simp: store_fills_Cons new c Some k(3) algebra_simps simp del: store_fills.simps)
  qed
qed simp

section \<open>The increments of one poll\<close>

definition share_count :: "rat \<Rightarrow> bool" where
  "share_count x \<longleftrightarrow> (\<exists>n::int. x = of_int n \<and> 0 \<le> n \<and> n < 10 ^ 28)"

text \<open>A report is told apart by its fill identifier, or without one by its time.\<close>

definition report_identity :: "fill_report \<Rightarrow> string + timestamp" where
  "report_identity r = (case or_else (\<lambda>s. s = []) (fv_broker_fill_id r) None of
     Some k \<Rightarrow> Inl k | None \<Rightarrow> Inr (fv_fill_timestamp r))"

lemma resolve_report:
  assumes r: "resolve_incremental_fill k ob s = (d, s')"
    and c: "share_count (prior_quantity (s k))" "share_count (ob_cumulative_quantity ob)"
  shows "prior_quantity (s' k) = prior_quantity (s k) + booked_quantity d" "0 \<le> booked_quantity d"
    "share_count (prior_quantity (s' k))" "k' \<noteq> k \<Longrightarrow> s' k' = s k'"
    "fd_kind d = NEW_FILL \<Longrightarrow> the (fd_delta_quantity d) = booked_quantity d"
    "fd_kind d \<noteq> NEW_FILL \<Longrightarrow> booked_quantity d = 0"
proof -
  note r' = r [unfolded resolve_incremental_fill_def]
  show "prior_quantity (s' k) = prior_quantity (s k) + booked_quantity d"
    using fill_store.booked_is_advance [of s k ob] c r'
    by (simp add: share_count_def fill_state_get_def)
  show "0 \<le> booked_quantity d" using fill_store.booked_nonneg [of k ob s] r' by simp
  show "share_count (prior_quantity (s' k))"
    using fill_store.anomaly_keeps_store [of k ob s] fill_store.accepted_records_observation [of k ob s] r' c
    by (cases "fd_kind d = ANOMALY") (simp_all add: fill_state_get_def)
  show "k' \<noteq> k \<Longrightarrow> s' k' = s k'"
    using fill_store.other_orders_untouched [of k' k ob s] r' by (simp add: fill_state_get_def)
  show "fd_kind d = NEW_FILL \<Longrightarrow> the (fd_delta_quantity d) = booked_quantity d"
    "fd_kind d \<noteq> NEW_FILL \<Longrightarrow> booked_quantity d = 0"
    using r' by (auto simp: resolve_with_def Let_def decision_defs booked_quantity_def
        split: option.splits if_splits)
qed

lemma report_identity_update [simp]:
  "report_identity (r\<lparr>fv_fill_quantity := q, fv_fill_price := p\<rparr>) = report_identity r"
  by (simp add: report_identity_def split: option.split)

lemma interpret_reports_total:
  assumes "interpret_reports ev i app (Some k) rs s = (fills, n, s')"
    and "share_count (prior_quantity (s k))" "\<forall>r \<in> set rs. share_count (fv_fill_quantity r)"
  shows "prior_quantity (s k) \<le> prior_quantity (s' k)"
    "sum_list (map fv_fill_quantity fills) = (if app then prior_quantity (s' k) - prior_quantity (s k) else 0)"
    "\<forall>f \<in> set fills. 0 \<le> fv_fill_quantity f" "k' \<noteq> k \<Longrightarrow> s' k' = s k'"
    "report_identity ` set fills \<subseteq> report_identity ` set rs"
    "distinct (map report_identity rs) \<Longrightarrow> distinct (map report_identity fills)"
proof -
  have "prior_quantity (s k) \<le> prior_quantity (s' k)
    \<and> sum_list (map fv_fill_quantity fills) = (if app then prior_quantity (s' k) - prior_quantity (s k) else 0)
    \<and> (\<forall>f \<in> set fills. 0 \<le> fv_fill_quantity f) \<and> (\<forall>k'. k' \<noteq> k \<longrightarrow> s' k' = s k')
    \<and> report_identity ` set fills \<subseteq> report_identity ` set rs
    \<and> (distinct (map report_identity rs) \<longrightarrow> distinct (map report_identity fills))"
    using assms
  proof (induction rs arbitrary: i s fills n)
    case (Cons r rs)
    obtain d s1 where d: "resolve_incremental_fill k (observation_of (inside ''report'' i ev) r) s = (d, s1)"
      by force
    obtain fs m where rest: "interpret_reports ev (Suc i) app (Some k) rs s1 = (fs, m, s')"
      using Cons.prems(1) d by (cases "interpret_reports ev (Suc i) app (Some k) rs s1")
        (auto simp: Let_def split: incremental_fill_decision_kind.splits if_splits)
    note one = resolve_report [OF d Cons.prems(2)]
    have c: "share_count (ob_cumulative_quantity (observation_of (inside ''report'' i ev) r))"
      using Cons.prems(3) by (simp add: observation_of_def)
    note one = one [OF c]
    have IH: "prior_quantity (s1 k) \<le> prior_quantity (s' k)
      \<and> sum_list (map fv_fill_quantity fs) = (if app then prior_quantity (s' k) - prior_quantity (s1 k) else 0)
      \<and> (\<forall>f \<in> set fs. 0 \<le> fv_fill_quantity f) \<and> (\<forall>k'. k' \<noteq> k \<longrightarrow> s' k' = s1 k')
      \<and> report_identity ` set fs \<subseteq> report_identity ` set rs
      \<and> (distinct (map report_identity rs) \<longrightarrow> distinct (map report_identity fs))"
      using Cons.IH [OF rest one(3)] Cons.prems(3) by simp
    show ?case
    proof (cases "fd_kind d = NEW_FILL \<and> app")
      case True
      then have "fills = r\<lparr>fv_fill_quantity := booked_quantity d, fv_fill_price := the (fd_inferred_price d)\<rparr> # fs"
        using Cons.prems(1) d rest one(5) by (simp add: Let_def)
      with IH one(1,2,4) True show ?thesis by auto
    next
      case False
      then have "fills = fs" using Cons.prems(1) d rest by (auto simp: Let_def split: incremental_fill_decision_kind.splits)
      with IH one(1,2,4,6) False show ?thesis by auto
    qed
  qed auto
  then show "prior_quantity (s k) \<le> prior_quantity (s' k)"
    "sum_list (map fv_fill_quantity fills) = (if app then prior_quantity (s' k) - prior_quantity (s k) else 0)"
    "\<forall>f \<in> set fills. 0 \<le> fv_fill_quantity f" "k' \<noteq> k \<Longrightarrow> s' k' = s k'"
    "report_identity ` set fills \<subseteq> report_identity ` set rs"
    "distinct (map report_identity rs) \<Longrightarrow> distinct (map report_identity fills)"
    by blast+
qed

section \<open>One poll\<close>

definition order_fill_key :: "uuid \<Rightarrow> broker_order \<Rightarrow> fill_key option" where
  "order_fill_key account_id bo =
     map_option (\<lambda>n. (account_id, bo_broker_name bo, n)) (bo_broker_native_order_id bo)"

lemma put_ledger_simps [simp]:
  "sy_ledger (put_ledger lg w) = lg" "sy_cumulative (put_ledger lg w) = sy_cumulative w"
  "sy_configs (put_ledger lg w) = sy_configs w" "sy_append_enabled (put_ledger lg w) = sy_append_enabled w"
  by (simp_all add: put_ledger_def)

lemma shadow_mode_books_nothing: "fst (interpret_reports ev i False key rs s) = []"
  by (induction rs arbitrary: i s)
    (auto simp: Let_def split_beta split: option.split incremental_fill_decision_kind.split)

lemma sync_fills_cases:
  assumes "order_fill_key account_id bo = Some k"
    and "sync_fills uuid5 ev (Inr rs) bo account_id instrument_id side w = (res, w')"
  obtains fills n s r lg where
    "interpret_reports ev 0 (sy_append_enabled w) (Some k) rs (sy_cumulative w) = (fills, n, s)"
    "store_fills uuid5 ev 0 (sy_configs w) (bo_broker_order_id bo)
       (map_of (rp_accounts (sy_base w)) account_id) (map_of (rp_instruments (sy_base w)) instrument_id) side fills
       (known_fill_ids (fills_of_broker_order (sy_ledger w) (bo_broker_order_id bo)))
       (known_composites (fills_of_broker_order (sy_ledger w) (bo_broker_order_id bo))) 0 0 (sy_ledger w) = (r, lg)"
    "res = res_bind r (\<lambda>(synced, skipped). Inr (synced, skipped + n))"
    "sy_cumulative w' = s" "sy_ledger w' = lg" "sy_append_enabled w' = sy_append_enabled w"
proof -
  obtain fills n s where i: "interpret_reports ev 0 (sy_append_enabled w) (Some k) rs (sy_cumulative w) = (fills, n, s)"
    by (metis prod_cases3)
  obtain r lg where st: "store_fills uuid5 ev 0 (sy_configs w) (bo_broker_order_id bo)
       (map_of (rp_accounts (sy_base w)) account_id) (map_of (rp_instruments (sy_base w)) instrument_id) side fills
       (known_fill_ids (fills_of_broker_order (sy_ledger w) (bo_broker_order_id bo)))
       (known_composites (fills_of_broker_order (sy_ledger w) (bo_broker_order_id bo))) 0 0 (sy_ledger w) = (r, lg)"
    by force
  show ?thesis
    by (rule that [OF i st])
      (use assms i st in \<open>auto simp: sync_fills_def order_fill_key_def Let_def res_bind_def
        split: if_splits sum.splits\<close>)
qed

definition fee_computable :: "sync_world \<Rightarrow> uuid \<Rightarrow> uuid \<Rightarrow> order_side \<Rightarrow> fill_report \<Rightarrow> bool" where
  "fee_computable w account_id instrument_id side r \<longleftrightarrow>
     (\<forall>q p. is_ok (fill_charge (sy_configs w) (map_of (rp_accounts (sy_base w)) account_id)
        (map_of (rp_instruments (sy_base w)) instrument_id) side (r\<lparr>fv_fill_quantity := q, fv_fill_price := p\<rparr>)))"

definition event_identity :: "fill_event \<Rightarrow> string + timestamp" where
  "event_identity f = (case or_else (\<lambda>s. s = []) (fe_broker_fill_id f) None of
     Some k \<Rightarrow> Inl k | None \<Rightarrow> Inr (fe_fill_timestamp f))"

lemma interpret_reports_shape:
  "f \<in> set (fst (interpret_reports ev i app key rs s)) \<Longrightarrow>
     \<exists>r \<in> set rs. \<exists>q p. f = r\<lparr>fv_fill_quantity := q, fv_fill_price := p\<rparr>"
proof (induction rs arbitrary: i s)
  case (Cons r rs)
  then show ?case
    by (cases key)
      (fastforce simp: Let_def split_beta split: incremental_fill_decision_kind.splits if_splits)+
qed (cases key; simp)

lemma identity_of_report:
  "fill_identity bo f = fill_identity bo g \<Longrightarrow> report_identity f = report_identity g"
  by (auto simp: fill_identity_def report_identity_def split: option.splits)

lemma distinct_fill_identity:
  "distinct (map report_identity fs) \<Longrightarrow> distinct (map (fill_identity bo) fs)"
  by (auto simp: distinct_map inj_on_def dest: identity_of_report)

lemma event_identity_Inl:
  "event_identity x = Inl i \<longleftrightarrow> or_else (\<lambda>s. s = []) (fe_broker_fill_id x) None = Some i"
  by (auto simp: event_identity_def split: option.splits)

lemma known_fill_ids_iff:
  "i \<in> set (known_fill_ids fs) \<longleftrightarrow> (\<exists>x \<in> set fs. event_identity x = Inl i)"
  by (induction fs) (auto simp: known_fill_ids_def event_identity_Inl split: option.split)

lemma known_composites_identity:
  "c \<in> set (known_composites fs) \<Longrightarrow> \<exists>x \<in> set fs. event_identity x = Inr (fst (snd c))"
  by (auto simp: known_composites_def event_identity_def split: option.splits)

lemma stored_identity:
  assumes "fill_identity bo f \<in> Inl ` set (known_fill_ids fs) \<union> Inr ` set (known_composites fs)"
  shows "report_identity f \<in> event_identity ` set fs"
proof (cases "or_else (\<lambda>s. s = []) (fv_broker_fill_id f) None")
  case None
  with assms have "(bo, fv_fill_timestamp f, fv_fill_price f, fv_fill_quantity f) \<in> set (known_composites fs)"
    by (auto simp: fill_identity_def)
  from known_composites_identity [OF this] None show ?thesis
    by (simp add: report_identity_def) (metis imageI)
next
  case (Some k)
  with assms have "k \<in> set (known_fill_ids fs)" by (auto simp: fill_identity_def)
  with Some show ?thesis by (simp add: report_identity_def known_fill_ids_iff) (metis imageI)
qed

section \<open>Example\<close>

definition ex_live_order :: broker_order where
  "ex_live_order = (ex_broker_order 6 4)\<lparr>bo_broker_native_order_id := Some ''0000117057''\<rparr>"

definition ex_account :: account where
  "ex_account = \<lparr>ac_account_id = 1, ac_client_id = 8, ac_broker_account_id = 9, ac_environment = LIVE,
     ac_account_alias = ''main''\<rparr>"

definition ex_report :: "rat \<Rightarrow> fill_report" where
  "ex_report q = \<lparr>fv_broker_name = KOREA_INVESTMENT, fv_broker_order_id = ''0000117057'', fv_symbol = ''005930'',
     fv_side = SELL, fv_fill_quantity = q, fv_fill_price = 100, fv_fill_timestamp = 95,
     fv_broker_fill_id = None, fv_fee = None, fv_tax = None\<rparr>"

definition ex_live_key :: fill_key where
  "ex_live_key = (1, ''koreainvestment'', ''0000117057'')"

text \<open>Two of the shares of order 4 are on record and stored.\<close>

definition ex_sync_world :: "config_store \<Rightarrow> sync_world" where
  "ex_sync_world configs =
     \<lparr>sy_repos = ex_two_sells\<lparr>sg_ledger := (sg_ledger ex_two_sells)\<lparr>lg_repos :=
        (lg_repos (sg_ledger ex_two_sells))\<lparr>rp_accounts := [(1, ex_account)]\<rparr>\<rparr>\<rparr>,
      sy_reconciliation_service = True, sy_budget_manager = None,
      sy_cumulative = [ex_live_key \<mapsto> observed_state ex_live_key None (ex_observation 2 100) (Some 100)],
      sy_configs = configs, sy_fill_snapshots = [], sy_broker_accounts = [], sy_last_kis_inquiry_at = [],
      sy_kis_inquiry_seen = [], sy_append_enabled = True\<rparr>"

definition ex_broken_config :: config_store where
  "ex_broken_config = [(1, \<lparr>cv_config_version_id = 1, cv_client_id = 8, cv_environment = LIVE, cv_version_tag = ''v1'',
     cv_config_json = [(''execution'', JvObj [(''fee_tax'', JvObj [])])], cv_checksum = [], cv_created_at = Some 0,
     cv_activated_at = Some 10, cv_activated_by = None\<rparr>)]"

definition ex_sync_env :: env where
  "ex_sync_env = \<lparr>ev_now = (\<lambda>_. 100), ev_uuid = (\<lambda>p. 100 + sum_list (map snd p))\<rparr>"

lemmas ex_sync_defs = ex_sync_world_def ex_account_def ex_report_def ex_live_key_def ex_live_order_def
  ex_sync_env_def ex_observation_def observed_state_def ex_guard_defs

lemma ex_fresh: "fresh_fill_ids ex_sync_env 0 (sy_ledger (ex_sync_world configs))"
  by (simp add: fresh_fill_ids_def fill_id_at_def inj_def ex_sync_defs uuid_at_def inside_def)

lemma ex_key: "order_fill_key 1 ex_live_order = Some ex_live_key"
  by (simp add: order_fill_key_def ex_live_order_def ex_broker_order_def ex_live_key_def)

lemma ex_counts:
  "share_count (prior_quantity (sy_cumulative (ex_sync_world configs) ex_live_key))"
  "share_count (fv_fill_quantity (ex_report 5))"
  by (auto simp: share_count_def ex_sync_defs prior_quantity_def intro: exI [of _ "2::int"] exI [of _ "5::int"])

lemma ex_poll_resolved:
  "case interpret_reports ex_sync_env 0 True (Some ex_live_key) [ex_report 5] (sy_cumulative (ex_sync_world configs)) of
     (fills, n, s) \<Rightarrow> fills = [ex_report 3] \<and> prior_quantity (s ex_live_key) = 5"
  by (simp add: ex_sync_defs resolve_incremental_fill_def resolve_with_def fill_state_get_def
      fill_state_upsert_def observation_of_def Let_def decision_defs prior_quantity_def prior_price_def
      infer_delta_price_def fill_state_key_def dec_eval)

lemma ex_booked: "booked_shares (sy_ledger (ex_sync_world configs)) 6 = 2"
  by (simp add: booked_shares_def fills_of_broker_order_def ex_sync_defs)

section \<open>Properties\<close>

text \<open>C20. Fills never outrun the broker: when the broker reports share counts, a poll of an order, also
  one that fails half way, stores at least nothing and at most as many shares as the cumulative
  quantity on record advances by, and it changes neither the shares stored for another broker
  order nor the cumulative quantity on record for another order.\<close>

theorem poll_never_overbooks:
  assumes "order_fill_key account_id bo = Some k"
    and "share_count (prior_quantity (sy_cumulative w k))" "\<forall>r \<in> set reports. share_count (fv_fill_quantity r)"
    and "fresh_fill_ids ev 0 (sy_ledger w)"
    and "sync_fills uuid5 ev (Inr reports) bo account_id instrument_id side w = (res, w')"
  shows "booked_shares (sy_ledger w) (bo_broker_order_id bo) \<le> booked_shares (sy_ledger w') (bo_broker_order_id bo)
    \<and> booked_shares (sy_ledger w') (bo_broker_order_id bo) - booked_shares (sy_ledger w) (bo_broker_order_id bo)
       \<le> prior_quantity (sy_cumulative w' k) - prior_quantity (sy_cumulative w k)
    \<and> (\<forall>b. b \<noteq> bo_broker_order_id bo \<longrightarrow> booked_shares (sy_ledger w') b = booked_shares (sy_ledger w) b)
    \<and> (\<forall>k'. k' \<noteq> k \<longrightarrow> sy_cumulative w' k' = sy_cumulative w k')"
proof (rule sync_fills_cases [OF assms(1,5)])
  fix fills n s r lg
  assume i: "interpret_reports ev 0 (sy_append_enabled w) (Some k) reports (sy_cumulative w) = (fills, n, s)"
    and st: "store_fills uuid5 ev 0 (sy_configs w) (bo_broker_order_id bo)
       (map_of (rp_accounts (sy_base w)) account_id) (map_of (rp_instruments (sy_base w)) instrument_id) side fills
       (known_fill_ids (fills_of_broker_order (sy_ledger w) (bo_broker_order_id bo)))
       (known_composites (fills_of_broker_order (sy_ledger w) (bo_broker_order_id bo))) 0 0 (sy_ledger w) = (r, lg)"
    and w': "sy_cumulative w' = s" "sy_ledger w' = lg"
  note t = interpret_reports_total [OF i assms(2,3)]
  from store_fills_bounds [OF assms(4) t(3) st] t(1,2,4) show ?thesis by (auto simp: w' split: if_splits)
qed

theorem poll_never_overbooks_witness:
  "booked_shares (sy_ledger (snd (sync_fills ex_uuid5 ex_sync_env (Inr [ex_report 5]) ex_live_order 1 2 SELL
     (ex_sync_world ex_broken_config)))) 6 \<le> 5"
proof -
  let ?w = "ex_sync_world ex_broken_config"
  obtain res w' where s: "sync_fills ex_uuid5 ex_sync_env (Inr [ex_report 5]) ex_live_order 1 2 SELL ?w = (res, w')"
    by force
  have c: "prior_quantity (sy_cumulative w' ex_live_key) = 5"
    by (rule sync_fills_cases [OF ex_key s])
      (use ex_poll_resolved [of ex_broken_config] in \<open>auto simp: ex_sync_world_def split: prod.splits\<close>)
  have p: "prior_quantity (sy_cumulative ?w ex_live_key) = 2"
    by (simp add: ex_sync_defs prior_quantity_def)
  have i: "bo_broker_order_id ex_live_order = 6" by (simp add: ex_live_order_def ex_broker_order_def)
  have ct: "\<forall>r \<in> set [ex_report 5]. share_count (fv_fill_quantity r)" using ex_counts by simp
  show ?thesis
    using poll_never_overbooks [OF ex_key ex_counts(1) ct ex_fresh s] c p ex_booked [of ex_broken_config]
    unfolding s snd_conv i by simp
qed

text \<open>C19. With appending switched on no share is lost: when every report of the poll carries a fill
  identifier or time of its own that no stored fill of the order has and the fees can be computed,
  the poll stores exactly the shares by which the cumulative quantity on record advances and
  reports as many fills as it stored.  With appending switched off, which is the default, the same poll
  advances the record and books nothing at all.\<close>

theorem poll_books_every_share:
  assumes "order_fill_key account_id bo = Some k"
    and "share_count (prior_quantity (sy_cumulative w k))" "\<forall>r \<in> set reports. share_count (fv_fill_quantity r)"
    and "fresh_fill_ids ev 0 (sy_ledger w)"
    and "distinct (map report_identity reports)"
    and "report_identity ` set reports \<inter>
          event_identity ` set (fills_of_broker_order (sy_ledger w) (bo_broker_order_id bo)) = {}"
    and "\<forall>r \<in> set reports. fee_computable w account_id instrument_id side r"
    and "sync_fills uuid5 ev (Inr reports) bo account_id instrument_id side w = (res, w')"
  shows "booked_shares (sy_ledger w') (bo_broker_order_id bo) - booked_shares (sy_ledger w) (bo_broker_order_id bo)
       = (if sy_append_enabled w then prior_quantity (sy_cumulative w' k) - prior_quantity (sy_cumulative w k) else 0)
    \<and> (sy_append_enabled w \<longrightarrow>
         (\<exists>n. res = Inr (length (fst (interpret_reports ev 0 True (Some k) reports (sy_cumulative w))), n)))
    \<and> (\<not> sy_append_enabled w \<longrightarrow> sy_ledger w' = sy_ledger w \<and> (\<exists>n. res = Inr (0, n)))"
proof (rule sync_fills_cases [OF assms(1,8)])
  let ?bo = "bo_broker_order_id bo" and ?fs = "fills_of_broker_order (sy_ledger w) (bo_broker_order_id bo)"
  fix fills n s r lg
  assume i: "interpret_reports ev 0 (sy_append_enabled w) (Some k) reports (sy_cumulative w) = (fills, n, s)"
    and st: "store_fills uuid5 ev 0 (sy_configs w) ?bo
       (map_of (rp_accounts (sy_base w)) account_id) (map_of (rp_instruments (sy_base w)) instrument_id) side fills
       (known_fill_ids ?fs) (known_composites ?fs) 0 0 (sy_ledger w) = (r, lg)"
    and w': "res = res_bind r (\<lambda>(synced, skipped). Inr (synced, skipped + n))"
      "sy_cumulative w' = s" "sy_ledger w' = lg"
  note t = interpret_reports_total [OF i assms(2,3)]
  have ok: "\<forall>f \<in> set fills. is_ok (fill_charge (sy_configs w) (map_of (rp_accounts (sy_base w)) account_id)
        (map_of (rp_instruments (sy_base w)) instrument_id) side f)"
  proof
    fix f assume "f \<in> set fills"
    then obtain r q p where "r \<in> set reports" "f = r\<lparr>fv_fill_quantity := q, fv_fill_price := p\<rparr>"
      using interpret_reports_shape [of f ev 0 "sy_append_enabled w" "Some k" reports "sy_cumulative w"] i by auto
    then show "is_ok (fill_charge (sy_configs w) (map_of (rp_accounts (sy_base w)) account_id)
        (map_of (rp_instruments (sy_base w)) instrument_id) side f)"
      using assms(7) by (simp add: fee_computable_def)
  qed
  have new: "fill_identity ?bo ` set fills \<inter> (Inl ` set (known_fill_ids ?fs) \<union> Inr ` set (known_composites ?fs)) = {}"
  proof (rule ccontr)
    assume "\<not> ?thesis"
    then obtain f where "f \<in> set fills" "report_identity f \<in> event_identity ` set ?fs"
      using stored_identity [of ?bo _ ?fs] by blast
    then show False using t(5) assms(6) by blast
  qed
  obtain lg1 where lg1: "store_fills uuid5 ev 0 (sy_configs w) ?bo
       (map_of (rp_accounts (sy_base w)) account_id) (map_of (rp_instruments (sy_base w)) instrument_id) side fills
       (known_fill_ids ?fs) (known_composites ?fs) 0 0 (sy_ledger w) = (Inr (0 + length fills, 0), lg1)"
    and b: "booked_shares lg1 ?bo = booked_shares (sy_ledger w) ?bo + sum_list (map fv_fill_quantity fills)"
    using store_fills_all [OF assms(4) ok distinct_fill_identity [OF t(6) [OF assms(5)]] new] by blast
  have r: "r = Inr (length fills, 0)" "lg = lg1" using st lg1 by simp_all
  have "fills = []" if "\<not> sy_append_enabled w" using shadow_mode_books_nothing [of ev 0 "Some k" reports "sy_cumulative w"] i that by simp
  moreover from this have "lg = sy_ledger w" if "\<not> sy_append_enabled w" using st that by simp
  ultimately show ?thesis using t(2) i b by (auto simp: w' r res_bind_def)
qed

theorem poll_books_every_share_witness:
  "\<exists>n w'. sync_fills ex_uuid5 ex_sync_env (Inr [ex_report 5]) ex_live_order 1 2 SELL (ex_sync_world []) = (Inr (1, n), w')
     \<and> booked_shares (sy_ledger w') 6 = 5"
proof -
  let ?w = "ex_sync_world []"
  obtain res w' where s: "sync_fills ex_uuid5 ex_sync_env (Inr [ex_report 5]) ex_live_order 1 2 SELL ?w = (res, w')"
    by force
  have c: "prior_quantity (sy_cumulative w' ex_live_key) = 5"
    by (rule sync_fills_cases [OF ex_key s])
      (use ex_poll_resolved [of "[]"] in \<open>auto simp: ex_sync_world_def split: prod.splits\<close>)
  have p: "prior_quantity (sy_cumulative ?w ex_live_key) = 2"
    by (simp add: ex_sync_defs prior_quantity_def)
  have i: "bo_broker_order_id ex_live_order = 6" by (simp add: ex_live_order_def ex_broker_order_def)
  have n: "report_identity ` set [ex_report 5] \<inter> event_identity ` set (fills_of_broker_order (sy_ledger ?w)
      (bo_broker_order_id ex_live_order)) = {}"
    by (simp add: i fills_of_broker_order_def report_identity_def event_identity_def ex_sync_defs or_else_def)
  have f: "\<forall>r \<in> set [ex_report 5]. fee_computable ?w 1 2 SELL r"
    by (simp add: fee_computable_def fill_charge_def ex_sync_defs compute_fee_tax_def get_active_at_def
        res_bind_def)
  have a: "sy_append_enabled ?w" by (simp add: ex_sync_world_def)
  have d: "distinct (map report_identity [ex_report 5])" by simp
  have ct: "\<forall>r \<in> set [ex_report 5]. share_count (fv_fill_quantity r)" using ex_counts by simp
  have l: "length (fst (interpret_reports ex_sync_env 0 True (Some ex_live_key) [ex_report 5] (sy_cumulative ?w))) = 1"
    using ex_poll_resolved [of "[]"] by (simp del: interpret_reports.simps add: split_beta)
  show ?thesis
    using poll_books_every_share [OF ex_key ex_counts(1) ct ex_fresh d n f s] a c p ex_booked [of "[]"] s l
    by (auto simp: i)
qed

text \<open>C34. A poll that fails loses the fill: when the fee of the one increment of a poll cannot be
  computed the poll raises with nothing stored, but the cumulative quantity on record has already
  advanced, so a later poll with the same quantity, under any configuration, finds no new fill
  and stores nothing.\<close>

theorem failed_poll_loses_fill:
  assumes "order_fill_key account_id bo = Some k"
    and "sync_fills uuid5 ev (Inr [r]) bo account_id instrument_id side w = (Inl e, w')"
    and "fv_fill_quantity r' = fv_fill_quantity r"
  shows "sy_ledger w' = sy_ledger w
    \<and> (\<forall>configs uuid5' ev'. case sync_fills uuid5' ev' (Inr [r']) bo account_id instrument_id side
            (w'\<lparr>sy_configs := configs\<rparr>) of
         (res, w2) \<Rightarrow> res = Inr (0, 1) \<and> sy_ledger w2 = sy_ledger w)"
proof (rule sync_fills_cases [OF assms(1,2)])
  let ?bo = "bo_broker_order_id bo" and ?fs = "fills_of_broker_order (sy_ledger w) (bo_broker_order_id bo)"
    and ?ob = "observation_of (inside ''report'' 0 ev) r"
  fix fills n s x lg
  assume i: "interpret_reports ev 0 (sy_append_enabled w) (Some k) [r] (sy_cumulative w) = (fills, n, s)"
    and st: "store_fills uuid5 ev 0 (sy_configs w) ?bo
       (map_of (rp_accounts (sy_base w)) account_id) (map_of (rp_instruments (sy_base w)) instrument_id) side fills
       (known_fill_ids ?fs) (known_composites ?fs) 0 0 (sy_ledger w) = (x, lg)"
    and w': "Inl e = res_bind x (\<lambda>(synced, skipped). Inr (synced, skipped + n))"
      "sy_cumulative w' = s" "sy_ledger w' = lg"
  obtain d where d: "resolve_incremental_fill k ?ob (sy_cumulative w) = (d, s)"
    using i by (auto simp: Let_def split: prod.splits incremental_fill_decision_kind.splits if_splits)
  have x: "x = Inl e" using w'(1) by (auto simp: res_bind_def split: sum.splits)
  have "fills \<noteq> []" using st x by auto
  then obtain f where f: "fills = [f]" and new: "fd_kind d = NEW_FILL"
    using i d by (auto simp: Let_def split: incremental_fill_decision_kind.splits if_splits)
  have lg: "lg = sy_ledger w"
    using st x f by (auto simp: Let_def split: if_splits sum.splits option.splits)
  have again: "fd_kind (fst (resolve_incremental_fill k (observation_of (inside ''report'' 0 ev') r') s)) = NO_NEW_FILL" for ev'
    using fill_store.repeated_observation_books_nothing [of k ?ob "sy_cumulative w"] new d assms(3)
    by (simp add: resolve_incremental_fill_def observation_of_def)
  show ?thesis
    using again assms(1)
    by (auto simp: w' lg sync_fills_def Let_def order_fill_key_def split_beta)
qed

theorem failed_poll_loses_fill_witness:
  "\<exists>w'. sync_fills ex_uuid5 ex_sync_env (Inr [ex_report 5]) ex_live_order 1 2 SELL (ex_sync_world ex_broken_config)
       = (Inl (Fee_Failure Malformed_Fee_Tax_Policy), w')
     \<and> booked_shares (sy_ledger (snd (sync_fills ex_uuid5 ex_sync_env (Inr [ex_report 5]) ex_live_order 1 2 SELL
           (w'\<lparr>sy_configs := []\<rparr>)))) 6 = 2"
proof -
  let ?w = "ex_sync_world ex_broken_config"
  obtain res w' where s: "sync_fills ex_uuid5 ex_sync_env (Inr [ex_report 5]) ex_live_order 1 2 SELL ?w = (res, w')"
    by force
  have res: "res = Inl (Fee_Failure Malformed_Fee_Tax_Policy)"
  proof (rule sync_fills_cases [OF ex_key s])
    have i: "bo_broker_order_id ex_live_order = 6" by (simp add: ex_live_order_def ex_broker_order_def)
    have k: "\<not> known_fill 6 (known_fill_ids (fills_of_broker_order (sy_ledger ?w) 6))
        (known_composites (fills_of_broker_order (sy_ledger ?w) 6)) (ex_report 3)"
      by (simp add: known_fill_def known_fill_ids_def known_composites_def fills_of_broker_order_def
          ex_sync_defs or_else_def)
    have f: "fill_charge (sy_configs ?w) (map_of (rp_accounts (sy_base ?w)) 1) (map_of (rp_instruments (sy_base ?w)) 2)
        SELL (ex_report 3) = Inl Malformed_Fee_Tax_Policy"
      by (simp add: fill_charge_def ex_sync_defs ex_broken_config_def compute_fee_tax_def get_active_at_def
          active_before_def parse_fee_tax_policy_def parse_fee_tax_section_def str_list_of_jval_def res_bind_def)
    fix fills n s r lg
    assume "interpret_reports ex_sync_env 0 (sy_append_enabled ?w) (Some ex_live_key) [ex_report 5]
        (sy_cumulative ?w) = (fills, n, s)"
      and "store_fills ex_uuid5 ex_sync_env 0 (sy_configs ?w) (bo_broker_order_id ex_live_order)
         (map_of (rp_accounts (sy_base ?w)) 1) (map_of (rp_instruments (sy_base ?w)) 2) SELL fills
         (known_fill_ids (fills_of_broker_order (sy_ledger ?w) (bo_broker_order_id ex_live_order)))
         (known_composites (fills_of_broker_order (sy_ledger ?w) (bo_broker_order_id ex_live_order)))
         0 0 (sy_ledger ?w) = (r, lg)"
      and "res = res_bind r (\<lambda>(synced, skipped). Inr (synced, skipped + n))"
    moreover from this(1) have "fills = [ex_report 3]"
      using ex_poll_resolved [of ex_broken_config] by (simp add: ex_sync_world_def)
    ultimately show ?thesis using k f by (auto simp: i res_bind_def)
  qed
  show ?thesis
    using s failed_poll_loses_fill [OF ex_key s [unfolded res], of "ex_report 5", OF refl] ex_booked [of ex_broken_config]
    unfolding res split_beta by metis
qed

end
