(* ===== verification/Order_Sync_Probe.thy ===== *)
theory Order_Sync_Probe
  imports Order_Sync_Fills
begin

text \<open>
  How the order synchronisation (\<^verbatim>\<open>services/order_sync_service.py\<close>) moves an order and how it finds
  out what became of it: chains of transitions, the truth probe over linked fill snapshots and
  the broker's record, and inference from position snapshots.
\<close>

section \<open>Status sets\<close>

definition syncable_statuses :: "order_status list" where
  "syncable_statuses = [SUBMITTED, ACKNOWLEDGED, PARTIALLY_FILLED, RECONCILE_REQUIRED]"

definition terminal_statuses :: "order_status list" where
  "terminal_statuses = [FILLED, CANCELLED, REJECTED, EXPIRED]"

section \<open>Times\<close>

definition is_after_hours_now :: "timestamp \<Rightarrow> bool" where
  "is_after_hours_now now \<longleftrightarrow>
     seconds (15 * 3600 + 30 * 60) \<le> (now + seconds (9 * 3600)) mod seconds 86400"

definition resolve_after_hours_grace_period :: "order_request \<Rightarrow> broker_order \<Rightarrow> timestamp" where
  "resolve_after_hours_grace_period order broker_order =
     (if or_text (bo_broker_native_order_id broker_order) [] \<noteq> [] \<and> or_order_type order = MARKET
      then seconds 3600 else seconds 1800)"

definition order_reference_time :: "order_request \<Rightarrow> timestamp option" where
  "order_reference_time order = or_else (\<lambda>_. False) (or_submitted_at order) (or_created_at order)"

definition is_prior_day_day_partial_sell_residual :: "timestamp \<Rightarrow> order_request \<Rightarrow> order_status \<Rightarrow> bool" where
  "is_prior_day_day_partial_sell_residual now order broker_status \<longleftrightarrow>
     or_side order = SELL \<and> or_status order = PARTIALLY_FILLED \<and> broker_status = PARTIALLY_FILLED
     \<and> or_time_in_force order = DAY
     \<and> (case order_reference_time order of None \<Rightarrow> False | Some t \<Rightarrow> to_kst_trade_date t < to_kst_trade_date now)"

definition can_recover_expired :: "timestamp \<Rightarrow> order_request \<Rightarrow> bool" where
  "can_recover_expired now order =
     (case or_created_at order of None \<Rightarrow> True | Some t \<Rightarrow> now - t \<le> seconds 86400)"

section \<open>Transitions\<close>

fun build_transition_chain :: "order_status \<Rightarrow> order_status \<Rightarrow> order_status list" where
  "build_transition_chain SUBMITTED FILLED = [ACKNOWLEDGED, PARTIALLY_FILLED, FILLED]"
| "build_transition_chain SUBMITTED PARTIALLY_FILLED = [ACKNOWLEDGED, PARTIALLY_FILLED]"
| "build_transition_chain SUBMITTED ACKNOWLEDGED = [ACKNOWLEDGED]"
| "build_transition_chain ACKNOWLEDGED FILLED = [PARTIALLY_FILLED, FILLED]"
| "build_transition_chain RECONCILE_REQUIRED FILLED = [ACKNOWLEDGED, PARTIALLY_FILLED, FILLED]"
| "build_transition_chain current target = [target]"

text \<open>The calls of the synchronisation leave the actor and the number of retries at their defaults.\<close>

definition move ::
  "env \<Rightarrow> interference \<Rightarrow> order_request \<Rightarrow> order_status \<Rightarrow> string option \<Rightarrow> message option \<Rightarrow> order_manager
   \<Rightarrow> (order_error + order_request) \<times> order_manager" where
  "move ev others order target reason_code reason_message m =
     transition_to ev others order target reason_code reason_message ''system'' ''order_manager'' 3 False m"

fun chain_steps ::
  "env \<Rightarrow> (string \<times> nat \<Rightarrow> interference) \<Rightarrow> nat \<Rightarrow> order_status \<Rightarrow> string option \<Rightarrow> message option
   \<Rightarrow> order_status list \<Rightarrow> order_request \<Rightarrow> order_manager \<Rightarrow> order_request \<times> order_manager" where
  "chain_steps ev others i target reason_code reason_message [] current m = (current, m)"
| "chain_steps ev others i target reason_code reason_message (step # steps) current m =
     (if or_status current = step
      then chain_steps ev others (Suc i) target reason_code reason_message steps current m
      else case move (inside ''chain'' i ev) (others (''chain'', i)) current step
                  (if step = target then reason_code else None)
                  (if step = target then reason_message else None) m of
             (Inl _, m) \<Rightarrow> (current, m)
           | (Inr current, m) \<Rightarrow>
               chain_steps ev others (Suc i) target reason_code reason_message steps current m)"

definition try_transition ::
  "env \<Rightarrow> (string \<times> nat \<Rightarrow> interference) \<Rightarrow> order_request \<Rightarrow> order_status \<Rightarrow> string option \<Rightarrow> message option
   \<Rightarrow> order_manager \<Rightarrow> order_request \<times> order_manager" where
  "try_transition ev others order target reason_code reason_message m =
     (if or_status order = target then (order, m)
      else case move (inside ''direct'' 0 ev) (others (''direct'', 0)) order target reason_code reason_message m of
             (Inr after, m) \<Rightarrow> (after, m)
           | (Inl _, m) \<Rightarrow>
               (let chain = build_transition_chain (or_status order) target
                in if chain = [] then (order, m)
                   else chain_steps ev others 0 target reason_code reason_message chain order m))"

text \<open>The same on the repositories of the synchronisation.\<close>

definition sync_transition ::
  "env \<Rightarrow> (string \<times> nat \<Rightarrow> interference) \<Rightarrow> order_request \<Rightarrow> order_status \<Rightarrow> string option \<Rightarrow> message option
   \<Rightarrow> sync_world \<Rightarrow> order_request \<times> sync_world" where
  "sync_transition ev others order target reason_code reason_message w =
     (case try_transition ev others order target reason_code reason_message (manager_of w) of
        (order, m) \<Rightarrow> (order, put_manager m w))"

section \<open>Linked fill snapshots\<close>

record linked_truth =
  lt_filled_quantity :: rat
  lt_source :: string

definition list_linked_fill_snapshots :: "sync_world \<Rightarrow> order_request \<Rightarrow> broker_fill_snapshot list" where
  "list_linked_fill_snapshots w order =
     list_recent_fill_snapshots (sy_fill_snapshots w) 50 (Some (or_order_request_id order))"

text \<open>Per fill identifier the largest quantity; the rows without one are counted.\<close>

fun fill_id_quantities ::
  "broker_fill_snapshot list \<Rightarrow> (string \<times> rat) list \<Rightarrow> nat \<Rightarrow> (string \<times> rat) list \<times> nat" where
  "fill_id_quantities [] qs n = (qs, n)"
| "fill_id_quantities (s # ss) qs n =
     (if bs_filled_quantity s \<le> 0 then fill_id_quantities ss qs n
      else case or_else (\<lambda>i. i = []) (bs_broker_fill_id s) None of
             None \<Rightarrow> fill_id_quantities ss qs (Suc n)
           | Some i \<Rightarrow>
               (case map_of qs i of
                  None \<Rightarrow> fill_id_quantities ss (AList.update i (bs_filled_quantity s) qs) n
                | Some previous \<Rightarrow>
                    if previous < bs_filled_quantity s
                    then fill_id_quantities ss (AList.update i (bs_filled_quantity s) qs) n
                    else fill_id_quantities ss qs n))"

definition resolve_linked_fill_snapshot_quantity ::
  "order_request \<Rightarrow> broker_fill_snapshot list \<Rightarrow> linked_truth option" where
  "resolve_linked_fill_snapshot_quantity order snapshots =
     (let positive = filter (\<lambda>q. 0 < q) (map bs_filled_quantity snapshots)
      in if positive = [] then None
         else
           (let max_filled = fold max positive 0;
                (qs, rows_without_fill_id) = fill_id_quantities snapshots [] 0;
                summed_filled = foldl dadd 0 (map snd qs)
            in if qs \<noteq> [] \<and> rows_without_fill_id = 0 \<and> 1 < length qs \<and> summed_filled \<le> or_requested_quantity order
               then Some \<lparr>lt_filled_quantity = summed_filled, lt_source = ''fill_snapshot_fill_id_max_sum''\<rparr>
               else Some \<lparr>lt_filled_quantity = max_filled, lt_source = ''fill_snapshot_cumulative_max''\<rparr>))"

definition infer_linked_fill_snapshot_truth ::
  "order_request \<Rightarrow> broker_fill_snapshot list \<Rightarrow> order_status option" where
  "infer_linked_fill_snapshot_truth order snapshots =
     (case resolve_linked_fill_snapshot_quantity order snapshots of
        None \<Rightarrow> None
      | Some resolved \<Rightarrow>
          if lt_filled_quantity resolved \<le> 0 then None
          else if or_requested_quantity order \<le> lt_filled_quantity resolved then Some FILLED
          else Some PARTIALLY_FILLED)"

section \<open>Position evidence\<close>

text \<open>
  A purchase: the first snapshot after the order against the last one before it.  When other
  purchases of the instrument fall before that snapshot, only an exact match of the whole
  cohort counts.
\<close>

definition infer_buy_order_fill_via_position_safe :: "sync_world \<Rightarrow> order_request \<Rightarrow> order_error + order_status option" where
  "infer_buy_order_fill_via_position_safe w order =
     (if or_side order \<noteq> BUY then Inr None
      else case order_reference_time order of
             None \<Rightarrow> Inr None
           | Some t \<Rightarrow>
               (case position_earliest_after (sy_repos w) (or_account_id order) (or_instrument_id order) t of
                  None \<Rightarrow> Inr None
                | Some post_snap \<Rightarrow>
                    res_bind (order_list (sy_base w)
                      (any_order\<lparr>oq_account_id := Some (or_account_id order), oq_created_from := Some t,
                                 oq_created_to := Some (ps_snapshot_at post_snap), oq_limit := 100\<rparr>)) (\<lambda>overlapping.
                    let pre_qty = (case position_latest_before (sy_repos w) (or_account_id order)
                                          (or_instrument_id order) t of
                                     Some s \<Rightarrow> ps_quantity s | None \<Rightarrow> 0);
                        delta = dsub (ps_quantity post_snap) pre_qty;
                        cohort = filter (\<lambda>c. or_instrument_id c = or_instrument_id order \<and> or_side c = BUY
                                     \<and> (case or_created_at c of None \<Rightarrow> False | Some x \<Rightarrow> t \<le> x)) overlapping
                    in if delta \<le> 0 then Inr None
                       else if 1 < length cohort
                       then Inr (if delta = foldl dadd 0 (map or_requested_quantity cohort) then Some FILLED else None)
                       else if or_requested_quantity order \<le> delta then Inr (Some FILLED)
                       else Inr (Some PARTIALLY_FILLED))))"

definition infer_status_from_delta :: "order_request \<Rightarrow> rat \<Rightarrow> order_status option" where
  "infer_status_from_delta order position_delta =
     (if or_requested_quantity order \<le> position_delta then Some FILLED
      else if 0 < position_delta then Some PARTIALLY_FILLED
      else None)"

text \<open>
  A callback of the caller that synchronises the snapshots of an account; \<open>False\<close> stands for an
  exception, before which it may have stored something.
\<close>

type_synonym refresh_cb = "string \<times> nat \<Rightarrow> uuid \<Rightarrow> sync_world \<Rightarrow> bool \<times> sync_world"

definition pre_order_quantity :: "sync_world \<Rightarrow> order_request \<Rightarrow> broker_order \<Rightarrow> rat option" where
  "pre_order_quantity w order broker_order =
     (case bo_created_at broker_order of
        None \<Rightarrow> None
      | Some t \<Rightarrow> map_option ps_quantity
          (position_latest_before (sy_repos w) (or_account_id order) (or_instrument_id order) t))"

definition current_position_quantity :: "sync_world \<Rightarrow> order_request \<Rightarrow> rat" where
  "current_position_quantity w order =
     get_current_position_qty (sy_repos w) (or_account_id order) (Some (or_instrument_id order))"

fun sell_fill_retries ::
  "refresh_cb option \<Rightarrow> order_request \<Rightarrow> rat \<Rightarrow> nat \<Rightarrow> nat \<Rightarrow> sync_world \<Rightarrow> order_status option \<times> sync_world" where
  "sell_fill_retries refresh order pre_qty attempt 0 w = (None, w)"
| "sell_fill_retries refresh order pre_qty attempt (Suc n) w =
     (let w = (case refresh of None \<Rightarrow> w | Some cb \<Rightarrow> snd (cb (''sell_fill_retry'', attempt) (or_account_id order) w));
          position_delta = dsub pre_qty (current_position_quantity w order)
      in if 0 < position_delta then (infer_status_from_delta order position_delta, w)
         else sell_fill_retries refresh order pre_qty (Suc attempt) n w)"

definition infer_sell_order_fill_via_position ::
  "refresh_cb option \<Rightarrow> order_request \<Rightarrow> broker_order \<Rightarrow> sync_world \<Rightarrow> order_status option \<times> sync_world" where
  "infer_sell_order_fill_via_position refresh order broker_order w =
     (if or_side order \<noteq> SELL then (None, w)
      else case pre_order_quantity w order broker_order of
             None \<Rightarrow> (None, w)
           | Some pre_qty \<Rightarrow>
               (let position_delta = dsub pre_qty (current_position_quantity w order)
                in if 0 < position_delta then (infer_status_from_delta order position_delta, w)
                   else sell_fill_retries refresh order pre_qty 1 2 w))"

section \<open>The truth probe\<close>

datatype truth_probe_reason =
    PAPER_EMPTY | QTY_MISMATCH | POSITION_CONFLICT | BUY_POSITION_FILL | FILL_SNAPSHOT
  | FILL_SNAPSHOT_INCOMPLETE | MULTI_ODNO | API_FAILURE | NO_ODNO | NOT_TERMINAL

fun truth_probe_reason_value :: "truth_probe_reason \<Rightarrow> string" where
  "truth_probe_reason_value PAPER_EMPTY = ''paper_empty''"
| "truth_probe_reason_value QTY_MISMATCH = ''qty_mismatch''"
| "truth_probe_reason_value POSITION_CONFLICT = ''position_conflict''"
| "truth_probe_reason_value BUY_POSITION_FILL = ''buy_position_fill''"
| "truth_probe_reason_value FILL_SNAPSHOT = ''fill_snapshot''"
| "truth_probe_reason_value FILL_SNAPSHOT_INCOMPLETE = ''fill_snapshot_incomplete''"
| "truth_probe_reason_value MULTI_ODNO = ''multi_odno''"
| "truth_probe_reason_value API_FAILURE = ''api_failure''"
| "truth_probe_reason_value NO_ODNO = ''no_odno''"
| "truth_probe_reason_value NOT_TERMINAL = ''not_terminal''"

definition infer_truth_probe_reason :: "order_status_result \<Rightarrow> truth_probe_reason" where
  "infer_truth_probe_reason result =
     (let text = str_lower (or_text (osr_raw_code result) []) @ '' '' @ str_lower (or_text (osr_raw_message result) []);
          has = (\<lambda>k. contains_text k text)
      in if has ''multi'' \<or> has ''duplicate'' then MULTI_ODNO
         else if has ''empty'' \<or> has ''no data'' then PAPER_EMPTY
         else if has ''ccld_qty=0'' \<or> has ''ccld_qty 0'' then POSITION_CONFLICT
         else if has ''qty'' \<and> (has ''mismatch'' \<or> has ''diff'') then QTY_MISMATCH
         else NOT_TERMINAL)"

text \<open>
  \<open>answer\<close> is the broker's \<open>resolve_unknown_state\<close>; \<open>w\<close> holds the repositories before and \<open>w'\<close> after
  that call.  An exception anywhere after the snapshots counts as a failure of the interface.
\<close>

definition try_truth_probe ::
  "order_error + order_status_result \<Rightarrow> order_request \<Rightarrow> broker_order \<Rightarrow> sync_world \<Rightarrow> sync_world
   \<Rightarrow> order_status option \<times> truth_probe_reason option" where
  "try_truth_probe answer order broker_order w w' =
     (if or_text (bo_broker_native_order_id broker_order) [] = [] then (None, Some NO_ODNO)
      else
        (let linked = list_linked_fill_snapshots w order
         in case infer_linked_fill_snapshot_truth order linked of
              Some truth \<Rightarrow> (Some truth, Some FILL_SNAPSHOT)
            | None \<Rightarrow>
                (case answer of
                   Inl _ \<Rightarrow> (None, Some API_FAILURE)
                 | Inr result \<Rightarrow>
                     if osr_status result \<in> {FILLED, EXPIRED}
                     then (case osr_filled_quantity result of
                             Some q \<Rightarrow> if q \<noteq> or_requested_quantity order
                                       then (Some (osr_status result), Some QTY_MISMATCH)
                                       else (Some (osr_status result), None)
                           | None \<Rightarrow> (Some (osr_status result), None))
                     else if or_side order = BUY \<and> linked = []
                     then (case infer_buy_order_fill_via_position_safe w' order of
                             Inl _ \<Rightarrow> (None, Some API_FAILURE)
                           | Inr (Some inferred_buy) \<Rightarrow> (Some inferred_buy, Some BUY_POSITION_FILL)
                           | Inr None \<Rightarrow> (None, Some (infer_truth_probe_reason result)))
                     else if or_side order = BUY then (None, Some FILL_SNAPSHOT_INCOMPLETE)
                     else (None, Some (infer_truth_probe_reason result)))))"

text \<open>The reason written with a transition; numbers in messages compare by value.\<close>

definition build_truth_probe_reason_message ::
  "sync_world \<Rightarrow> order_request \<Rightarrow> broker_order \<Rightarrow> order_status \<Rightarrow> truth_probe_reason option \<Rightarrow> string \<times> message" where
  "build_truth_probe_reason_message w order broker_order probe_status probe_reason =
     (let odno = bo_broker_native_order_id broker_order
      in case probe_reason of
           None \<Rightarrow> (''truth_probe_resolved'', Msg_Probe ''broker record'' probe_status [] odno)
         | Some FILL_SNAPSHOT \<Rightarrow>
             (case resolve_linked_fill_snapshot_quantity order (list_linked_fill_snapshots w order) of
                Some resolved \<Rightarrow>
                  (let remaining = dsub (or_requested_quantity order) (lt_filled_quantity resolved);
                       remaining = (if remaining < 0 then 0 else remaining)
                   in (''truth_probe_fill_snapshot'',
                       Msg_Probe (lt_source resolved) probe_status
                         [lt_filled_quantity resolved, or_requested_quantity order, remaining] odno))
              | None \<Rightarrow> (''truth_probe_fill_snapshot'', Msg_Probe ''linked fill snapshot'' probe_status [] odno))
         | Some BUY_POSITION_FILL \<Rightarrow>
             (''truth_probe_buy_position_fill'', Msg_Probe ''position evidence'' probe_status [] odno)
         | Some reason \<Rightarrow>
             (''truth_probe_resolved'', Msg_Probe (truth_probe_reason_value reason) probe_status [] odno))"

definition build_pending_truth_probe_reason_message ::
  "sync_world \<Rightarrow> order_request \<Rightarrow> broker_order \<Rightarrow> truth_probe_reason \<Rightarrow> (string \<times> message) option" where
  "build_pending_truth_probe_reason_message w order broker_order probe_reason =
     (if probe_reason \<noteq> FILL_SNAPSHOT_INCOMPLETE then None
      else
        (let snapshots = list_linked_fill_snapshots w order
         in Some (''truth_probe_fill_snapshot_incomplete'',
              Msg_Rows (length snapshots) (length (filter (\<lambda>s. 0 < bs_filled_quantity s) snapshots))
                (bo_broker_native_order_id broker_order))))"

section \<open>Where a transition leads\<close>

text \<open>A retry after a conflict writes over the stored version.\<close>

lemma loop_stale:
  assumes "order_get w (or_order_request_id after) = Some x" "or_version x \<noteq> or_version after"
    and "or_status x \<notin> set terminal_states" "or_order_request_id x = or_order_request_id after" "or_status after = tg"
  obtains after' w' y where "update_loop ev (\<lambda>_ w. w) tg rc rm sub i (Suc (Suc n)) l after w = (Inr after', w')"
    "or_order_request_id after' = or_order_request_id after" "or_status after' = tg" "or_status_reason_code after' = rc"
    "order_get w' (or_order_request_id after) = Some y" "or_status y = tg"
    "or_order_request_id y = or_order_request_id after"
    "\<And>j. j \<noteq> or_order_request_id after \<Longrightarrow> order_get w' j = order_get w j"
    "rp_broker_orders w' = rp_broker_orders w"
proof -
  let ?a = "replace_status (inside ''retry'' i ev) x tg rc rm
      (case sub of Some t \<Rightarrow> Some t | None \<Rightarrow> or_submitted_at x)"
  have g: "order_get w (or_order_request_id ?a) = Some x" "or_version x = or_version ?a"
    using assms by simp_all
  let ?t = "now_at (inside ''update'' (Suc i) ev) ''now''"
  obtain w' y where u: "order_update_status ?t (or_order_request_id ?a) (or_status ?a) rc rm (Some (or_version ?a)) sub w = (Inr (), w')"
    "order_get w' (or_order_request_id ?a) = Some y" "or_status y = or_status ?a" "or_order_request_id y = or_order_request_id x"
    using order_store.upd_match [OF g, of ?t "or_status ?a" rc rm sub] by auto
  have s: "update_loop ev (\<lambda>_ w. w) tg rc rm sub i (Suc (Suc n)) l after w = (Inr ?a, w')"
    using assms u(1) order_store.upd_conflict [OF assms(1,2)] by (simp add: update_loop.simps)
  show ?thesis
  proof (rule that [of ?a w' y, OF s])
    show "order_get w' j = order_get w j" if "j \<noteq> or_order_request_id after" for j
      using order_store.upd_other [of j "or_order_request_id ?a" ?t "or_status ?a" rc rm _ sub w] u(1) that assms(4)
      by (metis replace_status_simps(1) snd_conv)
    show "rp_broker_orders w' = rp_broker_orders w"
      using update_status_frame [of ?t "or_order_request_id ?a" "or_status ?a" rc rm "Some (or_version ?a)" sub w] u(1)
      by (metis repos.ext_inject repos.surjective repos.update_convs(4) snd_conv)
  qed (use u assms in simp_all)
qed

text \<open>The entity in hand stands for the stored order: the same status, and either the stored version
  or a status that a retry accepts.\<close>

definition tracks :: "order_request \<Rightarrow> order_manager \<Rightarrow> bool" where
  "tracks x m \<longleftrightarrow> (\<exists>y. order_get (om_repos m) (or_order_request_id x) = Some y \<and> or_status y = or_status x
     \<and> or_order_request_id y = or_order_request_id x
     \<and> (or_version y = or_version x \<or> or_status y \<notin> set terminal_states))"

definition same_elsewhere :: "uuid \<Rightarrow> order_manager \<Rightarrow> order_manager \<Rightarrow> bool" where
  "same_elsewhere i m m' \<longleftrightarrow> (\<forall>j. j \<noteq> i \<longrightarrow> order_get (om_repos m') j = order_get (om_repos m) j)"

lemma transition_tracks:
  assumes "tracks x m" "may_move (or_status x) tg"
  obtains x' m' where "transition_to ev (\<lambda>_ w. w) x tg rc rm aty aid 3 mk m = (Inr x', m')" "or_status x' = tg"
    "or_order_request_id x' = or_order_request_id x" "same_elsewhere (or_order_request_id x) m m'"
    "\<exists>y. order_get (om_repos m') (or_order_request_id x) = Some y \<and> or_status y = tg \<and> or_order_request_id y = or_order_request_id x"
proof -
  define sub where "sub = (if mk \<and> or_submitted_at x = None then Some (now_at ev ''submitted_at'') else None)"
  define after where "after = replace_status (inside ''first'' 0 ev) x tg rc rm sub"
  obtain y where y: "order_get (om_repos m) (or_order_request_id after) = Some y" "or_status y = or_status x"
    "or_order_request_id y = or_order_request_id after"
    "or_version y = or_version after \<or> or_status y \<notin> set terminal_states"
    using assms(1) by (auto simp: tracks_def after_def)
  obtain a w z where l: "update_loop ev (\<lambda>_ w. w) tg rc rm sub 0 3 None after (om_repos m) = (Inr a, w)"
    "or_order_request_id a = or_order_request_id x" "or_status a = tg" "or_status_reason_code a = rc"
    "order_get w (or_order_request_id x) = Some z" "or_status z = tg" "or_order_request_id z = or_order_request_id x"
    "\<And>j. j \<noteq> or_order_request_id x \<Longrightarrow> order_get w j = order_get (om_repos m) j"
  proof (cases "or_version y = or_version after")
    case True
    let ?t = "now_at (inside ''update'' 0 ev) ''now''"
    obtain w z where u: "order_update_status ?t (or_order_request_id after) (or_status after) rc rm
        (Some (or_version after)) sub (om_repos m) = (Inr (), w)"
      "order_get w (or_order_request_id after) = Some z" "or_status z = or_status after"
      "or_order_request_id z = or_order_request_id y"
      using order_store.upd_match [OF y(1) True, of ?t "or_status after" rc rm sub] by auto
    show ?thesis
    proof (rule that [of after w z])
      show "update_loop ev (\<lambda>_ w. w) tg rc rm sub 0 3 None after (om_repos m) = (Inr after, w)"
        using u(1) by (simp add: numeral_3_eq_3 update_loop.simps)
      show "order_get w j = order_get (om_repos m) j" if "j \<noteq> or_order_request_id x" for j
        using order_store.upd_other [of j "or_order_request_id after" ?t "or_status after" rc rm _ sub "om_repos m"] u(1) that
        by (metis after_def replace_status_simps(1) snd_conv)
    qed (use u y in \<open>simp_all add: after_def\<close>)
  next
    case False
    then have n: "or_status y \<notin> set terminal_states" using y(4) by blast
    show ?thesis
      by (rule loop_stale [OF y(1) False n y(3), of tg ev rc rm sub 0 1 None])
        (use that in \<open>auto simp: after_def numeral_3_eq_3\<close>)
  qed
  obtain m' where c: "transition_to_core ev (\<lambda>_ w. w) x tg rc rm aty aid INTERNAL 3 mk m = (Inr a, m')"
    "committed ev x a INTERNAL m w m'"
    by (rule core_success [of ev "\<lambda>_ w. w" tg rc rm mk x 3 m a w]) (use l in \<open>auto simp: after_def sub_def\<close>)
  have o: "order_get (om_repos m') = order_get w"
    using c(2) by (intro order_get_cong) (simp add: committed_def)
  show ?thesis
    by (rule that [of a m'])
      (use c l o assms(2) in \<open>auto simp: transition_to_unfold same_elsewhere_def\<close>)
qed

lemmas move_tracks = transition_tracks [where aty = "''system''" and aid = "''order_manager''" and mk = False, folded move_def]

lemma move_refused:
  assumes "\<not> may_move (or_status x) tg"
  shows "\<exists>e. move ev others x tg rc rm m = (Inl e, m)"
  using assms by (simp add: move_def transition_to_unfold)

lemma tracks_after:
  assumes "\<exists>y. order_get (om_repos m) i = Some y \<and> or_status y = or_status x \<and> or_order_request_id y = i"
    and "or_order_request_id x = i" "or_status x \<notin> set terminal_states"
  shows "tracks x m"
  using assms by (auto simp: tracks_def)

text \<open>A chain of allowed moves through states that are not terminal arrives.\<close>

fun chain_ok :: "order_status \<Rightarrow> order_status list \<Rightarrow> bool" where
  "chain_ok s [] \<longleftrightarrow> True"
| "chain_ok s (t # ts) \<longleftrightarrow> s \<noteq> t \<and> may_move s t \<and> chain_ok t ts \<and> (ts = [] \<or> t \<notin> set terminal_states)"

lemma chain_arrives:
  assumes "tracks x m" "chain_ok (or_status x) steps" "steps \<noteq> []"
  shows "\<exists>x' m'. chain_steps ev (\<lambda>_ _ w. w) i target rc rm steps x m = (x', m')
     \<and> or_status x' = last steps \<and> or_order_request_id x' = or_order_request_id x
     \<and> same_elsewhere (or_order_request_id x) m m'
     \<and> (\<exists>y. order_get (om_repos m') (or_order_request_id x) = Some y \<and> or_status y = last steps \<and> or_order_request_id y = or_order_request_id x)"
  using assms
proof (induction steps arbitrary: x m i)
  case (Cons s steps)
  let ?rc = "if s = target then rc else None" and ?rm = "if s = target then rm else None"
  have mv: "may_move (or_status x) s" "or_status x \<noteq> s" using Cons.prems(2) by simp_all
  obtain x1 m1 where 1: "move (inside ''chain'' i ev) (\<lambda>_ w. w) x s ?rc ?rm m = (Inr x1, m1)" "or_status x1 = s"
    "or_order_request_id x1 = or_order_request_id x" "same_elsewhere (or_order_request_id x) m m1"
    "\<exists>y. order_get (om_repos m1) (or_order_request_id x) = Some y \<and> or_status y = s \<and> or_order_request_id y = or_order_request_id x"
    by (rule move_tracks [OF Cons.prems(1) mv(1), of "inside ''chain'' i ev" ?rc ?rm]) blast
  show ?case
  proof (cases "steps = []")
    case True
    then show ?thesis using 1 mv by auto
  next
    case False
    have t: "tracks x1 m1" using 1 Cons.prems(2) False by (intro tracks_after) auto
    have "chain_ok (or_status x1) steps" using Cons.prems(2) 1(2) by simp
    from Cons.IH [OF t this False, of "Suc i"] show ?thesis
      using 1 mv False by (auto simp: same_elsewhere_def)
  qed
qed simp

definition reachable :: "order_status \<Rightarrow> order_status \<Rightarrow> bool" where
  "reachable s t \<longleftrightarrow> s = t \<or> may_move s t
     \<or> (s, t) \<in> {(SUBMITTED, FILLED), (SUBMITTED, PARTIALLY_FILLED), (RECONCILE_REQUIRED, FILLED)}"

lemma chain_refused:
  "\<not> reachable s t \<Longrightarrow> build_transition_chain s t = [t]"
  by (cases s; cases t) (auto simp: reachable_def may_move_def)

lemma chain_found:
  "reachable s t \<Longrightarrow> s \<noteq> t \<Longrightarrow> \<not> may_move s t \<Longrightarrow>
     chain_ok s (build_transition_chain s t) \<and> build_transition_chain s t \<noteq> [] \<and> last (build_transition_chain s t) = t"
  by (auto simp: reachable_def may_move_def terminal_states_def)

lemma try_transition_reach:
  assumes "tracks x m"
  shows "\<exists>x' m'. try_transition ev (\<lambda>_ _ w. w) x target rc rm m = (x', m')
    \<and> or_status x' = (if reachable (or_status x) target then target else or_status x)
    \<and> or_order_request_id x' = or_order_request_id x \<and> same_elsewhere (or_order_request_id x) m m'
    \<and> map_option or_status (order_get (om_repos m') (or_order_request_id x)) = Some (or_status x')"
proof -
  have st: "map_option or_status (order_get (om_repos m) (or_order_request_id x)) = Some (or_status x)"
    using assms by (auto simp: tracks_def)
  consider (here) "or_status x = target" | (direct) "or_status x \<noteq> target" "may_move (or_status x) target"
    | (chain) "or_status x \<noteq> target" "\<not> may_move (or_status x) target" "reachable (or_status x) target"
    | (stuck) "or_status x \<noteq> target" "\<not> may_move (or_status x) target" "\<not> reachable (or_status x) target"
    by blast
  then show ?thesis
  proof cases
    case here
    then show ?thesis using st by (simp add: try_transition_def reachable_def same_elsewhere_def)
  next
    case direct
    show ?thesis
      by (rule move_tracks [OF assms direct(2), of "inside ''direct'' 0 ev" rc rm])
        (use direct in \<open>auto simp: try_transition_def reachable_def\<close>)
  next
    case chain
    note f = chain_found [OF chain(3,1,2)]
    obtain e where e: "move (inside ''direct'' 0 ev) (\<lambda>_ w. w) x target rc rm m = (Inl e, m)"
      using move_refused [OF chain(2)] by blast
    show ?thesis
      using chain_arrives [OF assms, of "build_transition_chain (or_status x) target" ev 0 target rc rm] f e chain
      by (auto simp: try_transition_def Let_def)
  next
    case stuck
    obtain e where e: "move (inside ''direct'' 0 ev) (\<lambda>_ w. w) x target rc rm m = (Inl e, m)"
      using move_refused [OF stuck(2)] by blast
    obtain e' where e': "move (inside ''chain'' 0 ev) (\<lambda>_ w. w) x target rc rm m = (Inl e', m)"
      using move_refused [OF stuck(2)] by blast
    show ?thesis
      using stuck st e e' by (simp add: try_transition_def Let_def chain_refused same_elsewhere_def)
  qed
qed

end
