(* ===== verification/Order_Moves.thy ===== *)
theory Order_Moves
  imports Order_Sync_Probe
begin

text \<open>
  What a transition may do to the stored orders while other coroutines leave them alone: it
  writes at most the order it was called for, and only the statuses on its way.  The relation
  \<open>moves\<close> composes, so that the effect of a synchronisation is put together from its steps.
\<close>

section \<open>Which statuses a step may write\<close>

definition orders_keyed :: "repos \<Rightarrow> bool" where
  "orders_keyed r \<longleftrightarrow> distinct (map fst (rp_orders r))
     \<and> (\<forall>k x. order_get r k = Some x \<longrightarrow> or_order_request_id x = k)"

lemma orders_keyed_listed:
  assumes "orders_keyed r" "x \<in> snd ` set (rp_orders r)"
  shows "order_get r (or_order_request_id x) = Some x"
proof -
  obtain k where "order_get r k = Some x"
    using assms by (auto simp: orders_keyed_def order_get_def)
  then show ?thesis using assms(1) by (auto simp: orders_keyed_def)
qed

definition order_status_of :: "repos \<Rightarrow> uuid \<Rightarrow> order_status option" where
  "order_status_of r k = map_option or_status (order_get r k)"

text \<open>What no transition changes.\<close>

definition order_facts :: "order_request \<Rightarrow> uuid \<times> order_side \<times> timestamp option \<times> rat \<times> uuid \<times> uuid" where
  "order_facts x = (or_order_request_id x, or_side x, or_created_at x, or_requested_quantity x, or_account_id x,
     or_instrument_id x)"

definition same_facts :: "repos \<Rightarrow> repos \<Rightarrow> bool" where
  "same_facts r r' \<longleftrightarrow> map fst (rp_orders r') = map fst (rp_orders r)
     \<and> (\<forall>k. map_option order_facts (order_get r' k) = map_option order_facts (order_get r k))"

lemma same_facts_trans: "same_facts r r' \<Longrightarrow> same_facts r' r'' \<Longrightarrow> same_facts r r''"
  by (simp add: same_facts_def)

lemma same_factsE:
  assumes "same_facts r r'" "order_get r k = Some x"
  obtains y where "order_get r' k = Some y" "order_facts y = order_facts x"
proof -
  have "map_option order_facts (order_get r' k) = Some (order_facts x)" using assms by (simp add: same_facts_def)
  then show ?thesis using that by (cases "order_get r' k") auto
qed

lemma same_facts_keyed:
  assumes m: "same_facts r r'" and k: "orders_keyed r"
  shows "orders_keyed r'"
proof -
  have "distinct (map fst (rp_orders r'))" using m k by (simp add: same_facts_def orders_keyed_def)
  moreover have "\<forall>j y. order_get r' j = Some y \<longrightarrow> or_order_request_id y = j"
  proof (intro allI impI)
    fix j y assume y: "order_get r' j = Some y"
    have "map_option order_facts (order_get r' j) = map_option order_facts (order_get r j)"
      using m unfolding same_facts_def by blast
    with y obtain x where "order_get r j = Some x" "order_facts x = order_facts y"
      by (cases "order_get r j") auto
    then show "or_order_request_id y = j" using k by (simp add: orders_keyed_def order_facts_def)
  qed
  ultimately show ?thesis by (simp add: orders_keyed_def)
qed

definition same_submitted :: "repos \<Rightarrow> repos \<Rightarrow> bool" where
  "same_submitted r r' \<longleftrightarrow>
     (\<forall>k. map_option or_submitted_at (order_get r' k) = map_option or_submitted_at (order_get r k))"

lemma same_submitted_trans: "same_submitted r r' \<Longrightarrow> same_submitted r' r'' \<Longrightarrow> same_submitted r r''"
  by (simp add: same_submitted_def)

text \<open>From \<open>r\<close> to \<open>r'\<close> only order \<open>i\<close> may have moved, to one of the statuses \<open>S\<close>; the time of
  submission is only written together with the status.\<close>

definition moves :: "repos \<Rightarrow> uuid \<Rightarrow> order_status set \<Rightarrow> repos \<Rightarrow> bool" where
  "moves r i S r' \<longleftrightarrow> same_facts r r' \<and>
     (\<forall>k. order_status_of r' k = order_status_of r k \<or> k = i \<and> (\<exists>s \<in> S. order_status_of r' k = Some s))
     \<and> (SUBMITTED \<in> S \<or> same_submitted r r')"

lemma moves_same_facts: "moves r i S r' \<Longrightarrow> same_facts r r'"
  by (simp add: moves_def)

lemma moves_same: "rp_orders r' = rp_orders r \<Longrightarrow> moves r i S r'"
  using order_get_cong [of r' r] by (simp add: moves_def same_facts_def same_submitted_def order_status_of_def)

lemma moves_refl [simp]: "moves r i S r" by (simp add: moves_same)

lemma moves_trans [trans]:
  assumes "moves r i S r'" "moves r' i S r''"
  shows "moves r i S r''"
proof -
  have "order_status_of r'' k = order_status_of r k \<or> k = i \<and> (\<exists>s \<in> S. order_status_of r'' k = Some s)" for k
    using assms unfolding moves_def by metis
  then show ?thesis
    using assms same_facts_trans [of r r' r''] same_submitted_trans [of r r' r''] by (simp add: moves_def) blast
qed

lemma moves_mono: "moves r i S r' \<Longrightarrow> S \<subseteq> T \<Longrightarrow> moves r i T r'"
  unfolding moves_def by (meson subsetD)

lemmas moves_keyed = same_facts_keyed [OF moves_same_facts]

lemma order_update_status_cases:
  assumes "order_update_status t i s rc rm v sub r = (res, r')"
  obtains (same) "r' = r"
  | (written) x y where "order_get r i = Some x" "order_get r' i = Some y" "or_status y = s"
      "order_facts y = order_facts x" "\<And>j. j \<noteq> i \<Longrightarrow> order_get r' j = order_get r j"
proof (cases "order_get r i")
  case None
  then show ?thesis using assms same by (simp add: order_update_status_def order_get_def)
next
  case (Some x)
  show ?thesis
  proof (cases "\<exists>u. v = Some u \<and> or_version x \<noteq> u")
    case True
    then show ?thesis using assms same Some by (auto simp: order_update_status_def order_get_def)
  next
    case False
    then have "\<exists>y. order_get r' i = Some y \<and> or_status y = s \<and> order_facts y = order_facts x
        \<and> (\<forall>j. j \<noteq> i \<longrightarrow> order_get r' j = order_get r j)"
      using assms Some by (cases v) (auto simp: order_update_status_def order_get_def order_facts_def)
    then show ?thesis using written [OF Some] by blast
  qed
qed

lemma update_status_keys:
  "map fst (rp_orders (snd (order_update_status t i s rc rm v sub r))) = map fst (rp_orders r)"
  by (simp add: order_update_status_def update_known_key split: option.split)

lemma update_status_submitted:
  "s \<noteq> SUBMITTED \<Longrightarrow> same_submitted r (snd (order_update_status t i s rc rm v None r))"
  by (simp add: same_submitted_def order_update_status_def order_get_def split: option.split)

lemma update_status_moves:
  assumes "sub = None \<or> s = SUBMITTED"
  shows "moves r i {s} (snd (order_update_status t i s rc rm v sub r))"
proof (rule order_update_status_cases [of t i s rc rm v sub r "fst (order_update_status t i s rc rm v sub r)"
      "snd (order_update_status t i s rc rm v sub r)"])
  fix x y
  assume a: "order_get r i = Some x" "order_get (snd (order_update_status t i s rc rm v sub r)) i = Some y"
    "or_status y = s" "order_facts y = order_facts x"
    "\<And>j. j \<noteq> i \<Longrightarrow> order_get (snd (order_update_status t i s rc rm v sub r)) j = order_get r j"
  show ?thesis
    unfolding moves_def same_facts_def
  proof (intro conjI update_status_keys allI)
    show "SUBMITTED \<in> {s} \<or> same_submitted r (snd (order_update_status t i s rc rm v sub r))"
      by (cases "s = SUBMITTED") (use assms update_status_submitted in simp_all)
    fix k
    show "map_option order_facts (order_get (snd (order_update_status t i s rc rm v sub r)) k) =
        map_option order_facts (order_get r k)"
      using a by (cases "k = i") simp_all
    show "order_status_of (snd (order_update_status t i s rc rm v sub r)) k = order_status_of r k
          \<or> k = i \<and> (\<exists>s' \<in> {s}. order_status_of (snd (order_update_status t i s rc rm v sub r)) k = Some s')"
      using a by (cases "k = i") (simp_all add: order_status_of_def)
  qed
qed simp_all

lemma update_status_broker_orders [simp]:
  "rp_broker_orders (snd (order_update_status t i s rc rm v sub r)) = rp_broker_orders r"
  by (simp add: order_update_status_def split: option.split)

text \<open>Other coroutines that leave the orders and broker orders alone.\<close>

definition leaves_orders :: "interference \<Rightarrow> bool" where
  "leaves_orders others \<longleftrightarrow> (\<forall>p r. rp_orders (others p r) = rp_orders r \<and> rp_broker_orders (others p r) = rp_broker_orders r)"

lemma order_facts_replace [simp]: "order_facts (replace_status ev x st rc rm sub) = order_facts x"
  by (simp add: order_facts_def replace_status_def Let_def)

lemma loop_moves:
  assumes "leaves_orders others" and sub: "sub = None \<or> tg = SUBMITTED" and "orders_keyed r" "or_status after = tg"
    and "update_loop ev others tg rc rm sub i n l after r = (res, r')"
    and "order_get r (or_order_request_id after) = Some y" "order_facts y = order_facts after"
  shows "moves r (or_order_request_id after) {tg} r' \<and> rp_broker_orders r' = rp_broker_orders r
    \<and> (\<forall>a. res = Inr a \<longrightarrow> order_facts a = order_facts after \<and> or_status a = tg)"
  using assms(3-)
proof (induction n arbitrary: i l after r y)
  case 0
  then show ?case by (auto simp: update_loop.simps split: option.splits)
next
  case (Suc n)
  let ?t = "now_at (inside ''update'' i ev) ''now''" and ?id = "or_order_request_id after"
  let ?u = "order_update_status ?t ?id (or_status after) rc rm (Some (or_version after)) sub r"
  have m: "moves r ?id {tg} (snd ?u)" "rp_broker_orders (snd ?u) = rp_broker_orders r"
    using update_status_moves [of sub "or_status after" r ?id ?t rc rm "Some (or_version after)"] Suc.prems(2) sub
    by simp_all
  show ?case
  proof (cases rule: order_store.upd_cases [of r ?id ?t "or_status after" rc rm "or_version after" sub])
    case missing
    then show ?thesis using Suc.prems(4) by simp
  next
    case (match x s' z)
    then show ?thesis using Suc.prems(2,3) m by (auto simp: update_loop.simps)
  next
    case (conflict x)
    show ?thesis
    proof (cases "or_status x \<in> set terminal_states")
      case True
      then show ?thesis using conflict Suc.prems(3) by (auto simp: update_loop.simps)
    next
      case False
      let ?a = "replace_status (inside ''retry'' i ev) x tg rc rm (case sub of Some t \<Rightarrow> Some t | None \<Rightarrow> or_submitted_at x)"
      let ?r = "if n = 0 then r else others (''retry'', i) r"
      have r: "rp_orders ?r = rp_orders r" "rp_broker_orders ?r = rp_broker_orders r"
        using assms(1) by (simp_all add: leaves_orders_def)
      have k: "orders_keyed ?r" by (rule moves_keyed [OF moves_same [OF r(1)] Suc.prems(1)])
      have id: "or_order_request_id ?a = ?id" using conflict(1) Suc.prems(1) by (simp add: orders_keyed_def)
      have "update_loop ev others tg rc rm sub (Suc i) n
          (Some (Version_Conflict ?id (or_version after) (or_version x))) ?a ?r = (res, r')"
        using Suc.prems(3) conflict False by (simp add: update_loop.simps)
      moreover have "order_get ?r (or_order_request_id ?a) = Some x" using conflict(1) id order_get_cong [OF r(1)] by simp
      moreover have f: "order_facts ?a = order_facts after" "order_facts x = order_facts ?a"
        using conflict(1) Suc.prems(4,5) by simp_all
      ultimately have "moves ?r ?id {tg} r' \<and> rp_broker_orders r' = rp_broker_orders r
        \<and> (\<forall>a. res = Inr a \<longrightarrow> order_facts a = order_facts after \<and> or_status a = tg)"
        using Suc.IH [OF k _ _ _ f(2), of "Suc i"] id r(2) f(1) by (metis replace_status_simps(2))
      then show ?thesis using moves_trans [OF moves_same [OF r(1)]] by blast
    qed
  qed
qed

text \<open>An entity that is backed by the store.\<close>

definition backed :: "order_request \<Rightarrow> repos \<Rightarrow> bool" where
  "backed x r \<longleftrightarrow> orders_keyed r \<and> (\<exists>y. order_get r (or_order_request_id x) = Some y \<and> order_facts y = order_facts x)"

lemma backed_facts:
  assumes "backed x r" "same_facts r r'" "order_facts x' = order_facts x"
  shows "backed x' r'"
proof -
  obtain y where "orders_keyed r" "order_get r (or_order_request_id x) = Some y" "order_facts y = order_facts x"
    using assms(1) by (auto simp: backed_def)
  moreover have "or_order_request_id x' = or_order_request_id x" using assms(3) by (simp add: order_facts_def)
  ultimately show ?thesis
    using same_factsE [OF assms(2)] same_facts_keyed [OF assms(2)] assms(3) unfolding backed_def by metis
qed

lemma backed_moves: "backed x r \<Longrightarrow> moves r i S r' \<Longrightarrow> order_facts x' = order_facts x \<Longrightarrow> backed x' r'"
  using backed_facts moves_same_facts by blast

lemma core_moves:
  assumes "leaves_orders others" "backed x (om_repos m)" and mk: "mk \<longrightarrow> tg = SUBMITTED"
    and "transition_to_core ev others x tg rc rm aty aid src n mk m = (res, m')"
  shows "moves (om_repos m) (or_order_request_id x) {tg} (om_repos m')
    \<and> rp_broker_orders (om_repos m') = rp_broker_orders (om_repos m)
    \<and> (\<forall>a. res = Inr a \<longrightarrow> order_facts a = order_facts x \<and> or_status a = tg)"
proof -
  define sub where "sub = (if mk \<and> or_submitted_at x = None then Some (now_at ev ''submitted_at'') else None)"
  define after where "after = replace_status (inside ''first'' 0 ev) x tg rc rm sub"
  obtain r w where l: "update_loop ev others tg rc rm sub 0 n None after (om_repos m) = (r, w)" by force
  have s: "or_status after = tg" "sub = None \<or> tg = SUBMITTED" using mk by (simp_all add: after_def sub_def)
  obtain y where y: "orders_keyed (om_repos m)" "order_get (om_repos m) (or_order_request_id after) = Some y"
    "order_facts y = order_facts after"
    using assms(2) by (auto simp: backed_def after_def)
  have c: "rp_orders (om_repos m') = rp_orders w \<and> rp_broker_orders (om_repos m') = rp_broker_orders w \<and> (\<forall>a. res = Inr a \<longrightarrow> r = Inr a)"
    using assms(4) [unfolded transition_to_core_def Let_def, folded sub_def, folded after_def, unfolded l]
    by (cases r) auto
  note v = loop_moves [OF assms(1) s(2) y(1) s(1) l y(2,3)]
  have "moves (om_repos m) (or_order_request_id after) {tg} (om_repos m')"
    using moves_trans [OF conjunct1 [OF v] moves_same] c by blast
  moreover have "or_order_request_id after = or_order_request_id x" "order_facts after = order_facts x"
    by (simp_all add: after_def)
  ultimately show ?thesis using c v by metis
qed

lemma transition_to_moves:
  assumes "leaves_orders others" "backed x (om_repos m)"
    and "transition_to ev others x tg rc rm aty aid n False m = (res, m')"
  shows "moves (om_repos m) (or_order_request_id x) {tg} (om_repos m')"
    "rp_broker_orders (om_repos m') = rp_broker_orders (om_repos m)"
    "res = Inr a \<Longrightarrow> order_facts a = order_facts x \<and> or_status a = tg"
  using assms core_moves [OF assms(1,2), where mk = False] by (auto simp: transition_to_unfold split: if_splits)

text \<open>A transition with its chains passes only through acknowledgement and partial fills.\<close>

lemma chain_moves:
  assumes "\<And>p. leaves_orders (others p)" "backed x (om_repos m)"
    and "chain_steps ev others i target rc rm steps x m = (x', m')"
  shows "moves (om_repos m) (or_order_request_id x) (set steps) (om_repos m')
    \<and> rp_broker_orders (om_repos m') = rp_broker_orders (om_repos m) \<and> order_facts x' = order_facts x
    \<and> or_status x' \<in> insert (or_status x) (set steps)"
  using assms(2,3)
proof (induction steps arbitrary: x m i)
  case (Cons s steps)
  let ?mv = "move (inside ''chain'' i ev) (others (''chain'', i)) x s (if s = target then rc else None)
      (if s = target then rm else None) m"
  show ?case
  proof (cases "or_status x = s")
    case True
    then have "chain_steps ev others (Suc i) target rc rm steps x m = (x', m')" using Cons.prems(2) by simp
    note c = Cons.IH [OF Cons.prems(1) this]
    from c moves_mono [OF conjunct1 [OF c], of "set (s # steps)"] show ?thesis by auto
  next
    case False
    obtain res m1 where mv: "?mv = (res, m1)" by force
    note t = transition_to_moves [OF assms(1) Cons.prems(1) mv [unfolded move_def]]
    show ?thesis
    proof (cases res)
      case (Inl e)
      then show ?thesis using mv False Cons.prems(2) t(1,2) moves_mono [OF t(1), of "set (s # steps)"] by auto
    next
      case (Inr a)
      have id: "or_order_request_id a = or_order_request_id x" using t(3) [OF Inr] by (simp add: order_facts_def)
      have "chain_steps ev others (Suc i) target rc rm steps a m1 = (x', m')"
        using mv False Cons.prems(2) Inr by simp
      moreover have "backed a (om_repos m1)" using backed_moves [OF Cons.prems(1) t(1)] t(3) [OF Inr] by blast
      ultimately have c: "moves (om_repos m1) (or_order_request_id x) (set steps) (om_repos m')
        \<and> rp_broker_orders (om_repos m') = rp_broker_orders (om_repos m1) \<and> order_facts x' = order_facts a
        \<and> or_status x' \<in> insert (or_status a) (set steps)"
        using Cons.IH id by metis
      have "moves (om_repos m) (or_order_request_id x) (set (s # steps)) (om_repos m')"
        by (rule moves_trans [OF moves_mono [OF t(1)] moves_mono [OF conjunct1 [OF c]]]) auto
      then show ?thesis using c t(2) t(3) [OF Inr] by auto
    qed
  qed
qed simp

lemma chain_set: "set (build_transition_chain s t) \<subseteq> {t, ACKNOWLEDGED, PARTIALLY_FILLED}"
  by (cases "(s, t)" rule: build_transition_chain.cases) auto

lemma try_transition_moves:
  assumes "\<And>p. leaves_orders (others p)" "backed x (om_repos m)"
    and "try_transition ev others x target rc rm m = (x', m')"
  shows "moves (om_repos m) (or_order_request_id x) {target, ACKNOWLEDGED, PARTIALLY_FILLED} (om_repos m')"
    "rp_broker_orders (om_repos m') = rp_broker_orders (om_repos m)" "order_facts x' = order_facts x"
    "or_status x' \<in> {or_status x, target, ACKNOWLEDGED, PARTIALLY_FILLED}"
proof -
  obtain res m1 where mv: "move (inside ''direct'' 0 ev) (others (''direct'', 0)) x target rc rm m = (res, m1)" by force
  note t = transition_to_moves [OF assms(1,2) mv [unfolded move_def]]
  have "moves (om_repos m) (or_order_request_id x) {target, ACKNOWLEDGED, PARTIALLY_FILLED} (om_repos m')
    \<and> rp_broker_orders (om_repos m') = rp_broker_orders (om_repos m) \<and> order_facts x' = order_facts x
    \<and> or_status x' \<in> {or_status x, target, ACKNOWLEDGED, PARTIALLY_FILLED}"
  proof (cases "or_status x = target \<or> is_ok res")
    case True
    then show ?thesis
      using assms(3) mv t moves_mono [OF t(1)] by (auto simp: try_transition_def is_ok_def split: sum.splits if_splits)
  next
    case False
    then obtain e where e: "res = Inl e" "or_status x \<noteq> target" by (auto simp: is_ok_def split: sum.splits)
    have c: "build_transition_chain (or_status x) target \<noteq> []"
      by (cases "(or_status x, target)" rule: build_transition_chain.cases) auto
    have "chain_steps ev others 0 target rc rm (build_transition_chain (or_status x) target) x m1 = (x', m')"
      using assms(3) mv e c by (simp add: try_transition_def Let_def)
    note c = chain_moves [OF assms(1) backed_moves [OF assms(2) t(1) refl] this]
    have "moves (om_repos m) (or_order_request_id x) {target, ACKNOWLEDGED, PARTIALLY_FILLED} (om_repos m')"
      by (rule moves_trans [OF moves_mono [OF t(1)] moves_mono [OF conjunct1 [OF c] chain_set]]) auto
    then show ?thesis using c t(2) chain_set [of "or_status x" target] by auto
  qed
  then show "moves (om_repos m) (or_order_request_id x) {target, ACKNOWLEDGED, PARTIALLY_FILLED} (om_repos m')"
    "rp_broker_orders (om_repos m') = rp_broker_orders (om_repos m)" "order_facts x' = order_facts x"
    "or_status x' \<in> {or_status x, target, ACKNOWLEDGED, PARTIALLY_FILLED}" by blast+
qed

end
