(* ===== verification/Order_Sync.thy ===== *)
theory Order_Sync
  imports Order_Sync_Probe
begin

text \<open>
  The synchronisation of one order with the broker (\<^verbatim>\<open>services/order_sync_service.py\<close>): the entry point
  \<open>sync_order_post_submit\<close> and the backfill \<open>recover_expired_sell_by_position\<close>.

  A \<open>setting\<close> holds what a call is given from outside: clock and identifiers, the broker's answers
  (\<open>Inl\<close> is an exception), what other coroutines do while a broker call is awaited (\<open>se_waits\<close>) and
  while the order manager waits for a retry (\<open>se_others\<close>), and the callback that refreshes the
  snapshots of an account.
\<close>

section \<open>Setting and results\<close>

record setting =
  se_env :: env
  se_uuid5 :: "uuid \<Rightarrow> uuid \<Rightarrow> uuid"
  se_order_status :: "order_error + order_status_result"
  se_unknown_state :: "order_error + order_status_result"
  se_fills :: "order_error + fill_report list"
  se_positions :: "order_error + (uuid \<times> rat) list"
  se_waits :: "string \<Rightarrow> sync_world \<Rightarrow> sync_world"
  se_others :: "string \<Rightarrow> string \<times> nat \<Rightarrow> interference"
  se_refresh :: "refresh_cb option"

datatype sync_note =
    Broker_Order_Missing uuid
  | Order_Missing uuid
  | Non_Syncable order_status
  | Probe_Conflict truth_probe_reason
  | Status_Failed "truth_probe_reason option" order_error
  | Probe_Pending

record sync_order_result =
  so_broker_order_id :: uuid
  so_previous_status :: order_status
  so_current_status :: order_status
  so_status_changed :: bool
  so_fills_synced :: nat
  so_fills_skipped :: nat
  so_terminal :: bool
  so_snapshot_triggered :: bool
  so_last_synced_at :: timestamp
  so_error :: "sync_note option"

text \<open>Steps that may raise, in sequence.\<close>

definition and_then :: "('e + 'a) \<times> 's \<Rightarrow> ('a \<Rightarrow> 's \<Rightarrow> ('e + 'b) \<times> 's) \<Rightarrow> ('e + 'b) \<times> 's" where
  "and_then r f = (case r of (Inl e, s) \<Rightarrow> (Inl e, s) | (Inr a, s) \<Rightarrow> f a s)"

definition set_broker_status ::
  "uuid \<Rightarrow> string \<Rightarrow> timestamp \<Rightarrow> sync_world \<Rightarrow> (sync_error + unit) \<times> sync_world" where
  "set_broker_status broker_order_id status t w =
     (case broker_order_update broker_order_id (Some status) None (Some t) (sy_base w) of
        (r, b) \<Rightarrow> (map_sum Order_Failure id r, put_base b w))"

definition update_last_synced_at ::
  "uuid \<Rightarrow> timestamp \<Rightarrow> sync_world \<Rightarrow> (sync_error + unit) \<times> sync_world" where
  "update_last_synced_at broker_order_id t w =
     (case broker_order_update broker_order_id None (Some t) (Some t) (sy_base w) of
        (r, b) \<Rightarrow> (map_sum Order_Failure id r, put_base b w))"

definition write_reason ::
  "timestamp \<Rightarrow> order_request \<Rightarrow> string \<Rightarrow> message \<Rightarrow> sync_world \<Rightarrow> (sync_error + order_request) \<times> sync_world" where
  "write_reason now order code text w =
     (case order_update_status now (or_order_request_id order) (or_status order) (Some code) (Some text)
             None None (sy_base w) of
        (Inl e, b) \<Rightarrow> (Inl (Order_Failure e), put_base b w)
      | (Inr _, b) \<Rightarrow>
          (Inr (order\<lparr>or_status_reason_code := Some code, or_status_reason_message := Some text\<rparr>), put_base b w))"

definition st_transition ::
  "setting \<Rightarrow> string \<Rightarrow> order_request \<Rightarrow> order_status \<Rightarrow> string option \<Rightarrow> message option \<Rightarrow> sync_world
   \<Rightarrow> order_request \<times> sync_world" where
  "st_transition st label = sync_transition (inside label 0 (se_env st)) (se_others st label)"

definition refresh_snapshots :: "setting \<Rightarrow> string \<Rightarrow> uuid \<Rightarrow> sync_world \<Rightarrow> bool \<times> sync_world" where
  "refresh_snapshots st label account_id w =
     (case se_refresh st of None \<Rightarrow> (False, w) | Some cb \<Rightarrow> cb (label, 0) account_id w)"

definition st_sync_fills ::
  "setting \<Rightarrow> order_request \<Rightarrow> broker_order \<Rightarrow> sync_world \<Rightarrow> (sync_error + nat \<times> nat) \<times> sync_world" where
  "st_sync_fills st order broker_order w =
     sync_fills (se_uuid5 st) (inside ''sync_fills'' 0 (se_env st)) (se_fills st) broker_order
       (or_account_id order) (or_instrument_id order) (or_side order) (se_waits st ''get_fills'' w)"

section \<open>Expired orders\<close>

text \<open>First the broker: \<open>recovered\<close>, the order as the method holds it, and the repositories.  An
  exception leaves the flag unset and the order where the last assignment put it.\<close>

definition reflect_recovery ::
  "setting \<Rightarrow> order_request \<Rightarrow> broker_order \<Rightarrow> order_status \<Rightarrow> order_status \<Rightarrow> sync_world
   \<Rightarrow> bool \<times> order_request \<times> sync_world" where
  "reflect_recovery st order broker_order reported target w =
     (let (order, w) = st_transition st ''recover'' order target None None w
      in if bo_broker_status broker_order \<noteq> status_value reported
         then (case set_broker_status (bo_broker_order_id broker_order) (status_value reported)
                      (now_at (se_env st) ''recover'') w of
                 (Inl _, w) \<Rightarrow> (False, order, w)
               | (Inr _, w) \<Rightarrow> (True, order, w))
         else (True, order, w))"

definition broker_recovery ::
  "setting \<Rightarrow> order_request \<Rightarrow> broker_order \<Rightarrow> sync_world \<Rightarrow> bool \<times> order_request \<times> sync_world" where
  "broker_recovery st order broker_order w =
     (let w = se_waits st ''get_order_status'' w
      in case se_order_status st of
           Inl _ \<Rightarrow> (False, order, w)
         | Inr result \<Rightarrow>
             (let reported = osr_status result
              in if reported \<in> {FILLED, PARTIALLY_FILLED} \<and> can_recover_expired (now_at (se_env st) ''can_recover'') order
                 then reflect_recovery st order broker_order reported reported w
                 else if or_side order = BUY \<and> or_text (bo_broker_native_order_id broker_order) [] \<noteq> []
                         \<and> reported \<in> {SUBMITTED, ACKNOWLEDGED, RECONCILE_REQUIRED}
                 then reflect_recovery st order broker_order reported RECONCILE_REQUIRED w
                 else (False, order, w)))"

text \<open>Then, for a sale, the position.\<close>

definition position_recovery ::
  "setting \<Rightarrow> order_request \<Rightarrow> broker_order \<Rightarrow> sync_world \<Rightarrow> order_request \<times> bool \<times> sync_world" where
  "position_recovery st order broker_order w =
     (case infer_sell_order_fill_via_position (se_refresh st) order broker_order w of
        (None, w) \<Rightarrow> (order, False, w)
      | (Some inferred, w) \<Rightarrow>
          if inferred \<in> {FILLED, PARTIALLY_FILLED} \<and> can_recover_expired (now_at (se_env st) ''can_recover'') order
          then
            (let (order, w) = st_transition st ''recover'' order inferred None None w
             in case set_broker_status (bo_broker_order_id broker_order) (status_value inferred)
                       (now_at (se_env st) ''recover'') w of
                  (Inl _, w) \<Rightarrow> (order, False, w)
                | (Inr _, w) \<Rightarrow>
                    if inferred = FILLED
                    then (let (done, w) = refresh_snapshots st ''recovered'' (or_account_id order) w
                          in (order, done, w))
                    else (order, False, w))
          else (order, False, w))"

definition recently_expired :: "timestamp \<Rightarrow> order_request \<Rightarrow> bool" where
  "recently_expired now order \<longleftrightarrow> or_status order = EXPIRED
     \<and> (case or_updated_at order of None \<Rightarrow> False | Some t \<Rightarrow> now - t < seconds 86400)"

definition sync_terminal ::
  "setting \<Rightarrow> timestamp \<Rightarrow> uuid \<Rightarrow> order_request \<Rightarrow> broker_order \<Rightarrow> sync_world
   \<Rightarrow> (sync_error + sync_order_result) \<times> sync_world" where
  "sync_terminal st now broker_order_id order broker_order w =
     (let previous = or_status order;
          result = (\<lambda>current triggered.
            \<lparr>so_broker_order_id = broker_order_id, so_previous_status = previous, so_current_status = current,
             so_status_changed = (current \<noteq> previous), so_fills_synced = 0, so_fills_skipped = 0,
             so_terminal = (current \<in> set terminal_statuses), so_snapshot_triggered = triggered,
             so_last_synced_at = now, so_error = None\<rparr>)
      in if recently_expired (now_at (se_env st) ''expiry'') order
         then
           (let (recovered, order, w) = broker_recovery st order broker_order w;
                (order, triggered, w) =
                  (if \<not> recovered \<and> or_side order = SELL then position_recovery st order broker_order w
                   else (order, False, w))
            in and_then (update_last_synced_at broker_order_id now w) (\<lambda>_ w.
                 (Inr (if recovered then result (or_status order) triggered else result previous False), w)))
         else and_then (update_last_synced_at broker_order_id now w) (\<lambda>_ w. (Inr (result previous False), w)))"

section \<open>A resolved probe\<close>

definition reflect_probe ::
  "setting \<Rightarrow> order_request \<Rightarrow> order_status \<Rightarrow> string \<Rightarrow> message \<Rightarrow> bool \<Rightarrow> sync_world
   \<Rightarrow> (sync_error + order_request) \<times> sync_world" where
  "reflect_probe st order probe_status code text reason_changed w =
     (if probe_status \<noteq> or_status order
      then (let (order, w) = st_transition st ''probe'' order probe_status (Some code) (Some text) w
            in (Inr order, w))
      else if reason_changed then write_reason (now_at (se_env st) ''reason'') order code text w
      else (Inr order, w))"

definition finish_probe ::
  "setting \<Rightarrow> timestamp \<Rightarrow> uuid \<Rightarrow> order_status \<Rightarrow> truth_probe_reason option \<Rightarrow> bool \<Rightarrow> bool \<Rightarrow> order_request
   \<Rightarrow> broker_order \<Rightarrow> sync_world \<Rightarrow> (sync_error + sync_order_result) \<times> sync_world" where
  "finish_probe st now broker_order_id previous probe_reason status_changed reason_changed order broker_order w =
     (let current = or_status order;
          progress = (probe_reason = Some FILL_SNAPSHOT \<and> current = PARTIALLY_FILLED \<and> reason_changed);
          (triggered, w) =
            (if (status_changed \<and> current \<in> {PARTIALLY_FILLED, FILLED}) \<or> progress
             then refresh_snapshots st ''probe'' (or_account_id order) w else (False, w));
          conflict = (case probe_reason of
             None \<Rightarrow> None
           | Some r \<Rightarrow> if r \<in> {FILL_SNAPSHOT, POSITION_CONFLICT, BUY_POSITION_FILL} then None else Some (Probe_Conflict r));
          (fills, w) =
            (if probe_reason = Some FILL_SNAPSHOT
             then (case st_sync_fills st order broker_order w of
                     (Inl _, w) \<Rightarrow> ((0, 0), w)
                   | (Inr n, w) \<Rightarrow> (n, w))
             else ((0, 0), w))
      in (Inr \<lparr>so_broker_order_id = broker_order_id, so_previous_status = previous, so_current_status = current,
               so_status_changed = status_changed, so_fills_synced = fst fills, so_fills_skipped = snd fills,
               so_terminal = (current \<in> set terminal_statuses), so_snapshot_triggered = triggered,
               so_last_synced_at = now, so_error = conflict\<rparr>, w))"

definition sync_probe_resolved ::
  "setting \<Rightarrow> timestamp \<Rightarrow> uuid \<Rightarrow> order_request \<Rightarrow> broker_order \<Rightarrow> order_status \<Rightarrow> truth_probe_reason option
   \<Rightarrow> sync_world \<Rightarrow> (sync_error + sync_order_result) \<times> sync_world" where
  "sync_probe_resolved st now broker_order_id order broker_order probe_status probe_reason w =
     (let previous = or_status order;
          (code, text) = build_truth_probe_reason_message w order broker_order probe_status probe_reason;
          reason_changed = (or_status_reason_code order \<noteq> Some code \<or> or_status_reason_message order \<noteq> Some text)
      in and_then (reflect_probe st order probe_status code text reason_changed w) (\<lambda>order w.
         and_then
           (if bo_broker_status broker_order \<noteq> status_value probe_status
            then set_broker_status broker_order_id (status_value probe_status) now w else (Inr (), w)) (\<lambda>_ w.
         and_then (update_last_synced_at broker_order_id now w) (\<lambda>_ w.
         finish_probe st now broker_order_id previous probe_reason (probe_status \<noteq> previous) reason_changed order
           broker_order w))))"

section \<open>The broker's status\<close>

definition after_hours_stuck ::
  "timestamp \<Rightarrow> bool \<Rightarrow> nat \<Rightarrow> order_status \<Rightarrow> order_status \<Rightarrow> order_request \<Rightarrow> broker_order \<Rightarrow> bool" where
  "after_hours_stuck now is_after_hours fills_synced previous broker_status order broker_order \<longleftrightarrow>
     is_after_hours \<and> fills_synced = 0 \<and> or_side order = SELL
     \<and> previous \<in> {SUBMITTED, ACKNOWLEDGED}
     \<and> broker_status \<in> {SUBMITTED, ACKNOWLEDGED, RECONCILE_REQUIRED}
     \<and> or_status order \<in> {SUBMITTED, ACKNOWLEDGED, RECONCILE_REQUIRED}
     \<and> (case or_created_at order of
          None \<Rightarrow> False
        | Some t \<Rightarrow> resolve_after_hours_grace_period order broker_order \<le> now - t)"

text \<open>Expiry at the end of the day: \<open>Some\<close> is the result that is returned at once.\<close>

definition expire_order ::
  "setting \<Rightarrow> string \<Rightarrow> timestamp \<Rightarrow> uuid \<Rightarrow> order_request \<Rightarrow> string option \<Rightarrow> message option
   \<Rightarrow> (order_status \<Rightarrow> sync_order_result) \<Rightarrow> sync_world
   \<Rightarrow> (sync_error + sync_order_result option) \<times> sync_world" where
  "expire_order st label now broker_order_id order code text result w =
     (let (updated, w) = st_transition st label order EXPIRED code text w
      in if or_status updated \<noteq> or_status order
         then and_then (set_broker_status broker_order_id ''expired'' now w) (\<lambda>_ w.
              and_then (update_last_synced_at broker_order_id now w) (\<lambda>_ w.
              (Inr (Some (result (or_status updated))), w)))
         else (Inr None, w))"

definition finish_status ::
  "setting \<Rightarrow> timestamp \<Rightarrow> uuid \<Rightarrow> order_status \<Rightarrow> truth_probe_reason option \<Rightarrow> bool \<Rightarrow> nat \<times> nat \<Rightarrow> order_request
   \<Rightarrow> broker_order \<Rightarrow> sync_world \<Rightarrow> (sync_error + sync_order_result) \<times> sync_world" where
  "finish_status st now broker_order_id previous probe_reason status_changed fills order broker_order w =
     and_then (update_last_synced_at broker_order_id now w) (\<lambda>_ w.
     and_then
       (if probe_reason = Some FILL_SNAPSHOT_INCOMPLETE \<and> \<not> status_changed
        then (case build_pending_truth_probe_reason_message w order broker_order FILL_SNAPSHOT_INCOMPLETE of
                None \<Rightarrow> (Inr order, w)
              | Some (code, text) \<Rightarrow> write_reason (now_at (se_env st) ''reason'') order code text w)
        else (Inr order, w)) (\<lambda>order w.
     let current = or_status order;
         (triggered, w) =
           (if status_changed \<and> current \<in> {PARTIALLY_FILLED, FILLED}
            then refresh_snapshots st ''status'' (or_account_id order) w else (False, w))
     in (Inr \<lparr>so_broker_order_id = broker_order_id, so_previous_status = previous, so_current_status = current,
              so_status_changed = status_changed, so_fills_synced = fst fills, so_fills_skipped = snd fills,
              so_terminal = (current \<in> set terminal_statuses), so_snapshot_triggered = triggered,
              so_last_synced_at = now,
              so_error = (if probe_reason = Some FILL_SNAPSHOT_INCOMPLETE then Some Probe_Pending else None)\<rparr>, w)))"

definition expired_result ::
  "uuid \<Rightarrow> order_status \<Rightarrow> timestamp \<Rightarrow> nat \<Rightarrow> nat \<Rightarrow> order_status \<Rightarrow> sync_order_result" where
  "expired_result broker_order_id previous now synced skipped current =
     \<lparr>so_broker_order_id = broker_order_id, so_previous_status = previous, so_current_status = current,
      so_status_changed = True, so_fills_synced = synced, so_fills_skipped = skipped, so_terminal = True,
      so_snapshot_triggered = False, so_last_synced_at = now, so_error = None\<rparr>"

text \<open>After the transition: fills, the two cases of expiry, and the end.\<close>

definition settle_residual ::
  "setting \<Rightarrow> timestamp \<Rightarrow> bool \<Rightarrow> uuid \<Rightarrow> order_status \<Rightarrow> order_request \<Rightarrow> broker_order \<Rightarrow> truth_probe_reason option
   \<Rightarrow> order_status \<Rightarrow> nat \<times> nat \<Rightarrow> sync_world \<Rightarrow> (sync_error + sync_order_result) \<times> sync_world" where
  "settle_residual st now is_after_hours broker_order_id previous order broker_order probe_reason broker_status fills w =
     and_then
       (if is_after_hours
           \<and> is_prior_day_day_partial_sell_residual (now_at (se_env st) ''residual'') order broker_status
        then expire_order st ''residual'' now broker_order_id order
               (Some ''after_hours_day_partial_sell_residual_expired'')
               (Some (Plain ''After-hours cleanup: prior-day DAY partially filled SELL residual expired at market close''))
               (expired_result broker_order_id previous now (fst fills) (snd fills)) w
        else (Inr None, w)) (\<lambda>residual w.
     case residual of
       Some result \<Rightarrow> (Inr result, w)
     | None \<Rightarrow> finish_status st now broker_order_id previous probe_reason (or_status order \<noteq> previous) fills
                 order broker_order w)"

definition settle_status ::
  "setting \<Rightarrow> timestamp \<Rightarrow> bool \<Rightarrow> uuid \<Rightarrow> order_status \<Rightarrow> order_request \<Rightarrow> broker_order \<Rightarrow> truth_probe_reason option
   \<Rightarrow> order_status \<Rightarrow> sync_world \<Rightarrow> (sync_error + sync_order_result) \<times> sync_world" where
  "settle_status st now is_after_hours broker_order_id previous order broker_order probe_reason broker_status w =
     and_then
       (if broker_status \<in> set terminal_statuses then (Inr (0, 0), w)
        else st_sync_fills st order broker_order w) (\<lambda>fills w.
     and_then
       (if after_hours_stuck (now_at (se_env st) ''stuck'') is_after_hours (fst fills) previous broker_status
             order broker_order
        then expire_order st ''stuck'' now broker_order_id order None None
               (expired_result broker_order_id previous now 0 (snd fills)) w
        else (Inr None, w)) (\<lambda>stuck w.
     case stuck of
       Some result \<Rightarrow> (Inr result, w)
     | None \<Rightarrow> settle_residual st now is_after_hours broker_order_id previous order broker_order probe_reason
                 broker_status fills w))"

definition sync_status ::
  "setting \<Rightarrow> timestamp \<Rightarrow> bool \<Rightarrow> uuid \<Rightarrow> order_request \<Rightarrow> broker_order \<Rightarrow> truth_probe_reason option \<Rightarrow> order_status
   \<Rightarrow> sync_world \<Rightarrow> (sync_error + sync_order_result) \<times> sync_world" where
  "sync_status st now is_after_hours broker_order_id order broker_order probe_reason broker_status w =
     and_then
       (if bo_broker_status broker_order \<noteq> status_value broker_status
        then set_broker_status broker_order_id (status_value broker_status) now w else (Inr (), w)) (\<lambda>_ w.
     let previous = or_status order;
         (order, w) = (if broker_status \<noteq> previous
                       then st_transition st ''status'' order broker_status None None w else (order, w))
     in settle_status st now is_after_hours broker_order_id previous order broker_order probe_reason broker_status w)"

section \<open>The entry point\<close>

definition unchanged_result :: "uuid \<Rightarrow> order_status \<Rightarrow> timestamp \<Rightarrow> sync_note \<Rightarrow> sync_order_result" where
  "unchanged_result broker_order_id status now note =
     \<lparr>so_broker_order_id = broker_order_id, so_previous_status = status, so_current_status = status,
      so_status_changed = False, so_fills_synced = 0, so_fills_skipped = 0, so_terminal = False,
      so_snapshot_triggered = False, so_last_synced_at = now, so_error = Some note\<rparr>"

definition sync_order_post_submit ::
  "setting \<Rightarrow> bool option \<Rightarrow> uuid \<Rightarrow> sync_world \<Rightarrow> (sync_error + sync_order_result) \<times> sync_world" where
  "sync_order_post_submit st after_hours broker_order_id w =
     (let now = now_at (se_env st) ''now'';
          is_after_hours = (case after_hours of Some b \<Rightarrow> b | None \<Rightarrow> is_after_hours_now (now_at (se_env st) ''kst''))
      in case broker_order_get (sy_base w) broker_order_id of
           None \<Rightarrow> (Inr (unchanged_result broker_order_id RECONCILE_REQUIRED now (Broker_Order_Missing broker_order_id)), w)
         | Some broker_order \<Rightarrow>
             (case order_get (sy_base w) (bo_order_request_id broker_order) of
                None \<Rightarrow> (Inr (unchanged_result broker_order_id RECONCILE_REQUIRED now
                                (Order_Missing (bo_order_request_id broker_order))), w)
              | Some order \<Rightarrow>
                  if or_status order \<in> set terminal_statuses
                  then sync_terminal st now broker_order_id order broker_order w
                  else if or_status order \<notin> set syncable_statuses
                  then (Inr (unchanged_result broker_order_id (or_status order) now (Non_Syncable (or_status order))), w)
                  else
                    (let w1 = (if or_text (bo_broker_native_order_id broker_order) [] = []
                                  \<or> infer_linked_fill_snapshot_truth order (list_linked_fill_snapshots w order) \<noteq> None
                               then w else se_waits st ''resolve_unknown_state'' w);
                         (probe_status, probe_reason) =
                           (if or_text (bo_broker_native_order_id broker_order) [] = [] then (None, None)
                            else try_truth_probe (se_unknown_state st) order broker_order w w1)
                     in case probe_status of
                          Some s \<Rightarrow> sync_probe_resolved st now broker_order_id order broker_order s probe_reason w1
                        | None \<Rightarrow>
                            (let w2 = se_waits st ''get_order_status'' w1
                             in case se_order_status st of
                                  Inl e \<Rightarrow> (Inr (unchanged_result broker_order_id (or_status order) now
                                                   (Status_Failed probe_reason e)), w2)
                                | Inr result \<Rightarrow>
                                    sync_status st now is_after_hours broker_order_id order broker_order probe_reason
                                      (osr_status result) w2))))"

section \<open>Backfill\<close>

definition recover_expired_sell_by_position ::
  "setting \<Rightarrow> order_request \<Rightarrow> broker_order \<Rightarrow> sync_world
   \<Rightarrow> (sync_error + sync_order_result option) \<times> sync_world" where
  "recover_expired_sell_by_position st order broker_order w =
     (if or_side order \<noteq> SELL \<or> or_status order \<noteq> EXPIRED \<or> or_order_type order \<noteq> MARKET
         \<or> bo_broker_status broker_order \<in> {''rejected'', ''cancelled''}
         \<or> \<not> can_recover_expired (now_at (se_env st) ''can_recover'') order
      then (Inr None, w)
      else case infer_sell_order_fill_via_position (se_refresh st) order broker_order w of
             (None, w) \<Rightarrow> (Inr None, w)
           | (Some inferred, w) \<Rightarrow>
               if inferred \<notin> {FILLED, PARTIALLY_FILLED} then (Inr None, w)
               else
                 (let now = now_at (se_env st) ''now'';
                      (updated, w) = st_transition st ''backfill'' order inferred None None w
                  in and_then (set_broker_status (bo_broker_order_id broker_order) (status_value inferred) now w) (\<lambda>_ w.
                     let (triggered, w) = (if inferred = FILLED
                                           then refresh_snapshots st ''backfill'' (or_account_id order) w
                                           else (False, w))
                     in (Inr (Some \<lparr>so_broker_order_id = bo_broker_order_id broker_order,
                           so_previous_status = or_status order, so_current_status = or_status updated,
                           so_status_changed = (or_status updated \<noteq> or_status order), so_fills_synced = 0,
                           so_fills_skipped = 0, so_terminal = (or_status updated \<in> set terminal_statuses),
                           so_snapshot_triggered = triggered, so_last_synced_at = now, so_error = None\<rparr>), w))))"

end
