(* ===== verification/Order_Sync_Cycle.thy ===== *)
theory Order_Sync_Cycle
  imports Order_Sync
begin

text \<open>
  Orders whose state is unknown, orders that never reached the broker, and the batch runner
  (\<^verbatim>\<open>services/order_sync_service.py\<close>): the balance inquiry with its cooldown, \<open>transition_to_authoritative\<close>,
  the cleanup at the end of the day, the rejection of stale submissions and \<open>run_sync_cycle\<close>.
\<close>

section \<open>The balance inquiry\<close>

definition check_kis_inquiry_cooldown :: "timestamp \<Rightarrow> uuid \<Rightarrow> sync_world \<Rightarrow> bool" where
  "check_kis_inquiry_cooldown now account_id w =
     (case map_of (sy_last_kis_inquiry_at w) account_id of
        None \<Rightarrow> True
      | Some t \<Rightarrow> \<not> now - t < seconds 30)"

text \<open>An order is marked as asked for before the cooldown is looked at.\<close>

definition fetch_kis_current_position_qty ::
  "setting \<Rightarrow> string \<Rightarrow> order_request \<Rightarrow> sync_world \<Rightarrow> rat option \<times> sync_world" where
  "fetch_kis_current_position_qty st label order w =
     (let oid = or_order_request_id order; account_id = or_account_id order
      in if oid \<in> set (sy_kis_inquiry_seen w) then (None, w)
         else
           (let w = w\<lparr>sy_kis_inquiry_seen := oid # sy_kis_inquiry_seen w\<rparr>
            in if \<not> check_kis_inquiry_cooldown (now_at (inside label 0 (se_env st)) ''cooldown'') account_id w then (None, w)
               else case map_of (rp_accounts (sy_base w)) account_id of
                      None \<Rightarrow> (None, w)
                    | Some account \<Rightarrow>
                        (case map_of (sy_broker_accounts w) (ac_broker_account_id account) of
                           None \<Rightarrow> (None, w)
                         | Some account_ref \<Rightarrow>
                             (let w = w\<lparr>sy_last_kis_inquiry_at := AList.update account_id
                                        (now_at (inside label 0 (se_env st)) ''inquiry'') (sy_last_kis_inquiry_at w)\<rparr>;
                                  w = se_waits st ''get_positions'' w
                              in case se_positions st of
                                   Inl _ \<Rightarrow> (None, w)
                                 | Inr positions \<Rightarrow>
                                     (Some (case find_first (\<lambda>p. fst p = or_instrument_id order) positions of
                                              Some p \<Rightarrow> snd p | None \<Rightarrow> 0), w)))))"

definition try_kis_truth_fallback ::
  "setting \<Rightarrow> string \<Rightarrow> order_request \<Rightarrow> broker_order \<Rightarrow> sync_world \<Rightarrow> rat option \<times> sync_world" where
  "try_kis_truth_fallback st label order broker_order w =
     (if or_side order \<noteq> SELL then (None, w)
      else case pre_order_quantity w order broker_order of
             None \<Rightarrow> (None, w)
           | Some pre_qty \<Rightarrow>
               if pre_qty = 0 then (None, w)
               else
                 (let (kis_qty, w) = fetch_kis_current_position_qty st label order w;
                      current_qty = (case kis_qty of Some q \<Rightarrow> q | None \<Rightarrow> current_position_quantity w order);
                      delta = dsub pre_qty current_qty
                  in (if 0 < delta then Some delta else None, w)))"

definition is_genuine_manual_reconciliation ::
  "timestamp \<Rightarrow> order_request \<Rightarrow> order_status_result \<Rightarrow> sync_error + bool" where
  "is_genuine_manual_reconciliation now order result =
     (if or_text (osr_broker_order_id result) [] = [] then Inr True
      else case or_created_at order of
             None \<Rightarrow> Inl (Order_Failure Type_Error)
           | Some t \<Rightarrow> Inr (seconds 86400 < now - t))"

section \<open>Resolving an unknown state\<close>

definition found_result :: "broker_order \<Rightarrow> order_request \<Rightarrow> order_status \<Rightarrow> string \<Rightarrow> order_status_result" where
  "found_result broker_order order status text =
     \<lparr>osr_client_order_id = None, osr_broker_order_id = bo_broker_native_order_id broker_order, osr_status = status,
      osr_filled_quantity = Some (if status = FILLED then or_requested_quantity order else 0),
      osr_raw_code = Some [], osr_raw_message = Some text\<rparr>"

datatype attempt = Resolved order_status_result | Unresolved | Go_On

text \<open>
  Writing an inferred fill.  \<open>Unresolved\<close> returns \<open>None\<close> from the caller (an exception was logged),
  \<open>Go_On\<close> continues below: the order did not move.
\<close>

definition reflect_inferred_fill ::
  "setting \<Rightarrow> string \<Rightarrow> order_request \<Rightarrow> broker_order \<Rightarrow> order_status \<Rightarrow> string \<Rightarrow> sync_world \<Rightarrow> attempt \<times> sync_world" where
  "reflect_inferred_fill st label order broker_order inferred text w =
     (let (updated, w) = st_transition st label order inferred None None w
      in if or_status updated = or_status order then (Go_On, w)
         else if inferred = FILLED
         then (case set_broker_status (bo_broker_order_id broker_order) ''filled''
                      (now_at (inside label 0 (se_env st)) ''broker'') w of
                 (Inl _, w) \<Rightarrow> (Unresolved, w)
               | (Inr _, w) \<Rightarrow>
                   (Resolved (found_result broker_order order inferred text),
                    snd (refresh_snapshots st label (or_account_id order) w)))
         else (Resolved (found_result broker_order order inferred text), w))"

definition position_attempt ::
  "setting \<Rightarrow> string \<Rightarrow> order_request \<Rightarrow> broker_order \<Rightarrow> string \<Rightarrow> sync_world \<Rightarrow> attempt \<times> sync_world" where
  "position_attempt st label order broker_order text w =
     (if or_side order \<noteq> SELL then (Go_On, w)
      else case infer_sell_order_fill_via_position (se_refresh st) order broker_order w of
             (None, w) \<Rightarrow> (Go_On, w)
           | (Some inferred, w) \<Rightarrow> reflect_inferred_fill st label order broker_order inferred text w)"

definition kis_attempt ::
  "setting \<Rightarrow> string \<Rightarrow> order_request \<Rightarrow> broker_order \<Rightarrow> string \<Rightarrow> sync_world \<Rightarrow> attempt \<times> sync_world" where
  "kis_attempt st label order broker_order text w =
     (if or_side order \<noteq> SELL then (Go_On, w)
      else case try_kis_truth_fallback st label order broker_order w of
             (None, w) \<Rightarrow> (Go_On, w)
           | (Some q, w) \<Rightarrow>
               reflect_inferred_fill st label order broker_order
                 (if or_requested_quantity order \<le> q then FILLED else PARTIALLY_FILLED) text w)"

text \<open>The last resort, for sales after hours that are old enough.\<close>

definition too_young :: "timestamp \<Rightarrow> order_request \<Rightarrow> broker_order \<Rightarrow> bool" where
  "too_young now order broker_order \<longleftrightarrow>
     (case or_created_at order of
        None \<Rightarrow> False
      | Some t \<Rightarrow> now - t < resolve_after_hours_grace_period order broker_order)"

definition expire_attempt ::
  "setting \<Rightarrow> string \<Rightarrow> bool \<Rightarrow> order_request \<Rightarrow> broker_order \<Rightarrow> string \<Rightarrow> sync_world
   \<Rightarrow> order_status_result option \<times> sync_world" where
  "expire_attempt st label is_after_hours order broker_order text w =
     (if or_side order \<noteq> SELL \<or> \<not> is_after_hours
         \<or> too_young (now_at (inside label 0 (se_env st)) ''age'') order broker_order then (None, w)
      else
        (let (updated, w) = st_transition st label order EXPIRED None None w
         in (if or_status updated \<noteq> or_status order
             then Some (found_result broker_order order EXPIRED text) else None, w)))"

definition stuck_attempt ::
  "setting \<Rightarrow> bool \<Rightarrow> order_request \<Rightarrow> broker_order \<Rightarrow> sync_world \<Rightarrow> attempt \<times> sync_world" where
  "stuck_attempt st is_after_hours order broker_order w =
     (case or_created_at order of
        None \<Rightarrow> (Go_On, w)
      | Some t \<Rightarrow>
          if \<not> seconds 7200 < now_at (se_env st) ''stuck'' - t then (Go_On, w)
          else if \<not> is_after_hours
          then (if or_text (bo_broker_native_order_id broker_order) [] \<noteq> [] \<and> or_order_type order = MARKET
                then (Unresolved, w) else (Go_On, w))
          else if or_side order = BUY then (Unresolved, w)
          else
            (case kis_attempt st ''stuck_kis'' order broker_order ''Stuck expiry KIS truth'' w of
               (Resolved r, w) \<Rightarrow> (Resolved r, w)
             | (Unresolved, w) \<Rightarrow> (Unresolved, w)
             | (Go_On, w) \<Rightarrow>
                 (let (updated, w) = st_transition st ''stuck'' order EXPIRED None None w
                  in if or_status updated \<noteq> or_status order
                     then (case set_broker_status (bo_broker_order_id broker_order) ''expired''
                                  (now_at (inside ''stuck'' 0 (se_env st)) ''broker'') w of
                             (Inl _, w) \<Rightarrow> (Unresolved, w)
                           | (Inr _, w) \<Rightarrow> (Resolved (found_result broker_order order EXPIRED ''Stuck timeout EXPIRED''), w))
                     else (Go_On, w))))"

text \<open>The broker does not know the order: evidence first, expiry last.\<close>

definition resolve_without_record ::
  "setting \<Rightarrow> bool \<Rightarrow> order_request \<Rightarrow> broker_order \<Rightarrow> sync_world \<Rightarrow> order_status_result option \<times> sync_world" where
  "resolve_without_record st is_after_hours order broker_order w =
     (case kis_attempt st ''kis'' order broker_order ''KIS truth fallback'' w of
        (Resolved r, w) \<Rightarrow> (Some r, w)
      | (Unresolved, w) \<Rightarrow> (None, w)
      | (Go_On, w) \<Rightarrow>
          (case position_attempt st ''position'' order broker_order ''Position-delta inferred: broker has no record of order'' w of
             (Resolved r, w) \<Rightarrow> (Some r, w)
           | (Unresolved, w) \<Rightarrow> (None, w)
           | (Go_On, w) \<Rightarrow>
               (case stuck_attempt st is_after_hours order broker_order w of
                  (Resolved r, w) \<Rightarrow> (Some r, w)
                | (Unresolved, w) \<Rightarrow> (None, w)
                | (Go_On, w) \<Rightarrow>
                    expire_attempt st ''no_record'' is_after_hours order broker_order
                      ''Fallback EXPIRED: broker has no record of order'' w)))"

definition sync_transition_to_authoritative ::
  "setting \<Rightarrow> bool \<Rightarrow> order_request \<Rightarrow> broker_order \<Rightarrow> sync_world
   \<Rightarrow> (sync_error + order_status_result option) \<times> sync_world" where
  "sync_transition_to_authoritative st is_after_hours order broker_order w =
     (if or_status order \<noteq> RECONCILE_REQUIRED then (Inr None, w)
      else
        (let w = se_waits st ''resolve_unknown_state'' w
         in case se_unknown_state st of
              Inl _ \<Rightarrow>
                (case position_attempt st ''failed'' order broker_order
                        ''Position-delta inferred: resolve_unknown_state failed'' w of
                   (Resolved r, w) \<Rightarrow> (Inr (Some r), w)
                 | (Unresolved, w) \<Rightarrow> (Inr None, w)
                 | (Go_On, w) \<Rightarrow>
                     (let (r, w) = expire_attempt st ''failed_expire'' is_after_hours order broker_order
                                     ''Fallback EXPIRED: resolve_unknown_state failed'' w
                      in (Inr r, w)))
            | Inr result \<Rightarrow>
                and_then
                  (if bo_broker_status broker_order \<noteq> status_value (osr_status result)
                   then set_broker_status (bo_broker_order_id broker_order) (status_value (osr_status result))
                          (now_at (se_env st) ''broker'') w
                   else (Inr (), w)) (\<lambda>_ w.
                if osr_status result \<noteq> RECONCILE_REQUIRED
                then (let (updated, w) = st_transition st ''authoritative'' order (osr_status result) None None w
                      in (Inr (if or_status updated \<noteq> or_status order then Some result else None), w))
                else case is_genuine_manual_reconciliation (now_at (se_env st) ''manual'') order result of
                       Inl e \<Rightarrow> (Inl e, w)
                     | Inr True \<Rightarrow> (Inr None, w)
                     | Inr False \<Rightarrow>
                         (let (r, w) = resolve_without_record st is_after_hours order broker_order w in (Inr r, w)))))"

text \<open>All pairs of an order and one of its broker orders; a failed one is logged.\<close>

fun resolve_broker_orders ::
  "(nat \<Rightarrow> setting) \<Rightarrow> bool \<Rightarrow> nat \<Rightarrow> order_request \<Rightarrow> broker_order list \<Rightarrow> sync_world \<Rightarrow> nat \<times> sync_world" where
  "resolve_broker_orders sts is_after_hours i order [] w = (0, w)"
| "resolve_broker_orders sts is_after_hours i order (bo # bos) w =
     (let (r, w) = sync_transition_to_authoritative (sts i) is_after_hours order bo w;
          (n, w) = resolve_broker_orders sts is_after_hours (Suc i) order bos w
      in ((case r of Inr (Some _) \<Rightarrow> Suc n | _ \<Rightarrow> n), w))"

fun resolve_orders ::
  "(nat \<Rightarrow> nat \<Rightarrow> setting) \<Rightarrow> bool \<Rightarrow> nat \<Rightarrow> order_request list \<Rightarrow> sync_world \<Rightarrow> nat \<times> sync_world" where
  "resolve_orders sts is_after_hours i [] w = (0, w)"
| "resolve_orders sts is_after_hours i (order # orders) w =
     (let (n, w) = resolve_broker_orders (sts i) is_after_hours 0 order
                     (broker_orders_of_request (sy_base w) (or_order_request_id order)) w;
          (m, w) = resolve_orders sts is_after_hours (Suc i) orders w
      in (n + m, w))"

definition sync_reconcile_required_orders ::
  "(nat \<Rightarrow> nat \<Rightarrow> setting) \<Rightarrow> nat \<Rightarrow> bool \<Rightarrow> sync_world \<Rightarrow> (sync_error + nat) \<times> sync_world" where
  "sync_reconcile_required_orders sts limit is_after_hours w =
     (case order_list (sy_base w) (any_order\<lparr>oq_statuses := Some [RECONCILE_REQUIRED], oq_limit := limit\<rparr>) of
        Inl e \<Rightarrow> (Inl (Order_Failure e), w)
      | Inr orders \<Rightarrow> (let (n, w) = resolve_orders sts is_after_hours 0 orders w in (Inr n, w)))"

section \<open>Cleanup\<close>

definition is_eod_orphan :: "sync_world \<Rightarrow> timestamp \<Rightarrow> order_request \<Rightarrow> bool" where
  "is_eod_orphan w cutoff order \<longleftrightarrow>
     (case or_created_at order of None \<Rightarrow> False | Some t \<Rightarrow> t \<le> cutoff)
     \<and> or_submitted_at order = None
     \<and> broker_orders_of_request (sy_base w) (or_order_request_id order) = []"

text \<open>The status of the latest run linked to an order.\<close>

definition get_latest_reconciliation_status_by_order :: "reconciliation_store \<Rightarrow> uuid \<Rightarrow> string option" where
  "get_latest_reconciliation_status_by_order s order_request_id =
     map_option rr_status
       (fold (\<lambda>(run_id, links) latest.
          if \<exists>l \<in> set links. ml_target_id l = order_request_id
          then (case map_of (rc_runs s) run_id of
                  None \<Rightarrow> latest
                | Some run \<Rightarrow>
                    (case latest of
                       None \<Rightarrow> Some run
                     | Some r \<Rightarrow> if rr_started_at r < rr_started_at run then Some run else latest))
          else latest) (rc_order_links s) None)"

definition clean_up ::
  "env \<Rightarrow> interference \<Rightarrow> order_request \<Rightarrow> order_status \<Rightarrow> string \<Rightarrow> message \<Rightarrow> string \<Rightarrow> sync_world \<Rightarrow> bool \<times> sync_world" where
  "clean_up ev others order target code text actor w =
     (case transition_to ev others order target (Some code) (Some text) ''system'' actor 3 False (manager_of w) of
        (r, m) \<Rightarrow> (is_ok r, put_manager m w))"

fun expire_pending ::
  "env \<Rightarrow> (nat \<Rightarrow> interference) \<Rightarrow> timestamp \<Rightarrow> nat \<Rightarrow> order_request list \<Rightarrow> sync_world \<Rightarrow> nat \<times> sync_world" where
  "expire_pending ev others now i [] w = (0, w)"
| "expire_pending ev others now i (order # orders) w =
     (if \<not> is_eod_orphan w (now - seconds 3600) order then expire_pending ev others now (Suc i) orders w
      else
        (let (done, w) = clean_up (inside ''pending'' i ev) (others i) order EXPIRED
                           ''eod_orphan_cleanup_no_broker_order''
                           (Msg_Orphan (now - the (or_created_at order)) None) ''eod_orphan_cleanup'' w;
             (n, w) = expire_pending ev others now (Suc i) orders w
         in (if done then Suc n else n, w)))"

fun expire_reconcile ::
  "env \<Rightarrow> (nat \<Rightarrow> interference) \<Rightarrow> timestamp \<Rightarrow> nat \<Rightarrow> order_request list \<Rightarrow> sync_world \<Rightarrow> nat \<times> sync_world" where
  "expire_reconcile ev others now i [] w = (0, w)"
| "expire_reconcile ev others now i (order # orders) w =
     (if \<not> is_eod_orphan w (now - seconds 3600) order then expire_reconcile ev others now (Suc i) orders w
      else
        (let rec_status = get_latest_reconciliation_status_by_order (rp_reconciliations (sy_base w))
                            (or_order_request_id order);
             code = (if rec_status = Some ''failed'' then ''eod_orphan_cleanup_failed_reconciliation''
                     else ''eod_orphan_cleanup_no_reconciliation'');
             (done, w) = clean_up (inside ''reconcile'' i ev) (others i) order EXPIRED code
                           (Msg_Orphan (now - the (or_created_at order)) (Some (or_text rec_status ''none'')))
                           ''eod_orphan_cleanup'' w;
             (n, w) = expire_reconcile ev others now (Suc i) orders w
         in (if done then Suc n else n, w)))"

definition with_status :: "order_status \<Rightarrow> order_query" where
  "with_status s = any_order\<lparr>oq_statuses := Some [s], oq_limit := 500\<rparr>"

definition expire_eod_orphan_orders ::
  "env \<Rightarrow> (string \<Rightarrow> nat \<Rightarrow> interference) \<Rightarrow> sync_world \<Rightarrow> (sync_error + nat \<times> nat) \<times> sync_world" where
  "expire_eod_orphan_orders ev others w =
     (let now = now_at ev ''now''
      in case order_list (sy_base w) (with_status PENDING_SUBMIT) of
           Inl e \<Rightarrow> (Inl (Order_Failure e), w)
         | Inr pending \<Rightarrow>
             (let (n, w) = expire_pending ev (others ''pending'') now 0 pending w
              in case order_list (sy_base w) (with_status RECONCILE_REQUIRED) of
                   Inl e \<Rightarrow> (Inl (Order_Failure e), w)
                 | Inr unknown \<Rightarrow>
                     (let (m, w) = expire_reconcile ev (others ''reconcile'') now 0 unknown w in (Inr (n, m), w))))"

definition is_stale_submission :: "sync_world \<Rightarrow> timestamp \<Rightarrow> order_request \<Rightarrow> bool" where
  "is_stale_submission w cutoff order \<longleftrightarrow>
     or_side order = SELL
     \<and> (case or_created_at order of None \<Rightarrow> False | Some t \<Rightarrow> t \<le> cutoff)
     \<and> \<not> (\<exists>bo \<in> set (broker_orders_of_request (sy_base w) (or_order_request_id order)).
            bo_broker_native_order_id bo \<noteq> None)"

fun reject_stale ::
  "env \<Rightarrow> (nat \<Rightarrow> interference) \<Rightarrow> timestamp \<Rightarrow> nat \<Rightarrow> order_request list \<Rightarrow> sync_world \<Rightarrow> order_request list \<times> sync_world" where
  "reject_stale ev others cutoff i [] w = ([], w)"
| "reject_stale ev others cutoff i (order # orders) w =
     (if \<not> is_stale_submission w cutoff order then reject_stale ev others cutoff (Suc i) orders w
      else
        (let (done, w) = clean_up (inside ''stale'' i ev) (others i) order REJECTED ''submission_failed_no_broker_id''
                           (Msg_Stale (the (or_created_at order)) (or_side order)) ''post_submit_sync'' w;
             (rs, w) = reject_stale ev others cutoff (Suc i) orders w
         in (if done then order # rs else rs, w)))"

definition reject_stale_pending_submit_orders ::
  "env \<Rightarrow> (nat \<Rightarrow> interference) \<Rightarrow> sync_world \<Rightarrow> (sync_error + order_request list) \<times> sync_world" where
  "reject_stale_pending_submit_orders ev others w =
     (case order_list (sy_base w) (with_status PENDING_SUBMIT) of
        Inl e \<Rightarrow> (Inl (Order_Failure e), w)
      | Inr pending \<Rightarrow>
          (let (rs, w) = reject_stale ev others (now_at ev ''now'' - seconds 1800) 0 pending w in (Inr rs, w)))"

section \<open>The batch runner\<close>

record sync_cycle_result =
  sc_total_orders :: nat
  sc_updated :: nat
  sc_filled :: nat
  sc_partial :: nat
  sc_errors :: "(uuid \<times> (sync_error + sync_note)) list"
  sc_snapshots_refreshed :: nat
  sc_orphans_expired_pending :: nat
  sc_orphans_expired_reconcile :: nat

definition active_sync_statuses :: "order_status list" where
  "active_sync_statuses = [SUBMITTED, ACKNOWLEDGED, PARTIALLY_FILLED, RECONCILE_REQUIRED, PENDING_SUBMIT]"

definition recovery_sync_statuses :: "order_status list" where
  "recovery_sync_statuses = [SUBMITTED, ACKNOWLEDGED, PARTIALLY_FILLED, RECONCILE_REQUIRED, PENDING_SUBMIT, EXPIRED]"

definition count_result ::
  "uuid \<Rightarrow> sync_error + sync_order_result \<Rightarrow> sync_cycle_result \<Rightarrow> sync_cycle_result" where
  "count_result broker_order_id r c =
     (case r of
        Inl e \<Rightarrow> c\<lparr>sc_errors := sc_errors c @ [(broker_order_id, Inl e)]\<rparr>
      | Inr result \<Rightarrow>
          (case so_error result of
             Some note \<Rightarrow> c\<lparr>sc_errors := sc_errors c @ [(broker_order_id, Inr note)]\<rparr>
           | None \<Rightarrow>
               (let c = (if so_status_changed result then c\<lparr>sc_updated := Suc (sc_updated c)\<rparr> else c)
                in if so_terminal result \<and> so_current_status result = FILLED
                   then (let c = c\<lparr>sc_filled := Suc (sc_filled c)\<rparr>
                         in if so_snapshot_triggered result
                            then c\<lparr>sc_snapshots_refreshed := Suc (sc_snapshots_refreshed c)\<rparr> else c)
                   else if \<not> so_terminal result then c\<lparr>sc_partial := Suc (sc_partial c)\<rparr>
                   else c)))"

fun sync_broker_orders ::
  "(nat \<Rightarrow> setting) \<Rightarrow> bool \<Rightarrow> nat \<Rightarrow> broker_order list \<Rightarrow> sync_cycle_result \<Rightarrow> sync_world
   \<Rightarrow> sync_cycle_result \<times> sync_world" where
  "sync_broker_orders sts after_hours i [] c w = (c, w)"
| "sync_broker_orders sts after_hours i (bo # bos) c w =
     (let (r, w) = sync_order_post_submit (sts i) (Some after_hours) (bo_broker_order_id bo) w
      in sync_broker_orders sts after_hours (Suc i) bos (count_result (bo_broker_order_id bo) r c) w)"

fun sync_orders ::
  "(nat \<Rightarrow> nat \<Rightarrow> setting) \<Rightarrow> bool \<Rightarrow> nat \<Rightarrow> order_request list \<Rightarrow> sync_cycle_result \<Rightarrow> sync_world
   \<Rightarrow> sync_cycle_result \<times> sync_world" where
  "sync_orders sts after_hours i [] c w = (c, w)"
| "sync_orders sts after_hours i (order # orders) c w =
     (let (c, w) = sync_broker_orders (sts i) after_hours 0
                     (broker_orders_of_request (sy_base w) (or_order_request_id order)) c w
      in sync_orders sts after_hours (Suc i) orders c w)"

definition sync_query :: "bool \<Rightarrow> timestamp \<Rightarrow> nat \<Rightarrow> order_query" where
  "sync_query recovery_mode now limit =
     (if recovery_mode
      then (let today_start = to_kst_trade_date now * seconds 86400 - seconds (9 * 3600)
            in any_order\<lparr>oq_statuses := Some recovery_sync_statuses, oq_limit := limit,
                 oq_created_from := Some today_start, oq_created_to := Some (today_start + seconds 86400)\<rparr>)
      else any_order\<lparr>oq_statuses := Some active_sync_statuses, oq_limit := limit\<rparr>)"

text \<open>
  One cycle over repositories that raise no database errors: then the savepoints, which undo
  only what such an error interrupts, never roll back.
\<close>

definition run_sync_cycle ::
  "env \<Rightarrow> (string \<Rightarrow> nat \<Rightarrow> nat \<Rightarrow> setting) \<Rightarrow> (string \<Rightarrow> nat \<Rightarrow> interference) \<Rightarrow> nat \<Rightarrow> bool option \<Rightarrow> bool \<Rightarrow> sync_world
   \<Rightarrow> (sync_error + sync_cycle_result) \<times> sync_world" where
  "run_sync_cycle ev sts others limit after_hours recovery_mode w =
     and_then (reject_stale_pending_submit_orders (inside ''stale'' 0 ev) (others ''stale'') w) (\<lambda>_ w.
     case order_list (sy_base w) (sync_query recovery_mode (now_at ev ''today'') limit) of
       Inl e \<Rightarrow> (Inl (Order_Failure e), w)
     | Inr orders \<Rightarrow>
         (let c = \<lparr>sc_total_orders = length orders, sc_updated = 0, sc_filled = 0, sc_partial = 0, sc_errors = [],
                   sc_snapshots_refreshed = 0, sc_orphans_expired_pending = 0, sc_orphans_expired_reconcile = 0\<rparr>
          in if orders = [] then (Inr c, w)
             else
               (let is_after_hours = (case after_hours of Some b \<Rightarrow> b | None \<Rightarrow> is_after_hours_now (now_at ev ''kst''));
                    (c, w) = sync_orders (sts ''sync'') is_after_hours 0 orders c w;
                    (_, w) = sync_reconcile_required_orders (sts ''reconcile'') 50 is_after_hours w
                in if \<not> is_after_hours then (Inr c, w)
                   else case expire_eod_orphan_orders (inside ''eod'' 0 ev) others w of
                          (Inl _, w) \<Rightarrow> (Inr c, w)
                        | (Inr (n, m), w) \<Rightarrow>
                            (Inr (c\<lparr>sc_orphans_expired_pending := n, sc_orphans_expired_reconcile := m\<rparr>), w))))"

end
