(* ===== verification/Order_Sync_Safety.thy ===== *)
theory Order_Sync_Safety
  imports Order_Moves Order_Sync_Cycle
begin

text \<open>
  Which orders a synchronisation may move, and where to.  \<open>writes e w i w'\<close> says that at most order
  \<open>i\<close> was written, and not to \<open>EXPIRED\<close> unless \<open>e\<close> holds; it is carried through every part of
  \<^verbatim>\<open>services/order_sync_service.py\<close>, up to the whole cycle.
\<close>

section \<open>Steps on the repositories of the synchronisation\<close>

lemma sync_base_simps [simp]:
  "sy_base (put_base b w) = b" "sy_base (put_manager m w) = om_repos m" "om_repos (manager_of w) = sy_base w"
  "sy_base (put_ledger lg w) = lg_repos lg"
  by (simp_all add: put_base_def put_manager_def manager_of_def put_ledger_def)

lemma broker_order_update_frame:
  "rp_orders (snd (broker_order_update i st a b r)) = rp_orders r"
  by (simp add: broker_order_update_def split: option.split)

text \<open>Surroundings that leave the orders alone while a call waits.\<close>

definition calm :: "setting \<Rightarrow> bool" where
  "calm st \<longleftrightarrow> (\<forall>l p. leaves_orders (se_others st l p))
     \<and> (\<forall>l w. rp_orders (sy_base (se_waits st l w)) = rp_orders (sy_base w))
     \<and> (\<forall>cb p a w. se_refresh st = Some cb \<longrightarrow> rp_orders (sy_base (snd (cb p a w))) = rp_orders (sy_base w))"

lemma store_fills_repos:
  "lg_repos (snd (store_fills uuid5 ev i configs bo a ins side fills ids comps n k lg)) = lg_repos lg"
proof (induction fills arbitrary: i ids comps n k lg)
  case (Cons f fills)
  then show ?case
    by (simp add: store_fills_Cons booked_fill_def Let_def split: sum.split option.split del: store_fills.simps(2))
qed simp

lemma sync_fills_base [simp]:
  "sy_base (snd (sync_fills uuid5 ev reported bo a ins side w)) = sy_base w"
proof -
  have "lg_repos lg = lg_repos lg0"
    if "store_fills uuid5 ev i configs b acc instr side fills ids comps n k lg0 = (r, lg)" for i configs b acc instr fills ids comps n k lg0 r lg
    using store_fills_repos [of uuid5 ev i configs b acc instr side fills ids comps n k lg0] that by simp
  then show ?thesis
    by (auto simp: sync_fills_def Let_def split: sum.split prod.splits if_splits)
qed

lemma st_sync_fills_orders:
  "calm st \<Longrightarrow> rp_orders (sy_base (snd (st_sync_fills st order bo w))) = rp_orders (sy_base w)"
  by (simp add: st_sync_fills_def calm_def)

lemma status_frames:
  "rp_orders (sy_base (snd (set_broker_status i s t w))) = rp_orders (sy_base w)"
  "rp_orders (sy_base (snd (update_last_synced_at i t w))) = rp_orders (sy_base w)"
  using broker_order_update_frame
  by (simp_all add: set_broker_status_def update_last_synced_at_def split_beta)

lemma refresh_frame:
  "calm st \<Longrightarrow> rp_orders (sy_base (snd (refresh_snapshots st l a w))) = rp_orders (sy_base w)"
  by (simp add: refresh_snapshots_def calm_def split: option.split)

lemma sell_retries_frame:
  "calm st \<Longrightarrow> rp_orders (sy_base (snd (sell_fill_retries (se_refresh st) order q i n w))) = rp_orders (sy_base w)"
  by (induction n arbitrary: i w) (auto simp: Let_def calm_def split: option.split)

lemma infer_sell_frame:
  "calm st \<Longrightarrow> rp_orders (sy_base (snd (infer_sell_order_fill_via_position (se_refresh st) order bo w))) = rp_orders (sy_base w)"
  using sell_retries_frame by (simp add: infer_sell_order_fill_via_position_def Let_def split: option.split)

lemma write_reason_moves:
  "moves (sy_base w) (or_order_request_id x) {or_status x} (sy_base (snd (write_reason t x code text w)))"
  using update_status_moves [of None "or_status x" "sy_base w" "or_order_request_id x" t "Some code" "Some text" None]
  by (simp add: write_reason_def split_beta split: sum.split)

lemma st_transition_moves:
  assumes "calm st" "backed x (sy_base w)" "st_transition st l x target rc rm w = (x', w')"
  shows "moves (sy_base w) (or_order_request_id x) {target, ACKNOWLEDGED, PARTIALLY_FILLED} (sy_base w')"
    "order_facts x' = order_facts x" "or_status x' \<in> {or_status x, target, ACKNOWLEDGED, PARTIALLY_FILLED}"
    "backed x' (sy_base w')" "rp_broker_orders (sy_base w') = rp_broker_orders (sy_base w)"
proof -
  obtain m where m: "try_transition (inside l 0 (se_env st)) (se_others st l) x target rc rm (manager_of w) = (x', m)"
    "w' = put_manager m w"
    using assms(3) by (auto simp: st_transition_def sync_transition_def split: prod.splits)
  have lo: "leaves_orders (se_others st l p)" for p using assms(1) unfolding calm_def by blast
  have b: "backed x (om_repos (manager_of w))" using assms(2) by simp
  note t = try_transition_moves [OF lo b m(1)]
  show "moves (sy_base w) (or_order_request_id x) {target, ACKNOWLEDGED, PARTIALLY_FILLED} (sy_base w')"
    "order_facts x' = order_facts x" "or_status x' \<in> {or_status x, target, ACKNOWLEDGED, PARTIALLY_FILLED}"
    "rp_broker_orders (sy_base w') = rp_broker_orders (sy_base w)"
    using t m(2) by simp_all
  show "backed x' (sy_base w')" using backed_moves [OF assms(2), of "or_order_request_id x"] t m(2) by simp
qed

section \<open>Expiry needs a reason\<close>

lemma and_thenE:
  assumes "and_then r f = (res, s')"
  obtains (raised) e where "r = (Inl e, s')" "res = Inl e" | (went_on) a s where "r = (Inr a, s)" "f a s = (res, s')"
  using assms by (auto simp: and_then_def split: prod.splits sum.splits)

text \<open>Only order \<open>i\<close> is written, and not to \<open>EXPIRED\<close> unless \<open>e\<close> holds.\<close>

definition writes :: "bool \<Rightarrow> sync_world \<Rightarrow> uuid \<Rightarrow> sync_world \<Rightarrow> bool" where
  "writes e w i w' \<longleftrightarrow> moves (sy_base w) i {s. e \<or> s \<noteq> EXPIRED} (sy_base w')"

lemma writes_same: "rp_orders (sy_base w') = rp_orders (sy_base w) \<Longrightarrow> writes e w i w'"
  by (simp add: writes_def moves_same)

lemma writes_refl [simp]: "writes e w i w" by (simp add: writes_same)

lemma writes_trans: "writes e w i w' \<Longrightarrow> writes e w' i w'' \<Longrightarrow> writes e w i w''"
  unfolding writes_def by (rule moves_trans)

lemma writes_frames:
  "set_broker_status b s t w = (r, w') \<Longrightarrow> writes e w i w'"
  "update_last_synced_at b t w = (r, w') \<Longrightarrow> writes e w i w'"
  "calm st \<Longrightarrow> refresh_snapshots st l a w = (d, w') \<Longrightarrow> writes e w i w'"
  "calm st \<Longrightarrow> infer_sell_order_fill_via_position (se_refresh st) order bo w = (found, w') \<Longrightarrow> writes e w i w'"
  "calm st \<Longrightarrow> st_sync_fills st order bo w = (f, w') \<Longrightarrow> writes e w i w'"
  "calm st \<Longrightarrow> writes e w i (se_waits st l w)"
  using status_frames refresh_frame infer_sell_frame st_sync_fills_orders
  by (auto intro!: writes_same simp: calm_def) (metis snd_conv)+

lemma writes_backed:
  "writes e w i w' \<Longrightarrow> backed x (sy_base w) \<Longrightarrow> backed x (sy_base w')"
  unfolding writes_def using backed_moves by blast

lemma writes_transition:
  assumes "calm st" "backed x (sy_base w)" "st_transition st l x target rc rm w = (x', w')" "e \<or> target \<noteq> EXPIRED"
  shows "writes e w (or_order_request_id x) w'"
  unfolding writes_def by (rule moves_mono [OF st_transition_moves(1) [OF assms(1-3)]]) (use assms(4) in auto)

lemma same_id: "order_facts x' = order_facts x \<Longrightarrow> or_order_request_id x' = or_order_request_id x"
  by (simp add: order_facts_def)

lemma infer_status_range: "infer_status_from_delta x d = Some s \<Longrightarrow> s \<in> {FILLED, PARTIALLY_FILLED}"
  by (auto simp: infer_status_from_delta_def split: if_splits)

lemma sell_retries_range:
  "sell_fill_retries cb order q i n w = (Some s, w') \<Longrightarrow> s \<in> {FILLED, PARTIALLY_FILLED}"
  by (induction n arbitrary: i w) (auto simp: Let_def dest: infer_status_range split: if_splits)

lemma infer_sell_range:
  "infer_sell_order_fill_via_position cb order bo w = (Some s, w') \<Longrightarrow> s \<in> {FILLED, PARTIALLY_FILLED}"
  by (auto simp: infer_sell_order_fill_via_position_def Let_def dest: infer_status_range sell_retries_range
      split: if_splits option.splits)

text \<open>An expired order is only ever brought back.\<close>

lemma reflect_recovery_writes:
  assumes "calm st" "backed x (sy_base w)" "e \<or> target \<noteq> EXPIRED" "reflect_recovery st x bo reported target w = (rec, x', w')"
  shows "writes e w (or_order_request_id x) w' \<and> order_facts x' = order_facts x"
proof -
  obtain x1 w1 where t: "st_transition st ''recover'' x target None None w = (x1, w1)" by force
  have "x' = x1 \<and> (w' = w1 \<or> (\<exists>r s u b. set_broker_status b s u w1 = (r, w')))"
    using assms(4) t by (auto simp: reflect_recovery_def split: if_splits prod.splits sum.splits)
  then show ?thesis
    using writes_transition [OF assms(1,2) t assms(3)] st_transition_moves(2) [OF assms(1,2) t]
      writes_frames(1) writes_trans by metis
qed

lemma broker_recovery_writes:
  assumes "calm st" "backed x (sy_base w)" "broker_recovery st x bo w = (rec, x', w')"
  shows "writes e w (or_order_request_id x) w' \<and> order_facts x' = order_facts x"
proof -
  let ?w = "se_waits st ''get_order_status'' w"
  note 0 = writes_frames(6) [OF assms(1), of e w "or_order_request_id x" "''get_order_status''"]
  have b: "backed x (sy_base ?w)" by (rule writes_backed [OF 0 assms(2)])
  have "rec = False \<and> x' = x \<and> w' = ?w \<or> (\<exists>rp tg. tg \<noteq> EXPIRED \<and> reflect_recovery st x bo rp tg ?w = (rec, x', w'))"
    using assms(3) unfolding broker_recovery_def Let_def by (force split: sum.splits if_splits)
  then show ?thesis
  proof (elim disjE exE conjE)
    fix rp tg assume tg: "tg \<noteq> EXPIRED" "reflect_recovery st x bo rp tg ?w = (rec, x', w')"
    have "e \<or> tg \<noteq> EXPIRED" using tg(1) by simp
    from reflect_recovery_writes [OF assms(1) b this tg(2)] writes_trans [OF 0] show ?thesis by blast
  qed (use 0 in simp)
qed

lemma position_recovery_writes:
  assumes "calm st" "backed x (sy_base w)" "position_recovery st x bo w = (x', d, w')"
  shows "writes e w (or_order_request_id x) w'"
proof -
  obtain inferred w1 where i: "infer_sell_order_fill_via_position (se_refresh st) x bo w = (inferred, w1)" by force
  note 1 = writes_frames(4) [OF assms(1) i, of e "or_order_request_id x"]
  show ?thesis
  proof (cases "\<exists>s. inferred = Some s \<and> s \<in> {FILLED, PARTIALLY_FILLED}
      \<and> can_recover_expired (now_at (se_env st) ''can_recover'') x")
    case False
    then show ?thesis using assms(3) i 1 by (auto simp: position_recovery_def split: option.splits if_splits)
  next
    case True
    then obtain s where s: "inferred = Some s" "s \<in> {FILLED, PARTIALLY_FILLED}"
      "can_recover_expired (now_at (se_env st) ''can_recover'') x" by blast
    obtain x2 w2 where t: "st_transition st ''recover'' x s None None w1 = (x2, w2)" by force
    have b: "backed x (sy_base w1)" by (rule writes_backed [OF 1 assms(2)])
    have 2: "writes e w1 (or_order_request_id x) w2" using writes_transition [OF assms(1) b t] s(2) by auto
    obtain r w3 where 3: "set_broker_status (bo_broker_order_id bo) (status_value s) (now_at (se_env st) ''recover'') w2 = (r, w3)"
      by force
    have "w' = w3 \<or> (\<exists>l a e. refresh_snapshots st l a w3 = (e, w'))"
      using assms(3) i s t 3 by (auto simp: position_recovery_def split: sum.splits if_splits prod.splits)
    then show ?thesis using 1 2 writes_frames(1) [OF 3] writes_frames(3) [OF assms(1)] writes_trans by metis
  qed
qed

lemma sync_terminal_writes:
  assumes "calm st" "backed x (sy_base w)" "sync_terminal st now b x bo w = (res, w')"
  shows "writes e w (or_order_request_id x) w'"
proof -
  obtain rec x1 w1 where 1: "broker_recovery st x bo w = (rec, x1, w1)" by (metis prod_cases3)
  obtain x2 d w2 where 2: "position_recovery st x1 bo w1 = (x2, d, w2)" by (metis prod_cases3)
  note u1 = broker_recovery_writes [OF assms(1,2) 1]
  have b1: "backed x1 (sy_base w1)"
    using u1 assms(2) backed_moves unfolding writes_def by blast
  have u2: "writes e w1 (or_order_request_id x) w2"
    using position_recovery_writes [OF assms(1) b1 2] u1 same_id by metis
  have "\<exists>v r. v \<in> {w, w1, w2} \<and> update_last_synced_at b now v = (r, w')"
    using assms(3) 1 2
    by (auto simp: sync_terminal_def Let_def elim!: and_thenE split: if_splits prod.splits)
  then show ?thesis using u1 u2 writes_frames(2) writes_trans by (metis empty_iff insert_iff)
qed

lemma buy_inference_range:
  "infer_buy_order_fill_via_position_safe w x = Inr (Some s) \<Longrightarrow> s \<in> {FILLED, PARTIALLY_FILLED}"
  by (auto simp: infer_buy_order_fill_via_position_safe_def res_bind_def Let_def
      split: if_splits option.splits sum.splits)

lemma linked_range: "infer_linked_fill_snapshot_truth x ss = Some s \<Longrightarrow> s \<in> {FILLED, PARTIALLY_FILLED}"
  by (auto simp: infer_linked_fill_snapshot_truth_def split: if_splits option.splits)

text \<open>The probe reports expiry only when the broker does.\<close>

lemma probe_range:
  assumes "try_truth_probe answer x bo w w1 = (Some s, reason)"
  shows "s \<in> {FILLED, PARTIALLY_FILLED} \<or> s = EXPIRED \<and> (\<exists>r. answer = Inr r \<and> osr_status r = EXPIRED)"
  using assms
  by (auto simp: try_truth_probe_def Let_def dest!: linked_range buy_inference_range
      split: if_splits option.splits sum.splits)

lemma writes_and_then:
  assumes "writes e w i (snd r)" "\<And>a s. r = (Inr a, s) \<Longrightarrow> writes e s i (snd (f a s))"
  shows "writes e w i (snd (and_then r f))"
proof (cases r)
  case (Pair a s)
  then show ?thesis using assms writes_trans [of e w i s] by (cases a) (auto simp: and_then_def)
qed

lemma writes_frames_snd:
  "writes e w i (snd (set_broker_status b s t w))" "writes e w i (snd (update_last_synced_at b t w))"
  "calm st \<Longrightarrow> writes e w i (snd (refresh_snapshots st l a w))"
  "calm st \<Longrightarrow> writes e w i (snd (st_sync_fills st order bo w))"
  by (simp_all add: writes_same status_frames refresh_frame st_sync_fills_orders)

lemma write_reason_writes:
  "e \<or> or_status x \<noteq> EXPIRED \<Longrightarrow> writes e w (or_order_request_id x) (snd (write_reason t x code text w))"
  unfolding writes_def by (rule moves_mono [OF write_reason_moves]) auto

lemma reflect_probe_writes:
  assumes "calm st" "backed x (sy_base w)" "e \<or> or_status x \<noteq> EXPIRED" "e \<or> s \<noteq> EXPIRED"
  shows "writes e w (or_order_request_id x) (snd (reflect_probe st x s code text b w))"
proof -
  obtain x1 w1 where t: "st_transition st ''probe'' x s (Some code) (Some text) w = (x1, w1)" by force
  show ?thesis
    using writes_transition [OF assms(1,2) t assms(4)] write_reason_writes [OF assms(3)] t
    by (simp add: reflect_probe_def)
qed

lemma finish_probe_writes:
  assumes "calm st"
  shows "writes e w i (snd (finish_probe st now b prev reason sc rc x bo w))"
proof -
  define c where "c \<longleftrightarrow> (sc \<and> or_status x \<in> {PARTIALLY_FILLED, FILLED})
      \<or> reason = Some FILL_SNAPSHOT \<and> or_status x = PARTIALLY_FILLED \<and> rc"
  define w1 where "w1 = snd (if c then refresh_snapshots st ''probe'' (or_account_id x) w else (False, w))"
  have 1: "writes e w i w1" using writes_frames_snd(3) [OF assms] by (simp add: w1_def)
  have 2: "writes e w1 i (snd (st_sync_fills st x bo w1))" by (rule writes_frames_snd(4) [OF assms])
  have "snd (finish_probe st now b prev reason sc rc x bo w) =
      (if reason = Some FILL_SNAPSHOT then snd (st_sync_fills st x bo w1) else w1)"
    unfolding finish_probe_def Let_def split_beta c_def [symmetric] w1_def [symmetric]
    by (cases "fst (st_sync_fills st x bo w1)") simp_all
  then show ?thesis using 1 2 writes_trans by auto
qed

lemma sync_probe_writes:
  assumes "calm st" "backed x (sy_base w)" "e \<or> or_status x \<noteq> EXPIRED" "e \<or> s \<noteq> EXPIRED"
  shows "writes e w (or_order_request_id x) (snd (sync_probe_resolved st now b x bo s reason w))"
  unfolding sync_probe_resolved_def Let_def split_beta
  by (intro writes_and_then reflect_probe_writes finish_probe_writes assms)
    (simp_all add: writes_frames_snd)

lemma writes_backed_snd:
  "writes e w i (snd r) \<Longrightarrow> r = (a, w') \<Longrightarrow> backed x (sy_base w) \<Longrightarrow> backed x (sy_base w')"
  using writes_backed by auto

lemma writes_and_then_backed:
  assumes "writes e w i (snd r)" "backed x (sy_base w)"
    and "\<And>a s. r = (Inr a, s) \<Longrightarrow> backed x (sy_base s) \<Longrightarrow> writes e s i (snd (f a s))"
  shows "writes e w i (snd (and_then r f))"
proof (rule writes_and_then [OF assms(1)])
  fix a s assume r: "r = (Inr a, s)"
  show "writes e s i (snd (f a s))" by (rule assms(3) [OF r writes_backed_snd [OF assms(1) r assms(2)]])
qed

lemma finish_status_writes:
  assumes "calm st" "e \<or> or_status x \<noteq> EXPIRED"
  shows "writes e w (or_order_request_id x) (snd (finish_status st now b prev reason sc fills x bo w))"
  unfolding finish_status_def
proof (intro writes_and_then)
  fix u s
  show "writes e s (or_order_request_id x) (snd (if reason = Some FILL_SNAPSHOT_INCOMPLETE \<and> \<not> sc
      then (case build_pending_truth_probe_reason_message s x bo FILL_SNAPSHOT_INCOMPLETE of
              None \<Rightarrow> (Inr x, s)
            | Some (code, text) \<Rightarrow> write_reason (now_at (se_env st) ''reason'') x code text s)
      else (Inr x, s)))"
    using write_reason_writes [OF assms(2)] by (auto split: option.split)
  fix y s'
  show "writes e s' (or_order_request_id x) (snd (let current = or_status y;
         (triggered, w) =
           (if sc \<and> current \<in> {PARTIALLY_FILLED, FILLED}
            then refresh_snapshots st ''status'' (or_account_id y) s' else (False, s'))
     in (Inr \<lparr>so_broker_order_id = b, so_previous_status = prev, so_current_status = current,
              so_status_changed = sc, so_fills_synced = fst fills, so_fills_skipped = snd fills,
              so_terminal = (current \<in> set terminal_statuses), so_snapshot_triggered = triggered,
              so_last_synced_at = now,
              so_error = (if reason = Some FILL_SNAPSHOT_INCOMPLETE then Some Probe_Pending else None)\<rparr>, w)))"
    using writes_frames_snd(3) [OF assms(1)] by (simp add: Let_def split_beta)
qed (rule writes_frames_snd)

text \<open>Expiry at the end of the day concerns sales only.\<close>

lemma expire_order_writes:
  assumes "calm st" "backed x (sy_base w)"
  shows "writes True w (or_order_request_id x) (snd (expire_order st l now b x code text f w))"
proof -
  obtain y w1 where t: "st_transition st l x EXPIRED code text w = (y, w1)" by force
  have "writes True w1 (or_order_request_id x)
      (snd (and_then (set_broker_status b ''expired'' now w1) (\<lambda>_ w.
        and_then (update_last_synced_at b now w) (\<lambda>_ w. (Inr (Some (f (or_status y))), w)))))"
    by (intro writes_and_then writes_frames_snd) simp
  then show ?thesis
    using writes_transition [OF assms t, of True] writes_trans t by (auto simp: expire_order_def)
qed

lemma maybe_expire_writes:
  assumes "calm st" "backed x (sy_base w)" "c \<longrightarrow> e"
  shows "writes e w (or_order_request_id x) (snd (if c then expire_order st l now b x code text f w else (Inr None, w)))"
proof (cases c)
  case True
  then have "e = True" using assms(3) by simp
  then show ?thesis using expire_order_writes [OF assms(1,2)] True by simp
qed simp

lemma settle_residual_writes:
  assumes "calm st" "backed x (sy_base w)" "e \<or> or_status x \<noteq> EXPIRED" "ah \<and> or_side x = SELL \<longrightarrow> e"
  shows "writes e w (or_order_request_id x) (snd (settle_residual st now ah b prev x bo reason bs fills w))"
  unfolding settle_residual_def
proof (rule writes_and_then)
  show "writes e w (or_order_request_id x) (snd (if ah \<and> is_prior_day_day_partial_sell_residual
        (now_at (se_env st) ''residual'') x bs
      then expire_order st ''residual'' now b x (Some ''after_hours_day_partial_sell_residual_expired'')
        (Some (Plain ''After-hours cleanup: prior-day DAY partially filled SELL residual expired at market close''))
        (expired_result b prev now (fst fills) (snd fills)) w else (Inr None, w)))"
    by (rule maybe_expire_writes [OF assms(1,2)])
      (use assms(4) in \<open>simp add: is_prior_day_day_partial_sell_residual_def\<close>)
  show "writes e s (or_order_request_id x) (snd (case r of Some result \<Rightarrow> (Inr result, s)
     | None \<Rightarrow> finish_status st now b prev reason (or_status x \<noteq> prev) fills x bo s))" for r s
    using finish_status_writes [OF assms(1,3)] by (simp split: option.split)
qed

lemma settle_status_writes:
  assumes "calm st" "backed x (sy_base w)" "e \<or> or_status x \<noteq> EXPIRED" "ah \<and> or_side x = SELL \<longrightarrow> e"
  shows "writes e w (or_order_request_id x) (snd (settle_status st now ah b prev x bo reason bs w))"
  unfolding settle_status_def
proof (rule writes_and_then_backed [OF _ assms(2)])
  fix a s assume bs: "backed x (sy_base s)"
  have c: "after_hours_stuck t ah n prev bs x bo \<longrightarrow> e" for t n using assms(4) by (simp add: after_hours_stuck_def)
  show "writes e s (or_order_request_id x) (snd (and_then
      (if after_hours_stuck (now_at (se_env st) ''stuck'') ah (fst a) prev bs x bo
       then expire_order st ''stuck'' now b x None None (expired_result b prev now 0 (snd a)) s else (Inr None, s))
      (\<lambda>stuck w. case stuck of Some result \<Rightarrow> (Inr result, w)
        | None \<Rightarrow> settle_residual st now ah b prev x bo reason bs a w)))"
    by (rule writes_and_then_backed [OF maybe_expire_writes [OF assms(1) bs c] bs])
      (simp add: settle_residual_writes assms split: option.split)
qed (simp add: writes_frames_snd(4) [OF assms(1)])

lemma sync_status_writes:
  assumes "calm st" "backed x (sy_base w)" "e \<or> or_status x \<noteq> EXPIRED" "e \<or> bs \<noteq> EXPIRED" "ah \<and> or_side x = SELL \<longrightarrow> e"
  shows "writes e w (or_order_request_id x) (snd (sync_status st now ah b x bo reason bs w))"
  unfolding sync_status_def
proof (intro writes_and_then)
  let ?u = "if bo_broker_status bo \<noteq> status_value bs then set_broker_status b (status_value bs) now w else (Inr (), w)"
  show u: "writes e w (or_order_request_id x) (snd ?u)" using writes_frames_snd(1) by simp
  fix d s assume s: "?u = (Inr d, s)"
  have b: "backed x (sy_base s)" by (rule writes_backed_snd [OF u s assms(2)])
  obtain x1 w1 where t: "(if bs \<noteq> or_status x then st_transition st ''status'' x bs None None s else (x, s)) = (x1, w1)"
    by (metis surj_pair)
  have "writes e s (or_order_request_id x) w1 \<and> order_facts x1 = order_facts x
      \<and> (e \<or> or_status x1 \<noteq> EXPIRED) \<and> backed x1 (sy_base w1)"
  proof (cases "bs = or_status x")
    case False
    with t have t: "st_transition st ''status'' x bs None None s = (x1, w1)" by simp
    show ?thesis
      using writes_transition [OF assms(1) b t assms(4)] st_transition_moves(2,3,4) [OF assms(1) b t] assms(3,4) by auto
  qed (use t assms(3) b in auto)
  moreover from this have "or_side x1 = or_side x" by (simp add: order_facts_def)
  ultimately have "writes e s (or_order_request_id x)
      (snd (settle_status st now ah b (or_status x) x1 bo reason bs w1))"
    using settle_status_writes [OF assms(1), of x1 w1 e ah now b "or_status x" bo reason bs] assms(5) same_id writes_trans
    by metis
  then show "writes e s (or_order_request_id x)
      (snd (let previous = or_status x; (order, w) = if bs \<noteq> previous then st_transition st ''status'' x bs None None s else (x, s)
        in settle_status st now ah b previous order bo reason bs w))"
    unfolding Let_def t prod.case .
qed

text \<open>When an answer of the broker says that the order expired.\<close>

definition reports_expiry :: "setting \<Rightarrow> bool" where
  "reports_expiry st \<longleftrightarrow> (\<exists>r. se_order_status st = Inr r \<and> osr_status r = EXPIRED)
     \<or> (\<exists>r. se_unknown_state st = Inr r \<and> osr_status r = EXPIRED)"

lemma sync_order_writes:
  assumes "calm st" "orders_keyed (sy_base w)"
    and "broker_order_get (sy_base w) b = Some bo" "order_get (sy_base w) (bo_order_request_id bo) = Some x"
    and e_def: "e \<longleftrightarrow> reports_expiry st \<or> ah \<and> or_side x = SELL"
  shows "writes e w (bo_order_request_id bo) (snd (sync_order_post_submit st (Some ah) b w))"
proof -
  let ?now = "now_at (se_env st) ''now''"
  have id: "or_order_request_id x = bo_order_request_id bo" using assms(2,4) by (simp add: orders_keyed_def)
  have bk: "backed x (sy_base w)" using assms(2,4) id by (auto simp: backed_def)
  show ?thesis
  proof (cases "or_status x \<in> set syncable_statuses")
    case False
    have "writes e w (or_order_request_id x) (snd (sync_terminal st ?now b x bo w))"
      using sync_terminal_writes [OF assms(1) bk] by (metis surj_pair snd_conv)
    then show ?thesis using False assms(3,4) id by (simp add: sync_order_post_submit_def Let_def)
  next
    case True
    then have ne: "or_status x \<noteq> EXPIRED" "or_status x \<notin> set terminal_statuses"
      by (auto simp: syncable_statuses_def terminal_statuses_def)
    have ne1: "e \<or> or_status x \<noteq> EXPIRED" using ne(1) by simp
    have se: "ah \<and> or_side x = SELL \<longrightarrow> e" by (simp add: e_def)
    define odno where "odno \<longleftrightarrow> or_text (bo_broker_native_order_id bo) [] \<noteq> []"
    define w1 where "w1 = (if \<not> odno \<or> infer_linked_fill_snapshot_truth x (list_linked_fill_snapshots w x) \<noteq> None
       then w else se_waits st ''resolve_unknown_state'' w)"
    obtain ps reason where p: "(if \<not> odno then (None, None) else try_truth_probe (se_unknown_state st) x bo w w1) = (ps, reason)"
      by (metis surj_pair)
    have u1: "writes e w (or_order_request_id x) w1" using writes_frames(6) [OF assms(1)] by (simp add: w1_def)
    have b1: "backed x (sy_base w1)" by (rule writes_backed [OF u1 bk])
    have e: "or_text (bo_broker_native_order_id bo) [] = [] \<longleftrightarrow> \<not> odno" by (simp add: odno_def)
    note eq = sync_order_post_submit_def [of st "Some ah" b w, unfolded Let_def assms(3) option.case assms(4)]
    have run: "sync_order_post_submit st (Some ah) b w =
        (case ps of
           Some s \<Rightarrow> sync_probe_resolved st ?now b x bo s reason w1
         | None \<Rightarrow>
             (case se_order_status st of
                Inl e \<Rightarrow> (Inr (unchanged_result b (or_status x) ?now (Status_Failed reason e)),
                          se_waits st ''get_order_status'' w1)
              | Inr result \<Rightarrow> sync_status st ?now ah b x bo reason (osr_status result) (se_waits st ''get_order_status'' w1)))"
      unfolding eq
      by (simp only: e w1_def [symmetric] p prod.case ne(2) True if_False simp_thms)
    show ?thesis
    proof (cases ps)
      case (Some s)
      with p have "e \<or> s \<noteq> EXPIRED" using probe_range [of "se_unknown_state st" x bo w w1 s reason]
        by (auto simp: e_def reports_expiry_def split: if_splits)
      from sync_probe_writes [OF assms(1) b1 ne1 this] u1 show ?thesis
        using Some run id writes_trans by simp
    next
      case None
      note 2 = writes_frames(6) [OF assms(1), of e w1 "or_order_request_id x" "''get_order_status''"]
      show ?thesis
      proof (cases "se_order_status st")
        case (Inl e)
        then show ?thesis using None run writes_trans [OF u1 2] id by simp
      next
        case (Inr r)
        then have "e \<or> osr_status r \<noteq> EXPIRED" by (auto simp: e_def reports_expiry_def)
        from sync_status_writes [OF assms(1) writes_backed [OF 2 b1] ne1 this se]
        show ?thesis using None Inr run writes_trans [OF writes_trans [OF u1 2]] id by simp
      qed
    qed
  qed
qed

section \<open>Orders of unknown state\<close>

lemma fetch_writes: "calm st \<Longrightarrow> writes e w i (snd (fetch_kis_current_position_qty st l x w))"
  by (rule writes_same) (simp add: fetch_kis_current_position_qty_def calm_def Let_def split: option.split sum.split)

lemma kis_truth_writes: "calm st \<Longrightarrow> writes e w i (snd (try_kis_truth_fallback st l x bo w))"
  using fetch_writes by (simp add: try_kis_truth_fallback_def Let_def split_beta split: option.split)

lemma infer_sell_writes: "calm st \<Longrightarrow> writes e w i (snd (infer_sell_order_fill_via_position (se_refresh st) x bo w))"
  by (rule writes_same) (simp add: infer_sell_frame)

lemma reflect_inferred_writes:
  assumes "calm st" "backed x (sy_base w)" "s \<noteq> EXPIRED"
  shows "writes e w (or_order_request_id x) (snd (reflect_inferred_fill st l x bo s msg w))"
proof -
  obtain y w1 where t: "st_transition st l x s None None w = (y, w1)" by force
  obtain r w2 where b: "set_broker_status (bo_broker_order_id bo) ''filled'' (now_at (inside l 0 (se_env st)) ''broker'') w1 = (r, w2)"
    by force
  have 1: "writes e w (or_order_request_id x) w1" using writes_transition [OF assms(1,2) t] assms(3) by simp
  have 2: "writes e w1 (or_order_request_id x) w2" by (rule writes_frames(1) [OF b])
  have 3: "writes e w2 (or_order_request_id x) (snd (refresh_snapshots st l (or_account_id x) w2))"
    by (rule writes_frames_snd(3) [OF assms(1)])
  show ?thesis
    using 1 writes_trans [OF 1 2] writes_trans [OF writes_trans [OF 1 2] 3]
    by (simp add: reflect_inferred_fill_def t b split: sum.split)
qed

lemma position_attempt_writes:
  assumes "calm st" "backed x (sy_base w)"
  shows "writes e w (or_order_request_id x) (snd (position_attempt st l x bo msg w))"
proof -
  obtain s w1 where i: "infer_sell_order_fill_via_position (se_refresh st) x bo w = (s, w1)" by force
  have 1: "writes e w (or_order_request_id x) w1" using infer_sell_writes [OF assms(1), of e w "or_order_request_id x" x bo] i by simp
  have "writes e w1 (or_order_request_id x) (snd (reflect_inferred_fill st l x bo y msg w1))" if "s = Some y" for y
    using reflect_inferred_writes [OF assms(1) writes_backed [OF 1 assms(2)]] infer_sell_range [of "se_refresh st" x bo w y w1] i that by auto
  then show ?thesis using 1 writes_trans by (auto simp: position_attempt_def i split: option.split)
qed

lemma kis_attempt_writes:
  assumes "calm st" "backed x (sy_base w)"
  shows "writes e w (or_order_request_id x) (snd (kis_attempt st l x bo msg w))"
proof -
  obtain q w1 where i: "try_kis_truth_fallback st l x bo w = (q, w1)" by force
  have 1: "writes e w (or_order_request_id x) w1" using kis_truth_writes [OF assms(1), of e w "or_order_request_id x" l x bo] i by simp
  have "writes e w1 (or_order_request_id x) (snd (reflect_inferred_fill st l x bo
      (if or_requested_quantity x \<le> y then FILLED else PARTIALLY_FILLED) msg w1))" for y
    using reflect_inferred_writes [OF assms(1) writes_backed [OF 1 assms(2)]] by simp
  then show ?thesis using 1 writes_trans by (auto simp: kis_attempt_def i split: option.split)
qed

lemma expire_attempt_writes:
  assumes "calm st" "backed x (sy_base w)" "ah \<and> or_side x = SELL \<longrightarrow> e"
  shows "writes e w (or_order_request_id x) (snd (expire_attempt st l ah x bo msg w))"
proof -
  obtain y w1 where t: "st_transition st l x EXPIRED None None w = (y, w1)" by force
  show ?thesis using writes_transition [OF assms(1,2) t, of e] assms(3) by (simp add: expire_attempt_def t)
qed

lemma side_cases: "s \<noteq> BUY \<longleftrightarrow> s = SELL" "s \<noteq> SELL \<longleftrightarrow> s = BUY"
  by (cases s; simp)+

lemma stuck_attempt_writes:
  assumes "calm st" "backed x (sy_base w)" "ah \<and> or_side x = SELL \<longrightarrow> e"
  shows "writes e w (or_order_request_id x) (snd (stuck_attempt st ah x bo w))"
proof (cases "ah \<and> or_side x = SELL")
  case False
  then show ?thesis by (auto simp: stuck_attempt_def side_cases split: option.split)
next
  case True
  then have e: "e \<or> EXPIRED \<noteq> EXPIRED" using assms(3) by simp
  obtain a w1 where k: "kis_attempt st ''stuck_kis'' x bo ''Stuck expiry KIS truth'' w = (a, w1)" by force
  have 1: "writes e w (or_order_request_id x) w1" using kis_attempt_writes [OF assms(1,2)] k by (metis snd_conv)
  have b1: "backed x (sy_base w1)" by (rule writes_backed [OF 1 assms(2)])
  obtain y w2 where t: "st_transition st ''stuck'' x EXPIRED None None w1 = (y, w2)" by force
  have 2: "writes e w (or_order_request_id x) w2" using writes_trans [OF 1 writes_transition [OF assms(1) b1 t e]] .
  obtain r w3 where b: "set_broker_status (bo_broker_order_id bo) ''expired'' (now_at (inside ''stuck'' 0 (se_env st)) ''broker'') w2 = (r, w3)"
    by force
  have 3: "writes e w (or_order_request_id x) w3" using writes_trans [OF 2 writes_frames(1) [OF b]] .
  show ?thesis
    using True 1 2 3 by (auto simp: stuck_attempt_def k t b split: option.split attempt.split sum.split)
qed

lemma writes_attempt:
  assumes "writes e w i (snd r)" "backed x (sy_base w)"
    and "\<And>w1. r = (Go_On, w1) \<Longrightarrow> backed x (sy_base w1) \<Longrightarrow> writes e w1 i (snd (f w1))"
  shows "writes e w i (snd (case r of (Resolved y, w) \<Rightarrow> (g y, w) | (Unresolved, w) \<Rightarrow> (h, w) | (Go_On, w) \<Rightarrow> f w))"
proof (cases r)
  case (Pair a w1)
  have u: "writes e w i w1" using assms(1) Pair by simp
  have "writes e w i (snd (f w1))" if "a = Go_On"
    using writes_trans [OF u assms(3)] Pair that writes_backed [OF u assms(2)] by simp
  then show ?thesis using u Pair by (simp split: attempt.split)
qed

lemma resolve_without_record_writes:
  assumes "calm st" "backed x (sy_base w)" "ah \<and> or_side x = SELL \<longrightarrow> e"
  shows "writes e w (or_order_request_id x) (snd (resolve_without_record st ah x bo w))"
  unfolding resolve_without_record_def
  by (rule writes_attempt [OF kis_attempt_writes [OF assms(1,2)] assms(2)],
      rule writes_attempt [OF position_attempt_writes [OF assms(1)]], assumption+,
      rule writes_attempt [OF stuck_attempt_writes [OF assms(1) _ assms(3)]], assumption+,
      rule expire_attempt_writes [OF assms(1) _ assms(3)])

lemma authoritative_writes:
  assumes "calm st" "backed x (sy_base w)"
    and e: "e \<longleftrightarrow> reports_expiry st \<or> ah \<and> or_side x = SELL"
  shows "writes e w (or_order_request_id x) (snd (sync_transition_to_authoritative st ah x bo w))"
proof (cases "or_status x = RECONCILE_REQUIRED")
  case True
  let ?w = "se_waits st ''resolve_unknown_state'' w" and ?i = "or_order_request_id x"
  have 0: "writes e w ?i ?w" by (rule writes_frames(6) [OF assms(1)])
  have b: "backed x (sy_base ?w)" by (rule writes_backed [OF 0 assms(2)])
  have se: "ah \<and> or_side x = SELL \<longrightarrow> e" using e by simp
  have "writes e ?w ?i (snd (sync_transition_to_authoritative st ah x bo w))"
  proof (cases "se_unknown_state st")
    case (Inl err)
    show ?thesis
      unfolding sync_transition_to_authoritative_def Let_def Inl sum.case
      using True
      by (simp only: simp_thms if_False)
        (rule writes_attempt [OF position_attempt_writes [OF assms(1) b] b],
          simp add: split_beta expire_attempt_writes [OF assms(1) _ se])
  next
    case (Inr result)
    let ?b = "if bo_broker_status bo \<noteq> status_value (osr_status result)
        then set_broker_status (bo_broker_order_id bo) (status_value (osr_status result)) (now_at (se_env st) ''broker'') ?w
        else (Inr (), ?w)"
    have t: "writes e s ?i (snd (st_transition st ''authoritative'' x (osr_status result) None None s))"
      if "backed x (sy_base s)" for s
      using writes_transition [OF assms(1) that, of "''authoritative''" "osr_status result" None None] e Inr
      by (auto simp: reports_expiry_def) (metis surj_pair snd_conv)+
    show ?thesis
      unfolding sync_transition_to_authoritative_def Let_def Inr sum.case
      using True
      by (simp only: simp_thms if_False)
        (rule writes_and_then_backed [OF _ b], simp add: writes_frames_snd,
          simp add: split_beta t resolve_without_record_writes [OF assms(1) _ se] split: sum.split bool.split)
  qed
  with 0 show ?thesis by (rule writes_trans)
qed (simp add: sync_transition_to_authoritative_def)

section \<open>Whole cycles\<close>

text \<open>The orders that expire on the way from \<open>w\<close> to \<open>w'\<close> satisfy \<open>P\<close>; what a transition never changes
  stays.\<close>

definition expires_only :: "(uuid \<Rightarrow> bool) \<Rightarrow> sync_world \<Rightarrow> sync_world \<Rightarrow> bool" where
  "expires_only P w w' \<longleftrightarrow> same_facts (sy_base w) (sy_base w')
     \<and> (\<forall>k. order_status_of (sy_base w') k = Some EXPIRED \<longrightarrow> order_status_of (sy_base w) k = Some EXPIRED \<or> P k)"

lemma expires_only_refl [simp]: "expires_only P w w" by (simp add: expires_only_def same_facts_def)

lemma expires_only_trans: "expires_only P w w' \<Longrightarrow> expires_only P w' w'' \<Longrightarrow> expires_only P w w''"
  unfolding expires_only_def using same_facts_trans by blast

lemma expires_only_mono: "expires_only P w w' \<Longrightarrow> (\<And>k. P k \<Longrightarrow> Q k) \<Longrightarrow> expires_only Q w w'"
  unfolding expires_only_def by blast

lemma moves_expires_only:
  assumes "moves (sy_base w) i S (sy_base w')" "EXPIRED \<in> S \<Longrightarrow> P i"
  shows "expires_only P w w'"
proof -
  have "order_status_of (sy_base w) k = Some EXPIRED \<or> P k" if "order_status_of (sy_base w') k = Some EXPIRED" for k
    using assms that unfolding moves_def by (metis option.inject)
  then show ?thesis using moves_same_facts [OF assms(1)] by (simp add: expires_only_def)
qed

lemma writes_expires_only: "writes e w i w' \<Longrightarrow> (e \<Longrightarrow> P i) \<Longrightarrow> expires_only P w w'"
  unfolding writes_def by (rule moves_expires_only) auto

text \<open>Sales; the side of an order never changes.\<close>

definition sale :: "repos \<Rightarrow> uuid \<Rightarrow> bool" where
  "sale r k \<longleftrightarrow> map_option (\<lambda>x. fst (snd (order_facts x))) (order_get r k) = Some SELL"

lemma sale_same: "same_facts r r' \<Longrightarrow> sale r' = sale r"
proof
  fix k assume "same_facts r r'"
  then have "map_option order_facts (order_get r' k) = map_option order_facts (order_get r k)"
    by (simp add: same_facts_def)
  then have "map_option (fst \<circ> snd) (map_option order_facts (order_get r' k)) =
      map_option (fst \<circ> snd) (map_option order_facts (order_get r k))" by simp
  then show "sale r' k = sale r k" by (simp add: sale_def option.map_comp comp_def)
qed

lemma sale_backed: "backed x r \<Longrightarrow> sale r (or_order_request_id x) \<longleftrightarrow> or_side x = SELL"
  by (auto simp: backed_def sale_def order_facts_def)

text \<open>Steps that expire at most sales, and these only after hours.\<close>

definition expires_sales :: "bool \<Rightarrow> sync_world \<Rightarrow> sync_world \<Rightarrow> bool" where
  "expires_sales ah w w' \<longleftrightarrow> expires_only (\<lambda>k. ah \<and> sale (sy_base w) k) w w'"

lemma expires_sales_refl [simp]: "expires_sales ah w w" by (simp add: expires_sales_def)

lemma expires_sales_trans: "expires_sales ah w w' \<Longrightarrow> expires_sales ah w' w'' \<Longrightarrow> expires_sales ah w w''"
proof -
  assume a: "expires_sales ah w w'" "expires_sales ah w' w''"
  have "sale (sy_base w') = sale (sy_base w)" using a(1) by (simp add: expires_sales_def expires_only_def sale_same)
  with a show ?thesis unfolding expires_sales_def by (metis expires_only_trans)
qed

lemma expires_sales_facts: "expires_sales ah w w' \<Longrightarrow> same_facts (sy_base w) (sy_base w')"
  by (simp add: expires_sales_def expires_only_def)

lemma expires_sales_keyed: "expires_sales ah w w' \<Longrightarrow> orders_keyed (sy_base w) \<Longrightarrow> orders_keyed (sy_base w')"
  using expires_sales_facts same_facts_keyed by blast

lemma expires_sales_backed: "expires_sales ah w w' \<Longrightarrow> backed x (sy_base w) \<Longrightarrow> backed x (sy_base w')"
  using expires_sales_facts backed_facts by blast

definition quiet_setting :: "setting \<Rightarrow> bool" where
  "quiet_setting st \<longleftrightarrow> calm st \<and> \<not> reports_expiry st"

lemma sync_order_sales:
  assumes "quiet_setting st" "orders_keyed (sy_base w)"
  shows "expires_sales ah w (snd (sync_order_post_submit st (Some ah) b w))"
proof (cases "broker_order_get (sy_base w) b")
  case None
  then show ?thesis by (simp add: sync_order_post_submit_def Let_def)
next
  case (Some bo)
  show ?thesis
  proof (cases "order_get (sy_base w) (bo_order_request_id bo)")
    case None
    then show ?thesis using Some by (simp add: sync_order_post_submit_def Let_def)
  next
    case x: (Some x)
    have c: "calm st" "\<not> reports_expiry st" using assms(1) by (simp_all add: quiet_setting_def)
    show ?thesis
      unfolding expires_sales_def
      by (rule writes_expires_only [OF sync_order_writes [OF c(1) assms(2) Some x refl]])
        (use c(2) x in \<open>simp add: sale_def order_facts_def\<close>)
  qed
qed

lemma authoritative_sales:
  assumes "quiet_setting st" "backed x (sy_base w)"
  shows "expires_sales ah w (snd (sync_transition_to_authoritative st ah x bo w))"
proof -
  have c: "calm st" "\<not> reports_expiry st" using assms(1) by (simp_all add: quiet_setting_def)
  show ?thesis
    unfolding expires_sales_def
    by (rule writes_expires_only [OF authoritative_writes [OF c(1) assms(2) refl]])
      (use c(2) sale_backed [OF assms(2)] in simp)
qed

lemma listed_backed:
  assumes "order_list r q = Inr xs" "orders_keyed r" "x \<in> set xs"
  shows "backed x r" "order_get r (or_order_request_id x) = Some x" "order_matches r q x"
proof -
  have x: "x \<in> snd ` set (rp_orders r) \<and> order_matches r q x"
    using assms(1,3) by (auto simp: order_list_def Let_def split: if_splits dest: in_set_takeD)
  show g: "order_get r (or_order_request_id x) = Some x" using orders_keyed_listed [OF assms(2)] x by blast
  then show "backed x r" using assms(2) by (auto simp: backed_def)
  show "order_matches r q x" using x by blast
qed

text \<open>The loops.\<close>

lemma resolve_broker_orders_sales:
  assumes "\<And>i. quiet_setting (sts i)" "backed x (sy_base w)"
  shows "expires_sales ah w (snd (resolve_broker_orders sts ah i x bos w))"
  using assms(2)
proof (induction bos arbitrary: i w)
  case (Cons bo bos)
  note 1 = authoritative_sales [OF assms(1) [of i] Cons.prems, where ah = ah and bo = bo]
  from expires_sales_trans [OF 1 Cons.IH [OF expires_sales_backed [OF 1 Cons.prems]]] show ?case
    by (simp add: Let_def split_beta)
qed simp

lemma resolve_orders_sales:
  assumes "\<And>i j. quiet_setting (sts i j)" "\<forall>x \<in> set xs. backed x (sy_base w)"
  shows "expires_sales ah w (snd (resolve_orders sts ah i xs w))"
  using assms(2)
proof (induction xs arbitrary: i w)
  case (Cons x xs)
  have b: "backed x (sy_base w)" using Cons.prems by simp
  note 1 = resolve_broker_orders_sales [where sts = "sts i", OF assms(1) [of i] b, where ah = ah and i = 0
      and bos = "broker_orders_of_request (sy_base w) (or_order_request_id x)"]
  have "\<forall>y \<in> set xs. backed y (sy_base (snd (resolve_broker_orders (sts i) ah 0 x
      (broker_orders_of_request (sy_base w) (or_order_request_id x)) w)))"
    using expires_sales_backed [OF 1] Cons.prems by simp
  from expires_sales_trans [OF 1 Cons.IH [OF this]] show ?case by (simp add: Let_def split_beta)
qed simp

lemma reconcile_sales:
  assumes "\<And>i j. quiet_setting (sts i j)" "orders_keyed (sy_base w)"
  shows "expires_sales ah w (snd (sync_reconcile_required_orders sts n ah w))"
  using resolve_orders_sales [where sts = sts, OF assms(1), where w = w and ah = ah and i = 0] listed_backed(1) [OF _ assms(2)]
  by (simp add: sync_reconcile_required_orders_def split_beta split: sum.split)

lemma sync_broker_orders_sales:
  assumes "\<And>i. quiet_setting (sts i)" "orders_keyed (sy_base w)"
  shows "expires_sales ah w (snd (sync_broker_orders sts ah i bos c w))"
  using assms(2)
proof (induction bos arbitrary: i c w)
  case (Cons bo bos)
  note 1 = sync_order_sales [OF assms(1) [of i] Cons.prems, where ah = ah and b = "bo_broker_order_id bo"]
  from expires_sales_trans [OF 1 Cons.IH [OF expires_sales_keyed [OF 1 Cons.prems]]] show ?case
    by (simp add: Let_def split_beta)
qed simp

lemma sync_orders_sales:
  assumes "\<And>i j. quiet_setting (sts i j)" "orders_keyed (sy_base w)"
  shows "expires_sales ah w (snd (sync_orders sts ah i xs c w))"
  using assms(2)
proof (induction xs arbitrary: i c w)
  case (Cons x xs)
  note 1 = sync_broker_orders_sales [where sts = "sts i", OF assms(1) [of i] Cons.prems, where ah = ah and i = 0
      and bos = "broker_orders_of_request (sy_base w) (or_order_request_id x)" and c = c]
  from expires_sales_trans [OF 1 Cons.IH [OF expires_sales_keyed [OF 1 Cons.prems]]] show ?case
    by (simp add: Let_def split_beta)
qed simp

section \<open>Cleanup\<close>

lemma clean_up_moves:
  assumes "leaves_orders others" "backed x (sy_base w)" "clean_up ev others x tg code msg actor w = (d, w')"
  shows "moves (sy_base w) (or_order_request_id x) {tg} (sy_base w')"
    "rp_broker_orders (sy_base w') = rp_broker_orders (sy_base w)"
proof -
  obtain r m where t: "transition_to ev others x tg (Some code) (Some msg) ''system'' actor 3 False (manager_of w) = (r, m)"
    by force
  have b: "backed x (om_repos (manager_of w))" using assms(2) by simp
  note v = transition_to_moves [OF assms(1) b t]
  show "moves (sy_base w) (or_order_request_id x) {tg} (sy_base w')"
    "rp_broker_orders (sy_base w') = rp_broker_orders (sy_base w)"
    using v(1,2) assms(3) t by (auto simp: clean_up_def)
qed

lemma reject_stale_sales:
  assumes "\<And>i. leaves_orders (others i)" "\<forall>x \<in> set xs. backed x (sy_base w)"
  shows "expires_sales ah w (snd (reject_stale ev others cutoff i xs w))"
  using assms(2)
proof (induction xs arbitrary: i w)
  case (Cons x xs)
  show ?case
  proof (cases "is_stale_submission w cutoff x")
    case True
    obtain d w1 where c: "clean_up (inside ''stale'' i ev) (others i) x REJECTED ''submission_failed_no_broker_id''
        (Msg_Stale (the (or_created_at x)) (or_side x)) ''post_submit_sync'' w = (d, w1)" by force
    have 1: "expires_sales ah w w1"
      unfolding expires_sales_def
      by (rule moves_expires_only [OF clean_up_moves(1) [OF assms(1) _ c]]) (use Cons.prems in auto)
    have "\<forall>y \<in> set xs. backed y (sy_base w1)" using expires_sales_backed [OF 1] Cons.prems by simp
    from expires_sales_trans [OF 1 Cons.IH [OF this]] show ?thesis
      using True c by (simp add: Let_def split_beta)
  qed (use Cons in simp)
qed simp


section \<open>The end of the day\<close>

text \<open>The two passes at the end of the day differ only in the reasons they write.\<close>

definition orphan_in :: "order_request list \<Rightarrow> timestamp \<Rightarrow> sync_world \<Rightarrow> uuid \<Rightarrow> bool" where
  "orphan_in xs cutoff w k \<longleftrightarrow> (\<exists>x \<in> set xs. or_order_request_id x = k \<and> is_eod_orphan w cutoff x)"

definition eod_pass :: "order_request list \<Rightarrow> timestamp \<Rightarrow> sync_world \<Rightarrow> sync_world \<Rightarrow> bool" where
  "eod_pass xs cutoff w w' \<longleftrightarrow> same_facts (sy_base w) (sy_base w') \<and> same_submitted (sy_base w) (sy_base w')
     \<and> rp_broker_orders (sy_base w') = rp_broker_orders (sy_base w)
     \<and> (\<forall>k. order_status_of (sy_base w') k = order_status_of (sy_base w) k
          \<or> order_status_of (sy_base w') k = Some EXPIRED \<and> orphan_in xs cutoff w k)"

lemma orphan_same:
  "rp_broker_orders (sy_base w') = rp_broker_orders (sy_base w) \<Longrightarrow> is_eod_orphan w' c x = is_eod_orphan w c x"
  by (simp add: is_eod_orphan_def broker_orders_of_request_def)

lemma eod_pass_refl [simp]: "eod_pass xs cutoff w w"
  by (simp add: eod_pass_def same_facts_def same_submitted_def)

lemma eod_pass_step:
  assumes "leaves_orders others" "backed x (sy_base w)" "is_eod_orphan w cutoff x"
    and "clean_up ev others x EXPIRED code msg actor w = (d, w1)" "eod_pass xs cutoff w1 w'"
  shows "eod_pass (x # xs) cutoff w w'"
proof -
  note c = clean_up_moves [OF assms(1,2,4)]
  have "orphan_in xs cutoff w1 k \<Longrightarrow> orphan_in (x # xs) cutoff w k" for k
    using orphan_same [OF c(2)] by (auto simp: orphan_in_def)
  moreover have "orphan_in (x # xs) cutoff w (or_order_request_id x)"
    using assms(3) by (auto simp: orphan_in_def)
  moreover have "order_status_of (sy_base w1) k = order_status_of (sy_base w) k
      \<or> k = or_order_request_id x \<and> order_status_of (sy_base w1) k = Some EXPIRED" for k
    using c(1) unfolding moves_def by blast
  ultimately have "order_status_of (sy_base w') k = order_status_of (sy_base w) k
      \<or> order_status_of (sy_base w') k = Some EXPIRED \<and> orphan_in (x # xs) cutoff w k" for k
    using assms(5) unfolding eod_pass_def by metis
  moreover have "same_facts (sy_base w) (sy_base w1)" "same_submitted (sy_base w) (sy_base w1)"
    using c(1) by (auto simp: moves_def)
  ultimately show ?thesis
    using assms(5) c(2) same_facts_trans same_submitted_trans unfolding eod_pass_def by metis
qed

lemma eod_pass_skip: "eod_pass xs cutoff w w' \<Longrightarrow> eod_pass (x # xs) cutoff w w'"
  unfolding eod_pass_def orphan_in_def by (metis list.set_intros(2))

lemma eod_pass_backed:
  "clean_up ev others x EXPIRED code msg actor w = (d, w1) \<Longrightarrow> leaves_orders others \<Longrightarrow> backed x (sy_base w) \<Longrightarrow>
    backed y (sy_base w) \<Longrightarrow> backed y (sy_base w1)"
  using clean_up_moves(1) backed_moves by blast

lemma expire_pending_pass:
  assumes "\<And>i. leaves_orders (others i)" "\<forall>x \<in> set xs. backed x (sy_base w)"
  shows "eod_pass xs (now - seconds 3600) w (snd (expire_pending ev others now i xs w))"
  using assms(2)
proof (induction xs arbitrary: i w)
  case (Cons x xs)
  show ?case
  proof (cases "is_eod_orphan w (now - seconds 3600) x")
    case True
    obtain d w1 where c: "clean_up (inside ''pending'' i ev) (others i) x EXPIRED ''eod_orphan_cleanup_no_broker_order''
        (Msg_Orphan (now - the (or_created_at x)) None) ''eod_orphan_cleanup'' w = (d, w1)" by force
    have b: "\<forall>y \<in> set xs. backed y (sy_base w1)" using eod_pass_backed [OF c assms(1)] Cons.prems by simp
    have "eod_pass (x # xs) (now - seconds 3600) w (snd (expire_pending ev others now (Suc i) xs w1))"
      by (rule eod_pass_step [OF assms(1) _ True c Cons.IH [OF b]]) (use Cons.prems in simp)
    then show ?thesis using True c by (simp add: Let_def split_beta)
  qed (use Cons eod_pass_skip in simp)
qed simp

lemma expire_reconcile_pass:
  assumes "\<And>i. leaves_orders (others i)" "\<forall>x \<in> set xs. backed x (sy_base w)"
  shows "eod_pass xs (now - seconds 3600) w (snd (expire_reconcile ev others now i xs w))"
  using assms(2)
proof (induction xs arbitrary: i w)
  case (Cons x xs)
  show ?case
  proof (cases "is_eod_orphan w (now - seconds 3600) x")
    case True
    define rs where "rs = get_latest_reconciliation_status_by_order (rp_reconciliations (sy_base w)) (or_order_request_id x)"
    obtain d w1 where c: "clean_up (inside ''reconcile'' i ev) (others i) x EXPIRED
        (if rs = Some ''failed'' then ''eod_orphan_cleanup_failed_reconciliation''
         else ''eod_orphan_cleanup_no_reconciliation'')
        (Msg_Orphan (now - the (or_created_at x)) (Some (or_text rs ''none''))) ''eod_orphan_cleanup'' w = (d, w1)" by force
    have b: "\<forall>y \<in> set xs. backed y (sy_base w1)" using eod_pass_backed [OF c assms(1)] Cons.prems by simp
    have "eod_pass (x # xs) (now - seconds 3600) w (snd (expire_reconcile ev others now (Suc i) xs w1))"
      by (rule eod_pass_step [OF assms(1) _ True c Cons.IH [OF b]]) (use Cons.prems in simp)
    then show ?thesis using True c unfolding rs_def by (simp add: Let_def split_beta)
  qed (use Cons eod_pass_skip in simp)
qed simp


text \<open>What the cleanup demands of an order: old enough, never submitted, unknown to the broker.\<close>

definition eod_orphan_in :: "repos \<Rightarrow> timestamp \<Rightarrow> uuid \<Rightarrow> bool" where
  "eod_orphan_in r cutoff k \<longleftrightarrow> (\<exists>x. order_get r k = Some x \<and> or_status x \<in> {PENDING_SUBMIT, RECONCILE_REQUIRED}
     \<and> or_submitted_at x = None \<and> (\<exists>t. or_created_at x = Some t \<and> t \<le> cutoff)) \<and> broker_orders_of_request r k = []"

lemma listed_orphan:
  assumes "order_list (sy_base w) (with_status s) = Inr xs" "orders_keyed (sy_base w)" "orphan_in xs cutoff w k"
    and "s \<in> {PENDING_SUBMIT, RECONCILE_REQUIRED}"
  shows "eod_orphan_in (sy_base w) cutoff k"
proof -
  obtain x where x: "x \<in> set xs" "or_order_request_id x = k" "is_eod_orphan w cutoff x"
    using assms(3) by (auto simp: orphan_in_def)
  note l = listed_backed(2,3) [OF assms(1,2) x(1)]
  have "or_status x = s" using l(2) by (auto simp: order_matches_def with_status_def any_order_def)
  then show ?thesis
    using x l(1) assms(4) by (auto simp: eod_orphan_in_def is_eod_orphan_def split: option.splits)
qed

text \<open>An orphan that the second pass finds was one before the first.\<close>

lemma orphan_before:
  assumes "eod_pass xs cutoff w w'" "eod_orphan_in (sy_base w') c k"
  shows "eod_orphan_in (sy_base w) c k"
proof -
  obtain y t where y: "order_get (sy_base w') k = Some y" "or_status y \<in> {PENDING_SUBMIT, RECONCILE_REQUIRED}"
    "or_submitted_at y = None" "or_created_at y = Some t" "t \<le> c" "broker_orders_of_request (sy_base w') k = []"
    using assms(2) by (auto simp: eod_orphan_in_def)
  have "map_option order_facts (order_get (sy_base w') k) = map_option order_facts (order_get (sy_base w) k)"
    "map_option or_submitted_at (order_get (sy_base w') k) = map_option or_submitted_at (order_get (sy_base w) k)"
    and b: "broker_orders_of_request (sy_base w) k = []"
    using assms(1) y(6) by (simp_all add: eod_pass_def same_facts_def same_submitted_def broker_orders_of_request_def)
  with y(1,3) obtain x where x: "order_get (sy_base w) k = Some x" "order_facts x = order_facts y" "or_submitted_at x = None"
    by (cases "order_get (sy_base w) k") auto
  have "order_status_of (sy_base w) k = Some (or_status y)"
  proof -
    have "order_status_of (sy_base w') k = Some (or_status y)" using y(1) by (simp add: order_status_of_def)
    moreover have "order_status_of (sy_base w') k = order_status_of (sy_base w) k
        \<or> order_status_of (sy_base w') k = Some EXPIRED"
      using assms(1) unfolding eod_pass_def by blast
    ultimately show ?thesis using y(2) by auto
  qed
  then show ?thesis using b x y(2,4,5) by (auto simp: eod_orphan_in_def order_status_of_def order_facts_def)
qed

lemma eod_two_passes:
  assumes "\<And>l i. leaves_orders (others l i)" "orders_keyed (sy_base w)"
    and "expire_eod_orphan_orders ev others w = (res, w')" and c: "c = now_at ev ''now'' - seconds 3600"
  obtains "w' = w"
  | ps w1 rs where "order_list (sy_base w) (with_status PENDING_SUBMIT) = Inr ps" "eod_pass ps c w w1"
      "orders_keyed (sy_base w1)"
      "w' = w1 \<or> order_list (sy_base w1) (with_status RECONCILE_REQUIRED) = Inr rs \<and> eod_pass rs c w1 w'"
proof (cases "order_list (sy_base w) (with_status PENDING_SUBMIT)")
  case (Inr ps)
  obtain n w1 where 1: "expire_pending ev (others ''pending'') (now_at ev ''now'') 0 ps w = (n, w1)" by force
  have p1: "eod_pass ps c w w1"
    using expire_pending_pass [where others = "others ''pending''", OF assms(1), where xs = ps and w = w]
      listed_backed(1) [OF Inr assms(2)] 1 c by (metis snd_conv)
  have k1: "orders_keyed (sy_base w1)" using p1 assms(2) same_facts_keyed by (auto simp: eod_pass_def)
  have "\<exists>rs. w' = w1 \<or> order_list (sy_base w1) (with_status RECONCILE_REQUIRED) = Inr rs \<and> eod_pass rs c w1 w'"
  proof (cases "order_list (sy_base w1) (with_status RECONCILE_REQUIRED)")
    case r: (Inr rs)
    have "w' = snd (expire_reconcile ev (others ''reconcile'') (now_at ev ''now'') 0 rs w1)"
      using assms(3) Inr 1 r by (auto simp: expire_eod_orphan_orders_def Let_def split_beta)
    then show ?thesis
      using expire_reconcile_pass [where others = "others ''reconcile''", OF assms(1), where xs = rs and w = w1]
        listed_backed(1) [OF r k1] r c by metis
  qed (use assms(3) Inr 1 in \<open>auto simp: expire_eod_orphan_orders_def Let_def\<close>)
  with that(2) [OF Inr p1 k1] show ?thesis by blast
qed (use assms(3) that(1) in \<open>auto simp: expire_eod_orphan_orders_def Let_def\<close>)

lemma eod_cleanup_broker_orders:
  assumes "\<And>l i. leaves_orders (others l i)" "orders_keyed (sy_base w)"
    and "expire_eod_orphan_orders ev others w = (res, w')"
  shows "broker_orders_of_request (sy_base w') k = broker_orders_of_request (sy_base w) k"
  using eod_two_passes [where others = others, OF assms refl]
  by (rule; simp add: eod_pass_def broker_orders_of_request_def) metis

lemma eod_cleanup_pass:
  assumes "\<And>l i. leaves_orders (others l i)" "orders_keyed (sy_base w)"
    and "expire_eod_orphan_orders ev others w = (res, w')"
    and "order_status_of (sy_base w') k \<noteq> order_status_of (sy_base w) k"
  shows "order_status_of (sy_base w') k = Some EXPIRED
    \<and> eod_orphan_in (sy_base w) (now_at ev ''now'' - seconds 3600) k"
proof -
  let ?c = "now_at ev ''now'' - seconds 3600"
  obtain ps w1 rs where p: "order_list (sy_base w) (with_status PENDING_SUBMIT) = Inr ps"
    and p1: "eod_pass ps ?c w w1" and k1: "orders_keyed (sy_base w1)"
    and 2: "w' = w1 \<or> order_list (sy_base w1) (with_status RECONCILE_REQUIRED) = Inr rs \<and> eod_pass rs ?c w1 w'"
    using eod_two_passes [where others = others, OF assms(1-3) refl] assms(4) by metis
  show ?thesis
  proof (cases "order_status_of (sy_base w1) k = order_status_of (sy_base w) k")
    case False
    then have "order_status_of (sy_base w1) k = Some EXPIRED" "orphan_in ps ?c w k"
      using p1 by (auto simp: eod_pass_def)
    moreover have "order_status_of (sy_base w') k = Some EXPIRED" using 2 calculation(1) unfolding eod_pass_def by metis
    ultimately show ?thesis using listed_orphan [OF p assms(2)] by simp
  next
    case True
    with assms(4) 2 have 3: "order_list (sy_base w1) (with_status RECONCILE_REQUIRED) = Inr rs"
      "order_status_of (sy_base w') k = Some EXPIRED" "orphan_in rs ?c w1 k"
      unfolding eod_pass_def by metis+
    from listed_orphan [OF 3(1) k1 3(3)] orphan_before [OF p1] 3(2) show ?thesis by simp
  qed
qed

text \<open>The end of the day on top of the rest of a cycle.\<close>

lemma eod_cleanup_expires:
  assumes "\<And>l i. leaves_orders (others l i)" "orders_keyed (sy_base w)"
    and "expire_eod_orphan_orders ev others w = (res, w')"
    and "order_status_of (sy_base w') k = Some EXPIRED"
  shows "order_status_of (sy_base w) k = Some EXPIRED \<or> broker_orders_of_request (sy_base w') k = []"
proof (cases "order_status_of (sy_base w') k = order_status_of (sy_base w) k")
  case False
  from eod_cleanup_pass [where others = others, OF assms(1-3) False]
    eod_cleanup_broker_orders [where others = others, OF assms(1-3)] show ?thesis by (simp add: eod_orphan_in_def)
qed (use assms(4) in simp)

lemma cycle_before_cleanup:
  assumes "\<And>l i j. quiet_setting (sts l i j)" "orders_keyed (sy_base w)"
  shows "expires_sales ah w (snd (sync_reconcile_required_orders (sts l) n ah (snd (sync_orders (sts l') ah i xs c w))))"
  using sync_orders_sales [where sts = "sts l'", OF assms(1,2), where ah = ah]
    reconcile_sales [where sts = "sts l", OF assms(1), where ah = ah] expires_sales_keyed [OF _ assms(2)]
    expires_sales_trans by blast

lemma stale_sales:
  assumes "\<And>i. leaves_orders (others i)" "orders_keyed (sy_base w)"
  shows "expires_sales ah w (snd (reject_stale_pending_submit_orders ev others w))"
  using reject_stale_sales [where others = others, OF assms(1), where w = w and ah = ah]
    listed_backed(1) [OF _ assms(2)]
  by (simp add: reject_stale_pending_submit_orders_def split_beta split: sum.split)

lemma cycle_steps:
  assumes "\<And>l i j. quiet_setting (sts l i j)" "\<And>l i. leaves_orders (others l i)" "orders_keyed (sy_base w)"
    and "run_sync_cycle ev sts others limit (Some ah) rec w = (res, w')"
  obtains "expires_sales ah w w'"
  | w1 r where "expires_sales ah w w1" "ah" "expire_eod_orphan_orders (inside ''eod'' 0 ev) others w1 = (r, w')"
proof -
  obtain r0 w0 where 0: "reject_stale_pending_submit_orders (inside ''stale'' 0 ev) (others ''stale'') w = (r0, w0)" by force
  have s0: "expires_sales ah w w0"
    using stale_sales [where others = "others ''stale''", OF assms(2,3), where ah = ah] 0 by (metis snd_conv)
  have k0: "orders_keyed (sy_base w0)" by (rule expires_sales_keyed [OF s0 assms(3)])
  let ?q = "order_list (sy_base w0) (sync_query rec (now_at ev ''today'') limit)"
  let ?c = "\<lambda>xs. \<lparr>sc_total_orders = length xs, sc_updated = 0, sc_filled = 0, sc_partial = 0, sc_errors = [],
      sc_snapshots_refreshed = 0, sc_orphans_expired_pending = 0, sc_orphans_expired_reconcile = 0\<rparr>"
  define w1 where "w1 xs = snd (sync_reconcile_required_orders (sts ''reconcile'') 50 ah
      (snd (sync_orders (sts ''sync'') ah 0 xs (?c xs) w0)))" for xs
  have s1: "expires_sales ah w (w1 xs)" for xs
    unfolding w1_def by (rule expires_sales_trans [OF s0 cycle_before_cleanup [OF assms(1) k0]])
  have "w' = w0 \<or> (\<exists>xs. w' = w1 xs) \<or> (\<exists>xs. ah \<and> w' = snd (expire_eod_orphan_orders (inside ''eod'' 0 ev) others (w1 xs)))"
    using assms(4) 0 unfolding run_sync_cycle_def and_then_def w1_def
    by (cases r0; cases ?q) (auto simp: Let_def split_beta split: if_splits sum.splits prod.splits)
  then show ?thesis using that s0 s1 by (metis prod.collapse)
qed

section \<open>Writing a reason\<close>

text \<open>A reason is written with the status of the snapshot that the synchronisation read before it asked the
  broker, and without a version: an order that was filled meanwhile is taken back to that status.\<close>

theorem reason_write_reopens_order:
  assumes "order_get (sy_base w) (or_order_request_id x) = Some y"
  shows "\<exists>z. order_get (sy_base (snd (write_reason now x code txt w))) (or_order_request_id x) = Some z
    \<and> or_status z = or_status x \<and> or_status_reason_code z = Some code"
  using assms by (simp add: write_reason_def order_update_status_def order_get_def put_base_def put_ledger_def update_conv')

theorem reason_write_reopens_order_witness:
  "\<exists>z. order_get (sy_base (snd (write_reason 100 ((ex_sell 4 PARTIALLY_FILLED 5)\<lparr>or_version := 3\<rparr>) ''code'' (Plain [])
        ((ex_sync_world [])\<lparr>sy_repos := (sy_repos (ex_sync_world []))\<lparr>sg_ledger :=
           (sg_ledger (sy_repos (ex_sync_world [])))\<lparr>lg_repos := (sy_base (ex_sync_world []))\<lparr>rp_orders :=
             [(4, (ex_sell 4 FILLED 5)\<lparr>or_version := 4\<rparr>)]\<rparr>\<rparr>\<rparr>\<rparr>)))) 4 = Some z
     \<and> or_status z = PARTIALLY_FILLED"
  using reason_write_reopens_order [of "(ex_sync_world [])\<lparr>sy_repos := (sy_repos (ex_sync_world []))\<lparr>sg_ledger :=
           (sg_ledger (sy_repos (ex_sync_world [])))\<lparr>lg_repos := (sy_base (ex_sync_world []))\<lparr>rp_orders :=
             [(4, (ex_sell 4 FILLED 5)\<lparr>or_version := 4\<rparr>)]\<rparr>\<rparr>\<rparr>\<rparr>" "(ex_sell 4 PARTIALLY_FILLED 5)\<lparr>or_version := 3\<rparr>"
      "(ex_sell 4 FILLED 5)\<lparr>or_version := 4\<rparr>" 100 "''code''" "Plain []"]
  by (auto simp: order_get_def ex_sell_def ex_ledger_order_def)

end
