(* ===== verification/Order_Expiry.thy ===== *)
theory Order_Expiry
  imports Order_Sync_Safety
begin

text \<open>
  What the synchronisation promises about the orders: when one may expire, what the cleanup at the
  end of the day may touch, and which statuses can be reached.
\<close>

section \<open>Which orders a cycle may expire\<close>

text \<open>C18. While the broker reports no expiry and no other coroutine writes the orders, whole cycles of the
  synchronisation expire an order only after hours, and only a sale or an order that was never placed
  with the broker: no buy order that the broker knows is ever given up.\<close>

theorem cycle_expires_with_cause:
  assumes "\<And>l i j. quiet_setting (sts l i j)" "\<And>l i. leaves_orders (others l i)" "orders_keyed (sy_base w)"
    and "run_sync_cycle ev sts others limit (Some ah) rec w = (res, w')"
    and "order_status_of (sy_base w') k = Some EXPIRED" "order_status_of (sy_base w) k \<noteq> Some EXPIRED"
  shows "ah \<and> (sale (sy_base w) k \<or> broker_orders_of_request (sy_base w') k = [])"
proof (rule cycle_steps [where sts = sts and others = others, OF assms(1-4)])
  assume "expires_sales ah w w'"
  then show ?thesis using assms(5,6) by (auto simp: expires_sales_def expires_only_def)
next
  fix w1 r
  assume 1: "expires_sales ah w w1" "ah" "expire_eod_orphan_orders (inside ''eod'' 0 ev) others w1 = (r, w')"
  have "orders_keyed (sy_base w1)" by (rule expires_sales_keyed [OF 1(1) assms(3)])
  from eod_cleanup_expires [where others = others, OF assms(2) this 1(3) assms(5)]
  show ?thesis using 1(1,2) assms(6) by (auto simp: expires_sales_def expires_only_def)
qed

text \<open>A buy order of two hours ago that never reached the broker.\<close>

definition ex_buy :: "uuid \<Rightarrow> order_status \<Rightarrow> order_request" where
  "ex_buy i s = (ex_sell i s 3)\<lparr>or_side := BUY, or_created_at := Some 0, or_submitted_at := None\<rparr>"

definition ex_evening :: sync_world where
  "ex_evening = (let w = ex_sync_world [] in put_base ((sy_base w)\<lparr>rp_orders := [(5, ex_buy 5 PENDING_SUBMIT)]\<rparr>) w)"

definition ex_evening_env :: env where
  "ex_evening_env = \<lparr>ev_now = (\<lambda>_. seconds 7200), ev_uuid = (\<lambda>p. 100 + sum_list (map snd p))\<rparr>"

definition ex_setting :: setting where
  "ex_setting = \<lparr>se_env = ex_evening_env, se_uuid5 = (\<lambda>a b. 0), se_order_status = Inl (Value_Error ''timeout''),
     se_unknown_state = Inl (Value_Error ''timeout''), se_fills = Inr [], se_positions = Inr [],
     se_waits = (\<lambda>_ w. w), se_others = (\<lambda>_ _ _ r. r), se_refresh = None\<rparr>"

lemma ex_setting_quiet: "quiet_setting ex_setting"
  by (simp add: quiet_setting_def calm_def reports_expiry_def ex_setting_def leaves_orders_def)

lemma ex_evening_keyed: "orders_keyed (sy_base ex_evening)"
  by (simp add: orders_keyed_def ex_evening_def ex_sync_defs ex_buy_def order_get_def)

lemma ex_pending_listed: "order_list (sy_base ex_evening) (with_status PENDING_SUBMIT) = Inr [ex_buy 5 PENDING_SUBMIT]"
  by (simp add: order_list_def order_matches_def with_status_def ex_evening_def ex_buy_def ex_sync_defs guard_eval)

lemma ex_orphan: "is_eod_orphan ex_evening 3600000000 (ex_buy 5 PENDING_SUBMIT)"
  by (simp add: is_eod_orphan_def ex_evening_def ex_buy_def ex_sync_defs guard_eval)

lemma clean_up_done:
  assumes "order_get (sy_base w) (or_order_request_id x) = Some x" "may_move (or_status x) tg"
  shows "order_status_of (sy_base (snd (clean_up ev (\<lambda>_ r. r) x tg code msg actor w))) (or_order_request_id x) = Some tg"
proof -
  have "tracks x (manager_of w)" using assms(1) by (simp add: tracks_def)
  from transition_tracks [OF this assms(2), of ev "Some code" "Some msg" "''system''" actor False]
  show ?thesis unfolding clean_up_def by (fastforce simp: order_status_of_def)
qed

lemma ex_cleanup:
  assumes "now_at ev ''now'' = seconds 7200"
  shows "order_status_of (sy_base (snd (expire_eod_orphan_orders ev (\<lambda>_ _ _ r. r) ex_evening))) 5 = Some EXPIRED"
proof -
  let ?x = "ex_buy 5 PENDING_SUBMIT"
  define w1 where "w1 = snd (expire_pending ev (\<lambda>_ _ r. r) (now_at ev ''now'') 0 [?x] ex_evening)"
  have o: "is_eod_orphan ex_evening (now_at ev ''now'' - seconds 3600) ?x"
    using ex_orphan assms by (simp add: seconds_def)
  have "order_get (sy_base ex_evening) 5 = Some ?x" "or_order_request_id ?x = 5" "may_move (or_status ?x) EXPIRED"
    by (simp_all add: ex_evening_def ex_sync_defs order_get_def ex_buy_def may_move_def)
  then have 1: "order_status_of (sy_base w1) 5 = Some EXPIRED"
    using clean_up_done [of ex_evening ?x EXPIRED] o unfolding w1_def by (simp add: Let_def split_beta)
  have l: "leaves_orders (\<lambda>_ r. r)" by (simp add: leaves_orders_def)
  have e: "expire_eod_orphan_orders ev (\<lambda>_ _ _ r. r) ex_evening = (res, w') \<Longrightarrow>
      w' = w1 \<or> (\<exists>rs. order_list (sy_base w1) (with_status RECONCILE_REQUIRED) = Inr rs
        \<and> w' = snd (expire_reconcile ev (\<lambda>_ _ r. r) (now_at ev ''now'') 0 rs w1))" for res w'
    unfolding expire_eod_orphan_orders_def ex_pending_listed Let_def w1_def
    by (auto simp del: expire_pending.simps expire_reconcile.simps simp: split_beta split: sum.splits)
  have k: "eod_pass [?x] (now_at ev ''now'' - seconds 3600) ex_evening w1"
    unfolding w1_def using expire_pending_pass [where others = "\<lambda>_ _ r. r", OF l, where xs = "[?x]" and w = ex_evening]
      listed_backed(1) [OF ex_pending_listed ex_evening_keyed] by blast
  then have "orders_keyed (sy_base w1)" using ex_evening_keyed same_facts_keyed by (auto simp: eod_pass_def)
  then have "eod_pass rs (now_at ev ''now'' - seconds 3600) w1 (snd (expire_reconcile ev (\<lambda>_ _ r. r) (now_at ev ''now'') 0 rs w1))"
    if "order_list (sy_base w1) (with_status RECONCILE_REQUIRED) = Inr rs" for rs
    using expire_reconcile_pass [where others = "\<lambda>_ _ r. r", OF l, where xs = rs and w = w1] listed_backed(1) [OF that] by blast
  with 1 e show ?thesis unfolding eod_pass_def by (metis prod.collapse)
qed

lemma ex_cycle:
  "snd (run_sync_cycle ex_evening_env (\<lambda>_ _ _. ex_setting) (\<lambda>_ _ _ r. r) 50 (Some True) False ex_evening)
    = snd (expire_eod_orphan_orders (inside ''eod'' 0 ex_evening_env) (\<lambda>_ _ _ r. r) ex_evening)"
proof -
  let ?x = "ex_buy 5 PENDING_SUBMIT"
  have s: "\<not> is_stale_submission ex_evening c ?x" for c by (simp add: is_stale_submission_def ex_buy_def)
  have q: "order_list (sy_base ex_evening) (sync_query False t 50) = Inr [?x]"
    "order_list (sy_base ex_evening) (any_order\<lparr>oq_statuses := Some [RECONCILE_REQUIRED], oq_limit := 50\<rparr>) = Inr []" for t
    by (simp_all add: sync_query_def active_sync_statuses_def ex_evening_def ex_buy_def ex_sync_defs guard_eval)
  have b: "broker_orders_of_request (sy_base ex_evening) (or_order_request_id ?x) = []"
    by (simp add: ex_evening_def ex_buy_def ex_sync_defs guard_eval)
  show ?thesis
    by (simp add: run_sync_cycle_def reject_stale_pending_submit_orders_def ex_pending_listed s q b and_then_def Let_def
        sync_reconcile_required_orders_def split_beta split: sum.split)
qed

theorem cycle_expires_with_cause_witness:
  "\<exists>res w'. run_sync_cycle ex_evening_env (\<lambda>_ _ _. ex_setting) (\<lambda>_ _ _ r. r) 50 (Some True) False ex_evening = (res, w')
     \<and> order_status_of (sy_base w') 5 = Some EXPIRED \<and> broker_orders_of_request (sy_base w') 5 = []"
proof -
  let ?c = "run_sync_cycle ex_evening_env (\<lambda>_ _ _. ex_setting) (\<lambda>_ _ _ r. r) 50 (Some True) False ex_evening"
  have e: "order_status_of (sy_base (snd ?c)) 5 = Some EXPIRED"
    unfolding ex_cycle by (rule ex_cleanup) (simp add: now_at_def inside_def ex_evening_env_def)
  have s: "order_status_of (sy_base ex_evening) 5 \<noteq> Some EXPIRED" "\<not> sale (sy_base ex_evening) 5"
    by (simp_all add: sale_def order_facts_def order_status_of_def ex_evening_def ex_sync_defs order_get_def ex_buy_def)
  have "leaves_orders (\<lambda>_ r. r)" by (simp add: leaves_orders_def)
  from cycle_expires_with_cause [where sts = "\<lambda>_ _ _. ex_setting" and others = "\<lambda>_ _ _ r. r", OF ex_setting_quiet this
      ex_evening_keyed prod.collapse [symmetric] e s(1)] e s(2)
  show ?thesis by (metis prod.collapse)
qed

text \<open>C21. The cleanup at the end of the day touches nothing but orphans: an order whose status it changed is
  expired now, was waiting for its submission or in an unknown state before, was created at least an hour ago,
  was never submitted and has no order at the broker.\<close>

theorem eod_cleanup_takes_orphans_only:
  assumes "\<And>l i. leaves_orders (others l i)" "orders_keyed (sy_base w)"
    and "expire_eod_orphan_orders ev others w = (res, w')"
    and "order_status_of (sy_base w') k \<noteq> order_status_of (sy_base w) k"
  shows "order_status_of (sy_base w') k = Some EXPIRED \<and> broker_orders_of_request (sy_base w) k = []
    \<and> (\<exists>x t. order_get (sy_base w) k = Some x \<and> or_status x \<in> {PENDING_SUBMIT, RECONCILE_REQUIRED}
         \<and> or_submitted_at x = None \<and> or_created_at x = Some t \<and> t \<le> now_at ev ''now'' - seconds 3600)"
  using eod_cleanup_pass [where others = others, OF assms] unfolding eod_orphan_in_def by blast

theorem eod_cleanup_takes_orphans_only_witness:
  "\<exists>res w'. expire_eod_orphan_orders ex_evening_env (\<lambda>_ _ _ r. r) ex_evening = (res, w')
     \<and> order_status_of (sy_base w') 5 = Some EXPIRED \<and> broker_orders_of_request (sy_base ex_evening) 5 = []"
proof -
  let ?c = "expire_eod_orphan_orders ex_evening_env (\<lambda>_ _ _ r. r) ex_evening"
  have e: "order_status_of (sy_base (snd ?c)) 5 = Some EXPIRED"
    by (rule ex_cleanup) (simp add: now_at_def ex_evening_env_def)
  have "order_status_of (sy_base ex_evening) 5 = Some PENDING_SUBMIT"
    by (simp add: order_status_of_def ex_evening_def ex_sync_defs order_get_def ex_buy_def)
  then have s: "order_status_of (sy_base (snd ?c)) 5 \<noteq> order_status_of (sy_base ex_evening) 5" using e by simp
  have "leaves_orders (\<lambda>_ r. r)" by (simp add: leaves_orders_def)
  from eod_cleanup_takes_orphans_only [where others = "\<lambda>_ _ _ r. r", OF this ex_evening_keyed prod.collapse [symmetric] s]
  show ?thesis by (metis prod.collapse)
qed

text \<open>One synchronisation of a broker order writes at most the order it belongs to, and it expires that
  order only if the broker says so or the order is a sale and trading is over.\<close>

theorem sync_expires_with_cause:
  assumes "calm st" "orders_keyed (sy_base w)" "broker_order_get (sy_base w) b = Some bo"
    and "order_get (sy_base w) (bo_order_request_id bo) = Some x"
    and "sync_order_post_submit st (Some ah) b w = (res, w')"
  shows "order_status_of (sy_base w') k = order_status_of (sy_base w) k
    \<or> k = bo_order_request_id bo \<and> (reports_expiry st \<or> ah \<and> or_side x = SELL \<or> order_status_of (sy_base w') k \<noteq> Some EXPIRED)"
proof -
  have "moves (sy_base w) (bo_order_request_id bo) {s. (reports_expiry st \<or> ah \<and> or_side x = SELL) \<or> s \<noteq> EXPIRED} (sy_base w')"
    using sync_order_writes [OF assms(1-4) refl, of ah] assms(5) by (simp add: writes_def)
  then show ?thesis unfolding moves_def by (metis (mono_tags, lifting) mem_Collect_eq option.inject)
qed

theorem sync_expires_with_cause_witness:
  "order_status_of (sy_base (snd (sync_order_post_submit ex_setting (Some False) 6 (ex_sync_world [])))) 3 = Some SUBMITTED
   \<and> order_status_of (sy_base (snd (sync_order_post_submit ex_setting (Some False) 6 (ex_sync_world [])))) 4 \<noteq> Some EXPIRED"
proof -
  let ?w = "ex_sync_world []"
  have c: "calm ex_setting" "\<not> reports_expiry ex_setting" using ex_setting_quiet by (simp_all add: quiet_setting_def)
  have g: "orders_keyed (sy_base ?w)" "broker_order_get (sy_base ?w) 6 = Some (ex_broker_order 6 4)"
    "order_get (sy_base ?w) (bo_order_request_id (ex_broker_order 6 4)) = Some (ex_sell 4 PARTIALLY_FILLED 5)"
    and s: "order_status_of (sy_base ?w) 3 = Some SUBMITTED" "order_status_of (sy_base ?w) 4 = Some PARTIALLY_FILLED"
      "bo_order_request_id (ex_broker_order 6 4) = 4"
    by (simp_all add: orders_keyed_def ex_sync_defs order_get_def broker_order_get_def order_status_of_def)
  note r = sync_expires_with_cause [OF c(1) g prod.collapse [symmetric], of False]
  from r [of 3] r [of 4] c(2) s show ?thesis by auto
qed

text \<open>C32. How far a status travels: with no one else at work, a stored order is brought to the status that
  was found for it exactly when the state machine allows the move at once or one of the three chains of
  \<^verbatim>\<open>_build_transition_chain\<close> leads there; otherwise it stays as it is, and no other order changes.\<close>

theorem status_travels_along_chains:
  assumes "order_get (om_repos m) (or_order_request_id x) = Some x"
    and "try_transition ev (\<lambda>_ _ w. w) x target rc rm m = (x', m')"
  shows "or_status x' = (if reachable (or_status x) target then target else or_status x)
    \<and> map_option or_status (order_get (om_repos m') (or_order_request_id x)) = Some (or_status x')
    \<and> (\<forall>j. j \<noteq> or_order_request_id x \<longrightarrow> order_get (om_repos m') j = order_get (om_repos m) j)"
proof -
  have "tracks x m" using assms(1) by (simp add: tracks_def)
  from try_transition_reach [OF this, of ev target rc rm] assms(2) show ?thesis
    by (auto simp: same_elsewhere_def)
qed

theorem status_travels_along_chains_witness:
  "or_status (fst (try_transition ex_env (\<lambda>_ _ w. w) (ex_order\<lparr>or_status := SUBMITTED\<rparr>) FILLED None None
     (ex_om (ex_order\<lparr>or_status := SUBMITTED\<rparr>)))) = FILLED
   \<and> or_status (fst (try_transition ex_env (\<lambda>_ _ w. w) (ex_order\<lparr>or_status := SUBMITTED\<rparr>) CANCELLED None None
     (ex_om (ex_order\<lparr>or_status := SUBMITTED\<rparr>)))) = SUBMITTED"
proof -
  let ?x = "ex_order\<lparr>or_status := SUBMITTED\<rparr>"
  note r = status_travels_along_chains [OF ex_om_get prod.collapse [symmetric], of ex_env ?x]
  from r [of FILLED None None] r [of CANCELLED None None] show ?thesis
    by (simp add: reachable_def may_move_def)
qed

end
