(* ===== verification/Translation.thy ===== *)
theory Translation
  imports Sizing Hysteresis
begin

text \<open>
  From a decision to a submission request: the intent that the decision pipeline hands over
  (\<^verbatim>\<open>services/common_types.py\<close>), the whole of \<^verbatim>\<open>services/translation.py\<close> and
  \<^verbatim>\<open>services/held_position_policy.py\<close>.

  Of contexts and agent outputs the records keep the fields that the execution reads.  An intent always
  has a context, as its type says.  Texts come from a codec: a \<open>Decimal\<close> is printed by way of the
  coefficient and exponent it is kept with.
\<close>

section \<open>The intent\<close>

record exec_codec =
  xk_text :: text_codec
  xk_decimal :: "rat \<Rightarrow> py_decimal"
  xk_datetime :: "timestamp \<Rightarrow> string"
  xk_clock_digits :: "timestamp \<Rightarrow> string"
  xk_parse_uuid :: "string \<Rightarrow> uuid option"
  xk_digest :: "string \<Rightarrow> string"

definition dec_text :: "exec_codec \<Rightarrow> rat \<Rightarrow> string" where
  "dec_text k r = decimal_str (xk_decimal k r)"

definition opt_dec :: "exec_codec \<Rightarrow> rat option \<Rightarrow> jval" where
  "opt_dec k x = (case x of None \<Rightarrow> JvNull | Some r \<Rightarrow> JvStr (dec_text k r))"

record intent_request = submit_order_request +
  iq_order_intent_id :: "string option"
  iq_price_band_lower :: "rat option"
  iq_price_band_upper :: "rat option"
  iq_max_slippage_bps :: "int option"
  iq_allow_partial_fill :: bool
  iq_client_timestamp :: "timestamp option"
  iq_metadata :: json_dict

record ai_decision_inputs =
  ai_decision_type :: string
  ai_reason_codes :: "string list"
  ai_sizing_hint :: sizing_hint
  ai_risk_opinion :: string
  ai_risk_score :: rat
  ai_expected_return_bps :: "rat option"
  ai_expected_downside_bps :: "rat option"
  ai_net_expected_value_bps :: "rat option"
  ai_final_trade_score :: "rat option"
  ai_minimum_required_edge_bps :: "rat option"
  ai_edge_after_cost_bps :: "rat option"
  ai_estimated_round_trip_cost_bps :: "rat option"
  ai_slippage_buffer_bps :: "rat option"
  ai_expected_value_gate_passed :: bool
  ai_ev_gate_near_miss_override_applied :: bool

record cash_balance_snapshot =
  cs_cash_balance_snapshot_id :: uuid
  cs_account_id :: uuid
  cs_available_cash :: rat
  cs_total_asset :: "rat option"
  cs_orderable_amount :: "rat option"
  cs_snapshot_at :: timestamp

record risk_limit_snapshot =
  rl_nav :: "rat option"
  rl_portfolio_var_1d_adjusted :: "rat option"
  rl_largest_var_symbol :: "string option"
  rl_largest_var_contribution_pct :: "rat option"
  rl_var_status :: "string option"
  rl_var_reason_codes :: "string list"
  rl_blocked_reason_codes :: "string list"

record signal_features =
  sf_volatility_20d_pct :: "rat option"
  sf_atr_14_pct :: "rat option"
  sf_average_volume_20d :: "rat option"

record intent_context =
  ix_decision_context :: "decision_context option"
  ix_config_json :: "json_dict option"
  ix_position_snapshot :: "position_snapshot option"
  ix_cash_balance_snapshot :: "cash_balance_snapshot option"
  ix_risk_limit_snapshot :: "risk_limit_snapshot option"
  ix_signal_feature_snapshot :: "signal_features option"
  ix_eligibility_reasons :: "string list"
  ix_source_type :: string

record order_intent =
  oi_decision_context_id :: "uuid option"
  oi_request :: intent_request
  oi_context :: intent_context
  oi_ai_backend_inputs :: ai_decision_inputs

section \<open>Reading the words of the agents\<close>

datatype entry_style = ES_LIMIT | ES_MARKET | ES_VWAP | ES_TWAP | ES_NO_ORDER

definition decision_words :: "(string \<times> decision_type) list" where
  "decision_words =
     [(''buy'', D_BUY), (''strong_buy'', D_BUY), (''sell'', D_SELL), (''strong_sell'', D_SELL), (''hold'', D_HOLD),
      (''neutral'', D_HOLD), (''close'', D_CLOSE), (''reduce'', D_REDUCE), (''review'', D_HOLD), (''approve'', D_APPROVE),
      (''exit'', D_EXIT), (''watch'', D_WATCH), (''reject'', D_REJECT)]"

definition resolve_decision_type :: "string option \<Rightarrow> decision_type" where
  "resolve_decision_type v =
     (case or_else (\<lambda>s. s = []) v None of
        None \<Rightarrow> D_HOLD
      | Some s \<Rightarrow> (case map_of decision_words (str_lower (str_strip s)) of None \<Rightarrow> D_HOLD | Some d \<Rightarrow> d))"

definition resolve_order_side :: "string option \<Rightarrow> order_side \<Rightarrow> order_side" where
  "resolve_order_side v fallback =
     (let d = resolve_decision_type v
      in if d = D_BUY then BUY else if d \<in> {D_SELL, D_CLOSE} then SELL else fallback)"

definition resolve_entry_style :: "string option \<Rightarrow> entry_style \<Rightarrow> entry_style" where
  "resolve_entry_style v fallback =
     (case or_else (\<lambda>s. s = []) v None of
        None \<Rightarrow> fallback
      | Some s \<Rightarrow>
          (let cleaned = str_lower (str_strip s)
           in if contains_text ''limit'' cleaned then ES_LIMIT
              else if contains_text ''market'' cleaned then ES_MARKET else fallback))"

text \<open>\<open>decimal_or_none\<close> of what \<open>dict.get\<close> returns; \<open>NaN\<close> and infinities are not read.\<close>

definition decimal_or_none :: "jval option \<Rightarrow> rat option" where
  "decimal_or_none v = map_option dec_value (Option.bind v decimal_of_jval)"

definition calculate_max_order_value :: "rat option \<Rightarrow> rat option \<Rightarrow> rat option" where
  "calculate_max_order_value price quantity =
     (case (price, quantity) of (Some p, Some q) \<Rightarrow> Some (max (dmul p q) 0) | _ \<Rightarrow> None)"

definition canonical_decisions :: "string list" where
  "canonical_decisions = [''APPROVE'', ''REJECT'', ''HOLD'', ''WATCH'', ''EXIT'', ''REDUCE'', ''BUY'', ''SELL'']"

definition normalize_decision_type :: "string \<Rightarrow> string" where
  "normalize_decision_type s =
     (let normalized = str_upper (str_strip s)
      in if normalized \<in> set canonical_decisions then normalized
         else case map_of [(''ENTRY'', ''APPROVE''), (''NO_ACTION'', ''HOLD''), (''NO_TRADE'', ''HOLD''), (''NONE'', ''HOLD'')]
                     normalized of
                None \<Rightarrow> ''HOLD'' | Some d \<Rightarrow> d)"

definition is_missing_agent_symbol :: "string option \<Rightarrow> bool" where
  "is_missing_agent_symbol v =
     (case v of
        None \<Rightarrow> True
      | Some s \<Rightarrow> str_upper (str_strip s) \<in> {'''', ''UNKNOWN'', ''(NOT AVAILABLE)'', ''N/A'', ''NONE'', ''NULL''})"

definition is_held_position_sell_path :: "string option \<Rightarrow> string option \<Rightarrow> string option \<Rightarrow> bool" where
  "is_held_position_sell_path source_type decision_type side \<longleftrightarrow>
     str_lower (str_strip (or_text source_type [])) = ''held_position''
     \<and> str_lower (str_strip (or_text decision_type [])) \<in> {''reduce'', ''exit''}
     \<and> str_lower (str_strip (or_text side [])) = ''sell''"

section \<open>The submission request\<close>

definition actionable_types :: "string list" where
  "actionable_types = [''APPROVE'', ''BUY'', ''SELL'', ''EXIT'', ''REDUCE'']"

definition has_required_expected_value_anchor :: "ai_decision_inputs \<Rightarrow> json_dict \<Rightarrow> bool" where
  "has_required_expected_value_anchor ai metadata =
     (let decision_type = str_upper (str_strip (ai_decision_type ai))
      in if decision_type \<notin> set actionable_types then True
         else if decision_type \<notin> {''APPROVE'', ''BUY''} \<and> \<not> ai_expected_value_gate_passed ai
                 \<and> \<not> ai_ev_gate_near_miss_override_applied ai
         then False
         else if None \<in> {ai_expected_return_bps ai, ai_expected_downside_bps ai, ai_net_expected_value_bps ai,
                          ai_final_trade_score ai, ai_minimum_required_edge_bps ai, ai_edge_after_cost_bps ai,
                          ai_estimated_round_trip_cost_bps ai, ai_slippage_buffer_bps ai}
         then False
         else if decision_type \<in> {''SELL'', ''EXIT'', ''REDUCE''}
         then (case map_of metadata ''expected_value_anchor'' of
                 Some (JvObj anchor) \<Rightarrow>
                   (case map_of anchor ''anchor_passed'' of None \<Rightarrow> False | Some v \<Rightarrow> jv_truthy v)
               | _ \<Rightarrow> True)
         else True)"

text \<open>\<open>str(metadata.get("source_type", "core") or "core")\<close>.\<close>

definition metadata_source :: "exec_codec \<Rightarrow> json_dict \<Rightarrow> string" where
  "metadata_source k metadata =
     (case map_of metadata ''source_type'' of
        None \<Rightarrow> ''core''
      | Some v \<Rightarrow> if jv_truthy v then (case jval_str (xk_text k) (Some v) of None \<Rightarrow> ''core'' | Some s \<Rightarrow> s) else ''core'')"

definition build_client_order_id :: "exec_codec \<Rightarrow> timestamp \<Rightarrow> uuid \<Rightarrow> string" where
  "build_client_order_id k now decision_context_id =
     ''dc-'' @ takeWhile (\<lambda>c. c \<noteq> CHR ''-'') (tc_uuid (xk_text k) decision_context_id) @ ''-'' @ xk_clock_digits k now"

definition build_submit_order_request_from_decision ::
  "exec_codec \<Rightarrow> timestamp \<Rightarrow> order_intent \<Rightarrow> string option \<Rightarrow> intent_request option" where
  "build_submit_order_request_from_decision k now intent client_order_id =
     (let ai = oi_ai_backend_inputs intent; request = oi_request intent
      in if ai_decision_type ai \<notin> set actionable_types then None
         else if \<not> has_required_expected_value_anchor ai (iq_metadata request) then None
         else if metadata_source k (iq_metadata request) = ''held_position'' \<and> sq_side request \<noteq> SELL then None
         else if sq_quantity request \<le> 0 then None
         else
           (let order_type = (if sq_price request = None \<and> sq_order_type request = LIMIT then MARKET
                              else sq_order_type request);
                made = (\<lambda>i. Some (request\<lparr>sq_client_order_id := i, sq_order_type := order_type\<rparr>))
            in case or_else (\<lambda>s. s = []) client_order_id None of
                 Some i \<Rightarrow> made i
               | None \<Rightarrow>
                   (case oi_decision_context_id intent of
                      Some d \<Rightarrow> made (build_client_order_id k now d)
                    | None \<Rightarrow> None)))"

end
