(* ===== verification/Validators.thy ===== *)
theory Validators
  imports Trade_State "HOL-Library.List_Lexorder" "HOL-Library.Char_ord"
begin

text \<open>
  The rule bundles that guard a submission: the runner of validation rules and the record of its
  result (\<^verbatim>\<open>services/validators.py\<close>, \<^verbatim>\<open>services/guardrail_audit.py\<close>), which sources may buy
  (\<^verbatim>\<open>services/source_policy.py\<close>), the lane of the scheduler (\<^verbatim>\<open>services/submit_lane_gate.py\<close>) and the
  compliance rules (\<^verbatim>\<open>services/compliance_validator.py\<close>).

  Dictionaries of mixed values are lists of JSON values in insertion order; a tuple is a list.  The
  bundles meet the interface \<open>rule_bundle\<close>: which outcomes block, and which of them names the stop.
\<close>

section \<open>Contexts and results\<close>

record validation_context =
  vc_decision_context_id :: "uuid option"
  vc_trade_decision_id :: "uuid option"
  vc_order_request_id :: "uuid option"
  vc_account_id :: "uuid option"
  vc_symbol :: "string option"
  vc_market :: "string option"
  vc_side :: "string option"
  vc_source_type :: "string option"
  vc_decision_cycle_id :: "string option"
  vc_metadata :: json_dict

record validation_result =
  vr_rule_set_version :: string
  vr_overall_passed :: bool
  vr_blocking_rule_codes :: "string list"
  vr_warning_rule_codes :: "string list"
  vr_rule_results :: json_dict
  vr_stop_reason :: "string option"
  vr_message :: "string option"
  vr_evaluated_at :: timestamp

definition is_blocking :: "validation_result \<Rightarrow> bool" where
  "is_blocking r \<longleftrightarrow> \<not> vr_overall_passed r \<and> vr_blocking_rule_codes r \<noteq> []"

definition blocked_result ::
  "timestamp \<Rightarrow> string \<Rightarrow> string list \<Rightarrow> json_dict \<Rightarrow> string option \<Rightarrow> string option \<Rightarrow> validation_result" where
  "blocked_result now version codes results stop_reason msg =
     \<lparr>vr_rule_set_version = version, vr_overall_passed = False, vr_blocking_rule_codes = codes,
      vr_warning_rule_codes = [], vr_rule_results = results, vr_stop_reason = stop_reason, vr_message = msg,
      vr_evaluated_at = now\<rparr>"

definition allowed_result ::
  "timestamp \<Rightarrow> string \<Rightarrow> json_dict \<Rightarrow> string list \<Rightarrow> string option \<Rightarrow> validation_result" where
  "allowed_result now version results warnings msg =
     \<lparr>vr_rule_set_version = version, vr_overall_passed = True, vr_blocking_rule_codes = [],
      vr_warning_rule_codes = warnings, vr_rule_results = results, vr_stop_reason = None, vr_message = msg,
      vr_evaluated_at = now\<rparr>"

record guardrail_evaluation =
  ge_guardrail_evaluation_id :: uuid
  ge_rule_set_version :: string
  ge_overall_passed :: bool
  ge_evaluated_at :: timestamp
  ge_decision_context_id :: "uuid option"
  ge_trade_decision_id :: "uuid option"
  ge_order_request_id :: "uuid option"
  ge_rule_results :: json_dict
  ge_blocking_rule_codes :: "string list option"
  ge_warning_rule_codes :: "string list option"
  ge_policy_git_sha :: "string option"
  ge_decision_cycle_id :: "string option"

text \<open>\<open>dict.setdefault\<close>.\<close>

definition set_default :: "string \<Rightarrow> jval option \<Rightarrow> json_dict \<Rightarrow> json_dict" where
  "set_default k v d =
     (case v of None \<Rightarrow> d | Some x \<Rightarrow> if k \<in> fst ` set d then d else d @ [(k, x)])"

definition some_or_none :: "'a list \<Rightarrow> 'a list option" where
  "some_or_none xs = (if xs = [] then None else Some xs)"

definition to_guardrail_evaluation ::
  "text_codec \<Rightarrow> uuid \<Rightarrow> validation_context \<Rightarrow> validation_result \<Rightarrow> guardrail_evaluation" where
  "to_guardrail_evaluation tc fresh context r =
     \<lparr>ge_guardrail_evaluation_id = fresh, ge_rule_set_version = vr_rule_set_version r,
      ge_overall_passed = vr_overall_passed r, ge_evaluated_at = vr_evaluated_at r,
      ge_decision_context_id = vc_decision_context_id context, ge_trade_decision_id = vc_trade_decision_id context,
      ge_order_request_id = vc_order_request_id context,
      ge_rule_results =
        set_default ''context_metadata'' (if vc_metadata context = [] then None else Some (JvObj (vc_metadata context)))
        (set_default ''source_type'' (map_option JvStr (vc_source_type context))
        (set_default ''side'' (map_option JvStr (vc_side context))
        (set_default ''market'' (map_option JvStr (vc_market context))
        (set_default ''symbol'' (map_option JvStr (vc_symbol context))
        (set_default ''account_id'' (map_option (JvStr \<circ> tc_uuid tc) (vc_account_id context)) (vr_rule_results r)))))),
      ge_blocking_rule_codes = some_or_none (vr_blocking_rule_codes r),
      ge_warning_rule_codes = some_or_none (vr_warning_rule_codes r), ge_policy_git_sha = None,
      ge_decision_cycle_id = vc_decision_cycle_id context\<rparr>"

type_synonym guardrail_store = "(uuid \<times> guardrail_evaluation) list"

definition guardrail_add :: "guardrail_evaluation \<Rightarrow> guardrail_store \<Rightarrow> guardrail_store" where
  "guardrail_add e s = AList.update (ge_guardrail_evaluation_id e) e s"

text \<open>The in-memory store never raises; the revision of the policy is read from the environment.\<close>

definition persist_validation_result ::
  "text_codec \<Rightarrow> string option \<Rightarrow> uuid \<Rightarrow> validation_context \<Rightarrow> validation_result \<Rightarrow> guardrail_store \<Rightarrow> guardrail_store" where
  "persist_validation_result tc policy_git_sha fresh context r s =
     guardrail_add ((to_guardrail_evaluation tc fresh context r)\<lparr>ge_policy_git_sha := policy_git_sha\<rparr>) s"

section \<open>Building a context\<close>

text \<open>An identifier comes as a \<open>UUID\<close> or as its text; \<open>parse\<close> is the constructor of \<open>UUID\<close>.\<close>

datatype ident = Id_Uuid uuid | Id_Text string

definition coerce_uuid :: "(string \<Rightarrow> uuid option) \<Rightarrow> ident option \<Rightarrow> uuid option" where
  "coerce_uuid parse v = (case v of None \<Rightarrow> None | Some (Id_Uuid u) \<Rightarrow> Some u | Some (Id_Text s) \<Rightarrow> parse s)"

definition ident_or :: "ident option \<Rightarrow> ident option \<Rightarrow> ident option" where
  "ident_or v d = (case v of None \<Rightarrow> d | Some (Id_Text s) \<Rightarrow> if s = [] then d else v | Some (Id_Uuid _) \<Rightarrow> v)"

definition text_or :: "string option \<Rightarrow> string option \<Rightarrow> string option" where
  "text_or v d = (case v of None \<Rightarrow> d | Some s \<Rightarrow> if s = [] then d else v)"

definition build_validation_context ::
  "text_codec \<Rightarrow> (string \<Rightarrow> uuid option) \<Rightarrow> ident option \<Rightarrow> ident option \<Rightarrow> ident option \<Rightarrow> ident option
   \<Rightarrow> string option \<Rightarrow> string option \<Rightarrow> string option \<Rightarrow> string option \<Rightarrow> string option \<Rightarrow> json_dict \<Rightarrow> json_dict
   \<Rightarrow> validation_context" where
  "build_validation_context tc parse decision_context_id trade_decision_id order_request_id account_id symbol market
     side source_type decision_cycle_id metadata rule_results =
     (let raw = (\<lambda>k. jval_str tc (map_of rule_results k))
      in \<lparr>vc_decision_context_id = coerce_uuid parse decision_context_id,
          vc_trade_decision_id = coerce_uuid parse trade_decision_id,
          vc_order_request_id = coerce_uuid parse order_request_id,
          vc_account_id = coerce_uuid parse (ident_or account_id (map_option Id_Text (raw ''account_id''))),
          vc_symbol = text_or symbol (raw ''symbol''), vc_market = text_or market (raw ''market''),
          vc_side = text_or side (raw ''side''), vc_source_type = text_or source_type (raw ''source_type''),
          vc_decision_cycle_id = decision_cycle_id, vc_metadata = metadata\<rparr>)"

text \<open>A stop without rules of its own is recorded the same way.\<close>

definition persist_blocking_guardrail_evaluation ::
  "text_codec \<Rightarrow> (string \<Rightarrow> uuid option) \<Rightarrow> string option \<Rightarrow> uuid \<Rightarrow> timestamp \<Rightarrow> string \<Rightarrow> string list \<Rightarrow> json_dict
   \<Rightarrow> uuid option \<Rightarrow> uuid option \<Rightarrow> uuid option \<Rightarrow> guardrail_store \<Rightarrow> guardrail_store" where
  "persist_blocking_guardrail_evaluation tc parse policy_git_sha fresh now version codes results
     decision_context_id trade_decision_id order_request_id s =
     persist_validation_result tc policy_git_sha fresh
       (build_validation_context tc parse (map_option Id_Uuid decision_context_id) (map_option Id_Uuid trade_decision_id)
          (map_option Id_Uuid order_request_id) None None None None None None [] [])
       (blocked_result now version codes results None None) s"

section \<open>Running the rules\<close>

record rule_outcome =
  ro_code :: string
  ro_passed :: bool
  ro_details :: json_dict
  ro_message :: "string option"
  ro_warning :: bool

definition passed_rule :: "string \<Rightarrow> json_dict \<Rightarrow> rule_outcome" where
  "passed_rule code details = \<lparr>ro_code = code, ro_passed = True, ro_details = details, ro_message = None, ro_warning = False\<rparr>"

definition failed_rule :: "string \<Rightarrow> json_dict \<Rightarrow> rule_outcome" where
  "failed_rule code details = \<lparr>ro_code = code, ro_passed = False, ro_details = details, ro_message = None, ro_warning = False\<rparr>"

type_synonym validation_rule = "string \<times> (validation_context \<Rightarrow> rule_outcome)"

definition opt_text :: "string option \<Rightarrow> jval" where
  "opt_text s = (case s of None \<Rightarrow> JvNull | Some x \<Rightarrow> JvStr x)"

definition outcome_json :: "rule_outcome \<Rightarrow> jval" where
  "outcome_json out =
     JvObj [(''code'', JvStr (ro_code out)), (''passed'', JvBool (ro_passed out)), (''details'', JvObj (ro_details out)),
            (''message'', opt_text (ro_message out)), (''warning'', JvBool (ro_warning out))]"

fun collect_outcomes ::
  "validation_context \<Rightarrow> validation_rule list \<Rightarrow> string list \<Rightarrow> string list \<Rightarrow> json_dict \<Rightarrow> string option
   \<Rightarrow> string list \<times> string list \<times> json_dict \<times> string option" where
  "collect_outcomes context [] blocking warning outcomes first_message = (blocking, warning, outcomes, first_message)"
| "collect_outcomes context ((name, evaluator) # rules) blocking warning outcomes first_message =
     (let out = evaluator context;
          outcomes = AList.update name (outcome_json out) outcomes;
          first_message = (if first_message = None then ro_message out else first_message)
      in if ro_passed out then collect_outcomes context rules blocking warning outcomes first_message
         else if ro_warning out
         then collect_outcomes context rules blocking (warning @ [ro_code out]) outcomes first_message
         else collect_outcomes context rules (blocking @ [ro_code out]) warning outcomes first_message)"

definition run_validation_rules ::
  "timestamp \<Rightarrow> string \<Rightarrow> validation_context \<Rightarrow> validation_rule list \<Rightarrow> validation_result" where
  "run_validation_rules now version context rules =
     (let (blocking, warning, outcomes, first_message) = collect_outcomes context rules [] [] [] None;
          results = [(''rule_outcomes'', JvObj outcomes), (''context_metadata'', JvObj (vc_metadata context))]
      in case blocking of
           c # _ \<Rightarrow> blocked_result now version blocking results (Some c) first_message
         | [] \<Rightarrow> allowed_result now version results warning first_message)"

section \<open>Which sources may buy\<close>

definition held_position_allowed_decision_types :: "string list" where
  "held_position_allowed_decision_types = [''REDUCE'', ''EXIT'', ''HOLD'', ''WATCH'']"

definition default_allowed_decision_types :: "string list" where
  "default_allowed_decision_types = [''APPROVE'', ''BUY'', ''SELL'', ''HOLD'', ''WATCH'', ''EXIT'', ''REDUCE'']"

definition normalized_source :: "string option \<Rightarrow> string" where
  "normalized_source s = str_lower (str_strip (or_text s ''core''))"

definition allowed_fdc_decision_types :: "string option \<Rightarrow> string list" where
  "allowed_fdc_decision_types source_type =
     (if normalized_source source_type = ''held_position'' then held_position_allowed_decision_types
      else default_allowed_decision_types)"

record source_action_envelope =
  se_source_type :: string
  se_has_position :: bool
  se_allow_new_buy :: bool
  se_reason_codes :: "string list"

definition evaluate_action_envelope :: "string \<Rightarrow> bool \<Rightarrow> source_action_envelope" where
  "evaluate_action_envelope source_type has_position =
     (let normalized = normalized_source (Some source_type)
      in if normalized = ''held_position''
         then \<lparr>se_source_type = normalized, se_has_position = has_position, se_allow_new_buy = False,
               se_reason_codes = [''policy_held_position_buy_blocked'']\<rparr>
         else if normalized = ''reconciliation_overlay'' \<and> \<not> has_position
         then \<lparr>se_source_type = normalized, se_has_position = has_position, se_allow_new_buy = False,
               se_reason_codes = [''policy_reconciliation_overlay_flat_buy_blocked'']\<rparr>
         else \<lparr>se_source_type = normalized, se_has_position = has_position, se_allow_new_buy = True,
               se_reason_codes = []\<rparr>)"

section \<open>The lane of the scheduler\<close>

definition general_submit_disabled_reason :: "string \<Rightarrow> string" where
  "general_submit_disabled_reason source_type =
     ''general_submit_disabled_'' @ str_lower (str_strip (or_text (Some source_type) ''unknown''))"

definition submit_budget_consumed_reason :: "string \<Rightarrow> string" where
  "submit_budget_consumed_reason source_type =
     ''submit_budget_consumed_'' @ str_lower (str_strip (or_text (Some source_type) ''unknown''))"

record submit_lane_decision =
  sl_submit :: bool
  sl_dry_run :: bool
  sl_dry_run_reason :: "string option"
  sl_validation_result :: validation_result

record lane_inputs =
  li_submit :: bool
  li_dry_run :: bool
  li_allow_general_submit :: bool
  li_source_type :: string
  li_submit_budget_consumed_count :: int
  li_max_general_submits_this_cycle :: int
  li_held_position_sell_cycle_count :: int
  li_held_position_sell_cycle_symbols :: "string list"
  li_symbol :: string
  li_held_position_sell_max_per_cycle :: int

definition build_submit_lane_context :: "lane_inputs \<Rightarrow> validation_context" where
  "build_submit_lane_context i =
     \<lparr>vc_decision_context_id = None, vc_trade_decision_id = None, vc_order_request_id = None, vc_account_id = None,
      vc_symbol = Some (li_symbol i), vc_market = None, vc_side = None, vc_source_type = Some (li_source_type i),
      vc_decision_cycle_id = None,
      vc_metadata =
        [(''submit'', JvBool (li_submit i)), (''dry_run'', JvBool (li_dry_run i)),
         (''allow_general_submit'', JvBool (li_allow_general_submit i)),
         (''submit_budget_consumed_count'', JvInt (li_submit_budget_consumed_count i)),
         (''max_general_submits_this_cycle'', JvInt (li_max_general_submits_this_cycle i)),
         (''held_position_sell_cycle_count'', JvInt (li_held_position_sell_cycle_count i)),
         (''held_position_sell_cycle_symbols'', JvList (map JvStr (sort (remdups (li_held_position_sell_cycle_symbols i))))),
         (''held_position_sell_max_per_cycle'', JvInt (li_held_position_sell_max_per_cycle i))]\<rparr>"

definition meta_truthy :: "validation_context \<Rightarrow> string \<Rightarrow> bool" where
  "meta_truthy context k = (case map_of (vc_metadata context) k of None \<Rightarrow> False | Some v \<Rightarrow> jv_truthy v)"

text \<open>\<open>int\<close> of a metadata value; the context above only has integers in these places.\<close>

definition meta_int :: "validation_context \<Rightarrow> string \<Rightarrow> int" where
  "meta_int context k = (case map_of (vc_metadata context) k of Some (JvInt i) \<Rightarrow> i | _ \<Rightarrow> 0)"

definition meta_texts :: "validation_context \<Rightarrow> string \<Rightarrow> string list" where
  "meta_texts context k =
     (case map_of (vc_metadata context) k of
        Some (JvList vs) \<Rightarrow> concat (map (\<lambda>v. case v of JvStr s \<Rightarrow> [s] | _ \<Rightarrow> []) vs)
      | _ \<Rightarrow> [])"

definition evaluate_cli_dry_run :: "validation_context \<Rightarrow> rule_outcome" where
  "evaluate_cli_dry_run context =
     (if meta_truthy context ''submit'' \<and> \<not> meta_truthy context ''dry_run'' then passed_rule ''submit_requested'' []
      else failed_rule ''cli_dry_run'' [(''reason'', JvStr ''submit_disabled_or_dry_run'')])"

definition evaluate_held_position_duplicate :: "validation_context \<Rightarrow> rule_outcome" where
  "evaluate_held_position_duplicate context =
     (if vc_source_type context \<noteq> Some ''held_position'' then passed_rule ''held_position_lane_not_applicable'' []
      else if vc_symbol context \<in> Some ` set (meta_texts context ''held_position_sell_cycle_symbols'')
      then failed_rule ''held_position_sell_symbol_duplicate'' [(''symbol'', opt_text (vc_symbol context))]
      else passed_rule ''held_position_symbol_unique'' [])"

definition evaluate_general_submit_enabled :: "validation_context \<Rightarrow> rule_outcome" where
  "evaluate_general_submit_enabled context =
     (if vc_source_type context = Some ''held_position'' then passed_rule ''general_submit_gate_bypassed'' []
      else if meta_truthy context ''allow_general_submit'' then passed_rule ''general_submit_enabled'' []
      else failed_rule (general_submit_disabled_reason (or_text (vc_source_type context) ''core'')) [])"

definition evaluate_general_submit_budget :: "validation_context \<Rightarrow> rule_outcome" where
  "evaluate_general_submit_budget context =
     (if vc_source_type context = Some ''held_position'' then passed_rule ''general_submit_budget_bypassed'' []
      else
        (let consumed = meta_int context ''submit_budget_consumed_count'';
             max_budget = meta_int context ''max_general_submits_this_cycle''
         in if consumed < max_budget then passed_rule ''submit_budget_available'' []
            else failed_rule (submit_budget_consumed_reason (or_text (vc_source_type context) ''core''))
                   [(''submit_budget_consumed_count'', JvInt consumed), (''max_budget'', JvInt max_budget)]))"

definition submit_lane_rules :: "validation_rule list" where
  "submit_lane_rules =
     [(''cli_dry_run'', evaluate_cli_dry_run), (''held_position_duplicate'', evaluate_held_position_duplicate),
      (''general_submit_enabled'', evaluate_general_submit_enabled),
      (''general_submit_budget'', evaluate_general_submit_budget)]"

definition evaluate_symbol_submit_lane :: "timestamp \<Rightarrow> lane_inputs \<Rightarrow> submit_lane_decision" where
  "evaluate_symbol_submit_lane now i =
     (let r = run_validation_rules now ''submit_lane_gate_v1'' (build_submit_lane_context i) submit_lane_rules
      in if is_blocking r
         then \<lparr>sl_submit = False, sl_dry_run = True, sl_dry_run_reason = vr_stop_reason r, sl_validation_result = r\<rparr>
         else \<lparr>sl_submit = True, sl_dry_run = False, sl_dry_run_reason = None, sl_validation_result = r\<rparr>)"

section \<open>Compliance\<close>

record compliance_input =
  ci_source_type :: string
  ci_has_position :: bool
  ci_intent_action :: string
  ci_account_ref :: "string option"
  ci_symbol :: "string option"
  ci_market :: "string option"
  ci_strategy_id :: "string option"
  ci_client_order_id :: "string option"
  ci_side :: "string option"
  ci_order_type :: "string option"
  ci_quantity :: "string option"
  ci_price :: "string option"
  ci_tr_stop_yn :: "string option"
  ci_admn_item_yn :: "string option"
  ci_nxt_tr_stop_yn :: "string option"
  ci_temp_stop_yn :: "string option"
  ci_iscd_stat_cls_code :: "string option"
  ci_status_reason_codes :: "string list"
  ci_status_snapshot_at :: "timestamp option"
  ci_status_source_type :: "string option"
  ci_allow_unknown_status_for_sell :: bool
  ci_blocked_reason_codes :: "string list"
  ci_supported_order_types :: "string list"
  ci_holding_profile :: "string option"
  ci_earliest_reduce_at :: "timestamp option"
  ci_earliest_reentry_at :: "timestamp option"

definition status_block_codes :: "string list" where
  "status_block_codes = [''01'', ''02'', ''03'', ''04'', ''05'']"

definition normalized_flag :: "string option \<Rightarrow> string" where
  "normalized_flag v = str_upper (str_strip (or_text v []))"

definition lowered :: "string option \<Rightarrow> string" where
  "lowered v = str_lower (str_strip (or_text v []))"

definition compliance_source :: "compliance_input \<Rightarrow> string" where
  "compliance_source i = normalized_source (Some (ci_source_type i))"

definition may_buy :: "compliance_input \<Rightarrow> bool" where
  "may_buy i = se_allow_new_buy (evaluate_action_envelope (compliance_source i) (ci_has_position i))"

definition has_status_snapshot :: "compliance_input \<Rightarrow> bool" where
  "has_status_snapshot i \<longleftrightarrow>
     ci_status_snapshot_at i \<noteq> None \<or> ci_status_reason_codes i \<noteq> []
     \<or> normalized_flag (ci_tr_stop_yn i) \<noteq> [] \<or> normalized_flag (ci_admn_item_yn i) \<noteq> []
     \<or> normalized_flag (ci_nxt_tr_stop_yn i) \<noteq> [] \<or> normalized_flag (ci_temp_stop_yn i) \<noteq> []
     \<or> str_strip (or_text (ci_iscd_stat_cls_code i) []) \<noteq> []"

definition allow_sell_override :: "compliance_input \<Rightarrow> bool" where
  "allow_sell_override i \<longleftrightarrow>
     ci_allow_unknown_status_for_sell i \<and> ci_has_position i \<and> ci_intent_action i \<noteq> ''new_buy''
     \<and> lowered (ci_side i) = side_value SELL"

definition source_policy_buy_rule :: "compliance_input \<Rightarrow> rule_outcome" where
  "source_policy_buy_rule i =
     (if ci_intent_action i \<noteq> ''new_buy'' then passed_rule ''compliance_source_policy_not_applicable'' []
      else if may_buy i
      then passed_rule ''compliance_source_policy_buy_allowed'' [(''source_type'', JvStr (compliance_source i))]
      else failed_rule ''source_policy_buy_blocked''
             [(''source_type'', JvStr (compliance_source i)),
              (''policy_reason_codes'', JvList (map JvStr
                 (se_reason_codes (evaluate_action_envelope (compliance_source i) (ci_has_position i)))))])"

definition reconciliation_overlay_flat_buy_rule :: "compliance_input \<Rightarrow> rule_outcome" where
  "reconciliation_overlay_flat_buy_rule i =
     (if compliance_source i = ''reconciliation_overlay'' \<and> ci_intent_action i = ''new_buy'' \<and> \<not> ci_has_position i \<and> \<not> may_buy i
      then failed_rule ''policy_reconciliation_overlay_flat_buy_blocked''
             [(''source_type'', JvStr (compliance_source i)), (''has_position'', JvBool (ci_has_position i))]
      else passed_rule ''compliance_reconciliation_overlay_buy_allowed'' [])"

definition required_values :: "compliance_input \<Rightarrow> (string \<times> string option) list" where
  "required_values i =
     [(''account_ref'', ci_account_ref i), (''symbol'', ci_symbol i), (''market'', ci_market i),
      (''strategy_id'', ci_strategy_id i), (''client_order_id'', ci_client_order_id i), (''side'', ci_side i),
      (''order_type'', ci_order_type i), (''quantity'', ci_quantity i)]"

definition required_field_rule :: "compliance_input \<Rightarrow> rule_outcome" where
  "required_field_rule i =
     (let missing = map fst (filter (\<lambda>(_, v). v = None \<or> v = Some []) (required_values i))
      in if missing \<noteq> []
         then failed_rule ''compliance_missing_required_field'' [(''missing_fields'', JvList (map JvStr missing))]
         else passed_rule ''compliance_required_fields_ok'' [])"

definition order_shape_rule :: "compliance_input \<Rightarrow> rule_outcome" where
  "order_shape_rule i =
     (let order_type = lowered (ci_order_type i); side = lowered (ci_side i)
      in if side \<noteq> [] \<and> side \<notin> {side_value BUY, side_value SELL}
         then failed_rule ''compliance_invalid_order_shape'' [(''reason'', JvStr ''invalid_side''), (''side'', JvStr side)]
         else if ci_quantity i \<in> {None, Some [], Some ''0'', Some ''0.0'', Some ''0.000000''}
         then failed_rule ''compliance_invalid_order_shape''
                [(''reason'', JvStr ''non_positive_quantity''), (''quantity'', opt_text (ci_quantity i))]
         else if order_type = order_type_value LIMIT \<and> ci_price i \<in> {None, Some []}
         then failed_rule ''compliance_invalid_order_shape'' [(''reason'', JvStr ''limit_without_price'')]
         else passed_rule ''compliance_order_shape_ok'' [])"

definition status_blocked :: "text_codec \<Rightarrow> compliance_input \<Rightarrow> string \<Rightarrow> rule_outcome" where
  "status_blocked tc i reason =
     failed_rule ''compliance_instrument_status_blocked''
       [(''reason'', JvStr reason), (''status_source_type'', opt_text (ci_status_source_type i)),
        (''status_snapshot_at'', opt_text (map_option (tc_iso tc) (ci_status_snapshot_at i))),
        (''status_reason_codes'', JvList (map JvStr (ci_status_reason_codes i)))]"

definition instrument_status_rule :: "text_codec \<Rightarrow> compliance_input \<Rightarrow> rule_outcome" where
  "instrument_status_rule tc i =
     (let status_code = str_strip (or_text (ci_iscd_stat_cls_code i) [])
      in if allow_sell_override i then passed_rule ''compliance_instrument_status_sell_override_allowed'' []
         else if normalized_flag (ci_tr_stop_yn i) = ''Y'' then status_blocked tc i ''trading_halt''
         else if normalized_flag (ci_admn_item_yn i) = ''Y'' then status_blocked tc i ''administrative_issue''
         else if normalized_flag (ci_nxt_tr_stop_yn i) = ''Y'' then status_blocked tc i ''next_session_halt''
         else if normalized_flag (ci_temp_stop_yn i) = ''Y'' then status_blocked tc i ''temporary_halt''
         else if status_code \<noteq> [] \<and> status_code \<in> set status_block_codes
         then status_blocked tc i (''suspended_status:'' @ status_code)
         else if has_status_snapshot i
         then passed_rule ''compliance_instrument_status_allowed''
                [(''status_source_type'', opt_text (ci_status_source_type i))]
         else passed_rule ''compliance_status_snapshot_unavailable'' [])"

definition active_until :: "timestamp option \<Rightarrow> timestamp \<Rightarrow> bool" where
  "active_until t now = (case t of None \<Rightarrow> False | Some u \<Rightarrow> now < u)"

definition holding_profile_window_rule :: "text_codec \<Rightarrow> timestamp \<Rightarrow> compliance_input \<Rightarrow> rule_outcome" where
  "holding_profile_window_rule tc now i =
     (let side = lowered (ci_side i)
      in if side = side_value SELL \<and> ci_has_position i \<and> active_until (ci_earliest_reduce_at i) now
         then failed_rule ''compliance_holding_profile_window_blocked''
                [(''reason'', JvStr ''earliest_reduce_at_active''), (''holding_profile'', opt_text (ci_holding_profile i)),
                 (''earliest_reduce_at'', opt_text (map_option (tc_iso tc) (ci_earliest_reduce_at i)))]
         else if side = side_value BUY \<and> ci_intent_action i = ''new_buy'' \<and> active_until (ci_earliest_reentry_at i) now
         then failed_rule ''compliance_holding_profile_window_blocked''
                [(''reason'', JvStr ''earliest_reentry_at_active''), (''holding_profile'', opt_text (ci_holding_profile i)),
                 (''earliest_reentry_at'', opt_text (map_option (tc_iso tc) (ci_earliest_reentry_at i)))]
         else passed_rule ''compliance_holding_profile_window_allowed'' [])"

definition restricted_symbol_rule :: "compliance_input \<Rightarrow> rule_outcome" where
  "restricted_symbol_rule i =
     (if ci_blocked_reason_codes i \<noteq> []
      then failed_rule ''compliance_restricted_symbol_fallback''
             [(''blocked_reason_codes'', JvList (map JvStr (ci_blocked_reason_codes i)))]
      else passed_rule ''compliance_symbol_allowed'' [])"

definition supported_types :: "compliance_input \<Rightarrow> string list" where
  "supported_types i = map (\<lambda>v. str_lower (str_strip v)) (filter (\<lambda>v. str_strip v \<noteq> []) (ci_supported_order_types i))"

definition broker_capability_rule :: "compliance_input \<Rightarrow> rule_outcome" where
  "broker_capability_rule i =
     (let order_type = lowered (ci_order_type i)
      in if order_type \<noteq> [] \<and> supported_types i \<noteq> [] \<and> order_type \<notin> set (supported_types i)
         then failed_rule ''compliance_broker_capability_blocked''
                [(''order_type'', JvStr order_type), (''supported_order_types'', JvList (map JvStr (supported_types i)))]
         else passed_rule ''compliance_broker_capability_allowed'' [])"

definition compliance_rules :: "text_codec \<Rightarrow> timestamp \<Rightarrow> compliance_input \<Rightarrow> validation_rule list" where
  "compliance_rules tc now i =
     [(''source_policy_buy_blocked'', \<lambda>_. source_policy_buy_rule i),
      (''reconciliation_overlay_flat_buy_blocked'', \<lambda>_. reconciliation_overlay_flat_buy_rule i),
      (''required_fields'', \<lambda>_. required_field_rule i), (''order_shape'', \<lambda>_. order_shape_rule i),
      (''holding_profile_window'', \<lambda>_. holding_profile_window_rule tc now i),
      (''instrument_status'', \<lambda>_. instrument_status_rule tc i), (''restricted_symbol'', \<lambda>_. restricted_symbol_rule i),
      (''broker_capability'', \<lambda>_. broker_capability_rule i)]"

text \<open>\<open>rule_now\<close> is the clock of the holding window, \<open>run_now\<close> and \<open>now\<close> those of the two results.\<close>

definition evaluate_compliance_rules ::
  "text_codec \<Rightarrow> timestamp \<Rightarrow> timestamp \<Rightarrow> timestamp \<Rightarrow> validation_context \<Rightarrow> compliance_input \<Rightarrow> validation_result" where
  "evaluate_compliance_rules tc rule_now run_now now context i =
     (let r = run_validation_rules run_now ''compliance_validator_v1'' context (compliance_rules tc rule_now i);
          enriched = set_default ''validator_bundle'' (Some (JvStr ''compliance_validator_v1'')) (vr_rule_results r)
      in if is_blocking r
         then blocked_result now (vr_rule_set_version r) (vr_blocking_rule_codes r) enriched (vr_stop_reason r) (vr_message r)
         else allowed_result now (vr_rule_set_version r) enriched (vr_warning_rule_codes r) (vr_message r))"

section \<open>The contract of a bundle\<close>

definition blocks :: "rule_outcome \<Rightarrow> bool" where
  "blocks out \<longleftrightarrow> \<not> ro_passed out \<and> \<not> ro_warning out"

text \<open>\<open>outcomes\<close> lists what the rules of a bundle say on an input, in order; \<open>result\<close> is what the bundle
  returns.\<close>

locale rule_bundle =
  fixes outcomes :: "'i \<Rightarrow> rule_outcome list" and result :: "'i \<Rightarrow> validation_result"
  assumes codes: "vr_blocking_rule_codes (result i) = map ro_code (filter blocks (outcomes i))"
    and passed: "vr_overall_passed (result i) \<longleftrightarrow> vr_blocking_rule_codes (result i) = []"
    and stop: "vr_stop_reason (result i) = (case vr_blocking_rule_codes (result i) of [] \<Rightarrow> None | c # _ \<Rightarrow> Some c)"
begin

lemma blocking_iff: "is_blocking (result i) \<longleftrightarrow> (\<exists>out \<in> set (outcomes i). blocks out)"
  using codes [of i] passed [of i] by (auto simp: is_blocking_def filter_empty_conv)

lemma stop_of_first:
  assumes "outcomes i = xs @ out # ys" "\<forall>x \<in> set xs. \<not> blocks x" "blocks out"
  shows "vr_stop_reason (result i) = Some (ro_code out)"
  using assms codes [of i] stop [of i] by (simp add: filter_empty_conv)

lemma no_stop_iff: "vr_stop_reason (result i) = None \<longleftrightarrow> \<not> is_blocking (result i)"
  using codes [of i] passed [of i] stop [of i] by (auto simp: is_blocking_def split: list.splits)

end

lemma collect_outcomes_codes:
  "fst (collect_outcomes ctx rules blocking warning outs msg)
     = blocking @ map ro_code (filter blocks (map (\<lambda>(_, f). f ctx) rules))"
  by (induction ctx rules blocking warning outs msg rule: collect_outcomes.induct)
    (auto simp: Let_def blocks_def)

lemma run_rules_simps [simp]:
  "vr_blocking_rule_codes (run_validation_rules now version ctx rules)
     = map ro_code (filter blocks (map (\<lambda>(_, f). f ctx) rules))"
  "vr_overall_passed (run_validation_rules now version ctx rules)
     \<longleftrightarrow> vr_blocking_rule_codes (run_validation_rules now version ctx rules) = []"
  "vr_stop_reason (run_validation_rules now version ctx rules)
     = (case vr_blocking_rule_codes (run_validation_rules now version ctx rules) of [] \<Rightarrow> None | c # _ \<Rightarrow> Some c)"
  using collect_outcomes_codes [of ctx rules "[]" "[]" "[]" None]
  by (auto simp: run_validation_rules_def Let_def split_beta blocked_result_def allowed_result_def split: list.splits)

interpretation run: rule_bundle "\<lambda>(now, version, ctx, rules). map (\<lambda>(_, f). f ctx) rules"
  "\<lambda>(now, version, ctx, rules). run_validation_rules now version ctx rules"
  by unfold_locales (auto split: prod.split)

interpretation lane: rule_bundle "\<lambda>(now, i). map (\<lambda>(_, f). f (build_submit_lane_context i)) submit_lane_rules"
  "\<lambda>(now, i). sl_validation_result (evaluate_symbol_submit_lane now i)"
  by unfold_locales (auto simp: evaluate_symbol_submit_lane_def Let_def split: prod.split)

interpretation compliance: rule_bundle "\<lambda>(tc, rule_now, run_now, now, ctx, i). map (\<lambda>(_, f). f ctx) (compliance_rules tc rule_now i)"
  "\<lambda>(tc, rule_now, run_now, now, ctx, i). evaluate_compliance_rules tc rule_now run_now now ctx i"
  by unfold_locales
    (auto simp: evaluate_compliance_rules_def Let_def is_blocking_def blocked_result_def allowed_result_def
      split: prod.split list.split)

lemma outcome_simps [simp]:
  "ro_passed (passed_rule c d)" "\<not> ro_passed (failed_rule c d)" "\<not> ro_warning (failed_rule c d)"
  "blocks (failed_rule c d)" "\<not> blocks (passed_rule c d)" "ro_code (failed_rule c d) = c"
  by (simp_all add: passed_rule_def failed_rule_def blocks_def)

lemmas compliance_rule_defs = source_policy_buy_rule_def reconciliation_overlay_flat_buy_rule_def required_field_rule_def
  order_shape_rule_def holding_profile_window_rule_def instrument_status_rule_def restricted_symbol_rule_def
  broker_capability_rule_def status_blocked_def

lemma lane_context_simps [simp]:
  "meta_truthy (build_submit_lane_context i) ''submit'' = li_submit i"
  "meta_truthy (build_submit_lane_context i) ''dry_run'' = li_dry_run i"
  "meta_truthy (build_submit_lane_context i) ''allow_general_submit'' = li_allow_general_submit i"
  "meta_int (build_submit_lane_context i) ''submit_budget_consumed_count'' = li_submit_budget_consumed_count i"
  "meta_int (build_submit_lane_context i) ''max_general_submits_this_cycle'' = li_max_general_submits_this_cycle i"
  "set (meta_texts (build_submit_lane_context i) ''held_position_sell_cycle_symbols'') = set (li_held_position_sell_cycle_symbols i)"
  "vc_source_type (build_submit_lane_context i) = Some (li_source_type i)"
  "vc_symbol (build_submit_lane_context i) = Some (li_symbol i)"
  by (simp_all add: build_submit_lane_context_def meta_truthy_def meta_int_def meta_texts_def jv_truthy_def comp_def)

text \<open>Normalising a text twice changes nothing more.\<close>

lemma space_lower [simp]: "is_space_char (char_lower c) = is_space_char c"
  by (auto simp: is_space_char_def char_lower_def)

lemma char_lower_idem [simp]: "char_lower (char_lower c) = char_lower c"
  by (auto simp: char_lower_def)

lemma strip_lower: "str_strip (str_lower s) = str_lower (str_strip s)"
proof -
  have "is_space_char \<circ> char_lower = is_space_char" by (simp add: fun_eq_iff)
  then show ?thesis by (simp add: str_strip_def str_lower_def dropWhile_map rev_map)
qed

lemma dropWhile_idem [simp]: "dropWhile P (dropWhile P xs) = dropWhile P xs"
  by (cases "dropWhile P xs") (use hd_dropWhile [of P xs] in auto)

lemma strip_idem [simp]: "str_strip (str_strip s) = str_strip s"
proof -
  have "dropWhile P (rev (dropWhile P (rev (dropWhile P xs)))) = rev (dropWhile P (rev (dropWhile P xs)))" for P and xs :: string
  proof (cases "rev (dropWhile P (rev (dropWhile P xs)))")
    case (Cons y ys)
    obtain zs where z: "dropWhile P xs = rev (dropWhile P (rev (dropWhile P xs))) @ zs"
      using takeWhile_dropWhile_id [of P "rev (dropWhile P xs)"] by (metis rev_append rev_rev_ident)
    then have "hd (dropWhile P xs) = y" "dropWhile P xs \<noteq> []" using Cons by auto
    then have "\<not> P y" using hd_dropWhile by blast
    then show ?thesis using Cons by simp
  next
    case Nil
    then show ?thesis by (simp only: dropWhile.simps)
  qed
  then show ?thesis by (simp add: str_strip_def)
qed

lemma lower_strip_idem: "str_lower (str_strip (str_lower (str_strip s))) = str_lower (str_strip s)"
  by (simp add: strip_lower) (simp add: str_lower_def)

lemma may_buy_iff:
  "may_buy i \<longleftrightarrow> compliance_source i \<noteq> ''held_position''
     \<and> (compliance_source i = ''reconciliation_overlay'' \<longrightarrow> ci_has_position i)"
proof -
  have "normalized_source (Some (compliance_source i)) = (if compliance_source i = [] then ''core'' else compliance_source i)"
  proof (cases "compliance_source i = []")
    case True
    then show ?thesis by (simp add: normalized_source_def or_text_def) code_simp
  next
    case False
    then show ?thesis using lower_strip_idem by (simp add: normalized_source_def or_text_def) (simp add: compliance_source_def normalized_source_def)
  qed
  then show ?thesis by (auto simp: may_buy_def evaluate_action_envelope_def Let_def)
qed

lemma rule_blocks:
  "blocks (source_policy_buy_rule i) \<longleftrightarrow> ci_intent_action i = ''new_buy'' \<and> \<not> may_buy i"
  "blocks (reconciliation_overlay_flat_buy_rule i) \<longleftrightarrow>
     compliance_source i = ''reconciliation_overlay'' \<and> ci_intent_action i = ''new_buy'' \<and> \<not> ci_has_position i"
  "blocks (required_field_rule i) \<longleftrightarrow> (\<exists>(f, v) \<in> set (required_values i). v = None \<or> v = Some [])"
  "blocks (order_shape_rule i) \<longleftrightarrow>
     lowered (ci_side i) \<noteq> [] \<and> lowered (ci_side i) \<notin> {side_value BUY, side_value SELL}
     \<or> ci_quantity i \<in> {None, Some [], Some ''0'', Some ''0.0'', Some ''0.000000''}
     \<or> lowered (ci_order_type i) = order_type_value LIMIT \<and> ci_price i \<in> {None, Some []}"
  "blocks (holding_profile_window_rule tc now i) \<longleftrightarrow>
     lowered (ci_side i) = side_value SELL \<and> ci_has_position i \<and> active_until (ci_earliest_reduce_at i) now
     \<or> lowered (ci_side i) = side_value BUY \<and> ci_intent_action i = ''new_buy'' \<and> active_until (ci_earliest_reentry_at i) now"
  "blocks (restricted_symbol_rule i) \<longleftrightarrow> ci_blocked_reason_codes i \<noteq> []"
  "blocks (broker_capability_rule i) \<longleftrightarrow>
     lowered (ci_order_type i) \<noteq> [] \<and> supported_types i \<noteq> [] \<and> lowered (ci_order_type i) \<notin> set (supported_types i)"
  subgoal by (simp add: source_policy_buy_rule_def)
  subgoal using may_buy_iff [of i] by (auto simp: reconciliation_overlay_flat_buy_rule_def)
  subgoal by (auto simp: required_field_rule_def Let_def filter_empty_conv)
  subgoal by (simp add: order_shape_rule_def Let_def)
  subgoal by (simp add: holding_profile_window_rule_def Let_def)
  subgoal by (simp add: restricted_symbol_rule_def)
  subgoal by (simp add: broker_capability_rule_def Let_def)
  done

lemma status_blocks:
  "blocks (instrument_status_rule tc i) \<longleftrightarrow> \<not> allow_sell_override i
     \<and> ((\<exists>flag \<in> {ci_tr_stop_yn i, ci_admn_item_yn i, ci_nxt_tr_stop_yn i, ci_temp_stop_yn i}. normalized_flag flag = ''Y'')
        \<or> str_strip (or_text (ci_iscd_stat_cls_code i) []) \<in> set status_block_codes)"
proof -
  have "[] \<notin> set status_block_codes" by (simp add: status_block_codes_def)
  then show ?thesis by (auto simp: instrument_status_rule_def status_blocked_def Let_def)
qed

section \<open>Properties\<close>

text \<open>The lane of the scheduler submits exactly when submission was asked for and the lane is open: a
  sale of a held position needs only a symbol that was not yet submitted in this cycle, everything
  else needs the general lane to be enabled and its budget not to be used up.\<close>

theorem submit_lane_open_iff:
  "sl_submit (evaluate_symbol_submit_lane now i) \<longleftrightarrow>
     li_submit i \<and> \<not> li_dry_run i
     \<and> (if li_source_type i = ''held_position''
         then li_symbol i \<notin> set (li_held_position_sell_cycle_symbols i)
         else li_allow_general_submit i
              \<and> li_submit_budget_consumed_count i < li_max_general_submits_this_cycle i)"
proof -
  have "sl_submit (evaluate_symbol_submit_lane now i) \<longleftrightarrow> \<not> is_blocking (sl_validation_result (evaluate_symbol_submit_lane now i))"
    by (simp add: evaluate_symbol_submit_lane_def Let_def)
  then show ?thesis
    using lane.blocking_iff [of "(now, i)"]
    by (auto simp: submit_lane_rules_def evaluate_cli_dry_run_def evaluate_held_position_duplicate_def
        evaluate_general_submit_enabled_def evaluate_general_submit_budget_def Let_def)
qed

text \<open>The shape rule knows five spellings of an empty or zero quantity; a negative one has another.\<close>

lemma negative_quantity_has_a_shape:
  "\<not> blocks (order_shape_rule (i\<lparr>ci_quantity := Some ''-5'', ci_side := Some ''buy'', ci_order_type := Some ''market''\<rparr>))"
  by (simp add: rule_blocks lowered_def or_text_def str_lower_def str_strip_def is_space_char_def char_lower_def char_of_def)

end
