(* ===== verification/Execution_Policy.thy ===== *)
theory Execution_Policy
  imports Translation Validators
begin

text \<open>
  The rules of the execution service (\<^verbatim>\<open>services/execution_service.py\<close>) that decide without changing an
  order: zero quantities, thin markets, single-share probes, repeated buys, the validators of each guard,
  submit-time compliance, value at risk, freshness of snapshots, and the inputs of the sizing engine.
  They read the in-memory repositories; the pipeline that applies them is in \<^verbatim>\<open>Execution\<close>.
\<close>

section \<open>Data\<close>

record quote =
  qt_symbol :: string
  qt_market :: string
  qt_bid :: "rat option"
  qt_ask :: "rat option"
  qt_last :: "rat option"
  qt_as_of :: timestamp
  qt_accumulated_volume :: "rat option"
  qt_accumulated_turnover :: "rat option"

record instrument_status_snapshot =
  iss_instrument_status_snapshot_id :: uuid
  iss_instrument_id :: uuid
  iss_snapshot_at :: timestamp
  iss_source_type :: string
  iss_tr_stop_yn :: "string option"
  iss_admn_item_yn :: "string option"
  iss_nxt_tr_stop_yn :: "string option"
  iss_temp_stop_yn :: "string option"
  iss_iscd_stat_cls_code :: "string option"
  iss_status_reason_codes :: "string list"
  iss_created_at :: "timestamp option"

record snapshot_sync_run =
  sn_started_at :: timestamp
  sn_completed_at :: "timestamp option"
  sn_status :: string

definition buy_duplicate_cooldown_seconds :: int where "buy_duplicate_cooldown_seconds = 15 * 60"
definition single_share_probe_min_order_value :: rat where "single_share_probe_min_order_value = 500000"
definition single_share_probe_high_edge_bps :: rat where "single_share_probe_high_edge_bps = 35"
definition single_share_probe_reverse_cooldown :: int where "single_share_probe_reverse_cooldown = minutes 20"
definition low_liquidity_volume_threshold :: rat where "low_liquidity_volume_threshold = 3000"
definition low_liquidity_turnover_threshold :: rat where "low_liquidity_turnover_threshold = 50000000"
definition severe_low_liquidity_volume_threshold :: rat where "severe_low_liquidity_volume_threshold = 500"
definition severe_low_liquidity_turnover_threshold :: rat where "severe_low_liquidity_turnover_threshold = 10000000"

definition execution_infeasible_trigger_reasons :: "string list" where
  "execution_infeasible_trigger_reasons =
     [''eligibility_low_average_volume'', ''eligibility_low_turnover'', ''eligibility_participation_rate_blocked'']"

definition single_share_reverse_sell_statuses :: "order_status list" where
  "single_share_reverse_sell_statuses =
     [DRAFT, VALIDATED, PENDING_SUBMIT, SUBMITTED, ACKNOWLEDGED, PARTIALLY_FILLED, FILLED, RECONCILE_REQUIRED]"

text \<open>The account of an intent, if its decision context is known.\<close>

definition intent_account :: "order_intent \<Rightarrow> uuid option" where
  "intent_account intent = map_option dc_account_id (ix_decision_context (oi_context intent))"

definition account_of_alias :: "repos \<Rightarrow> string \<Rightarrow> uuid option" where
  "account_of_alias r alias =
     map_option ac_account_id (find_first (\<lambda>a. ac_account_alias a = alias) (map snd (rp_accounts r)))"

section \<open>Sizing\<close>

definition resolve_zero_quantity_outcome :: "string \<Rightarrow> sizing_result \<Rightarrow> string \<times> string \<times> string" where
  "resolve_zero_quantity_outcome decision_type r =
     (if sr_skip_reason r = Some ''non_actionable_decision''
      then (let stop_reason = (if str_upper decision_type = ''HOLD'' then ''decision_hold'' else ''decision_watch'')
            in (''non_trade'', stop_reason, stop_reason))
      else (''stopped'', ''sizing_rejected'', or_text (sr_skip_reason r) ''Sizing rejected order''))"

definition resolve_market_buy_reference_price :: "order_intent \<Rightarrow> rat option \<Rightarrow> (rat \<times> string) option" where
  "resolve_market_buy_reference_price intent live =
     (let req = oi_request intent;
          lower = iq_price_band_lower req; upper = iq_price_band_upper req;
          pos = ix_position_snapshot (oi_context intent);
          market_price = Option.bind pos ps_market_price
      in if positive live then Some (the live, ''live_quote'')
         else if positive lower \<and> positive upper
         then Some (ddiv (dadd (the lower) (the upper)) 2, ''price_band_midpoint'')
         else if positive upper then Some (the upper, ''price_band_upper'')
         else if positive lower then Some (the lower, ''price_band_lower'')
         else if positive market_price then Some (the market_price, ''position_market_price'')
         else case pos of
                Some p \<Rightarrow> if 0 < ps_average_price p then Some (ps_average_price p, ''position_average_price'') else None
              | None \<Rightarrow> None)"

text \<open>\<open>config.get(key, {})\<close>, of which \<open>get\<close> is called next: a value that is no dictionary raises.\<close>

definition config_section :: "json_dict \<Rightarrow> string \<Rightarrow> json_dict option" where
  "config_section config key =
     (case map_of config key of None \<Rightarrow> Some [] | Some (JvObj d) \<Rightarrow> Some d | Some _ \<Rightarrow> None)"

text \<open>\<open>a.get(k) or b.get(k)\<close>.\<close>

definition get_or :: "json_dict \<Rightarrow> json_dict \<Rightarrow> string \<Rightarrow> jval option" where
  "get_or a b key =
     (case map_of a key of Some v \<Rightarrow> if jv_truthy v then Some v else map_of b key | None \<Rightarrow> map_of b key)"

definition configured_position_pct :: "json_dict \<Rightarrow> json_dict \<Rightarrow> rat option" where
  "configured_position_pct risk config =
     (case decimal_or_none (map_of risk ''max_single_position_pct'') of
        Some p \<Rightarrow> Some p
      | None \<Rightarrow>
          (case decimal_or_none (map_of config ''max_position_size'') of
             Some p \<Rightarrow> Some (if 0 < p \<and> p \<le> 1 then dmul p 100 else p)
           | None \<Rightarrow> None))"

definition intent_config :: "order_intent \<Rightarrow> json_dict" where
  "intent_config intent = (case ix_config_json (oi_context intent) of None \<Rightarrow> [] | Some c \<Rightarrow> c)"

definition intent_nav :: "intent_context \<Rightarrow> rat option" where
  "intent_nav ctx =
     (case Option.bind (ix_risk_limit_snapshot ctx) rl_nav of
        Some n \<Rightarrow> Some n
      | None \<Rightarrow> Option.bind (ix_cash_balance_snapshot ctx) cs_total_asset)"

definition build_sizing_inputs :: "order_intent \<Rightarrow> quote option \<Rightarrow> rat option \<Rightarrow> sizing_inputs option" where
  "build_sizing_inputs intent q reference_price =
     (let ctx = oi_context intent; ai = oi_ai_backend_inputs intent; req = oi_request intent;
          config = intent_config intent
      in case (config_section config ''risk'', config_section config ''execution'') of
           (Some risk, Some execution) \<Rightarrow>
             Some
               \<lparr>si_decision_type = ai_decision_type ai, si_side = sq_side req,
                si_requested_quantity = sq_quantity req, si_requested_price = sq_price req,
                si_source_type = Some (ix_source_type ctx), si_reference_price = reference_price,
                si_average_daily_volume_20d = Option.bind (ix_signal_feature_snapshot ctx) sf_average_volume_20d,
                si_accumulated_intraday_volume = Option.bind q qt_accumulated_volume,
                si_accumulated_intraday_turnover = Option.bind q qt_accumulated_turnover,
                si_max_intraday_volume_participation_pct =
                  decimal_or_none (map_of execution ''max_intraday_volume_participation_pct''),
                si_max_intraday_turnover_participation_pct =
                  decimal_or_none (map_of execution ''max_intraday_turnover_participation_pct''),
                si_max_average_daily_volume_participation_pct =
                  decimal_or_none (map_of execution ''max_average_daily_volume_participation_pct''),
                si_sizing_hint = ai_sizing_hint ai,
                si_current_position_qty = map_option ps_quantity (ix_position_snapshot ctx),
                si_current_position_avg_price = map_option ps_average_price (ix_position_snapshot ctx),
                si_available_cash = map_option cs_available_cash (ix_cash_balance_snapshot ctx),
                si_orderable_amount = Option.bind (ix_cash_balance_snapshot ctx) cs_orderable_amount,
                si_nav = intent_nav ctx, si_max_single_position_pct = configured_position_pct risk config,
                si_min_cash_buffer_pct = decimal_or_none (get_or risk config ''min_cash_buffer_pct''),
                si_max_order_value = decimal_or_none (get_or execution config ''max_order_value''),
                si_min_order_qty = decimal_or_none (map_of execution ''min_order_qty''),
                si_max_order_qty = decimal_or_none (map_of execution ''max_order_qty''), si_lot_size = None\<rparr>
         | _ \<Rightarrow> None)"

section \<open>Thin markets\<close>

definition build_execution_liquidity_metadata ::
  "exec_codec \<Rightarrow> string \<Rightarrow> string \<Rightarrow> string \<Rightarrow> string option \<Rightarrow> rat option \<Rightarrow> quote option \<Rightarrow> json_dict" where
  "build_execution_liquidity_metadata k action source_type reason price_source limit_price q =
     [(''action'', JvStr action), (''source_type'', JvStr source_type), (''reason'', JvStr reason),
      (''price_source'', opt_text price_source), (''limit_price'', opt_dec k limit_price),
      (''accumulated_volume'', opt_dec k (Option.bind q qt_accumulated_volume)),
      (''accumulated_turnover'', opt_dec k (Option.bind q qt_accumulated_turnover))]"

definition resolve_limit_price_for_low_liquidity_buy :: "quote option \<Rightarrow> rat option \<Rightarrow> (rat \<times> string) option" where
  "resolve_limit_price_for_low_liquidity_buy q reference_price =
     (if positive (Option.bind q qt_ask) then Some (the (Option.bind q qt_ask), ''quote.ask'')
      else if positive reference_price then Some (the reference_price, ''reference_price'')
      else if positive (Option.bind q qt_last) then Some (the (Option.bind q qt_last), ''quote.last'')
      else None)"

definition severe_live_low_liquidity :: "quote option \<Rightarrow> bool" where
  "severe_live_low_liquidity q =
     (case (Option.bind q qt_accumulated_volume, Option.bind q qt_accumulated_turnover) of
        (Some volume, Some turnover) \<Rightarrow>
          0 < volume \<and> 0 < turnover \<and> volume < severe_low_liquidity_volume_threshold
          \<and> turnover < severe_low_liquidity_turnover_threshold
      | _ \<Rightarrow> False)"

definition moderate_live_low_liquidity :: "quote option \<Rightarrow> bool" where
  "moderate_live_low_liquidity q =
     (case (Option.bind q qt_accumulated_volume, Option.bind q qt_accumulated_turnover) of
        (Some volume, Some turnover) \<Rightarrow>
          0 < volume \<and> 0 < turnover
          \<and> (volume < low_liquidity_volume_threshold \<or> turnover < low_liquidity_turnover_threshold)
      | _ \<Rightarrow> False)"

definition participation_capped :: "sizing_result \<Rightarrow> bool" where
  "participation_capped r \<longleftrightarrow>
     (\<exists>code \<in> set (sr_applied_constraints r).
        code \<in> {''intraday_volume_participation_cap'', ''intraday_turnover_participation_cap'',
                 ''average_daily_volume_participation_cap''})"

definition classify_buy_execution_liquidity_policy ::
  "exec_codec \<Rightarrow> order_intent \<Rightarrow> string \<Rightarrow> quote option \<Rightarrow> rat option \<Rightarrow> sizing_result
   \<Rightarrow> string \<times> string \<times> json_dict" where
  "classify_buy_execution_liquidity_policy k intent source_type q reference_price r =
     (let req = oi_request intent
      in if sq_side req \<noteq> BUY \<or> sq_order_type req \<noteq> MARKET \<or> source_type = ''manual''
         then (''allow'', ''not_applicable'', [])
         else
           (let trigger_blocked = (\<exists>reason \<in> set (ix_eligibility_reasons (oi_context intent)).
                                     reason \<in> set execution_infeasible_trigger_reasons);
                found = resolve_limit_price_for_low_liquidity_buy q reference_price;
                limit_price = map_option fst found; price_source = map_option snd found
            in if trigger_blocked \<or> severe_live_low_liquidity q
               then
                 (let reason = (if trigger_blocked then ''trigger_execution_infeasible'' else ''severe_live_low_liquidity'')
                  in (''block'', reason,
                      build_execution_liquidity_metadata k ''block'' source_type reason price_source limit_price q))
               else if moderate_live_low_liquidity q \<or> participation_capped r
               then
                 (let reason = (if moderate_live_low_liquidity q then ''moderate_live_low_liquidity''
                                else ''participation_cap_activated'')
                  in if limit_price = None
                     then (''block'', ''missing_limit_price_for_low_liquidity'',
                           build_execution_liquidity_metadata k ''block'' source_type
                             ''missing_limit_price_for_low_liquidity'' None None q)
                     else (''force_limit'', reason,
                           build_execution_liquidity_metadata k ''force_limit'' source_type reason price_source
                             limit_price q))
               else (''allow'', ''no_low_liquidity_signal'', [])))"

section \<open>Single-share probes\<close>

definition probe_price :: "order_intent \<Rightarrow> rat option \<Rightarrow> rat option" where
  "probe_price intent reference_price =
     (let falsy = (\<lambda>x. x = 0); req = oi_request intent
      in or_else falsy (or_else falsy (or_else falsy (sq_price req) reference_price) (iq_price_band_upper req))
           (iq_price_band_lower req))"

definition probe_order_value :: "order_intent \<Rightarrow> rat option \<Rightarrow> rat option" where
  "probe_order_value intent reference_price =
     (case probe_price intent reference_price of
        Some p \<Rightarrow> if 0 < p then Some (dmul p (sq_quantity (oi_request intent))) else None
      | None \<Rightarrow> None)"

definition at_least :: "rat \<Rightarrow> rat option \<Rightarrow> bool" where
  "at_least bound x = (case x of None \<Rightarrow> False | Some v \<Rightarrow> bound \<le> v)"

definition high_edge_exception :: "order_intent \<Rightarrow> string \<Rightarrow> bool" where
  "high_edge_exception intent source_type \<longleftrightarrow>
     source_type \<in> {''core'', ''event_overlay''}
     \<and> at_least single_share_probe_high_edge_bps (ai_edge_after_cost_bps (oi_ai_backend_inputs intent))"

definition high_volatility :: "order_intent \<Rightarrow> bool" where
  "high_volatility intent \<longleftrightarrow>
     (let s = ix_signal_feature_snapshot (oi_context intent)
      in at_least 3 (Option.bind s sf_atr_14_pct) \<or> at_least 4 (Option.bind s sf_volatility_20d_pct))"

text \<open>The score of the risk agent is a double, and so is the bound \<open>0.6\<close>.\<close>

definition risk_off :: "order_intent \<Rightarrow> bool" where
  "risk_off intent \<longleftrightarrow>
     ai_risk_opinion (oi_ai_backend_inputs intent) \<noteq> ''allow''
     \<or> fround (6 / 10) \<le> ai_risk_score (oi_ai_backend_inputs intent)"

definition probe_metadata :: "exec_codec \<Rightarrow> order_intent \<Rightarrow> string \<Rightarrow> rat option \<Rightarrow> json_dict" where
  "probe_metadata k intent source_type reference_price =
     [(''source_type'', JvStr source_type), (''quantity'', JvStr (dec_text k (sq_quantity (oi_request intent)))),
      (''estimated_order_value'', opt_dec k (probe_order_value intent reference_price)),
      (''min_probe_order_value'', JvStr ''500000''),
      (''edge_after_cost_bps'', opt_dec k (ai_edge_after_cost_bps (oi_ai_backend_inputs intent))),
      (''high_edge_exception'', JvBool (high_edge_exception intent source_type)),
      (''high_volatility'', JvBool (high_volatility intent)), (''risk_off'', JvBool (risk_off intent)),
      (''order_type'', JvStr (order_type_value (sq_order_type (oi_request intent))))]"

text \<open>The sells of the last twenty minutes; without a position snapshot those of every instrument.\<close>

definition recent_sell_orders :: "env \<Rightarrow> repos \<Rightarrow> order_intent \<Rightarrow> uuid \<Rightarrow> order_error + order_request list" where
  "recent_sell_orders ev r intent account_id =
     res_bind
       (order_list r (any_order\<lparr>oq_account_id := Some account_id,
          oq_created_from := Some (now_at ev ''created_from'' - single_share_probe_reverse_cooldown),
          oq_created_to := Some (now_at ev ''created_to''), oq_limit := 50\<rparr>))
       (\<lambda>orders.
          Inr (filter (\<lambda>x. or_side x = SELL \<and> or_status x \<in> set single_share_reverse_sell_statuses)
            (case ix_position_snapshot (oi_context intent) of
               None \<Rightarrow> orders
             | Some p \<Rightarrow> filter (\<lambda>x. or_instrument_id x = ps_instrument_id p) orders)))"

definition reverse_single_share :: "nat \<Rightarrow> reverse_trade_decision" where
  "reverse_single_share n =
     evaluate_recent_reverse_trade None None (int n) None [] ''reverse_trade_single_share_blocked''
       [(''recent_sell_order_count'', Dt_Text (int_str (int n)))] None None False None None"

definition probe_verdict :: "order_intent \<Rightarrow> string \<Rightarrow> rat option \<Rightarrow> json_dict \<Rightarrow> string \<times> string \<times> json_dict" where
  "probe_verdict intent source_type reference_price metadata =
     (let churn = (''block'', ''probe_churn_single_share_blocked'',
                   metadata @ [(''reason'', JvStr ''probe_churn_single_share_blocked'')])
      in if sq_order_type (oi_request intent) = MARKET \<and> high_volatility intent \<and> risk_off intent then churn
         else case probe_order_value intent reference_price of
                Some v \<Rightarrow>
                  if v < single_share_probe_min_order_value \<and> \<not> high_edge_exception intent source_type then churn
                  else (''allow'', ''allow'', metadata @ [(''reason'', JvStr ''allow'')])
              | None \<Rightarrow> (''allow'', ''allow'', metadata @ [(''reason'', JvStr ''allow'')]))"

definition classify_single_share_probe_churn_policy ::
  "exec_codec \<Rightarrow> env \<Rightarrow> repos \<Rightarrow> order_intent \<Rightarrow> string \<Rightarrow> rat option
   \<Rightarrow> order_error + (string \<times> string \<times> json_dict)" where
  "classify_single_share_probe_churn_policy k ev r intent source_type reference_price =
     (let req = oi_request intent; metadata = probe_metadata k intent source_type reference_price
      in if sq_side req \<noteq> BUY then Inr (''allow'', ''not_buy'', [])
         else if sq_quantity req \<noteq> 1 then Inr (''allow'', ''qty_not_single_share'', [])
         else if source_type = ''manual'' then Inr (''allow'', ''manual_bypass'', [])
         else if positive (map_option ps_quantity (ix_position_snapshot (oi_context intent)))
         then Inr (''allow'', ''existing_position_not_probe'', [])
         else if source_type = ''reconciliation_overlay''
         then Inr (''block'', ''overlay_single_share_buy_blocked'',
                   metadata @ [(''reason'', JvStr ''overlay_single_share_buy_blocked'')])
         else
           (case (case intent_account intent of
                    Some a \<Rightarrow> Some a | None \<Rightarrow> account_of_alias r (sq_account_ref req)) of
              None \<Rightarrow> Inr (probe_verdict intent source_type reference_price metadata)
            | Some account_id \<Rightarrow>
                res_bind (recent_sell_orders ev r intent account_id) (\<lambda>sells.
                let metadata = metadata @ [(''recent_sell_order_count'', JvInt (int (length sells)))]
                in if rt_blocked (reverse_single_share (length sells))
                   then Inr (''block'', ''reverse_trade_single_share_blocked'',
                             metadata @ [(''reason'', JvStr ''reverse_trade_single_share_blocked'')])
                   else Inr (probe_verdict intent source_type reference_price metadata))))"

end
