(* ===== verification/Execution_Guards.thy ===== *)
theory Execution_Guards
  imports Execution_Policy Order_Manager
begin

text \<open>
  The guards of the execution service (\<^verbatim>\<open>services/execution_service.py\<close>) and what they record: repeated buys,
  the validation result of each guard, the comparison with the agent's opinion, submit-time compliance, the
  limits on value at risk and the freshness of the snapshots of an account.
\<close>

section \<open>Repeated buys\<close>

definition recent_buy_statuses :: "order_status list" where
  "recent_buy_statuses =
     [DRAFT, VALIDATED, PENDING_SUBMIT, SUBMITTED, ACKNOWLEDGED, PARTIALLY_FILLED, FILLED, RECONCILE_REQUIRED]"

definition instrument_by_symbol :: "repos \<Rightarrow> string \<Rightarrow> string \<Rightarrow> instrument option" where
  "instrument_by_symbol r symbol market =
     find_first (\<lambda>x. in_symbol x = symbol \<and> in_market_code x = market) (map snd (rp_instruments r))"

text \<open>The identifier of the order found, if there is one.\<close>

definition has_recent_active_buy_order ::
  "repos \<Rightarrow> uuid \<Rightarrow> string \<Rightarrow> string \<Rightarrow> timestamp \<Rightarrow> order_error + uuid option" where
  "has_recent_active_buy_order r account_id symbol market created_after =
     (case instrument_by_symbol r symbol market of
        None \<Rightarrow> Inr None
      | Some ins \<Rightarrow>
          res_bind (order_list r (any_order\<lparr>oq_account_id := Some account_id, oq_statuses := Some recent_buy_statuses,
                                    oq_created_from := Some created_after, oq_limit := 100\<rparr>)) (\<lambda>orders.
          Inr (map_option or_order_request_id
            (find_first (\<lambda>x. or_instrument_id x = in_instrument_id ins \<and> or_side x = BUY) orders))))"

definition has_active_reconciliation_lock ::
  "timestamp \<Rightarrow> uuid \<Rightarrow> string \<Rightarrow> order_side \<Rightarrow> order_manager \<Rightarrow> bool \<times> order_manager" where
  "has_active_reconciliation_lock now account_id symbol side m =
     (if \<not> om_reconciliation_service m then (False, m)
      else
        (let (b, rc) = is_blocked now (account_id, None, Some symbol, Some (side_value side))
                         (rp_reconciliations (om_repos m))
         in (b, m\<lparr>om_repos := (om_repos m)\<lparr>rp_reconciliations := rc\<rparr>\<rparr>)))"

section \<open>Results of the guards\<close>

text \<open>\<open>{**a, **b}\<close>.\<close>

definition dict_merge :: "json_dict \<Rightarrow> json_dict \<Rightarrow> json_dict" where
  "dict_merge a b = foldl (\<lambda>d (k, v). AList.update k v d) a b"

definition with_validator_bundle :: "json_dict \<Rightarrow> string \<Rightarrow> json_dict" where
  "with_validator_bundle results bundle = set_default ''validator_bundle'' (Some (JvStr bundle)) results"

definition build_validator_result ::
  "string \<Rightarrow> env \<Rightarrow> string \<Rightarrow> validation_context \<Rightarrow> validation_rule list \<Rightarrow> json_dict \<Rightarrow> validation_result" where
  "build_validator_result bundle ev version context rules results =
     (let r = run_validation_rules (now_at ev ''rules'') version context rules;
          merged = with_validator_bundle (dict_merge results (vr_rule_results r)) bundle
      in if \<not> is_blocking r
         then allowed_result (now_at ev ''result'') version merged (vr_warning_rule_codes r) (vr_message r)
         else blocked_result (now_at ev ''result'') version (vr_blocking_rule_codes r) merged (vr_stop_reason r)
                (vr_message r))"

definition build_execution_validator_result ::
  "env \<Rightarrow> string \<Rightarrow> validation_context \<Rightarrow> validation_rule list \<Rightarrow> json_dict \<Rightarrow> validation_result" where
  "build_execution_validator_result = build_validator_result ''execution_validator_v1''"

definition build_risk_validator_result ::
  "env \<Rightarrow> string \<Rightarrow> validation_context \<Rightarrow> validation_rule list \<Rightarrow> json_dict \<Rightarrow> validation_result" where
  "build_risk_validator_result = build_validator_result ''risk_validator_v1''"

text \<open>A context of the execution: account, symbol, market, side, source and what the guard adds.\<close>

definition guard_context ::
  "exec_codec \<Rightarrow> uuid option \<Rightarrow> string \<Rightarrow> string option \<Rightarrow> string option \<Rightarrow> string option \<Rightarrow> json_dict
   \<Rightarrow> validation_context" where
  "guard_context k account_id symbol market side source_type metadata =
     build_validation_context (xk_text k) (xk_parse_uuid k) None None None (map_option Id_Uuid account_id) (Some symbol)
       market side source_type None metadata []"

definition opt_uuid :: "exec_codec \<Rightarrow> uuid option \<Rightarrow> jval" where
  "opt_uuid k u = (case u of None \<Rightarrow> JvNull | Some x \<Rightarrow> JvStr (tc_uuid (xk_text k) x))"

fun blocking_part_text :: "exec_codec \<Rightarrow> blocking_part \<Rightarrow> string" where
  "blocking_part_text k (No_Position q) = ''position_qty='' @ dec_text k q @ '' (no position)''"
| "blocking_part_text k (Open_Sells q) = ''open_sell_qty='' @ dec_text k q"
| "blocking_part_text k (Partial_Remaining q) = ''partial_remaining='' @ dec_text k q"
| "blocking_part_text k (Available_Requested a q) = ''available='' @ dec_text k a @ '' < requested='' @ dec_text k q"

definition blocking_text :: "exec_codec \<Rightarrow> sell_availability \<Rightarrow> string option" where
  "blocking_text k a =
     map_option (\<lambda>parts. ''Sell guard blocked: '' @ join_text ''; '' (map (blocking_part_text k) parts)) (sa_blocking_reason a)"

definition evaluate_sell_guard_validation_result ::
  "exec_codec \<Rightarrow> env \<Rightarrow> uuid \<Rightarrow> string \<Rightarrow> rat \<Rightarrow> sell_availability \<Rightarrow> validation_result" where
  "evaluate_sell_guard_validation_result k ev account_id symbol requested_qty a =
     (let requested = JvStr (dec_text k requested_qty); available = JvStr (dec_text k (sa_available_sell_qty a));
          reason = opt_text (blocking_text k a)
      in build_execution_validator_result ev ''sell_guard_v1''
           (guard_context k (Some account_id) symbol None (Some (side_value SELL)) None
              [(''requested_qty'', requested), (''available_sell_qty'', available)])
           [(''sell_guard'', \<lambda>_.
              \<lparr>ro_code = ''sell_guard_blocked'', ro_passed = \<not> sa_is_blocked a,
               ro_details = [(''blocking_reason'', reason), (''requested_qty'', requested), (''available_sell_qty'', available)],
               ro_message = None, ro_warning = False\<rparr>)]
           [(''account_id'', JvStr (tc_uuid (xk_text k) account_id)), (''symbol'', JvStr symbol), (''side'', JvStr (side_value SELL)),
            (''requested_qty'', requested), (''available_sell_qty'', available), (''blocking_reason'', reason)])"

definition evaluate_buy_duplicate_validation_result ::
  "exec_codec \<Rightarrow> env \<Rightarrow> uuid \<Rightarrow> string \<Rightarrow> string \<Rightarrow> uuid option \<Rightarrow> validation_result" where
  "evaluate_buy_duplicate_validation_result k ev account_id symbol market existing_order_id =
     (let cooldown = (''cooldown_seconds'', JvInt buy_duplicate_cooldown_seconds);
          existing = (''existing_order_id'', opt_uuid k existing_order_id)
      in build_execution_validator_result ev ''buy_duplicate_guard_v1''
           (guard_context k (Some account_id) symbol (Some market) (Some (side_value BUY)) None [cooldown])
           [(''buy_duplicate_guard'', \<lambda>_.
              \<lparr>ro_code = ''recent_active_buy_order'', ro_passed = (existing_order_id = None),
               ro_details = [existing, cooldown], ro_message = None, ro_warning = False\<rparr>)]
           [(''account_id'', JvStr (tc_uuid (xk_text k) account_id)), (''symbol'', JvStr symbol), (''market'', JvStr market),
            (''side'', JvStr (side_value BUY)), existing, cooldown])"

definition evaluate_probe_churn_validation_result ::
  "exec_codec \<Rightarrow> env \<Rightarrow> uuid option \<Rightarrow> string \<Rightarrow> string \<Rightarrow> string \<Rightarrow> json_dict \<Rightarrow> string \<Rightarrow> validation_result" where
  "evaluate_probe_churn_validation_result k ev account_id symbol market probe_reason metadata source_type =
     build_execution_validator_result ev ''execution_probe_churn_guard_v1''
       (guard_context k account_id symbol (Some market) (Some (side_value BUY)) (Some source_type)
          [(''probe_reason'', JvStr probe_reason)])
       [(''probe_churn_guard'', \<lambda>_. failed_rule probe_reason metadata)]
       (dict_merge
          [(''account_id'', opt_uuid k account_id), (''symbol'', JvStr symbol), (''market'', JvStr market),
           (''side'', JvStr (side_value BUY)), (''source_type'', JvStr source_type)]
          metadata)"

definition evaluate_buy_execution_liquidity_validation_result ::
  "exec_codec \<Rightarrow> env \<Rightarrow> uuid option \<Rightarrow> string \<Rightarrow> string \<Rightarrow> string \<Rightarrow> string \<Rightarrow> json_dict \<Rightarrow> validation_result" where
  "evaluate_buy_execution_liquidity_validation_result k ev account_id symbol market source_type liquidity_reason metadata =
     build_risk_validator_result ev ''buy_execution_liquidity_v1''
       (guard_context k account_id symbol (Some market) (Some (side_value BUY)) (Some source_type)
          [(''liquidity_reason'', JvStr liquidity_reason)])
       [(''buy_execution_liquidity'', \<lambda>_.
          (failed_rule ''low_liquidity_execution_blocked'' metadata)\<lparr>ro_message := Some liquidity_reason\<rparr>)]
       (dict_merge
          [(''account_id'', opt_uuid k account_id), (''symbol'', JvStr symbol), (''market'', JvStr market),
           (''side'', JvStr (side_value BUY)), (''source_type'', JvStr source_type)]
          metadata)"

definition evaluate_stale_snapshot_validation_result ::
  "exec_codec \<Rightarrow> env \<Rightarrow> uuid option \<Rightarrow> string \<Rightarrow> string \<Rightarrow> string \<Rightarrow> string \<Rightarrow> json_dict \<Rightarrow> validation_result" where
  "evaluate_stale_snapshot_validation_result k ev account_id symbol market source_type stale_code metadata =
     build_risk_validator_result ev ''stale_snapshot_guard_v1''
       (guard_context k account_id symbol (Some market) None (Some source_type) [(''stale_code'', JvStr stale_code)])
       [(''stale_snapshot_guard'', \<lambda>_. failed_rule stale_code metadata)]
       (dict_merge
          [(''account_id'', opt_uuid k account_id), (''symbol'', JvStr symbol), (''market'', JvStr market),
           (''source_type'', JvStr source_type)]
          metadata)"

definition evaluate_broker_submit_outcome_validation_result ::
  "exec_codec \<Rightarrow> env \<Rightarrow> uuid option \<Rightarrow> string \<Rightarrow> string \<Rightarrow> string \<Rightarrow> string \<Rightarrow> string \<Rightarrow> string option \<Rightarrow> string
   \<Rightarrow> validation_result" where
  "evaluate_broker_submit_outcome_validation_result k ev account_id symbol market source_type decision_type order_status
     status_reason_code stop_reason =
     (let outcome = [(''decision_type'', JvStr decision_type), (''order_status'', JvStr order_status)];
          reason = [(''status_reason_code'', opt_text status_reason_code)]
      in build_execution_validator_result ev ''broker_submit_outcome_v1''
           (guard_context k account_id symbol (Some market) None (Some source_type) outcome)
           [(''broker_submit_outcome'', \<lambda>_. failed_rule stop_reason (outcome @ reason))]
           ([(''account_id'', opt_uuid k account_id), (''symbol'', JvStr symbol), (''market'', JvStr market),
             (''source_type'', JvStr source_type)] @ outcome @ reason))"

section \<open>Value at risk\<close>

definition portfolio_var_pct :: "risk_limit_snapshot option \<Rightarrow> rat option" where
  "portfolio_var_pct s =
     (case (Option.bind s rl_nav, Option.bind s rl_portfolio_var_1d_adjusted) of
        (Some nav, Some var) \<Rightarrow> if 0 < nav then Some (dmul (ddiv var nav) 100) else None
      | _ \<Rightarrow> None)"

definition var_ready :: "risk_limit_snapshot option \<Rightarrow> bool" where
  "var_ready s = (case s of None \<Rightarrow> False | Some x \<Rightarrow> rl_var_status x = Some ''ready'')"

definition warned_rule :: "string \<Rightarrow> json_dict \<Rightarrow> rule_outcome" where
  "warned_rule code details = (passed_rule code details)\<lparr>ro_warning := True\<rparr>"

definition var_availability_rule ::
  "order_side \<Rightarrow> rat option \<Rightarrow> rat option \<Rightarrow> risk_limit_snapshot option \<Rightarrow> rule_outcome" where
  "var_availability_rule side max_portfolio max_symbol s =
     (if side \<noteq> BUY then passed_rule ''risk_var_threshold_not_applicable'' [(''side'', JvStr (side_value side))]
      else if max_portfolio = None \<and> max_symbol = None then passed_rule ''risk_var_threshold_not_configured'' []
      else case s of
             None \<Rightarrow> warned_rule ''risk_var_snapshot_missing'' []
           | Some x \<Rightarrow>
               if rl_var_status x \<noteq> Some ''ready''
               then warned_rule ''risk_var_unavailable''
                      [(''var_status'', opt_text (rl_var_status x)),
                       (''var_reason_codes'', JvList (map JvStr (rl_var_reason_codes x)))]
               else passed_rule ''risk_var_available'' [])"

definition var_limit_rule ::
  "order_side \<Rightarrow> rat option \<Rightarrow> risk_limit_snapshot option \<Rightarrow> rat option \<Rightarrow> string \<Rightarrow> string \<Rightarrow> (rat \<Rightarrow> rat \<Rightarrow> json_dict)
   \<Rightarrow> rule_outcome" where
  "var_limit_rule side limit s measured quiet_code code details =
     (case (limit, measured) of
        (Some bound, Some v) \<Rightarrow>
          if side \<noteq> BUY \<or> \<not> var_ready s then passed_rule quiet_code []
          else \<lparr>ro_code = code, ro_passed = v < bound, ro_details = details v bound, ro_message = None, ro_warning = False\<rparr>
      | _ \<Rightarrow> passed_rule quiet_code [])"

definition portfolio_var_rule ::
  "exec_codec \<Rightarrow> order_side \<Rightarrow> rat option \<Rightarrow> risk_limit_snapshot option \<Rightarrow> rule_outcome" where
  "portfolio_var_rule k side max_portfolio s =
     var_limit_rule side max_portfolio s (portfolio_var_pct s) ''risk_portfolio_var_limit_not_triggered''
       ''portfolio_var_limit_exceeded''
       (\<lambda>v bound. [(''portfolio_var_pct'', JvStr (dec_text k v)), (''max_portfolio_var_pct'', JvStr (dec_text k bound)),
                   (''portfolio_var_1d_adjusted'', opt_dec k (Option.bind s rl_portfolio_var_1d_adjusted)),
                   (''nav'', opt_dec k (Option.bind s rl_nav))])"

definition symbol_var_contribution_rule ::
  "exec_codec \<Rightarrow> order_side \<Rightarrow> rat option \<Rightarrow> risk_limit_snapshot option \<Rightarrow> rule_outcome" where
  "symbol_var_contribution_rule k side max_symbol s =
     var_limit_rule side max_symbol s (Option.bind s rl_largest_var_contribution_pct) ''risk_symbol_var_limit_not_triggered''
       ''symbol_var_contribution_limit_exceeded''
       (\<lambda>v bound. [(''largest_var_symbol'', opt_text (Option.bind s rl_largest_var_symbol)),
                   (''largest_var_contribution_pct'', JvStr (dec_text k v)),
                   (''max_symbol_var_contribution_pct'', JvStr (dec_text k bound))])"

definition evaluate_var_threshold_validation_result ::
  "exec_codec \<Rightarrow> env \<Rightarrow> order_intent \<Rightarrow> string \<Rightarrow> validation_result option" where
  "evaluate_var_threshold_validation_result k ev intent source_type =
     map_option (\<lambda>risk.
       (let req = oi_request intent; side = sq_side req; s = ix_risk_limit_snapshot (oi_context intent);
            max_portfolio = decimal_or_none (map_of risk ''max_portfolio_var_pct'');
            max_symbol = decimal_or_none (map_of risk ''max_symbol_var_contribution_pct'')
        in build_risk_validator_result ev ''risk_validator_v1''
             (guard_context k (intent_account intent) (sq_symbol req) (Some (sq_market req)) (Some (side_value side))
                (Some source_type) [(''phase'', JvStr ''risk_validator_var'')])
             [(''var_availability'', \<lambda>_. var_availability_rule side max_portfolio max_symbol s),
              (''portfolio_var_limit'', \<lambda>_. portfolio_var_rule k side max_portfolio s),
              (''symbol_var_contribution_limit'', \<lambda>_. symbol_var_contribution_rule k side max_symbol s)]
             [(''account_id'', opt_uuid k (intent_account intent)), (''symbol'', JvStr (sq_symbol req)),
              (''market'', JvStr (sq_market req)), (''side'', JvStr (side_value side)), (''source_type'', JvStr source_type),
              (''var_status'', opt_text (Option.bind s rl_var_status)), (''portfolio_var_pct'', opt_dec k (portfolio_var_pct s)),
              (''max_portfolio_var_pct'', opt_dec k max_portfolio),
              (''largest_var_symbol'', opt_text (Option.bind s rl_largest_var_symbol)),
              (''largest_var_contribution_pct'', opt_dec k (Option.bind s rl_largest_var_contribution_pct)),
              (''max_symbol_var_contribution_pct'', opt_dec k max_symbol)]))
       (config_section (intent_config intent) ''risk'')"

section \<open>Recording\<close>

definition record_validation_result ::
  "exec_codec \<Rightarrow> string option \<Rightarrow> env \<Rightarrow> validation_result \<Rightarrow> uuid option \<Rightarrow> uuid option \<Rightarrow> uuid option
   \<Rightarrow> guardrail_store \<Rightarrow> guardrail_store" where
  "record_validation_result k policy_git_sha ev r decision_context_id trade_decision_id order_request_id s =
     persist_validation_result (xk_text k) policy_git_sha (uuid_at ev ''guardrail'')
       (build_validation_context (xk_text k) (xk_parse_uuid k) (map_option Id_Uuid decision_context_id)
          (map_option Id_Uuid trade_decision_id) (map_option Id_Uuid order_request_id) None None None None None None []
          (vr_rule_results r)) r s"

text \<open>The opinion of the compliance agent, as the decision keeps it.\<close>

definition get_or_null :: "json_dict \<Rightarrow> string \<Rightarrow> jval" where
  "get_or_null d key = (case map_of d key of None \<Rightarrow> JvNull | Some v \<Rightarrow> v)"

definition extract_ai_compliance_projection :: "json_dict \<Rightarrow> json_dict option" where
  "extract_ai_compliance_projection decision_json =
     (let payload = map (\<lambda>(key, field). (key, get_or_null decision_json field))
            [(''opinion'', ''compliance_opinion''), (''score'', ''compliance_score''), (''confidence'', ''compliance_confidence''),
             (''reason_codes'', ''compliance_reason_codes''), (''policy_flags'', ''compliance_policy_flags''),
             (''check_passed'', ''compliance_check_passed'')]
      in if \<exists>(_, v) \<in> set payload. v \<noteq> JvNull then Some payload else None)"

definition agreement_status :: "bool \<Rightarrow> bool \<Rightarrow> string" where
  "agreement_status ai deterministic = (if ai = deterministic then ''aligned'' else ''conflict'')"

definition enrich_compliance_validation_with_ai_alignment ::
  "exec_codec \<Rightarrow> json_dict option \<Rightarrow> validation_result \<Rightarrow> validation_result" where
  "enrich_compliance_validation_with_ai_alignment k decision_json r =
     (case Option.bind decision_json extract_ai_compliance_projection of
        None \<Rightarrow> r
      | Some projection \<Rightarrow>
          (case get_or_null projection ''check_passed'' of
             JvBool ai \<Rightarrow>
               (let deterministic = vr_overall_passed r;
                    payload =
                      [(''telemetry_version'', JvStr ''v1''), (''agreement_status'', JvStr (agreement_status ai deterministic)),
                       (''mismatch_reason'',
                          if ai = deterministic then JvNull
                          else JvStr (if ai then ''ai_allow_but_deterministic_blocked'' else ''ai_block_but_deterministic_allowed'')),
                       (''ai_check_passed'', JvBool ai), (''ai_opinion'', get_or_null projection ''opinion''),
                       (''ai_score'', get_or_null projection ''score''), (''ai_confidence'', get_or_null projection ''confidence''),
                       (''ai_reason_codes'', get_or_null projection ''reason_codes''),
                       (''ai_policy_flags'', get_or_null projection ''policy_flags''),
                       (''deterministic_check_passed'', JvBool deterministic),
                       (''deterministic_blocking_rule_codes'', JvList (map JvStr (vr_blocking_rule_codes r))),
                       (''deterministic_warning_rule_codes'', JvList (map JvStr (vr_warning_rule_codes r))),
                       (''deterministic_stop_reason'', opt_text (vr_stop_reason r)),
                       (''validator_bundle'', get_or_null (vr_rule_results r) ''validator_bundle''),
                       (''evaluated_at'', JvStr (tc_iso (xk_text k) (vr_evaluated_at r)))]
                in r\<lparr>vr_rule_results := AList.update ''ai_compliance_alignment'' (JvObj payload) (vr_rule_results r)\<rparr>)
           | _ \<Rightarrow> r))"

definition should_persist_compliance_validation_telemetry :: "exec_codec \<Rightarrow> validation_result \<Rightarrow> bool" where
  "should_persist_compliance_validation_telemetry k r \<longleftrightarrow>
     is_blocking r
     \<or> (case map_of (vr_rule_results r) ''ai_compliance_alignment'' of
           Some (JvObj payload) \<Rightarrow>
             (case map_of payload ''agreement_status'' of
                Some v \<Rightarrow> jv_truthy v \<and> lowered (jval_str (xk_text k) (Some v)) = ''conflict''
              | None \<Rightarrow> False)
         | _ \<Rightarrow> False)"

section \<open>Compliance at submission\<close>

text \<open>The latest status: the newest time, then the newest creation, the first inserted of equals.\<close>

definition latest_status ::
  "(uuid \<times> instrument_status_snapshot) list \<Rightarrow> uuid \<Rightarrow> instrument_status_snapshot option" where
  "latest_status items instrument_id =
     (case sort_key (\<lambda>x. (- iss_snapshot_at x,
               case iss_created_at x of None \<Rightarrow> (1, 0) | Some t \<Rightarrow> (0 :: int, - t)))
             (filter (\<lambda>x. iss_instrument_id x = instrument_id) (map snd items)) of
        [] \<Rightarrow> None | x # _ \<Rightarrow> Some x)"

definition holding_payload :: "symbol_trade_state option \<Rightarrow> json_dict" where
  "holding_payload s =
     (case Option.bind s (\<lambda>x. map_of (ts_metadata_json x) ''holding_profile_policy'') of Some (JvObj p) \<Rightarrow> p | _ \<Rightarrow> [])"

definition holding_time ::
  "text_codec \<Rightarrow> symbol_trade_state option \<Rightarrow> string \<Rightarrow> string \<Rightarrow> (symbol_trade_state \<Rightarrow> timestamp option) \<Rightarrow> timestamp option" where
  "holding_time tc s key fallback_key stored =
     (case (if holding_payload s = [] then None else resolve_policy_timestamp tc (holding_payload s) key fallback_key) of
        Some t \<Rightarrow> Some t | None \<Rightarrow> Option.bind s stored)"

definition intent_has_position :: "order_intent \<Rightarrow> bool" where
  "intent_has_position intent = positive (map_option ps_quantity (ix_position_snapshot (oi_context intent)))"

definition submit_compliance_input ::
  "exec_codec \<Rightarrow> order_intent \<Rightarrow> intent_request \<Rightarrow> string \<Rightarrow> string list \<Rightarrow> instrument_status_snapshot option
   \<Rightarrow> symbol_trade_state option \<Rightarrow> compliance_input" where
  "submit_compliance_input k intent req source_type supported_order_types status state =
     \<lparr>ci_source_type = source_type, ci_has_position = intent_has_position intent,
      ci_intent_action = (if sq_side req = BUY \<and> \<not> intent_has_position intent then ''new_buy'' else ''other''),
      ci_account_ref = Some (sq_account_ref req), ci_symbol = Some (sq_symbol req), ci_market = Some (sq_market req),
      ci_strategy_id = Some (sq_strategy_id req), ci_client_order_id = Some (sq_client_order_id req),
      ci_side = Some (side_value (sq_side req)), ci_order_type = Some (order_type_value (sq_order_type req)),
      ci_quantity = Some (dec_text k (sq_quantity req)), ci_price = map_option (dec_text k) (sq_price req),
      ci_tr_stop_yn = Option.bind status iss_tr_stop_yn, ci_admn_item_yn = Option.bind status iss_admn_item_yn,
      ci_nxt_tr_stop_yn = Option.bind status iss_nxt_tr_stop_yn, ci_temp_stop_yn = Option.bind status iss_temp_stop_yn,
      ci_iscd_stat_cls_code = Option.bind status iss_iscd_stat_cls_code,
      ci_status_reason_codes = (case status of None \<Rightarrow> [] | Some s \<Rightarrow> iss_status_reason_codes s),
      ci_status_snapshot_at = map_option iss_snapshot_at status, ci_status_source_type = map_option iss_source_type status,
      ci_allow_unknown_status_for_sell = True,
      ci_blocked_reason_codes =
        (case ix_risk_limit_snapshot (oi_context intent) of None \<Rightarrow> [] | Some s \<Rightarrow> rl_blocked_reason_codes s),
      ci_supported_order_types = supported_order_types, ci_holding_profile = Option.bind state ts_holding_profile,
      ci_earliest_reduce_at =
        holding_time (xk_text k) state ''earliest_reduce_at'' ''minimum_hold_until'' ts_minimum_hold_until,
      ci_earliest_reentry_at =
        holding_time (xk_text k) state ''earliest_reentry_at'' ''reentry_cooldown_until'' ts_reentry_cooldown_until\<rparr>"

definition evaluate_submit_time_compliance_validation_result ::
  "exec_codec \<Rightarrow> env \<Rightarrow> repos \<Rightarrow> (uuid \<times> instrument_status_snapshot) list \<Rightarrow> trade_state_store \<Rightarrow> order_intent
   \<Rightarrow> intent_request \<Rightarrow> string \<Rightarrow> string list \<Rightarrow> validation_result" where
  "evaluate_submit_time_compliance_validation_result k ev r snapshots states intent req source_type supported_order_types =
     (let ins = instrument_of_symbol r (sq_symbol req) (sq_market req);
          status = Option.bind ins (\<lambda>i. latest_status snapshots (in_instrument_id i));
          state = (case (ins, intent_account intent) of
                     (Some i, Some a) \<Rightarrow> trade_state_get states a (in_instrument_id i) | _ \<Rightarrow> None)
      in evaluate_compliance_rules (xk_text k) (now_at ev ''window'') (now_at ev ''rules'') (now_at ev ''result'')
           (build_validation_context (xk_text k) (xk_parse_uuid k) (map_option Id_Uuid (oi_decision_context_id intent)) None None
              None (Some (sq_symbol req)) (Some (sq_market req)) (Some (side_value (sq_side req))) (Some source_type) None
              [(''phase'', JvStr ''submit_time_compliance'')] [])
           (submit_compliance_input k intent req source_type supported_order_types status state))"

section \<open>Freshness of snapshots\<close>

record account_snapshot_freshness =
  af_account_id :: uuid
  af_latest_cash_snapshot_at :: "timestamp option"
  af_latest_position_snapshot_at :: "timestamp option"
  af_is_cash_stale :: bool
  af_is_position_stale :: bool
  af_is_stale :: bool

definition cash_latest_by_account ::
  "(uuid \<times> cash_balance_snapshot) list \<Rightarrow> uuid \<Rightarrow> cash_balance_snapshot option" where
  "cash_latest_by_account items account_id =
     (case sort_key (\<lambda>x. - cs_snapshot_at x) (filter (\<lambda>x. cs_account_id x = account_id) (map snd items)) of
        [] \<Rightarrow> None | x # _ \<Rightarrow> Some x)"

definition check_account_snapshot_freshness ::
  "timestamp \<Rightarrow> int \<Rightarrow> (uuid \<times> cash_balance_snapshot) list \<Rightarrow> sell_repos \<Rightarrow> uuid \<Rightarrow> account_snapshot_freshness" where
  "check_account_snapshot_freshness now threshold cash positions account_id =
     (case cash_latest_by_account cash account_id of
        None \<Rightarrow>
          \<lparr>af_account_id = account_id, af_latest_cash_snapshot_at = None, af_latest_position_snapshot_at = None,
           af_is_cash_stale = True, af_is_position_stale = True, af_is_stale = True\<rparr>
      | Some c \<Rightarrow>
          (let held = filter (\<lambda>s. 0 < ps_quantity s) (position_list_latest_by_account positions account_id);
               latest = (if held = [] then None else Some (Max (set (map ps_snapshot_at held))));
               cash_stale = seconds threshold < now - cs_snapshot_at c;
               position_stale = (case latest of None \<Rightarrow> False | Some t \<Rightarrow> seconds threshold < now - t)
           in \<lparr>af_account_id = account_id, af_latest_cash_snapshot_at = Some (cs_snapshot_at c),
               af_latest_position_snapshot_at = latest, af_is_cash_stale = cash_stale,
               af_is_position_stale = position_stale, af_is_stale = cash_stale \<or> position_stale\<rparr>))"

record sync_health =
  hl_last_status :: "string option"
  hl_last_successful_run_at :: "timestamp option"
  hl_is_stale :: bool

definition get_sync_health_summary :: "timestamp \<Rightarrow> int \<Rightarrow> snapshot_sync_run list \<Rightarrow> sync_health" where
  "get_sync_health_summary now threshold runs =
     (case sort_key (\<lambda>x. - sn_started_at x) runs of
        [] \<Rightarrow> \<lparr>hl_last_status = None, hl_last_successful_run_at = None, hl_is_stale = True\<rparr>
      | x # xs \<Rightarrow>
          (let ok = map_option sn_started_at (find_first (\<lambda>e. sn_status e = ''completed'') (x # xs))
           in \<lparr>hl_last_status = Some (sn_status x), hl_last_successful_run_at = ok,
               hl_is_stale = (case ok of None \<Rightarrow> True | Some t \<Rightarrow> seconds threshold < now - t)\<rparr>))"

end
