(* ===== verification/Execution.thy ===== *)
theory Execution
  imports Execution_Guards Order_Sync
begin

text \<open>
  The execution pipeline (\<^verbatim>\<open>ExecutionService.run_execution_pipeline\<close> and \<^verbatim>\<open>_resolve_quote\<close> in
  \<^verbatim>\<open>services/execution_service.py\<close>): from an intent to an order at the broker, in the stages of the code.
  A stage goes on, stops with a result, or raises.

  \<open>exec_world\<close> holds the repositories of the order synchronisation and the ones only the pipeline uses, the
  quote cache of the service and the phase trace (without the elapsed times that the caller adds to it).
  Answers of the broker, what other coroutines do while a call waits, and a post-submit synchronisation that
  is cut off after its timeout are fields of \<open>pipeline_setting\<close>.
\<close>

section \<open>State\<close>

record execution_attempt =
  ea_execution_attempt_id :: uuid
  ea_trade_decision_id :: uuid
  ea_decision_context_id :: uuid
  ea_status :: string
  ea_started_at :: timestamp
  ea_stop_phase :: "string option"
  ea_stop_reason :: "string option"
  ea_phase_trace :: "(string \<times> string) list option"
  ea_order_request_id :: "uuid option"
  ea_completed_at :: "timestamp option"
  ea_created_at :: "timestamp option"

record stored_decision = trade_decision +
  td_target_quantity :: "py_decimal option"
  td_target_notional :: "py_decimal option"

record exec_world =
  xw_sync :: sync_world
  xw_trade_states :: trade_state_store
  xw_attempts :: "(uuid \<times> execution_attempt) list"
  xw_decisions :: "(uuid \<times> stored_decision) list"
  xw_guardrails :: guardrail_store
  xw_cash :: "(uuid \<times> cash_balance_snapshot) list"
  xw_statuses :: "(uuid \<times> instrument_status_snapshot) list"
  xw_sync_runs :: "snapshot_sync_run list"
  xw_quote_failures :: "(string \<times> nat) list"
  xw_quote_skip_until :: "(string \<times> timestamp) list"
  xw_quote_cache :: "(string \<times> quote \<times> timestamp) list"
  xw_trace :: "(string \<times> string) list"

abbreviation xw_base :: "exec_world \<Rightarrow> repos" where "xw_base w \<equiv> sy_base (xw_sync w)"

record pipeline_setting =
  pe_codec :: exec_codec
  pe_env :: env
  pe_trade_decision_id :: "uuid option"
  pe_policy_git_sha :: "string option"
  pe_stale_threshold_seconds :: int
  pe_actor_type :: string
  pe_actor_id :: string
  pe_quotes :: "nat \<Rightarrow> string + quote"
  pe_supported_order_types :: "order_error + order_type list"
  pe_submission :: broker_outcome
  pe_duration :: int
  pe_sync :: "setting option"
  pe_sync_cut :: "(sync_world \<Rightarrow> sync_world) option"
  pe_others :: "string \<Rightarrow> interference"
  pe_waits :: "string \<times> nat \<Rightarrow> exec_world \<Rightarrow> exec_world"

definition place_env :: "pipeline_setting \<Rightarrow> string \<Rightarrow> env" where
  "place_env p l = inside l 0 (pe_env p)"

section \<open>Results\<close>

datatype error_note =
    Note string
  | Create_Failed order_error
  | Transition_Failed order_status order_error
  | Submit_Failed order_error
  | Stale_Account uuid bool bool int
  | Stale_Run "timestamp option" int

record pipeline_result =
  ur_order_intent :: order_intent
  ur_phase_trace :: "(string \<times> string) list"
  ur_submit_response :: "order_request option"
  ur_error_message :: "error_note option"
  ur_is_submitted :: bool
  ur_is_skipped :: bool
  ur_trade_decision_id :: "uuid option"
  ur_stop_reason :: "string option"
  ur_status :: string
  ur_error_phase :: "string option"
  ur_decision_context_id :: "uuid option"

datatype pipeline_error = Order_Raise order_error | Attribute_Error

datatype 'a step = Go 'a | Stop pipeline_result | Raise pipeline_error

definition proceed :: "'a step \<times> exec_world \<Rightarrow> ('a \<Rightarrow> exec_world \<Rightarrow> 'b step \<times> exec_world) \<Rightarrow> 'b step \<times> exec_world" where
  "proceed x f = (case x of (Go a, w) \<Rightarrow> f a w | (Stop r, w) \<Rightarrow> (Stop r, w) | (Raise e, w) \<Rightarrow> (Raise e, w))"

definition add_phase :: "string \<Rightarrow> order_intent \<Rightarrow> string \<Rightarrow> exec_world \<Rightarrow> exec_world" where
  "add_phase phase intent status w =
     w\<lparr>xw_trace := xw_trace w @ [(phase @ ''/'' @ sq_symbol (oi_request intent), status)]\<rparr>"

definition attempt_update_status ::
  "uuid \<Rightarrow> string \<Rightarrow> string \<Rightarrow> string \<Rightarrow> (string \<times> string) list \<Rightarrow> uuid option \<Rightarrow> timestamp
   \<Rightarrow> (uuid \<times> execution_attempt) list \<Rightarrow> (uuid \<times> execution_attempt) list" where
  "attempt_update_status i status stop_phase stop_reason trace order_request_id completed_at items =
     (case map_of items i of
        None \<Rightarrow> items
      | Some e \<Rightarrow>
          AList.update i
            (e\<lparr>ea_status := status, ea_stop_phase := Some stop_phase, ea_stop_reason := Some stop_reason,
               ea_phase_trace := Some trace,
               ea_order_request_id := (case order_request_id of None \<Rightarrow> ea_order_request_id e | Some x \<Rightarrow> Some x),
               ea_completed_at := Some completed_at\<rparr>) items)"

definition finalize_attempt ::
  "pipeline_setting \<Rightarrow> uuid option \<Rightarrow> string \<Rightarrow> string \<Rightarrow> string \<Rightarrow> uuid option \<Rightarrow> exec_world \<Rightarrow> exec_world" where
  "finalize_attempt p attempt_id status stop_phase stop_reason order_request_id w =
     (case attempt_id of
        None \<Rightarrow> w
      | Some i \<Rightarrow>
          w\<lparr>xw_attempts := attempt_update_status i status stop_phase stop_reason (xw_trace w) order_request_id
              (now_at (pe_env p) ''completed_at'') (xw_attempts w)\<rparr>)"

text \<open>An attempt is finalised and the pipeline returns without a submission.\<close>

definition give_up ::
  "pipeline_setting \<Rightarrow> uuid option \<Rightarrow> order_intent \<Rightarrow> string \<Rightarrow> string \<Rightarrow> string \<Rightarrow> uuid option \<Rightarrow> error_note \<Rightarrow> string
   \<Rightarrow> string option \<Rightarrow> exec_world \<Rightarrow> 'a step \<times> exec_world" where
  "give_up p attempt_id intent attempt_status stop_phase stop_reason order_request_id error status error_phase w =
     (Stop
        \<lparr>ur_order_intent = intent, ur_phase_trace = xw_trace w, ur_submit_response = None, ur_error_message = Some error,
         ur_is_submitted = False, ur_is_skipped = (status = ''SKIPPED''), ur_trade_decision_id = pe_trade_decision_id p,
         ur_stop_reason = Some stop_reason, ur_status = status, ur_error_phase = error_phase,
         ur_decision_context_id = oi_decision_context_id intent\<rparr>,
      finalize_attempt p attempt_id attempt_status stop_phase stop_reason order_request_id w)"

definition keep_validation ::
  "pipeline_setting \<Rightarrow> string \<Rightarrow> order_intent \<Rightarrow> validation_result \<Rightarrow> uuid option \<Rightarrow> exec_world \<Rightarrow> exec_world" where
  "keep_validation p l intent r order_request_id w =
     w\<lparr>xw_guardrails := record_validation_result (pe_codec p) (pe_policy_git_sha p) (place_env p l) r
         (oi_decision_context_id intent) (pe_trade_decision_id p) order_request_id (xw_guardrails w)\<rparr>"

text \<open>Use of the order manager on the repositories of the pipeline.\<close>

definition with_manager :: "(order_manager \<Rightarrow> 'a \<times> order_manager) \<Rightarrow> exec_world \<Rightarrow> 'a \<times> exec_world" where
  "with_manager f w = (let (a, m) = f (manager_of (xw_sync w)) in (a, w\<lparr>xw_sync := put_manager m (xw_sync w)\<rparr>))"

section \<open>The attempt and the quote\<close>

definition start_attempt :: "pipeline_setting \<Rightarrow> order_intent \<Rightarrow> exec_world \<Rightarrow> uuid option \<times> exec_world" where
  "start_attempt p intent w =
     (case (pe_trade_decision_id p, oi_decision_context_id intent) of
        (Some t, Some d) \<Rightarrow>
          (let now = now_at (pe_env p) ''attempt''; i = uuid_at (pe_env p) ''attempt''
           in (Some i, w\<lparr>xw_attempts := AList.update i
                 \<lparr>ea_execution_attempt_id = i, ea_trade_decision_id = t, ea_decision_context_id = d,
                  ea_status = ''running'', ea_started_at = now, ea_stop_phase = None, ea_stop_reason = None,
                  ea_phase_trace = None, ea_order_request_id = None, ea_completed_at = None, ea_created_at = Some now\<rparr>
                 (xw_attempts w)\<rparr>))
      | _ \<Rightarrow> (None, w))"

definition circuit_breaker_threshold :: nat where "circuit_breaker_threshold = 3"
definition circuit_breaker_cooldown :: int where "circuit_breaker_cooldown = 60"
definition quote_cache_ttl :: int where "quote_cache_ttl = 180"

definition quote_price :: "quote \<Rightarrow> rat option" where
  "quote_price q =
     (if positive (qt_last q) then qt_last q else if positive (qt_ask q) then qt_ask q
      else if positive (qt_bid q) then qt_bid q else None)"

text \<open>Up to two calls; only the broker's rate limit is tried again.\<close>

fun fetch_quote :: "pipeline_setting \<Rightarrow> order_intent \<Rightarrow> nat \<Rightarrow> nat \<Rightarrow> exec_world \<Rightarrow> quote option \<times> exec_world" where
  "fetch_quote p intent attempt 0 w = (None, w)"
| "fetch_quote p intent attempt (Suc n) w =
     (let symbol = sq_symbol (oi_request intent); w = pe_waits p (''quote'', attempt) w
      in case pe_quotes p attempt of
           Inr q \<Rightarrow>
             (Some q, add_phase ''quote_resolution'' intent ''ok''
                (w\<lparr>xw_quote_cache := AList.update symbol (q, now_at (pe_env p) ''cached_at'') (xw_quote_cache w),
                   xw_quote_failures := AList.delete symbol (xw_quote_failures w)\<rparr>))
         | Inl text \<Rightarrow>
             if contains_text ''EGW00201'' text \<and> n \<noteq> 0
             then fetch_quote p intent (Suc attempt) n (pe_waits p (''backoff'', attempt) w)
             else (None, w))"

definition note_quote_failure :: "pipeline_setting \<Rightarrow> order_intent \<Rightarrow> exec_world \<Rightarrow> exec_world" where
  "note_quote_failure p intent w =
     (let symbol = sq_symbol (oi_request intent);
          failures = (case map_of (xw_quote_failures w) symbol of None \<Rightarrow> 0 | Some n \<Rightarrow> n) + 1
      in w\<lparr>xw_quote_failures := AList.update symbol failures (xw_quote_failures w),
           xw_quote_skip_until :=
             (if circuit_breaker_threshold \<le> failures
              then AList.update symbol (now_at (pe_env p) ''breaker'' + seconds circuit_breaker_cooldown) (xw_quote_skip_until w)
              else xw_quote_skip_until w)\<rparr>)"

definition empty_quote :: "pipeline_setting \<Rightarrow> order_intent \<Rightarrow> quote" where
  "empty_quote p intent =
     \<lparr>qt_symbol = sq_symbol (oi_request intent), qt_market = sq_market (oi_request intent), qt_bid = None, qt_ask = None,
      qt_last = None, qt_as_of = now_at (pe_env p) ''as_of'', qt_accumulated_volume = None,
      qt_accumulated_turnover = None\<rparr>"

definition cached_quote :: "pipeline_setting \<Rightarrow> order_intent \<Rightarrow> exec_world \<Rightarrow> quote option \<times> exec_world" where
  "cached_quote p intent w =
     (let symbol = sq_symbol (oi_request intent)
      in case map_of (xw_quote_cache w) symbol of
           None \<Rightarrow> (None, w)
         | Some (q, cached_at) \<Rightarrow>
             if now_at (pe_env p) ''cache'' - cached_at < seconds quote_cache_ttl
             then (Some q, add_phase ''quote_resolution'' intent ''cache_hit'' w)
             else (None, w\<lparr>xw_quote_cache := AList.delete symbol (xw_quote_cache w)\<rparr>))"

definition resolve_quote ::
  "pipeline_setting \<Rightarrow> order_intent \<Rightarrow> bool \<Rightarrow> exec_world \<Rightarrow> (quote option \<times> rat option) \<times> exec_world" where
  "resolve_quote p intent is_hp_sell w =
     (if is_hp_sell then ((None, None), w)
      else
        (let w = add_phase ''quote_resolution'' intent ''start'' w
         in if (case map_of (xw_quote_skip_until w) (sq_symbol (oi_request intent)) of
                  None \<Rightarrow> False | Some t \<Rightarrow> now_at (pe_env p) ''skip'' < t)
            then ((None, None), add_phase ''quote_resolution'' intent ''circuit_breaker_skip'' w)
            else
              (let (cached, w) = cached_quote p intent w
               in case cached of
                    Some q \<Rightarrow> ((Some q, quote_price q), w)
                  | None \<Rightarrow>
                      (let (fetched, w) = fetch_quote p intent 0 2 w
                       in case fetched of
                            Some q \<Rightarrow> ((Some q, quote_price q), w)
                          | None \<Rightarrow>
                              ((Some (empty_quote p intent), None),
                               add_phase ''quote_resolution'' intent ''error'' (note_quote_failure p intent w))))))"

definition hp_sell :: "order_intent \<Rightarrow> bool" where
  "hp_sell intent =
     is_held_position_sell_path (Some (ix_source_type (oi_context intent)))
       (Some (ai_decision_type (oi_ai_backend_inputs intent))) (Some (side_value (sq_side (oi_request intent))))"

definition quote_stage :: "pipeline_setting \<Rightarrow> order_intent \<Rightarrow> exec_world \<Rightarrow> (quote option \<times> rat option) \<times> exec_world" where
  "quote_stage p intent w =
     (if hp_sell intent then ((None, None), w)
      else if sq_price (oi_request intent) = None then resolve_quote p intent False w
      else ((None, None), w))"

section \<open>Before an order exists\<close>

definition sync_execution_sizing ::
  "uuid \<Rightarrow> py_decimal \<Rightarrow> py_decimal option \<Rightarrow> json_dict \<Rightarrow> (uuid \<times> stored_decision) list \<Rightarrow> (uuid \<times> stored_decision) list" where
  "sync_execution_sizing i quantity max_order_value payload items =
     (case map_of items i of
        None \<Rightarrow> items
      | Some d \<Rightarrow>
          AList.update i
            (d\<lparr>td_quantity := Some quantity, td_target_quantity := Some quantity, td_max_order_value := max_order_value,
               td_target_notional := max_order_value,
               td_decision_json := AList.update ''execution_sizing'' (JvObj payload) (td_decision_json d)\<rparr>) items)"

definition sync_trade_decision_execution_sizing ::
  "pipeline_setting \<Rightarrow> rat option \<Rightarrow> rat \<Rightarrow> rat \<Rightarrow> sizing_result \<Rightarrow> exec_world \<Rightarrow> exec_world" where
  "sync_trade_decision_execution_sizing p price original_request_quantity effective_qty r w =
     (case pe_trade_decision_id p of
        None \<Rightarrow> w
      | Some i \<Rightarrow>
          (let k = pe_codec p; max_order_value = calculate_max_order_value price (Some effective_qty)
           in w\<lparr>xw_decisions := sync_execution_sizing i (xk_decimal k effective_qty)
                  (map_option (xk_decimal k) max_order_value)
                  [(''requested_quantity_before_sizing'', JvStr (dec_text k original_request_quantity)),
                   (''resolved_quantity'', JvStr (dec_text k effective_qty)),
                   (''max_order_value'', opt_dec k max_order_value),
                   (''applied_constraints'', JvList (map JvStr (sr_applied_constraints r))),
                   (''skip_reason'', opt_text (sr_skip_reason r)),
                   (''sizing_result_max_order_value'', opt_dec k (sr_max_order_value r))]
                  (xw_decisions w)\<rparr>))"

definition with_quantity :: "rat \<Rightarrow> order_intent \<Rightarrow> order_intent" where
  "with_quantity q intent = intent\<lparr>oi_request := (oi_request intent)\<lparr>sq_quantity := q\<rparr>\<rparr>"

definition is_market_buy :: "order_intent \<Rightarrow> bool" where
  "is_market_buy intent \<longleftrightarrow>
     sq_side (oi_request intent) = BUY \<and> sq_price (oi_request intent) = None \<and> sq_order_type (oi_request intent) = MARKET"

text \<open>The quantity to order: a sale outside the held-position path falls back to the requested quantity.\<close>

definition effective_quantity :: "order_intent \<Rightarrow> sizing_result \<Rightarrow> rat" where
  "effective_quantity intent r =
     (let req = oi_request intent
      in if sr_quantity r \<le> 0 \<and> sq_side req = SELL \<and> \<not> hp_sell intent \<and> 0 < sq_quantity req
         then sq_quantity req else sr_quantity r)"

definition quantity_stage ::
  "pipeline_setting \<Rightarrow> uuid option \<Rightarrow> order_intent \<Rightarrow> quote option \<Rightarrow> rat option \<Rightarrow> exec_world
   \<Rightarrow> (order_intent \<times> sizing_result \<times> rat option) step \<times> exec_world" where
  "quantity_stage p a intent q reference_price w =
     (let w = add_phase ''sizing'' intent ''start'' w;
          found = map_option fst (resolve_market_buy_reference_price intent reference_price)
      in if is_market_buy intent \<and> found = None
         then give_up p a intent ''stopped'' ''sizing'' ''missing_reference_price_for_market_buy'' None
                (Note ''missing_reference_price_for_market_buy'') ''SKIPPED'' (Some ''sizing'')
                (add_phase ''sizing'' intent ''skipped_missing_reference_price'' w)
         else
           (let price = (if is_market_buy intent then found else reference_price)
            in case build_sizing_inputs intent q price of
                 None \<Rightarrow> (Raise Attribute_Error, w)
               | Some inputs \<Rightarrow>
                   (let r = calculate_sizing inputs; effective_qty = effective_quantity intent r
                    in if effective_qty \<le> 0
                       then
                         (let w = sync_trade_decision_execution_sizing p (sq_price (oi_request intent))
                                    (sq_quantity (oi_request intent)) 0 r w;
                              (attempt_status, stop_reason, error_message) =
                                resolve_zero_quantity_outcome (ai_decision_type (oi_ai_backend_inputs intent)) r
                          in give_up p a intent attempt_status ''sizing'' stop_reason None (Note error_message) ''SKIPPED''
                               (Some ''sizing'') (add_phase ''sizing'' intent ''skipped'' w))
                       else (Go (with_quantity effective_qty intent, r, price), w))))"

definition force_limit :: "json_dict \<Rightarrow> order_intent \<Rightarrow> order_intent" where
  "force_limit metadata intent =
     (case decimal_or_none (map_of metadata ''limit_price'') of
        None \<Rightarrow> intent
      | Some price \<Rightarrow>
          intent\<lparr>oi_request := (oi_request intent)\<lparr>sq_order_type := LIMIT, sq_price := Some price,
            iq_metadata := AList.update ''execution_liquidity_policy'' (JvObj metadata) (iq_metadata (oi_request intent))\<rparr>\<rparr>)"

definition liquidity_stage ::
  "pipeline_setting \<Rightarrow> uuid option \<Rightarrow> rat \<Rightarrow> quote option \<Rightarrow> order_intent \<times> sizing_result \<times> rat option \<Rightarrow> exec_world
   \<Rightarrow> order_intent step \<times> exec_world" where
  "liquidity_stage p a requested q sized w =
     (let (intent, r, price) = sized; src = ix_source_type (oi_context intent);
          w = add_phase ''execution_liquidity'' intent ''start'' w;
          (policy, reason, metadata) = classify_buy_execution_liquidity_policy (pe_codec p) intent src q price r
      in if policy = ''block''
         then
           (let result = evaluate_buy_execution_liquidity_validation_result (pe_codec p) (place_env p ''liquidity'')
                  (intent_account intent) (sq_symbol (oi_request intent)) (sq_market (oi_request intent)) src reason metadata
            in give_up p a intent ''stopped'' ''execution_liquidity'' ''low_liquidity_execution_blocked'' None (Note reason)
                 ''SKIPPED'' (Some ''execution_liquidity'')
                 (add_phase ''execution_liquidity'' intent ''skipped'' (keep_validation p ''liquidity'' intent result None w)))
         else
           (let intent = (if policy = ''force_limit'' then force_limit metadata intent else intent);
                w = add_phase ''execution_liquidity'' intent ''ok'' w;
                w = sync_trade_decision_execution_sizing p (sq_price (oi_request intent)) requested
                      (sq_quantity (oi_request intent)) r w
            in (Go intent, add_phase ''sizing'' intent ''ok'' w)))"

text \<open>A guard that raises lets the sale through.\<close>

definition sell_guard_stage ::
  "pipeline_setting \<Rightarrow> uuid option \<Rightarrow> order_intent \<Rightarrow> exec_world \<Rightarrow> unit step \<times> exec_world" where
  "sell_guard_stage p a intent w =
     (let w = add_phase ''sell_guard'' intent ''start'' w; req = oi_request intent
      in case (sq_side req, intent_account intent) of
           (SELL, Some account_id) \<Rightarrow>
             (case sell_guard_resolve (place_env p ''sell_guard'') (sy_repos (xw_sync w)) account_id (sq_symbol req)
                     (sq_quantity req) of
                Inl _ \<Rightarrow> (Go (), w)
              | Inr avail \<Rightarrow>
                  if sa_is_blocked avail
                  then
                    (let result = evaluate_sell_guard_validation_result (pe_codec p) (place_env p ''sell_guard'') account_id
                           (sq_symbol req) (sq_quantity req) avail
                     in give_up p a intent ''stopped'' ''sell_guard'' ''sell_guard_blocked'' None
                          (Note (or_text (blocking_text (pe_codec p) avail) ''Sell guard blocked duplicate sell'')) ''SKIPPED'' None
                          (add_phase ''sell_guard'' intent ''skipped'' (keep_validation p ''sell_guard'' intent result None w)))
                  else (Go (), w))
         | _ \<Rightarrow> (Go (), w))"

definition translation_stage ::
  "pipeline_setting \<Rightarrow> uuid option \<Rightarrow> order_intent \<Rightarrow> exec_world \<Rightarrow> intent_request step \<times> exec_world" where
  "translation_stage p a intent w =
     (case build_submit_order_request_from_decision (pe_codec p) (now_at (pe_env p) ''client_order_id'') intent None of
        Some req \<Rightarrow> (Go req, w)
      | None \<Rightarrow>
          (let d = ai_decision_type (oi_ai_backend_inputs intent);
               reason = (if d = ''HOLD'' then ''decision_hold'' else ''decision_watch'')
           in give_up p a intent ''non_trade'' ''translation'' reason None
                (Note (''Decision type '' @ [CHR 0x27] @ d @ [CHR 0x27] @ '' produced no order request'')) ''SKIPPED'' None
                (add_phase ''translation'' intent ''skipped'' w)))"

definition probe_stage ::
  "pipeline_setting \<Rightarrow> uuid option \<Rightarrow> order_intent \<Rightarrow> rat option \<Rightarrow> exec_world \<Rightarrow> unit step \<times> exec_world" where
  "probe_stage p a intent price w =
     (let req = oi_request intent; src = ix_source_type (oi_context intent);
          passed = (Go (), add_phase ''translation'' intent ''ok'' w)
      in if sq_side req \<noteq> BUY then passed
         else
           (case classify_single_share_probe_churn_policy (pe_codec p) (place_env p ''probe'') (xw_base w) intent src price of
              Inl e \<Rightarrow> (Raise (Order_Raise e), w)
            | Inr (policy, reason, metadata) \<Rightarrow>
                if policy = ''block''
                then
                  (let result = evaluate_probe_churn_validation_result (pe_codec p) (place_env p ''probe'')
                         (intent_account intent) (sq_symbol req) (sq_market req) reason metadata src
                   in give_up p a intent ''stopped'' ''probe_churn_guard'' reason None (Note reason) ''SKIPPED''
                        (Some ''probe_churn_guard'')
                        (add_phase ''probe_churn_guard'' intent ''skipped'' (keep_validation p ''probe'' intent result None w)))
                else passed))"

definition compliance_stage ::
  "pipeline_setting \<Rightarrow> uuid option \<Rightarrow> order_intent \<Rightarrow> intent_request \<Rightarrow> exec_world \<Rightarrow> unit step \<times> exec_world" where
  "compliance_stage p a intent req w =
     (let w = pe_waits p (''capabilities'', 0) w
      in case pe_supported_order_types p of
           Inl e \<Rightarrow> (Raise (Order_Raise e), w)
         | Inr types \<Rightarrow>
             (let result = evaluate_submit_time_compliance_validation_result (pe_codec p) (place_env p ''compliance'')
                    (xw_base w) (xw_statuses w) (xw_trade_states w) intent req (ix_source_type (oi_context intent))
                    (map order_type_value types);
                  decision_json = map_option td_decision_json
                    (Option.bind (pe_trade_decision_id p) (map_of (xw_decisions w)));
                  result = enrich_compliance_validation_with_ai_alignment (pe_codec p) decision_json result;
                  w = (if should_persist_compliance_validation_telemetry (pe_codec p) result
                       then keep_validation p ''compliance'' intent result None w else w)
              in if is_blocking result
                 then
                   (let reason = or_text (vr_stop_reason result) ''compliance_blocked''
                    in give_up p a intent ''stopped'' ''compliance_validator'' reason None (Note reason) ''SKIPPED''
                         (Some ''compliance_validator'') (add_phase ''compliance_validator'' intent ''skipped'' w))
                 else (Go (), w)))"

definition var_stage ::
  "pipeline_setting \<Rightarrow> uuid option \<Rightarrow> order_intent \<Rightarrow> exec_world \<Rightarrow> unit step \<times> exec_world" where
  "var_stage p a intent w =
     (case evaluate_var_threshold_validation_result (pe_codec p) (place_env p ''var'') intent
             (ix_source_type (oi_context intent)) of
        None \<Rightarrow> (Raise Attribute_Error, w)
      | Some result \<Rightarrow>
          if is_blocking result
          then
            (let reason = or_text (vr_stop_reason result) ''risk_validator_blocked''
             in give_up p a intent ''stopped'' ''risk_validator'' reason None (Note reason) ''SKIPPED'' (Some ''risk_validator'')
                  (add_phase ''risk_validator'' intent ''skipped'' (keep_validation p ''var'' intent result None w)))
          else (Go (), w))"

text \<open>A blocking reconciliation lock takes precedence: the order manager then marks the order itself.\<close>

definition duplicate_stage ::
  "pipeline_setting \<Rightarrow> uuid option \<Rightarrow> order_intent \<Rightarrow> exec_world \<Rightarrow> unit step \<times> exec_world" where
  "duplicate_stage p a intent w =
     (let req = oi_request intent
      in if sq_side req \<noteq> BUY then (Go (), w)
         else
           (case (case intent_account intent of
                    Some i \<Rightarrow> Some i | None \<Rightarrow> account_of_alias (xw_base w) (sq_account_ref req)) of
              None \<Rightarrow> (Go (), w)
            | Some account_id \<Rightarrow>
                (let (locked, w) = with_manager
                       (has_active_reconciliation_lock (now_at (pe_env p) ''lock'') account_id (sq_symbol req) BUY) w
                 in if locked then (Go (), w)
                    else
                      (case has_recent_active_buy_order (xw_base w) account_id (sq_symbol req) (sq_market req)
                              (now_at (pe_env p) ''created_after'' - seconds buy_duplicate_cooldown_seconds) of
                         Inl e \<Rightarrow> (Raise (Order_Raise e), w)
                       | Inr None \<Rightarrow> (Go (), w)
                       | Inr (Some existing) \<Rightarrow>
                           (let result = evaluate_buy_duplicate_validation_result (pe_codec p) (place_env p ''duplicate'')
                                  account_id (sq_symbol req) (sq_market req) (Some existing)
                            in give_up p a intent ''stopped'' ''buy_duplicate_guard'' ''recent_active_buy_order'' None
                                 (Note ''recent_active_buy_order'') ''SKIPPED'' (Some ''buy_duplicate_guard'')
                                 (add_phase ''buy_duplicate_guard'' intent ''skipped''
                                    (keep_validation p ''duplicate'' intent result None w)))))))"

section \<open>The order\<close>

definition create_stage ::
  "pipeline_setting \<Rightarrow> uuid option \<Rightarrow> order_intent \<Rightarrow> intent_request \<Rightarrow> exec_world \<Rightarrow> order_request step \<times> exec_world" where
  "create_stage p a intent req w =
     (let w = add_phase ''order_create'' intent ''start'' w; k = pe_codec p
      in case with_manager (create_order (place_env p ''create'') (xk_digest k) (dec_text k) (xk_parse_uuid k)
                (submit_order_request.truncate req) (pe_actor_type p) (pe_actor_id p)) w of
           (Inr order, w) \<Rightarrow> (Go order, w)
         | (Inl e, w) \<Rightarrow>
             give_up p a intent ''stopped'' ''order_create'' ''order_create_failed'' None (Create_Failed e) ''ERROR''
               (Some ''order_create'') (add_phase ''order_create'' intent ''error'' w))"

definition transition_stage ::
  "pipeline_setting \<Rightarrow> uuid option \<Rightarrow> string \<Rightarrow> string \<Rightarrow> order_status \<Rightarrow> order_intent \<Rightarrow> order_request \<Rightarrow> exec_world
   \<Rightarrow> order_request step \<times> exec_world" where
  "transition_stage p a l phase target intent order w =
     (let w = add_phase phase intent ''start'' w
      in case with_manager (transition_to (place_env p l) (pe_others p l) order target None None (pe_actor_type p)
                (pe_actor_id p) 3 False) w of
           (Inr moved, w) \<Rightarrow> (Go moved, w)
         | (Inl e, w) \<Rightarrow>
             give_up p a intent ''stopped'' ''transition'' ''transition_failed'' (Some (or_order_request_id order))
               (Transition_Failed target e) ''ERROR'' (Some ''transition'') w)"

definition link_order :: "pipeline_setting \<Rightarrow> order_intent \<Rightarrow> order_request \<Rightarrow> exec_world \<Rightarrow> exec_world" where
  "link_order p intent order w =
     w\<lparr>xw_trade_states := sync_symbol_trade_state_order_link (xk_text (pe_codec p)) (now_at (pe_env p) ''link'') (xw_base w)
         \<lparr>il_symbol = sq_symbol (oi_request intent), il_market = sq_market (oi_request intent),
          il_side = sq_side (oi_request intent), il_decision_type = ai_decision_type (oi_ai_backend_inputs intent),
          il_reason_codes = ai_reason_codes (oi_ai_backend_inputs intent),
          il_decision_context = ix_decision_context (oi_context intent)\<rparr>
         (or_order_request_id order) (pe_trade_decision_id p) (xw_trade_states w)\<rparr>"

definition opt_datetime :: "exec_codec \<Rightarrow> timestamp option \<Rightarrow> jval" where
  "opt_datetime k t = (case t of None \<Rightarrow> JvNull | Some x \<Rightarrow> JvStr (xk_datetime k x))"

text \<open>The verdict of the guard: the code, the recorded values and the message of a block.\<close>

definition stale_verdict ::
  "pipeline_setting \<Rightarrow> order_intent \<Rightarrow> exec_world \<Rightarrow> (string \<times> json_dict \<times> error_note) option" where
  "stale_verdict p intent w =
     (let k = pe_codec p; threshold = pe_stale_threshold_seconds p
      in case intent_account intent of
           Some account_id \<Rightarrow>
             (let f = check_account_snapshot_freshness (now_at (pe_env p) ''freshness'') threshold (xw_cash w)
                    (sy_repos (xw_sync w)) account_id
              in if af_is_stale f \<and> \<not> hp_sell intent
                 then Some (''stale_snapshot_account'',
                        [(''is_stale'', JvBool True), (''stale_level'', JvStr ''account''),
                         (''latest_cash_snapshot_at'', opt_datetime k (af_latest_cash_snapshot_at f)),
                         (''latest_position_snapshot_at'', opt_datetime k (af_latest_position_snapshot_at f)),
                         (''is_cash_stale'', JvBool (af_is_cash_stale f)), (''is_position_stale'', JvBool (af_is_position_stale f)),
                         (''stale_threshold_seconds'', JvInt threshold)],
                        Stale_Account account_id (af_is_cash_stale f) (af_is_position_stale f) threshold)
                 else None)
         | None \<Rightarrow>
             (let h = get_sync_health_summary (now_at (pe_env p) ''health'') threshold (xw_sync_runs w)
              in if hl_is_stale h \<and> \<not> hp_sell intent
                 then Some (''stale_snapshot_run'',
                        [(''is_stale'', JvBool True), (''stale_level'', JvStr ''run''),
                         (''last_successful_run_at'', opt_datetime k (hl_last_successful_run_at h)),
                         (''stale_threshold_seconds'', JvInt threshold), (''last_run_status'', opt_text (hl_last_status h))],
                        Stale_Run (hl_last_successful_run_at h) threshold)
                 else None))"

definition stale_stage ::
  "pipeline_setting \<Rightarrow> uuid option \<Rightarrow> order_intent \<Rightarrow> order_request \<Rightarrow> exec_world \<Rightarrow> unit step \<times> exec_world" where
  "stale_stage p a intent order w =
     (let w = add_phase ''stale_snapshot_guard'' intent ''start'' w; req = oi_request intent
      in case stale_verdict p intent w of
           None \<Rightarrow> (Go (), w)
         | Some (code, metadata, note) \<Rightarrow>
             (let result = evaluate_stale_snapshot_validation_result (pe_codec p) (place_env p ''stale'') (intent_account intent)
                    (sq_symbol req) (sq_market req) (ix_source_type (oi_context intent)) code metadata
              in give_up p a intent ''stopped'' ''stale_snapshot_guard'' ''stale_snapshot'' (Some (or_order_request_id order))
                   note ''SKIPPED'' (Some ''stale_snapshot'')
                   (add_phase ''stale_snapshot_guard'' intent ''skipped''
                      (keep_validation p ''stale'' intent result (Some (or_order_request_id order)) w))))"

definition submit_stage ::
  "pipeline_setting \<Rightarrow> uuid option \<Rightarrow> order_intent \<Rightarrow> intent_request \<Rightarrow> order_request \<Rightarrow> exec_world
   \<Rightarrow> order_request step \<times> exec_world" where
  "submit_stage p a intent req order w =
     (let w = add_phase ''broker_submit'' intent ''start'' w
      in case with_manager (submit_order_to_broker (place_env p ''submit'') (pe_others p ''submit'') (pe_submission p)
                (pe_duration p) order (submit_order_request.truncate req) (pe_actor_type p) (pe_actor_id p)) w of
           (Inr order, w) \<Rightarrow>
             (Go order, add_phase ''broker_submit'' intent
                (case or_status order of RECONCILE_REQUIRED \<Rightarrow> ''reconcile'' | REJECTED \<Rightarrow> ''error'' | _ \<Rightarrow> ''ok'') w)
         | (Inl e, w) \<Rightarrow>
             give_up p a intent ''failed'' ''broker_submit'' ''broker_submit_failed'' (Some (or_order_request_id order))
               (Submit_Failed e) ''ERROR'' (Some ''order_submit'') (add_phase ''broker_submit'' intent ''error'' w))"

text \<open>The synchronisation after a submission: its result and its failure are ignored; a timeout leaves
  what the cancelled call had written.\<close>

definition post_submit_sync :: "pipeline_setting \<Rightarrow> order_request \<Rightarrow> exec_world \<Rightarrow> exec_world" where
  "post_submit_sync p order w =
     (case pe_sync p of
        None \<Rightarrow> w
      | Some st \<Rightarrow>
          if or_status order \<noteq> SUBMITTED then w
          else
            (case broker_orders_of_request (xw_base w) (or_order_request_id order) of
               [] \<Rightarrow> w
             | bo # _ \<Rightarrow>
                 w\<lparr>xw_sync :=
                     (case pe_sync_cut p of
                        Some left_over \<Rightarrow> left_over (xw_sync w)
                      | None \<Rightarrow> snd (sync_order_post_submit st None (bo_broker_order_id bo) (xw_sync w)))\<rparr>))"

fun result_status :: "order_status \<Rightarrow> string" where
  "result_status SUBMITTED = ''SUBMITTED''"
| "result_status RECONCILE_REQUIRED = ''RECONCILE_REQUIRED''"
| "result_status REJECTED = ''REJECTED''"
| "result_status s = ''UNEXPECTED:'' @ status_value s"

fun result_stop_reason :: "order_status \<Rightarrow> string option" where
  "result_stop_reason SUBMITTED = Some ''order_submitted''"
| "result_stop_reason RECONCILE_REQUIRED = Some ''order_reconcile_required''"
| "result_stop_reason REJECTED = Some ''order_rejected''"
| "result_stop_reason s = None"

fun final_attempt_status :: "order_status \<Rightarrow> string" where
  "final_attempt_status RECONCILE_REQUIRED = ''reconcile_required''"
| "final_attempt_status REJECTED = ''failed''"
| "final_attempt_status s = ''submitted''"

definition finish ::
  "pipeline_setting \<Rightarrow> uuid option \<Rightarrow> order_intent \<Rightarrow> intent_request \<Rightarrow> order_request \<Rightarrow> exec_world
   \<Rightarrow> pipeline_result \<times> exec_world" where
  "finish p a intent req order w =
     (let status = or_status order;
          decision_type = (let d = ai_decision_type (oi_ai_backend_inputs intent) in if d = [] then ''unknown'' else d);
          w = (if status \<in> {RECONCILE_REQUIRED, REJECTED}
               then keep_validation p ''outcome'' intent
                 (evaluate_broker_submit_outcome_validation_result (pe_codec p) (place_env p ''outcome'') (intent_account intent)
                    (sq_symbol req) (sq_market req) (ix_source_type (oi_context intent)) decision_type
                    (status_value status) (or_status_reason_code order) (the (result_stop_reason status)))
                 (Some (or_order_request_id order)) w
               else w);
          w = finalize_attempt p a (final_attempt_status status) ''completed'' (or_text (result_stop_reason status) [])
                (Some (or_order_request_id order)) w
      in (\<lparr>ur_order_intent = intent, ur_phase_trace = xw_trace w, ur_submit_response = Some order, ur_error_message = None,
           ur_is_submitted = (status = SUBMITTED), ur_is_skipped = (status \<in> {RECONCILE_REQUIRED, REJECTED}),
           ur_trade_decision_id = pe_trade_decision_id p, ur_stop_reason = result_stop_reason status,
           ur_status = result_status status, ur_error_phase = None,
           ur_decision_context_id = oi_decision_context_id intent\<rparr>, w))"

section \<open>The pipeline\<close>

text \<open>Everything before an order is created: the sized intent and the request to submit.\<close>

definition priced_stages ::
  "pipeline_setting \<Rightarrow> uuid option \<Rightarrow> order_intent \<Rightarrow> quote option \<times> rat option \<Rightarrow> exec_world
   \<Rightarrow> (order_intent \<times> intent_request) step \<times> exec_world" where
  "priced_stages p a intent priced w =
     (let (q, reference_price) = priced
      in proceed (quantity_stage p a intent q reference_price w) (\<lambda>sized w.
         proceed (liquidity_stage p a (sq_quantity (oi_request intent)) q sized w) (\<lambda>intent w.
         proceed (sell_guard_stage p a intent w) (\<lambda>_ w.
         proceed (translation_stage p a intent w) (\<lambda>req w.
         proceed (probe_stage p a intent (snd (snd sized)) w) (\<lambda>_ w.
         proceed (compliance_stage p a intent req w) (\<lambda>_ w.
         proceed (var_stage p a intent w) (\<lambda>_ w.
         proceed (duplicate_stage p a intent w) (\<lambda>_ w. (Go (intent, req), w))))))))))"

definition gate_stages ::
  "pipeline_setting \<Rightarrow> uuid option \<Rightarrow> order_intent \<Rightarrow> exec_world \<Rightarrow> (order_intent \<times> intent_request) step \<times> exec_world" where
  "gate_stages p a intent w = (let (priced, w) = quote_stage p intent w in priced_stages p a intent priced w)"

definition order_stages ::
  "pipeline_setting \<Rightarrow> uuid option \<Rightarrow> order_intent \<times> intent_request \<Rightarrow> exec_world \<Rightarrow> order_request step \<times> exec_world" where
  "order_stages p a passed w =
     (let (intent, req) = passed
      in proceed (create_stage p a intent req w) (\<lambda>order w.
         proceed (transition_stage p a ''validated'' ''transition_validated'' VALIDATED intent order w) (\<lambda>order w.
         let w = link_order p intent order w in
         proceed (stale_stage p a intent order w) (\<lambda>_ w.
         proceed (transition_stage p a ''pending'' ''transition_pending_submit'' PENDING_SUBMIT intent order w) (\<lambda>order w.
         submit_stage p a intent req order w)))))"

definition run_execution_pipeline ::
  "pipeline_setting \<Rightarrow> order_intent \<Rightarrow> exec_world \<Rightarrow> (pipeline_error + pipeline_result) \<times> exec_world" where
  "run_execution_pipeline p intent w =
     (let (a, w) = start_attempt p intent w
      in case proceed (gate_stages p a intent w) (\<lambda>passed w.
              proceed (order_stages p a passed w) (\<lambda>order w. (Go (passed, order), w))) of
           (Go ((intent, req), order), w) \<Rightarrow>
             (let (r, w) = finish p a intent req order (post_submit_sync p order w) in (Inr r, w))
         | (Stop r, w) \<Rightarrow> (Inr r, w)
         | (Raise e, w) \<Rightarrow> (Inl e, w))"

end
