(* ===== verification/Execution_Stages.thy ===== *)
theory Execution_Stages
  imports Execution
begin

text \<open>
  The stages of the execution pipeline: what each leaves alone, the contract that each keeps about the
  execution attempt (\<open>pipeline_stage\<close>, interpreted on every stage and on their composition), and what is known
  of a request that has passed a stage.
\<close>

section \<open>What the helpers leave alone\<close>

lemma add_phase_frame [simp]:
  "xw_sync (add_phase f i s w) = xw_sync w" "xw_trade_states (add_phase f i s w) = xw_trade_states w"
  "xw_attempts (add_phase f i s w) = xw_attempts w" "xw_decisions (add_phase f i s w) = xw_decisions w"
  "xw_statuses (add_phase f i s w) = xw_statuses w" "xw_cash (add_phase f i s w) = xw_cash w"
  "xw_sync_runs (add_phase f i s w) = xw_sync_runs w"
  by (simp_all add: add_phase_def)

lemma keep_validation_frame [simp]:
  "xw_sync (keep_validation p l i r oid w) = xw_sync w" "xw_trade_states (keep_validation p l i r oid w) = xw_trade_states w"
  "xw_attempts (keep_validation p l i r oid w) = xw_attempts w" "xw_trace (keep_validation p l i r oid w) = xw_trace w"
  "xw_statuses (keep_validation p l i r oid w) = xw_statuses w"
  by (simp_all add: keep_validation_def)

lemma sync_sizing_frame [simp]:
  "xw_sync (sync_trade_decision_execution_sizing p pr oq eq r w) = xw_sync w"
  "xw_trade_states (sync_trade_decision_execution_sizing p pr oq eq r w) = xw_trade_states w"
  "xw_attempts (sync_trade_decision_execution_sizing p pr oq eq r w) = xw_attempts w"
  "xw_statuses (sync_trade_decision_execution_sizing p pr oq eq r w) = xw_statuses w"
  by (simp_all add: sync_trade_decision_execution_sizing_def Let_def split: option.split)

lemma finalize_frame [simp]:
  "xw_sync (finalize_attempt p a st ph rs oid w) = xw_sync w" "xw_trace (finalize_attempt p a st ph rs oid w) = xw_trace w"
  by (simp_all add: finalize_attempt_def split: option.split)

lemma with_manager_frame [simp]:
  "xw_attempts (snd (with_manager f w)) = xw_attempts w" "xw_trade_states (snd (with_manager f w)) = xw_trade_states w"
  "xw_statuses (snd (with_manager f w)) = xw_statuses w" "xw_cash (snd (with_manager f w)) = xw_cash w"
  by (simp_all add: with_manager_def split_beta)

lemma with_manager_attempts: "with_manager f w = (r, w') \<Longrightarrow> xw_attempts w' = xw_attempts w"
  using with_manager_frame(1) [of f w] by simp

lemma link_order_frame [simp]:
  "xw_attempts (link_order p i x w) = xw_attempts w" "xw_sync (link_order p i x w) = xw_sync w"
  by (simp_all add: link_order_def)

lemma post_submit_frame [simp]: "xw_attempts (post_submit_sync p x w) = xw_attempts w"
  by (simp add: post_submit_sync_def split: option.split list.split)

lemma proceed_simps [simp]:
  "proceed (Go x, w) f = f x w" "proceed (Stop r, w) f = (Stop r, w)" "proceed (Raise e, w) f = (Raise e, w)"
  by (simp_all add: proceed_def)

section \<open>The attempt\<close>

definition attempt_finals :: "string set" where
  "attempt_finals = {''submitted'', ''failed'', ''reconcile_required'', ''non_trade'', ''stopped''}"

text \<open>What a finished attempt says: which run it was, that it is over, and the trace that the result carries.\<close>

definition closed_as :: "execution_attempt \<Rightarrow> pipeline_result \<Rightarrow> execution_attempt \<Rightarrow> bool" where
  "closed_as x r y \<longleftrightarrow>
     ea_trade_decision_id y = ea_trade_decision_id x \<and> ea_decision_context_id y = ea_decision_context_id x
     \<and> ea_status y \<in> attempt_finals \<and> ea_completed_at y \<noteq> None \<and> ea_phase_trace y = Some (ur_phase_trace r)
     \<and> (ur_is_submitted r \<longrightarrow> ea_status y = ''submitted'')"

lemma final_names [simp]:
  "''submitted'' \<in> attempt_finals" "''failed'' \<in> attempt_finals" "''reconcile_required'' \<in> attempt_finals"
  "''non_trade'' \<in> attempt_finals" "''stopped'' \<in> attempt_finals"
  by (simp_all add: attempt_finals_def)

definition keeps_attempts :: "pipeline_setting \<Rightarrow> bool" where
  "keeps_attempts p \<longleftrightarrow> (\<forall>l w. xw_attempts (pe_waits p l w) = xw_attempts w)"

lemma fetch_quote_attempts:
  "keeps_attempts p \<Longrightarrow> xw_attempts (snd (fetch_quote p intent n m w)) = xw_attempts w"
  by (induction p intent n m w rule: fetch_quote.induct) (auto simp: keeps_attempts_def Let_def split: sum.split)

lemma quote_stage_attempts: "keeps_attempts p \<Longrightarrow> xw_attempts (snd (quote_stage p intent w)) = xw_attempts w"
  using fetch_quote_attempts [of p intent 0 2]
  by (auto simp: quote_stage_def resolve_quote_def cached_quote_def note_quote_failure_def Let_def split_beta split: option.split)

lemma zero_outcome_final: "resolve_zero_quantity_outcome d r = (st, rs, e) \<Longrightarrow> st \<in> attempt_finals"
  by (auto simp: resolve_zero_quantity_outcome_def Let_def split: if_splits)

text \<open>The contract of a stage: only a stop touches the attempts, and it closes the one of the pipeline.\<close>

definition gave_up :: "pipeline_setting \<Rightarrow> uuid option \<Rightarrow> exec_world \<Rightarrow> pipeline_result \<Rightarrow> exec_world \<Rightarrow> bool" where
  "gave_up p a w r w' \<longleftrightarrow>
     (\<exists>intent st ph rs oid e status eph w1.
        (give_up p a intent st ph rs oid e status eph w1 :: unit step \<times> exec_world) = (Stop r, w')
        \<and> st \<in> attempt_finals \<and> status \<in> {''SKIPPED'', ''ERROR''} \<and> (keeps_attempts p \<longrightarrow> xw_attempts w1 = xw_attempts w))"

lemma gave_upI:
  assumes "give_up p a intent st ph rs oid e status eph w1 = (Stop r, w')" "st \<in> attempt_finals"
    "status \<in> {''SKIPPED'', ''ERROR''}" "keeps_attempts p \<Longrightarrow> xw_attempts w1 = xw_attempts w"
  shows "gave_up p a w r w'"
  unfolding gave_up_def using assms
  by (intro exI [of _ intent] exI [of _ st] exI [of _ ph] exI [of _ rs] exI [of _ oid] exI [of _ e] exI [of _ status]
      exI [of _ eph] exI [of _ w1]) (simp add: give_up_def)

lemma give_up_neq [simp]:
  "give_up p a intent st ph rs oid e status eph w1 \<noteq> (Go v, w')"
  "give_up p a intent st ph rs oid e status eph w1 \<noteq> (Raise x, w')"
  by (simp_all add: give_up_def)

locale pipeline_stage =
  fixes p :: pipeline_setting and a :: "uuid option" and stage :: "exec_world \<Rightarrow> 'a step \<times> exec_world"
  assumes goes_on: "stage w = (Go v, w') \<Longrightarrow> keeps_attempts p \<Longrightarrow> xw_attempts w' = xw_attempts w"
    and raises: "stage w = (Raise e, w') \<Longrightarrow> keeps_attempts p \<Longrightarrow> xw_attempts w' = xw_attempts w"
    and stops: "stage w = (Stop r, w') \<Longrightarrow> gave_up p a w r w'"
begin

lemma unsent:
  "stage w = (Stop r, w') \<Longrightarrow> ur_submit_response r = None \<and> \<not> ur_is_submitted r \<and> ur_status r \<in> {''SKIPPED'', ''ERROR''}"
  by (drule stops) (auto simp: gave_up_def give_up_def)

lemma closes:
  assumes "stage w = (Stop r, w')" "keeps_attempts p" "a = Some i" "map_of (xw_attempts w) i = Some x"
  shows "\<exists>y. map_of (xw_attempts w') i = Some y \<and> closed_as x r y"
  using stops [OF assms(1)] assms(2-4)
  by (auto simp: gave_up_def give_up_def finalize_attempt_def attempt_update_status_def closed_as_def update_conv')

end

lemma stage_then:
  assumes "pipeline_stage p a s" "\<And>v. pipeline_stage p a (f v)"
  shows "pipeline_stage p a (\<lambda>w. proceed (s w) f)"
proof
  note laws = pipeline_stage.goes_on [OF assms(1)] pipeline_stage.raises [OF assms(1)] pipeline_stage.stops [OF assms(1)]
    pipeline_stage.goes_on [OF assms(2)] pipeline_stage.raises [OF assms(2)] pipeline_stage.stops [OF assms(2)]
  fix w w'
  show "xw_attempts w' = xw_attempts w" if "proceed (s w) f = (Go v, w')" "keeps_attempts p" for v
    using that laws(1,4) by (force simp: proceed_def split: prod.splits step.splits)
  show "xw_attempts w' = xw_attempts w" if "proceed (s w) f = (Raise e, w')" "keeps_attempts p" for e
    using that laws(1,2,5) by (force simp: proceed_def split: prod.splits step.splits)
  show "gave_up p a w r w'" if "proceed (s w) f = (Stop r, w')" for r
    using that laws(1,3,6) by (fastforce simp: proceed_def gave_up_def split: prod.splits step.splits)
qed

lemmas stage_split = option.splits sum.splits order_side.splits prod.splits if_splits

interpretation sizing: pipeline_stage p a "quantity_stage p a intent q rp" for p a intent q rp
  by unfold_locales
    (auto simp: quantity_stage_def Let_def split: stage_split elim!: gave_upI dest: zero_outcome_final)

interpretation liquidity: pipeline_stage p a "liquidity_stage p a rq q sized" for p a rq q sized
  by unfold_locales (auto simp: liquidity_stage_def Let_def split: stage_split elim!: gave_upI)

interpretation sell_guard: pipeline_stage p a "sell_guard_stage p a intent" for p a intent
  by unfold_locales (auto simp: sell_guard_stage_def Let_def split: stage_split elim!: gave_upI)

interpretation translation: pipeline_stage p a "translation_stage p a intent" for p a intent
  by unfold_locales (auto simp: translation_stage_def Let_def split: stage_split elim!: gave_upI)

interpretation probe: pipeline_stage p a "probe_stage p a intent pr" for p a intent pr
  by unfold_locales (auto simp: probe_stage_def Let_def split: stage_split elim!: gave_upI)

interpretation compliance_check: pipeline_stage p a "compliance_stage p a intent req" for p a intent req
  by unfold_locales
    (auto simp: compliance_stage_def keeps_attempts_def Let_def split: stage_split elim!: gave_upI)

interpretation var_check: pipeline_stage p a "var_stage p a intent" for p a intent
  by unfold_locales (auto simp: var_stage_def Let_def split: stage_split elim!: gave_upI)

interpretation duplicate: pipeline_stage p a "duplicate_stage p a intent" for p a intent
  by unfold_locales
    (auto simp: duplicate_stage_def Let_def split: stage_split elim!: gave_upI dest: with_manager_attempts)

interpretation create: pipeline_stage p a "create_stage p a intent req" for p a intent req
  by unfold_locales
    (auto simp: create_stage_def Let_def split: stage_split elim!: gave_upI dest: with_manager_attempts)

interpretation transition: pipeline_stage p a "transition_stage p a l ph st intent z" for p a l ph st intent z
  by unfold_locales
    (auto simp: transition_stage_def Let_def split: stage_split elim!: gave_upI dest: with_manager_attempts)

interpretation stale: pipeline_stage p a "stale_stage p a intent z" for p a intent z
  by unfold_locales (auto simp: stale_stage_def Let_def split: stage_split elim!: gave_upI)

interpretation submit: pipeline_stage p a "submit_stage p a intent req z" for p a intent req z
  by unfold_locales
    (auto simp: submit_stage_def Let_def split: stage_split elim!: gave_upI dest: with_manager_attempts)

lemmas stage_contracts = sizing.pipeline_stage_axioms liquidity.pipeline_stage_axioms sell_guard.pipeline_stage_axioms
  translation.pipeline_stage_axioms probe.pipeline_stage_axioms compliance_check.pipeline_stage_axioms
  var_check.pipeline_stage_axioms duplicate.pipeline_stage_axioms create.pipeline_stage_axioms
  transition.pipeline_stage_axioms stale.pipeline_stage_axioms submit.pipeline_stage_axioms

lemma stage_pass [intro]: "pipeline_stage p a (\<lambda>w. (Go v, w))"
  by unfold_locales auto

lemma stage_after:
  assumes "\<And>v. pipeline_stage p a (s v)" "\<And>w. keeps_attempts p \<Longrightarrow> xw_attempts (snd (g w)) = xw_attempts w"
  shows "pipeline_stage p a (\<lambda>w. s (fst (g w)) (snd (g w)))"
  using pipeline_stage.goes_on [OF assms(1)] pipeline_stage.raises [OF assms(1)] pipeline_stage.stops [OF assms(1)] assms(2)
  by unfold_locales (fastforce simp: gave_up_def)+

interpretation priced: pipeline_stage p a "priced_stages p a intent v" for p a intent v
  unfolding priced_stages_def Let_def split_beta by (intro stage_then stage_contracts stage_pass)

interpretation gates: pipeline_stage p a "gate_stages p a intent" for p a intent
  unfolding gate_stages_def Let_def split_beta
  by (intro stage_after priced.pipeline_stage_axioms) (simp add: quote_stage_attempts)

interpretation orders: pipeline_stage p a "order_stages p a passed" for p a passed
  unfolding order_stages_def Let_def split_beta
  by (intro stage_then stage_contracts)
    (rule stage_after [where g = "\<lambda>w. ((), link_order p (fst passed) v w)" for v, simplified],
     (intro stage_then stage_contracts stage_pass | simp)+)

lemma finish_closes:
  assumes "map_of (xw_attempts w) i = Some x" "finish p (Some i) intent req z w = (r, w')"
  shows "\<exists>y. map_of (xw_attempts w') i = Some y \<and> closed_as x r y"
  using assms
  by (cases "or_status z")
    (auto simp: finish_def Let_def finalize_attempt_def attempt_update_status_def closed_as_def update_conv')

section \<open>What a request has passed\<close>

definition keeps_books :: "pipeline_setting \<Rightarrow> bool" where
  "keeps_books p \<longleftrightarrow> (\<forall>l w. xw_sync (pe_waits p l w) = xw_sync w \<and> xw_trade_states (pe_waits p l w) = xw_trade_states w
     \<and> xw_statuses (pe_waits p l w) = xw_statuses w)"

text \<open>Repositories that the guards read.\<close>

definition books :: "exec_world \<Rightarrow> sync_world \<times> trade_state_store \<times> (uuid \<times> instrument_status_snapshot) list" where
  "books w = (xw_sync w, xw_trade_states w, xw_statuses w)"

lemma books_frame [simp]:
  "books (add_phase f i s w) = books w" "books (keep_validation p l i r oid w) = books w"
  "books (sync_trade_decision_execution_sizing p pr oq eq sr w) = books w"
  "books (w\<lparr>xw_quote_cache := c\<rparr>) = books w" "books (w\<lparr>xw_quote_failures := fs\<rparr>) = books w"
  "books (w\<lparr>xw_quote_skip_until := ts\<rparr>) = books w"
  by (simp_all add: books_def)

lemma waits_books [simp]: "keeps_books p \<Longrightarrow> books (pe_waits p (l, n) w) = books w"
  by (simp add: books_def keeps_books_def)

lemma fetch_quote_books: "keeps_books p \<Longrightarrow> books (snd (fetch_quote p intent n m w)) = books w"
  by (induction p intent n m w rule: fetch_quote.induct) (auto simp: Let_def split: sum.split)

lemma quote_stage_books: "keeps_books p \<Longrightarrow> books (snd (quote_stage p intent w)) = books w"
  using fetch_quote_books [of p intent 0 2]
  by (auto simp: quote_stage_def resolve_quote_def cached_quote_def note_quote_failure_def Let_def split_beta
      split: option.split)

lemma proceed_Go: "proceed sw f = (Go v, w') \<longleftrightarrow> (\<exists>u w. sw = (Go u, w) \<and> f u w = (Go v, w'))"
  by (cases sw; cases "fst sw") (auto simp: proceed_def)

lemma proceed_Stop:
  "proceed sw f = (Stop r, w') \<longleftrightarrow> sw = (Stop r, w') \<or> (\<exists>u w. sw = (Go u, w) \<and> f u w = (Stop r, w'))"
  by (cases sw; cases "fst sw") (auto simp: proceed_def)

text \<open>Stages may change quantity, order type, price and metadata of the request, and nothing else of an intent.\<close>

definition same_trade :: "order_intent \<Rightarrow> order_intent \<Rightarrow> bool" where
  "same_trade i i' \<longleftrightarrow>
     sq_side (oi_request i') = sq_side (oi_request i) \<and> sq_symbol (oi_request i') = sq_symbol (oi_request i)
     \<and> sq_market (oi_request i') = sq_market (oi_request i) \<and> sq_account_ref (oi_request i') = sq_account_ref (oi_request i)
     \<and> sq_strategy_id (oi_request i') = sq_strategy_id (oi_request i)
     \<and> oi_context i' = oi_context i \<and> oi_ai_backend_inputs i' = oi_ai_backend_inputs i
     \<and> oi_decision_context_id i' = oi_decision_context_id i"

lemma sizing_passed:
  assumes "quantity_stage p a intent q rp w = (Go (intent', r, price), w')"
  shows "books w' = books w \<and> same_trade intent intent' \<and> 0 < sq_quantity (oi_request intent')"
  using assms by (auto simp: quantity_stage_def Let_def with_quantity_def same_trade_def split: stage_split)

lemma liquidity_passed:
  assumes "liquidity_stage p a rq q (intent, r, price) w = (Go intent', w')"
  shows "books w' = books w \<and> same_trade intent intent' \<and> sq_quantity (oi_request intent') = sq_quantity (oi_request intent)"
  using assms by (auto simp: liquidity_stage_def Let_def force_limit_def same_trade_def split: stage_split)

lemma sell_guard_passed:
  assumes "sell_guard_stage p a intent w = (Go u, w')"
  shows "books w' = books w \<and> (\<forall>acc av. sq_side (oi_request intent) = SELL \<and> intent_account intent = Some acc
    \<and> sell_guard_resolve (place_env p ''sell_guard'') (sy_repos (xw_sync w)) acc (sq_symbol (oi_request intent))
        (sq_quantity (oi_request intent)) = Inr av \<longrightarrow> \<not> sa_is_blocked av)"
  using assms by (auto simp: sell_guard_stage_def Let_def split: stage_split)

lemma translation_passed:
  assumes "translation_stage p a intent w = (Go req, w')"
  shows "w' = w \<and> sq_quantity req = sq_quantity (oi_request intent) \<and> sq_side req = sq_side (oi_request intent)
    \<and> sq_symbol req = sq_symbol (oi_request intent) \<and> sq_market req = sq_market (oi_request intent)
    \<and> sq_account_ref req = sq_account_ref (oi_request intent) \<and> sq_strategy_id req = sq_strategy_id (oi_request intent)
    \<and> ai_decision_type (oi_ai_backend_inputs intent) \<in> set actionable_types"
  using assms by (auto simp: translation_stage_def build_submit_order_request_from_decision_def Let_def split: stage_split)

lemma probe_passed: "probe_stage p a intent pr w = (Go u, w') \<Longrightarrow> books w' = books w"
  by (auto simp: probe_stage_def Let_def split: stage_split)

lemma enrich_blocking [simp]:
  "is_blocking (enrich_compliance_validation_with_ai_alignment k d r) = is_blocking r"
  by (auto simp: enrich_compliance_validation_with_ai_alignment_def is_blocking_def Let_def split: option.split jval.split)

lemma compliance_passed:
  assumes "compliance_stage p a intent req w = (Go u, w')" "keeps_books p"
  shows "books w' = books w \<and> (\<exists>types. \<not> is_blocking (evaluate_submit_time_compliance_validation_result (pe_codec p)
    (place_env p ''compliance'') (xw_base w) (xw_statuses w) (xw_trade_states w) intent req (ix_source_type (oi_context intent)) types))"
  using assms by (auto simp: compliance_stage_def Let_def keeps_books_def books_def split: stage_split)

lemma var_passed:
  assumes "var_stage p a intent w = (Go u, w')"
  shows "w' = w \<and> (\<exists>result. evaluate_var_threshold_validation_result (pe_codec p) (place_env p ''var'') intent
    (ix_source_type (oi_context intent)) = Some result \<and> \<not> is_blocking result)"
  using assms by (auto simp: var_stage_def Let_def split: stage_split)

lemma put_manager_base [simp]: "sy_base (put_manager m w) = om_repos m"
  by (simp add: put_manager_def put_base_def put_ledger_def)

lemma put_manager_service [simp]: "sy_reconciliation_service (put_manager m w) = sy_reconciliation_service w"
  by (simp add: put_manager_def put_base_def put_ledger_def)

lemma order_list_locks [simp]: "order_list (r\<lparr>rp_reconciliations := rc\<rparr>) q = order_list r q"
proof -
  have "order_matches (r\<lparr>rp_reconciliations := rc\<rparr>) = order_matches r" by (simp add: fun_eq_iff order_matches_def)
  then show ?thesis by (simp add: order_list_def)
qed

lemma recent_buy_locks [simp]:
  "has_recent_active_buy_order (r\<lparr>rp_reconciliations := rc\<rparr>) acc symbol mk t = has_recent_active_buy_order r acc symbol mk t"
  by (simp add: has_recent_active_buy_order_def instrument_by_symbol_def split: option.split)

lemma duplicate_passed:
  assumes "duplicate_stage p a intent w = (Go u, w')"
  shows "rp_orders (xw_base w') = rp_orders (xw_base w)
    \<and> (\<forall>acc. sq_side (oi_request intent) = BUY \<and> intent_account intent = Some acc \<longrightarrow>
        fst (has_active_reconciliation_lock (now_at (pe_env p) ''lock'') acc (sq_symbol (oi_request intent)) BUY
               (manager_of (xw_sync w)))
        \<or> has_recent_active_buy_order (xw_base w) acc (sq_symbol (oi_request intent)) (sq_market (oi_request intent))
             (now_at (pe_env p) ''created_after'' - seconds buy_duplicate_cooldown_seconds) = Inr None)"
  using assms
  by (auto simp: duplicate_stage_def with_manager_def has_active_reconciliation_lock_def manager_of_def Let_def split_beta
      split: option.splits sum.splits if_splits)

lemma duplicate_keeps:
  assumes "duplicate_stage p a intent w = (Go u, w')"
  shows "rp_accounts (xw_base w') = rp_accounts (xw_base w) \<and> rp_strategies (xw_base w') = rp_strategies (xw_base w)
    \<and> sy_reconciliation_service (xw_sync w') = sy_reconciliation_service (xw_sync w)
    \<and> (\<forall>acc. sq_side (oi_request intent) = BUY \<and> intent_account intent = Some acc
         \<and> fst (has_active_reconciliation_lock (now_at (pe_env p) ''lock'') acc (sq_symbol (oi_request intent)) BUY
               (manager_of (xw_sync w))) \<longrightarrow> rp_reconciliations (xw_base w') = rp_reconciliations (xw_base w))"
  using assms
  by (auto simp: duplicate_stage_def with_manager_def has_active_reconciliation_lock_def manager_of_def is_blocked_def
      is_locked_def Let_def split_beta split: option.splits sum.splits if_splits)

lemma update_loop_status:
  assumes "update_loop ev others tg rc rm sub i n exc after r = (Inr z, r')" "or_status after = tg"
  shows "or_status z = tg"
  using assms
  by (induction ev others tg rc rm sub i n exc after r rule: update_loop.induct)
    (auto simp: update_loop.simps split: option.splits prod.splits sum.splits order_error.splits if_splits)

lemma transition_status:
  assumes "transition_to ev others x tg rc rm aty aid n mk m = (Inr z, m')"
  shows "or_status z = tg"
  using assms
  by (auto simp: transition_to_def transition_to_core_def Let_def split: sum.splits prod.splits dest: update_loop_status)

lemma submit_status:
  assumes "submit_order_to_broker ev others outcome du x q aty aid m = (Inr z, m')"
  shows "or_status z = RECONCILE_REQUIRED \<or> outcome_status outcome = Some (or_status z)"
  using assms
  by (auto simp: submit_unfold Let_def handle_submit_error_def handle_submit_result_def
      split: if_splits broker_outcome.splits option.splits dest!: transition_status)

text \<open>When nobody interferes, a transition to another status than \<open>RECONCILE_REQUIRED\<close> writes orders, events and the
  audit log only, and the order stays in its account.\<close>

definition stored_for :: "uuid \<Rightarrow> uuid \<Rightarrow> repos \<Rightarrow> bool" where
  "stored_for i acc r \<longleftrightarrow> (\<exists>y. order_get r i = Some y \<and> or_order_request_id y = i \<and> or_account_id y = acc)"

lemma update_status_stored:
  assumes "order_update_status t i st rc rm v sub r = (res, r')" "stored_for i acc r"
  shows "stored_for i acc r'" "rp_reconciliations r' = rp_reconciliations r" "rp_strategies r' = rp_strategies r"
  using assms
  by (auto simp: order_update_status_def stored_for_def order_get_def update_conv' split: option.splits if_splits)

lemma loop_stored:
  assumes "update_loop ev (\<lambda>_ r. r) tg rc rm sub k n exc after r = (res, r')" "stored_for i acc r"
    and "or_order_request_id after = i" "or_account_id after = acc"
  shows "stored_for i acc r' \<and> rp_reconciliations r' = rp_reconciliations r \<and> rp_strategies r' = rp_strategies r
    \<and> (\<forall>z. res = Inr z \<longrightarrow> or_order_request_id z = i \<and> or_account_id z = acc)"
  using assms
proof (induction n arbitrary: k exc after r)
  case 0
  then show ?case by (auto simp: update_loop.simps split: option.splits)
next
  case (Suc n)
  obtain u r1 where u: "order_update_status (now_at (inside ''update'' k ev) ''now'') i (or_status after) rc rm
      (Some (or_version after)) sub r = (u, r1)" by fastforce
  note f = update_status_stored [OF u Suc.prems(2)]
  obtain y where y: "order_get r1 i = Some y" "or_order_request_id y = i" "or_account_id y = acc"
    using f(1) by (auto simp: stored_for_def)
  show ?case
  proof (cases "\<exists>o1 v1 v2. u = Inl (Version_Conflict o1 v1 v2) \<and> or_status y \<notin> set terminal_states")
    case False
    then show ?thesis
      using Suc.prems u f y by (auto simp: update_loop.simps split: sum.splits order_error.splits if_splits)
  next
    case True
    then obtain o1 v1 v2 where c: "u = Inl (Version_Conflict o1 v1 v2)" "or_status y \<notin> set terminal_states" by blast
    let ?a = "replace_status (inside ''retry'' k ev) y tg rc rm (case sub of Some t \<Rightarrow> Some t | None \<Rightarrow> or_submitted_at y)"
    have "update_loop ev (\<lambda>_ r. r) tg rc rm sub (Suc k) n (Some (Version_Conflict o1 v1 v2)) ?a r1 = (res, r')"
      using Suc.prems(1,3) u y(1) c by (simp add: update_loop.simps)
    from Suc.IH [OF this f(1)] y f(2,3) show ?thesis by simp
  qed
qed

lemma transition_stored:
  assumes "transition_to ev (\<lambda>_ r. r) x tg rc rm aty aid n mk m = (Inr z, m')" "stored_for (or_order_request_id x) acc (om_repos m)"
    and "or_account_id x = acc" "tg \<noteq> RECONCILE_REQUIRED"
  shows "or_order_request_id z = or_order_request_id x" "or_account_id z = acc"
    "stored_for (or_order_request_id z) acc (om_repos m')" "rp_reconciliations (om_repos m') = rp_reconciliations (om_repos m)"
    "rp_strategies (om_repos m') = rp_strategies (om_repos m)"
proof -
  define sub where "sub = (if mk \<and> or_submitted_at x = None then Some (now_at ev ''submitted_at'') else None)"
  define after where "after = replace_status (inside ''first'' 0 ev) x tg rc rm sub"
  obtain u r where l: "update_loop ev (\<lambda>_ r. r) tg rc rm sub 0 n None after (om_repos m) = (u, r)" by fastforce
  have u: "u = Inr z" and m': "om_repos m' = record_status_change ev x z aty aid (record_order_state_event ev x z INTERNAL r)"
    using assms(1,4) l
    by (auto simp: transition_to_def transition_to_core_def sub_def after_def Let_def split: sum.splits)
  have r: "stored_for (or_order_request_id x) acc r \<and> rp_reconciliations r = rp_reconciliations (om_repos m)
      \<and> rp_strategies r = rp_strategies (om_repos m) \<and> or_order_request_id z = or_order_request_id x \<and> or_account_id z = acc"
    using loop_stored [OF l assms(2)] u assms(3) by (simp add: after_def)
  have "rp_strategies (om_repos m') = rp_strategies r" "order_get (om_repos m') = order_get r"
    by (simp_all add: m' record_status_change_def record_order_state_event_def record_audit_def order_get_def fun_eq_iff Let_def)
  with r show "or_order_request_id z = or_order_request_id x" "or_account_id z = acc"
    "stored_for (or_order_request_id z) acc (om_repos m')" "rp_reconciliations (om_repos m') = rp_reconciliations (om_repos m)"
    "rp_strategies (om_repos m') = rp_strategies (om_repos m)"
    by (simp_all add: m' stored_for_def)
qed

text \<open>Whatever a transition returns is stored with its status, interference or not.\<close>

lemma loop_writes:
  assumes "update_loop ev others tg rc rm sub i n exc after r = (Inr z, r')" "or_status after = tg" "n \<noteq> 0 \<or> exc \<noteq> None"
  shows "\<exists>y. order_get r' (or_order_request_id z) = Some y \<and> or_status y = tg"
  using assms
proof (induction ev others tg rc rm sub i n exc after r rule: update_loop.induct)
  case (2 ev others tg rc rm sub i n exc after r)
  then show ?case
    by (auto simp: update_loop.simps order_get_def update_conv' order_update_status_def
        split: option.splits prod.splits sum.splits order_error.splits if_splits)
qed (auto simp: update_loop.simps split: option.splits)

lemma transition_writes:
  assumes "transition_to ev others x tg rc rm aty aid 3 mk m = (Inr z, m')"
  shows "\<exists>y. order_get (om_repos m') (or_order_request_id z) = Some y \<and> or_status y = or_status z"
proof -
  obtain sub after r where l: "update_loop ev others tg rc rm sub 0 3 None after (om_repos m) = (Inr z, r)" "or_status after = tg"
      "rp_orders (om_repos m') = rp_orders r"
    using assms
    by (auto simp: transition_to_def transition_to_core_def Let_def split: sum.splits prod.splits if_splits)
  with loop_writes [OF l(1,2)] update_loop_status [OF l(1,2)] show ?thesis by (simp add: order_get_def)
qed

lemma submit_writes:
  assumes "submit_order_to_broker ev others outcome du x q aty aid m = (Inr z, m')"
  shows "\<exists>y. order_get (om_repos m') (or_order_request_id z) = Some y \<and> or_status y = or_status z"
  using assms
  by (auto simp: submit_unfold Let_def handle_submit_error_def handle_submit_result_def
      split: if_splits broker_outcome.splits dest!: transition_writes)

lemma submit_decides:
  assumes "submit_order_to_broker ev others outcome du x q aty aid m = (Inr z, m')"
  shows "if submit_blocked ev x q m then or_status z = RECONCILE_REQUIRED else outcome_status outcome = Some (or_status z)"
  using assms
  by (auto simp: submit_unfold Let_def handle_submit_error_def handle_submit_result_def
      split: if_splits broker_outcome.splits option.splits dest!: transition_status)

text \<open>When nobody interferes the submission meets the locks that the gates have left.\<close>

definition same_locks :: "exec_world \<Rightarrow> exec_world \<Rightarrow> bool" where
  "same_locks w w' \<longleftrightarrow> rp_reconciliations (xw_base w') = rp_reconciliations (xw_base w)
     \<and> rp_strategies (xw_base w') = rp_strategies (xw_base w)
     \<and> sy_reconciliation_service (xw_sync w') = sy_reconciliation_service (xw_sync w)"

lemma create_order_frame:
  assumes "create_order ev digest dec_str parse_uuid q aty aid m = (Inr x, m')"
  shows "rp_reconciliations (om_repos m') = rp_reconciliations (om_repos m)" "rp_strategies (om_repos m') = rp_strategies (om_repos m)"
    "account_of_alias (om_repos m) (sq_account_ref q) = Some (or_account_id x)"
    "stored_for (or_order_request_id x) (or_account_id x) (om_repos m')"
proof -
  obtain ok b where "budget_gate ev m = (ok, m\<lparr>om_budget_manager := b\<rparr>)" using budget_gate_frame by blast
  with assms show "rp_reconciliations (om_repos m') = rp_reconciliations (om_repos m)"
    "rp_strategies (om_repos m') = rp_strategies (om_repos m)"
    "account_of_alias (om_repos m) (sq_account_ref q) = Some (or_account_id x)"
    "stored_for (or_order_request_id x) (or_account_id x) (om_repos m')"
    by (auto simp: create_order_def Let_def account_of_alias_def stored_for_def order_add_def order_get_def
        record_audit_def update_conv' split: if_splits option.splits)
qed

lemma create_keeps_locks:
  assumes "create_stage p a intent req w = (Go x, w')"
  shows "same_locks w w'" "account_of_alias (xw_base w) (sq_account_ref req) = Some (or_account_id x)"
    "stored_for (or_order_request_id x) (or_account_id x) (xw_base w')"
proof -
  obtain m where c: "create_order (place_env p ''create'') (xk_digest (pe_codec p)) (dec_text (pe_codec p))
      (xk_parse_uuid (pe_codec p)) (submit_order_request.truncate req) (pe_actor_type p) (pe_actor_id p)
      (manager_of (xw_sync w)) = (Inr x, m)" "xw_sync w' = put_manager m (xw_sync w)"
    using assms by (auto simp: create_stage_def with_manager_def Let_def split: prod.splits sum.splits)
  from create_order_frame [OF c(1)] c(2)
  show "same_locks w w'" "account_of_alias (xw_base w) (sq_account_ref req) = Some (or_account_id x)"
    "stored_for (or_order_request_id x) (or_account_id x) (xw_base w')"
    by (simp_all add: same_locks_def manager_of_def submit_order_request.truncate_def)
qed

lemma transition_keeps_locks:
  assumes "transition_stage p a l ph tg intent x w = (Go z, w')" "pe_others p l = (\<lambda>_ r. r)" "tg \<noteq> RECONCILE_REQUIRED"
    and "stored_for (or_order_request_id x) (or_account_id x) (xw_base w)"
  shows "same_locks w w'" "or_account_id z = or_account_id x" "stored_for (or_order_request_id z) (or_account_id z) (xw_base w')"
proof -
  obtain m where t: "transition_to (place_env p l) (\<lambda>_ r. r) x tg None None (pe_actor_type p) (pe_actor_id p) 3 False
      (manager_of (xw_sync w)) = (Inr z, m)" "xw_sync w' = put_manager m (xw_sync w)"
    using assms(1,2) by (auto simp: transition_stage_def with_manager_def Let_def split: prod.splits sum.splits)
  have s: "stored_for (or_order_request_id x) (or_account_id x) (om_repos (manager_of (xw_sync w)))"
    using assms(4) by (simp add: manager_of_def)
  note f = transition_stored [OF t(1) s refl assms(3)]
  show "same_locks w w'" "or_account_id z = or_account_id x" "stored_for (or_order_request_id z) (or_account_id z) (xw_base w')"
    using f t(2) by (simp_all add: same_locks_def manager_of_def)
qed

lemma same_locks_trans: "same_locks w1 w2 \<Longrightarrow> same_locks w2 w3 \<Longrightarrow> same_locks w1 w3"
  by (simp add: same_locks_def)

lemma same_locks_cong: "xw_sync w2 = xw_sync w1 \<Longrightarrow> same_locks w1 w2"
  by (simp add: same_locks_def)

lemma stale_passed: "stale_stage p a intent z w = (Go u, w') \<Longrightarrow> xw_sync w' = xw_sync w"
  by (auto simp: stale_stage_def Let_def split: option.splits prod.splits)

lemma orders_meet_locks:
  assumes "order_stages p a (sized, req) w = (Go z, w')" "pe_others p = (\<lambda>_ _ r. r)"
    and "account_of_alias (xw_base w) (sq_account_ref req) = Some acc"
    and "find_strategy (xw_base w) (sq_strategy_id req) = None"
  shows "if sy_reconciliation_service (xw_sync w)
            \<and> fst (is_blocked (now_at (place_env p ''submit'') ''is_blocked'')
                    (acc, None, Some (sq_symbol req), Some (side_value (sq_side req))) (rp_reconciliations (xw_base w)))
         then or_status z = RECONCILE_REQUIRED else outcome_status (pe_submission p) = Some (or_status z)"
proof -
  have quiet: "pe_others p l = (\<lambda>_ r. r)" for l by (rule fun_cong [OF assms(2)])
  obtain x w1 y w2 u w3 v w4 where s: "create_stage p a sized req w = (Go x, w1)"
      "transition_stage p a ''validated'' ''transition_validated'' VALIDATED sized x w1 = (Go y, w2)"
      "stale_stage p a sized y (link_order p sized y w2) = (Go u, w3)"
      "transition_stage p a ''pending'' ''transition_pending_submit'' PENDING_SUBMIT sized y w3 = (Go v, w4)"
      "submit_stage p a sized req v w4 = (Go z, w')"
    using assms(1) by (auto simp: order_stages_def proceed_Go Let_def)
  note c = create_keeps_locks [OF s(1)]
  note t1 = transition_keeps_locks [OF s(2) quiet _ c(3), simplified]
  have w3: "xw_sync w3 = xw_sync w2" using stale_passed [OF s(3)] by simp
  note t2 = transition_keeps_locks [OF s(4) quiet, simplified, unfolded w3, OF t1(3)]
  have locks: "same_locks w w4"
    using c(1) t1(1) same_locks_cong [OF w3] t2(1) by (meson same_locks_trans)
  have acc: "or_account_id v = acc" using c(2) t1(2) t2(2) assms(3) by simp
  obtain m where b: "submit_order_to_broker (place_env p ''submit'') (pe_others p ''submit'') (pe_submission p) (pe_duration p) v
      (submit_order_request.truncate req) (pe_actor_type p) (pe_actor_id p) (manager_of (xw_sync w4)) = (Inr z, m)"
    using s(5) by (auto simp: submit_stage_def with_manager_def Let_def split: prod.splits sum.splits)
  have "submit_blocked (place_env p ''submit'') v (submit_order_request.truncate req) (manager_of (xw_sync w4)) \<longleftrightarrow>
      sy_reconciliation_service (xw_sync w)
            \<and> fst (is_blocked (now_at (place_env p ''submit'') ''is_blocked'')
                    (acc, None, Some (sq_symbol req), Some (side_value (sq_side req))) (rp_reconciliations (xw_base w)))"
    using locks assms(4)
    by (simp add: submit_blocked_def submit_scope_def manager_of_def same_locks_def acc find_strategy_def
        submit_order_request.truncate_def)
  with submit_decides [OF b] show ?thesis by simp
qed

lemma gates_passed:
  assumes "gate_stages p a intent w = (Go (sized, req), w')" "keeps_books p"
  shows "rp_orders (xw_base w') = rp_orders (xw_base w)" "same_trade intent sized"
    "0 < sq_quantity (oi_request sized)" "sq_quantity req = sq_quantity (oi_request sized)"
    "sq_side req = sq_side (oi_request sized)" "sq_symbol req = sq_symbol (oi_request sized)"
    "sq_market req = sq_market (oi_request sized)"
    "sq_side (oi_request sized) = SELL \<Longrightarrow> intent_account sized = Some acc \<Longrightarrow>
      sell_guard_resolve (place_env p ''sell_guard'') (sy_repos (xw_sync w)) acc (sq_symbol (oi_request sized))
        (sq_quantity (oi_request sized)) = Inr av \<Longrightarrow> \<not> sa_is_blocked av"
    "\<exists>types. \<not> is_blocking (evaluate_submit_time_compliance_validation_result (pe_codec p) (place_env p ''compliance'')
      (xw_base w) (xw_statuses w) (xw_trade_states w) sized req (ix_source_type (oi_context sized)) types)"
    "\<exists>result. evaluate_var_threshold_validation_result (pe_codec p) (place_env p ''var'') sized
      (ix_source_type (oi_context sized)) = Some result \<and> \<not> is_blocking result"
    "sq_side (oi_request sized) = BUY \<Longrightarrow> intent_account sized = Some acc \<Longrightarrow>
      fst (has_active_reconciliation_lock (now_at (pe_env p) ''lock'') acc (sq_symbol (oi_request sized)) BUY
             (manager_of (xw_sync w)))
      \<or> has_recent_active_buy_order (xw_base w) acc (sq_symbol (oi_request sized)) (sq_market (oi_request sized))
           (now_at (pe_env p) ''created_after'' - seconds buy_duplicate_cooldown_seconds) = Inr None"
    "sq_account_ref req = sq_account_ref (oi_request sized)" "sq_strategy_id req = sq_strategy_id (oi_request sized)"
    "rp_accounts (xw_base w') = rp_accounts (xw_base w)" "rp_strategies (xw_base w') = rp_strategies (xw_base w)"
    "sy_reconciliation_service (xw_sync w') = sy_reconciliation_service (xw_sync w)"
    "sq_side (oi_request sized) = BUY \<Longrightarrow> intent_account sized = Some acc \<Longrightarrow>
      fst (has_active_reconciliation_lock (now_at (pe_env p) ''lock'') acc (sq_symbol (oi_request sized)) BUY
             (manager_of (xw_sync w))) \<Longrightarrow> rp_reconciliations (xw_base w') = rp_reconciliations (xw_base w)"
proof -
  obtain q rp w0 where q: "quote_stage p intent w = ((q, rp), w0)" by (metis prod.exhaust)
  have b0: "books w0 = books w" using quote_stage_books [OF assms(2), of intent w] q by simp
  from assms(1) q obtain i1 r price w1 u2 w3 w4 w5 u6 w6 u7 w7 u8 w8 where
    s: "quantity_stage p a intent q rp w0 = (Go (i1, r, price), w1)"
      "liquidity_stage p a (sq_quantity (oi_request intent)) q (i1, r, price) w1 = (Go sized, w3)"
      "sell_guard_stage p a sized w3 = (Go u2, w4)" "translation_stage p a sized w4 = (Go req, w5)"
      "probe_stage p a sized price w5 = (Go u6, w6)" "compliance_stage p a sized req w6 = (Go u7, w7)"
      "var_stage p a sized w7 = (Go u8, w8)" "duplicate_stage p a sized w8 = (Go (), w')"
    by (auto simp: gate_stages_def priced_stages_def proceed_Go)
  note f = sizing_passed [OF s(1)] liquidity_passed [OF s(2)] sell_guard_passed [OF s(3)] translation_passed [OF s(4)]
    probe_passed [OF s(5)] compliance_passed [OF s(6) assms(2)] var_passed [OF s(7)] duplicate_passed [OF s(8)]
  have b: "books w3 = books w" "books w6 = books w" "books w8 = books w" using f b0 by auto
  then have x: "xw_sync w3 = xw_sync w" "xw_sync w6 = xw_sync w" "xw_sync w8 = xw_sync w"
      "xw_statuses w6 = xw_statuses w" "xw_trade_states w6 = xw_trade_states w"
    by (simp_all add: books_def)
  show "rp_orders (xw_base w') = rp_orders (xw_base w)" "same_trade intent sized" "0 < sq_quantity (oi_request sized)"
      "sq_quantity req = sq_quantity (oi_request sized)" "sq_side req = sq_side (oi_request sized)"
      "sq_symbol req = sq_symbol (oi_request sized)" "sq_market req = sq_market (oi_request sized)"
    using f x by (auto simp: same_trade_def)
  show "\<not> sa_is_blocked av" if "sq_side (oi_request sized) = SELL" "intent_account sized = Some acc"
      "sell_guard_resolve (place_env p ''sell_guard'') (sy_repos (xw_sync w)) acc (sq_symbol (oi_request sized))
        (sq_quantity (oi_request sized)) = Inr av"
    using f(3) that x by auto
  show "\<exists>types. \<not> is_blocking (evaluate_submit_time_compliance_validation_result (pe_codec p) (place_env p ''compliance'')
      (xw_base w) (xw_statuses w) (xw_trade_states w) sized req (ix_source_type (oi_context sized)) types)"
    using f(6) x by simp
  show "\<exists>result. evaluate_var_threshold_validation_result (pe_codec p) (place_env p ''var'') sized
      (ix_source_type (oi_context sized)) = Some result \<and> \<not> is_blocking result"
    using f(7) by blast
  show "fst (has_active_reconciliation_lock (now_at (pe_env p) ''lock'') acc (sq_symbol (oi_request sized)) BUY
             (manager_of (xw_sync w)))
      \<or> has_recent_active_buy_order (xw_base w) acc (sq_symbol (oi_request sized)) (sq_market (oi_request sized))
           (now_at (pe_env p) ''created_after'' - seconds buy_duplicate_cooldown_seconds) = Inr None"
    if "sq_side (oi_request sized) = BUY" "intent_account sized = Some acc"
    using f(8) that x by simp
  note d = duplicate_keeps [OF s(8), unfolded x]
  show "sq_account_ref req = sq_account_ref (oi_request sized)" "sq_strategy_id req = sq_strategy_id (oi_request sized)"
      "rp_accounts (xw_base w') = rp_accounts (xw_base w)" "rp_strategies (xw_base w') = rp_strategies (xw_base w)"
      "sy_reconciliation_service (xw_sync w') = sy_reconciliation_service (xw_sync w)"
    using f(4) d by simp_all
  show "rp_reconciliations (xw_base w') = rp_reconciliations (xw_base w)"
    if "sq_side (oi_request sized) = BUY" "intent_account sized = Some acc"
      "fst (has_active_reconciliation_lock (now_at (pe_env p) ''lock'') acc (sq_symbol (oi_request sized)) BUY
             (manager_of (xw_sync w)))"
    using d that by blast
qed

lemma start_books: "books (snd (start_attempt p intent w)) = books w"
  by (simp add: start_attempt_def books_def Let_def split: option.split)

text \<open>A result that carries an order went through all stages.\<close>

lemma reached_broker:
  assumes "run_execution_pipeline p intent w = (Inr r, w')" "ur_submit_response r = Some z"
  obtains a w0 sized req w1 w2 where
    "start_attempt p intent w = (a, w0)" "gate_stages p a intent w0 = (Go (sized, req), w1)"
    "order_stages p a (sized, req) w1 = (Go z, w2)" "ur_order_intent r = sized"
    "ur_is_submitted r \<longleftrightarrow> or_status z = SUBMITTED"
    "ur_is_skipped r \<longleftrightarrow> or_status z \<in> {RECONCILE_REQUIRED, REJECTED}"
    "ur_status r = result_status (or_status z)" "ur_stop_reason r = result_stop_reason (or_status z)"
    "xw_sync w' = xw_sync (post_submit_sync p z w2)"
proof -
  obtain a w0 where s: "start_attempt p intent w = (a, w0)" by fastforce
  obtain g w1 where g: "gate_stages p a intent w0 = (g, w1)" by fastforce
  from assms s g have "\<exists>passed. g = Go passed"
    by (cases g) (auto simp: run_execution_pipeline_def dest: gates.unsent)
  then obtain sized req where g': "g = Go (sized, req)" by fastforce
  obtain d w2 where d: "order_stages p a (sized, req) w1 = (d, w2)" by fastforce
  from assms s g g' d have "\<exists>y. d = Go y"
    by (cases d) (auto simp: run_execution_pipeline_def dest: orders.unsent)
  then obtain y where y: "d = Go y" by blast
  from assms s g g' d y have "z = y" "ur_order_intent r = sized" "ur_is_submitted r \<longleftrightarrow> or_status z = SUBMITTED"
      "ur_is_skipped r \<longleftrightarrow> or_status z \<in> {RECONCILE_REQUIRED, REJECTED}"
      "ur_status r = result_status (or_status z)" "ur_stop_reason r = result_stop_reason (or_status z)"
      "xw_sync w' = xw_sync (post_submit_sync p z w2)"
    by (auto simp: run_execution_pipeline_def finish_def Let_def split: prod.splits)
  with that s g g' d y show thesis by blast
qed

lemma unsent_result:
  assumes "run_execution_pipeline p intent w = (Inr r, w')" "ur_submit_response r = None"
  shows "\<not> ur_is_submitted r \<and> ur_status r \<in> {''SKIPPED'', ''ERROR''}"
  using assms
  by (auto simp: run_execution_pipeline_def proceed_def finish_def Let_def split: prod.splits step.splits
      dest: gates.unsent orders.unsent)

text \<open>A created order meets no obstacle of its own: nobody interferes, the snapshots are fresh and the broker
  answers, so the answer comes back.\<close>

lemma submit_tracks:
  assumes "tracks x m" "or_status x = PENDING_SUBMIT" "outcome_status outcome \<noteq> None"
  obtains z m' where "submit_order_to_broker ev (\<lambda>_ w. w) outcome du x q aty aid m = (Inr z, m')"
proof -
  have t: "\<exists>z m'. transition_to ev (\<lambda>_ w. w) x tg rc rm aty aid 3 mk m1 = (Inr z, m')"
    if "tg \<in> {SUBMITTED, RECONCILE_REQUIRED, REJECTED}" "rp_orders (om_repos m1) = rp_orders (om_repos m)" for tg rc rm mk m1
  proof -
    have "tracks x m1" using assms(1) that(2) by (simp add: tracks_def order_get_def)
    then show ?thesis using pending_moves [OF assms(2) that(1)] by (rule transition_tracks) blast
  qed
  have "\<exists>z m'. submit_order_to_broker ev (\<lambda>_ w. w) outcome du x q aty aid m = (Inr z, m')"
    using assms(3)
    by (cases outcome)
      (auto simp: submit_unfold handle_submit_error_def handle_submit_result_def trigger_submit_def Let_def
        split: if_splits intro!: t)
  with that show thesis by blast
qed
lemma tracks_put [simp]: "tracks x (manager_of (put_manager m w)) = tracks x m"
  by (simp add: tracks_def manager_of_def)

lemma put_manager_positions [simp]:
  "sg_position_snapshots (sy_repos (put_manager m w)) = sg_position_snapshots (sy_repos w)"
  by (simp add: put_manager_def put_base_def put_ledger_def)

text \<open>What freshness is read from.\<close>

definition snapshots :: "exec_world \<Rightarrow> (uuid \<times> cash_balance_snapshot) list \<times> snapshot_sync_run list \<times> (uuid \<times> position_snapshot) list" where
  "snapshots w = (xw_cash w, xw_sync_runs w, sg_position_snapshots (sy_repos (xw_sync w)))"

lemma snapshots_frame [simp]:
  "snapshots (add_phase f i s w) = snapshots w" "snapshots (w\<lparr>xw_sync := put_manager m (xw_sync w)\<rparr>) = snapshots w"
  "snapshots (link_order p i x w) = snapshots w"
  by (simp_all add: snapshots_def add_phase_def link_order_def)

lemma stale_verdict_cong:
  assumes "snapshots w' = snapshots w"
  shows "stale_verdict p intent w' = stale_verdict p intent w"
proof -
  have "position_list_latest_by_account (sy_repos (xw_sync w')) = position_list_latest_by_account (sy_repos (xw_sync w))"
    using assms by (simp add: fun_eq_iff position_list_latest_by_account_def snapshots_def)
  then have "check_account_snapshot_freshness now t c (sy_repos (xw_sync w')) i
      = check_account_snapshot_freshness now t c (sy_repos (xw_sync w)) i" for now t c i
    by (cases "cash_latest_by_account c i") (simp_all add: check_account_snapshot_freshness_def)
  then show ?thesis using assms by (cases "intent_account intent") (simp_all add: stale_verdict_def snapshots_def)
qed

lemma create_tracks:
  assumes "fst (create_order (place_env p ''create'') (xk_digest (pe_codec p)) (dec_text (pe_codec p))
      (xk_parse_uuid (pe_codec p)) (submit_order_request.truncate req) (pe_actor_type p) (pe_actor_id p)
      (manager_of (xw_sync w))) = Inr x"
  obtains w' where "create_stage p a intent req w = (Go x, w')" "or_status x = DRAFT" "tracks x (manager_of (xw_sync w'))"
    "snapshots w' = snapshots w"
  using assms
  by (rule_tac create_order_cases [of "place_env p ''create''" "xk_digest (pe_codec p)" "dec_text (pe_codec p)"
      "xk_parse_uuid (pe_codec p)" "submit_order_request.truncate req" "pe_actor_type p" "pe_actor_id p"
      "manager_of (xw_sync w)"])
    (auto simp: create_stage_def with_manager_def tracks_def order_get_def update_conv' Let_def manager_of_def snapshots_def)

lemma stage_tracks:
  assumes "tracks x (manager_of (xw_sync w))" "may_move (or_status x) tg" "tg \<notin> set terminal_states"
    and "pe_others p l = (\<lambda>_ r. r)"
  obtains y w' where "transition_stage p a l ph tg intent x w = (Go y, w')" "or_status y = tg"
    "tracks y (manager_of (xw_sync w'))" "snapshots w' = snapshots w"
proof -
  obtain y m where t: "transition_to (place_env p l) (\<lambda>_ r. r) x tg None None (pe_actor_type p) (pe_actor_id p) 3 False
      (manager_of (xw_sync w)) = (Inr y, m)" "or_status y = tg" "tracks y m"
    by (rule transition_tracks [OF assms(1,2), of "place_env p l" None None "pe_actor_type p" "pe_actor_id p" False])
      (use that assms(3) in \<open>auto simp: tracks_def\<close>)
  show thesis
    by (rule that [of y "(add_phase ph intent ''start'' w)\<lparr>xw_sync := put_manager m (xw_sync w)\<rparr>"])
      (use t assms(4) in \<open>simp_all add: transition_stage_def with_manager_def Let_def snapshots_def\<close>)
qed

lemma orders_answered:
  assumes "fst (create_order (place_env p ''create'') (xk_digest (pe_codec p)) (dec_text (pe_codec p))
      (xk_parse_uuid (pe_codec p)) (submit_order_request.truncate req) (pe_actor_type p) (pe_actor_id p)
      (manager_of (xw_sync w))) = Inr x"
    and "stale_verdict p sized w = None" "pe_others p = (\<lambda>_ _ r. r)" "outcome_status (pe_submission p) \<noteq> None"
  obtains z w' where "order_stages p a (sized, req) w = (Go z, w')"
proof -
  obtain w1 where c: "create_stage p a sized req w = (Go x, w1)" "or_status x = DRAFT"
      "tracks x (manager_of (xw_sync w1))" "snapshots w1 = snapshots w"
    by (rule create_tracks [OF assms(1)])
  have quiet: "pe_others p l = (\<lambda>_ r. r)" for l by (rule fun_cong [OF assms(3)])
  have live: "VALIDATED \<notin> set terminal_states" "PENDING_SUBMIT \<notin> set terminal_states"
    by (simp_all add: terminal_states_def)
  have "may_move (or_status x) VALIDATED" by (simp add: c(2) may_move_def)
  from c(3) this live(1) quiet obtain y w2 where
      v: "transition_stage p a ''validated'' ''transition_validated'' VALIDATED sized x w1 = (Go y, w2)"
      "or_status y = VALIDATED" "tracks y (manager_of (xw_sync w2))" "snapshots w2 = snapshots w1"
    by (rule stage_tracks)
  let ?w3 = "add_phase ''stale_snapshot_guard'' sized ''start'' (link_order p sized y w2)"
  have "stale_verdict p sized ?w3 = stale_verdict p sized w" by (rule stale_verdict_cong) (simp add: v c)
  then have f: "stale_stage p a sized y (link_order p sized y w2) = (Go (), ?w3)"
    using assms(2) by (simp add: stale_stage_def Let_def)
  have t: "tracks y (manager_of (xw_sync ?w3))" using v(3) by simp
  have "may_move (or_status y) PENDING_SUBMIT" by (simp add: v(2) may_move_def)
  from t this live(2) quiet obtain u w4 where
      s: "transition_stage p a ''pending'' ''transition_pending_submit'' PENDING_SUBMIT sized y ?w3 = (Go u, w4)"
      "or_status u = PENDING_SUBMIT" "tracks u (manager_of (xw_sync w4))"
    by (rule stage_tracks)
  obtain z m where b: "submit_order_to_broker (place_env p ''submit'') (pe_others p ''submit'') (pe_submission p) (pe_duration p) u
      (submit_order_request.truncate req) (pe_actor_type p) (pe_actor_id p) (manager_of (xw_sync w4)) = (Inr z, m)"
    unfolding quiet by (rule submit_tracks [OF s(3,2) assms(4)])
  have "\<exists>w'. submit_stage p a sized req u w4 = (Go z, w')"
    using b by (simp add: submit_stage_def with_manager_def Let_def)
  with that c(1) v(1) f s(1) show thesis by (auto simp: order_stages_def Let_def)
qed

lemma answered_run:
  assumes "start_attempt p intent w = (a, w0)" "gate_stages p a intent w0 = (Go (sized, req), w1)"
    and "fst (create_order (place_env p ''create'') (xk_digest (pe_codec p)) (dec_text (pe_codec p))
      (xk_parse_uuid (pe_codec p)) (submit_order_request.truncate req) (pe_actor_type p) (pe_actor_id p)
      (manager_of (xw_sync w1))) = Inr x"
    and "stale_verdict p sized w1 = None" "pe_others p = (\<lambda>_ _ r. r)" "outcome_status (pe_submission p) \<noteq> None"
  obtains r w' z where "run_execution_pipeline p intent w = (Inr r, w')" "ur_submit_response r = Some z"
proof -
  obtain z w2 where o: "order_stages p a (sized, req) w1 = (Go z, w2)" by (rule orders_answered [OF assms(3-6)])
  show thesis
  proof (rule that)
    show "run_execution_pipeline p intent w = (Inr (fst (finish p a sized req z (post_submit_sync p z w2))),
        snd (finish p a sized req z (post_submit_sync p z w2)))"
      using assms(1,2) o by (simp add: run_execution_pipeline_def split_beta)
  qed (simp add: finish_def Let_def)
qed

lemma orders_submitted:
  assumes "order_stages p a (sized, req) w = (Go z, w')"
  shows "or_status z = RECONCILE_REQUIRED \<or> outcome_status (pe_submission p) = Some (or_status z)"
proof -
  from assms obtain y w1 where "submit_stage p a sized req y w1 = (Go z, w')"
    by (auto simp: order_stages_def proceed_Go Let_def)
  then show ?thesis
    by (auto simp: submit_stage_def with_manager_def Let_def split: prod.splits sum.splits dest: submit_status)
qed

lemma orders_stored:
  assumes "order_stages p a (sized, req) w = (Go z, w')"
  shows "\<exists>y. order_get (xw_base w') (or_order_request_id z) = Some y \<and> or_status y = or_status z"
proof -
  from assms obtain y w1 where "submit_stage p a sized req y w1 = (Go z, w')"
    by (auto simp: order_stages_def proceed_Go Let_def)
  then show ?thesis
    by (auto simp: submit_stage_def with_manager_def Let_def split: prod.splits sum.splits dest!: submit_writes)
qed

end
