(* ===== verification/Execution_Safety.thy ===== *)
theory Execution_Safety
  imports Execution_Stages
begin

text \<open>
  What the execution pipeline promises: the attempt is closed with the result, sales that reach the broker are
  covered, buys that reach it have been vetted, and the result tells what the broker answered; and two
  things that it does not do.
\<close>

section \<open>Guards and rules\<close>

interpretation guard: rule_bundle "\<lambda>(bundle, ev, version, ctx, rules, results). map (\<lambda>(_, f). f ctx) rules"
  "\<lambda>(bundle, ev, version, ctx, rules, results). build_validator_result bundle ev version ctx rules results"
  by unfold_locales
    (auto simp: build_validator_result_def Let_def is_blocking_def blocked_result_def allowed_result_def
      split: prod.split list.split)

lemma var_limit_blocks:
  "blocks (var_limit_rule side limit s measured c1 c2 d) \<longleftrightarrow>
     side = BUY \<and> var_ready s \<and> (\<exists>bound v. limit = Some bound \<and> measured = Some v \<and> bound \<le> v)"
  by (auto simp: var_limit_rule_def blocks_def passed_rule_def split: option.split)

lemma var_availability_passes: "\<not> blocks (var_availability_rule side mp ms s)"
  by (auto simp: var_availability_rule_def blocks_def passed_rule_def warned_rule_def split: option.split)

lemma var_blocking_iff:
  assumes "evaluate_var_threshold_validation_result k ev intent src = Some result"
    and "config_section (intent_config intent) ''risk'' = Some risk"
  shows "is_blocking result \<longleftrightarrow> sq_side (oi_request intent) = BUY \<and> var_ready (ix_risk_limit_snapshot (oi_context intent))
    \<and> ((\<exists>bound v. decimal_or_none (map_of risk ''max_portfolio_var_pct'') = Some bound
          \<and> portfolio_var_pct (ix_risk_limit_snapshot (oi_context intent)) = Some v \<and> bound \<le> v)
      \<or> (\<exists>bound v. decimal_or_none (map_of risk ''max_symbol_var_contribution_pct'') = Some bound
          \<and> Option.bind (ix_risk_limit_snapshot (oi_context intent)) rl_largest_var_contribution_pct = Some v \<and> bound \<le> v))"
proof -
  have "is_blocking result \<longleftrightarrow> blocks (portfolio_var_rule k (sq_side (oi_request intent))
        (decimal_or_none (map_of risk ''max_portfolio_var_pct'')) (ix_risk_limit_snapshot (oi_context intent)))
      \<or> blocks (symbol_var_contribution_rule k (sq_side (oi_request intent))
        (decimal_or_none (map_of risk ''max_symbol_var_contribution_pct'')) (ix_risk_limit_snapshot (oi_context intent)))"
    using assms guard.blocking_iff
    by (force simp: evaluate_var_threshold_validation_result_def build_risk_validator_result_def Let_def
        var_availability_passes)
  then show ?thesis by (auto simp: portfolio_var_rule_def symbol_var_contribution_rule_def var_limit_blocks)
qed

text \<open>Warnings of the availability rule never reach the warnings of the result: only failed rules are collected.\<close>

lemma collect_warnings:
  "\<forall>(_, f) \<in> set rules. ro_warning (f ctx) \<longrightarrow> ro_passed (f ctx) \<Longrightarrow>
     fst (snd (collect_outcomes ctx rules blocking warning outs msg)) = warning"
  by (induction ctx rules blocking warning outs msg rule: collect_outcomes.induct) (auto simp: Let_def)

lemma run_warnings:
  "\<forall>(_, f) \<in> set rules. ro_warning (f ctx) \<longrightarrow> ro_passed (f ctx) \<Longrightarrow>
     vr_warning_rule_codes (run_validation_rules now version ctx rules) = []"
  using collect_warnings [of rules ctx "[]" "[]" "[]" None]
  by (auto simp: run_validation_rules_def blocked_result_def allowed_result_def Let_def split_beta split: list.split)

theorem var_warnings_are_lost:
  assumes "evaluate_var_threshold_validation_result k ev intent src = Some result"
  shows "vr_warning_rule_codes result = []"
proof -
  have l: "\<not> ro_warning (var_limit_rule side limit s v c1 c2 d)" for side limit s v c1 c2 d
    by (simp add: var_limit_rule_def passed_rule_def split: option.split)
  have w: "ro_passed (var_availability_rule side mp ms s)" for side mp ms s
    by (simp add: var_availability_rule_def warned_rule_def passed_rule_def split: option.split)
  have b: "vr_warning_rule_codes (build_risk_validator_result ev version ctx rules results) = []"
    if "\<forall>(_, f) \<in> set rules. ro_warning (f ctx) \<longrightarrow> ro_passed (f ctx)" for version ctx rules results
    using run_warnings [OF that]
    by (simp add: build_risk_validator_result_def build_validator_result_def blocked_result_def allowed_result_def Let_def)
  obtain version ctx rules results where r: "result = build_risk_validator_result ev version ctx rules results"
    "\<forall>(_, f) \<in> set rules. ro_warning (f ctx) \<longrightarrow> ro_passed (f ctx)"
    using assms
    by (auto simp: evaluate_var_threshold_validation_result_def Let_def w l portfolio_var_rule_def symbol_var_contribution_rule_def)
  then show ?thesis using b by simp
qed

lemma compliance_clear:
  assumes "\<not> is_blocking (evaluate_compliance_rules tc rule_now run_now now ctx i)"
  shows "\<not> blocks (instrument_status_rule tc i)" "\<not> blocks (restricted_symbol_rule i)"
    "\<not> blocks (holding_profile_window_rule tc rule_now i)" "\<not> blocks (source_policy_buy_rule i)"
  using assms compliance.blocking_iff [of "(tc, rule_now, run_now, now, ctx, i)"] by (auto simp: compliance_rules_def)

definition recent_buy_query :: "uuid \<Rightarrow> timestamp \<Rightarrow> order_query" where
  "recent_buy_query acc t = any_order\<lparr>oq_account_id := Some acc, oq_statuses := Some recent_buy_statuses,
     oq_created_from := Some t, oq_limit := 100\<rparr>"

lemma no_recent_buy:
  assumes "has_recent_active_buy_order r acc symbol mk t = Inr None" "instrument_by_symbol r symbol mk = Some ins"
    and "length (matching_orders r (recent_buy_query acc t)) \<le> 100"
    and "x \<in> set (matching_orders r (recent_buy_query acc t))"
  shows "\<not> (or_instrument_id x = in_instrument_id ins \<and> or_side x = BUY)"
proof -
  from assms(1,2) obtain orders where o: "order_list r (recent_buy_query acc t) = Inr orders"
      "find_first (\<lambda>x. or_instrument_id x = in_instrument_id ins \<and> or_side x = BUY) orders = None"
    by (auto simp: has_recent_active_buy_order_def recent_buy_query_def res_bind_Inr_iff)
  have "oq_limit (recent_buy_query acc t) = 100" by (simp add: recent_buy_query_def)
  then have "mset orders = mset (matching_orders r (recent_buy_query acc t))" using order_list_mset [OF o(1)] assms(3) by simp
  with assms(4) have "x \<in> set orders" by (metis set_mset_mset)
  with o(2) show ?thesis by (simp add: find_first_None_iff)
qed

lemma intent_account_same: "same_trade i i' \<Longrightarrow> intent_account i' = intent_account i"
  by (simp add: same_trade_def intent_account_def)

lemma guard_answers:
  assumes "is_ok (order_list (lg_repos (sg_ledger w)) (open_query a))" "is_ok (order_list (lg_repos (sg_ledger w)) (partial_query a))"
  obtains av where "sell_guard_resolve ev w a symbol q = Inr av"
proof -
  have "\<exists>x. get_open_sell_qty t (sg_ledger w) a i = Inr x" "\<exists>x. get_partially_filled_remaining_qty t (sg_ledger w) a i = Inr x"
    for t i
    using assms
    by (auto simp: get_open_sell_qty_def get_partially_filled_remaining_qty_def open_query_def partial_query_def is_ok_iff
        split: option.split)
  then have "\<exists>av. sell_guard_resolve ev w a symbol q = Inr av"
    unfolding sell_guard_resolve_def Let_def by (metis res_bind_simps(2))
  then show thesis using that by blast
qed

lemma guard_position:
  assumes "sell_guard_resolve ev w a symbol q = Inr av" "get_by_symbol_any_market (lg_repos (sg_ledger w)) symbol = Some ins"
  shows "sa_current_position_qty av = get_current_position_qty w a (Some (in_instrument_id ins))"
  using assms by (auto simp: sell_guard_resolve_def Let_def res_bind_Inr_iff)

section \<open>Example\<close>

text \<open>An account with ten shares, of which open sell orders take six: it sells four of them, or buys two more.\<close>

definition ex_exec_codec :: exec_codec where
  "ex_exec_codec = \<lparr>xk_text = ex_codec,
     xk_decimal = (\<lambda>r. \<lparr>pd_negative = r < 0, pd_coefficient = nat \<lfloor>\<bar>r\<bar>\<rfloor>, pd_exponent = 0\<rparr>),
     xk_datetime = int_str, xk_clock_digits = int_str, xk_parse_uuid = (\<lambda>_. None), xk_digest = (\<lambda>_. ''digest'')\<rparr>"

definition ex_answer :: submit_order_result where
  "ex_answer = \<lparr>sres_accepted = True, sres_broker_name = KOREA_INVESTMENT, sres_broker_order_id = Some ''0000117060'',
     sres_broker_status = SUBMITTED, sres_raw_code = None, sres_raw_message = None, sres_uncertain = False,
     sres_requires_reconciliation = False\<rparr>"

definition ex_pipeline :: pipeline_setting where
  "ex_pipeline =
     \<lparr>pe_codec = ex_exec_codec, pe_env = ex_sync_env, pe_trade_decision_id = Some 82, pe_policy_git_sha = None,
      pe_stale_threshold_seconds = 300, pe_actor_type = ''system'', pe_actor_id = ''execution'',
      pe_quotes = (\<lambda>_. Inl ''timeout''), pe_supported_order_types = Inr [LIMIT, MARKET],
      pe_submission = Submit_Result ex_answer, pe_duration = 12, pe_sync = None, pe_sync_cut = None,
      pe_others = (\<lambda>_ _ r. r), pe_waits = (\<lambda>_ w. w)\<rparr>"

definition ex_intent :: "order_side \<Rightarrow> string \<Rightarrow> string \<Rightarrow> rat \<Rightarrow> order_intent" where
  "ex_intent side decision source q =
     \<lparr>oi_decision_context_id = Some 81,
      oi_request = submit_order_request.extend (ex_submit\<lparr>sq_side := side, sq_quantity := q, sq_price := Some 100\<rparr>)
        (intent_request.fields None None None None True None []),
      oi_context = \<lparr>ix_decision_context = Some ex_decision_context,
        ix_config_json = Some [(''risk'', JvObj [(''max_portfolio_var_pct'', JvInt 5)])],
        ix_position_snapshot = (if side = SELL then Some (ex_snapshot 10) else None),
        ix_cash_balance_snapshot = Some \<lparr>cs_cash_balance_snapshot_id = 70, cs_account_id = 1, cs_available_cash = 1000,
          cs_total_asset = Some 1000, cs_orderable_amount = None, cs_snapshot_at = 90\<rparr>,
        ix_risk_limit_snapshot = Some \<lparr>rl_nav = Some 1000, rl_portfolio_var_1d_adjusted = Some 20,
          rl_largest_var_symbol = None, rl_largest_var_contribution_pct = None, rl_var_status = Some ''ready'',
          rl_var_reason_codes = [], rl_blocked_reason_codes = []\<rparr>,
        ix_signal_feature_snapshot = None, ix_eligibility_reasons = [], ix_source_type = source\<rparr>,
      oi_ai_backend_inputs =
        \<lparr>ai_decision_type = decision, ai_reason_codes = [],
         ai_sizing_hint = \<lparr>sh_size_mode = ''fractional_reduce'', sh_size_adjustment_factor = 2/5\<rparr>, ai_risk_opinion = ''allow'',
         ai_risk_score = 0, ai_expected_return_bps = Some 120, ai_expected_downside_bps = Some 40,
         ai_net_expected_value_bps = Some 60, ai_final_trade_score = Some 70, ai_minimum_required_edge_bps = Some 10,
         ai_edge_after_cost_bps = Some 50, ai_estimated_round_trip_cost_bps = Some 20, ai_slippage_buffer_bps = Some 5,
         ai_expected_value_gate_passed = True, ai_ev_gate_near_miss_override_applied = False\<rparr>\<rparr>"

definition ex_exec_world :: exec_world where
  "ex_exec_world =
     \<lparr>xw_sync = ex_sync_world [], xw_trade_states = [], xw_attempts = [], xw_decisions = [], xw_guardrails = [],
      xw_cash = [(70, \<lparr>cs_cash_balance_snapshot_id = 70, cs_account_id = 1, cs_available_cash = 1000,
        cs_total_asset = Some 1000, cs_orderable_amount = None, cs_snapshot_at = 90\<rparr>)],
      xw_statuses = [(71, \<lparr>iss_instrument_status_snapshot_id = 71, iss_instrument_id = 2, iss_snapshot_at = 90,
        iss_source_type = ''kis'', iss_tr_stop_yn = Some ''N'', iss_admn_item_yn = Some ''N'', iss_nxt_tr_stop_yn = Some ''N'',
        iss_temp_stop_yn = Some ''N'', iss_iscd_stat_cls_code = Some ''00'', iss_status_reason_codes = [],
        iss_created_at = None\<rparr>)],
      xw_sync_runs = [], xw_quote_failures = [], xw_quote_skip_until = [], xw_quote_cache = [], xw_trace = []\<rparr>"



abbreviation ex_selling :: order_intent where "ex_selling \<equiv> ex_intent SELL ''REDUCE'' ''held_position'' 4"
abbreviation ex_buying :: order_intent where "ex_buying \<equiv> ex_intent BUY ''BUY'' ''core'' 2"

definition ex_submission :: "order_intent \<Rightarrow> intent_request" where
  "ex_submission i = (oi_request i)\<lparr>sq_client_order_id := ''dc-81-100''\<rparr>"

text \<open>A stage that passes its input on.\<close>

lemma ex_sizing:
  assumes "map_option (\<lambda>i. effective_quantity intent (calculate_sizing i)) (build_sizing_inputs intent None None) = Some q"
    "0 < q" "sq_quantity (oi_request intent) = q" "\<not> is_market_buy intent"
  shows "\<exists>r. quantity_stage p a intent None None w = (Go (intent, r, None), add_phase ''sizing'' intent ''start'' w)"
proof -
  from assms(1) obtain i where "build_sizing_inputs intent None None = Some i" "effective_quantity intent (calculate_sizing i) = q"
    by auto
  then show ?thesis using assms(2-4) by (auto simp: quantity_stage_def with_quantity_def Let_def)
qed

definition quiet_change :: "exec_world \<Rightarrow> exec_world \<Rightarrow> bool" where
  "quiet_change w w' \<longleftrightarrow> books w' = books w \<and> snapshots w' = snapshots w"

lemma ex_liquidity:
  assumes "sq_order_type (oi_request intent) = LIMIT"
  shows "\<exists>w'. liquidity_stage p a rq q (intent, r, price) w = (Go intent, w') \<and> quiet_change w w'"
  using assms
  by (simp add: liquidity_stage_def classify_buy_execution_liquidity_policy_def quiet_change_def snapshots_def
      sync_trade_decision_execution_sizing_def books_def Let_def split: option.split)

lemma ex_request [simp]:
  "sq_side (oi_request (ex_intent side d src q)) = side" "sq_order_type (oi_request (ex_intent side d src q)) = LIMIT"
  "sq_quantity (oi_request (ex_intent side d src q)) = q" "sq_symbol (oi_request (ex_intent side d src q)) = ''005930''"
  "sq_market (oi_request (ex_intent side d src q)) = ''KRX''" "sq_price (oi_request (ex_intent side d src q)) = Some 100"
  "ix_source_type (oi_context (ex_intent side d src q)) = src" "intent_account (ex_intent side d src q) = Some 1"
  "oi_decision_context_id (ex_intent side d src q) = Some 81"
  by (simp_all add: ex_intent_def ex_submit_def submit_order_request.defs intent_request.defs intent_account_def ex_decision_context_def)

lemma ex_pipeline_simps [simp]:
  "pe_codec ex_pipeline = ex_exec_codec" "pe_env ex_pipeline = ex_sync_env" "pe_trade_decision_id ex_pipeline = Some 82"
  "pe_supported_order_types ex_pipeline = Inr [LIMIT, MARKET]" "pe_submission ex_pipeline = Submit_Result ex_answer"
  "pe_others ex_pipeline = (\<lambda>_ _ r. r)" "pe_waits ex_pipeline = (\<lambda>_ w. w)"
  "pe_actor_type ex_pipeline = ''system''" "pe_actor_id ex_pipeline = ''execution''"
  by (simp_all add: ex_pipeline_def)

lemma ex_compliance:
  assumes "\<not> is_blocking (evaluate_submit_time_compliance_validation_result ex_exec_codec (place_env ex_pipeline ''compliance'')
      (xw_base w) (xw_statuses w) (xw_trade_states w) intent req (ix_source_type (oi_context intent))
      (map order_type_value [LIMIT, MARKET]))"
  shows "\<exists>w'. compliance_stage ex_pipeline a intent req w = (Go (), w') \<and> quiet_change w w'"
  using assms
  by (simp add: compliance_stage_def quiet_change_def books_def snapshots_def keep_validation_def Let_def)

lemma ex_gates:
  assumes "map_option (\<lambda>i. effective_quantity I (calculate_sizing i)) (build_sizing_inputs I None None) = Some q" "0 < q"
    and "I = ex_intent side d src q"
    and "build_submit_order_request_from_decision ex_exec_codec 100 I None = Some req"
    and "\<And>av. side = SELL \<Longrightarrow> sell_guard_resolve (place_env ex_pipeline ''sell_guard'') (sy_repos (xw_sync w)) 1 ''005930'' q = Inr av \<Longrightarrow> \<not> sa_is_blocked av"
    and "side = BUY \<Longrightarrow> \<exists>reason md. classify_single_share_probe_churn_policy ex_exec_codec (place_env ex_pipeline ''probe'') (xw_base w) I src None = Inr (''allow'', reason, md)"
    and "\<not> is_blocking (evaluate_submit_time_compliance_validation_result ex_exec_codec (place_env ex_pipeline ''compliance'')
      (xw_base w) (xw_statuses w) (xw_trade_states w) I req src (map order_type_value [LIMIT, MARKET]))"
    and "map_option is_blocking (evaluate_var_threshold_validation_result ex_exec_codec (place_env ex_pipeline ''var'') I src) = Some False"
    and "side = BUY \<Longrightarrow> \<exists>m. has_active_reconciliation_lock 100 1 ''005930'' BUY (manager_of (xw_sync w)) = (False, m) \<and> put_manager m (xw_sync w) = xw_sync w"
    and "side = BUY \<Longrightarrow> has_recent_active_buy_order (xw_base w) 1 ''005930'' ''KRX'' (100 - seconds buy_duplicate_cooldown_seconds) = Inr None"
  shows "\<exists>w'. gate_stages ex_pipeline a I w = (Go (I, req), w') \<and> quiet_change w w'"
proof -
  note I = assms(3)
  have p: "is_market_buy I = False" "sq_price (oi_request I) \<noteq> None" by (simp_all add: I is_market_buy_def)
  obtain r where s: "quantity_stage ex_pipeline a I None None w = (Go (I, r, None), add_phase ''sizing'' I ''start'' w)"
    using ex_sizing [OF assms(1,2) _ _, of ex_pipeline a w] p by (auto simp: I)
  obtain w1 where l: "liquidity_stage ex_pipeline a (sq_quantity (oi_request I)) None (I, r, None) (add_phase ''sizing'' I ''start'' w) = (Go I, w1)"
      "quiet_change w w1"
    using ex_liquidity [of I] by (fastforce simp: I quiet_change_def)
  have [simp]: "xw_sync w1 = xw_sync w" using l(2) by (simp add: quiet_change_def books_def)
  have g: "sell_guard_stage ex_pipeline a I w1 = (Go (), add_phase ''sell_guard'' I ''start'' w1)"
    using assms(5) by (cases side) (auto simp: sell_guard_stage_def I Let_def split: sum.split)
  have t: "translation_stage ex_pipeline a I w2 = (Go req, w2)" for w2
    using assms(4) by (simp add: translation_stage_def now_at_def ex_sync_env_def)
  have b: "probe_stage ex_pipeline a I None w2 = (Go (), add_phase ''translation'' I ''ok'' w2)" if "xw_sync w2 = xw_sync w" for w2
    using assms(6) that by (cases side) (auto simp: probe_stage_def I Let_def)
  let ?w2 = "add_phase ''translation'' I ''ok'' (add_phase ''sell_guard'' I ''start'' w1)"
  have q: "quiet_change w ?w2" using l(2) by (simp add: quiet_change_def)
  obtain w3 where c: "compliance_stage ex_pipeline a I req ?w2 = (Go (), w3)" "quiet_change ?w2 w3"
    using ex_compliance [of ?w2 I req a] assms(7) q by (auto simp: I quiet_change_def books_def)
  have [simp]: "xw_sync w3 = xw_sync w" using c(2) by (simp add: quiet_change_def books_def)
  have v: "var_stage ex_pipeline a I w3 = (Go (), w3)"
    using assms(8) by (auto simp: var_stage_def I)
  have d: "duplicate_stage ex_pipeline a I w3 = (Go (), w3)"
  proof (cases side)
    case BUY
    with assms(9,10) show ?thesis
      by (auto simp: duplicate_stage_def with_manager_def I Let_def now_at_def ex_sync_env_def)
  qed (simp add: duplicate_stage_def I)
  have "gate_stages ex_pipeline a I w = (Go (I, req), w3)"
    using p(2) s l(1) g t b c(1) v d by (auto simp: gate_stages_def priced_stages_def quote_stage_def)
  then show ?thesis using q c(2) by (auto simp: quiet_change_def)
qed


lemma ex_world_simps [simp]:
  "xw_sync ex_exec_world = ex_sync_world []" "xw_trade_states ex_exec_world = []"
  by (simp_all add: ex_exec_world_def)

lemma ex_create:
  assumes "quiet_change ex_exec_world w"
  shows "\<exists>x. fst (create_order (place_env ex_pipeline ''create'') (xk_digest ex_exec_codec) (dec_text ex_exec_codec)
      (xk_parse_uuid ex_exec_codec) (submit_order_request.truncate (ex_submission (ex_intent side d src q))) ''system''
      ''execution'' (manager_of (xw_sync w))) = Inr x \<longleftrightarrow> 0 < q"
proof -
  have "xw_sync w = ex_sync_world []" using assms by (simp add: quiet_change_def books_def)
  then show ?thesis
    by (simp add: create_order_def budget_gate_def manager_of_def ex_sync_defs ex_intent_def ex_submission_def ex_submit_def
        Let_def submit_order_request.defs intent_request.defs get_by_client_order_id_def)
qed

lemma ex_fresh_snapshots:
  assumes "quiet_change ex_exec_world w"
  shows "stale_verdict ex_pipeline (ex_intent side d src q) w = None"
proof -
  have "\<not> af_is_stale (check_account_snapshot_freshness (now_at ex_sync_env ''freshness'') 300 (xw_cash ex_exec_world)
      (sy_repos (ex_sync_world [])) 1)"
    by code_simp
  then have "stale_verdict ex_pipeline (ex_intent side d src q) ex_exec_world = None"
    by (simp add: stale_verdict_def ex_pipeline_def)
  moreover have "stale_verdict ex_pipeline (ex_intent side d src q) w = stale_verdict ex_pipeline (ex_intent side d src q) ex_exec_world"
    by (rule stale_verdict_cong) (use assms in \<open>simp add: quiet_change_def\<close>)
  ultimately show ?thesis by simp
qed

lemma ex_uuid: "uuid_at ex_sync_env l = 100"
  by (simp add: uuid_at_def ex_sync_env_def)

lemma ex_start:
  "\<exists>a w0. start_attempt ex_pipeline (ex_intent side d src q) ex_exec_world = (a, w0) \<and> quiet_change ex_exec_world w0"
  by (simp add: start_attempt_def quiet_change_def books_def snapshots_def Let_def)

lemma ex_run:
  assumes "\<And>a w. quiet_change ex_exec_world w \<Longrightarrow>
      \<exists>w'. gate_stages ex_pipeline a (ex_intent side d src q) w = (Go (ex_intent side d src q, ex_submission (ex_intent side d src q)), w')
        \<and> quiet_change w w'" "0 < q"
  obtains r w' z where "run_execution_pipeline ex_pipeline (ex_intent side d src q) ex_exec_world = (Inr r, w')"
    "ur_submit_response r = Some z" "ur_order_intent r = ex_intent side d src q" "or_status z = SUBMITTED"
proof -
  let ?i = "ex_intent side d src q"
  obtain a w0 where s: "start_attempt ex_pipeline ?i ex_exec_world = (a, w0)" "quiet_change ex_exec_world w0"
    using ex_start by blast
  obtain w1 where g: "gate_stages ex_pipeline a ?i w0 = (Go (?i, ex_submission ?i), w1)" "quiet_change w0 w1"
    using assms(1) [OF s(2)] by blast
  have w1: "quiet_change ex_exec_world w1" using s(2) g(2) by (simp add: quiet_change_def)
  obtain x where x: "fst (create_order (place_env ex_pipeline ''create'') (xk_digest ex_exec_codec) (dec_text ex_exec_codec)
      (xk_parse_uuid ex_exec_codec) (submit_order_request.truncate (ex_submission ?i)) ''system'' ''execution''
      (manager_of (xw_sync w1))) = Inr x"
    using ex_create [OF w1] assms(2) by blast
  have o: "outcome_status (pe_submission ex_pipeline) \<noteq> None" by simp
  obtain r w' z where r: "run_execution_pipeline ex_pipeline ?i ex_exec_world = (Inr r, w')" "ur_submit_response r = Some z"
    by (rule answered_run [OF s(1) g(1) _ ex_fresh_snapshots [OF w1] _ o, of x]) (use x in simp_all)
  moreover obtain w2 where z: "ur_order_intent r = ?i" "order_stages ex_pipeline a (?i, ex_submission ?i) w1 = (Go z, w2)"
    by (rule reached_broker [OF r]) (use s(1) g(1) in auto)
  moreover have "or_status z = SUBMITTED"
  proof -
    have w: "xw_sync w1 = ex_sync_world []" using w1 by (simp add: quiet_change_def books_def)
    have "account_of_alias (xw_base w1) (sq_account_ref (ex_submission ?i)) = Some 1"
      "find_strategy (xw_base w1) (sq_strategy_id (ex_submission ?i)) = None"
      unfolding w by (simp_all add: account_of_alias_def find_strategy_def ex_sync_defs ex_submission_def ex_intent_def
          ex_submit_def submit_order_request.defs intent_request.defs)
    from orders_meet_locks [OF z(2) _ this] show ?thesis
      unfolding w by (simp add: is_blocked_def is_locked_def ex_sync_defs ex_answer_def)
  qed
  ultimately show thesis by (rule_tac that)
qed

lemma ex_risk: "config_section (intent_config (ex_intent side d src q)) ''risk'' = Some [(''max_portfolio_var_pct'', JvInt 5)]"
  by (simp add: config_section_def intent_config_def ex_intent_def)

lemma ex_portfolio_var: "portfolio_var_pct (ix_risk_limit_snapshot (oi_context (ex_intent side d src q))) = Some 2"
proof -
  have "dmul (ddiv 20 1000) 100 = 2" by code_simp
  then show ?thesis by (simp add: portfolio_var_pct_def ex_intent_def)
qed

lemma ex_bound: "decimal_or_none (Some (JvInt 5)) = Some 5" "decimal_or_none None = None"
  by code_simp+

lemma ex_var:
  "map_option is_blocking (evaluate_var_threshold_validation_result ex_exec_codec ev (ex_intent side d src q) src) = Some False"
proof -
  obtain result where r: "evaluate_var_threshold_validation_result ex_exec_codec ev (ex_intent side d src q) src = Some result"
    by (simp add: evaluate_var_threshold_validation_result_def ex_risk Let_def)
  have "\<not> is_blocking result"
    unfolding var_blocking_iff [OF r ex_risk] by (simp add: ex_portfolio_var ex_bound)
  with r show ?thesis by simp
qed

lemma ex_selling_gates:
  assumes "quiet_change ex_exec_world w"
  shows "\<exists>w'. gate_stages ex_pipeline a ex_selling w = (Go (ex_selling, ex_submission ex_selling), w') \<and> quiet_change w w'"
proof -
  have w: "xw_sync w = ex_sync_world []" "xw_statuses w = xw_statuses ex_exec_world" "xw_trade_states w = []"
    using assms by (simp_all add: quiet_change_def books_def)
  show ?thesis
  proof (rule ex_gates [OF _ _ refl])
    show "map_option (\<lambda>i. effective_quantity ex_selling (calculate_sizing i)) (build_sizing_inputs ex_selling None None) = Some 4"
      by code_simp
    show "build_submit_order_request_from_decision ex_exec_codec 100 ex_selling None = Some (ex_submission ex_selling)"
      by code_simp
    show "\<not> sa_is_blocked av" if "sell_guard_resolve (place_env ex_pipeline ''sell_guard'') (sy_repos (xw_sync w)) 1 ''005930'' 4 = Inr av" for av
      using that unfolding w
      by (auto simp: sell_guard_resolve_def get_open_sell_qty_def get_partially_filled_remaining_qty_def place_env_def inside_def
          ex_sync_defs guard_eval dec_eval)
    show "\<not> is_blocking (evaluate_submit_time_compliance_validation_result ex_exec_codec (place_env ex_pipeline ''compliance'')
      (xw_base w) (xw_statuses w) (xw_trade_states w) ex_selling (ex_submission ex_selling) ''held_position'' (map order_type_value [LIMIT, MARKET]))"
      unfolding w by code_simp
    show "map_option is_blocking (evaluate_var_threshold_validation_result ex_exec_codec (place_env ex_pipeline ''var'') ex_selling
        ''held_position'') = Some False"
      by (rule ex_var)
  qed simp_all
qed

lemma ex_buying_gates:
  assumes "quiet_change ex_exec_world w"
  shows "\<exists>w'. gate_stages ex_pipeline a ex_buying w = (Go (ex_buying, ex_submission ex_buying), w') \<and> quiet_change w w'"
proof -
  have w: "xw_sync w = ex_sync_world []" "xw_statuses w = xw_statuses ex_exec_world" "xw_trade_states w = []"
    using assms by (simp_all add: quiet_change_def books_def)
  show ?thesis
  proof (rule ex_gates [OF _ _ refl])
    show "map_option (\<lambda>i. effective_quantity ex_buying (calculate_sizing i)) (build_sizing_inputs ex_buying None None) = Some 2"
      by code_simp
    show "build_submit_order_request_from_decision ex_exec_codec 100 ex_buying None = Some (ex_submission ex_buying)"
      by code_simp
    show "\<exists>reason md. classify_single_share_probe_churn_policy ex_exec_codec (place_env ex_pipeline ''probe'') (xw_base w)
        ex_buying ''core'' None = Inr (''allow'', reason, md)"
      by (simp add: classify_single_share_probe_churn_policy_def)
    show "\<not> is_blocking (evaluate_submit_time_compliance_validation_result ex_exec_codec (place_env ex_pipeline ''compliance'')
      (xw_base w) (xw_statuses w) (xw_trade_states w) ex_buying (ex_submission ex_buying) ''core'' (map order_type_value [LIMIT, MARKET]))"
      unfolding w by code_simp
    show "map_option is_blocking (evaluate_var_threshold_validation_result ex_exec_codec (place_env ex_pipeline ''var'') ex_buying
        ''core'') = Some False"
      by (rule ex_var)
    show "\<exists>m. has_active_reconciliation_lock 100 1 ''005930'' BUY (manager_of (xw_sync w)) = (False, m) \<and> put_manager m (xw_sync w) = xw_sync w"
      unfolding w by (simp add: has_active_reconciliation_lock_def is_blocked_def is_locked_def manager_of_def put_manager_def put_base_def
          put_ledger_def ex_sync_defs Let_def)
    show "has_recent_active_buy_order (xw_base w) 1 ''005930'' ''KRX'' (100 - seconds buy_duplicate_cooldown_seconds) = Inr None"
      unfolding w by code_simp
  qed simp_all
qed

lemmas ex_runs = ex_run [OF ex_selling_gates zero_less_numeral] ex_run [OF ex_buying_gates zero_less_numeral]

section \<open>Properties\<close>

text \<open>C6. An execution attempt never stays open behind the back of the caller: when the pipeline returns a
  result, at whichever stage, the attempt it opened is closed with a final status and carries the trace of
  the result; and the attempt stays running exactly when the pipeline raises.\<close>

theorem attempt_is_closed_with_result:
  assumes "run_execution_pipeline p intent w = (res, w')"
    and "pe_trade_decision_id p = Some t" "oi_decision_context_id intent = Some d" and "keeps_attempts p"
  shows "\<exists>y. map_of (xw_attempts w') (uuid_at (pe_env p) ''attempt'') = Some y
    \<and> ea_trade_decision_id y = t \<and> ea_decision_context_id y = d
    \<and> (case res of
          Inr r \<Rightarrow> ea_status y \<in> attempt_finals \<and> ea_completed_at y \<noteq> None \<and> ea_phase_trace y = Some (ur_phase_trace r)
                   \<and> (ur_is_submitted r \<longrightarrow> ea_status y = ''submitted'')
        | Inl e \<Rightarrow> ea_status y = ''running'')"
proof -
  let ?i = "uuid_at (pe_env p) ''attempt''"
  obtain x w0 where s: "start_attempt p intent w = (Some ?i, w0)" "map_of (xw_attempts w0) ?i = Some x"
    "ea_trade_decision_id x = t" "ea_decision_context_id x = d" "ea_status x = ''running''"
    using assms(2,3) by (simp add: start_attempt_def Let_def update_conv')
  define body where "body = (\<lambda>w. proceed (gate_stages p (Some ?i) intent w) (\<lambda>passed w.
      proceed (order_stages p (Some ?i) passed w) (\<lambda>order w. (Go (passed, order), w))))"
  have "pipeline_stage p (Some ?i) body"
    unfolding body_def by (intro stage_then gates.pipeline_stage_axioms orders.pipeline_stage_axioms stage_pass)
  note laws = pipeline_stage.goes_on [OF this] pipeline_stage.raises [OF this] pipeline_stage.closes [OF this]
  obtain st w1 where m: "body w0 = (st, w1)" by fastforce
  then show ?thesis
    using assms(1,4) s laws
    by (cases st)
      (auto simp: run_execution_pipeline_def body_def closed_as_def split: prod.splits
        dest!: finish_closes [rotated])
qed

theorem attempt_is_closed_with_result_witness:
  "\<exists>r w' y. run_execution_pipeline ex_pipeline ex_selling ex_exec_world = (Inr r, w')
     \<and> map_of (xw_attempts w') 100 = Some y \<and> ea_trade_decision_id y = 82 \<and> ea_status y \<in> attempt_finals
     \<and> ea_phase_trace y = Some (ur_phase_trace r)"
proof -
  obtain r w' z where r: "run_execution_pipeline ex_pipeline ex_selling ex_exec_world = (Inr r, w')"
    by (rule ex_runs(1))
  have "keeps_attempts ex_pipeline" by (simp add: keeps_attempts_def)
  from attempt_is_closed_with_result [OF r _ _ this] r show ?thesis by (auto simp: ex_uuid)
qed

text \<open>C4. A sale that the pipeline takes to the broker is covered: its quantity, together with the live open
  sell orders and what live partially filled sell orders have left, is at most the position of the latest
  snapshot.  The quantity is the one of the intent in the result, which is what is sent.  Nothing else
  changes the books while the pipeline waits for a quote or for the capabilities of the broker; listings
  of orders do not raise and fit their limits, quantities are share counts, and a partially filled order
  has a broker order.\<close>

theorem sales_reach_broker_covered:
  fixes w :: exec_world
  defines "lg \<equiv> sg_ledger (sy_repos (xw_sync w))"
  assumes "run_execution_pipeline p intent w = (Inr r, w')" "ur_submit_response r = Some z" "keeps_books p"
    and "sq_side (oi_request intent) = SELL" "intent_account intent = Some acc"
    and "get_by_symbol_any_market (xw_base w) (sq_symbol (oi_request intent)) = Some ins"
    and "is_ok (order_list (xw_base w) (open_query acc))" "is_ok (order_list (xw_base w) (partial_query acc))"
    and "shares_exact (sy_repos (xw_sync w))"
    and "matching_bound (sy_repos (xw_sync w)) (open_query acc)" "matching_bound (sy_repos (xw_sync w)) (partial_query acc)"
    and "\<forall>o1 \<in> set (filter (live_sell (now_at (place_env p ''sell_guard'') ''partial'') (in_instrument_id ins))
        (matching_orders (xw_base w) (partial_query acc))). broker_orders_of_request (xw_base w) (or_order_request_id o1) \<noteq> []"
  shows "0 < sq_quantity (oi_request (ur_order_intent r))
    \<and> sq_quantity (oi_request (ur_order_intent r))
      + sum_list (map or_requested_quantity
          (filter (\<lambda>o1. live_sell (now_at (place_env p ''sell_guard'') ''open'') (in_instrument_id ins) o1
                     \<and> \<not> is_stale_pending_submit lg (now_at (place_env p ''sell_guard'') ''open'') o1)
            (matching_orders (xw_base w) (open_query acc))))
      + sum_list (map (\<lambda>o1. or_requested_quantity o1 - filled_quantity lg o1)
          (filter (live_sell (now_at (place_env p ''sell_guard'') ''partial'') (in_instrument_id ins))
            (matching_orders (xw_base w) (partial_query acc))))
      \<le> get_current_position_qty (sy_repos (xw_sync w)) acc (Some (in_instrument_id ins))"
proof -
  obtain a w0 sized req w1 w2 where run: "start_attempt p intent w = (a, w0)"
      "gate_stages p a intent w0 = (Go (sized, req), w1)" "ur_order_intent r = sized"
    by (rule reached_broker [OF assms(2,3)])
  have b: "xw_sync w0 = xw_sync w" using start_books [of p intent w] run(1) by (simp add: books_def)
  note g = gates_passed [OF run(2) assms(4)]
  note same = g(2) [unfolded same_trade_def]
  let ?q = "sq_quantity (oi_request sized)"
  obtain av where av: "sell_guard_resolve (place_env p ''sell_guard'') (sy_repos (xw_sync w)) acc
      (sq_symbol (oi_request intent)) ?q = Inr av"
    using assms(8,9) by (rule guard_answers)
  have "\<not> sa_is_blocked av"
    using g(8) [of acc av] av same assms(5,6) intent_account_same [OF g(2)] by (simp add: b)
  from approved_sell_is_covered [OF av this assms(7,10-13)] g(3) guard_position [OF av assms(7)]
  show ?thesis unfolding lg_def run(3) by simp
qed

theorem sales_reach_broker_covered_witness:
  "\<exists>r w' z. run_execution_pipeline ex_pipeline ex_selling ex_exec_world = (Inr r, w') \<and> ur_submit_response r = Some z
     \<and> 0 < sq_quantity (oi_request (ur_order_intent r))
     \<and> sq_quantity (oi_request (ur_order_intent r))
       + sum_list (map or_requested_quantity
           (filter (\<lambda>o1. live_sell 100 2 o1 \<and> \<not> is_stale_pending_submit (sg_ledger (sy_repos (ex_sync_world []))) 100 o1)
             (matching_orders (sy_base (ex_sync_world [])) (open_query 1))))
       + sum_list (map (\<lambda>o1. or_requested_quantity o1 - filled_quantity (sg_ledger (sy_repos (ex_sync_world []))) o1)
           (filter (live_sell 100 2) (matching_orders (sy_base (ex_sync_world [])) (partial_query 1))))
       \<le> get_current_position_qty (sy_repos (ex_sync_world [])) 1 (Some 2)"
proof -
  obtain r w' z where r: "run_execution_pipeline ex_pipeline ex_selling ex_exec_world = (Inr r, w')" "ur_submit_response r = Some z"
    by (rule ex_runs(1))
  have b: "keeps_books ex_pipeline" by (simp add: keeps_books_def)
  have i: "get_by_symbol_any_market (xw_base ex_exec_world) (sq_symbol (oi_request ex_selling)) = Some ex_instrument"
    by (simp add: get_by_symbol_any_market_def ex_sync_defs)
  have ok: "is_ok (order_list (xw_base ex_exec_world) (open_query 1))" "is_ok (order_list (xw_base ex_exec_world) (partial_query 1))"
    by (simp_all add: is_ok_def open_query_def partial_query_def guard_eval ex_sync_defs)
  have e: "shares_exact (sy_repos (xw_sync ex_exec_world))"
    by (simp add: shares_exact_def ex_sync_defs broker_orders_of_request_def)
  have m: "matching_bound (sy_repos (xw_sync ex_exec_world)) (open_query 1)"
      "matching_bound (sy_repos (xw_sync ex_exec_world)) (partial_query 1)"
    by (simp_all add: matching_bound_def matching_orders_def open_query_def partial_query_def ex_sync_defs any_order_def)
  have p: "\<forall>o1 \<in> set (filter (live_sell (now_at (place_env ex_pipeline ''sell_guard'') ''partial'') (in_instrument_id ex_instrument))
        (matching_orders (xw_base ex_exec_world) (partial_query 1))).
      broker_orders_of_request (xw_base ex_exec_world) (or_order_request_id o1) \<noteq> []"
    by (simp add: matching_orders_def partial_query_def ex_sync_defs guard_eval)
  have t: "now_at (place_env ex_pipeline ''sell_guard'') l = 100" "in_instrument_id ex_instrument = 2" for l
    by (simp_all add: now_at_def place_env_def inside_def ex_sync_env_def ex_instrument_def)
  have "sq_side (oi_request ex_selling) = SELL" "intent_account ex_selling = Some 1" by simp_all
  from sales_reach_broker_covered [OF r b this i ok e m p] r show ?thesis by (auto simp: t)
qed

text \<open>C5. A buy that the pipeline takes to the order manager for submission has been vetted: the account has no
  buy order of the instrument from the last fifteen minutes that may still be or become a position, with one
  exception: while a reconciliation lock stands on the symbol a repeated buy gets this far, but if the lock
  still stands at the submission it stops there and the order waits for reconciliation (provided that
  nobody interferes, the account of the context is the one of the request and the strategy lookup finds
  nothing, as it does).  When the value at risk of the account has been computed, neither the configured limit for
  the portfolio nor the one for the largest contribution of a symbol is reached.  The instrument is not
  halted by its latest status, and the account not blocked by its risk limits.\<close>

theorem buys_reach_broker_vetted:
  assumes "run_execution_pipeline p intent w = (Inr r, w')" "ur_submit_response r = Some z" "keeps_books p"
    and "sq_side (oi_request intent) = BUY" "intent_account intent = Some acc"
    and "instrument_by_symbol (xw_base w) (sq_symbol (oi_request intent)) (sq_market (oi_request intent)) = Some ins"
    and "config_section (intent_config intent) ''risk'' = Some risk"
    and "length (matching_orders (xw_base w) (recent_buy_query acc
      (now_at (pe_env p) ''created_after'' - seconds buy_duplicate_cooldown_seconds))) \<le> 100"
  shows "((\<forall>x \<in> set (matching_orders (xw_base w) (recent_buy_query acc
            (now_at (pe_env p) ''created_after'' - seconds buy_duplicate_cooldown_seconds))).
           \<not> (or_instrument_id x = in_instrument_id ins \<and> or_side x = BUY))
      \<or> fst (has_active_reconciliation_lock (now_at (pe_env p) ''lock'') acc (sq_symbol (oi_request intent)) BUY
             (manager_of (xw_sync w)))
        \<and> (fst (has_active_reconciliation_lock (now_at (place_env p ''submit'') ''is_blocked'') acc
                (sq_symbol (oi_request intent)) BUY (manager_of (xw_sync w)))
           \<and> pe_others p = (\<lambda>_ _ r. r) \<and> account_of_alias (xw_base w) (sq_account_ref (oi_request intent)) = Some acc
           \<and> find_strategy (xw_base w) (sq_strategy_id (oi_request intent)) = None
           \<longrightarrow> or_status z = RECONCILE_REQUIRED))
    \<and> (\<forall>bound v. var_ready (ix_risk_limit_snapshot (oi_context intent))
        \<and> decimal_or_none (map_of risk ''max_portfolio_var_pct'') = Some bound
        \<and> portfolio_var_pct (ix_risk_limit_snapshot (oi_context intent)) = Some v \<longrightarrow> v < bound)
    \<and> (\<forall>bound v. var_ready (ix_risk_limit_snapshot (oi_context intent))
        \<and> decimal_or_none (map_of risk ''max_symbol_var_contribution_pct'') = Some bound
        \<and> Option.bind (ix_risk_limit_snapshot (oi_context intent)) rl_largest_var_contribution_pct = Some v \<longrightarrow> v < bound)
    \<and> (\<forall>s \<in> set_option (latest_status (xw_statuses w) (in_instrument_id ins)).
        (\<forall>flag \<in> {iss_tr_stop_yn s, iss_admn_item_yn s, iss_nxt_tr_stop_yn s, iss_temp_stop_yn s}. normalized_flag flag \<noteq> ''Y'')
        \<and> str_strip (or_text (iss_iscd_stat_cls_code s) []) \<notin> set status_block_codes)
    \<and> (\<forall>s \<in> set_option (ix_risk_limit_snapshot (oi_context intent)). rl_blocked_reason_codes s = [])"
  (is "(?unique \<or> ?lock \<and> (?still \<longrightarrow> ?waits)) \<and> ?var \<and> ?symbol \<and> ?status \<and> ?open")
proof -
  obtain a w0 sized req w1 w2 where run: "start_attempt p intent w = (a, w0)"
      "gate_stages p a intent w0 = (Go (sized, req), w1)" "order_stages p a (sized, req) w1 = (Go z, w2)"
    by (rule reached_broker [OF assms(1,2)])
  have b: "xw_sync w0 = xw_sync w" "xw_statuses w0 = xw_statuses w" "xw_trade_states w0 = xw_trade_states w"
    using start_books [of p intent w] run(1) by (simp_all add: books_def)
  note g = gates_passed [OF run(2) assms(3)]
  note same = g(2) [unfolded same_trade_def]
  have acc: "intent_account sized = Some acc" using assms(5) intent_account_same [OF g(2)] by simp
  have waits: ?waits if ?lock ?still
  proof -
    have locks: "rp_reconciliations (xw_base w1) = rp_reconciliations (xw_base w)"
      using g(17) [of acc] acc same assms(4) that(1) by (simp add: b)
    have a: "account_of_alias (xw_base w1) (sq_account_ref req) = Some acc"
      using that(2) same g(12,14) by (simp add: account_of_alias_def b)
    have f: "find_strategy (xw_base w1) (sq_strategy_id req) = None"
      using that(2) same g(13,15) by (simp add: find_strategy_def b)
    from that(2) have quiet: "pe_others p = (\<lambda>_ _ r. r)" by simp
    have "sy_reconciliation_service (xw_sync w1)
        \<and> fst (is_blocked (now_at (place_env p ''submit'') ''is_blocked'') (acc, None, Some (sq_symbol req), Some (side_value (sq_side req)))
               (rp_reconciliations (xw_base w1)))"
      using that(2) same g(5,6,16) assms(4) locks
      by (auto simp: has_active_reconciliation_lock_def manager_of_def b split_beta Let_def split: if_splits)
    with orders_meet_locks [OF run(3) quiet a f] show ?waits by simp
  qed
  have unique: "?unique \<or> ?lock \<and> (?still \<longrightarrow> ?waits)"
    using g(11) [of acc] acc same assms(4) no_recent_buy [OF _ assms(6,8)] waits by (auto simp: b)
  have risk: "config_section (intent_config sized) ''risk'' = Some risk"
    using assms(7) same by (simp add: intent_config_def)
  have var: "?var \<and> ?symbol"
    using g(10) var_blocking_iff [OF _ risk] same assms(4) by (fastforce simp: not_le)
  obtain types where "\<not> is_blocking (evaluate_submit_time_compliance_validation_result (pe_codec p)
      (place_env p ''compliance'') (xw_base w) (xw_statuses w) (xw_trade_states w) sized req (ix_source_type (oi_context sized)) types)"
    using g(9) b by auto
  note c = compliance_clear [OF this [unfolded evaluate_submit_time_compliance_validation_result_def Let_def]]
  have ins: "instrument_of_symbol (xw_base w) (sq_symbol req) (sq_market req) = Some ins"
    using assms(6) same g(6,7) by (simp add: instrument_of_symbol_def instrument_by_symbol_def)
  have buy: "lowered (Some (side_value (sq_side req))) \<noteq> side_value SELL"
    using same g(5) assms(4) by simp code_simp
  have "?status \<and> ?open"
    using c(1,2) same ins buy by (auto simp: status_blocks rule_blocks allow_sell_override_def submit_compliance_input_def)
  with unique var show ?thesis by blast
qed

theorem buys_reach_broker_vetted_witness:
  "\<exists>r w' z. run_execution_pipeline ex_pipeline ex_buying ex_exec_world = (Inr r, w') \<and> ur_submit_response r = Some z
     \<and> (\<forall>x \<in> set (matching_orders (sy_base (ex_sync_world [])) (recent_buy_query 1 (100 - seconds buy_duplicate_cooldown_seconds))).
          \<not> (or_instrument_id x = 2 \<and> or_side x = BUY))
     \<and> (\<forall>v. portfolio_var_pct (ix_risk_limit_snapshot (oi_context ex_buying)) = Some v \<longrightarrow> v < 5)
     \<and> (\<forall>s \<in> set_option (ix_risk_limit_snapshot (oi_context ex_buying)). rl_blocked_reason_codes s = [])"
proof -
  obtain r w' z where r: "run_execution_pipeline ex_pipeline ex_buying ex_exec_world = (Inr r, w')" "ur_submit_response r = Some z"
    by (rule ex_runs(2))
  have b: "keeps_books ex_pipeline" by (simp add: keeps_books_def)
  have i: "instrument_by_symbol (xw_base ex_exec_world) (sq_symbol (oi_request ex_buying)) (sq_market (oi_request ex_buying))
      = Some ex_instrument"
    by (simp add: instrument_by_symbol_def ex_sync_defs)
  have t: "now_at ex_sync_env l = 100" "in_instrument_id ex_instrument = 2" for l
    by (simp_all add: now_at_def ex_sync_env_def ex_instrument_def)
  have l: "length (matching_orders (xw_base ex_exec_world) (recent_buy_query 1
      (now_at (pe_env ex_pipeline) ''created_after'' - seconds buy_duplicate_cooldown_seconds))) \<le> 100"
    by (simp add: matching_orders_def recent_buy_query_def ex_sync_defs any_order_def)
  have u: "\<not> fst (has_active_reconciliation_lock 100 1 ''005930'' BUY (manager_of (ex_sync_world [])))"
    by (simp add: has_active_reconciliation_lock_def is_blocked_def is_locked_def manager_of_def ex_sync_defs Let_def)
  have "sq_side (oi_request ex_buying) = BUY" "intent_account ex_buying = Some 1" by simp_all
  moreover have v: "var_ready (ix_risk_limit_snapshot (oi_context ex_buying))"
    "decimal_or_none (map_of [(''max_portfolio_var_pct'', JvInt 5)] ''max_portfolio_var_pct'') = Some 5"
    by code_simp+
  ultimately show ?thesis
    using buys_reach_broker_vetted [OF r b _ _ i ex_risk l] r u by (auto simp: t)
qed

text \<open>C40. The result tells the truth about the order and the broker.  It says submitted, by its flag and by its
  text alike, only if it carries an order and the broker accepted it without doubt and without asking for a
  reconciliation.  An order that it carries is submitted, rejected or waits for reconciliation, and status text,
  stop reason and flags say which.  The order is stored with that status; only after a submission a
  synchronisation that the pipeline was given may already have moved it on.\<close>

theorem submission_report_is_true:
  assumes "run_execution_pipeline p intent w = (Inr r, w')"
  shows "(ur_is_submitted r \<longrightarrow>
      (\<exists>res. pe_submission p = Submit_Result res \<and> sres_accepted res \<and> \<not> sres_uncertain res
         \<and> \<not> sres_requires_reconciliation res) \<and> ur_submit_response r \<noteq> None)
    \<and> (ur_status r = ''SUBMITTED'' \<longleftrightarrow> ur_is_submitted r)
    \<and> (\<forall>z. ur_submit_response r = Some z \<longrightarrow>
        (or_status z, ur_status r, ur_stop_reason r) \<in>
          {(SUBMITTED, ''SUBMITTED'', Some ''order_submitted''),
           (RECONCILE_REQUIRED, ''RECONCILE_REQUIRED'', Some ''order_reconcile_required''),
           (REJECTED, ''REJECTED'', Some ''order_rejected'')}
        \<and> (ur_is_submitted r \<longleftrightarrow> or_status z = SUBMITTED) \<and> (ur_is_skipped r \<longleftrightarrow> or_status z \<noteq> SUBMITTED)
        \<and> (pe_sync p = None \<or> or_status z \<noteq> SUBMITTED \<longrightarrow>
             (\<exists>y. order_get (xw_base w') (or_order_request_id z) = Some y \<and> or_status y = or_status z)))"
proof (cases "ur_submit_response r")
  case None
  then show ?thesis using unsent_result [OF assms] by auto
next
  case (Some z)
  obtain a w0 sized req w1 w2 where run: "order_stages p a (sized, req) w1 = (Go z, w2)"
      "ur_is_submitted r \<longleftrightarrow> or_status z = SUBMITTED"
      "ur_is_skipped r \<longleftrightarrow> or_status z \<in> {RECONCILE_REQUIRED, REJECTED}"
      "ur_status r = result_status (or_status z)" "ur_stop_reason r = result_stop_reason (or_status z)"
      "xw_sync w' = xw_sync (post_submit_sync p z w2)"
    by (rule reached_broker [OF assms Some])
  have "xw_sync w' = xw_sync w2" if "pe_sync p = None \<or> or_status z \<noteq> SUBMITTED"
    using run(6) that by (auto simp: post_submit_sync_def split: option.splits)
  then have stored: "\<exists>y. order_get (xw_base w') (or_order_request_id z) = Some y \<and> or_status y = or_status z"
    if "pe_sync p = None \<or> or_status z \<noteq> SUBMITTED"
    using orders_stored [OF run(1)] that by simp
  have outcome: "outcome_status (pe_submission p) = Some SUBMITTED \<Longrightarrow> \<exists>res. pe_submission p = Submit_Result res
      \<and> sres_accepted res \<and> \<not> sres_uncertain res \<and> \<not> sres_requires_reconciliation res"
    by (cases "pe_submission p") (auto split: if_splits)
  consider "or_status z = SUBMITTED" "outcome_status (pe_submission p) = Some SUBMITTED"
    | "or_status z = RECONCILE_REQUIRED" | "or_status z = REJECTED"
    using orders_submitted [OF run(1)] by (cases "pe_submission p") (auto split: if_splits)
  then show ?thesis
    using run(2-5) stored outcome Some by cases simp_all
qed

theorem submission_report_is_true_witness:
  "\<exists>r w' z y. run_execution_pipeline ex_pipeline ex_buying ex_exec_world = (Inr r, w') \<and> ur_submit_response r = Some z
     \<and> ur_is_submitted r \<and> ur_status r = ''SUBMITTED'' \<and> ur_stop_reason r = Some ''order_submitted''
     \<and> order_get (xw_base w') (or_order_request_id z) = Some y \<and> or_status y = SUBMITTED"
proof -
  obtain r w' z where r: "run_execution_pipeline ex_pipeline ex_buying ex_exec_world = (Inr r, w')" "ur_submit_response r = Some z"
      "or_status z = SUBMITTED"
    by (rule ex_runs(2))
  have "pe_sync ex_pipeline = None" by (simp add: ex_pipeline_def)
  with submission_report_is_true [OF r(1)] r show ?thesis by auto
qed

section \<open>An order that nobody takes further\<close>

definition stops_elsewhere :: "(exec_world \<Rightarrow> 'a step \<times> exec_world) \<Rightarrow> bool" where
  "stops_elsewhere s \<longleftrightarrow> (\<forall>w r w'. s w = (Stop r, w') \<longrightarrow> ur_error_phase r \<noteq> Some ''stale_snapshot'')"

lemma elsewhereD: "stops_elsewhere s \<Longrightarrow> s w = (Stop r, w') \<Longrightarrow> ur_error_phase r \<noteq> Some ''stale_snapshot''"
  by (auto simp: stops_elsewhere_def)

lemma elsewhere_then:
  "stops_elsewhere s \<Longrightarrow> (\<And>v. stops_elsewhere (f v)) \<Longrightarrow> stops_elsewhere (\<lambda>w. proceed (s w) f)"
  unfolding stops_elsewhere_def proceed_def by (fastforce split: prod.splits step.splits)

lemma elsewhere_pass: "stops_elsewhere (\<lambda>w. (Go v, w))"
  by (simp add: stops_elsewhere_def)

lemma give_up_phase: "give_up p a intent st ph rs oid e status eph w1 = (Stop r, w') \<Longrightarrow> ur_error_phase r = eph"
  by (auto simp: give_up_def)

lemma elsewhere_stages:
  "stops_elsewhere (quantity_stage p a intent q rp)" "stops_elsewhere (liquidity_stage p a rq q sized)"
  "stops_elsewhere (sell_guard_stage p a intent)" "stops_elsewhere (translation_stage p a intent)"
  "stops_elsewhere (probe_stage p a intent pr)" "stops_elsewhere (compliance_stage p a intent req)"
  "stops_elsewhere (var_stage p a intent)" "stops_elsewhere (duplicate_stage p a intent)"
  "stops_elsewhere (create_stage p a intent req)" "stops_elsewhere (transition_stage p a l ph st intent z)"
  "stops_elsewhere (submit_stage p a intent req z)"
  by (auto simp: stops_elsewhere_def quantity_stage_def liquidity_stage_def sell_guard_stage_def translation_stage_def
      probe_stage_def compliance_stage_def var_stage_def duplicate_stage_def create_stage_def transition_stage_def
      submit_stage_def Let_def split: stage_split dest: give_up_phase)

lemma elsewhere_gates: "stops_elsewhere (gate_stages p a intent)"
proof -
  have "stops_elsewhere (priced_stages p a intent v)" for v
    unfolding priced_stages_def Let_def split_beta by (intro elsewhere_then elsewhere_stages elsewhere_pass)
  then show ?thesis by (auto simp: stops_elsewhere_def gate_stages_def Let_def split: prod.splits)
qed

lemma created_order:
  assumes "create_stage p a intent req w = (Go x, w')"
  shows "order_get (xw_base w') (uuid_at (place_env p ''create'') ''order'') = Some x
    \<and> or_order_request_id x = uuid_at (place_env p ''create'') ''order'' \<and> or_status x = DRAFT"
  using assms
  by (rule_tac create_order_cases [of "place_env p ''create''" "xk_digest (pe_codec p)" "dec_text (pe_codec p)"
      "xk_parse_uuid (pe_codec p)" "submit_order_request.truncate req" "pe_actor_type p" "pe_actor_id p"
      "manager_of (xw_sync w)"])
    (auto simp: create_stage_def with_manager_def Let_def order_get_def update_conv')

lemma validated_order:
  assumes "order_get (xw_base w) (or_order_request_id x) = Some x" "or_status x = DRAFT"
    and "transition_stage p a l ph VALIDATED intent x w = (Go y, w')"
  shows "\<exists>z. order_get (xw_base w') (or_order_request_id x) = Some z \<and> or_status z = VALIDATED"
proof -
  have g: "order_get (om_repos (manager_of (xw_sync w))) (or_order_request_id x) = Some x"
    using assms(1) by (simp add: manager_of_def)
  have m: "may_move (or_status x) VALIDATED" by (simp add: assms(2) may_move_def)
  from assms(3) show ?thesis
    by (rule_tac move_effect [OF g m, of "place_env p l" "pe_others p l" None None "pe_actor_type p" "pe_actor_id p" False])
      (auto simp: transition_stage_def with_manager_def Let_def)
qed

text \<open>The guard against stale snapshots runs after the order exists, and nothing takes the order further:
  when the pipeline stops there, the order it created is stored as VALIDATED.\<close>

theorem stale_guard_strands_order:
  assumes "run_execution_pipeline p intent w = (Inr r, w')" "ur_error_phase r = Some ''stale_snapshot''"
  shows "ur_submit_response r = None
    \<and> (\<exists>z. order_get (xw_base w') (uuid_at (place_env p ''create'') ''order'') = Some z \<and> or_status z = VALIDATED)"
proof -
  let ?i = "uuid_at (place_env p ''create'') ''order''"
  obtain a w0 where s: "start_attempt p intent w = (a, w0)" by fastforce
  from assms s elsewhereD [OF elsewhere_gates] obtain sized req w1 where
      g: "gate_stages p a intent w0 = (Go (sized, req), w1)"
    by (cases "gate_stages p a intent w0"; cases "fst (gate_stages p a intent w0)")
      (fastforce simp: run_execution_pipeline_def)+
  have o: "order_stages p a (sized, req) w1 = (Stop r, w')"
    using assms s g
    by (cases "order_stages p a (sized, req) w1"; cases "fst (order_stages p a (sized, req) w1)")
      (auto simp: run_execution_pipeline_def finish_def Let_def split: prod.splits)
  note other = elsewhere_stages [THEN elsewhereD]
  from o assms(2) obtain x w2 y w3 where c: "create_stage p a sized req w1 = (Go x, w2)"
      "transition_stage p a ''validated'' ''transition_validated'' VALIDATED sized x w2 = (Go y, w3)"
      "stale_stage p a sized y (link_order p sized y w3) = (Stop r, w')"
    by (auto simp: order_stages_def proceed_Stop Let_def dest: other(9-11))
  note x = created_order [OF c(1)]
  obtain z where z: "order_get (xw_base w3) ?i = Some z" "or_status z = VALIDATED"
    using validated_order [OF _ _ c(2)] x by auto
  have "xw_sync w' = xw_sync w3"
    using c(3) by (auto simp: stale_stage_def give_up_def Let_def split: option.splits prod.splits)
  with z stale.unsent [OF c(3)] show ?thesis by simp
qed

end
