(* ===== verification/Spec2Isabelle.thy ===== *)
theory Spec2Isabelle
  imports Sizing Incremental_Fill Rate_Limit Order_Manager Config_Admin Recompute Circuit_Breaker
    Hysteresis Order_Expiry Execution_Safety
begin

text \<open>
  \<^bold>\<open>A verification library for the core of the trading agent\<close>
  (sources under \<^verbatim>\<open>src/src/agent_trading\<close>).

  \<^bold>\<open>The program.\<close>  The agent decides on trades, sizes them, submits them to a broker under rate
  limits, keeps the life of every order in a state machine with optimistic locking, opens a
  reconciliation run with blocking locks when the state of an order is unknown, turns the
  broker's cumulative fill reports into single fills, charges fills with the fees and taxes of a
  versioned policy and books them into cost basis and realized profit, with a recomputation for
  fills that come late.  The parts interact as follows: the sizing engine gives the quantity of a
  submission request; the order manager asks the budget manager before it creates an order and
  the reconciliation service before it submits one; uncertain answers trigger a reconciliation
  run, whose resolution writes the broker's answer back through the order manager; the
  synchronisation polls the broker for every open order, moves the order through the order manager,
  passes its fills to the resolver, charges the increments from the configuration version in force,
  and hands them to the ledger, which runs the profit and loss engine and stores what it returns.
  Beside the order book a state per symbol records holdings, working orders and cooldowns; the
  sell guard and the hysteresis rules read it before they let a decision pass.  The execution service
  composes all of this: it sizes an intent, passes it through the guards, creates the order, submits it
  and synchronises it once, and keeps an attempt that says where the intent ended.

  \<^bold>\<open>Theories, in import order.\<close>

  \<^item> \<^verbatim>\<open>Trading_Prelude\<close>: identifiers (\<open>UUID\<close>, naturals), time stamps (microseconds, integers), raised
    exceptions as \<open>Inl\<close>, Python's \<open>or\<close> on optional values, the string methods in use.

  \<^item> \<^verbatim>\<open>Rounding\<close>: \<open>Decimal\<close> (28 digits, ties to even, the default context) and binary64 arithmetic as
    rounding of exact rationals, with the interface \<open>rounded_arith\<close> (monotone, odd, idempotent
    rounding; differences of distinct values do not vanish), interpreted on both.  Overflow to
    infinity is outside the model: amounts of the program are far below it.

  \<^item> \<^verbatim>\<open>Domain\<close>: enumerations (\<^verbatim>\<open>domain/enums.py\<close>) and the entities of cost basis and fills
    (\<^verbatim>\<open>domain/entities.py\<close>).

  \<^item> \<^verbatim>\<open>Cost_Basis\<close>: \<^verbatim>\<open>services/realized_pnl_engine.py\<close>.  Validation, the buy and sell transition of one
    fill, replay of a history.  Shown: the state invariant; a fill is accepted exactly when it is
    valid and covered; batch replay is incremental replay; refinement of an abstract ledger of
    shares and fee provenance; one event per sale; bounds of the allocated fee.

  \<^item> \<^verbatim>\<open>Sizing\<close>: \<^verbatim>\<open>services/sizing_engine.py\<close>.  Base quantity and the constraint pipeline.  The interface
    \<open>sizing_stage\<close> (never enlarges, keeps whole shares, appends labels, identity when it appends
    none) is interpreted on every constraint and on their compositions.  Shown: orders fit cash,
    concentration limit and position although quotients are rounded; results are well formed and
    labels faithful; two ways in which the limits act against their description.

  \<^item> \<^verbatim>\<open>Incremental_Fill\<close>: \<^verbatim>\<open>services/kis_fill_incremental_resolver.py\<close> over the keyed store of
    \<^verbatim>\<open>repositories/memory.py\<close>.  The resolver is proved against the interface \<open>fill_state_repo\<close>, which
    the store implements.  Shown: booked increments add up to the cumulative quantity; anomalies
    change nothing; repeated observations book nothing.

  \<^item> \<^verbatim>\<open>Rate_Limit\<close>: \<^verbatim>\<open>brokers/rate_limit.py\<close>, \<^verbatim>\<open>brokers/shared_budget.py\<close> and the release of the tokens of a
    failed request in \<^verbatim>\<open>brokers/koreainvestment/rest_client.py\<close>.  Token buckets with float refill, the bucket shared through a locked file, the manager with its global tier and sell
    reserve, waiting loops, KIS profiles, subscription budget.  The interface \<open>token_bucket\<close> is
    interpreted on both kinds of bucket.  Shown: bounds under every interleaving (a step relation
    and its reachable states); separation of budgets; a refused request of an operation bucket costs
    nothing, also in the shared file, and one of the global bucket does; waiting ends; the sell
    reserve does not recover.

  \<^item> \<^verbatim>\<open>Order_Domain\<close>: requests, broker answers, entities and the in-memory repositories as one record
    of insertion-ordered dictionaries.

  \<^item> \<^verbatim>\<open>Order_Repository\<close>: \<^verbatim>\<open>InMemoryOrderRepository\<close>, its optimistic lock as the interface
    \<open>order_repository\<close>, interpreted on the model.

  \<^item> \<^verbatim>\<open>Reconciliation\<close>: \<^verbatim>\<open>InMemoryReconciliationRepository\<close> and \<^verbatim>\<open>services/reconciliation_service.py\<close>.
    Shown: in every reachable state at most one started run per account and no lock without an
    unresolved owner; exact lifetime of a lock; resolution releases exactly its own locks.

  \<^item> \<^verbatim>\<open>Order_Manager\<close>: \<^verbatim>\<open>services/order_manager.py\<close> and \<^verbatim>\<open>resolve_and_mark\<close>.  Shown: final states are
    final for its transitions and submissions; the effect of a transition on store, events and audit log; failed transitions leave
    no trace; a submission ends where the broker's answer says; blocked orders do not reach the
    broker; uncertain answers close the symbol; inquiry closes the loop; client order
    identifiers stay unique; and where stale snapshots, a second uncertain symbol and reflection
    by broker identifier escape these guarantees.

  \<^item> \<^verbatim>\<open>Python_Decimal\<close>: decimal literals as Python reads and prints them, JSON values of configurations;
    printing and reading back is the identity.

  \<^item> \<^verbatim>\<open>Config_Versions\<close>: \<^verbatim>\<open>InMemoryConfigVersionRepository\<close> with the interface \<open>config_history\<close>: what is
    appended is found from its activation on and changes nothing before it.

  \<^item> \<^verbatim>\<open>Fee_Policy\<close>: \<^verbatim>\<open>services/kis_fee_tax_policy.py\<close>.  Parsing, asset filter, rounding to a unit, fee and
    tax of a fill.  Shown: when a charge exists and where it comes from; the preview is what fills
    are charged.

  \<^item> \<^verbatim>\<open>Config_Admin\<close>: \<^verbatim>\<open>services/fee_tax_policy_admin.py\<close> and \<^verbatim>\<open>services/config_version_admin.py\<close>.
    Shown: a published policy is read back; publication keeps past fees; a version published
    before its audit entry fails; a limit behind a future version.

  \<^item> \<^verbatim>\<open>Ledger_Repository\<close>: the repositories behind the ledger in \<^verbatim>\<open>repositories/memory.py\<close>, with the
    interface \<open>realized_event_store\<close> of the event store.

  \<^item> \<^verbatim>\<open>Ledger\<close>: \<^verbatim>\<open>services/realized_pnl_ledger_service.py\<close>.  Shown: the books stay consistent; booking is
    replaying; a sale is booked once; the next fill clears a recompute mark.

  \<^item> \<^verbatim>\<open>Recompute\<close>: \<^verbatim>\<open>services/realized_pnl_recompute_service.py\<close>.  Shown: what a recomputation rebuilds
    and that it touches nothing else; it is idempotent, agrees with booking in order, and a failed one changes no book; the queue
    is drained once per position.

  \<^item> \<^verbatim>\<open>Circuit_Breaker\<close>: \<^verbatim>\<open>brokers/backoff.py\<close>.  Delays and the breaker as a step relation.  Shown: the
    counters fit the state; after any history of interleaved calls it trips exactly at the end of a run of
    failures; it closes again.

  \<^item> \<^verbatim>\<open>Sell_Guard\<close>: \<^verbatim>\<open>services/sell_guard.py\<close> over position snapshots, open orders and fills.  Shown: an
    approved sale is covered by the position; where partially filled and cancelled orders are
    miscounted.

  \<^item> \<^verbatim>\<open>Trade_State\<close>: \<^verbatim>\<open>services/symbol_trade_state_machine.py\<close>, \<^verbatim>\<open>services/holding_profile_policy.py\<close> and the
    writers of the state in the decision orchestrator and the execution service.  Shown: a
    reconciled state agrees with the orders and snapshots that were read and keeps all its other fields;
    reconciliation is idempotent; with several snapshots of an instrument it reads the oldest.

  \<^item> \<^verbatim>\<open>Hysteresis\<close>: \<^verbatim>\<open>services/reverse_trade_hysteresis.py\<close>.  Shown: exactly when a buy is held
    back; a new position is held for its minimum time unless there is a reason to leave; the cooldown of a
    sale survives reconciliation, and how the next decision ends it.

  \<^item> \<^verbatim>\<open>Order_Sync_Fills\<close>, \<^verbatim>\<open>Order_Sync_Probe\<close>, \<^verbatim>\<open>Order_Sync\<close>, \<^verbatim>\<open>Order_Sync_Cycle\<close>:
    \<^verbatim>\<open>services/order_sync_service.py\<close>.  In this order: polling and booking of fills; status chains and the
    evidence for a status (linked fill snapshots, position deltas, the broker's answer to a probe);
    one synchronisation (\<^verbatim>\<open>sync_order_post_submit\<close>) with recovery and expiry; unknown states
    (\<^verbatim>\<open>transition_to_authoritative\<close>), the cleanups and the cycle of the batch runner.  Answers of the
    broker, the snapshot refresh and what happens while a call waits are fields of \<open>setting\<close>.  Shown
    in \<^verbatim>\<open>Order_Sync_Fills\<close>: a poll never books more than the record grew by, and exactly that when
    appending is enabled and every fee can be computed; shadow mode books nothing; a failed fee loses
    the fill.

  \<^item> \<^verbatim>\<open>Order_Moves\<close>, \<^verbatim>\<open>Order_Sync_Safety\<close>, \<^verbatim>\<open>Order_Expiry\<close>: which orders each step may write and to what
    status, carried from one transition up to the whole cycle.  Shown: what may expire, and when;
    the cleanup takes orphans only; which statuses a transition reaches; writing a reason can take an
    order out of a final state.

  \<^item> \<^verbatim>\<open>Validators\<close>: \<^verbatim>\<open>services/validators.py\<close>, \<^verbatim>\<open>services/guardrail_audit.py\<close>, \<^verbatim>\<open>services/source_policy.py\<close>,
    \<^verbatim>\<open>services/submit_lane_gate.py\<close> and \<^verbatim>\<open>services/compliance_validator.py\<close>.  Rule bundles and their
    results, with the interface \<open>rule_bundle\<close> interpreted on the runner, the lane and compliance.  Shown:
    exactly when the lane is open; which inputs each compliance rule stops.

  \<^item> \<^verbatim>\<open>Translation\<close>: \<^verbatim>\<open>services/translation.py\<close> and \<^verbatim>\<open>services/held_position_policy.py\<close>, with the intent that
    the decision pipeline hands over.

  \<^item> \<^verbatim>\<open>Execution_Policy\<close>, \<^verbatim>\<open>Execution_Guards\<close>, \<^verbatim>\<open>Execution\<close>: \<^verbatim>\<open>services/execution_service.py\<close>.  In this order: inputs
    of the sizing engine, thin markets and single-share probes; the guards, what they record, submit-time
    compliance, value at risk and freshness of snapshots; the pipeline (\<^verbatim>\<open>run_execution_pipeline\<close>) as a
    sequence of stages that go on, stop with a result or raise.  Quotes, the capabilities of the broker, its
    answer to a submission and what happens while a call waits are fields of \<open>pipeline_setting\<close>.

  \<^item> \<^verbatim>\<open>Execution_Stages\<close>, \<^verbatim>\<open>Execution_Safety\<close>: the contract \<open>pipeline_stage\<close> about the execution attempt,
    interpreted on every stage and on their composition, what a request has passed when it reaches the
    broker, and that an undisturbed order is answered.  Shown: the attempt is closed exactly with the
    result; sales are covered and buys vetted when they reach the broker; the result tells what the broker
    answered, in agreement with the stored order; an order that the stale snapshot guard stops stays VALIDATED; warnings about value at risk are
    lost.

  \<^item> This theory: a published policy charges every fill with amounts that the engine accepts.

  \<^bold>\<open>Conventions.\<close>  Record fields carry a prefix for their record.  A state-changing operation
  takes the state last and returns its result beside the new state, also when it raises.  Clock
  readings and fresh identifiers are arguments: numbered readings in \<^verbatim>\<open>Rate_Limit\<close>, readings
  addressed by their place in the code (\<open>env\<close>) in the order theories.  What other coroutines do
  during an await is an argument as well (\<open>others\<close>).  SHA-256, \<open>uuid5\<close>, \<open>str\<close> of a \<open>Decimal\<close> in the order theories, the \<open>UUID\<close>
  parser and the broker are parameters.  Texts that only reach logs and exception messages are
  left out; stored messages keep the values they are formatted with.

  \<^bold>\<open>Loops and bounds.\<close>  The retry loop runs at most \<open>max_retries\<close> times (three by default) and is
  structural recursion; the waiting loops are \<open>partial_function (option)\<close> and proved to return.
  Sizing assumes whole share counts below \<open>10 ^ 27\<close> and prices and amounts on a common decimal
  grid with at most 28 digits, so that truncating a rounded quotient is exact; fills assume
  cumulative quantities below \<open>10 ^ 28\<close>.  Both are far above the volume of any market.

  \<^bold>\<open>Not modelled.\<close>  PostgreSQL repositories (the in-memory repositories implement the same
  contracts), broker clients, AI agents, ingestion of news and disclosures, HTTP routes, user
  interface and scripts: input and output.  Savepoints of the synchronisation, which only a database
  error rolls back.  Of the execution service the log lines and elapsed times of the phase trace.
  Decision gates, market calendar and signal features are pure logic that a further extension can add.
\<close>

section \<open>Properties that span components\<close>

text \<open>The fill as it is stored once the policy has charged it.\<close>

definition charged :: "fee_tax_result \<Rightarrow> fill_event \<Rightarrow> fill_event" where
  "charged r f = f\<lparr>fe_fill_fee := Some (fr_fee r), fe_fill_tax := Some (fr_tax r),
     fe_fee_tax_source := Some (fee_tax_source_value (fr_fee_tax_source r))\<rparr>"

lemma charged_fill_valid:
  assumes "policy_fee_tax p ac ms side (fe_fill_price f) (fe_fill_quantity f) = Inr r"
    and "policy_rates_nonneg p" "0 \<le> fe_fill_price f" "0 < fe_fill_quantity f"
  shows "validate_fill (build_normalized_fill a i k side (charged r f)) = Inr ()"
  using policy_fee_tax_nonneg [OF assms(1,2,3)] assms(3,4)
  by (auto simp: validate_fill_def build_normalized_fill_def normalize_fee_tax_def or_zero_def
      charged_def Let_def)

text \<open>C13. What an operator may publish can be booked: once a fee policy is published, every fill from
  its activation on with a price and a positive quantity is charged without an error, and the
  charged fill passes the validation of the profit and loss engine, for any side, asset class and
  market segment.\<close>

theorem published_policy_charges_every_fill:
  assumes "publish_fee_tax_policy pn c e input who when False w = (Inr (Published r), w')"
    and "config_fresh (cw_versions w) (pr_new r)"
    and "\<forall>v \<in> set (map snd (cw_versions w)).
      cv_client_id v = c \<and> cv_environment v = e \<longrightarrow> cv_activated_at v \<noteq> None"
    and "cv_activated_at (pr_new r) = Some t" "t \<le> fe_fill_timestamp f"
    and "0 \<le> fe_fill_price f" "0 < fe_fill_quantity f"
  shows "\<exists>charge. compute_fee_tax (cw_versions w') c e ac ms side (fe_fill_price f) (fe_fill_quantity f)
        (fe_fill_timestamp f) = Inr charge
    \<and> validate_fill (build_normalized_fill a i k side (charged charge f)) = Inr ()"
proof -
  obtain policy where p: "policy_sane policy"
      "get_fee_tax_policy_at (cw_versions w') c e (fe_fill_timestamp f) = Inr (Some (pr_new r), Some policy)"
    using published_policy_found [OF assms(1-5)] by blast
  then have force: "policy_in_force (cw_versions w') c e (fe_fill_timestamp f) = Inr (Some policy)"
    by (auto simp: get_fee_tax_policy_at_def policy_in_force_def res_bind_Inr_iff split: option.splits)
  obtain charge where
    c: "policy_fee_tax policy ac ms side (fe_fill_price f) (fe_fill_quantity f) = Inr charge"
    using policy_fee_tax_ok_iff [of policy ac ms side] p(1) by (auto simp: policy_sane_def is_ok_iff)
  with force p(1) charged_fill_valid [OF c _ assms(6,7)] show ?thesis
    by (simp add: compute_fee_tax_in_force policy_sane_def)
qed

theorem published_policy_charges_every_fill_witness:
  "\<exists>charge. compute_fee_tax (cw_versions (snd ex_published)) 1 LIVE ''kr_stock'' (Some ''KOSPI'') SELL 100 4 2000
      = Inr charge
    \<and> validate_fill (build_normalized_fill 1 2 4 SELL (charged charge (snd (ex_booking 11 6 4 2000)))) = Inr ()"
proof -
  obtain r where r: "publish_fee_tax_policy ex_publish_env 1 LIVE ex_fee_input ''op'' None False
      ex_config_world = (Inr (Published r), snd ex_published)"
    "published_new ex_published = Some r" "cv_activated_at (pr_new r) = Some 1000"
    by (rule ex_published_ok)
  have f: "fe_fill_timestamp (snd (ex_booking 11 6 4 2000)) = 2000"
    "fe_fill_price (snd (ex_booking 11 6 4 2000)) = 100"
    "fe_fill_quantity (snd (ex_booking 11 6 4 2000)) = 4"
    by (simp_all add: ex_booking_def)
  show ?thesis
    using published_policy_charges_every_fill [OF r(1) _ _ r(3), of "snd (ex_booking 11 6 4 2000)"]
    by (simp add: f config_fresh_def ex_config_world_def)
qed

end
